(* ===== verification/Prelude.thy ===== *)
theory Prelude
  imports Main "HOL-Library.Word" "HOL-Library.Char_ord" "HOL-Library.List_Lexorder"
    "HOL-Library.Product_Lexorder"
begin

text \<open>
  Shared vocabulary of the development: Rust integer casts, operations that thread a state and
  may fail (the \<open>?\<close> operator), the invariant-preservation calculus \<open>keeps\<close>, and the
  row-list primitives that the SQL statements of the cache are built from (lookup by key,
  UPDATE .. WHERE, DELETE .. WHERE, ORDER BY .. LIMIT 1).
\<close>

named_theorems op_defs \<open>definitions of the sequencing combinators\<close>
named_theorems keeps_rules \<open>rules that show an operation preserves an invariant\<close>

section \<open>Bytes and integer casts\<close>

type_synonym byte = "8 word"
type_synonym bytes = "byte list"

text \<open>\<open>as_u64\<close>, \<open>as_i64\<close> and \<open>as_u32\<close> are Rust's \<open>as\<close> casts: the low bits are
  kept and reinterpreted. An i64 is an \<^typ>\<open>int\<close>, a u64 or u32 a \<^typ>\<open>nat\<close>.\<close>

definition as_u64 :: "int \<Rightarrow> nat" where
  "as_u64 i = nat (i mod 2 ^ 64)"

definition as_i64 :: "nat \<Rightarrow> int" where
  "as_i64 n = (let m = int (n mod 2 ^ 64) in if m < 2 ^ 63 then m else m - 2 ^ 64)"

definition as_u32 :: "int \<Rightarrow> nat" where
  "as_u32 i = nat (i mod 2 ^ 32)"

definition i64_range :: "int \<Rightarrow> bool" where
  "i64_range i \<longleftrightarrow> - (2 ^ 63) \<le> i \<and> i < 2 ^ 63"

lemma as_u64_nonneg [simp]: "0 \<le> i \<Longrightarrow> i < 2 ^ 64 \<Longrightarrow> as_u64 i = nat i"
  by (simp add: as_u64_def)

lemma as_u64_bound: "as_u64 i < 2 ^ 64"
  by (simp add: as_u64_def nat_less_iff)

lemma as_i64_small [simp]: "n < 2 ^ 63 \<Longrightarrow> as_i64 n = int n"
  by (simp add: as_i64_def Let_def)

lemma as_u32_of_nat [simp]: "n < 2 ^ 32 \<Longrightarrow> as_u32 (int n) = n"
  by (simp add: as_u32_def)

lemma as_i64_range: "i64_range (as_i64 n)"
proof -
  have "n mod 2 ^ 64 < 2 ^ 64" by simp
  then have "int (n mod 2 ^ 64) < 2 ^ 64" by (metis of_nat_less_numeral_power_cancel_iff)
  then show ?thesis by (auto simp: i64_range_def as_i64_def Let_def)
qed

text \<open>An i64 survives the trip through u64, whatever its sign.\<close>

lemma as_i64_as_u64 [simp]: "i64_range i \<Longrightarrow> as_i64 (as_u64 i) = i"
proof -
  assume i: "i64_range i"
  show ?thesis
  proof (cases "0 \<le> i")
    case True
    with i show ?thesis by (simp add: i64_range_def as_i64_def)
  next
    case False
    have "i mod 2 ^ 64 = (i + 2 ^ 64) mod 2 ^ 64" by simp
    also have "\<dots> = i + 2 ^ 64" using i False by (intro mod_pos_pos_trivial) (auto simp: i64_range_def)
    finally have "i mod 2 ^ 64 = i + 2 ^ 64" .
    with i False show ?thesis by (simp add: as_u64_def as_i64_def Let_def i64_range_def)
  qed
qed

section \<open>Strings\<close>

text \<open>A string is its sequence of UTF-8 bytes; the order of strings is the byte order.\<close>

definition to_ascii_lowercase :: "string \<Rightarrow> string" where
  "to_ascii_lowercase s = map (\<lambda>ch. if CHR ''A'' \<le> ch \<and> ch \<le> CHR ''Z'' then char_of (of_char ch + (32::nat)) else ch) s"

fun starts_with :: "string \<Rightarrow> string \<Rightarrow> bool" where
  "starts_with s [] = True"
| "starts_with [] (p # ps) = False"
| "starts_with (c # cs) (p # ps) = (c = p \<and> starts_with cs ps)"

fun contains_str :: "string \<Rightarrow> string \<Rightarrow> bool" where
  "contains_str [] pat = (pat = [])"
| "contains_str (c # cs) pat = (starts_with (c # cs) pat \<or> contains_str cs pat)"

lemma starts_with_iff: "starts_with s p \<longleftrightarrow> (\<exists>r. s = p @ r)"
  by (induction s p rule: starts_with.induct) auto

lemma contains_str_iff: "contains_str s p \<longleftrightarrow> (\<exists>l r. s = l @ p @ r)"
proof (induction s)
  case Nil
  then show ?case by auto
next
  case (Cons c cs)
  have "(\<exists>l r. c # cs = l @ p @ r) \<longleftrightarrow> (\<exists>r. c # cs = p @ r) \<or> (\<exists>l r. cs = l @ p @ r)"
    by (metis append_Cons append_Nil neq_Nil_conv list.inject)
  with Cons show ?case by (simp add: starts_with_iff)
qed

section \<open>Fallible operations on a state\<close>

text \<open>An operation takes the state and returns an error (\<open>Inl\<close>) or a value (\<open>Inr\<close>),
  together with the state it leaves behind. The state is returned on the error path too:
  what was written before a failing statement stays written. \<open>bnd\<close> is Rust's \<open>?\<close>.\<close>

type_synonym ('e, 's, 'a) op = "'s \<Rightarrow> ('e + 'a) \<times> 's"

definition ret :: "'a \<Rightarrow> ('e, 's, 'a) op" where
  "ret x = (\<lambda>s. (Inr x, s))"

definition fail :: "'e \<Rightarrow> ('e, 's, 'a) op" where
  "fail e = (\<lambda>s. (Inl e, s))"

definition bnd :: "('e, 's, 'a) op \<Rightarrow> ('a \<Rightarrow> ('e, 's, 'b) op) \<Rightarrow> ('e, 's, 'b) op" where
  "bnd m k = (\<lambda>s. case m s of (Inl e, s') \<Rightarrow> (Inl e, s') | (Inr x, s') \<Rightarrow> k x s')"

definition query :: "('s \<Rightarrow> 'e + 'a) \<Rightarrow> ('e, 's, 'a) op" where
  "query q = (\<lambda>s. (q s, s))"

fun for_each :: "('x \<Rightarrow> ('e, 's, unit) op) \<Rightarrow> 'x list \<Rightarrow> ('e, 's, unit) op" where
  "for_each f [] = ret ()"
| "for_each f (x # xs) = bnd (f x) (\<lambda>_. for_each f xs)"

declare ret_def [op_defs] fail_def [op_defs] bnd_def [op_defs] query_def [op_defs]

lemma ret_app [simp]: "ret x s = (Inr x, s)"
  by (simp add: ret_def)

lemma fail_app [simp]: "fail e s = (Inl e, s)"
  by (simp add: fail_def)

lemma query_app [simp]: "query q s = (q s, s)"
  by (simp add: query_def)

lemma bnd_ret [simp]: "bnd (ret x) k = k x"
  by (simp add: bnd_def ret_def)

lemma bnd_Inr: "m s = (Inr x, s') \<Longrightarrow> bnd m k s = k x s'"
  by (simp add: bnd_def)

lemma bnd_seq: "m s = (Inr x, s') \<Longrightarrow> k x s' = y \<Longrightarrow> bnd m k s = y"
  by (simp add: bnd_def)

lemma bnd_Inl: "m s = (Inl e, s') \<Longrightarrow> bnd m k s = (Inl e, s')"
  by (simp add: bnd_def)

lemma bnd_eq_Inr_iff:
  "bnd m k s = (Inr y, s'') \<longleftrightarrow> (\<exists>x s'. m s = (Inr x, s') \<and> k x s' = (Inr y, s''))"
  by (auto simp: bnd_def split: prod.splits sum.splits)

lemma bndE:
  assumes "bnd m k s = (r, s'')"
  obtains (Err) e where "m s = (Inl e, s'')" and "r = Inl e"
  | (Ok) x s' where "m s = (Inr x, s')" and "k x s' = (r, s'')"
  using assms by (auto simp: bnd_def split: prod.splits sum.splits)

definition keeps :: "('s \<Rightarrow> bool) \<Rightarrow> ('e, 's, 'a) op \<Rightarrow> bool" where
  "keeps P m \<longleftrightarrow> (\<forall>s. P s \<longrightarrow> P (snd (m s)))"

lemma keepsI: "(\<And>s. P s \<Longrightarrow> P (snd (m s))) \<Longrightarrow> keeps P m"
  by (simp add: keeps_def)

lemma keepsD: "keeps P m \<Longrightarrow> P s \<Longrightarrow> m s = (r, s') \<Longrightarrow> P s'"
  by (metis keeps_def snd_conv)

lemma keeps_ret [keeps_rules]: "keeps P (ret x)"
  by (simp add: keeps_def)

lemma keeps_fail [keeps_rules]: "keeps P (fail e)"
  by (simp add: keeps_def)

lemma keeps_query [keeps_rules]: "keeps P (query q)"
  by (simp add: keeps_def)

lemma keeps_bnd [keeps_rules]:
  assumes "keeps P m" and "\<And>x. keeps P (k x)"
  shows "keeps P (bnd m k)"
  using assms by (auto simp: keeps_def bnd_def split: prod.splits sum.splits)

lemma keeps_if [keeps_rules]:
  "(b \<Longrightarrow> keeps P m) \<Longrightarrow> (\<not> b \<Longrightarrow> keeps P n) \<Longrightarrow> keeps P (if b then m else n)"
  by simp

lemma keeps_option [keeps_rules]:
  "(x = None \<Longrightarrow> keeps P m) \<Longrightarrow> (\<And>y. x = Some y \<Longrightarrow> keeps P (f y)) \<Longrightarrow>
   keeps P (case x of None \<Rightarrow> m | Some y \<Rightarrow> f y)"
  by (cases x) simp_all

lemma keeps_for_each [keeps_rules]:
  "(\<And>x. x \<in> set xs \<Longrightarrow> keeps P (f x)) \<Longrightarrow> keeps P (for_each f xs)"
  by (induction xs) (auto intro!: keeps_ret keeps_bnd)

text \<open>\<open>as_result\<close> runs an operation and hands its \<open>Result\<close> on as a value.\<close>

definition as_result :: "('e, 's, 'a) op \<Rightarrow> ('e, 's, 'e + 'a) op" where
  "as_result m = (\<lambda>s. case m s of (r, s') \<Rightarrow> (Inr r, s'))"

lemma as_result_app: "m s = (r, s') \<Longrightarrow> as_result m s = (Inr r, s')"
  by (simp add: as_result_def)

lemma keeps_as_result [keeps_rules]: "keeps P m \<Longrightarrow> keeps P (as_result m)"
  by (auto simp: keeps_def as_result_def split: prod.splits)

text \<open>\<open>map_err\<close> rewrites the error of an operation.\<close>

definition map_err :: "('e \<Rightarrow> 'f) \<Rightarrow> ('e, 's, 'a) op \<Rightarrow> ('f, 's, 'a) op" where
  "map_err f m = (\<lambda>s. case m s of (Inl e, s') \<Rightarrow> (Inl (f e), s') | (Inr x, s') \<Rightarrow> (Inr x, s'))"

lemma map_err_eq_Inr_iff: "map_err f m s = (Inr x, s') \<longleftrightarrow> m s = (Inr x, s')"
  by (auto simp: map_err_def split: prod.splits sum.splits)

lemma map_err_Inl: "m s = (Inl e, s') \<Longrightarrow> map_err f m s = (Inl (f e), s')"
  by (simp add: map_err_def)

lemma keeps_map_err [keeps_rules]: "keeps P m \<Longrightarrow> keeps P (map_err f m)"
  by (auto simp: keeps_def map_err_def split: prod.splits sum.splits)

lemma keeps_sum [keeps_rules]:
  "(\<And>e. x = Inl e \<Longrightarrow> keeps P (f e)) \<Longrightarrow> (\<And>y. x = Inr y \<Longrightarrow> keeps P (g y)) \<Longrightarrow>
   keeps P (case x of Inl e \<Rightarrow> f e | Inr y \<Rightarrow> g y)"
  by (cases x) simp_all

lemma keeps_prod [keeps_rules]:
  "(\<And>a b. x = (a, b) \<Longrightarrow> keeps P (f a b)) \<Longrightarrow> keeps P (case x of (a, b) \<Rightarrow> f a b)"
  by (cases x) simp_all

section \<open>Sums as results\<close>

definition sbind :: "'e + 'a \<Rightarrow> ('a \<Rightarrow> 'e + 'b) \<Rightarrow> 'e + 'b" where
  "sbind m k = (case m of Inl e \<Rightarrow> Inl e | Inr x \<Rightarrow> k x)"

lemma sbind_simps [simp]: "sbind (Inl e) k = Inl e" "sbind (Inr x) k = k x"
  by (simp_all add: sbind_def)

lemma sbind_eq_Inr_iff: "sbind m k = Inr y \<longleftrightarrow> (\<exists>x. m = Inr x \<and> k x = Inr y)"
  by (cases m) auto

definition ok_or :: "'e \<Rightarrow> 'a option \<Rightarrow> 'e + 'a" where
  "ok_or err x = (case x of Some a \<Rightarrow> Inr a | None \<Rightarrow> Inl err)"

definition ensure :: "'e \<Rightarrow> bool \<Rightarrow> 'e + unit" where
  "ensure err b = (if b then Inr () else Inl err)"

lemma ok_or_eq_Inr: "ok_or e x = Inr a \<longleftrightarrow> x = Some a"
  by (auto simp: ok_or_def split: option.splits)

lemma ensure_eq_Inr: "ensure e b = Inr u \<longleftrightarrow> b"
  by (simp add: ensure_def)

section \<open>Rows\<close>

definition lookup_by :: "('r \<Rightarrow> 'k) \<Rightarrow> 'k \<Rightarrow> 'r list \<Rightarrow> 'r option" where
  "lookup_by key k rs = List.find (\<lambda>r. key r = k) rs"

definition update_where :: "('r \<Rightarrow> bool) \<Rightarrow> ('r \<Rightarrow> 'r) \<Rightarrow> 'r list \<Rightarrow> 'r list" where
  "update_where p f rs = map (\<lambda>r. if p r then f r else r) rs"

definition delete_where :: "('r \<Rightarrow> bool) \<Rightarrow> 'r list \<Rightarrow> 'r list" where
  "delete_where p rs = filter (\<lambda>r. \<not> p r) rs"

definition count_where :: "('r \<Rightarrow> bool) \<Rightarrow> 'r list \<Rightarrow> nat" where
  "count_where p rs = length (filter p rs)"

text \<open>\<open>first_by\<close> is the row \<open>ORDER BY key LIMIT 1\<close> returns.\<close>

fun first_by :: "('r \<Rightarrow> 'k::linorder) \<Rightarrow> 'r list \<Rightarrow> 'r option" where
  "first_by key [] = None"
| "first_by key (r # rs) =
     (case first_by key rs of
        None \<Rightarrow> Some r
      | Some q \<Rightarrow> if key q < key r then Some q else Some r)"

lemma lookup_by_Nil [simp]: "lookup_by key k [] = None"
  by (simp add: lookup_by_def)

lemma lookup_by_Cons [simp]:
  "lookup_by key k (r # rs) = (if key r = k then Some r else lookup_by key k rs)"
  by (simp add: lookup_by_def)

lemma lookup_by_SomeD: "lookup_by key k rs = Some r \<Longrightarrow> r \<in> set rs \<and> key r = k"
  by (induction rs) (auto split: if_splits)

lemma lookup_by_None_iff: "lookup_by key k rs = None \<longleftrightarrow> k \<notin> key ` set rs"
  by (induction rs) auto

lemma lookup_by_ex: "k \<in> key ` set rs \<Longrightarrow> \<exists>r. lookup_by key k rs = Some r"
  using lookup_by_None_iff[of key k rs] by auto

lemma lookup_by_unique:
  "distinct (map key rs) \<Longrightarrow> r \<in> set rs \<Longrightarrow> lookup_by key (key r) rs = Some r"
  by (induction rs) (auto simp: image_iff)

lemma lookup_by_append:
  "lookup_by key k (rs @ qs) =
     (case lookup_by key k rs of None \<Rightarrow> lookup_by key k qs | Some r \<Rightarrow> Some r)"
  by (induction rs) auto

lemma lookup_by_delete_where:
  assumes "\<And>r. r \<in> set rs \<Longrightarrow> key r = k \<Longrightarrow> \<not> p r"
  shows "lookup_by key k (delete_where p rs) = lookup_by key k rs"
  using assms by (induction rs) (auto simp: delete_where_def)

lemma set_delete_where: "set (delete_where p rs) = {r \<in> set rs. \<not> p r}"
  by (auto simp: delete_where_def)

lemma distinct_delete_where:
  "distinct (map key rs) \<Longrightarrow> distinct (map key (delete_where p rs))"
  by (induction rs) (auto simp: delete_where_def)

lemma length_delete_where: "length (delete_where p rs) + count_where p rs = length rs"
  by (induction rs) (auto simp: delete_where_def count_where_def)

lemma update_where_Nil [simp]: "update_where p f [] = []"
  by (simp add: update_where_def)

lemma update_where_Cons [simp]:
  "update_where p f (r # rs) = (if p r then f r else r) # update_where p f rs"
  by (simp add: update_where_def)

lemma length_update_where [simp]: "length (update_where p f rs) = length rs"
  by (simp add: update_where_def)

lemma set_update_where: "set (update_where p f rs) = (\<lambda>r. if p r then f r else r) ` set rs"
  by (simp add: update_where_def)

lemma first_by_None_iff [simp]: "first_by key rs = None \<longleftrightarrow> rs = []"
  by (cases rs) (auto split: option.splits if_splits)

lemma first_by_in: "first_by key rs = Some r \<Longrightarrow> r \<in> set rs"
  by (induction rs arbitrary: r) (auto split: option.splits if_splits)

lemma first_by_least: "first_by key rs = Some r \<Longrightarrow> q \<in> set rs \<Longrightarrow> key r \<le> key q"
proof (induction rs arbitrary: r q)
  case Nil
  then show ?case by simp
next
  case (Cons x xs)
  then show ?case
    by (cases "first_by key xs") (fastforce split: if_splits)+
qed

lemma first_by_filter_update:
  assumes "\<And>r. key (upd r) = key r" "\<And>r. P (upd r) = P r"
  shows "first_by key (filter P (update_where p upd rs)) =
    map_option (\<lambda>r. if p r then upd r else r) (first_by key (filter P rs))"
  using assms by (induction rs) (auto split: option.splits)

lemma insort_key_map: "insort_key f (g x) (map g ys) = map g (insort_key (\<lambda>z. f (g z)) x ys)"
  by (induction ys) auto

lemma sort_key_map: "sort_key f (map g xs) = map g (sort_key (f \<circ> g) xs)"
  by (induction xs) (auto simp: insort_key_map comp_def)

lemma image_filter_disjoint: "f ` A \<inter> f ` {q \<in> B. f q \<notin> f ` A} = {}"
  by (auto; metis imageI)

lemma image_filter_union: "f ` A \<union> f ` {q \<in> B. f q \<notin> f ` A} = f ` A \<union> f ` B"
  by (auto; metis imageI)

text \<open>An UPDATE that leaves the key alone leaves key-based facts alone.\<close>

locale key_stable =
  fixes key :: "'r \<Rightarrow> 'k" and upd :: "'r \<Rightarrow> 'r"
  assumes key_upd: "key (upd r) = key r"
begin

lemma keys_update_where: "map key (update_where p upd rs) = map key rs"
  by (induction rs) (auto simp: key_upd)

lemma keyset_update_where: "key ` set (update_where p upd rs) = key ` set rs"
  by (metis keys_update_where list.set_map)

lemma lookup_by_update_where:
  "lookup_by key k (update_where p upd rs) =
     map_option (\<lambda>r. if p r then upd r else r) (lookup_by key k rs)"
  by (induction rs) (auto simp: key_upd)

text \<open>A column the UPDATE does not write reads as before.\<close>

lemma proj_update_where:
  assumes "\<And>r. g (upd r) = g r"
  shows "map_option g (lookup_by key k (update_where p upd rs)) = map_option g (lookup_by key k rs)"
  using assms by (induction rs) (auto simp: key_upd)

end

end
