(* ===== verification/Rust_Text.thy ===== *)
theory Rust_Text
  imports Prelude
begin

text \<open>
  The parts of Rust's standard library for text that the parsers and registries use, on strings as UTF-8
  bytes: decimal formatting and \<open>str::parse\<close> of unsigned integers, \<open>strip_suffix\<close>, \<open>split\<close>,
  \<open>split_once\<close>, \<open>split_whitespace\<close> and \<open>trim\<close> (Unicode white space included), and paths
  as their components. Each has the lemmas its clients need.
\<close>

section \<open>Decimal numbers\<close>

definition digit_char :: "nat \<Rightarrow> char" where
  "digit_char d = char_of (48 + d)"

definition digit_val :: "char \<Rightarrow> nat option" where
  "digit_val ch = (let v = (of_char ch :: nat) in if 48 \<le> v \<and> v \<le> 57 then Some (v - 48) else None)"

text \<open>\<open>format!("{n}")\<close>.\<close>

fun show_nat :: "nat \<Rightarrow> string" where
  "show_nat n = (if n < 10 then [digit_char n] else show_nat (n div 10) @ [digit_char (n mod 10)])"

declare show_nat.simps [simp del]

text \<open>The digit loop of \<open>from_str\<close>, with its overflow check at every digit.\<close>

fun parse_digits :: "nat \<Rightarrow> nat \<Rightarrow> string \<Rightarrow> nat option" where
  "parse_digits max_val acc [] = Some acc"
| "parse_digits max_val acc (ch # cs) =
     (case digit_val ch of
        None \<Rightarrow> None
      | Some d \<Rightarrow> if acc * 10 + d \<le> max_val then parse_digits max_val (acc * 10 + d) cs else None)"

text \<open>\<open>parse::<u64>\<close> and \<open>parse::<u32>\<close>: one leading \<open>+\<close> is allowed, an empty number is not.\<close>

definition parse_uint :: "nat \<Rightarrow> string \<Rightarrow> nat option" where
  "parse_uint max_val s =
     (let digits = (case s of ch # cs \<Rightarrow> if ch = CHR ''+'' then cs else s | [] \<Rightarrow> []) in
      if digits = [] then None else parse_digits max_val 0 digits)"

definition u64_max :: nat where
  "u64_max = 2 ^ 64 - 1"

definition u32_max :: nat where
  "u32_max = 2 ^ 32 - 1"

lemma of_char_digit [simp]: "d < 10 \<Longrightarrow> (of_char (digit_char d) :: nat) = 48 + d"
  by (simp add: digit_char_def)

lemma digit_val_digit_char [simp]: "d < 10 \<Longrightarrow> digit_val (digit_char d) = Some d"
  by (simp add: digit_val_def)

lemma digit_char_eq_iff: "d < 10 \<Longrightarrow> digit_char d = ch \<longleftrightarrow> digit_val ch = Some d"
proof
  assume d: "d < 10" and v: "digit_val ch = Some d"
  then have "(of_char ch :: nat) = 48 + d" by (auto simp: digit_val_def Let_def split: if_splits)
  with d show "digit_char d = ch" by (metis digit_char_def char_of_char)
qed auto

lemma show_nat_not_Nil [simp]: "show_nat n \<noteq> []"
  by (subst show_nat.simps) simp

lemma show_nat_digits: "ch \<in> set (show_nat n) \<Longrightarrow> \<exists>d < 10. ch = digit_char d"
proof (induction n rule: show_nat.induct)
  case (1 n)
  have "n mod 10 < 10" by simp
  then have "\<exists>d < 10. digit_char (n mod 10) = digit_char d" by blast
  with 1 show ?case by (cases "n < 10") (auto simp: show_nat.simps [of n])
qed

lemma parse_digits_append:
  "parse_digits m acc (xs @ ys) = (case parse_digits m acc xs of None \<Rightarrow> None | Some n \<Rightarrow> parse_digits m n ys)"
  by (induction xs arbitrary: acc) (auto split: option.splits)

lemma parse_digits_show: "n \<le> m \<Longrightarrow> parse_digits m 0 (show_nat n) = Some n"
proof (induction n rule: show_nat.induct)
  case (1 n)
  show ?case
  proof (cases "n < 10")
    case True
    with 1 show ?thesis by (simp add: show_nat.simps [of n])
  next
    case False
    have "n div 10 \<le> m" using 1(2) div_le_dividend le_trans by blast
    with False 1 show ?thesis by (simp add: show_nat.simps [of n] parse_digits_append)
  qed
qed

lemma parse_uint_show: "n \<le> m \<Longrightarrow> parse_uint m (show_nat n) = Some n"
proof -
  assume n: "n \<le> m"
  obtain ch cs where s: "show_nat n = ch # cs" by (cases "show_nat n") simp_all
  with show_nat_digits [of ch n] obtain d where "d < 10" "ch = digit_char d" by auto
  then have "ch \<noteq> CHR ''+''" by (auto simp: digit_char_eq_iff digit_val_def)
  with s parse_digits_show [OF n] show ?thesis by (simp add: parse_uint_def)
qed

lemma show_nat_inject: "show_nat a = show_nat b \<longleftrightarrow> a = b"
proof
  assume "show_nat a = show_nat b"
  then have "parse_digits (max a b) 0 (show_nat a) = parse_digits (max a b) 0 (show_nat b)" by (simp only:)
  moreover have "parse_digits (max a b) 0 (show_nat a) = Some a" by (rule parse_digits_show) simp
  moreover have "parse_digits (max a b) 0 (show_nat b) = Some b" by (rule parse_digits_show) simp
  ultimately have "Some a = Some b" by (simp only:)
  then show "a = b" by simp
qed simp

lemma parse_digits_bound: "parse_digits m acc s = Some n \<Longrightarrow> acc \<le> m \<Longrightarrow> n \<le> m"
  by (induction s arbitrary: acc) (auto split: option.splits if_splits)

lemma parse_uint_bound: "parse_uint m s = Some n \<Longrightarrow> n \<le> m"
  by (auto simp: parse_uint_def Let_def dest: parse_digits_bound split: if_splits)

section \<open>Hexadecimal digits and signed numbers\<close>

fun hex_digit :: "nat \<Rightarrow> char" where
  "hex_digit n = (if n < 10 then char_of (48 + n) else char_of (87 + n))"

definition hex_val :: "char \<Rightarrow> nat option" where
  "hex_val ch = (let v = (of_char ch :: nat) in
     if 48 \<le> v \<and> v \<le> 57 then Some (v - 48)
     else if 97 \<le> v \<and> v \<le> 102 then Some (v - 87)
     else if 65 \<le> v \<and> v \<le> 70 then Some (v - 55) else None)"

lemma hex_digit_inj: "m < 16 \<Longrightarrow> n < 16 \<Longrightarrow> hex_digit m = hex_digit n \<Longrightarrow> m = n"
  by (auto dest!: arg_cong [of _ _ "of_char :: char \<Rightarrow> nat"] split: if_splits)

lemma hex_val_hex_digit [simp]: "n < 16 \<Longrightarrow> hex_val (hex_digit n) = Some n"
  by (simp add: hex_val_def)

text \<open>\<open>u32::from_str_radix(.., 16)\<close> on at most eight characters, where it cannot overflow.\<close>

definition parse_hex :: "string \<Rightarrow> nat option" where
  "parse_hex s =
     (let digits = (case s of ch # cs \<Rightarrow> if ch = CHR ''+'' then cs else s | [] \<Rightarrow> []) in
      if digits = [] \<or> (\<exists>ch \<in> set digits. hex_val ch = None) then None
      else Some (foldl (\<lambda>acc ch. 16 * acc + the (hex_val ch)) 0 digits))"

text \<open>\<open>parse::<i64>\<close>.\<close>

definition parse_i64 :: "string \<Rightarrow> int option" where
  "parse_i64 s =
     (case s of
        [] \<Rightarrow> None
      | ch # cs \<Rightarrow>
          if ch = CHR ''-'' then (if cs = [] then None else map_option (\<lambda>n. - int n) (parse_digits (2 ^ 63) 0 cs))
          else map_option int (parse_uint (2 ^ 63 - 1) s))"

section \<open>Characters of a UTF-8 string\<close>

text \<open>The number of bytes of the character a byte starts, the encoding of a scalar value, \<open>char::from_u32\<close>, and the
  first \<open>n\<close> characters with the rest.\<close>

definition char_len :: "char \<Rightarrow> nat" where
  "char_len ch = (let v = (of_char ch :: nat) in if v < 192 then 1 else if v < 224 then 2 else if v < 240 then 3 else 4)"

definition utf8_encode :: "nat \<Rightarrow> string" where
  "utf8_encode n = map char_of
     (if n < 128 then [n]
      else if n < 2048 then [192 + n div 64, 128 + n mod 64]
      else if n < 65536 then [224 + n div 4096, 128 + n div 64 mod 64, 128 + n mod 64]
      else [240 + n div 262144, 128 + n div 4096 mod 64, 128 + n div 64 mod 64, 128 + n mod 64])"

definition char_from_u32 :: "nat \<Rightarrow> nat option" where
  "char_from_u32 n = (if n \<ge> 0x110000 \<or> 0xD800 \<le> n \<and> n \<le> 0xDFFF then None else Some n)"

fun take_chars :: "nat \<Rightarrow> string \<Rightarrow> string \<times> string" where
  "take_chars 0 s = ([], s)"
| "take_chars (Suc n) [] = ([], [])"
| "take_chars (Suc n) (c # cs) =
     (let k = char_len c - 1; (w, r) = take_chars n (drop k cs) in (c # take k cs @ w, r))"

lemma take_chars_length: "length (snd (take_chars n s)) \<le> length s"
proof (induction n s rule: take_chars.induct)
  case (3 n c cs)
  then show ?case by (auto simp: Let_def split: prod.splits intro: le_trans)
qed auto

text \<open>\<open>str::from_utf8\<close> succeeds on well-formed UTF-8: no overlong forms, no surrogates, nothing above
  \<open>U+10FFFF\<close>.\<close>

definition cont_in :: "nat \<Rightarrow> nat \<Rightarrow> char \<Rightarrow> bool" where
  "cont_in lo hi ch \<longleftrightarrow> lo \<le> (of_char ch :: nat) \<and> (of_char ch :: nat) \<le> hi"

definition second_byte :: "nat \<Rightarrow> char \<Rightarrow> bool" where
  "second_byte v =
     (if v = 0xE0 then cont_in 0xA0 0xBF else if v = 0xED then cont_in 0x80 0x9F
      else if v = 0xF0 then cont_in 0x90 0xBF else if v = 0xF4 then cont_in 0x80 0x8F else cont_in 0x80 0xBF)"

fun utf8_valid :: "string \<Rightarrow> bool" where
  "utf8_valid [] = True"
| "utf8_valid (c # cs) =
     (let v = (of_char c :: nat) in
      if v < 128 then utf8_valid cs
      else if 0xC2 \<le> v \<and> v \<le> 0xDF then (case cs of a # r \<Rightarrow> second_byte v a \<and> utf8_valid r | _ \<Rightarrow> False)
      else if 0xE0 \<le> v \<and> v \<le> 0xEF then
        (case cs of a # b # r \<Rightarrow> second_byte v a \<and> cont_in 0x80 0xBF b \<and> utf8_valid r | _ \<Rightarrow> False)
      else if 0xF0 \<le> v \<and> v \<le> 0xF4 then
        (case cs of a # b # d # r \<Rightarrow> second_byte v a \<and> cont_in 0x80 0xBF b \<and> cont_in 0x80 0xBF d \<and> utf8_valid r | _ \<Rightarrow> False)
      else False)"

declare utf8_valid.simps(2) [simp del]

lemma utf8_valid_ascii: "(\<And>c. c \<in> set s \<Longrightarrow> of_char c < (128 :: nat)) \<Longrightarrow> utf8_valid s"
  by (induction s) (auto simp: utf8_valid.simps)

text \<open>\<open>String::from_utf8_lossy\<close>: every maximal prefix of a character that cannot be completed becomes one
  \<open>U+FFFD\<close>. \<open>utf8_step\<close> says whether a character starts here, and how many bytes to take.\<close>

fun utf8_tail :: "nat \<Rightarrow> string \<Rightarrow> nat \<Rightarrow> bool \<times> nat" where
  "utf8_tail 0 cs k = (True, k)"
| "utf8_tail (Suc n) [] k = (False, k)"
| "utf8_tail (Suc n) (c # cs) k = (if cont_in 0x80 0xBF c then utf8_tail n cs (k + 1) else (False, k))"

definition utf8_step :: "char \<Rightarrow> string \<Rightarrow> bool \<times> nat" where
  "utf8_step c cs =
     (let v = (of_char c :: nat) in
      if v < 128 then (True, 1)
      else if v < 0xC2 \<or> v > 0xF4 then (False, 1)
      else case cs of
        [] \<Rightarrow> (False, 1)
      | a # as \<Rightarrow> if second_byte v a then utf8_tail (if v < 0xE0 then 0 else if v < 0xF0 then 1 else 2) as 2 else (False, 1))"

lemma utf8_tail_pos: "0 < k \<Longrightarrow> 0 < snd (utf8_tail n cs k)"
  by (induction n cs k rule: utf8_tail.induct) auto

lemma utf8_step_pos: "0 < snd (utf8_step c cs)"
  by (auto simp: utf8_step_def Let_def utf8_tail_pos split: list.splits)

function from_utf8_lossy :: "string \<Rightarrow> string" where
  "from_utf8_lossy [] = []"
| "from_utf8_lossy (c # cs) =
     (let (ok, k) = utf8_step c cs in
      (if ok then take k (c # cs) else utf8_encode 0xFFFD) @ from_utf8_lossy (drop k (c # cs)))"
  by pat_completeness auto
termination
proof (relation "measure length")
  fix c cs x ok k assume "x = utf8_step c cs" "(ok, k) = x"
  then have "0 < k" using utf8_step_pos [of c cs] by (metis snd_conv)
  then show "(drop k (c # cs), c # cs) \<in> measure length" by simp
qed simp

declare from_utf8_lossy.simps(2) [simp del]

lemma utf8_valid_step:
  assumes "utf8_valid (c # cs)"
  shows "fst (utf8_step c cs) \<and> utf8_valid (drop (snd (utf8_step c cs)) (c # cs))"
proof -
  define v where "v = (of_char c :: nat)"
  note valid = assms [unfolded utf8_valid.simps(2) Let_def, folded v_def]
  note step = utf8_step_def [of c, unfolded Let_def, folded v_def]
  consider "v < 128" | "0xC2 \<le> v" "v \<le> 0xDF" | "0xE0 \<le> v" "v \<le> 0xEF" | "0xF0 \<le> v" "v \<le> 0xF4"
    using valid by (metis)
  then show ?thesis
  proof cases
    case 1
    then show ?thesis using valid by (simp add: step)
  next
    case 2
    then obtain a r where "cs = a # r" "second_byte v a" "utf8_valid r" using valid by (cases cs) auto
    with 2 show ?thesis by (simp add: step)
  next
    case 3
    then obtain a b r where "cs = a # b # r" "second_byte v a" "cont_in 0x80 0xBF b" "utf8_valid r"
      using valid by (cases cs; cases "tl cs") auto
    with 3 show ?thesis by (simp add: step)
  next
    case 4
    then obtain a b d r where "cs = a # b # d # r" "second_byte v a" "cont_in 0x80 0xBF b" "cont_in 0x80 0xBF d" "utf8_valid r"
      using valid by (cases cs; cases "tl cs"; cases "tl (tl cs)") auto
    with 4 show ?thesis by (simp add: step numeral_eq_Suc)
  qed
qed

lemma from_utf8_lossy_valid: "utf8_valid s \<Longrightarrow> from_utf8_lossy s = s"
proof (induction s rule: from_utf8_lossy.induct)
  case (2 c cs)
  obtain ok k where k: "utf8_step c cs = (ok, k)" by fastforce
  with 2(2) have "ok" "utf8_valid (drop k (c # cs))" using utf8_valid_step [of c cs] by auto
  with 2(1) [OF k [symmetric] refl] k show ?case by (simp add: from_utf8_lossy.simps(2))
qed simp

text \<open>\<open>str::find\<close> with the part after the match. UTF-8 is self-synchronising, so searching bytes is searching
  characters.\<close>

fun find_after :: "string \<Rightarrow> string \<Rightarrow> string option" where
  "find_after key [] = (if key = [] then Some [] else None)"
| "find_after key (c # cs) = (if starts_with (c # cs) key then Some (drop (length key) (c # cs)) else find_after key cs)"

lemma find_after_skip: "k \<notin> set pre \<Longrightarrow> find_after (k # ks) (pre @ s) = find_after (k # ks) s"
  by (induction pre) auto

section \<open>Suffixes and splitting\<close>

definition strip_suffix :: "char \<Rightarrow> string \<Rightarrow> string option" where
  "strip_suffix ch s = (if s \<noteq> [] \<and> last s = ch then Some (butlast s) else None)"

definition strip_prefix :: "string \<Rightarrow> string \<Rightarrow> string option" where
  "strip_prefix p s = (if starts_with s p then Some (drop (length p) s) else None)"

lemma strip_prefix_eq_Some: "strip_prefix p s = Some r \<longleftrightarrow> s = p @ r"
  by (auto simp: strip_prefix_def starts_with_iff)

lemma strip_suffix_eq_Some: "strip_suffix ch s = Some r \<longleftrightarrow> s = r @ [ch]"
  by (cases s rule: rev_cases) (auto simp: strip_suffix_def)

text \<open>\<open>split(ch)\<close>: the pieces between the separators, at least one.\<close>

fun split_on :: "char \<Rightarrow> string \<Rightarrow> string list" where
  "split_on sep [] = [[]]"
| "split_on sep (c # cs) =
     (if c = sep then [] # split_on sep cs
      else case split_on sep cs of [] \<Rightarrow> [[c]] | p # ps \<Rightarrow> (c # p) # ps)"

lemma split_on_not_Nil [simp]: "split_on sep s \<noteq> []"
  by (cases s) (auto split: list.splits)

lemma split_on_no_sep: "p \<in> set (split_on sep s) \<Longrightarrow> sep \<notin> set p"
  by (induction s arbitrary: p) (auto split: if_splits list.splits)

text \<open>Joining the pieces with the separator gives the string back.\<close>

fun join_with :: "char \<Rightarrow> string list \<Rightarrow> string" where
  "join_with sep [] = []"
| "join_with sep [p] = p"
| "join_with sep (p # q # ps) = p @ sep # join_with sep (q # ps)"

lemma join_split_on: "join_with sep (split_on sep s) = s"
proof (induction s)
  case (Cons c cs)
  obtain p ps where p: "split_on sep cs = p # ps" by (meson neq_Nil_conv split_on_not_Nil)
  with Cons show ?case by (cases ps) auto
qed simp

lemma split_on_append_sep: "split_on sep (a @ sep # b) = split_on sep a @ split_on sep b"
proof (induction a)
  case (Cons c cs)
  obtain p ps where p: "split_on sep cs = p # ps" by (meson neq_Nil_conv split_on_not_Nil)
  with Cons show ?case by auto
qed simp

lemma split_on_none: "sep \<notin> set s \<Longrightarrow> split_on sep s = [s]"
  by (induction s) auto

text \<open>\<open>split_once(ch)\<close>: at the first separator.\<close>

fun split_once :: "char \<Rightarrow> string \<Rightarrow> (string \<times> string) option" where
  "split_once sep [] = None"
| "split_once sep (c # cs) =
     (if c = sep then Some ([], cs) else map_option (\<lambda>(k, v). (c # k, v)) (split_once sep cs))"

lemma split_once_eq_Some: "split_once sep s = Some (k, v) \<longleftrightarrow> s = k @ sep # v \<and> sep \<notin> set k"
proof (induction s arbitrary: k)
  case (Cons c cs)
  then show ?case by (cases k) auto
qed simp

section \<open>White space\<close>

text \<open>The length of the white-space character (Unicode \<open>White_Space\<close>) at the head of a string, 0 if there is
  none.\<close>

fun ws_at :: "string \<Rightarrow> nat" where
  "ws_at [] = 0"
| "ws_at (c # cs) =
     (let b = (of_char c :: nat); at = (\<lambda>i. if i < length cs then (of_char (cs ! i) :: nat) else 0) in
      if b = 32 \<or> 9 \<le> b \<and> b \<le> 13 then 1
      else if b = 194 \<and> (at 0 = 133 \<or> at 0 = 160) then 2
      else if b = 225 \<and> at 0 = 154 \<and> at 1 = 128 then 3
      else if b = 226 \<and> at 0 = 128 \<and> (128 \<le> at 1 \<and> at 1 \<le> 138 \<or> at 1 = 168 \<or> at 1 = 169 \<or> at 1 = 175) then 3
      else if b = 226 \<and> at 0 = 129 \<and> at 1 = 159 then 3
      else if b = 227 \<and> at 0 = 128 \<and> at 1 = 128 then 3
      else 0)"

declare ws_at.simps(2) [simp del]

function trim_start :: "string \<Rightarrow> string" where
  "trim_start s = (if ws_at s = 0 then s else trim_start (drop (ws_at s) s))"
  by pat_completeness auto
termination
proof (relation "measure length")
  fix s assume "ws_at s \<noteq> 0"
  then have "s \<noteq> []" by auto
  with \<open>ws_at s \<noteq> 0\<close> show "(drop (ws_at s) s, s) \<in> measure length" by simp
qed simp

declare trim_start.simps [simp del]

fun trim_end :: "string \<Rightarrow> string" where
  "trim_end [] = []"
| "trim_end (c # cs) = (if trim_start (c # cs) = [] then [] else c # trim_end cs)"

definition trim :: "string \<Rightarrow> string" where
  "trim s = trim_end (trim_start s)"

text \<open>\<open>split_whitespace\<close>: the maximal runs without white space.\<close>

function take_word :: "string \<Rightarrow> string \<times> string" where
  "take_word s = (if s = [] \<or> ws_at s \<noteq> 0 then ([], s) else (let (w, r) = take_word (tl s) in (hd s # w, r)))"
  by pat_completeness auto
termination by (relation "measure length") (auto simp: neq_Nil_conv)

declare take_word.simps [simp del]

lemma take_word_append: "take_word s = (w, r) \<Longrightarrow> s = w @ r"
proof (induction s arbitrary: w)
  case Nil
  then show ?case by (simp add: take_word.simps)
next
  case (Cons c cs)
  obtain w' r' where w': "take_word cs = (w', r')" by fastforce
  from Cons.prems show ?case
  proof (cases "ws_at (c # cs) = 0")
    case True
    with Cons.prems w' have "w = c # w'" "r = r'" by (simp_all add: take_word.simps [of "c # cs"])
    with Cons.IH w' show ?thesis by simp
  qed (simp add: take_word.simps [of "c # cs"])
qed

lemma take_word_progress: "s \<noteq> [] \<Longrightarrow> ws_at s = 0 \<Longrightarrow> take_word s = (w, r) \<Longrightarrow> length r < length s"
  by (subst (asm) take_word.simps) (auto simp: neq_Nil_conv split: prod.splits dest!: take_word_append)

lemma trim_start_length: "length (trim_start s) \<le> length s"
proof (induction s rule: trim_start.induct)
  case (1 s)
  then show ?case by (subst trim_start.simps) (auto intro: le_trans)
qed

lemma trim_start_ws: "ws_at (trim_start s) = 0"
proof (induction s rule: trim_start.induct)
  case (1 s)
  then show ?case by (subst trim_start.simps) auto
qed

function split_whitespace :: "string \<Rightarrow> string list" where
  "split_whitespace s =
     (case trim_start s of
        [] \<Rightarrow> []
      | c # cs \<Rightarrow> (let (w, r) = take_word (c # cs) in w # split_whitespace r))"
  by pat_completeness auto
termination
proof (relation "measure length")
  fix s :: string and c cs x w r
  assume a: "trim_start s = c # cs" "x = take_word (c # cs)" "(w, r) = x"
  then have "ws_at (c # cs) = 0" using trim_start_ws [of s] by simp
  then have "length r < length (c # cs)" using a take_word_progress [of "c # cs" w r] by simp
  also have "\<dots> \<le> length s" using a trim_start_length [of s] by simp
  finally show "(r, s) \<in> measure length" by simp
qed simp

declare split_whitespace.simps [simp del]

section \<open>Well-formed text, character by character\<close>

lemma second_byte_high: "second_byte v a \<Longrightarrow> 128 \<le> (of_char a :: nat)"
  by (auto simp: second_byte_def cont_in_def split: if_splits)

lemma utf8_valid_char:
  assumes "utf8_valid (c # cs)"
  shows "(\<forall>x \<in> set (take (char_len c - 1) cs). 128 \<le> (of_char x :: nat)) \<and> utf8_valid (drop (char_len c - 1) cs)"
proof -
  define v where "v = (of_char c :: nat)"
  note valid = assms [unfolded utf8_valid.simps(2) Let_def, folded v_def]
  note len = char_len_def [of c, unfolded Let_def, folded v_def]
  consider "v < 128" | "0xC2 \<le> v" "v \<le> 0xDF" | "0xE0 \<le> v" "v \<le> 0xEF" | "0xF0 \<le> v" "v \<le> 0xF4"
    using valid by metis
  then show ?thesis
  proof cases
    case 1
    then show ?thesis using valid by (simp add: len)
  next
    case 2
    then obtain a r where "cs = a # r" "second_byte v a" "utf8_valid r" using valid by (cases cs) auto
    with 2 show ?thesis by (simp add: len second_byte_high)
  next
    case 3
    then obtain a b r where "cs = a # b # r" "second_byte v a" "cont_in 0x80 0xBF b" "utf8_valid r"
      using valid by (cases cs; cases "tl cs") auto
    moreover have "char_len c = 3" using 3 by (simp add: len)
    ultimately show ?thesis by (simp add: second_byte_high cont_in_def)
  next
    case 4
    then obtain a b d r where "cs = a # b # d # r" "second_byte v a" "cont_in 0x80 0xBF b" "cont_in 0x80 0xBF d" "utf8_valid r"
      using valid by (cases cs; cases "tl cs"; cases "tl (tl cs)") auto
    moreover have "char_len c = 4" using 4 by (simp add: len)
    ultimately show ?thesis by (simp add: second_byte_high cont_in_def)
  qed
qed

section \<open>Text without outer white space\<close>

lemma ws_at_visible: "32 < (of_char c :: nat) \<Longrightarrow> (of_char c :: nat) < 128 \<Longrightarrow> ws_at (c # s) = 0"
  by (simp add: ws_at.simps(2) Let_def)

lemma ws_at_ascii: "(of_char c :: nat) < 128 \<Longrightarrow> ws_at (c # s) \<le> 1"
  by (simp add: ws_at.simps(2) Let_def)

definition ascii_text :: "string \<Rightarrow> bool" where
  "ascii_text s \<longleftrightarrow> (\<forall>c \<in> set s. (of_char c :: nat) < 128)"

lemma trim_start_keeps:
  "ascii_text s \<Longrightarrow> s \<noteq> [] \<Longrightarrow> 32 < (of_char (last s) :: nat) \<Longrightarrow> trim_start s \<noteq> []"
proof (induction s)
  case (Cons c cs)
  have "ws_at (c # cs) \<le> 1" using Cons.prems(1) by (intro ws_at_ascii) (simp add: ascii_text_def)
  then consider "ws_at (c # cs) = 0" | "ws_at (c # cs) = 1" by linarith
  then show ?case
  proof cases
    case 1
    then show ?thesis by (simp add: trim_start.simps)
  next
    case 2
    then have "cs \<noteq> []" using Cons.prems ws_at_visible [of c cs] by (auto simp: ascii_text_def)
    with Cons 2 show ?thesis by (subst trim_start.simps) (simp add: ascii_text_def)
  qed
qed simp

lemma trim_end_id: "ascii_text s \<Longrightarrow> s = [] \<or> 32 < (of_char (last s) :: nat) \<Longrightarrow> trim_end s = s"
proof (induction s)
  case (Cons c cs)
  then have "trim_start (c # cs) \<noteq> []" using trim_start_keeps [of "c # cs"] by simp
  moreover have "trim_end cs = cs" using Cons by (cases cs) (auto simp: ascii_text_def)
  ultimately show ?case by simp
qed simp

lemma trim_id:
  assumes "ascii_text s" "s = [] \<or> 32 < (of_char (hd s) :: nat) \<and> 32 < (of_char (last s) :: nat)"
  shows "trim s = s"
proof -
  have "ws_at s = 0" using assms by (cases s) (auto simp: ascii_text_def ws_at_visible)
  then have "trim_start s = s" by (simp add: trim_start.simps)
  with assms trim_end_id show ?thesis by (auto simp: trim_def)
qed

end
