(* ===== verification/Component_Cache.thy ===== *)
theory Component_Cache
  imports Rust_Text
begin

text \<open>
  \<^verbatim>\<open>host/src/component_blob_cache.rs\<close>: the cache of precompiled components in the user database. A row is
  addressed by component digest, engine version and target; its blob is a frame sealed with a
  host-local key. Sealing and opening (the crate compose_core) and hex decoding (the crate hex) are not
  part of the repository and form the parameter \<open>F\<close>. The state is the table; every operation reads the
  clock at most once, its reading is the argument \<open>now\<close>.
\<close>

section \<open>Table and parameters\<close>

record comp_row =
  c_digest :: string
  c_engine :: string
  c_target :: string
  c_precompiled :: bytes
  c_hmac :: bytes
  c_cached_at :: int
  c_last_used_at :: int

type_synonym comp_table = "comp_row list option"

datatype comp_error = NoComponentTable | SumOverflow

type_synonym 'a comp_op = "(comp_error, comp_table, 'a) op"

record frames =
  seal :: "bytes \<Rightarrow> bytes \<Rightarrow> string \<Rightarrow> string \<Rightarrow> bytes \<Rightarrow> bytes"
  open_frame :: "bytes \<Rightarrow> bytes \<Rightarrow> string \<Rightarrow> string \<Rightarrow> bytes \<Rightarrow> bytes option"
  hex_decode :: "string \<Rightarrow> bytes option"
  backend_opens :: bool

text \<open>Documented behaviour of \<open>CompileCache\<close>: what is sealed under a key for a triple opens under the same key
  and triple.\<close>

definition frames_open :: "frames \<Rightarrow> bool" where
  "frames_open F \<longleftrightarrow> (\<forall>k d e t b. open_frame F k d e t (seal F k d e t b) = Some b)"

record engine =
  pkg_version :: string
  wasmtime_version :: string
  arch :: string
  os :: string

definition engine_identity :: "engine \<Rightarrow> string \<times> string" where
  "engine_identity g = (''wasmtime-'' @ pkg_version g @ ''-host-'' @ wasmtime_version g, arch g @ ''-'' @ os g)"

definition row_key :: "comp_row \<Rightarrow> string \<times> string \<times> string" where
  "row_key r = (c_digest r, c_engine r, c_target r)"

section \<open>Operations\<close>

definition ensure_component_table :: "comp_table \<Rightarrow> comp_table" where
  "ensure_component_table t = (case t of None \<Rightarrow> Some [] | Some rs \<Rightarrow> Some rs)"

definition comp_rows :: "comp_row list comp_op" where
  "comp_rows = query (\<lambda>t. case t of None \<Rightarrow> Inl NoComponentTable | Some rs \<Rightarrow> Inr rs)"

definition set_rows :: "comp_row list \<Rightarrow> unit comp_op" where
  "set_rows rs = (\<lambda>t. (Inr (), Some rs))"

definition seal_artifact :: "frames \<Rightarrow> string \<Rightarrow> string \<Rightarrow> string \<Rightarrow> bytes \<Rightarrow> bytes \<Rightarrow> bytes option" where
  "seal_artifact F digest_hex e t precompiled key =
     (case hex_decode F digest_hex of
        None \<Rightarrow> None
      | Some d \<Rightarrow> if backend_opens F then Some (seal F key d e t precompiled) else None)"

definition open_artifact :: "frames \<Rightarrow> string \<Rightarrow> string \<Rightarrow> string \<Rightarrow> bytes \<Rightarrow> bytes \<Rightarrow> bytes option" where
  "open_artifact F digest_hex e t framed key =
     (case hex_decode F digest_hex of
        None \<Rightarrow> None
      | Some d \<Rightarrow> if backend_opens F then open_frame F key d e t framed else None)"

definition touch_comp :: "int \<Rightarrow> comp_row \<Rightarrow> comp_row" where
  "touch_comp now r = r\<lparr>c_last_used_at := now\<rparr>"

definition comp_lookup :: "frames \<Rightarrow> engine \<Rightarrow> string \<Rightarrow> bytes \<Rightarrow> int \<Rightarrow> bytes option comp_op" where
  "comp_lookup F g digest_hex key now =
     (case engine_identity g of (e, t) \<Rightarrow>
      bnd comp_rows (\<lambda>rs.
      case lookup_by row_key (digest_hex, e, t) rs of
        None \<Rightarrow> ret None
      | Some r \<Rightarrow>
          (case open_artifact F digest_hex e t (c_precompiled r) key of
             None \<Rightarrow> ret None
           | Some blob \<Rightarrow>
               bnd (set_rows (update_where (\<lambda>q. row_key q = (digest_hex, e, t)) (touch_comp now) rs)) (\<lambda>_. ret (Some blob)))))"

definition comp_store :: "frames \<Rightarrow> engine \<Rightarrow> string \<Rightarrow> bytes \<Rightarrow> bytes \<Rightarrow> int \<Rightarrow> unit comp_op" where
  "comp_store F g digest_hex precompiled key now =
     (case engine_identity g of (e, t) \<Rightarrow>
      case seal_artifact F digest_hex e t precompiled key of
        None \<Rightarrow> ret ()
      | Some framed \<Rightarrow>
          bnd comp_rows (\<lambda>rs.
          set_rows (delete_where (\<lambda>q. row_key q = (digest_hex, e, t)) rs @
            [\<lparr>c_digest = digest_hex, c_engine = e, c_target = t, c_precompiled = framed, c_hmac = [],
              c_cached_at = now, c_last_used_at = now\<rparr>])))"

definition blob_len :: "comp_row \<Rightarrow> nat" where
  "blob_len r = length (c_precompiled r)"

definition table_bytes :: "comp_row list \<Rightarrow> nat" where
  "table_bytes rs = sum_list (map blob_len rs)"

text \<open>\<open>n.max(0) as u64\<close> of the sum; a sum beyond i64 is an error of the engine.\<close>

definition comp_total_bytes :: "nat comp_op" where
  "comp_total_bytes = bnd comp_rows (\<lambda>rs.
     if i64_range (int (table_bytes rs)) then ret (as_u64 (max 0 (int (table_bytes rs)))) else fail SumOverflow)"

definition comp_row_count :: "nat comp_op" where
  "comp_row_count = bnd comp_rows (\<lambda>rs. ret (as_u64 (max 0 (int (length rs)))))"

definition comp_purge_all :: "nat comp_op" where
  "comp_purge_all = bnd comp_total_bytes (\<lambda>before. bnd comp_rows (\<lambda>_. bnd (set_rows []) (\<lambda>_. ret before)))"

definition comp_age :: "comp_row \<Rightarrow> int \<times> string" where
  "comp_age r = (c_last_used_at r, c_digest r)"

text \<open>The eviction loop; \<open>freed\<close> counts the bytes removed so far.\<close>

function evict_loop :: "nat \<Rightarrow> nat \<Rightarrow> nat comp_op" where
  "evict_loop target freed t =
     (case comp_total_bytes t of
        (Inl e, t1) \<Rightarrow> (Inl e, t1)
      | (Inr current, t1) \<Rightarrow>
          if current \<le> target then (Inr freed, t1)
          else (case t1 of
             None \<Rightarrow> (Inl NoComponentTable, t1)
           | Some rs \<Rightarrow>
               (case first_by comp_age rs of
                  None \<Rightarrow> (Inr freed, t1)
                | Some v \<Rightarrow> evict_loop target (freed + blob_len v) (Some (delete_where (\<lambda>q. row_key q = row_key v) rs)))))"
  by pat_completeness auto

lemma total_bytes_same: "comp_total_bytes t = (r, t') \<Longrightarrow> t' = t"
  by (auto simp: comp_total_bytes_def comp_rows_def bnd_def split: option.splits if_splits)

lemma first_by_delete_shorter:
  "first_by key rs = Some v \<Longrightarrow> length (delete_where (\<lambda>q. k q = k v) rs) < length rs"
  unfolding delete_where_def by (rule length_filter_less [OF first_by_in]) simp_all

termination evict_loop
  by (relation "measure (\<lambda>(_, _, t). case t of None \<Rightarrow> 0 | Some rs \<Rightarrow> length rs)")
    (auto dest!: sym [of "(_, _)"] total_bytes_same intro: first_by_delete_shorter)

declare evict_loop.simps [simp del]

definition evict_to :: "nat \<Rightarrow> nat comp_op" where
  "evict_to target = evict_loop target 0"

section \<open>The host key\<close>

text \<open>The file system as far as the key file is concerned.\<close>

record key_env =
  home :: "string option"
  mkdir_ok :: bool
  key_file :: "bytes option"
  key_readable :: bool
  urandom_32 :: "bytes option"
  write_ok :: bool

text \<open>Creating the file refuses an existing one.\<close>

definition write_mode_0600 :: "bytes \<Rightarrow> key_env \<Rightarrow> bool \<times> key_env" where
  "write_mode_0600 bs v = (if key_file v = None \<and> write_ok v then (True, v\<lparr>key_file := Some bs\<rparr>) else (False, v))"

definition load_or_create_hmac_key :: "key_env \<Rightarrow> bytes option \<times> key_env" where
  "load_or_create_hmac_key v =
     (if home v = None then (None, v)
      else if \<not> mkdir_ok v then (None, v)
      else case (if key_readable v then key_file v else None) of
        Some bs \<Rightarrow> if 32 \<le> length bs then (Some bs, v) else (None, v)
      | None \<Rightarrow>
          (case urandom_32 v of
             None \<Rightarrow> (None, v)
           | Some secret \<Rightarrow>
               (case write_mode_0600 secret v of
                  (True, v') \<Rightarrow> (Some secret, v')
                | (False, v') \<Rightarrow> (None, v'))))"

section \<open>Lemmas\<close>

definition comp_inv :: "comp_row list \<Rightarrow> bool" where
  "comp_inv rs \<longleftrightarrow> distinct (map row_key rs) \<and> int (table_bytes rs) < 2 ^ 63"

interpretation touch_comp: key_stable row_key "touch_comp now"
  by unfold_locales (simp add: touch_comp_def row_key_def)

lemma table_bytes_simps [simp]: "table_bytes [] = 0" "table_bytes (r # rs) = blob_len r + table_bytes rs"
  "table_bytes (rs @ qs) = table_bytes rs + table_bytes qs"
  by (simp_all add: table_bytes_def)

lemma table_bytes_split: "table_bytes (filter P rs) + table_bytes (filter (\<lambda>r. \<not> P r) rs) = table_bytes rs"
  by (induction rs) auto

lemma table_bytes_delete: "table_bytes (delete_where p rs) \<le> table_bytes rs"
  unfolding delete_where_def by (induction rs) auto

lemma comp_total_bytes_eval:
  "comp_inv rs \<Longrightarrow> comp_total_bytes (Some rs) = (Inr (table_bytes rs), Some rs)"
  by (simp add: comp_inv_def comp_total_bytes_def comp_rows_def bnd_def i64_range_def)

lemma delete_key_bytes:
  assumes "distinct (map row_key rs)" "v \<in> set rs"
  shows "table_bytes (delete_where (\<lambda>q. row_key q = row_key v) rs) + blob_len v = table_bytes rs"
  using assms
proof (induction rs)
  case (Cons r rs)
  show ?case
  proof (cases "r = v")
    case True
    with Cons.prems have "delete_where (\<lambda>q. row_key q = row_key v) rs = rs"
      by (auto simp: delete_where_def filter_id_conv image_iff)
    with True show ?thesis by (simp add: delete_where_def)
  next
    case False
    with Cons.prems have "row_key r \<noteq> row_key v" by (auto simp: image_iff)
    with Cons False show ?thesis by (simp add: delete_where_def)
  qed
qed simp

text \<open>What the loop leaves: enough is gone, the oldest went first, and the last one gone was needed.\<close>

definition evicted :: "nat \<Rightarrow> comp_row list \<Rightarrow> comp_row list \<Rightarrow> bool" where
  "evicted target rs rs' \<longleftrightarrow> set rs' \<subseteq> set rs \<and> comp_inv rs' \<and> table_bytes rs' \<le> target \<and>
     (\<forall>r \<in> set rs - set rs'. \<forall>q \<in> set rs'. comp_age r \<le> comp_age q) \<and>
     (rs' = rs \<or> (\<exists>v \<in> set rs - set rs'. target < table_bytes rs' + blob_len v))"

lemma evict_loop_eval:
  "comp_inv rs \<Longrightarrow> \<exists>rs'. evict_loop target freed (Some rs) = (Inr (freed + (table_bytes rs - table_bytes rs')), Some rs') \<and>
     evicted target rs rs' \<and> table_bytes rs' \<le> table_bytes rs"
proof (induction "length rs" arbitrary: rs freed rule: less_induct)
  case less
  show ?case
  proof (cases "table_bytes rs \<le> target")
    case True
    with less.prems show ?thesis by (auto simp: evict_loop.simps [of target freed "Some rs"] comp_total_bytes_eval evicted_def)
  next
    case False
    then have "rs \<noteq> []" by auto
    then obtain v where v: "first_by comp_age rs = Some v" by (cases "first_by comp_age rs") auto
    have vin: "v \<in> set rs" and least: "comp_age v \<le> comp_age q" if "q \<in> set rs" for q
      using first_by_in [OF v] first_by_least [OF v] that by auto
    have vin: "v \<in> set rs" using first_by_in [OF v] .
    let ?ds = "delete_where (\<lambda>q. row_key q = row_key v) rs"
    have dist: "distinct (map row_key rs)" using less.prems by (simp add: comp_inv_def)
    have bytes: "table_bytes ?ds + blob_len v = table_bytes rs" using delete_key_bytes [OF dist vin] .
    have inv: "comp_inv ?ds" using less.prems bytes by (simp add: comp_inv_def distinct_delete_where)
    have only: "r = v" if "r \<in> set rs" "r \<notin> set ?ds" for r
      using that dist vin by (auto simp: set_delete_where) (metis lookup_by_unique option.inject)
    obtain rs' where rs': "evict_loop target (freed + blob_len v) (Some ?ds) =
        (Inr (freed + blob_len v + (table_bytes ?ds - table_bytes rs')), Some rs')" "evicted target ?ds rs'"
        "table_bytes rs' \<le> table_bytes ?ds"
      using less.hyps [OF first_by_delete_shorter [OF v] inv] by blast
    have sub: "set rs' \<subseteq> set ?ds" "set ?ds \<subseteq> set rs" using rs'(2) by (auto simp: evicted_def set_delete_where)
    have vout: "v \<notin> set rs'" using sub(1) by (auto simp: set_delete_where)
    have old: "comp_age r \<le> comp_age q" if "r \<in> set rs - set rs'" "q \<in> set rs'" for r q
    proof (cases "r \<in> set ?ds")
      case True
      with rs'(2) that show ?thesis by (simp add: evicted_def)
    next
      case False
      with only that have "r = v" by blast
      with least that sub show ?thesis by blast
    qed
    have need: "\<exists>x \<in> set rs - set rs'. target < table_bytes rs' + blob_len x"
    proof (cases "rs' = ?ds")
      case True
      with False bytes vin vout show ?thesis by (intro bexI [of _ v]) auto
    next
      case False
      with rs'(2) sub show ?thesis by (auto simp: evicted_def)
    qed
    have "evicted target rs rs'" using rs'(2) sub old need unfolding evicted_def by blast
    moreover have "evict_loop target freed (Some rs) = evict_loop target (freed + blob_len v) (Some ?ds)"
      using less.prems False v by (simp add: evict_loop.simps [of target freed "Some rs"] comp_total_bytes_eval)
    ultimately show ?thesis using rs' bytes by (intro exI [of _ rs']) simp
  qed
qed

section \<open>Properties\<close>

text \<open>C36. A stored component is found again and nothing unauthenticated is ever returned: after \<open>store\<close> under a
  decodable digest, \<open>lookup\<close> with the same key returns the precompiled bytes; and whenever a lookup
  returns bytes, the row of exactly this digest, engine version and target holds a frame that opened
  under the host key, while a frame that does not open is a miss that changes nothing.\<close>

theorem component_cache_authentic:
  assumes "frames_open F" "backend_opens F" "hex_decode F dg = Some d"
  shows "fst (comp_lookup F g dg key now' (snd (comp_store F g dg bs key now (Some rs)))) = Inr (Some bs) \<and>
    (\<forall>b t'. comp_lookup F g dg key now' (Some rs) = (Inr (Some b), t') \<longrightarrow>
       (\<exists>r \<in> set rs. row_key r = (dg, engine_identity g) \<and>
          open_frame F key d (fst (engine_identity g)) (snd (engine_identity g)) (c_precompiled r) = Some b)) \<and>
    (\<forall>t'. comp_lookup F g dg key now' (Some rs) = (Inr None, t') \<longrightarrow> t' = Some rs)"
proof -
  obtain e t where g: "engine_identity g = (e, t)" by fastforce
  let ?r = "\<lparr>c_digest = dg, c_engine = e, c_target = t, c_precompiled = seal F key d e t bs, c_hmac = [],
    c_cached_at = now, c_last_used_at = now\<rparr>"
  have "lookup_by row_key (dg, e, t) (delete_where (\<lambda>q. row_key q = (dg, e, t)) rs) = None"
    by (auto simp: lookup_by_None_iff set_delete_where)
  then have hit: "lookup_by row_key (dg, e, t) (delete_where (\<lambda>q. row_key q = (dg, e, t)) rs @ [?r]) = Some ?r"
    by (simp add: lookup_by_append row_key_def)
  have st: "snd (comp_store F g dg bs key now (Some rs)) = Some (delete_where (\<lambda>q. row_key q = (dg, e, t)) rs @ [?r])"
    using assms g by (simp add: comp_store_def seal_artifact_def comp_rows_def set_rows_def bnd_def)
  have "fst (comp_lookup F g dg key now' (snd (comp_store F g dg bs key now (Some rs)))) = Inr (Some bs)"
    unfolding st using assms g hit
    by (simp add: comp_lookup_def comp_rows_def bnd_def open_artifact_def set_rows_def frames_open_def)
  moreover have "\<exists>r \<in> set rs. row_key r = (dg, e, t) \<and> open_frame F key d e t (c_precompiled r) = Some b"
    if "comp_lookup F g dg key now' (Some rs) = (Inr (Some b), t')" for b t'
    using that assms g
    by (auto simp: comp_lookup_def comp_rows_def bnd_def open_artifact_def set_rows_def dest!: lookup_by_SomeD split: option.splits)
  moreover have "t' = Some rs" if "comp_lookup F g dg key now' (Some rs) = (Inr None, t')" for t'
    using that g by (auto simp: comp_lookup_def comp_rows_def bnd_def set_rows_def split: option.splits)
  ultimately show ?thesis unfolding g by auto
qed

text \<open>A transparent frame: the key in front of the blob.\<close>

definition toy_frames :: frames where
  "toy_frames = \<lparr>seal = (\<lambda>k d e t b. k @ b), open_frame = (\<lambda>k d e t f. if take (length k) f = k then Some (drop (length k) f) else None),
     hex_decode = (\<lambda>s. if s = ''ab'' then Some [171] else None), backend_opens = True\<rparr>"

definition toy_engine :: engine where
  "toy_engine = \<lparr>pkg_version = ''1'', wasmtime_version = ''2'', arch = ''x86_64'', os = ''linux''\<rparr>"

theorem component_cache_authentic_witness:
  "fst (comp_lookup toy_frames toy_engine ''ab'' [9] 1 (snd (comp_store toy_frames toy_engine ''ab'' [1, 2] [9] 0 (Some [])))) =
     Inr (Some [1, 2])"
proof -
  have "frames_open toy_frames" "backend_opens toy_frames" "hex_decode toy_frames ''ab'' = Some [171]"
    by (simp_all add: frames_open_def toy_frames_def)
  from component_cache_authentic [OF this, of toy_engine "[9]" 1 "[1, 2]" 0 "[]"] show ?thesis by blast
qed

text \<open>Eviction of precompiled components always ends at or below its target, reports exactly the bytes it
  freed, removes rows in the order of their last use (ties by digest), and removes no more rows than
  needed.\<close>

theorem evict_to_spec:
  assumes "comp_inv rs"
  shows "\<exists>rs'. evict_to target (Some rs) = (Inr (table_bytes rs - table_bytes rs'), Some rs') \<and> evicted target rs rs'"
  using evict_loop_eval [OF assms, of target 0] by (auto simp: evict_to_def)

definition toy_row :: "string \<Rightarrow> nat \<Rightarrow> int \<Rightarrow> comp_row" where
  "toy_row d n used = \<lparr>c_digest = d, c_engine = ''e'', c_target = ''t'', c_precompiled = replicate n 0, c_hmac = [],
     c_cached_at = 0, c_last_used_at = used\<rparr>"

theorem evict_to_spec_witness:
  "\<exists>rs'. evict_to 5 (Some [toy_row ''a'' 4 7, toy_row ''b'' 3 2]) = (Inr (7 - table_bytes rs'), Some rs') \<and>
     evicted 5 [toy_row ''a'' 4 7, toy_row ''b'' 3 2] rs'"
proof -
  have "comp_inv [toy_row ''a'' 4 7, toy_row ''b'' 3 2]" by (simp add: comp_inv_def toy_row_def row_key_def blob_len_def)
  moreover have "table_bytes [toy_row ''a'' 4 7, toy_row ''b'' 3 2] = 7" by (simp add: toy_row_def blob_len_def)
  ultimately show ?thesis using evict_to_spec [of "[toy_row ''a'' 4 7, toy_row ''b'' 3 2]" 5] by (simp only:)
qed

text \<open>The host key is long enough and, once created, stays the same.\<close>

lemma hmac_key_stable:
  assumes "load_or_create_hmac_key v = (Some k, v')" "\<forall>s. urandom_32 v = Some s \<longrightarrow> length s = 32" "key_readable v"
  shows "32 \<le> length k \<and> load_or_create_hmac_key v' = (Some k, v')"
  using assms by (auto simp: load_or_create_hmac_key_def write_mode_0600_def split: if_splits option.splits)

end
