(* ===== verification/Component_Loader.thy ===== *)
theory Component_Loader
  imports Component_Cache Rust_Text
begin

text \<open>
  How the host turns the bytes of an extension into a compiled component (\<open>host/src/lib.rs\<close>): the
  in-process least-recently-used cache of parsed components (tier C1), the precompiled blobs in the user's
  database (tier C2, theory Component_Cache) behind a connection that follows the current database path, and
  the compiler when both miss.

  The compiler, the serialiser and its inverse, the sealing of frames, the environment and the clock are
  parameters. The wall-clock counters of the statistics are not modelled; the event counters are.
\<close>

section \<open>Tier C1\<close>

text \<open>The front of the list is the oldest entry.\<close>

record 'c component_lru =
  lru_cap :: nat
  lru_entries :: "(string \<times> 'c) list"

definition lru_new :: "nat \<Rightarrow> 'c component_lru" where
  "lru_new n = \<lparr>lru_cap = n, lru_entries = []\<rparr>"

definition lru_get :: "string \<Rightarrow> 'c component_lru \<Rightarrow> 'c option \<times> 'c component_lru" where
  "lru_get digest l =
     (case dropWhile (\<lambda>e. fst e \<noteq> digest) (lru_entries l) of
        [] \<Rightarrow> (None, l)
      | e # rest \<Rightarrow> (Some (snd e), l\<lparr>lru_entries := takeWhile (\<lambda>e. fst e \<noteq> digest) (lru_entries l) @ rest @ [e]\<rparr>))"

definition lru_insert :: "string \<Rightarrow> 'c \<Rightarrow> 'c component_lru \<Rightarrow> 'c component_lru" where
  "lru_insert digest component l =
     (if list_ex (\<lambda>e. fst e = digest) (lru_entries l) then l
      else let es = (if lru_cap l \<le> length (lru_entries l) then tl (lru_entries l) else lru_entries l)
           in l\<lparr>lru_entries := es @ [(digest, component)]\<rparr>)"

section \<open>State and environment\<close>

record 'c compiler_env =
  compile_via_runtime :: "bytes \<Rightarrow> string \<Rightarrow> string + 'c"
  serialize_component :: "'c \<Rightarrow> bytes option"
  deserialize_component :: "bytes \<Rightarrow> 'c option"
  frame_codec :: frames
  engine_info :: engine
  blob_cache_key :: "bytes option"
  loader_env :: "string \<Rightarrow> string option"
  loader_now :: int

text \<open>\<open>user_dbs\<close> are the database files that can be opened; \<open>user_conn\<close> is the path of the cached
  connection.\<close>

record 'c loader_state =
  component_lru :: "'c component_lru"
  user_db_path :: string
  user_conn :: "string option"
  user_dbs :: "string \<rightharpoonup> comp_table"
  c1_hits :: nat
  c2_hits :: nat
  cold_parses :: nat
  cache_bypassed :: nat

definition component_cache_disabled :: "'c compiler_env \<Rightarrow> bool" where
  "component_cache_disabled R = (case loader_env R ''SQLITE_WASM_DISABLE_COMPONENT_CACHE'' of None \<Rightarrow> False | Some v \<Rightarrow> v \<noteq> [])"

definition component_cache_max_bytes :: "'c compiler_env \<Rightarrow> nat" where
  "component_cache_max_bytes R =
     (case loader_env R ''SQLITE_WASM_COMPONENT_CACHE_MAX_BYTES'' of
        None \<Rightarrow> 4 * 1024 * 1024 * 1024
      | Some s \<Rightarrow> (case parse_uint u64_max s of None \<Rightarrow> 4 * 1024 * 1024 * 1024 | Some n \<Rightarrow> n))"

definition invalidate_user_conn :: "'c loader_state \<Rightarrow> 'c loader_state" where
  "invalidate_user_conn s = s\<lparr>user_conn := None\<rparr>"

definition set_db_path :: "string \<Rightarrow> 'c loader_state \<Rightarrow> 'c loader_state" where
  "set_db_path path s = invalidate_user_conn (s\<lparr>user_db_path := path\<rparr>)"

text \<open>Opening makes sure the table is there; an empty path means there is nothing to cache against.\<close>

definition open_if_needed :: "'c loader_state \<Rightarrow> 'c loader_state option" where
  "open_if_needed s =
     (if user_conn s = Some (user_db_path s) then Some s
      else case user_dbs s (user_db_path s) of
        None \<Rightarrow> None
      | Some t \<Rightarrow> Some (s\<lparr>user_conn := Some (user_db_path s),
          user_dbs := (user_dbs s)(user_db_path s \<mapsto> ensure_component_table t)\<rparr>))"

definition with_user_conn :: "(comp_table \<Rightarrow> 'a \<times> comp_table) \<Rightarrow> 'c loader_state \<Rightarrow> 'a option \<times> 'c loader_state" where
  "with_user_conn f s =
     (if user_db_path s = [] then (None, s)
      else case open_if_needed s of
        None \<Rightarrow> (None, s)
      | Some s1 \<Rightarrow>
          (case user_dbs s1 (user_db_path s) of
             None \<Rightarrow> (None, s1)
           | Some t \<Rightarrow> (case f t of (x, t') \<Rightarrow> (Some x, s1\<lparr>user_dbs := (user_dbs s1)(user_db_path s \<mapsto> t')\<rparr>))))"

section \<open>Tier C2\<close>

definition lookup_blob :: "'c compiler_env \<Rightarrow> string \<Rightarrow> bytes \<Rightarrow> comp_table \<Rightarrow> bytes option \<times> comp_table" where
  "lookup_blob R digest key t =
     (case comp_lookup (frame_codec R) (engine_info R) digest key (loader_now R) t of
        (Inl _, t') \<Rightarrow> (None, t')
      | (Inr found, t') \<Rightarrow> (found, t'))"

definition try_c2_lookup :: "'c compiler_env \<Rightarrow> string \<Rightarrow> 'c loader_state \<Rightarrow> 'c option \<times> 'c loader_state" where
  "try_c2_lookup R digest s =
     (case blob_cache_key R of
        None \<Rightarrow> (None, s)
      | Some key \<Rightarrow>
          (case with_user_conn (lookup_blob R digest key) s of
             (Some (Some blob), s') \<Rightarrow> (deserialize_component R blob, s')
           | (_, s') \<Rightarrow> (None, s')))"

definition store_blob :: "'c compiler_env \<Rightarrow> string \<Rightarrow> bytes \<Rightarrow> bytes \<Rightarrow> comp_table \<Rightarrow> unit \<times> comp_table" where
  "store_blob R digest blob key t =
     (case comp_store (frame_codec R) (engine_info R) digest blob key (loader_now R) t of
        (Inl _, t') \<Rightarrow> ((), t')
      | (Inr _, t') \<Rightarrow>
          if 0 < component_cache_max_bytes R then ((), snd (evict_to (component_cache_max_bytes R) t')) else ((), t'))"

definition try_c2_store :: "'c compiler_env \<Rightarrow> string \<Rightarrow> 'c \<Rightarrow> 'c loader_state \<Rightarrow> 'c loader_state" where
  "try_c2_store R digest component s =
     (case blob_cache_key R of
        None \<Rightarrow> s
      | Some key \<Rightarrow>
          (case serialize_component R component of
             None \<Rightarrow> s
           | Some blob \<Rightarrow> snd (with_user_conn (store_blob R digest blob key) s)))"

section \<open>Loading\<close>

definition component_for_digest :: "'c compiler_env \<Rightarrow> bytes \<Rightarrow> string \<Rightarrow> string \<Rightarrow> (string, 'c loader_state, 'c) op" where
  "component_for_digest R b digest hint s =
     (if component_cache_disabled R then
        (let s1 = s\<lparr>cache_bypassed := cache_bypassed s + 1\<rparr> in
         case compile_via_runtime R b hint of
           Inl e \<Rightarrow> (Inl e, s1)
         | Inr c \<Rightarrow> (Inr c, s1\<lparr>cold_parses := cold_parses s1 + 1\<rparr>))
      else case lru_get digest (component_lru s) of
        (Some c, l) \<Rightarrow> (Inr c, s\<lparr>component_lru := l, c1_hits := c1_hits s + 1\<rparr>)
      | (None, l) \<Rightarrow>
          (case try_c2_lookup R digest (s\<lparr>component_lru := l\<rparr>) of
             (Some c, s2) \<Rightarrow>
               (Inr c, s2\<lparr>c2_hits := c2_hits s2 + 1, component_lru := lru_insert digest c (component_lru s2)\<rparr>)
           | (None, s2) \<Rightarrow>
               (case compile_via_runtime R b hint of
                  Inl e \<Rightarrow> (Inl e, s2)
                | Inr c \<Rightarrow>
                    (let s3 = try_c2_store R digest c (s2\<lparr>cold_parses := cold_parses s2 + 1\<rparr>)
                     in (Inr c, s3\<lparr>component_lru := lru_insert digest c (component_lru s3)\<rparr>)))))"

section \<open>Lemmas on the tiers\<close>

lemma lru_get_cases:
  "lru_get d l = (None, l) \<and> d \<notin> fst ` set (lru_entries l) \<or>
   (\<exists>c l'. lru_get d l = (Some c, l') \<and> (d, c) \<in> set (lru_entries l) \<and> lru_cap l' = lru_cap l \<and>
      set (lru_entries l') = set (lru_entries l) \<and> length (lru_entries l') = length (lru_entries l) \<and>
      (distinct (map fst (lru_entries l)) \<longrightarrow> distinct (map fst (lru_entries l'))))"
proof (cases "dropWhile (\<lambda>e. fst e \<noteq> d) (lru_entries l)")
  case Nil
  then have "lru_get d l = (None, l)" unfolding lru_get_def by (simp only: list.case)
  moreover have "d \<notin> fst ` set (lru_entries l)" using Nil by auto
  ultimately show ?thesis by blast
next
  case (Cons e rest)
  have split: "lru_entries l = takeWhile (\<lambda>e. fst e \<noteq> d) (lru_entries l) @ e # rest"
    using takeWhile_dropWhile_id [of "\<lambda>e. fst e \<noteq> d" "lru_entries l"] Cons by simp
  have "fst e = d" using Cons by (metis (mono_tags, lifting) dropWhile_eq_Cons_conv)
  then obtain c where e: "e = (d, c)" by (cases e) auto
  let ?l' = "l\<lparr>lru_entries := takeWhile (\<lambda>e. fst e \<noteq> d) (lru_entries l) @ rest @ [e]\<rparr>"
  have "set (lru_entries ?l') = set (lru_entries l)" "length (lru_entries ?l') = length (lru_entries l)"
    by (subst (2) split, auto)+
  moreover have "distinct (map fst (lru_entries l)) \<longrightarrow> distinct (map fst (lru_entries ?l'))" by (subst split) auto
  moreover have "(d, c) \<in> set (lru_entries l)" by (subst split) (simp add: e)
  ultimately show ?thesis using Cons e by (auto simp: lru_get_def)
qed

lemma lru_insert_set: "set (lru_entries (lru_insert d c l)) \<subseteq> insert (d, c) (set (lru_entries l))"
proof -
  have "set (tl (lru_entries l)) \<subseteq> set (lru_entries l)" by (cases "lru_entries l") auto
  then show ?thesis by (auto simp: lru_insert_def Let_def)
qed

lemma lru_insert_found: "d \<in> fst ` set (lru_entries (lru_insert d c l))"
  by (auto simp: lru_insert_def Let_def list_ex_iff)

lemma lru_insert_cap [simp]: "lru_cap (lru_insert d c l) = lru_cap l"
  by (simp add: lru_insert_def Let_def)

lemma lru_insert_length: "length (lru_entries l) \<le> max 1 (lru_cap l) \<Longrightarrow> length (lru_entries (lru_insert d c l)) \<le> max 1 (lru_cap l)"
  by (auto simp: lru_insert_def Let_def)

lemma evict_loop_subset:
  "evict_loop target freed t = (r, t') \<Longrightarrow> t' = t \<or> (\<exists>rs rs'. t = Some rs \<and> t' = Some rs' \<and> set rs' \<subseteq> set rs)"
proof (induction target freed t arbitrary: r t' rule: evict_loop.induct)
  case (1 target freed t)
  show ?case
  proof (cases "comp_total_bytes t")
    case (Pair x t1)
    then have t1: "t1 = t" using total_bytes_same by blast
    show ?thesis
    proof (cases "\<exists>current rs v. x = Inr current \<and> \<not> current \<le> target \<and> t = Some rs \<and> first_by comp_age rs = Some v")
      case True
      then obtain current rs v where v: "x = Inr current" "\<not> current \<le> target" "t = Some rs" "first_by comp_age rs = Some v" by blast
      let ?ds = "delete_where (\<lambda>q. row_key q = row_key v) rs"
      have "evict_loop target (freed + blob_len v) (Some ?ds) = (r, t')"
        using 1(2) Pair t1 v by (simp add: evict_loop.simps [of target freed "Some rs"])
      from 1(1) [OF Pair [symmetric] v(1,2) _ v(4) this] t1 v(3) show ?thesis by (auto simp: set_delete_where)
    next
      case False
      then show ?thesis
        using 1(2) Pair t1 by (auto simp: evict_loop.simps [of target freed t] split: sum.splits if_splits option.splits)
    qed
  qed
qed

lemma lru_insert_distinct: "distinct (map fst (lru_entries l)) \<Longrightarrow> distinct (map fst (lru_entries (lru_insert d c l)))"
  by (cases "lru_entries l") (auto simp: lru_insert_def Let_def list_ex_iff image_iff)

lemma lru_insert_new: "d \<notin> fst ` set (lru_entries l) \<Longrightarrow> (d, c) \<in> set (lru_entries (lru_insert d c l))"
  by (auto simp: lru_insert_def Let_def list_ex_iff)

section \<open>What the caches hold\<close>

text \<open>A component is genuine for a digest if it was compiled from bytes with that digest.\<close>

definition genuine :: "'c compiler_env \<Rightarrow> (bytes \<Rightarrow> string) \<Rightarrow> string \<Rightarrow> 'c \<Rightarrow> bool" where
  "genuine R dg d c \<longleftrightarrow> (\<exists>b hint. dg b = d \<and> compile_via_runtime R b hint = Inr c)"

text \<open>Documented behaviour of the serialiser: a blob it wrote is refused or read back as what was written.\<close>

definition serial_ok :: "'c compiler_env \<Rightarrow> bool" where
  "serial_ok R \<longleftrightarrow> (\<forall>c b. serialize_component R c = Some b \<longrightarrow> deserialize_component R b = None \<or> deserialize_component R b = Some c)"

text \<open>A row from which only genuine components can be read with the host's key.\<close>

definition row_genuine :: "'c compiler_env \<Rightarrow> (bytes \<Rightarrow> string) \<Rightarrow> comp_row \<Rightarrow> bool" where
  "row_genuine R dg r \<longleftrightarrow>
     (\<forall>key blob c. blob_cache_key R = Some key \<and> (c_engine r, c_target r) = engine_identity (engine_info R) \<and>
        open_artifact (frame_codec R) (c_digest r) (c_engine r) (c_target r) (c_precompiled r) key = Some blob \<and>
        deserialize_component R blob = Some c \<longrightarrow> genuine R dg (c_digest r) c)"

definition table_genuine :: "'c compiler_env \<Rightarrow> (bytes \<Rightarrow> string) \<Rightarrow> comp_table \<Rightarrow> bool" where
  "table_genuine R dg t \<longleftrightarrow> (case t of None \<Rightarrow> True | Some rs \<Rightarrow> \<forall>r \<in> set rs. row_genuine R dg r)"

definition lru_ok :: "'c compiler_env \<Rightarrow> (bytes \<Rightarrow> string) \<Rightarrow> 'c component_lru \<Rightarrow> bool" where
  "lru_ok R dg l \<longleftrightarrow> (\<forall>e \<in> set (lru_entries l). genuine R dg (fst e) (snd e)) \<and> distinct (map fst (lru_entries l)) \<and>
     length (lru_entries l) \<le> max 1 (lru_cap l)"

definition loader_inv :: "'c compiler_env \<Rightarrow> (bytes \<Rightarrow> string) \<Rightarrow> 'c loader_state \<Rightarrow> bool" where
  "loader_inv R dg s \<longleftrightarrow> lru_ok R dg (component_lru s) \<and> (\<forall>p t. user_dbs s p = Some t \<longrightarrow> table_genuine R dg t)"

lemma lru_ok_insert: "lru_ok R dg l \<Longrightarrow> genuine R dg d c \<Longrightarrow> lru_ok R dg (lru_insert d c l)"
  using lru_insert_set [of d c l] lru_insert_distinct [of l d c] lru_insert_length [of l d c] unfolding lru_ok_def by auto

lemma lru_ok_get: "lru_ok R dg l \<Longrightarrow> lru_get d l = (r, l') \<Longrightarrow> lru_ok R dg l'"
  using lru_get_cases [of d l] unfolding lru_ok_def by auto

lemma touched_row_genuine: "row_genuine R dg r \<Longrightarrow> row_genuine R dg (touch_comp now r)"
  by (simp add: row_genuine_def touch_comp_def)

lemma lookup_table_genuine:
  assumes "table_genuine R dg t" "lookup_blob R d key t = (found, t')"
  shows "table_genuine R dg t'"
proof (cases t)
  case None
  with assms show ?thesis by (auto simp: lookup_blob_def comp_lookup_def comp_rows_def bnd_def split: prod.splits)
next
  case (Some rs)
  obtain e tg where id: "engine_identity (engine_info R) = (e, tg)" by fastforce
  have "t' = Some rs \<or> t' = Some (update_where (\<lambda>q. row_key q = (d, e, tg)) (touch_comp (loader_now R)) rs)"
    using assms(2) Some id
    by (auto simp: lookup_blob_def comp_lookup_def comp_rows_def set_rows_def bnd_def split: prod.splits option.splits)
  with assms(1) Some show ?thesis by (auto simp: table_genuine_def set_update_where touched_row_genuine)
qed

lemma lookup_blob_genuine:
  assumes "table_genuine R dg t" "lookup_blob R d key t = (Some blob, t')" "blob_cache_key R = Some key" "deserialize_component R blob = Some c"
  shows "genuine R dg d c"
proof -
  obtain e tg where id: "engine_identity (engine_info R) = (e, tg)" by fastforce
  obtain rs where t: "t = Some rs"
    using assms(2) by (cases t) (auto simp: lookup_blob_def comp_lookup_def comp_rows_def bnd_def split: prod.splits)
  obtain r where r: "lookup_by row_key (d, e, tg) rs = Some r" "open_artifact (frame_codec R) d e tg (c_precompiled r) key = Some blob"
    using assms(2) t id
    by (auto simp: lookup_blob_def comp_lookup_def comp_rows_def set_rows_def bnd_def split: option.splits)
  have k: "r \<in> set rs" "c_digest r = d" "c_engine r = e" "c_target r = tg" using lookup_by_SomeD [OF r(1)] by (auto simp: row_key_def)
  have "row_genuine R dg r" using assms(1) t k(1) by (simp add: table_genuine_def)
  with r(2) k id assms(3,4) show ?thesis unfolding row_genuine_def by metis
qed

lemma store_table_genuine:
  assumes "table_genuine R dg t" "frames_open (frame_codec R)" "serial_ok R"
    and "blob_cache_key R = Some key" "serialize_component R c = Some blob" "genuine R dg d c"
  shows "table_genuine R dg (snd (store_blob R d blob key t))"
proof -
  obtain e tg where id: "engine_identity (engine_info R) = (e, tg)" by fastforce
  obtain r t1 where st: "comp_store (frame_codec R) (engine_info R) d blob key (loader_now R) t = (r, t1)" by fastforce
  have "table_genuine R dg t1"
  proof (cases "t1 = t")
    case False
    then obtain rs framed where rs: "t = Some rs" "seal_artifact (frame_codec R) d e tg blob key = Some framed"
        "t1 = Some (delete_where (\<lambda>q. row_key q = (d, e, tg)) rs @
          [\<lparr>c_digest = d, c_engine = e, c_target = tg, c_precompiled = framed, c_hmac = [], c_cached_at = loader_now R, c_last_used_at = loader_now R\<rparr>])"
      using st id by (auto simp: comp_store_def comp_rows_def set_rows_def bnd_def split: option.splits)
    have "open_artifact (frame_codec R) d e tg framed key = Some blob"
      using rs(2) assms(2) by (auto simp: seal_artifact_def open_artifact_def frames_open_def split: option.splits if_splits)
    moreover have "deserialize_component R blob = Some c' \<Longrightarrow> c' = c" for c' using assms(3,5) unfolding serial_ok_def by fastforce
    ultimately show ?thesis using assms(1,4,6) rs id by (auto simp: table_genuine_def row_genuine_def set_delete_where)
  qed (use assms(1) in simp)
  moreover have "table_genuine R dg (snd (evict_to n t1))" if "table_genuine R dg t1" for n
    using that evict_loop_subset [of n 0 t1] by (cases "evict_loop n 0 t1") (fastforce simp: evict_to_def table_genuine_def)
  ultimately show ?thesis using st by (auto simp: store_blob_def split: sum.splits)
qed

lemma open_inv:
  assumes "loader_inv R dg s" "open_if_needed s = Some s1"
  shows "loader_inv R dg s1 \<and> component_lru s1 = component_lru s \<and> user_db_path s1 = user_db_path s"
  using assms by (auto simp: open_if_needed_def loader_inv_def ensure_component_table_def table_genuine_def split: if_splits option.splits)

lemma with_user_conn_cases:
  assumes "loader_inv R dg s" "with_user_conn f s = (x, s')"
  obtains "x = None" "loader_inv R dg s'" "component_lru s' = component_lru s"
  | s1 t y t' where "x = Some y" "f t = (y, t')" "table_genuine R dg t" "loader_inv R dg s1" "component_lru s1 = component_lru s"
      "s' = s1\<lparr>user_dbs := (user_dbs s1)(user_db_path s \<mapsto> t')\<rparr>"
proof (cases "user_db_path s = [] \<or> open_if_needed s = None")
  case True
  then have "x = None" "s' = s" using assms(2) by (auto simp: with_user_conn_def split: if_splits)
  with assms(1) show ?thesis using that(1) by blast
next
  case False
  then obtain s1 where s1: "open_if_needed s = Some s1" by blast
  note o = open_inv [OF assms(1) s1]
  show ?thesis
  proof (cases "user_dbs s1 (user_db_path s)")
    case None
    then have "x = None" "s' = s1" using assms(2) False s1 by (auto simp: with_user_conn_def)
    with o show ?thesis using that(1) by blast
  next
    case (Some t)
    obtain y t' where f: "f t = (y, t')" by fastforce
    then have "x = Some y" "s' = s1\<lparr>user_dbs := (user_dbs s1)(user_db_path s \<mapsto> t')\<rparr>"
      using assms(2) False s1 Some by (auto simp: with_user_conn_def)
    moreover have "table_genuine R dg t" using o Some by (auto simp: loader_inv_def)
    ultimately show ?thesis using that(2) f o by blast
  qed
qed

lemma loader_inv_table:
  "loader_inv R dg s \<Longrightarrow> table_genuine R dg t \<Longrightarrow> loader_inv R dg (s\<lparr>user_dbs := (user_dbs s)(p \<mapsto> t)\<rparr>)"
  by (simp add: loader_inv_def)

lemma c2_lookup_inv:
  assumes "loader_inv R dg s" "try_c2_lookup R d s = (x, s')"
  shows "loader_inv R dg s' \<and> component_lru s' = component_lru s \<and> (\<forall>c. x = Some c \<longrightarrow> genuine R dg d c)"
proof (cases "blob_cache_key R")
  case None
  with assms show ?thesis by (auto simp: try_c2_lookup_def)
next
  case (Some key)
  obtain y s1 where w: "with_user_conn (lookup_blob R d key) s = (y, s1)" by fastforce
  have x: "s' = s1" "x = (case y of Some (Some blob) \<Rightarrow> deserialize_component R blob | _ \<Rightarrow> None)"
    using assms(2) Some w by (auto simp: try_c2_lookup_def split: option.splits)
  from assms(1) w show ?thesis
  proof (cases rule: with_user_conn_cases)
    case 1
    with x show ?thesis by auto
  next
    case (2 s2 t z t')
    have "loader_inv R dg s1" using 2 lookup_table_genuine loader_inv_table by metis
    moreover have "\<forall>c. x = Some c \<longrightarrow> genuine R dg d c"
      using x(2) 2(1-3) lookup_blob_genuine [OF 2(3) _ Some] by (auto split: option.splits)
    ultimately show ?thesis using x 2 by auto
  qed
qed

lemma c2_store_inv:
  assumes "loader_inv R dg s" "frames_open (frame_codec R)" "serial_ok R" "genuine R dg d c"
  shows "loader_inv R dg (try_c2_store R d c s) \<and> component_lru (try_c2_store R d c s) = component_lru s"
proof (cases "blob_cache_key R = None \<or> serialize_component R c = None")
  case True
  with assms(1) show ?thesis by (auto simp: try_c2_store_def split: option.splits)
next
  case False
  then obtain key blob where k: "blob_cache_key R = Some key" "serialize_component R c = Some blob" by auto
  obtain y s1 where w: "with_user_conn (store_blob R d blob key) s = (y, s1)" by fastforce
  have s1: "try_c2_store R d c s = s1" using k w by (simp add: try_c2_store_def)
  from assms(1) w show ?thesis
  proof (cases rule: with_user_conn_cases)
    case 1
    with s1 show ?thesis by auto
  next
    case (2 s2 t z t')
    have "table_genuine R dg t'" using store_table_genuine [OF 2(3) assms(2,3) k assms(4)] 2(2) by simp
    with 2 s1 loader_inv_table show ?thesis by auto
  qed
qed

text \<open>Counters do not matter to the invariant.\<close>

lemma loader_inv_counters [simp]:
  "loader_inv R dg (s\<lparr>c1_hits := n\<rparr>) = loader_inv R dg s" "loader_inv R dg (s\<lparr>c2_hits := n\<rparr>) = loader_inv R dg s"
  "loader_inv R dg (s\<lparr>cold_parses := n\<rparr>) = loader_inv R dg s" "loader_inv R dg (s\<lparr>cache_bypassed := n\<rparr>) = loader_inv R dg s"
  by (simp_all add: loader_inv_def)

lemma loader_inv_lru: "loader_inv R dg s \<Longrightarrow> lru_ok R dg l \<Longrightarrow> loader_inv R dg (s\<lparr>component_lru := l\<rparr>)"
  by (simp add: loader_inv_def)

section \<open>The tiers together\<close>

definition load_ok :: "'c compiler_env \<Rightarrow> (bytes \<Rightarrow> string) \<Rightarrow> bytes \<Rightarrow> string \<Rightarrow> string + 'c \<Rightarrow> bool" where
  "load_ok R dg b hint r = (case r of Inr c \<Rightarrow> genuine R dg (dg b) c | Inl e \<Rightarrow> compile_via_runtime R b hint = Inl e)"

lemma genuine_compile: "compile_via_runtime R b hint = Inr c \<Longrightarrow> genuine R dg (dg b) c"
  by (auto simp: genuine_def)

lemma disabled_load:
  assumes "component_cache_disabled R" "component_for_digest R b (dg b) hint s = (r, s')"
  shows "load_ok R dg b hint r \<and> (loader_inv R dg s \<longrightarrow> loader_inv R dg s')"
  using assms by (auto simp: component_for_digest_def load_ok_def genuine_compile Let_def split: sum.splits)

lemma enabled_load:
  assumes inv: "loader_inv R dg s" and en: "\<not> component_cache_disabled R" and run: "component_for_digest R b (dg b) hint s = (r, s')"
    and h: "frames_open (frame_codec R)" "serial_ok R"
  shows "load_ok R dg b hint r \<and> loader_inv R dg s' \<and> (\<forall>c. r = Inr c \<longrightarrow> (dg b, c) \<in> set (lru_entries (component_lru s')))"
proof -
  have lru: "lru_ok R dg (component_lru s)" using inv by (simp add: loader_inv_def)
  consider (hit) c l where "lru_get (dg b) (component_lru s) = (Some c, l)" "(dg b, c) \<in> set (lru_entries (component_lru s))"
      "set (lru_entries l) = set (lru_entries (component_lru s))"
    | (miss) "lru_get (dg b) (component_lru s) = (None, component_lru s)" "dg b \<notin> fst ` set (lru_entries (component_lru s))"
    using lru_get_cases [of "dg b" "component_lru s"] by blast
  then show ?thesis
  proof cases
    case hit
    have "r = Inr c" "s' = s\<lparr>component_lru := l, c1_hits := c1_hits s + 1\<rparr>" using run en hit(1) by (auto simp: component_for_digest_def)
    moreover have "genuine R dg (dg b) c" using lru hit(2) by (auto simp: lru_ok_def)
    ultimately show ?thesis using inv hit lru_ok_get [OF lru hit(1)] by (auto simp: load_ok_def loader_inv_def)
  next
    case miss
    obtain x s2 where c2: "try_c2_lookup R (dg b) s = (x, s2)" by fastforce
    have i2: "loader_inv R dg s2" "component_lru s2 = component_lru s" "\<forall>c. x = Some c \<longrightarrow> genuine R dg (dg b) c"
      using c2_lookup_inv [OF inv c2] by auto
    have go: "component_for_digest R b (dg b) hint s =
      (case x of Some c \<Rightarrow> (Inr c, s2\<lparr>c2_hits := c2_hits s2 + 1, component_lru := lru_insert (dg b) c (component_lru s2)\<rparr>)
       | None \<Rightarrow> (case compile_via_runtime R b hint of Inl e \<Rightarrow> (Inl e, s2)
          | Inr c \<Rightarrow> (Inr c, (try_c2_store R (dg b) c (s2\<lparr>cold_parses := cold_parses s2 + 1\<rparr>))
              \<lparr>component_lru := lru_insert (dg b) c (component_lru (try_c2_store R (dg b) c (s2\<lparr>cold_parses := cold_parses s2 + 1\<rparr>)))\<rparr>)))"
      using en miss(1) c2 by (simp add: component_for_digest_def Let_def split: option.splits sum.splits)
    show ?thesis
    proof (cases x)
      case (Some c)
      then have g: "genuine R dg (dg b) c" using i2 by blast
      have r: "r = Inr c" "s' = s2\<lparr>c2_hits := c2_hits s2 + 1, component_lru := lru_insert (dg b) c (component_lru s)\<rparr>"
        using run go Some i2(2) by auto
      have "lru_ok R dg (lru_insert (dg b) c (component_lru s))" using lru_ok_insert [OF lru g] .
      with i2(1) r g lru_insert_new [OF miss(2)] show ?thesis by (auto simp: load_ok_def loader_inv_def)
    next
      case None
      show ?thesis
      proof (cases "compile_via_runtime R b hint")
        case (Inl e)
        then have "r = Inl e" "s' = s2" using run go None by auto
        with Inl i2(1) show ?thesis by (simp add: load_ok_def)
      next
        case (Inr c)
        let ?s3 = "try_c2_store R (dg b) c (s2\<lparr>cold_parses := cold_parses s2 + 1\<rparr>)"
        have g: "genuine R dg (dg b) c" using Inr by (rule genuine_compile)
        have i3: "loader_inv R dg ?s3" "component_lru ?s3 = component_lru s"
          using c2_store_inv [of R dg "s2\<lparr>cold_parses := cold_parses s2 + 1\<rparr>" "dg b" c] i2 h g by auto
        have r: "r = Inr c" "s' = ?s3\<lparr>component_lru := lru_insert (dg b) c (component_lru s)\<rparr>" using run go None Inr i3(2) by auto
        have "loader_inv R dg s'" unfolding r(2) using loader_inv_lru [OF i3(1) lru_ok_insert [OF lru g]] .
        with r g lru_insert_new [OF miss(2)] show ?thesis by (auto simp: load_ok_def)
      qed
    qed
  qed
qed

lemma cached_load:
  assumes "loader_inv R dg s" "\<not> component_cache_disabled R" "(dg b, c) \<in> set (lru_entries (component_lru s))"
  shows "\<exists>s'. component_for_digest R b (dg b) hint s = (Inr c, s') \<and> cold_parses s' = cold_parses s \<and> user_dbs s' = user_dbs s"
proof -
  have d: "distinct (map fst (lru_entries (component_lru s)))" using assms(1) by (simp add: loader_inv_def lru_ok_def)
  have "dg b \<in> fst ` set (lru_entries (component_lru s))" using assms(3) by (metis fst_conv image_eqI)
  then obtain c' l where g: "lru_get (dg b) (component_lru s) = (Some c', l)" "(dg b, c') \<in> set (lru_entries (component_lru s))"
    using lru_get_cases [of "dg b" "component_lru s"] by blast
  have "c' = c" using d g(2) assms(3) by (metis eq_key_imp_eq_value)
  with g(1) assms(2) show ?thesis by (simp add: component_for_digest_def)
qed

text \<open>A session of loads and changes of the database.\<close>

datatype load_call = Load bytes string | SetDbPath string

fun run_load :: "'c compiler_env \<Rightarrow> (bytes \<Rightarrow> string) \<Rightarrow> load_call \<Rightarrow> 'c loader_state \<Rightarrow> 'c loader_state" where
  "run_load R dg (Load b hint) s = snd (component_for_digest R b (dg b) hint s)"
| "run_load R dg (SetDbPath p) s = set_db_path p s"

lemma run_load_inv:
  assumes "loader_inv R dg s" "frames_open (frame_codec R)" "serial_ok R"
  shows "loader_inv R dg (run_load R dg call s)"
proof (cases call)
  case (Load b hint)
  obtain r s' where run: "component_for_digest R b (dg b) hint s = (r, s')" by fastforce
  then have "loader_inv R dg s'"
    using assms enabled_load [OF assms(1) _ run assms(2,3)] disabled_load [where dg = dg, OF _ run] by blast
  with Load run show ?thesis by simp
next
  case (SetDbPath p)
  with assms(1) show ?thesis by (simp add: set_db_path_def invalidate_user_conn_def loader_inv_def)
qed

lemma run_loads_inv:
  "loader_inv R dg s \<Longrightarrow> frames_open (frame_codec R) \<Longrightarrow> serial_ok R \<Longrightarrow> loader_inv R dg (foldl (\<lambda>s k. run_load R dg k s) s calls)"
  by (induction calls arbitrary: s) (simp_all add: run_load_inv)

section \<open>Properties\<close>

text \<open>C7. Caching never changes which component is loaded. After any session of loads and database changes,
  loading bytes yields a component compiled from bytes of the same digest, whichever tier answers; it fails
  only if the compiler fails; the in-process cache stays within its capacity (one entry at least); and, with
  caching on, loading the same bytes again returns the same component without compiling and without touching
  the database.\<close>

theorem component_cache_transparent:
  assumes "loader_inv R dg s0" "frames_open (frame_codec R)" "serial_ok R"
    and "s = foldl (\<lambda>s k. run_load R dg k s) s0 calls" "component_for_digest R b (dg b) hint s = (r, s')"
  shows "load_ok R dg b hint r \<and>
    length (lru_entries (component_lru s')) \<le> max 1 (lru_cap (component_lru s')) \<and>
    (\<not> component_cache_disabled R \<longrightarrow> (\<forall>c hint'. r = Inr c \<longrightarrow>
       (\<exists>s''. component_for_digest R b (dg b) hint' s' = (Inr c, s'') \<and> cold_parses s'' = cold_parses s' \<and> user_dbs s'' = user_dbs s')))"
proof -
  have i: "loader_inv R dg s" unfolding assms(4) using assms(1-3) by (rule run_loads_inv)
  show ?thesis
  proof (cases "component_cache_disabled R")
    case True
    have "load_ok R dg b hint r" "loader_inv R dg s'" using disabled_load [where dg = dg, OF True assms(5)] i by blast+
    then show ?thesis using True unfolding loader_inv_def lru_ok_def by blast
  next
    case False
    note e = enabled_load [OF i False assms(5,2,3)]
    then have "length (lru_entries (component_lru s')) \<le> max 1 (lru_cap (component_lru s'))" by (simp add: loader_inv_def lru_ok_def)
    with e cached_load [OF _ False] show ?thesis by blast
  qed
qed

definition toy_compiler :: "bytes compiler_env" where
  "toy_compiler = \<lparr>compile_via_runtime = (\<lambda>b hint. if b = [] then Inl ''empty'' else Inr (b @ [0])), serialize_component = Some,
     deserialize_component = Some, frame_codec = toy_frames, engine_info = toy_engine, blob_cache_key = Some [9],
     loader_env = (\<lambda>_. None), loader_now = 5\<rparr>"

definition toy_loader :: "bytes loader_state" where
  "toy_loader = \<lparr>component_lru = lru_new 2, user_db_path = ''u.db'', user_conn = None, user_dbs = [''u.db'' \<mapsto> None],
     c1_hits = 0, c2_hits = 0, cold_parses = 0, cache_bypassed = 0\<rparr>"

theorem component_cache_transparent_witness:
  "\<exists>r s'. component_for_digest toy_compiler [1] ''ab'' ''one'' (foldl (\<lambda>s k. run_load toy_compiler (\<lambda>b. ''ab'') k s) toy_loader
       [Load [1] ''zero'', SetDbPath [], Load [] ''bad'']) = (r, s') \<and> load_ok toy_compiler (\<lambda>b. ''ab'') [1] ''one'' r"
proof -
  let ?s = "foldl (\<lambda>s k. run_load toy_compiler (\<lambda>b. ''ab'') k s) toy_loader [Load [1] ''zero'', SetDbPath [], Load [] ''bad'']"
  have "loader_inv toy_compiler (\<lambda>b. ''ab'') toy_loader"
    by (simp add: loader_inv_def lru_ok_def table_genuine_def toy_loader_def lru_new_def)
  moreover have "frames_open (frame_codec toy_compiler)" by (simp add: toy_compiler_def frames_open_def toy_frames_def)
  moreover have "serial_ok toy_compiler" by (simp add: serial_ok_def toy_compiler_def)
  moreover obtain r s' where "component_for_digest toy_compiler [1] ''ab'' ''one'' ?s = (r, s')" by fastforce
  ultimately show ?thesis
    using component_cache_transparent [of toy_compiler "\<lambda>b. ''ab''" toy_loader ?s
        "[Load [1] ''zero'', SetDbPath [], Load [] ''bad'']" "[1]" "''one''" r s'] by blast
qed

text \<open>The capacity is not a hard cap when it is zero: the entry just inserted stays.\<close>

lemma zero_capacity_keeps_one: "length (lru_entries (lru_insert d c (lru_new 0))) = 1"
  by (simp add: lru_insert_def lru_new_def)

end
