(* ===== verification/Sql_Conn.thy ===== *)
theory Sql_Conn
  imports Prelude
begin

text \<open>
  The SQLite connection the cache runs on. One record per table of
  \<^verbatim>\<open>sqlite-cas-cache/src/schema.rs\<close>, the database as the tables that exist, and the
  connection state that the code observes: the foreign-key pragma, the open transaction, the
  attached databases, \<open>changes()\<close>, \<open>total_changes()\<close>, \<open>last_insert_rowid()\<close> and the
  wall clock. A statement either fails and changes no table, or returns the new connection.
  Tables are lists of rows in insertion order; every SELECT the code runs without ORDER BY is
  used through its set of rows only.
\<close>

section \<open>Rows of the cache tables\<close>

record artifact_row =
  a_hash :: bytes
  a_sha256 :: "bytes option"
  a_bytes :: bytes
  a_bytes_len :: int
  a_created_at :: int
  a_last_used_at :: int
  a_use_count :: int

record uri_row =
  u_uri :: string
  u_hash :: bytes
  u_fetched_at :: int
  u_last_used_at :: int

record bundle_row =
  b_id :: int
  b_name :: "string option"
  b_set_hash :: string
  b_created_at :: int
  b_last_used_at :: int

record member_row =
  m_bundle_id :: int
  m_extension_name :: string
  m_content_hash :: string

record binary_row =
  n_bundle_id :: int
  n_target_triple :: string
  n_binary_path :: string
  n_built_at :: int

record alias_row =
  l_name :: string
  l_bundle_id :: int
  l_created_at :: int

text \<open>The artifact table carries the order of its columns (\<open>SELECT *\<close> and positional INSERT
  depend on it) and whether the unique index on \<open>sha256\<close> exists; the bundle table carries
  whether \<open>name\<close> is declared UNIQUE, as schema version 3 did.\<close>

record artifact_table =
  at_cols :: "string list"
  at_sha_unique :: bool
  at_rows :: "artifact_row list"

record bundle_table =
  bt_name_unique :: bool
  bt_rows :: "bundle_row list"

text \<open>A table that does not exist is \<open>None\<close>; \<open>bundle_v4_t\<close> is the scratch table of one
  migration.\<close>

record cas_db =
  meta_t :: "(string \<times> string) list option"
  artifact_t :: "artifact_table option"
  uri_t :: "uri_row list option"
  bundle_t :: "bundle_table option"
  bundle_v4_t :: "bundle_table option"
  member_t :: "member_row list option"
  binary_t :: "binary_row list option"
  alias_t :: "alias_row list option"

definition empty_db :: cas_db where
  "empty_db = \<lparr>meta_t = None, artifact_t = None, uri_t = None, bundle_t = None,
     bundle_v4_t = None, member_t = None, binary_t = None, alias_t = None\<rparr>"

section \<open>Errors\<close>

datatype sql_error =
    NoSuchTable string
  | NoSuchColumn string
  | DuplicateColumn string
  | TableExists string
  | PrimaryKey string
  | UniqueIndex string
  | ForeignKey
  | TxActive
  | NoTx
  | DbLocked
  | DbInUse
  | IntegerOverflow
  | NoSuchDatabase string
  | Misaligned
  | RowidExhausted

text \<open>\<open>Misaligned\<close> is not an error of the engine: it marks the point where a positional
  \<open>INSERT .. SELECT *\<close> between tables with different column orders would store values in the
  wrong columns, which the typed rows cannot represent.

  Errors of the cache API; \<open>Db\<close> is an error of the engine passed on by \<open>map_err\<close>.\<close>

datatype cas_error =
    Db sql_error
  | HashNot32
  | DanglingUri
  | Blake3Miss bytes
  | NoResolver string
  | ResolverFailed string
  | HashMismatch bytes bytes
  | NoSources
  | ExportExists
  | SrcNoVersion
  | SrcIncompatible string
  | IncompatibleSchema string
  | VersionMissing
  | AliasConflict string string string
  | EmptyPrefix
  | NonHexChar char

section \<open>The connection\<close>

record conn =
  db :: cas_db
  fk_on :: bool
  tx :: "cas_db option"
  attached :: "(string \<times> cas_db) list"
  n_changes :: int
  n_total :: int
  last_rowid :: int
  clock :: "nat \<Rightarrow> int"
  ticks :: nat

type_synonym 'a cas_op = "(cas_error, conn, 'a) op"

definition open_conn :: "cas_db \<Rightarrow> (nat \<Rightarrow> int) \<Rightarrow> conn" where
  "open_conn d clk = \<lparr>db = d, fk_on = False, tx = None, attached = [], n_changes = 0,
     n_total = 0, last_rowid = 0, clock = clk, ticks = 0\<rparr>"

text \<open>\<open>unix_now\<close>: seconds since the epoch, 0 for a clock set before it. Every call reads the
  clock again; \<open>clock\<close> lists what the successive reads return.\<close>

definition now_of :: "conn \<Rightarrow> int" where
  "now_of c = (if clock c (ticks c) < 0 then 0 else clock c (ticks c))"

definition tick :: "conn \<Rightarrow> conn" where
  "tick c = c\<lparr>ticks := Suc (ticks c)\<rparr>"

definition unix_now :: "int cas_op" where
  "unix_now = (\<lambda>c. (Inr (now_of c), tick c))"

text \<open>\<open>dml n k\<close> records that a statement changed \<open>n\<close> rows directly and \<open>k\<close> more
  through foreign-key actions: only \<open>total_changes()\<close> counts the latter.\<close>

definition dml :: "nat \<Rightarrow> nat \<Rightarrow> conn \<Rightarrow> conn" where
  "dml n k c = c\<lparr>n_changes := int n, n_total := n_total c + int n + int k\<rparr>"

definition need :: "string \<Rightarrow> 'a option \<Rightarrow> sql_error + 'a" where
  "need t x = (case x of None \<Rightarrow> Inl (NoSuchTable t) | Some y \<Rightarrow> Inr y)"

lemma need_simps [simp]: "need t None = Inl (NoSuchTable t)" "need t (Some y) = Inr y"
  by (simp_all add: need_def)

lemma need_eq_Inr [simp]: "need t x = Inr y \<longleftrightarrow> x = Some y"
  by (cases x) auto

text \<open>A statement that fails at \<open>prepare\<close> was never run; one that fails at \<open>step\<close> leaves
  \<open>changes()\<close> at 0.\<close>

fun prepare_error :: "sql_error \<Rightarrow> bool" where
  "prepare_error (NoSuchTable t) = True"
| "prepare_error (NoSuchColumn t) = True"
| "prepare_error e = False"

definition exec :: "(conn \<Rightarrow> sql_error + conn) \<Rightarrow> unit cas_op" where
  "exec st = (\<lambda>c. case st c of
      Inl e \<Rightarrow> (Inl (Db e), if prepare_error e then c else c\<lparr>n_changes := 0\<rparr>)
    | Inr c' \<Rightarrow> (Inr (), c'))"

definition select :: "(cas_db \<Rightarrow> sql_error + 'a) \<Rightarrow> 'a cas_op" where
  "select q = (\<lambda>c. (case q (db c) of Inl e \<Rightarrow> Inl (Db e) | Inr x \<Rightarrow> Inr x, c))"

section \<open>Transactions and batches\<close>

definition begin_tx :: "conn \<Rightarrow> sql_error + conn" where
  "begin_tx c = (if tx c = None then Inr (c\<lparr>tx := Some (db c)\<rparr>) else Inl TxActive)"

definition commit_tx :: "conn \<Rightarrow> sql_error + conn" where
  "commit_tx c = (if tx c = None then Inl NoTx else Inr (c\<lparr>tx := None\<rparr>))"

definition rollback_tx :: "conn \<Rightarrow> sql_error + conn" where
  "rollback_tx c = (case tx c of None \<Rightarrow> Inl NoTx | Some d \<Rightarrow> Inr (c\<lparr>db := d, tx := None\<rparr>))"

text \<open>\<open>execute_batch\<close> runs the statements of a script in order and stops at the first
  failure; a transaction the script opened is then still open.\<close>

fun execute_batch :: "(conn \<Rightarrow> sql_error + conn) list \<Rightarrow> unit cas_op" where
  "execute_batch [] = ret ()"
| "execute_batch (st # sts) = bnd (exec st) (\<lambda>_. execute_batch sts)"

text \<open>\<open>let _ = conn.execute_batch(..)\<close>: run it and drop the error.\<close>

definition ignore_err :: "unit cas_op \<Rightarrow> unit cas_op" where
  "ignore_err m = (\<lambda>c. (Inr (), snd (m c)))"

lemma keeps_ignore_err [keeps_rules]: "keeps P m \<Longrightarrow> keeps P (ignore_err m)"
  by (simp add: keeps_def ignore_err_def)

lemma ignore_err_Inr: "m c = (r, c') \<Longrightarrow> ignore_err m c = (Inr (), c')"
  by (simp add: ignore_err_def)

lemma exec_Inr: "st c = Inr c' \<Longrightarrow> exec st c = (Inr (), c')"
  by (simp add: exec_def)

lemma exec_eq_Inr_iff: "exec st c = (Inr u, c') \<longleftrightarrow> st c = Inr c'"
  by (auto simp: exec_def split: sum.splits)

lemma exec_Inl_db: "exec st c = (Inl e, c') \<Longrightarrow> db c' = db c \<and> tx c' = tx c \<and> fk_on c' = fk_on c"
  by (auto simp: exec_def split: sum.splits if_splits)

lemma select_eq_Inr_iff: "select q c = (Inr x, c') \<longleftrightarrow> q (db c) = Inr x \<and> c' = c"
  by (auto simp: select_def split: sum.splits)

lemma select_state: "select q c = (r, c') \<Longrightarrow> c' = c"
  by (simp add: select_def)

lemma tick_simps [simp]:
  "db (tick c) = db c" "tx (tick c) = tx c" "fk_on (tick c) = fk_on c" "attached (tick c) = attached c"
  "clock (tick c) = clock c" "ticks (tick c) = Suc (ticks c)" "n_changes (tick c) = n_changes c"
  "n_total (tick c) = n_total c" "last_rowid (tick c) = last_rowid c"
  by (simp_all add: tick_def)

lemma unix_now_app [simp]: "unix_now c = (Inr (now_of c), tick c)"
  by (simp add: unix_now_def)

lemma now_of_nonneg [simp]: "0 \<le> now_of c"
  by (simp add: now_of_def)

text \<open>Symbolic execution: what the next statement does decides how the operation goes on.\<close>

lemma bnd_unix_now [simp]: "bnd unix_now k c = k (now_of c) (tick c)"
  by (simp add: bnd_def)

lemma bnd_select_Inr: "q (db c) = Inr x \<Longrightarrow> bnd (select q) k c = k x c"
  by (simp add: bnd_def select_def)

lemma bnd_select_Inl: "q (db c) = Inl e \<Longrightarrow> bnd (select q) k c = (Inl (Db e), c)"
  by (simp add: bnd_def select_def)

lemma bnd_exec_Inr: "st c = Inr c' \<Longrightarrow> bnd (exec st) k c = k () c'"
  by (simp add: bnd_def exec_def)

lemma bnd_exec_Inl:
  "st c = Inl e \<Longrightarrow> bnd (exec st) k c = (Inl (Db e), if prepare_error e then c else c\<lparr>n_changes := 0\<rparr>)"
  by (simp add: bnd_def exec_def)

lemma bnd_query [simp]: "bnd (query q) k c = (case q c of Inl e \<Rightarrow> (Inl e, c) | Inr x \<Rightarrow> k x c)"
  by (simp add: bnd_def split: sum.splits)

lemmas run_op = bnd_select_Inr bnd_select_Inl bnd_exec_Inr bnd_exec_Inl

lemma dml_simps [simp]:
  "db (dml n k c) = db c" "tx (dml n k c) = tx c" "fk_on (dml n k c) = fk_on c"
  "attached (dml n k c) = attached c" "clock (dml n k c) = clock c" "ticks (dml n k c) = ticks c"
  "n_changes (dml n k c) = int n" "n_total (dml n k c) = n_total c + int n + int k"
  by (simp_all add: dml_def)

section \<open>Invariants that only read the connection\<close>

text \<open>A predicate on connections is \<open>frame\<close> when it looks at the tables, the foreign-key pragma
  and the open transaction only; then reads, clock reads and failed statements keep it, and a
  statement keeps it when its success does.\<close>

definition frame :: "(conn \<Rightarrow> bool) \<Rightarrow> bool" where
  "frame P \<longleftrightarrow> (\<forall>c c'. db c = db c' \<and> tx c = tx c' \<and> fk_on c = fk_on c' \<longrightarrow> P c = P c')"

lemma frameD: "frame P \<Longrightarrow> db c = db c' \<Longrightarrow> tx c = tx c' \<Longrightarrow> fk_on c = fk_on c' \<Longrightarrow> P c = P c'"
  unfolding frame_def by blast

lemma keeps_unix_now: "frame P \<Longrightarrow> keeps P unix_now"
  unfolding keeps_def
proof (intro allI impI)
  fix c assume "frame P" and "P c"
  then show "P (snd (unix_now c))" using frameD [of P "snd (unix_now c)" c] by simp
qed

lemma keeps_select: "keeps P (select q)"
  by (simp add: keeps_def select_def)

lemma keeps_exec:
  assumes f: "frame P" and st: "\<And>c c'. P c \<Longrightarrow> st c = Inr c' \<Longrightarrow> P c'"
  shows "keeps P (exec st)"
proof (rule keepsI)
  fix c assume P: "P c"
  show "P (snd (exec st c))"
  proof (cases "st c")
    case (Inl e)
    then have "db (snd (exec st c)) = db c \<and> tx (snd (exec st c)) = tx c \<and> fk_on (snd (exec st c)) = fk_on c"
      by (simp add: exec_def)
    with P show ?thesis using frameD [OF f, of "snd (exec st c)" c] by simp
  next
    case (Inr c')
    with P st show ?thesis by (simp add: exec_def)
  qed
qed

lemma keeps_execute_batch:
  "frame P \<Longrightarrow> (\<And>st. st \<in> set sts \<Longrightarrow> keeps P (exec st)) \<Longrightarrow> keeps P (execute_batch sts)"
  by (induction sts) (auto intro!: keeps_ret keeps_bnd)

end
