(* ===== verification/Content_Store.thy ===== *)
theory Content_Store
  imports Prelude
begin

text \<open>
  The interface the rest of the system relies on when it talks to a content-addressed store:
  \<open>contents\<close> maps digests to bytes, \<open>bindings\<close> maps names to digests. The laws are what
  the store of \<^verbatim>\<open>store.rs\<close> promises (Cas_Store discharges them for the model); the lemmas
  are what clients such as \<open>fetch_artifact\<close> and the blob backend need, proved once here.
\<close>

locale content_store =
  fixes inv :: "'s \<Rightarrow> bool"
    and contents :: "'s \<Rightarrow> 'h \<Rightarrow> 'b option"
    and bindings :: "'s \<Rightarrow> 'u \<Rightarrow> 'h option"
    and digest :: "'b \<Rightarrow> 'h"
    and store :: "'b \<Rightarrow> ('e, 's, 'h) op"
    and load :: "'h \<Rightarrow> ('e, 's, 'b option) op"
    and bind_name :: "'u \<Rightarrow> 'h \<Rightarrow> ('e, 's, unit) op"
    and resolve :: "'u \<Rightarrow> ('e, 's, ('h \<times> 'b) option) op"
  assumes inv_store: "keeps inv (store b)"
    and inv_load: "keeps inv (load h)"
    and inv_bind: "keeps inv (bind_name u h)"
    and inv_resolve: "keeps inv (resolve u)"
    and addressed: "inv s \<Longrightarrow> contents s h = Some b \<Longrightarrow> digest b = h"
    and bound_stored: "inv s \<Longrightarrow> bindings s u = Some h \<Longrightarrow> contents s h \<noteq> None"
    and store_law: "inv s \<Longrightarrow> store b s = (Inr h, s') \<Longrightarrow> h = digest b \<and>
      contents s' = (contents s)(h \<mapsto> case contents s h of None \<Rightarrow> b | Some old \<Rightarrow> old) \<and>
      bindings s' = bindings s"
    and load_law: "inv s \<Longrightarrow> \<exists>s'. load h s = (Inr (contents s h), s') \<and>
      contents s' = contents s \<and> bindings s' = bindings s"
    and bind_law: "inv s \<Longrightarrow> contents s h \<noteq> None \<Longrightarrow> \<exists>s'. bind_name u h s = (Inr (), s') \<and>
      contents s' = contents s \<and> bindings s' = (bindings s)(u \<mapsto> h)"
    and resolve_law: "inv s \<Longrightarrow> \<exists>s'. resolve u s = (Inr (case bindings s u of None \<Rightarrow> None
      | Some h \<Rightarrow> Some (h, the (contents s h))), s') \<and> contents s' = contents s \<and> bindings s' = bindings s"
begin

text \<open>A stored blob is stored for good: later stores never change what a digest means.\<close>

lemma store_monotone:
  "inv s \<Longrightarrow> store b s = (Inr h, s') \<Longrightarrow> contents s g = Some x \<Longrightarrow> contents s' g = Some x"
  using store_law by fastforce

lemma store_then_load:
  assumes "inv s" "store b s = (Inr h, s')"
    and "\<And>x. contents s (digest b) = Some x \<Longrightarrow> x = b"
  shows "\<exists>s''. load h s' = (Inr (Some b), s'')"
proof -
  have inv: "inv s'" using keepsD [OF inv_store assms(1,2)] .
  have "contents s' h = Some b"
    using store_law [OF assms(1,2)] assms(3) by (cases "contents s h") auto
  with load_law [OF inv, of h] show ?thesis by auto
qed

lemma load_authentic: "inv s \<Longrightarrow> load h s = (Inr (Some b), s') \<Longrightarrow> digest b = h"
  using load_law [of s h] addressed [of s h b] by auto

lemma resolve_authentic:
  assumes "inv s" "resolve u s = (Inr (Some (h, b)), s')"
  shows "digest b = h \<and> contents s h = Some b \<and> bindings s u = Some h"
proof -
  have h: "bindings s u = Some h" "b = the (contents s h)"
    using resolve_law [OF assms(1), of u] assms(2) by (auto split: option.splits)
  with bound_stored [OF assms(1)] addressed [OF assms(1)] show ?thesis by fastforce
qed

lemma bind_then_resolve:
  assumes "inv s" "contents s h = Some b"
  shows "\<exists>s' s''. bind_name u h s = (Inr (), s') \<and> resolve u s' = (Inr (Some (h, b)), s'')"
proof -
  obtain s' where s': "bind_name u h s = (Inr (), s')" "contents s' = contents s"
    "bindings s' = (bindings s)(u \<mapsto> h)" using bind_law [OF assms(1), of h u] assms(2) by auto
  have "inv s'" using keepsD [OF inv_bind assms(1) s'(1)] .
  from resolve_law [OF this, of u] s' assms(2) show ?thesis by auto
qed

end

end
