(* ===== verification/Cas_Store.thy ===== *)
theory Cas_Store
  imports Sql_Conn Content_Store
begin

text \<open>
  \<^verbatim>\<open>sqlite-cas-cache/src/store.rs\<close>: the content-addressed store over the tables
  \<^verbatim>\<open>__cas_artifact\<close> and \<^verbatim>\<open>__cas_uri\<close> (put, get, URI bindings, counts, purge). The
  hash functions of the crates blake3 and sha2 are the parameter \<open>H\<close>. Each SQL string is a
  statement on the connection; each method is an operation that runs the statements in the
  order of the code. The store invariant says that rows are addressed by the hash of their
  bytes and that every URI points at a stored artifact.
\<close>

section \<open>Parameters and helpers\<close>

record hashers =
  blake3 :: "bytes \<Rightarrow> bytes"
  sha256 :: "bytes \<Rightarrow> bytes"

text \<open>Documented behaviour of the two crates: both digests have 32 bytes.\<close>

definition digests_32 :: "hashers \<Rightarrow> bool" where
  "digests_32 H \<longleftrightarrow> (\<forall>b. length (blake3 H b) = 32 \<and> length (sha256 H b) = 32)"

definition set_arts :: "artifact_table \<Rightarrow> artifact_row list \<Rightarrow> conn \<Rightarrow> conn" where
  "set_arts t rs c = c\<lparr>db := (db c)\<lparr>artifact_t := Some (t\<lparr>at_rows := rs\<rparr>)\<rparr>\<rparr>"

definition set_uris :: "uri_row list \<Rightarrow> conn \<Rightarrow> conn" where
  "set_uris us c = c\<lparr>db := (db c)\<lparr>uri_t := Some us\<rparr>\<rparr>"

definition arts :: "cas_db \<Rightarrow> sql_error + artifact_table" where
  "arts d = need ''__cas_artifact'' (artifact_t d)"

definition uris :: "cas_db \<Rightarrow> sql_error + uri_row list" where
  "uris d = need ''__cas_uri'' (uri_t d)"

section \<open>Statements\<close>

text \<open>Whether another row than \<open>h\<close> already carries this sha-256 mirror (the partial unique
  index ignores NULL).\<close>

definition sha_taken :: "bytes \<Rightarrow> bytes option \<Rightarrow> artifact_row list \<Rightarrow> bool" where
  "sha_taken h s rs \<longleftrightarrow> s \<noteq> None \<and> list_ex (\<lambda>r. a_hash r \<noteq> h \<and> a_sha256 r = s) rs"

definition put_stmt :: "bytes \<Rightarrow> bytes \<Rightarrow> bytes \<Rightarrow> int \<Rightarrow> int \<Rightarrow> conn \<Rightarrow> sql_error + conn" where
  "put_stmt h s b len now c = sbind (arts (db c)) (\<lambda>t.
     case lookup_by a_hash h (at_rows t) of
       None \<Rightarrow>
         if at_sha_unique t \<and> sha_taken h (Some s) (at_rows t)
         then Inl (UniqueIndex ''__cas_artifact.sha256'')
         else Inr (dml 1 0 (set_arts t (at_rows t @
           [\<lparr>a_hash = h, a_sha256 = Some s, a_bytes = b, a_bytes_len = len, a_created_at = now,
             a_last_used_at = now, a_use_count = 0\<rparr>]) c))
     | Some r \<Rightarrow>
         let s' = (case a_sha256 r of None \<Rightarrow> Some s | Some old \<Rightarrow> Some old) in
         if at_sha_unique t \<and> sha_taken h s' (at_rows t)
         then Inl (UniqueIndex ''__cas_artifact.sha256'')
         else Inr (dml 1 0 (set_arts t (update_where (\<lambda>q. a_hash q = h)
           (\<lambda>q. q\<lparr>a_sha256 := s', a_last_used_at := now, a_use_count := a_use_count q + 1\<rparr>)
           (at_rows t)) c)))"

definition touch_art :: "int \<Rightarrow> artifact_row \<Rightarrow> artifact_row" where
  "touch_art now r = r\<lparr>a_last_used_at := now, a_use_count := a_use_count r + 1\<rparr>"

definition get_upd_stmt :: "bytes \<Rightarrow> int \<Rightarrow> conn \<Rightarrow> sql_error + conn" where
  "get_upd_stmt h now c = sbind (arts (db c)) (\<lambda>t.
     Inr (dml (count_where (\<lambda>r. a_hash r = h) (at_rows t)) 0
       (set_arts t (update_where (\<lambda>r. a_hash r = h) (touch_art now) (at_rows t)) c)))"

definition get_sel :: "bytes \<Rightarrow> cas_db \<Rightarrow> sql_error + bytes option" where
  "get_sel h d = sbind (arts d) (\<lambda>t. Inr (map_option a_bytes (lookup_by a_hash h (at_rows t))))"

definition sha_sel :: "bytes \<Rightarrow> cas_db \<Rightarrow> sql_error + (bytes \<times> bytes) option" where
  "sha_sel s d = sbind (arts d) (\<lambda>t.
     Inr (map_option (\<lambda>r. (a_bytes r, a_hash r)) (lookup_by a_sha256 (Some s) (at_rows t))))"

definition set_uri_stmt :: "string \<Rightarrow> bytes \<Rightarrow> int \<Rightarrow> conn \<Rightarrow> sql_error + conn" where
  "set_uri_stmt u h now c = sbind (uris (db c)) (\<lambda>us. sbind (arts (db c)) (\<lambda>t.
     if fk_on c \<and> h \<notin> a_hash ` set (at_rows t) then Inl ForeignKey
     else Inr (dml 1 0 (set_uris
       (if u \<in> u_uri ` set us
        then update_where (\<lambda>r. u_uri r = u)
               (\<lambda>r. r\<lparr>u_hash := h, u_fetched_at := now, u_last_used_at := now\<rparr>) us
        else us @ [\<lparr>u_uri = u, u_hash = h, u_fetched_at = now, u_last_used_at = now\<rparr>]) c))))"

definition uri_sel :: "string \<Rightarrow> cas_db \<Rightarrow> sql_error + bytes option" where
  "uri_sel u d = sbind (uris d) (\<lambda>us. Inr (map_option u_hash (lookup_by u_uri u us)))"

definition touch_uri :: "int \<Rightarrow> uri_row \<Rightarrow> uri_row" where
  "touch_uri now r = r\<lparr>u_last_used_at := now\<rparr>"

definition uri_touch_stmt :: "string \<Rightarrow> int \<Rightarrow> conn \<Rightarrow> sql_error + conn" where
  "uri_touch_stmt u now c = sbind (uris (db c)) (\<lambda>us.
     Inr (dml (count_where (\<lambda>r. u_uri r = u) us) 0
       (set_uris (update_where (\<lambda>r. u_uri r = u) (touch_uri now) us) c)))"

definition uri_delete_stmt :: "string \<Rightarrow> conn \<Rightarrow> sql_error + conn" where
  "uri_delete_stmt u c = sbind (uris (db c)) (\<lambda>us.
     Inr (dml (count_where (\<lambda>r. u_uri r = u) us) 0 (set_uris (delete_where (\<lambda>r. u_uri r = u) us) c)))"

text \<open>\<open>DELETE FROM __cas_artifact WHERE p\<close>: with foreign keys on, a row some URI still
  references makes the whole statement fail (ON DELETE RESTRICT).\<close>

definition art_delete_stmt :: "(cas_db \<Rightarrow> artifact_row \<Rightarrow> bool) \<Rightarrow> conn \<Rightarrow> sql_error + conn" where
  "art_delete_stmt p c = sbind (arts (db c)) (\<lambda>t. sbind (uris (db c)) (\<lambda>us.
     if fk_on c \<and> list_ex (\<lambda>r. p (db c) r \<and> a_hash r \<in> u_hash ` set us) (at_rows t)
     then Inl ForeignKey
     else Inr (dml (count_where (p (db c)) (at_rows t)) 0
       (set_arts t (delete_where (p (db c)) (at_rows t)) c))))"

definition uri_clear_stmt :: "conn \<Rightarrow> sql_error + conn" where
  "uri_clear_stmt c = sbind (uris (db c)) (\<lambda>us. Inr (dml (length us) 0 (set_uris [] c)))"

section \<open>Operations\<close>

definition put_ref :: "hashers \<Rightarrow> bytes \<Rightarrow> bytes cas_op" where
  "put_ref H b =
     (let h = blake3 H b; s = sha256 H b in
      bnd unix_now (\<lambda>now.
      bnd (exec (put_stmt h s b (as_i64 (length b)) now)) (\<lambda>_.
      ret h)))"

definition put :: "hashers \<Rightarrow> bytes \<Rightarrow> bytes cas_op" where
  "put H b = put_ref H b"

definition get_by_sha256_ref :: "bytes \<Rightarrow> bytes option cas_op" where
  "get_by_sha256_ref s =
     bnd unix_now (\<lambda>now.
     bnd (select (sha_sel s)) (\<lambda>row.
     case row of
       None \<Rightarrow> ret None
     | Some (b, h) \<Rightarrow> bnd (exec (get_upd_stmt h now)) (\<lambda>_. ret (Some b))))"

definition get :: "bytes \<Rightarrow> bytes option cas_op" where
  "get h =
     bnd unix_now (\<lambda>now.
     bnd (select (get_sel h)) (\<lambda>row.
     case row of
       None \<Rightarrow> ret None
     | Some b \<Rightarrow> bnd (exec (get_upd_stmt h now)) (\<lambda>_. ret (Some b))))"

definition set_uri :: "string \<Rightarrow> bytes \<Rightarrow> unit cas_op" where
  "set_uri u h = bnd unix_now (\<lambda>now. exec (set_uri_stmt u h now))"

definition resolve_uri :: "string \<Rightarrow> (bytes \<times> bytes) option cas_op" where
  "resolve_uri u =
     bnd (select (uri_sel u)) (\<lambda>row.
     case row of
       None \<Rightarrow> ret None
     | Some h \<Rightarrow>
         bnd unix_now (\<lambda>now.
         bnd (exec (uri_touch_stmt u now)) (\<lambda>_.
         if length h \<noteq> 32 then fail HashNot32
         else bnd (get h) (\<lambda>found.
           case found of
             None \<Rightarrow> fail DanglingUri
           | Some b \<Rightarrow> ret (Some (h, b))))))"

record uri_entry =
  e_uri :: string
  e_hash :: bytes
  e_bytes_len :: nat
  e_fetched_at :: nat
  e_last_used_at :: nat

text \<open>The join of the \<open>list\<close> query, most recently used first.\<close>

definition list_sel :: "cas_db \<Rightarrow> sql_error + uri_entry list" where
  "list_sel d = sbind (uris d) (\<lambda>us. sbind (arts d) (\<lambda>t.
     Inr (List.maps (\<lambda>u. case lookup_by a_hash (u_hash u) (at_rows t) of
         None \<Rightarrow> []
       | Some a \<Rightarrow> [\<lparr>e_uri = u_uri u, e_hash = u_hash u, e_bytes_len = as_u64 (a_bytes_len a),
           e_fetched_at = as_u64 (u_fetched_at u), e_last_used_at = as_u64 (u_last_used_at u)\<rparr>])
       (sort_key (\<lambda>u. - u_last_used_at u) us))))"

definition list_entries :: "uri_entry list cas_op" where
  "list_entries =
     bnd (select list_sel) (\<lambda>es.
     if list_all (\<lambda>e. length (e_hash e) = 32) es then ret es else fail HashNot32)"

text \<open>\<open>COALESCE(SUM(bytes_len), 0)\<close>: an integer sum outside i64 is an error of the engine.\<close>

definition total_sel :: "cas_db \<Rightarrow> sql_error + int" where
  "total_sel d = sbind (arts d) (\<lambda>t.
     let n = sum_list (map a_bytes_len (at_rows t)) in
     if i64_range n then Inr n else Inl IntegerOverflow)"

definition total_bytes :: "nat cas_op" where
  "total_bytes = bnd (select total_sel) (\<lambda>n. ret (as_u64 n))"

definition artifact_count :: "nat cas_op" where
  "artifact_count =
     bnd (select (\<lambda>d. sbind (arts d) (\<lambda>t. Inr (int (length (at_rows t)))))) (\<lambda>n. ret (as_u64 n))"

definition uri_count :: "nat cas_op" where
  "uri_count = bnd (select (\<lambda>d. sbind (uris d) (\<lambda>us. Inr (int (length us))))) (\<lambda>n. ret (as_u64 n))"

definition delete_uri :: "string \<Rightarrow> bool cas_op" where
  "delete_uri u = bnd (exec (uri_delete_stmt u)) (\<lambda>_. query (\<lambda>c. Inr (n_changes c > 0)))"

definition purge :: "unit cas_op" where
  "purge = execute_batch [begin_tx, uri_clear_stmt, art_delete_stmt (\<lambda>_ _. True), commit_tx]"

section \<open>The store invariant\<close>

text \<open>A row is addressed by the blake3 hash of its bytes, its length column is the length of its
  bytes, and its sha-256 mirror, when set, is the sha-256 of bytes with the same blake3 hash.\<close>

definition row_ok :: "hashers \<Rightarrow> artifact_row \<Rightarrow> bool" where
  "row_ok H r \<longleftrightarrow> a_hash r = blake3 H (a_bytes r) \<and> a_bytes_len r = as_i64 (length (a_bytes r)) \<and>
     (\<forall>s. a_sha256 r = Some s \<longrightarrow> (\<exists>b. s = sha256 H b \<and> blake3 H b = a_hash r))"

definition sha_unique :: "artifact_row list \<Rightarrow> bool" where
  "sha_unique rs \<longleftrightarrow> (\<forall>r \<in> set rs. \<forall>q \<in> set rs. a_sha256 r \<noteq> None \<and> a_sha256 r = a_sha256 q \<longrightarrow>
     a_hash r = a_hash q)"

definition rows_ok :: "hashers \<Rightarrow> artifact_row list \<Rightarrow> bool" where
  "rows_ok H rs \<longleftrightarrow> distinct (map a_hash rs) \<and> sha_unique rs \<and> (\<forall>r \<in> set rs. row_ok H r)"

definition tables_ok :: "hashers \<Rightarrow> artifact_table \<Rightarrow> uri_row list \<Rightarrow> bool" where
  "tables_ok H t us \<longleftrightarrow> at_sha_unique t \<and> rows_ok H (at_rows t) \<and> distinct (map u_uri us) \<and>
     (\<forall>u \<in> set us. u_hash u \<in> a_hash ` set (at_rows t))"

definition store_ok :: "hashers \<Rightarrow> cas_db \<Rightarrow> bool" where
  "store_ok H d \<longleftrightarrow> (\<exists>t us. artifact_t d = Some t \<and> uri_t d = Some us \<and> tables_ok H t us)"

definition store_inv :: "hashers \<Rightarrow> conn \<Rightarrow> bool" where
  "store_inv H c \<longleftrightarrow> fk_on c \<and> tx c = None \<and> store_ok H (db c)"

lemma store_invE:
  assumes "store_inv H c"
  obtains t us where "artifact_t (db c) = Some t" "uri_t (db c) = Some us" "tables_ok H t us"
    "fk_on c" "tx c = None"
  using assms by (auto simp: store_inv_def store_ok_def)

lemma frame_store_inv [simp]: "frame (store_inv H)"
  by (simp add: frame_def store_inv_def)

lemmas keeps_store = keeps_unix_now [OF frame_store_inv] keeps_select
  keeps_exec [OF frame_store_inv]

text \<open>How the table setters act on the projections the invariant reads.\<close>

lemma set_arts_simps [simp]:
  "artifact_t (db (set_arts t rs c)) = Some (t\<lparr>at_rows := rs\<rparr>)" "uri_t (db (set_arts t rs c)) = uri_t (db c)"
  "meta_t (db (set_arts t rs c)) = meta_t (db c)" "bundle_t (db (set_arts t rs c)) = bundle_t (db c)"
  "tx (set_arts t rs c) = tx c" "fk_on (set_arts t rs c) = fk_on c" "clock (set_arts t rs c) = clock c"
  by (simp_all add: set_arts_def)

lemma set_uris_simps [simp]:
  "uri_t (db (set_uris us c)) = Some us" "artifact_t (db (set_uris us c)) = artifact_t (db c)"
  "meta_t (db (set_uris us c)) = meta_t (db c)" "bundle_t (db (set_uris us c)) = bundle_t (db c)"
  "tx (set_uris us c) = tx c" "fk_on (set_uris us c) = fk_on c" "clock (set_uris us c) = clock c"
  by (simp_all add: set_uris_def)

text \<open>The UPDATEs of the store leave the key column and the content columns alone.\<close>

interpretation touch_art: key_stable a_hash "touch_art now"
  by unfold_locales (simp add: touch_art_def)

interpretation mirror_art: key_stable a_hash
  "\<lambda>q. q\<lparr>a_sha256 := s', a_last_used_at := now, a_use_count := a_use_count q + 1\<rparr>"
  by unfold_locales simp

interpretation touch_uri: key_stable u_uri "touch_uri now"
  by unfold_locales (simp add: touch_uri_def)

interpretation rebind_uri: key_stable u_uri
  "\<lambda>r. r\<lparr>u_hash := h, u_fetched_at := now, u_last_used_at := now\<rparr>"
  by unfold_locales simp

lemma sha_uniqueI:
  "(\<And>r q s. r \<in> set rs \<Longrightarrow> q \<in> set rs \<Longrightarrow> a_sha256 r = Some s \<Longrightarrow> a_sha256 q = Some s \<Longrightarrow>
     a_hash r = a_hash q) \<Longrightarrow> sha_unique rs"
  unfolding sha_unique_def by (metis not_None_eq)

lemma sha_uniqueD:
  "sha_unique rs \<Longrightarrow> r \<in> set rs \<Longrightarrow> q \<in> set rs \<Longrightarrow> a_sha256 r = Some s \<Longrightarrow> a_sha256 q = Some s \<Longrightarrow>
     a_hash r = a_hash q"
  unfolding sha_unique_def by (metis option.distinct(1))

lemma in_update_whereE:
  assumes "r \<in> set (update_where p f rs)"
  obtains q where "q \<in> set rs" "r = (if p q then f q else q)"
  using assms by (auto simp: update_where_def)

lemma row_ok_touch [simp]: "row_ok H (touch_art now r) = row_ok H r"
  by (simp add: row_ok_def touch_art_def)

lemma rows_ok_touch: "rows_ok H rs \<Longrightarrow> rows_ok H (update_where p (touch_art now) rs)"
  unfolding rows_ok_def
proof (intro conjI)
  assume a: "distinct (map a_hash rs) \<and> sha_unique rs \<and> (\<forall>r\<in>set rs. row_ok H r)"
  show "distinct (map a_hash (update_where p (touch_art now) rs))"
    using a by (simp add: touch_art.keys_update_where)
  show "sha_unique (update_where p (touch_art now) rs)"
    by (rule sha_uniqueI)
      (use a in \<open>auto elim!: in_update_whereE simp: touch_art_def split: if_splits dest: sha_uniqueD\<close>)
  show "\<forall>r\<in>set (update_where p (touch_art now) rs). row_ok H r"
    using a by (auto simp: set_update_where)
qed

lemma rows_ok_delete: "rows_ok H rs \<Longrightarrow> rows_ok H (delete_where p rs)"
  by (auto simp: rows_ok_def sha_unique_def distinct_delete_where set_delete_where)

lemma rows_ok_insert:
  assumes "rows_ok H rs" and "row_ok H r" and "a_hash r \<notin> a_hash ` set rs"
    and "\<not> sha_taken (a_hash r) (a_sha256 r) rs"
  shows "rows_ok H (rs @ [r])"
proof -
  have "sha_unique (rs @ [r])"
  proof (rule sha_uniqueI)
    fix p q s assume pq: "p \<in> set (rs @ [r])" "q \<in> set (rs @ [r])" "a_sha256 p = Some s" "a_sha256 q = Some s"
    have clash: "a_sha256 x = a_sha256 r \<Longrightarrow> a_hash x = a_hash r" if "x \<in> set rs" "a_sha256 r \<noteq> None" for x
      using assms(4) that by (auto simp: sha_taken_def list_ex_iff)
    show "a_hash p = a_hash q"
      using pq assms(1) clash sha_uniqueD [of rs p q s] by (fastforce simp: rows_ok_def)
  qed
  with assms show ?thesis by (auto simp: rows_ok_def)
qed

lemma rows_ok_mirror:
  assumes ok: "rows_ok H rs" and r: "lookup_by a_hash h rs = Some r"
    and s': "s' = (case a_sha256 r of None \<Rightarrow> Some s | Some old \<Rightarrow> Some old)"
    and s: "s = sha256 H b" "h = blake3 H b"
    and free: "\<not> sha_taken h s' rs"
  shows "rows_ok H (update_where (\<lambda>q. a_hash q = h)
    (\<lambda>q. q\<lparr>a_sha256 := s', a_last_used_at := now, a_use_count := a_use_count q + 1\<rparr>) rs)"
    (is "rows_ok H ?rs'")
proof -
  have r': "r \<in> set rs" "a_hash r = h" using lookup_by_SomeD [OF r] by auto
  have dist: "distinct (map a_hash ?rs')"
    using ok by (simp add: rows_ok_def mirror_art.keys_update_where)
  have mirror: "\<exists>b'. the s' = sha256 H b' \<and> blake3 H b' = h \<and> s' = Some (the s')"
    using ok r' s s' by (cases "a_sha256 r") (auto simp: rows_ok_def row_ok_def)
  have rowsok: "\<forall>q\<in>set ?rs'. row_ok H q"
    using ok mirror by (auto simp: rows_ok_def row_ok_def set_update_where)
  have clash: "a_hash x = h" if "x \<in> set rs" "a_sha256 x = s'" for x
    using free that mirror by (auto simp: sha_taken_def list_ex_iff)
  have uniq: "sha_unique rs" using ok by (simp add: rows_ok_def)
  have "sha_unique ?rs'"
    by (rule sha_uniqueI)
      (auto elim!: in_update_whereE split: if_splits dest: clash sha_uniqueD [OF uniq])
  with dist rowsok show ?thesis by (simp add: rows_ok_def)
qed

text \<open>Every statement of the store keeps the invariant.\<close>

lemma put_stmt_inv:
  assumes inv: "store_inv H c"
    and st: "put_stmt (blake3 H b) (sha256 H b) b (as_i64 (length b)) now c = Inr c'"
  shows "store_inv H c'"
proof -
  from inv obtain t us where t: "artifact_t (db c) = Some t" "uri_t (db c) = Some us"
    "tables_ok H t us" "fk_on c" "tx c = None" by (rule store_invE)
  let ?h = "blake3 H b" and ?s = "sha256 H b"
  show ?thesis
  proof (cases "lookup_by a_hash ?h (at_rows t)")
    case None
    have "row_ok H \<lparr>a_hash = ?h, a_sha256 = Some ?s, a_bytes = b, a_bytes_len = as_i64 (length b),
        a_created_at = now, a_last_used_at = now, a_use_count = 0\<rparr>" (is "row_ok H ?r")
      by (auto simp: row_ok_def)
    moreover have "\<not> sha_taken ?h (Some ?s) (at_rows t)"
      using st t None by (auto simp: put_stmt_def arts_def tables_ok_def split: if_splits)
    moreover have "?h \<notin> a_hash ` set (at_rows t)" using None by (simp add: lookup_by_None_iff)
    ultimately have "rows_ok H (at_rows t @ [?r])"
      using t by (intro rows_ok_insert) (auto simp: tables_ok_def)
    with st t None show ?thesis
      by (auto simp: put_stmt_def arts_def store_inv_def store_ok_def tables_ok_def split: if_splits)
  next
    case (Some r)
    let ?s' = "case a_sha256 r of None \<Rightarrow> Some ?s | Some old \<Rightarrow> Some old"
    have "\<not> sha_taken ?h ?s' (at_rows t)"
      using st t Some by (auto simp: put_stmt_def arts_def tables_ok_def Let_def split: if_splits)
    with t Some have "rows_ok H (update_where (\<lambda>q. a_hash q = ?h)
        (\<lambda>q. q\<lparr>a_sha256 := ?s', a_last_used_at := now, a_use_count := a_use_count q + 1\<rparr>) (at_rows t))"
      by (intro rows_ok_mirror [where b = b, OF _ Some refl]) (auto simp: tables_ok_def)
    with st t Some show ?thesis
      by (auto simp: put_stmt_def arts_def store_inv_def store_ok_def tables_ok_def Let_def
          mirror_art.keyset_update_where split: if_splits)
  qed
qed

lemma get_upd_stmt_inv:
  assumes "store_inv H c" "get_upd_stmt h now c = Inr c'"
  shows "store_inv H c'"
  using assms by (auto simp: get_upd_stmt_def arts_def store_inv_def store_ok_def tables_ok_def
      rows_ok_touch touch_art.keyset_update_where)

lemma set_uri_stmt_inv:
  assumes "store_inv H c" "set_uri_stmt u h now c = Inr c'"
  shows "store_inv H c'"
  using assms
  by (auto simp: set_uri_stmt_def arts_def uris_def store_inv_def store_ok_def tables_ok_def
      rebind_uri.keys_update_where elim!: in_update_whereE split: if_splits)

lemma uri_touch_stmt_inv:
  assumes "store_inv H c" "uri_touch_stmt u now c = Inr c'"
  shows "store_inv H c'"
  using assms
  by (auto simp: uri_touch_stmt_def uris_def store_inv_def store_ok_def tables_ok_def
      touch_uri.keys_update_where touch_uri_def elim!: in_update_whereE split: if_splits)

lemma uri_delete_stmt_inv:
  assumes "store_inv H c" "uri_delete_stmt u c = Inr c'"
  shows "store_inv H c'"
  using assms
  by (auto simp: uri_delete_stmt_def uris_def store_inv_def store_ok_def tables_ok_def
      distinct_delete_where set_delete_where)

lemma art_delete_stmt_inv:
  assumes "store_inv H c" "art_delete_stmt p c = Inr c'"
  shows "store_inv H c'"
proof -
  from assms(1) obtain t us where t: "artifact_t (db c) = Some t" "uri_t (db c) = Some us"
    "tables_ok H t us" "fk_on c" "tx c = None" by (rule store_invE)
  let ?rs = "delete_where (p (db c)) (at_rows t)"
  have free: "\<not> p (db c) r" if "r \<in> set (at_rows t)" "a_hash r \<in> u_hash ` set us" for r
    using assms(2) t that by (auto simp: art_delete_stmt_def arts_def uris_def list_ex_iff split: if_splits)
  have "u_hash u \<in> a_hash ` set ?rs" if u: "u \<in> set us" for u
  proof -
    obtain r where "r \<in> set (at_rows t)" "a_hash r = u_hash u"
      using t u unfolding tables_ok_def by (metis (no_types, lifting) imageE)
    with free [of r] u show ?thesis by (auto simp: set_delete_where intro!: image_eqI [of _ _ r])
  qed
  with t assms(2) show ?thesis
    by (auto simp: art_delete_stmt_def arts_def uris_def store_inv_def store_ok_def tables_ok_def
        rows_ok_delete split: if_splits)
qed

text \<open>Hence so does every operation, on its success and on its error paths.\<close>

lemma keeps_put [keeps_rules]: "keeps (store_inv H) (put H b)"
  unfolding put_def put_ref_def Let_def
  by (intro keeps_rules keeps_store) (rule put_stmt_inv)

lemma keeps_get [keeps_rules]: "keeps (store_inv H) (get h)"
  unfolding get_def by (intro keeps_rules keeps_store) (rule get_upd_stmt_inv)

lemma keeps_get_by_sha256_ref [keeps_rules]: "keeps (store_inv H) (get_by_sha256_ref s)"
  unfolding get_by_sha256_ref_def case_prod_beta
  by (intro keeps_rules keeps_store) (rule get_upd_stmt_inv)

lemma keeps_set_uri [keeps_rules]: "keeps (store_inv H) (set_uri u h)"
  unfolding set_uri_def by (intro keeps_rules keeps_store) (rule set_uri_stmt_inv)

lemma keeps_resolve_uri [keeps_rules]: "keeps (store_inv H) (resolve_uri u)"
  unfolding resolve_uri_def by (intro keeps_rules keeps_store) (rule uri_touch_stmt_inv)

lemma keeps_delete_uri [keeps_rules]: "keeps (store_inv H) (delete_uri u)"
  unfolding delete_uri_def by (intro keeps_rules keeps_store) (rule uri_delete_stmt_inv)

lemma keeps_total_bytes [keeps_rules]: "keeps P total_bytes"
  unfolding total_bytes_def by (intro keeps_rules keeps_select)

lemma keeps_counts [keeps_rules]: "keeps P artifact_count" "keeps P uri_count" "keeps P list_entries"
  unfolding artifact_count_def uri_count_def list_entries_def by (intro keeps_rules keeps_select)+

section \<open>Abstract view: contents and bindings\<close>

text \<open>What a client sees: a partial map from hashes to bytes and one from URIs to hashes.\<close>

definition contents :: "conn \<Rightarrow> bytes \<Rightarrow> bytes option" where
  "contents c h = (case artifact_t (db c) of None \<Rightarrow> None
     | Some t \<Rightarrow> map_option a_bytes (lookup_by a_hash h (at_rows t)))"

definition bindings :: "conn \<Rightarrow> string \<Rightarrow> bytes option" where
  "bindings c u = (case uri_t (db c) of None \<Rightarrow> None
     | Some us \<Rightarrow> map_option u_hash (lookup_by u_uri u us))"

definition same_view :: "conn \<Rightarrow> conn \<Rightarrow> bool" where
  "same_view c c' \<longleftrightarrow> contents c' = contents c \<and> bindings c' = bindings c"

lemma same_view_refl [simp]: "same_view c c"
  by (simp add: same_view_def)

lemma same_view_trans: "same_view a b \<Longrightarrow> same_view b c \<Longrightarrow> same_view a c"
  by (simp add: same_view_def)

lemma same_view_db: "db c' = db c \<Longrightarrow> same_view c c'"
  by (simp add: same_view_def contents_def bindings_def fun_eq_iff)

lemma contents_tick [simp]: "contents (tick c) = contents c" "bindings (tick c) = bindings c"
  by (simp_all add: contents_def bindings_def fun_eq_iff)

lemma store_inv_tick [simp]: "store_inv H (tick c) = store_inv H c"
  by (simp add: store_inv_def)

lemma contents_address: "store_inv H c \<Longrightarrow> contents c h = Some b \<Longrightarrow> blake3 H b = h"
  by (auto simp: contents_def rows_ok_def row_ok_def tables_ok_def elim!: store_invE dest!: lookup_by_SomeD)

lemma bindings_stored: "store_inv H c \<Longrightarrow> bindings c u = Some h \<Longrightarrow> \<exists>b. contents c h = Some b"
  by (elim store_invE)
    (auto simp: contents_def bindings_def tables_ok_def dest!: lookup_by_SomeD intro!: lookup_by_ex)

lemma get_upd_stmt_view:
  assumes "get_upd_stmt h now c = Inr c'"
  shows "same_view c c'"
  using assms
  by (auto simp: get_upd_stmt_def arts_def same_view_def contents_def bindings_def fun_eq_iff sbind_eq_Inr_iff
      touch_art.proj_update_where [where g = a_bytes, simplified touch_art_def, simplified] touch_art_def)

lemma get_upd_stmt_Inr: "store_inv H c \<Longrightarrow> \<exists>c'. get_upd_stmt h now c = Inr c'"
  by (auto simp: get_upd_stmt_def arts_def elim!: store_invE)

lemma get_eval:
  assumes "store_inv H c"
  shows "\<exists>c'. get h c = (Inr (contents c h), c') \<and> same_view c c'"
proof -
  from assms obtain t us where t: "artifact_t (db c) = Some t" by (rule store_invE)
  have sel: "get_sel h (db (tick c)) = Inr (contents c h)"
    using t by (simp add: get_sel_def arts_def contents_def)
  show ?thesis
  proof (cases "contents c h")
    case None
    with sel show ?thesis by (simp add: get_def bnd_select_Inr same_view_def)
  next
    case (Some b)
    obtain c' where c': "get_upd_stmt h (now_of c) (tick c) = Inr c'"
      using assms get_upd_stmt_Inr [of H "tick c"] by auto
    then have "same_view (tick c) c'" by (rule get_upd_stmt_view)
    with sel Some c' show ?thesis by (simp add: get_def run_op same_view_def)
  qed
qed

lemma put_stmt_view:
  assumes "put_stmt h s b len now c = Inr c'"
  shows "contents c' = (contents c)(h \<mapsto> case contents c h of None \<Rightarrow> b | Some old \<Rightarrow> old) \<and>
    bindings c' = bindings c"
proof -
  obtain t where t: "artifact_t (db c) = Some t"
    using assms by (auto simp: put_stmt_def arts_def sbind_eq_Inr_iff)
  show ?thesis
  proof (cases "lookup_by a_hash h (at_rows t)")
    case None
    with t assms show ?thesis
      by (auto simp: put_stmt_def arts_def contents_def bindings_def fun_eq_iff lookup_by_append
          split: if_splits option.splits)
  next
    case (Some r)
    with t assms show ?thesis
      by (auto simp: put_stmt_def arts_def contents_def bindings_def fun_eq_iff Let_def option.map_comp o_def
          mirror_art.proj_update_where [where g = a_bytes] split: if_splits)
  qed
qed

lemma put_spec:
  assumes "put H b c = (Inr h, c')"
  shows "h = blake3 H b \<and>
    contents c' = (contents c)(h \<mapsto> case contents c h of None \<Rightarrow> b | Some old \<Rightarrow> old) \<and> bindings c' = bindings c"
proof -
  from assms have h: "h = blake3 H b"
    and st: "put_stmt (blake3 H b) (sha256 H b) b (as_i64 (length b)) (now_of c) (tick c) = Inr c'"
    by (auto simp: put_def put_ref_def Let_def bnd_eq_Inr_iff exec_eq_Inr_iff)
  from put_stmt_view [OF st] h show ?thesis by simp
qed

lemma put_eval:
  assumes "store_inv H c"
    and "\<And>t r. artifact_t (db c) = Some t \<Longrightarrow> r \<in> set (at_rows t) \<Longrightarrow> a_hash r \<noteq> blake3 H b \<Longrightarrow>
      a_sha256 r \<noteq> Some (sha256 H b)"
  shows "\<exists>c'. put H b c = (Inr (blake3 H b), c')"
proof -
  from assms(1) obtain t us where t: "artifact_t (db c) = Some t" "tables_ok H t us" by (rule store_invE)
  have new: "\<not> sha_taken (blake3 H b) (Some (sha256 H b)) (at_rows t)"
    using assms(2) [OF t(1)] by (auto simp: sha_taken_def list_ex_iff)
  have old: "\<not> sha_taken (blake3 H b) (Some s) (at_rows t)"
    if "lookup_by a_hash (blake3 H b) (at_rows t) = Some r" "a_sha256 r = Some s" for r s
    using t(2) that lookup_by_SomeD [OF that(1)]
    by (auto simp: tables_ok_def rows_ok_def sha_taken_def list_ex_iff dest: sha_uniqueD)
  have "\<exists>c'. put_stmt (blake3 H b) (sha256 H b) b (as_i64 (length b)) (now_of c) (tick c) = Inr c'"
    using t new old by (auto simp: put_stmt_def arts_def Let_def split: option.splits)
  then show ?thesis by (auto simp: put_def put_ref_def Let_def run_op)
qed

text \<open>The only way \<open>put\<close> fails on a sound store is a sha-256 clash with a different artifact.\<close>

lemma put_error:
  assumes "store_inv H c" "put H b c = (Inl e, c')"
  shows "e = Db (UniqueIndex ''__cas_artifact.sha256'') \<and> db c' = db c \<and>
    (\<exists>t r. artifact_t (db c) = Some t \<and> r \<in> set (at_rows t) \<and> a_hash r \<noteq> blake3 H b \<and>
      a_sha256 r = Some (sha256 H b))"
proof -
  from assms(1) obtain t us where t: "artifact_t (db c) = Some t" by (rule store_invE)
  let ?st = "put_stmt (blake3 H b) (sha256 H b) b (as_i64 (length b)) (now_of c)"
  obtain e' where e': "?st (tick c) = Inl e'" "e = Db e'" "db c' = db c"
    using assms(2) by (cases "?st (tick c)") (auto simp: put_def put_ref_def Let_def run_op)
  then have "e' = UniqueIndex ''__cas_artifact.sha256''"
    using t by (auto simp: put_stmt_def arts_def Let_def split: option.splits if_splits)
  moreover have "\<exists>t r. artifact_t (db c) = Some t \<and> r \<in> set (at_rows t) \<and> a_hash r \<noteq> blake3 H b \<and>
      a_sha256 r = Some (sha256 H b)"
    using put_eval [OF assms(1), of b] assms(2) by fastforce
  ultimately show ?thesis using e' by simp
qed

lemma set_uri_eval:
  assumes "store_inv H c" "contents c h \<noteq> None"
  shows "\<exists>c'. set_uri u h c = (Inr (), c') \<and> contents c' = contents c \<and> bindings c' = (bindings c)(u \<mapsto> h)"
proof -
  from assms(1) obtain t us where t: "artifact_t (db c) = Some t" "uri_t (db c) = Some us" "fk_on c"
    by (rule store_invE)
  have h: "h \<in> a_hash ` set (at_rows t)"
    using assms(2) t lookup_by_None_iff [of a_hash h "at_rows t"] by (auto simp: contents_def)
  let ?us = "if u \<in> u_uri ` set us
    then update_where (\<lambda>r. u_uri r = u) (\<lambda>r. r\<lparr>u_hash := h, u_fetched_at := now_of c, u_last_used_at := now_of c\<rparr>) us
    else us @ [\<lparr>u_uri = u, u_hash = h, u_fetched_at = now_of c, u_last_used_at = now_of c\<rparr>]"
  let ?c = "dml 1 0 (set_uris ?us (tick c))"
  have st: "set_uri_stmt u h (now_of c) (tick c) = Inr ?c"
    using t h by (simp add: set_uri_stmt_def arts_def uris_def)
  have look: "map_option u_hash (lookup_by u_uri v ?us) =
      (if v = u then Some h else map_option u_hash (lookup_by u_uri v us))" for v
  proof (cases "u \<in> u_uri ` set us")
    case True
    then obtain q where q: "lookup_by u_uri u us = Some q" using lookup_by_ex by metis
    show ?thesis
    proof (cases "v = u")
      case True
      with q \<open>u \<in> u_uri ` set us\<close> show ?thesis
        using lookup_by_SomeD [OF q] by (simp add: rebind_uri.lookup_by_update_where)
    next
      case False
      have "lookup_by u_uri v ?us = lookup_by u_uri v us"
        using \<open>u \<in> u_uri ` set us\<close> False
        by (cases "lookup_by u_uri v us")
          (auto simp: rebind_uri.lookup_by_update_where dest!: lookup_by_SomeD)
      with False show ?thesis by simp
    qed
  next
    case False
    then have "lookup_by u_uri u us = None" by (simp add: lookup_by_None_iff)
    with False show ?thesis by (auto simp: lookup_by_append split: option.splits)
  qed
  have "contents ?c = contents c" "bindings ?c = (bindings c)(u \<mapsto> h)"
    using t(2) look by (auto simp: contents_def bindings_def fun_eq_iff)
  with st show ?thesis by (simp add: set_uri_def exec_def)
qed

lemma set_uri_dangling:
  assumes "store_inv H c" "contents c h = None"
  shows "\<exists>c'. set_uri u h c = (Inl (Db ForeignKey), c') \<and> db c' = db c"
proof -
  from assms(1) obtain t us where t: "artifact_t (db c) = Some t" "uri_t (db c) = Some us" "fk_on c"
    by (rule store_invE)
  have "h \<notin> a_hash ` set (at_rows t)" using assms(2) t by (simp add: contents_def lookup_by_None_iff)
  with t show ?thesis by (auto simp: set_uri_def set_uri_stmt_def arts_def uris_def exec_def)
qed

lemma uri_touch_stmt_view:
  assumes "uri_touch_stmt u now c = Inr c'"
  shows "same_view c c'"
  using assms
  by (auto simp: uri_touch_stmt_def uris_def same_view_def contents_def bindings_def fun_eq_iff sbind_eq_Inr_iff
      touch_uri_def touch_uri.proj_update_where [where g = u_hash, simplified touch_uri_def, simplified])

lemma resolve_uri_eval:
  assumes "store_inv H c" "digests_32 H"
  shows "\<exists>c'. resolve_uri u c = (Inr (case bindings c u of None \<Rightarrow> None
      | Some h \<Rightarrow> Some (h, the (contents c h))), c') \<and> same_view c c'"
proof -
  from assms(1) obtain t us where t: "uri_t (db c) = Some us" by (rule store_invE)
  have sel: "uri_sel u (db c) = Inr (bindings c u)" using t by (simp add: uri_sel_def uris_def bindings_def)
  show ?thesis
  proof (cases "bindings c u")
    case None
    with sel show ?thesis by (simp add: resolve_uri_def run_op)
  next
    case (Some h)
    then obtain b where b: "contents c h = Some b" using assms(1) bindings_stored by blast
    obtain c1 where c1: "uri_touch_stmt u (now_of c) (tick c) = Inr c1"
      using t by (simp add: uri_touch_stmt_def uris_def)
    have v1: "same_view c c1" using uri_touch_stmt_view [OF c1] by (simp add: same_view_def)
    have inv1: "store_inv H c1" using uri_touch_stmt_inv [OF _ c1] assms(1) by simp
    obtain c2 where c2: "get h c1 = (Inr (contents c1 h), c2)" "same_view c1 c2"
      using get_eval [OF inv1] by blast
    have "length h = 32" using contents_address [OF assms(1) b] assms(2) by (auto simp: digests_32_def)
    with sel Some c1 c2 v1 b show ?thesis
      by (auto simp: resolve_uri_def run_op bnd_Inr same_view_def)
  qed
qed

section \<open>The store meets the content-store interface\<close>

lemma keeps_conj_const: "(Q \<Longrightarrow> keeps P m) \<Longrightarrow> keeps (\<lambda>s. P s \<and> Q) m"
  by (auto simp: keeps_def)

interpretation cas: content_store "\<lambda>c. store_inv H c \<and> digests_32 H" contents bindings "blake3 H"
  "put H" get set_uri resolve_uri
  for H :: hashers
proof unfold_locales
  show "keeps (\<lambda>c. store_inv H c \<and> digests_32 H) (put H b)" for b
    by (intro keeps_conj_const keeps_put)
  show "keeps (\<lambda>c. store_inv H c \<and> digests_32 H) (get h)" for h
    by (intro keeps_conj_const keeps_get)
  show "keeps (\<lambda>c. store_inv H c \<and> digests_32 H) (set_uri u h)" for u h
    by (intro keeps_conj_const keeps_set_uri)
  show "keeps (\<lambda>c. store_inv H c \<and> digests_32 H) (resolve_uri u)" for u
    by (intro keeps_conj_const keeps_resolve_uri)
  show "\<exists>c'. get h c = (Inr (contents c h), c') \<and> contents c' = contents c \<and> bindings c' = bindings c"
    if "store_inv H c \<and> digests_32 H" for c h
    using get_eval that unfolding same_view_def by blast
  show "\<exists>c'. resolve_uri u c = (Inr (case bindings c u of None \<Rightarrow> None
      | Some h \<Rightarrow> Some (h, the (contents c h))), c') \<and> contents c' = contents c \<and> bindings c' = bindings c"
    if "store_inv H c \<and> digests_32 H" for c u
    using resolve_uri_eval that unfolding same_view_def by blast
qed (auto dest: contents_address bindings_stored put_spec set_uri_eval)

section \<open>A concrete instance for the witnesses\<close>

text \<open>Two 32-byte digests that tell short inputs apart, an empty store of the current schema and a
  clock that counts up.\<close>

definition toy_hashers :: hashers where
  "toy_hashers = \<lparr>blake3 = (\<lambda>b. take 32 (b @ replicate 32 0)), sha256 = (\<lambda>b. take 32 (b @ replicate 32 1))\<rparr>"

definition artifact_columns :: "string list" where
  "artifact_columns = [''hash'', ''sha256'', ''bytes'', ''bytes_len'', ''created_at'', ''last_used_at'', ''use_count'']"

definition fresh_tables :: cas_db where
  "fresh_tables = \<lparr>meta_t = Some [(''schema_version'', ''4'')],
     artifact_t = Some \<lparr>at_cols = artifact_columns, at_sha_unique = True, at_rows = []\<rparr>,
     uri_t = Some [], bundle_t = Some \<lparr>bt_name_unique = False, bt_rows = []\<rparr>,
     bundle_v4_t = None, member_t = Some [], binary_t = Some [], alias_t = Some []\<rparr>"

definition toy_conn :: conn where
  "toy_conn = (open_conn fresh_tables int)\<lparr>fk_on := True\<rparr>"

lemma toy_digests: "digests_32 toy_hashers"
  by (auto simp: digests_32_def toy_hashers_def min_def)

lemma toy_store_inv: "store_inv H toy_conn"
  by (simp add: store_inv_def store_ok_def tables_ok_def rows_ok_def sha_unique_def toy_conn_def open_conn_def
      fresh_tables_def)

lemma toy_contents [simp]: "contents toy_conn h = None" "bindings toy_conn u = None"
  by (simp_all add: contents_def bindings_def toy_conn_def open_conn_def fresh_tables_def)

lemma toy_put: "\<exists>c. put H b toy_conn = (Inr (blake3 H b), c)"
  by (rule put_eval [OF toy_store_inv]) (auto simp: toy_conn_def open_conn_def fresh_tables_def)

section \<open>Properties\<close>

text \<open>C2. Round trip of the content store: on a sound store, whenever \<open>put\<close> succeeds on bytes
  \<open>b\<close> whose blake3 hash no different stored blob has, the returned address is the blake3 hash of
  \<open>b\<close>, a following \<open>get\<close> of that address returns exactly \<open>b\<close>, and the store is still
  sound.\<close>

theorem put_get_roundtrip:
  assumes "store_inv H c" "digests_32 H" "put H b c = (Inr h, c')"
    and "\<forall>x. contents c (blake3 H b) = Some x \<longrightarrow> x = b"
  shows "h = blake3 H b \<and> (\<exists>c''. get h c' = (Inr (Some b), c'') \<and> store_inv H c'')"
proof -
  have "\<exists>c''. get h c' = (Inr (Some b), c'')"
    using cas.store_then_load [of H c b h c'] assms by blast
  moreover have "store_inv H c'" using keepsD [OF keeps_put assms(1,3)] .
  ultimately show ?thesis using put_spec [OF assms(3)] keepsD [OF keeps_get] by blast
qed

theorem put_get_roundtrip_witness:
  "\<exists>c' c''. put toy_hashers [1, 2, 3] toy_conn = (Inr (blake3 toy_hashers [1, 2, 3]), c') \<and>
     get (blake3 toy_hashers [1, 2, 3]) c' = (Inr (Some [1, 2, 3]), c'')"
proof -
  obtain c' where c': "put toy_hashers [1, 2, 3] toy_conn = (Inr (blake3 toy_hashers [1, 2, 3]), c')"
    using toy_put by blast
  from put_get_roundtrip [OF toy_store_inv toy_digests c'] show ?thesis using c' by auto
qed

text \<open>\<open>put\<close> is total but for one error: on a sound store it either succeeds, or it reports a
  violation of the unique sha-256 index, changes no table, and some stored artifact with another
  blake3 hash does carry the sha-256 digest of the new bytes. In particular, re-putting bytes never
  fails.\<close>

theorem put_only_fails_on_sha256_clash:
  assumes "store_inv H c" "put H b c = (Inl e, c')"
  shows "e = Db (UniqueIndex ''__cas_artifact.sha256'') \<and> db c' = db c \<and>
    (\<exists>t r. artifact_t (db c) = Some t \<and> r \<in> set (at_rows t) \<and> a_hash r \<noteq> blake3 H b \<and>
      a_sha256 r = Some (sha256 H b))"
  using assms by (rule put_error)

definition clash_hashers :: hashers where
  "clash_hashers = \<lparr>blake3 = (\<lambda>b. take 32 (b @ replicate 32 0)), sha256 = (\<lambda>b. replicate 32 0)\<rparr>"

theorem put_only_fails_on_sha256_clash_witness:
  "\<exists>c c'. put clash_hashers [2] c = (Inl (Db (UniqueIndex ''__cas_artifact.sha256'')), c') \<and> db c' = db c"
proof -
  obtain c where c: "put clash_hashers [1] toy_conn = (Inr (blake3 clash_hashers [1]), c)" using toy_put by blast
  have inv: "store_inv clash_hashers c" using keepsD [OF keeps_put toy_store_inv c] .
  have "\<exists>e c'. put clash_hashers [2] c = (Inl e, c')"
    using c by (auto simp: put_def put_ref_def put_stmt_def arts_def toy_conn_def open_conn_def fresh_tables_def
        clash_hashers_def sha_taken_def bnd_def exec_def set_arts_def dml_def tick_def Let_def)
  then obtain e c' where e: "put clash_hashers [2] c = (Inl e, c')" by blast
  from put_only_fails_on_sha256_clash [OF inv e] e show ?thesis by blast
qed

end
