(* ===== verification/Cas_Evict.thy ===== *)
theory Cas_Evict
  imports Cas_Store
begin

text \<open>
  Garbage collection and LRU eviction of \<^verbatim>\<open>sqlite-cas-cache/src/store.rs\<close>. The two
  eviction loops are recursive functions on the connection; each iteration deletes a row, so
  they terminate on every connection. \<open>gc\<close> removes exactly the unreferenced artifacts;
  \<open>evict_lru\<close> always reaches its target, removes URI-bound artifacts only when no unbound one
  is left, and goes oldest first in both phases.
\<close>

section \<open>Operations\<close>

definition unbound :: "cas_db \<Rightarrow> artifact_row \<Rightarrow> bool" where
  "unbound d r \<longleftrightarrow> (case uri_t d of None \<Rightarrow> False | Some us \<Rightarrow> a_hash r \<notin> u_hash ` set us)"

definition gc :: "nat cas_op" where
  "gc =
     bnd total_bytes (\<lambda>before.
     bnd (execute_batch [art_delete_stmt unbound]) (\<lambda>_.
     bnd total_bytes (\<lambda>after.
     ret (before - after))))"

definition art_age :: "artifact_row \<Rightarrow> int \<times> bytes" where
  "art_age r = (a_last_used_at r, a_hash r)"

definition uri_age :: "uri_row \<Rightarrow> int \<times> string" where
  "uri_age r = (u_last_used_at r, u_uri r)"

definition pick_art :: "cas_db \<Rightarrow> sql_error + bytes option" where
  "pick_art d = sbind (arts d) (\<lambda>t. sbind (uris d) (\<lambda>us.
     Inr (map_option a_hash (first_by art_age (filter (unbound d) (at_rows t))))))"

definition pick_uri :: "cas_db \<Rightarrow> sql_error + string option" where
  "pick_uri d = sbind (uris d) (\<lambda>us. Inr (map_option u_uri (first_by uri_age us)))"

definition art_rows :: "conn \<Rightarrow> artifact_row list" where
  "art_rows c = (case artifact_t (db c) of None \<Rightarrow> [] | Some t \<Rightarrow> at_rows t)"

definition uri_rows :: "conn \<Rightarrow> uri_row list" where
  "uri_rows c = (case uri_t (db c) of None \<Rightarrow> [] | Some us \<Rightarrow> us)"

text \<open>Phase 1: unbound artifacts, oldest first.\<close>

function evict_phase1 :: "nat \<Rightarrow> unit cas_op" where
  "evict_phase1 target c =
     (case total_bytes c of
        (Inl e, c1) \<Rightarrow> (Inl e, c1)
      | (Inr n, c1) \<Rightarrow>
          if n \<le> target then (Inr (), c1)
          else (case select pick_art c1 of
             (Inl e, c2) \<Rightarrow> (Inl e, c2)
           | (Inr None, c2) \<Rightarrow> (Inr (), c2)
           | (Inr (Some h), c2) \<Rightarrow>
               (case exec (art_delete_stmt (\<lambda>_ r. a_hash r = h)) c2 of
                  (Inl e, c3) \<Rightarrow> (Inl e, c3)
                | (Inr _, c3) \<Rightarrow> evict_phase1 target c3)))"
  by pat_completeness auto

lemma total_bytes_state: "total_bytes c = (r, c') \<Longrightarrow> c' = c"
  by (auto simp: total_bytes_def bnd_def select_def split: sum.splits)

lemma pick_art_SomeD:
  assumes "pick_art d = Inr (Some h)"
  shows "\<exists>t r. artifact_t d = Some t \<and> r \<in> set (at_rows t) \<and> unbound d r \<and> a_hash r = h \<and>
    (\<forall>q \<in> set (at_rows t). unbound d q \<longrightarrow> art_age r \<le> art_age q)"
proof -
  obtain t us r where t: "artifact_t d = Some t" "first_by art_age (filter (unbound d) (at_rows t)) = Some r" "h = a_hash r"
    using assms by (auto simp: pick_art_def arts_def uris_def sbind_eq_Inr_iff)
  with first_by_in [OF t(2)] first_by_least [OF t(2)] show ?thesis by auto
qed

lemma art_delete_rows:
  "art_delete_stmt p c = Inr c' \<Longrightarrow> art_rows c' = delete_where (p (db c)) (art_rows c) \<and> uri_t (db c') = uri_t (db c)"
  by (auto simp: art_delete_stmt_def art_rows_def arts_def sbind_eq_Inr_iff split: if_splits)

lemma delete_where_shorter: "r \<in> set rs \<Longrightarrow> p r \<Longrightarrow> length (delete_where p rs) < length rs"
  unfolding delete_where_def by (rule length_filter_less) auto

lemma evict_step_art:
  assumes "total_bytes c = (r, c1)" "select pick_art c1 = (Inr (Some h), c2)"
    "exec (art_delete_stmt (\<lambda>_ r. a_hash r = h)) c2 = (Inr u, c3)"
  shows "length (art_rows c3) < length (art_rows c)"
proof -
  have c: "c1 = c" "c2 = c" "pick_art (db c) = Inr (Some h)"
    using assms(1,2) by (auto simp: select_eq_Inr_iff dest: total_bytes_state)
  from pick_art_SomeD [OF c(3)] obtain r where "r \<in> set (art_rows c)" "a_hash r = h"
    by (auto simp: art_rows_def)
  with art_delete_rows assms(3) c show ?thesis
    by (auto simp: exec_eq_Inr_iff dest!: art_delete_rows intro!: delete_where_shorter)
qed

termination evict_phase1
  by (relation "measure (\<lambda>(_, c). length (art_rows c))")
    (auto intro: evict_step_art dest!: sym [of "(_, _)"])

text \<open>Phase 2: drop URIs, oldest first; \<open>gc\<close> collects what they alone referenced.\<close>

function evict_phase2 :: "nat \<Rightarrow> unit cas_op" where
  "evict_phase2 target c =
     (case total_bytes c of
        (Inl e, c1) \<Rightarrow> (Inl e, c1)
      | (Inr n, c1) \<Rightarrow>
          if n \<le> target then (Inr (), c1)
          else (case select pick_uri c1 of
             (Inl e, c2) \<Rightarrow> (Inl e, c2)
           | (Inr None, c2) \<Rightarrow> (Inr (), c2)
           | (Inr (Some u), c2) \<Rightarrow>
               (case exec (uri_delete_stmt u) c2 of
                  (Inl e, c3) \<Rightarrow> (Inl e, c3)
                | (Inr _, c3) \<Rightarrow>
                    (case gc c3 of
                       (Inl e, c4) \<Rightarrow> (Inl e, c4)
                     | (Inr _, c4) \<Rightarrow> evict_phase2 target c4))))"
  by pat_completeness auto

lemma gc_uri_t: "gc c = (Inr n, c') \<Longrightarrow> uri_t (db c') = uri_t (db c)"
  by (auto simp: gc_def bnd_eq_Inr_iff exec_eq_Inr_iff dest!: total_bytes_state art_delete_rows)

lemma pick_uri_SomeD:
  assumes "pick_uri d = Inr (Some u)"
  shows "\<exists>us r. uri_t d = Some us \<and> r \<in> set us \<and> u_uri r = u \<and> (\<forall>q \<in> set us. uri_age r \<le> uri_age q)"
proof -
  obtain us r where us: "uri_t d = Some us" "first_by uri_age us = Some r" "u = u_uri r"
    using assms by (auto simp: pick_uri_def uris_def sbind_eq_Inr_iff)
  with first_by_in [OF us(2)] first_by_least [OF us(2)] show ?thesis by auto
qed

lemma uri_delete_rows:
  "uri_delete_stmt u c = Inr c' \<Longrightarrow> uri_rows c' = delete_where (\<lambda>r. u_uri r = u) (uri_rows c) \<and>
     artifact_t (db c') = artifact_t (db c)"
  by (auto simp: uri_delete_stmt_def uri_rows_def uris_def sbind_eq_Inr_iff)

lemma evict_step_uri:
  assumes "total_bytes c = (r, c1)" "select pick_uri c1 = (Inr (Some u), c2)"
    "exec (uri_delete_stmt u) c2 = (Inr x, c3)" "gc c3 = (Inr y, c4)"
  shows "length (uri_rows c4) < length (uri_rows c)"
proof -
  have c: "c1 = c" "c2 = c" "pick_uri (db c) = Inr (Some u)"
    using assms(1,2) by (auto simp: select_eq_Inr_iff dest: total_bytes_state)
  from pick_uri_SomeD [OF c(3)] obtain r where "r \<in> set (uri_rows c)" "u_uri r = u"
    by (auto simp: uri_rows_def)
  moreover have "uri_rows c4 = uri_rows c3" using gc_uri_t [OF assms(4)] by (simp add: uri_rows_def)
  ultimately show ?thesis using assms(3) c
    by (auto simp: exec_eq_Inr_iff dest!: uri_delete_rows intro!: delete_where_shorter)
qed

termination evict_phase2
  by (relation "measure (\<lambda>(_, c). length (uri_rows c))")
    (auto intro: evict_step_uri dest!: sym [of "(_, _)"])

definition evict_lru :: "nat \<Rightarrow> nat cas_op" where
  "evict_lru target =
     bnd total_bytes (\<lambda>before.
     if before \<le> target then ret 0
     else bnd (evict_phase1 target) (\<lambda>_.
       bnd (evict_phase2 target) (\<lambda>_.
       bnd total_bytes (\<lambda>after.
       ret (before - after)))))"

declare evict_phase1.simps [simp del] evict_phase2.simps [simp del]

section \<open>Sizes\<close>

definition stored_bytes :: "artifact_row list \<Rightarrow> nat" where
  "stored_bytes rs = sum_list (map (length \<circ> a_bytes) rs)"

text \<open>The engine sums lengths in i64; all stored bytes together fit.\<close>

definition fits :: "conn \<Rightarrow> bool" where
  "fits c \<longleftrightarrow> stored_bytes (art_rows c) < 2 ^ 63"

lemma stored_bytes_member: "r \<in> set rs \<Longrightarrow> length (a_bytes r) \<le> stored_bytes rs"
  by (auto simp: stored_bytes_def intro!: member_le_sum_list)

lemma stored_bytes_delete: "stored_bytes (delete_where p rs) \<le> stored_bytes rs"
  unfolding stored_bytes_def delete_where_def by (induction rs) auto

lemma stored_bytes_sum:
  assumes "\<forall>r \<in> set rs. row_ok H r" "stored_bytes rs < 2 ^ 63"
  shows "sum_list (map a_bytes_len rs) = int (stored_bytes rs)"
  using assms
proof (induction rs)
  case Nil
  then show ?case by (simp add: stored_bytes_def)
next
  case (Cons r rs)
  have "length (a_bytes r) < 2 ^ 63" using Cons.prems(2) by (simp add: stored_bytes_def)
  then have "a_bytes_len r = int (length (a_bytes r))" using Cons.prems(1) by (simp add: row_ok_def)
  moreover have "sum_list (map a_bytes_len rs) = int (stored_bytes rs)"
    using Cons by (simp add: stored_bytes_def)
  ultimately show ?case by (simp add: stored_bytes_def)
qed

lemma art_rows_ok: "store_inv H c \<Longrightarrow> rows_ok H (art_rows c)"
  by (auto simp: art_rows_def tables_ok_def elim!: store_invE)

lemma total_bytes_eval:
  assumes "store_inv H c" "fits c"
  shows "total_bytes c = (Inr (stored_bytes (art_rows c)), c)"
proof -
  from assms(1) obtain t us where t: "artifact_t (db c) = Some t" by (rule store_invE)
  have "sum_list (map a_bytes_len (at_rows t)) = int (stored_bytes (art_rows c))"
    using stored_bytes_sum [of "at_rows t" H] art_rows_ok [OF assms(1)] assms(2) t
    by (simp add: art_rows_def rows_ok_def fits_def)
  moreover have "int (stored_bytes (art_rows c)) < 2 ^ 63" using assms(2) by (simp add: fits_def)
  ultimately show ?thesis
    using t by (simp add: total_bytes_def total_sel_def arts_def i64_range_def bnd_def select_def Let_def)
qed

section \<open>Garbage collection\<close>

lemma unbound_iff: "store_inv H c \<Longrightarrow> unbound (db c) r \<longleftrightarrow> a_hash r \<notin> u_hash ` set (uri_rows c)"
  by (auto simp: unbound_def uri_rows_def elim!: store_invE)

text \<open>Deleting unbound rows never trips the RESTRICT action.\<close>

lemma art_delete_unbound:
  assumes "store_inv H c" "\<And>r. r \<in> set (art_rows c) \<Longrightarrow> p (db c) r \<Longrightarrow> unbound (db c) r"
  shows "\<exists>c'. art_delete_stmt p c = Inr c'"
proof -
  from assms(1) obtain t us where t: "artifact_t (db c) = Some t" "uri_t (db c) = Some us" by (rule store_invE)
  have "\<not> list_ex (\<lambda>r. p (db c) r \<and> a_hash r \<in> u_hash ` set us) (at_rows t)"
    using assms(2) t by (auto simp: list_ex_iff art_rows_def unbound_def)
  with t show ?thesis by (simp add: art_delete_stmt_def arts_def uris_def)
qed

lemma gc_eval:
  assumes "store_inv H c" "fits c"
  shows "\<exists>c'. gc c = (Inr (stored_bytes (art_rows c) - stored_bytes (art_rows c')), c') \<and>
    store_inv H c' \<and> fits c' \<and> uri_rows c' = uri_rows c \<and>
    art_rows c' = filter (\<lambda>r. a_hash r \<in> u_hash ` set (uri_rows c)) (art_rows c)"
proof -
  obtain c' where c': "art_delete_stmt unbound c = Inr c'"
    using art_delete_unbound [OF assms(1)] by blast
  have inv: "store_inv H c'" using art_delete_stmt_inv [OF assms(1) c'] .
  have rows: "art_rows c' = delete_where (unbound (db c)) (art_rows c)" "uri_rows c' = uri_rows c"
    using art_delete_rows [OF c'] by (simp_all add: uri_rows_def)
  have fits': "fits c'"
    using assms(2) rows stored_bytes_delete [of "unbound (db c)" "art_rows c"] by (simp add: fits_def)
  have eq: "delete_where (unbound (db c)) (art_rows c) =
      filter (\<lambda>r. a_hash r \<in> u_hash ` set (uri_rows c)) (art_rows c)"
    by (simp add: delete_where_def unbound_iff [OF assms(1)])
  show ?thesis
    using total_bytes_eval [OF assms] total_bytes_eval [OF inv fits'] c' inv fits' rows eq
    by (auto simp: gc_def bnd_Inr bnd_exec_Inr)
qed

section \<open>Eviction\<close>

abbreviation is_bound :: "conn \<Rightarrow> artifact_row \<Rightarrow> bool" where
  "is_bound c r \<equiv> a_hash r \<in> u_hash ` set (uri_rows c)"

text \<open>What phase 1 has done when it stops: it removed unbound rows only, the removed ones are no
  younger than the unbound ones that stay, and either the target is met or none is left.\<close>

definition phase1_post :: "nat \<Rightarrow> conn \<Rightarrow> conn \<Rightarrow> bool" where
  "phase1_post target c c' \<longleftrightarrow> uri_rows c' = uri_rows c \<and> set (art_rows c') \<subseteq> set (art_rows c) \<and>
     (\<forall>r \<in> set (art_rows c). is_bound c r \<longrightarrow> r \<in> set (art_rows c')) \<and>
     (\<forall>q \<in> set (art_rows c) - set (art_rows c'). \<forall>r \<in> set (art_rows c'). \<not> is_bound c r \<longrightarrow>
        art_age q \<le> art_age r) \<and>
     (stored_bytes (art_rows c') \<le> target \<or> (\<forall>r \<in> set (art_rows c'). is_bound c r))"

lemma phase1_post_step:
  assumes q: "q \<in> set (art_rows c)" "\<not> is_bound c q"
    and least: "\<forall>r \<in> set (art_rows c). \<not> is_bound c r \<longrightarrow> art_age q \<le> art_age r"
    and dist: "distinct (map a_hash (art_rows c))"
    and c1: "art_rows c1 = delete_where (\<lambda>r. a_hash r = a_hash q) (art_rows c)" "uri_rows c1 = uri_rows c"
    and post: "phase1_post target c1 c'"
  shows "phase1_post target c c'"
proof -
  have only: "r = q" if "r \<in> set (art_rows c)" "a_hash r = a_hash q" for r
    using dist that q by (metis lookup_by_unique option.inject)
  have "art_age p \<le> art_age r"
    if "p \<in> set (art_rows c) - set (art_rows c')" "r \<in> set (art_rows c')" "\<not> is_bound c r" for p r
  proof (cases "a_hash p = a_hash q")
    case True
    with only that least post c1 show ?thesis by (auto simp: phase1_post_def set_delete_where)
  next
    case False
    with that post c1 show ?thesis by (auto simp: phase1_post_def set_delete_where)
  qed
  moreover have "r \<in> set (art_rows c')" if "r \<in> set (art_rows c)" "is_bound c r" for r
    using that q only post c1 by (auto simp: phase1_post_def set_delete_where)
  ultimately show ?thesis using post c1 by (auto simp: phase1_post_def set_delete_where)
qed

lemma pick_art_eval:
  assumes "store_inv H c"
  shows "pick_art (db c) = Inr (map_option a_hash (first_by art_age (filter (\<lambda>r. \<not> is_bound c r) (art_rows c))))"
proof -
  from assms obtain t us where t: "artifact_t (db c) = Some t" "uri_t (db c) = Some us" by (rule store_invE)
  have "unbound (db c) = (\<lambda>r. \<not> is_bound c r)"
    using unbound_iff [OF assms] by (simp add: fun_eq_iff)
  then have "filter (unbound (db c)) (at_rows t) = filter (\<lambda>r. \<not> is_bound c r) (art_rows c)"
    using t by (simp add: art_rows_def)
  with t show ?thesis by (simp add: pick_art_def arts_def uris_def)
qed

lemma evict_phase1_eval:
  assumes "store_inv H c" "fits c"
  shows "\<exists>c'. evict_phase1 target c = (Inr (), c') \<and> store_inv H c' \<and> fits c' \<and> phase1_post target c c'"
  using assms
proof (induction "length (art_rows c)" arbitrary: c rule: less_induct)
  case less
  note inv = less.prems(1) and fit = less.prems(2)
  note tb = total_bytes_eval [OF inv fit]
  show ?case
  proof (cases "stored_bytes (art_rows c) \<le> target")
    case True
    with tb inv fit show ?thesis by (auto simp: evict_phase1.simps phase1_post_def)
  next
    case big: False
    show ?thesis
    proof (cases "first_by art_age (filter (\<lambda>r. \<not> is_bound c r) (art_rows c))")
      case None
      with tb big inv fit pick_art_eval [OF inv] show ?thesis
        by (auto simp: evict_phase1.simps select_def phase1_post_def filter_empty_conv)
    next
      case (Some q)
      have q: "q \<in> set (art_rows c)" "\<not> is_bound c q" using first_by_in [OF Some] by auto
      have least: "\<forall>r \<in> set (art_rows c). \<not> is_bound c r \<longrightarrow> art_age q \<le> art_age r"
        using first_by_least [OF Some] by auto
      have dist: "distinct (map a_hash (art_rows c))" using art_rows_ok [OF inv] by (simp add: rows_ok_def)
      let ?p = "\<lambda>(_::cas_db) r. a_hash r = a_hash q"
      obtain c1 where c1: "art_delete_stmt ?p c = Inr c1"
        using art_delete_unbound [OF inv, of ?p] q by (auto simp: unbound_iff [OF inv])
      have rows: "art_rows c1 = delete_where (\<lambda>r. a_hash r = a_hash q) (art_rows c)" "uri_rows c1 = uri_rows c"
        using art_delete_rows [OF c1] by (simp_all add: uri_rows_def)
      have fit1: "fits c1"
        using fit rows stored_bytes_delete [of _ "art_rows c"] by (auto simp: fits_def intro: le_less_trans)
      have short: "length (art_rows c1) < length (art_rows c)"
        using rows q by (simp add: delete_where_shorter [of q])
      obtain c' where c': "evict_phase1 target c1 = (Inr (), c')" "store_inv H c'" "fits c'" "phase1_post target c1 c'"
        using less.hyps [OF short art_delete_stmt_inv [OF inv c1] fit1] by blast
      have "phase1_post target c c'" using phase1_post_step [OF q least dist rows c'(4)] .
      moreover have "evict_phase1 target c = evict_phase1 target c1"
        using tb big Some pick_art_eval [OF inv] c1 by (simp add: evict_phase1.simps [of target c] select_def exec_def)
      ultimately show ?thesis using c' by auto
    qed
  qed
qed

text \<open>Phase 2 removes a URI only when it is no younger than every URI that stays; the artifacts that
  stay are exactly the ones a remaining URI names, once anything was removed at all.\<close>

definition phase2_post :: "nat \<Rightarrow> conn \<Rightarrow> conn \<Rightarrow> bool" where
  "phase2_post target c c' \<longleftrightarrow> set (uri_rows c') \<subseteq> set (uri_rows c) \<and> set (art_rows c') \<subseteq> set (art_rows c) \<and>
     (\<forall>q \<in> set (uri_rows c) - set (uri_rows c'). \<forall>r \<in> set (uri_rows c'). uri_age q \<le> uri_age r) \<and>
     (\<forall>r \<in> set (art_rows c). is_bound c' r \<longrightarrow> r \<in> set (art_rows c')) \<and>
     (\<forall>r \<in> set (art_rows c'). is_bound c' r \<or> c' = c)"

lemma pick_uri_eval:
  "store_inv H c \<Longrightarrow> pick_uri (db c) = Inr (map_option u_uri (first_by uri_age (uri_rows c)))"
  by (auto simp: pick_uri_def uris_def uri_rows_def elim!: store_invE)

lemma uri_delete_eval: "store_inv H c \<Longrightarrow> \<exists>c'. uri_delete_stmt u c = Inr c'"
  by (auto simp: uri_delete_stmt_def uris_def elim!: store_invE)

lemma uri_rows_distinct: "store_inv H c \<Longrightarrow> distinct (map u_uri (uri_rows c))"
  by (auto simp: uri_rows_def tables_ok_def elim!: store_invE)

lemma uri_rows_stored: "store_inv H c \<Longrightarrow> u \<in> set (uri_rows c) \<Longrightarrow> u_hash u \<in> a_hash ` set (art_rows c)"
  by (auto simp: uri_rows_def art_rows_def tables_ok_def elim!: store_invE)

lemma phase2_post_step:
  assumes q: "q \<in> set (uri_rows c)"
    and least: "\<forall>r \<in> set (uri_rows c). uri_age q \<le> uri_age r"
    and dist: "distinct (map u_uri (uri_rows c))"
    and uris1: "uri_rows c1 = delete_where (\<lambda>r. u_uri r = u_uri q) (uri_rows c)"
    and arts1: "art_rows c1 = filter (is_bound c1) (art_rows c)"
    and post: "phase2_post target c1 c'"
  shows "phase2_post target c c'"
proof -
  have only: "r = q" if "r \<in> set (uri_rows c)" "u_uri r = u_uri q" for r
    using dist that q by (metis lookup_by_unique option.inject)
  have sub: "set (uri_rows c') \<subseteq> set (uri_rows c1)" "set (uri_rows c1) \<subseteq> set (uri_rows c)"
    "set (art_rows c') \<subseteq> set (art_rows c1)"
    using post uris1 by (auto simp: phase2_post_def set_delete_where)
  have "uri_age p \<le> uri_age r" if "p \<in> set (uri_rows c) - set (uri_rows c')" "r \<in> set (uri_rows c')" for p r
  proof (cases "u_uri p = u_uri q")
    case True
    with only that least sub show ?thesis by blast
  next
    case False
    with that post uris1 show ?thesis by (auto simp: phase2_post_def set_delete_where)
  qed
  moreover have "r \<in> set (art_rows c')" if "r \<in> set (art_rows c)" "is_bound c' r" for r
  proof -
    have "is_bound c1 r" using that(2) sub(1) by auto
    with that post arts1 show ?thesis by (auto simp: phase2_post_def)
  qed
  moreover have "is_bound c' r" if "r \<in> set (art_rows c')" for r
    using that post arts1 by (auto simp: phase2_post_def)
  ultimately show ?thesis using sub arts1 unfolding phase2_post_def by auto
qed

lemma evict_phase2_eval:
  assumes "store_inv H c" "fits c" "stored_bytes (art_rows c) \<le> target \<or> (\<forall>r \<in> set (art_rows c). is_bound c r)"
  shows "\<exists>c'. evict_phase2 target c = (Inr (), c') \<and> store_inv H c' \<and> fits c' \<and> phase2_post target c c' \<and>
    stored_bytes (art_rows c') \<le> target"
  using assms
proof (induction "length (uri_rows c)" arbitrary: c rule: less_induct)
  case less
  note inv = less.prems(1) and fit = less.prems(2)
  note tb = total_bytes_eval [OF inv fit]
  show ?case
  proof (cases "stored_bytes (art_rows c) \<le> target")
    case True
    with tb inv fit show ?thesis by (auto simp: evict_phase2.simps phase2_post_def)
  next
    case big: False
    with less.prems(3) have bound: "\<forall>r \<in> set (art_rows c). is_bound c r" by blast
    have "art_rows c \<noteq> []" using big by (auto simp: stored_bytes_def)
    with bound have "uri_rows c \<noteq> []" by (cases "art_rows c") auto
    then obtain q where Some: "first_by uri_age (uri_rows c) = Some q"
      by (metis first_by_None_iff not_None_eq)
    note q = first_by_in [OF Some] and dist = uri_rows_distinct [OF inv]
    have least: "\<forall>r \<in> set (uri_rows c). uri_age q \<le> uri_age r" using first_by_least [OF Some] by auto
    obtain c1 where c1: "uri_delete_stmt (u_uri q) c = Inr c1" using uri_delete_eval [OF inv] by blast
    have inv1: "store_inv H c1" using uri_delete_stmt_inv [OF inv c1] .
    have rows1: "uri_rows c1 = delete_where (\<lambda>r. u_uri r = u_uri q) (uri_rows c)" "art_rows c1 = art_rows c"
      using uri_delete_rows [OF c1] by (simp_all add: art_rows_def)
    have fit1: "fits c1" using fit rows1 by (simp add: fits_def)
    obtain n c2 where c2: "gc c1 = (Inr n, c2)" "store_inv H c2" "fits c2" "uri_rows c2 = uri_rows c1"
      "art_rows c2 = filter (is_bound c1) (art_rows c1)" using gc_eval [OF inv1 fit1] by blast
    have short: "length (uri_rows c2) < length (uri_rows c)"
      using rows1 q c2 by (simp add: delete_where_shorter [of q])
    have "stored_bytes (art_rows c2) \<le> target \<or> (\<forall>r \<in> set (art_rows c2). is_bound c2 r)" using c2 by simp
    with less.hyps [OF short c2(2,3)] obtain c' where c': "evict_phase2 target c2 = (Inr (), c')" "store_inv H c'"
      "fits c'" "phase2_post target c2 c'" "stored_bytes (art_rows c') \<le> target" by blast
    have "phase2_post target c c'"
      using phase2_post_step [OF q least dist _ _ c'(4)] c2 rows1 by simp
    moreover have "evict_phase2 target c = evict_phase2 target c2"
      using tb big Some pick_uri_eval [OF inv] c1 c2(1)
      by (simp add: evict_phase2.simps [of target c] select_def exec_def)
    ultimately show ?thesis using c' by auto
  qed
qed

text \<open>Both phases together.\<close>

definition evict_post :: "nat \<Rightarrow> conn \<Rightarrow> conn \<Rightarrow> bool" where
  "evict_post target c c' \<longleftrightarrow>
     set (art_rows c') \<subseteq> set (art_rows c) \<and> set (uri_rows c') \<subseteq> set (uri_rows c) \<and>
     (\<forall>q \<in> set (art_rows c) - set (art_rows c'). is_bound c q \<longrightarrow> (\<forall>r \<in> set (art_rows c'). is_bound c r)) \<and>
     (\<forall>q \<in> set (art_rows c) - set (art_rows c'). \<not> is_bound c q \<longrightarrow>
        (\<forall>r \<in> set (art_rows c'). \<not> is_bound c r \<longrightarrow> art_age q \<le> art_age r)) \<and>
     (\<forall>q \<in> set (uri_rows c) - set (uri_rows c'). \<forall>r \<in> set (uri_rows c'). uri_age q \<le> uri_age r) \<and>
     (\<forall>r \<in> set (art_rows c). is_bound c' r \<longrightarrow> r \<in> set (art_rows c'))"

lemma evict_post_compose:
  assumes p1: "phase1_post target c c1" and p2: "phase2_post target c1 c'"
  shows "evict_post target c c'"
proof -
  have u1: "uri_rows c1 = uri_rows c" and a1: "set (art_rows c1) \<subseteq> set (art_rows c)"
    and keep: "\<And>r. r \<in> set (art_rows c) \<Longrightarrow> is_bound c r \<Longrightarrow> r \<in> set (art_rows c1)"
    and age: "\<And>q r. q \<in> set (art_rows c) - set (art_rows c1) \<Longrightarrow> r \<in> set (art_rows c1) \<Longrightarrow>
      \<not> is_bound c r \<Longrightarrow> art_age q \<le> art_age r"
    using p1 unfolding phase1_post_def by blast+
  have u2: "set (uri_rows c') \<subseteq> set (uri_rows c1)" and a2: "set (art_rows c') \<subseteq> set (art_rows c1)"
    and uage: "\<And>q r. q \<in> set (uri_rows c1) - set (uri_rows c') \<Longrightarrow> r \<in> set (uri_rows c') \<Longrightarrow> uri_age q \<le> uri_age r"
    and bound2: "\<And>r. r \<in> set (art_rows c1) \<Longrightarrow> is_bound c' r \<Longrightarrow> r \<in> set (art_rows c')"
    and all2: "c' = c1 \<or> (\<forall>r \<in> set (art_rows c'). is_bound c' r)"
    using p2 unfolding phase2_post_def by blast+
  have up: "is_bound c r" if "is_bound c' r" for r using that u1 u2 by auto
  have gone: "\<forall>r \<in> set (art_rows c'). is_bound c r"
    if "c' \<noteq> c1" using that all2 up by blast
  show ?thesis
    unfolding evict_post_def
  proof (intro conjI ballI impI)
    show "set (art_rows c') \<subseteq> set (art_rows c)" "set (uri_rows c') \<subseteq> set (uri_rows c)"
      using a1 a2 u1 u2 by auto
    show "is_bound c r" if "q \<in> set (art_rows c) - set (art_rows c')" "is_bound c q" "r \<in> set (art_rows c')" for q r
      using that keep gone by (cases "c' = c1") auto
    show "art_age q \<le> art_age r" if "q \<in> set (art_rows c) - set (art_rows c')" "r \<in> set (art_rows c')"
      "\<not> is_bound c r" for q r
      using that age gone by (cases "c' = c1") auto
    show "uri_age q \<le> uri_age r" if "q \<in> set (uri_rows c) - set (uri_rows c')" "r \<in> set (uri_rows c')" for q r
      using that uage u1 by auto
    show "r \<in> set (art_rows c')" if "r \<in> set (art_rows c)" "is_bound c' r" for r
      using that keep up bound2 by blast
  qed
qed

lemma evict_lru_eval:
  assumes "store_inv H c" "fits c"
  shows "\<exists>c'. evict_lru target c = (Inr (stored_bytes (art_rows c) - stored_bytes (art_rows c')), c') \<and>
    store_inv H c' \<and> fits c' \<and> stored_bytes (art_rows c') \<le> target \<and> evict_post target c c'"
proof (cases "stored_bytes (art_rows c) \<le> target")
  case True
  then show ?thesis
    using total_bytes_eval [OF assms] assms by (auto simp: evict_lru_def bnd_Inr evict_post_def)
next
  case False
  obtain c1 where c1: "evict_phase1 target c = (Inr (), c1)" "store_inv H c1" "fits c1" "phase1_post target c c1"
    using evict_phase1_eval [OF assms] by blast
  have "stored_bytes (art_rows c1) \<le> target \<or> (\<forall>r \<in> set (art_rows c1). is_bound c1 r)"
    using c1(4) by (auto simp: phase1_post_def)
  with evict_phase2_eval [OF c1(2,3)] obtain c' where c': "evict_phase2 target c1 = (Inr (), c')" "store_inv H c'"
    "fits c'" "phase2_post target c1 c'" "stored_bytes (art_rows c') \<le> target" by blast
  then show ?thesis
    using total_bytes_eval [OF assms] total_bytes_eval [OF c'(2,3)] False c1 evict_post_compose [OF c1(4) c'(4)]
    by (auto simp: evict_lru_def bnd_Inr)
qed

section \<open>The store invariant over the remaining operations\<close>

lemma keeps_art_delete [keeps_rules]: "keeps (store_inv H) (exec (art_delete_stmt p))"
  by (rule keeps_exec [OF frame_store_inv]) (rule art_delete_stmt_inv)

lemma keeps_uri_delete [keeps_rules]: "keeps (store_inv H) (exec (uri_delete_stmt u))"
  by (rule keeps_exec [OF frame_store_inv]) (rule uri_delete_stmt_inv)

lemma keeps_gc [keeps_rules]: "keeps (store_inv H) gc"
  unfolding gc_def execute_batch.simps by (intro keeps_rules)

lemma total_bytes_pure: "\<exists>r. total_bytes c = (r, c)"
  by (metis prod.collapse total_bytes_state)

text \<open>What both deletions keep, the loops keep.\<close>

lemma evict_phase1_keeps:
  assumes del: "\<And>p. keeps P (exec (art_delete_stmt p))"
  shows "keeps P (evict_phase1 target)"
proof (rule keepsI)
  fix c assume "P c"
  then show "P (snd (evict_phase1 target c))"
  proof (induction "length (art_rows c)" arbitrary: c rule: less_induct)
    case less
    obtain r where tb: "total_bytes c = (r, c)" using total_bytes_pure by blast
    have del: "P c'" if "exec (art_delete_stmt p) c = (x, c')" for p x c'
      using keepsD [OF del less.prems that] .
    have "P (snd (evict_phase1 target c'))"
      if "pick_art (db c) = Inr (Some h)" "exec (art_delete_stmt (\<lambda>_ r. a_hash r = h)) c = (Inr u, c')" for h u c'
      using less.hyps [OF evict_step_art [OF tb _ that(2)] del [OF that(2)]] that(1) by (simp add: select_def)
    with tb less.prems del show ?case
      by (subst evict_phase1.simps) (auto simp: select_def split: prod.splits sum.splits option.splits)
  qed
qed

lemma evict_phase2_keeps:
  assumes uri: "\<And>u. keeps P (exec (uri_delete_stmt u))" and art: "\<And>p. keeps P (exec (art_delete_stmt p))"
  shows "keeps P (evict_phase2 target)"
proof (rule keepsI)
  have gc: "keeps P gc" unfolding gc_def execute_batch.simps by (intro keeps_rules art)
  fix c assume "P c"
  then show "P (snd (evict_phase2 target c))"
  proof (induction "length (uri_rows c)" arbitrary: c rule: less_induct)
    case less
    obtain r where tb: "total_bytes c = (r, c)" using total_bytes_pure by blast
    have del: "P c'" if "exec (uri_delete_stmt u) c = (x, c')" for u x c'
      using keepsD [OF uri less.prems that] .
    have gc: "P c''" if "exec (uri_delete_stmt u) c = (x, c')" "gc c' = (x', c'')" for u x c' x' c''
      using keepsD [OF gc del [OF that(1)] that(2)] .
    have "P (snd (evict_phase2 target c''))"
      if "pick_uri (db c) = Inr (Some h)" "exec (uri_delete_stmt h) c = (Inr u, c')" "gc c' = (Inr n, c'')" for h u c' n c''
      using less.hyps [OF evict_step_uri [OF tb _ that(2,3)] gc [OF that(2,3)]] that(1) by (simp add: select_def)
    with tb less.prems del gc show ?case
      by (subst evict_phase2.simps) (auto simp: select_def split: prod.splits sum.splits option.splits)
  qed
qed

lemma evict_lru_keeps:
  "(\<And>u. keeps P (exec (uri_delete_stmt u))) \<Longrightarrow> (\<And>p. keeps P (exec (art_delete_stmt p))) \<Longrightarrow> keeps P (evict_lru target)"
  unfolding evict_lru_def by (intro keeps_rules evict_phase1_keeps evict_phase2_keeps)

lemma keeps_evict_lru [keeps_rules]: "keeps (store_inv H) (evict_lru target)"
  by (rule evict_lru_keeps [OF keeps_uri_delete keeps_art_delete])

lemma purge_eval:
  assumes "store_inv H c"
  shows "\<exists>c'. purge c = (Inr (), c') \<and> store_inv H c' \<and> art_rows c' = [] \<and> uri_rows c' = []"
proof -
  from assms obtain t us where t: "artifact_t (db c) = Some t" "uri_t (db c) = Some us" "tables_ok H t us"
    "fk_on c" "tx c = None" by (rule store_invE)
  then show ?thesis
    by (auto simp: purge_def begin_tx_def commit_tx_def uri_clear_stmt_def art_delete_stmt_def arts_def uris_def
        run_op store_inv_def store_ok_def tables_ok_def rows_ok_def sha_unique_def art_rows_def
        uri_rows_def delete_where_def list_ex_iff)
qed

lemma keeps_purge [keeps_rules]: "keeps (store_inv H) purge"
  using purge_eval by (intro keepsI) (metis snd_conv)

section \<open>A store with a bound and an unbound artifact\<close>

definition demo_conn :: conn where
  "demo_conn = snd (put toy_hashers [4, 5]
     (snd (set_uri ''a'' (blake3 toy_hashers [1, 2, 3]) (snd (put toy_hashers [1, 2, 3] toy_conn)))))"

lemma demo_inv: "store_inv toy_hashers demo_conn"
  unfolding demo_conn_def using keeps_put keeps_set_uri toy_store_inv unfolding keeps_def by blast

lemmas demo_eval = demo_conn_def put_def put_ref_def put_stmt_def set_uri_def set_uri_stmt_def arts_def uris_def
  toy_conn_def open_conn_def fresh_tables_def toy_hashers_def sha_taken_def bnd_def exec_def set_arts_def set_uris_def
  dml_def tick_def Let_def art_rows_def uri_rows_def now_of_def

lemma demo_rows: "map a_bytes (art_rows demo_conn) = [[1, 2, 3], [4, 5]]"
  "map u_uri (uri_rows demo_conn) = [''a'']"
  by (simp_all add: demo_eval)

lemma demo_stored: "stored_bytes (art_rows demo_conn) = 5"
  using demo_rows(1) by (simp add: stored_bytes_def flip: map_map)

lemma demo_fits: "fits demo_conn"
  by (simp add: fits_def demo_stored)

section \<open>Properties\<close>

text \<open>C27. Garbage collection is exact: on a sound store whose total size fits i64, \<open>gc\<close> succeeds, keeps
  every URI, leaves precisely the artifacts some URI references (in their order), keeps the store
  sound and reports exactly the number of bytes it freed.\<close>

theorem gc_exact:
  assumes "store_inv H c" "fits c"
  shows "\<exists>c'. gc c = (Inr (stored_bytes (art_rows c) - stored_bytes (art_rows c')), c') \<and>
    store_inv H c' \<and> uri_rows c' = uri_rows c \<and>
    art_rows c' = filter (\<lambda>r. a_hash r \<in> u_hash ` set (uri_rows c)) (art_rows c)"
  using gc_eval [OF assms] by blast

theorem gc_exact_witness:
  "\<exists>n c'. gc demo_conn = (Inr n, c') \<and> store_inv toy_hashers c' \<and> uri_rows c' = uri_rows demo_conn"
  using gc_exact [OF demo_inv demo_fits] by blast

text \<open>C4. \<open>evict_lru\<close> reaches its target: on a sound store whose total size fits i64 it terminates
  without an error, at most \<open>target\<close> bytes remain stored, the store stays sound, and the value
  returned is the number of bytes freed.\<close>

theorem evict_reaches_target:
  assumes "store_inv H c" "fits c"
  shows "\<exists>c'. evict_lru target c = (Inr (stored_bytes (art_rows c) - stored_bytes (art_rows c')), c') \<and>
    store_inv H c' \<and> stored_bytes (art_rows c') \<le> target"
  using evict_lru_eval [OF assms] by blast

theorem evict_reaches_target_witness:
  "\<exists>n c'. evict_lru 3 demo_conn = (Inr n, c') \<and> 2 \<le> n \<and> stored_bytes (art_rows c') \<le> 3"
  using evict_reaches_target [OF demo_inv demo_fits, of 3] demo_stored by auto

text \<open>C39. Eviction policy. \<open>evict_lru\<close> removes an artifact that a URI names only if afterwards every
  remaining artifact is one a URI named (no unbound artifact is kept instead); among unbound
  artifacts every removed one is at most as recently used as every kept one, in the order
  (last use, hash); the same holds for the removed and the kept URIs, in the order (last use,
  URI); and no artifact is removed while a kept URI still names it.\<close>

theorem evict_policy:
  assumes "store_inv H c" "fits c" "evict_lru target c = (r, c')"
  shows "set (art_rows c') \<subseteq> set (art_rows c) \<and> set (uri_rows c') \<subseteq> set (uri_rows c) \<and>
     (\<forall>q \<in> set (art_rows c) - set (art_rows c'). is_bound c q \<longrightarrow> (\<forall>r \<in> set (art_rows c'). is_bound c r)) \<and>
     (\<forall>q \<in> set (art_rows c) - set (art_rows c'). \<not> is_bound c q \<longrightarrow>
        (\<forall>r \<in> set (art_rows c'). \<not> is_bound c r \<longrightarrow> art_age q \<le> art_age r)) \<and>
     (\<forall>q \<in> set (uri_rows c) - set (uri_rows c'). \<forall>r \<in> set (uri_rows c'). uri_age q \<le> uri_age r) \<and>
     (\<forall>r \<in> set (art_rows c). is_bound c' r \<longrightarrow> r \<in> set (art_rows c'))"
  using evict_lru_eval [OF assms(1,2), of target] assms(3) unfolding evict_post_def by auto

theorem evict_policy_witness:
  "\<exists>r c'. evict_lru 3 demo_conn = (r, c') \<and> set (art_rows c') \<subseteq> set (art_rows demo_conn) \<and>
     (\<forall>r \<in> set (art_rows demo_conn). is_bound c' r \<longrightarrow> r \<in> set (art_rows c'))"
proof -
  obtain r c' where e: "evict_lru 3 demo_conn = (r, c')" by (cases "evict_lru 3 demo_conn")
  from evict_policy [OF demo_inv demo_fits e] e show ?thesis by blast
qed

end
