(* ===== verification/Cas_Blob.thy ===== *)
theory Cas_Blob
  imports Cas_Evict Rust_Text
begin

text \<open>
  The \<open>BlobBackend\<close> implementation of \<^verbatim>\<open>store.rs\<close> (module \<open>blob_backend\<close>): the same rows
  addressed by their sha-256 mirror. The trait's contract is the locale \<open>blob_backend\<close>; the
  interpretation \<open>sqlite_blobs\<close> shows that the SQLite store keeps it, as long as no two different
  blobs with the same blake3 hash are stored.
\<close>

section \<open>Operations\<close>

datatype blob_error =
    BlobIoError cas_error
  | InvalidInput nat
  | BlobNotFound bytes
  | BlobDigestMismatch bytes

type_synonym 'a blob_op = "(blob_error, conn, 'a) op"

definition as_sha256 :: "bytes \<Rightarrow> blob_error + bytes" where
  "as_sha256 d = (if length d = 32 then Inr d else Inl (InvalidInput (length d)))"

definition blob_put :: "hashers \<Rightarrow> bytes \<Rightarrow> bytes blob_op" where
  "blob_put H b = bnd (map_err BlobIoError (put_ref H b)) (\<lambda>_. ret (sha256 H b))"

definition blob_get :: "hashers \<Rightarrow> bytes \<Rightarrow> bytes blob_op" where
  "blob_get H d =
     (case as_sha256 d of
        Inl e \<Rightarrow> fail e
      | Inr sha \<Rightarrow>
          bnd (map_err BlobIoError (get_by_sha256_ref sha)) (\<lambda>found.
          case found of
            None \<Rightarrow> fail (BlobNotFound sha)
          | Some b \<Rightarrow> if sha256 H b \<noteq> sha then fail (BlobDigestMismatch sha) else ret b))"

definition sha_row :: "bytes \<Rightarrow> cas_db \<Rightarrow> sql_error + artifact_row option" where
  "sha_row sha d = sbind (arts d) (\<lambda>t. Inr (lookup_by a_sha256 (Some sha) (at_rows t)))"

text \<open>\<open>has\<close> and \<open>size\<close> turn every error into \<open>false\<close> and \<open>None\<close>.\<close>

definition blob_has :: "bytes \<Rightarrow> conn \<Rightarrow> bool" where
  "blob_has d c =
     (case as_sha256 d of
        Inl _ \<Rightarrow> False
      | Inr sha \<Rightarrow> (case sha_row sha (db c) of Inr (Some _) \<Rightarrow> True | _ \<Rightarrow> False))"

definition blob_size :: "bytes \<Rightarrow> conn \<Rightarrow> nat option" where
  "blob_size d c =
     (case as_sha256 d of
        Inl _ \<Rightarrow> None
      | Inr sha \<Rightarrow> (case sha_row sha (db c) of Inr (Some r) \<Rightarrow> Some (as_u64 (a_bytes_len r)) | _ \<Rightarrow> None))"

definition blob_delete :: "bytes \<Rightarrow> unit blob_op" where
  "blob_delete d =
     (case as_sha256 d of
        Inl e \<Rightarrow> fail e
      | Inr sha \<Rightarrow>
          bnd (map_err BlobIoError (exec (art_delete_stmt (\<lambda>_ r. a_sha256 r = Some sha)))) (\<lambda>_.
          query (\<lambda>c. if n_changes c = 0 then Inl (BlobNotFound sha) else Inr ())))"

definition blob_list_all :: "conn \<Rightarrow> bytes list" where
  "blob_list_all c =
     (case arts (db c) of
        Inl _ \<Rightarrow> []
      | Inr t \<Rightarrow> List.map_filter a_sha256 (at_rows t))"

definition hex_lower :: "bytes \<Rightarrow> string" where
  "hex_lower bs = concat (map (\<lambda>b. [hex_digit (unat b div 16), hex_digit (unat b mod 16)]) bs)"

section \<open>The contract of a blob backend\<close>

text \<open>\<open>view\<close> maps digests to blobs; \<open>safe s b\<close> is the condition under which storing \<open>b\<close> in
  \<open>s\<close> is promised to work (no hash collision with a stored blob).\<close>

locale blob_backend =
  fixes inv :: "'s \<Rightarrow> bool"
    and view :: "'s \<Rightarrow> 'h \<Rightarrow> 'b option"
    and safe :: "'s \<Rightarrow> 'b \<Rightarrow> bool"
    and digest :: "'b \<Rightarrow> 'h"
    and size :: "'b \<Rightarrow> nat"
    and bput :: "'b \<Rightarrow> ('e, 's, 'h) op"
    and bget :: "'h \<Rightarrow> ('e, 's, 'b) op"
    and bhas :: "'h \<Rightarrow> 's \<Rightarrow> bool"
    and bsize :: "'h \<Rightarrow> 's \<Rightarrow> nat option"
    and bdelete :: "'h \<Rightarrow> ('e, 's, unit) op"
    and blist :: "'s \<Rightarrow> 'h list"
  assumes put_law: "inv s \<Longrightarrow> safe s b \<Longrightarrow> bput b s = (Inr d, s') \<Longrightarrow>
      inv s' \<and> d = digest b \<and> view s' = (view s)(d \<mapsto> b)"
    and get_hit: "inv s \<Longrightarrow> view s d = Some b \<Longrightarrow> \<exists>s'. bget d s = (Inr b, s') \<and> inv s' \<and> view s' = view s"
    and get_miss: "inv s \<Longrightarrow> view s d = None \<Longrightarrow> \<exists>e s'. bget d s = (Inl e, s') \<and> inv s' \<and> view s' = view s"
    and has_law: "inv s \<Longrightarrow> bhas d s \<longleftrightarrow> view s d \<noteq> None"
    and size_law: "inv s \<Longrightarrow> bsize d s = map_option size (view s d)"
    and delete_ok: "inv s \<Longrightarrow> bdelete d s = (Inr (), s') \<Longrightarrow>
      inv s' \<and> view s d \<noteq> None \<and> view s' = (view s)(d := None)"
    and delete_err: "inv s \<Longrightarrow> bdelete d s = (Inl e, s') \<Longrightarrow> inv s' \<and> view s' = view s"
    and list_law: "inv s \<Longrightarrow> set (blist s) = dom (view s)"
begin

lemma put_then_get:
  "inv s \<Longrightarrow> safe s b \<Longrightarrow> bput b s = (Inr d, s') \<Longrightarrow> \<exists>s''. bget d s' = (Inr b, s'')"
  using put_law get_hit by (metis fun_upd_same)

lemma put_then_queries:
  "inv s \<Longrightarrow> safe s b \<Longrightarrow> bput b s = (Inr d, s') \<Longrightarrow>
     bhas d s' \<and> bsize d s' = Some (size b) \<and> set (blist s') = insert d (set (blist s))"
  using put_law has_law size_law list_law by fastforce

lemma delete_then_gone:
  "inv s \<Longrightarrow> bdelete d s = (Inr (), s') \<Longrightarrow> \<not> bhas d s' \<and> bsize d s' = None \<and> (\<exists>e s''. bget d s' = (Inl e, s''))"
  using delete_ok [of s d s'] has_law [of s' d] size_law [of s' d] get_miss [of s' d] by fastforce

lemma listed_is_readable: "inv s \<Longrightarrow> d \<in> set (blist s) \<Longrightarrow> \<exists>b s'. bget d s = (Inr b, s')"
  using list_law get_hit by fastforce

end

section \<open>The SQLite store as a blob backend\<close>

text \<open>Every mirror is the sha-256 of the row's own bytes, and no blob is longer than a Rust slice
  can be.\<close>

definition mirror_ok :: "hashers \<Rightarrow> artifact_row \<Rightarrow> bool" where
  "mirror_ok H r \<longleftrightarrow> (a_sha256 r = None \<or> a_sha256 r = Some (sha256 H (a_bytes r))) \<and> length (a_bytes r) < 2 ^ 63"

definition blob_inv :: "hashers \<Rightarrow> conn \<Rightarrow> bool" where
  "blob_inv H c \<longleftrightarrow> store_inv H c \<and> digests_32 H \<and> (\<forall>r \<in> set (art_rows c). mirror_ok H r)"

definition blob_view :: "conn \<Rightarrow> bytes \<Rightarrow> bytes option" where
  "blob_view c d = map_option a_bytes (lookup_by a_sha256 (Some d) (art_rows c))"

definition no_clash :: "hashers \<Rightarrow> conn \<Rightarrow> bytes \<Rightarrow> bool" where
  "no_clash H c b \<longleftrightarrow> length b < 2 ^ 63 \<and> (\<forall>x. contents c (blake3 H b) = Some x \<longrightarrow> x = b)"

lemma blob_invE:
  assumes "blob_inv H c"
  obtains t us where "artifact_t (db c) = Some t" "uri_t (db c) = Some us" "art_rows c = at_rows t"
    "store_inv H c" "digests_32 H" "rows_ok H (at_rows t)" "\<forall>r \<in> set (at_rows t). mirror_ok H r" "fk_on c"
    "at_sha_unique t"
  using assms by (auto simp: blob_inv_def art_rows_def tables_ok_def elim!: store_invE)

lemma sha_lookup_mirror:
  assumes "blob_inv H c" "lookup_by a_sha256 (Some d) (art_rows c) = Some r"
  shows "d = sha256 H (a_bytes r) \<and> length d = 32 \<and> a_bytes_len r = int (length (a_bytes r)) \<and>
    length (a_bytes r) < 2 ^ 63 \<and> r \<in> set (art_rows c) \<and> a_sha256 r = Some d"
  using assms lookup_by_SomeD [OF assms(2)]
  by (fastforce elim!: blob_invE simp: mirror_ok_def digests_32_def rows_ok_def row_ok_def)

lemma blob_view_SomeD: "blob_inv H c \<Longrightarrow> blob_view c d = Some b \<Longrightarrow> sha256 H b = d \<and> length d = 32"
  by (auto simp: blob_view_def dest!: sha_lookup_mirror)

lemma rows_same_sha:
  assumes "rows_ok H rs" "r \<in> set rs" "q \<in> set rs" "a_sha256 r = Some d" "a_sha256 q = Some d"
  shows "r = q"
proof -
  have "a_hash r = a_hash q" using assms sha_uniqueD unfolding rows_ok_def by blast
  with assms show ?thesis by (metis lookup_by_unique option.inject rows_ok_def)
qed

lemma blob_view_iff:
  assumes "blob_inv H c"
  shows "blob_view c d = Some b \<longleftrightarrow> (\<exists>r \<in> set (art_rows c). a_sha256 r = Some d \<and> a_bytes r = b)"
proof
  show "blob_view c d = Some b \<Longrightarrow> \<exists>r \<in> set (art_rows c). a_sha256 r = Some d \<and> a_bytes r = b"
    by (auto simp: blob_view_def dest!: lookup_by_SomeD)
  assume "\<exists>r \<in> set (art_rows c). a_sha256 r = Some d \<and> a_bytes r = b"
  then obtain r where r: "r \<in> set (art_rows c)" "a_sha256 r = Some d" "a_bytes r = b" by blast
  obtain q where q: "lookup_by a_sha256 (Some d) (art_rows c) = Some q"
    using lookup_by_ex [of "Some d" a_sha256 "art_rows c"] r by (metis imageI)
  have "rows_ok H (art_rows c)" using assms by (auto elim!: blob_invE)
  then have "q = r" using rows_same_sha lookup_by_SomeD [OF q] r by blast
  with q r show "blob_view c d = Some b" by (simp add: blob_view_def)
qed

lemma map_eqI: "(\<And>d b. f d = Some b \<longleftrightarrow> g d = Some b) \<Longrightarrow> f = g"
  by (metis ext not_None_eq)

lemma blob_invI:
  "store_inv H c \<Longrightarrow> digests_32 H \<Longrightarrow> (\<And>r. r \<in> set (art_rows c) \<Longrightarrow> mirror_ok H r) \<Longrightarrow> blob_inv H c"
  by (simp add: blob_inv_def)

text \<open>The rows after a successful \<open>put_ref\<close>.\<close>

lemma put_rows:
  assumes inv: "blob_inv H c" and safe: "no_clash H c b" and run: "put_ref H b c = (Inr h, c')"
  shows "(\<exists>r' \<in> set (art_rows c'). a_sha256 r' = Some (sha256 H b) \<and> a_bytes r' = b) \<and>
    (\<forall>r' \<in> set (art_rows c'). (a_sha256 r' = Some (sha256 H b) \<and> a_bytes r' = b) \<or>
       (r' \<in> set (art_rows c) \<and> a_sha256 r' \<noteq> Some (sha256 H b))) \<and>
    (\<forall>r \<in> set (art_rows c). a_sha256 r \<noteq> None \<and> a_sha256 r \<noteq> Some (sha256 H b) \<longrightarrow> r \<in> set (art_rows c'))"
proof -
  from inv obtain t us where t: "artifact_t (db c) = Some t" "art_rows c = at_rows t" "at_sha_unique t"
    "rows_ok H (at_rows t)" "\<forall>r \<in> set (at_rows t). mirror_ok H r" by (rule blob_invE)
  let ?h = "blake3 H b" and ?s = "sha256 H b"
  from run have st: "put_stmt ?h ?s b (as_i64 (length b)) (now_of c) (tick c) = Inr c'"
    by (auto simp: put_ref_def Let_def bnd_eq_Inr_iff exec_eq_Inr_iff)
  show ?thesis
  proof (cases "lookup_by a_hash ?h (at_rows t)")
    case None
    then have new: "a_hash r \<noteq> ?h" if "r \<in> set (at_rows t)" for r
      using that by (metis imageI lookup_by_None_iff)
    from None t st have free: "\<not> sha_taken ?h (Some ?s) (at_rows t)"
      by (auto simp: put_stmt_def arts_def split: if_splits)
    then have "a_sha256 r \<noteq> Some ?s" if "r \<in> set (at_rows t)" for r
      using that new by (auto simp: sha_taken_def list_ex_iff)
    with None t st free show ?thesis by (auto simp: put_stmt_def arts_def art_rows_def)
  next
    case (Some r)
    have r: "r \<in> set (at_rows t)" "a_hash r = ?h" using lookup_by_SomeD [OF Some] by auto
    have rb: "a_bytes r = b" using safe Some t by (auto simp: no_clash_def contents_def)
    have s': "(case a_sha256 r of None \<Rightarrow> Some ?s | Some old \<Rightarrow> Some old) = Some ?s"
      using t(5) r rb by (auto simp: mirror_ok_def split: option.splits)
    from Some t st s' have free: "\<not> sha_taken ?h (Some ?s) (at_rows t)"
      by (auto simp: put_stmt_def arts_def split: if_splits)
    have only: "q = r" if "q \<in> set (at_rows t)" "a_hash q = ?h" for q
      using that t(4) r by (metis lookup_by_unique option.inject rows_ok_def)
    have other: "a_sha256 q \<noteq> Some ?s" if "q \<in> set (at_rows t)" "a_hash q \<noteq> ?h" for q
      using that free by (auto simp: sha_taken_def list_ex_iff)
    let ?f = "\<lambda>q. q\<lparr>a_sha256 := Some ?s, a_last_used_at := now_of c, a_use_count := a_use_count q + 1\<rparr>"
    have rows: "art_rows c' = update_where (\<lambda>q. a_hash q = ?h) ?f (at_rows t)"
      using Some t st s' free by (auto simp: put_stmt_def arts_def art_rows_def)
    have mem: "(if a_hash q = ?h then ?f q else q) \<in> set (art_rows c')" if "q \<in> set (at_rows t)" for q
      using that unfolding rows set_update_where by blast
    have "a_hash q \<noteq> ?h" if "q \<in> set (at_rows t)" "a_sha256 q \<noteq> None" "a_sha256 q \<noteq> Some ?s" for q
      using that only t(5) rb unfolding mirror_ok_def by metis
    then have "\<forall>q \<in> set (at_rows t). a_sha256 q \<noteq> None \<and> a_sha256 q \<noteq> Some ?s \<longrightarrow> q \<in> set (art_rows c')"
      using mem by metis
    moreover have "?f r \<in> set (art_rows c')" using mem [OF r(1)] r(2) by simp
    then have "\<exists>r' \<in> set (art_rows c'). a_sha256 r' = Some ?s \<and> a_bytes r' = b"
      using rb by (intro bexI [of _ "?f r"]) simp_all
    moreover have "(a_sha256 r' = Some ?s \<and> a_bytes r' = b) \<or> (r' \<in> set (at_rows t) \<and> a_sha256 r' \<noteq> Some ?s)"
      if "r' \<in> set (art_rows c')" for r'
      using that unfolding rows by (rule in_update_whereE) (use only rb other in \<open>auto split: if_splits\<close>)
    ultimately show ?thesis using t(2) by simp
  qed
qed

lemma blob_put_law:
  assumes inv: "blob_inv H c" and safe: "no_clash H c b" and run: "blob_put H b c = (Inr d, c')"
  shows "blob_inv H c' \<and> d = sha256 H b \<and> blob_view c' = (blob_view c)(d \<mapsto> b)"
proof -
  from run obtain h where p: "put_ref H b c = (Inr h, c')" and d: "d = sha256 H b"
    by (auto simp: blob_put_def bnd_eq_Inr_iff map_err_eq_Inr_iff)
  note rows = put_rows [OF inv safe p]
  have inv': "blob_inv H c'"
  proof (rule blob_invI)
    show "store_inv H c'" using keepsD [OF keeps_put] p inv by (auto simp: put_def blob_inv_def)
    show "digests_32 H" using inv by (simp add: blob_inv_def)
    show "mirror_ok H r" if "r \<in> set (art_rows c')" for r
      using that rows inv safe by (auto simp: blob_inv_def mirror_ok_def no_clash_def)
  qed
  have "blob_view c' = (blob_view c)(d \<mapsto> b)"
  proof (rule map_eqI)
    fix g x
    show "blob_view c' g = Some x \<longleftrightarrow> ((blob_view c)(d \<mapsto> b)) g = Some x"
    proof (cases "g = d")
      case True
      with rows blob_view_iff [OF inv', of g b] show ?thesis using d by auto
    next
      case False
      then have "(\<exists>r \<in> set (art_rows c'). a_sha256 r = Some g \<and> a_bytes r = x) \<longleftrightarrow>
          (\<exists>r \<in> set (art_rows c). a_sha256 r = Some g \<and> a_bytes r = x)"
        using rows d by (metis option.distinct(1) option.inject)
      with False show ?thesis by (simp add: blob_view_iff [OF inv'] blob_view_iff [OF inv])
    qed
  qed
  with inv' d show ?thesis by simp
qed

lemma touch_rows:
  assumes "get_upd_stmt h now c = Inr c'"
  shows "art_rows c' = update_where (\<lambda>r. a_hash r = h) (touch_art now) (art_rows c)"
  using assms by (auto simp: get_upd_stmt_def arts_def art_rows_def sbind_eq_Inr_iff)

lemma touch_blob:
  assumes inv: "blob_inv H c" and st: "get_upd_stmt h now c = Inr c'"
  shows "blob_inv H c' \<and> blob_view c' = blob_view c"
proof -
  have rows: "set (art_rows c') = (\<lambda>r. if a_hash r = h then touch_art now r else r) ` set (art_rows c)"
    by (simp add: touch_rows [OF st] set_update_where)
  have inv': "blob_inv H c'"
    using inv get_upd_stmt_inv [OF _ st] by (auto simp: blob_inv_def rows mirror_ok_def touch_art_def)
  moreover have "blob_view c' = blob_view c"
    by (rule map_eqI, unfold blob_view_iff [OF inv'] blob_view_iff [OF inv] rows bex_simps)
      (intro bex_cong refl, simp add: touch_art_def)
  ultimately show ?thesis by blast
qed

lemma blob_inv_tick [simp]: "blob_inv H (tick c) = blob_inv H c" "blob_view (tick c) = blob_view c"
  by (simp_all add: blob_inv_def blob_view_def art_rows_def fun_eq_iff)

lemma sha_sel_eval:
  "blob_inv H c \<Longrightarrow> sha_sel d (db c) = Inr (map_option (\<lambda>r. (a_bytes r, a_hash r)) (lookup_by a_sha256 (Some d) (art_rows c)))"
  by (elim blob_invE) (simp add: sha_sel_def arts_def)

lemma blob_get_hit:
  assumes inv: "blob_inv H c" and b: "blob_view c d = Some b"
  shows "\<exists>c'. blob_get H d c = (Inr b, c') \<and> blob_inv H c' \<and> blob_view c' = blob_view c"
proof -
  from b obtain r where r: "lookup_by a_sha256 (Some d) (art_rows c) = Some r" "a_bytes r = b"
    by (auto simp: blob_view_def)
  have d: "sha256 H b = d" "length d = 32" using blob_view_SomeD [OF inv b] by auto
  have "store_inv H (tick c)" using inv by (simp add: blob_inv_def)
  then obtain c' where c': "get_upd_stmt (a_hash r) (now_of c) (tick c) = Inr c'"
    using get_upd_stmt_Inr by blast
  have "blob_inv H c' \<and> blob_view c' = blob_view c" using touch_blob [OF _ c', of H] inv by simp
  moreover have "get_by_sha256_ref d c = (Inr (Some b), c')"
    using r c' sha_sel_eval [OF inv, of d] by (simp add: get_by_sha256_ref_def run_op)
  ultimately show ?thesis using d by (simp add: blob_get_def as_sha256_def bnd_def map_err_def)
qed

lemma blob_get_miss:
  assumes inv: "blob_inv H c" and b: "blob_view c d = None"
  shows "\<exists>c'. blob_get H d c = (Inl (if length d = 32 then BlobNotFound d else InvalidInput (length d)), c') \<and>
    blob_inv H c' \<and> blob_view c' = blob_view c"
proof (cases "length d = 32")
  case True
  have "get_by_sha256_ref d c = (Inr None, tick c)"
    using b sha_sel_eval [OF inv, of d] by (simp add: get_by_sha256_ref_def run_op blob_view_def)
  with True inv show ?thesis by (simp add: blob_get_def as_sha256_def bnd_def map_err_def)
next
  case False
  with inv show ?thesis by (simp add: blob_get_def as_sha256_def)
qed

lemma sha_row_eval: "blob_inv H c \<Longrightarrow> sha_row d (db c) = Inr (lookup_by a_sha256 (Some d) (art_rows c))"
  by (elim blob_invE) (simp add: sha_row_def arts_def)

lemma blob_has_law: "blob_inv H c \<Longrightarrow> blob_has d c \<longleftrightarrow> blob_view c d \<noteq> None"
  using sha_lookup_mirror [of H c d]
  by (auto simp: blob_has_def as_sha256_def sha_row_eval blob_view_def split: option.splits)

lemma blob_size_law:
  assumes inv: "blob_inv H c"
  shows "blob_size d c = map_option length (blob_view c d)"
proof (cases "lookup_by a_sha256 (Some d) (art_rows c)")
  case None
  then show ?thesis by (simp add: blob_size_def as_sha256_def sha_row_eval [OF inv] blob_view_def)
next
  case (Some r)
  have "length d = 32" "as_u64 (a_bytes_len r) = length (a_bytes r)" using sha_lookup_mirror [OF inv Some] by auto
  with Some show ?thesis by (simp add: blob_size_def as_sha256_def sha_row_eval [OF inv] blob_view_def)
qed

lemma set_map_filter: "set (List.map_filter f rs) = {d. \<exists>r \<in> set rs. f r = Some d}"
  by (force simp: List.map_filter_def)

lemma blob_list_law:
  assumes inv: "blob_inv H c"
  shows "set (blob_list_all c) = dom (blob_view c)"
proof -
  from inv obtain t where t: "artifact_t (db c) = Some t" "art_rows c = at_rows t" by (rule blob_invE)
  have "d \<in> set (blob_list_all c) \<longleftrightarrow> (\<exists>b. blob_view c d = Some b)" for d
    using t by (simp add: blob_list_all_def arts_def blob_view_iff [OF inv] set_map_filter) blast
  then show ?thesis by auto
qed

lemma sha_delete_blob:
  assumes inv: "blob_inv H c" and st: "art_delete_stmt (\<lambda>_ r. a_sha256 r = Some d) c = Inr c'"
  shows "blob_inv H c' \<and> blob_view c' = (blob_view c)(d := None) \<and> (n_changes c' = 0 \<longleftrightarrow> blob_view c d = None)"
proof -
  have rows: "art_rows c' = delete_where (\<lambda>r. a_sha256 r = Some d) (art_rows c)" using art_delete_rows [OF st] by simp
  have inv': "blob_inv H c'"
    using inv art_delete_stmt_inv [OF _ st] by (auto simp: blob_inv_def rows set_delete_where)
  have "n_changes c' = int (count_where (\<lambda>r. a_sha256 r = Some d) (art_rows c))"
    using st by (auto simp: art_delete_stmt_def arts_def art_rows_def sbind_eq_Inr_iff split: if_splits)
  moreover have "blob_view c d = None \<longleftrightarrow> (\<forall>r \<in> set (art_rows c). a_sha256 r \<noteq> Some d)"
    using blob_view_iff [OF inv, of d] by (metis not_None_eq)
  ultimately have "n_changes c' = 0 \<longleftrightarrow> blob_view c d = None"
    by (auto simp: count_where_def filter_empty_conv)
  moreover have "blob_view c' = (blob_view c)(d := None)"
    by (rule map_eqI) (auto simp: blob_view_iff [OF inv'] blob_view_iff [OF inv] rows set_delete_where)
  ultimately show ?thesis using inv' by blast
qed

lemma blob_inv_changes: "blob_inv H (c\<lparr>n_changes := n\<rparr>) = blob_inv H c" "blob_view (c\<lparr>n_changes := n\<rparr>) = blob_view c"
  by (simp_all add: blob_inv_def blob_view_def art_rows_def store_inv_def fun_eq_iff)

lemma blob_delete_law:
  assumes inv: "blob_inv H c" and run: "blob_delete d c = (r, c')"
  shows "blob_inv H c' \<and> (case r of Inl e \<Rightarrow> blob_view c' = blob_view c
     | Inr _ \<Rightarrow> blob_view c d \<noteq> None \<and> blob_view c' = (blob_view c)(d := None))"
proof (cases "length d = 32")
  case False
  with inv run show ?thesis by (auto simp: blob_delete_def as_sha256_def)
next
  case True
  show ?thesis
  proof (cases "art_delete_stmt (\<lambda>_ r. a_sha256 r = Some d) c")
    case (Inl e)
    with True run inv show ?thesis
      by (auto simp: blob_delete_def as_sha256_def bnd_def map_err_def exec_def blob_inv_changes split: if_splits)
  next
    case (Inr c1)
    with True run have c1: "c' = c1" "r = (if n_changes c1 = 0 then Inl (BlobNotFound d) else Inr ())"
      by (auto simp: blob_delete_def as_sha256_def bnd_def map_err_def exec_def query_def)
    with sha_delete_blob [OF inv Inr] show ?thesis by (auto simp: fun_upd_idem_iff)
  qed
qed

interpretation sqlite_blobs: blob_backend "blob_inv H" blob_view "no_clash H" "sha256 H" length
  "blob_put H" "blob_get H" blob_has blob_size blob_delete blob_list_all
  for H :: hashers
proof unfold_locales
  fix c c' :: conn and d b and e :: blob_error
  assume inv: "blob_inv H c"
  show "blob_inv H c' \<and> d = sha256 H b \<and> blob_view c' = (blob_view c)(d \<mapsto> b)"
    if "no_clash H c b" "blob_put H b c = (Inr d, c')" using blob_put_law [OF inv that] .
  show "\<exists>c'. blob_get H d c = (Inr b, c') \<and> blob_inv H c' \<and> blob_view c' = blob_view c"
    if "blob_view c d = Some b" using blob_get_hit [OF inv that] .
  show "\<exists>e c'. blob_get H d c = (Inl e, c') \<and> blob_inv H c' \<and> blob_view c' = blob_view c"
    if "blob_view c d = None" using blob_get_miss [OF inv that] by blast
  show "blob_has d c = (blob_view c d \<noteq> None)" using blob_has_law [OF inv] .
  show "blob_size d c = map_option length (blob_view c d)" using blob_size_law [OF inv] .
  show "blob_inv H c' \<and> blob_view c d \<noteq> None \<and> blob_view c' = (blob_view c)(d := None)"
    if "blob_delete d c = (Inr (), c')" using blob_delete_law [OF inv that] by simp
  show "blob_inv H c' \<and> blob_view c' = blob_view c"
    if "blob_delete d c = (Inl e, c')" using blob_delete_law [OF inv that] by simp
  show "set (blob_list_all c) = dom (blob_view c)" using blob_list_law [OF inv] .
qed

text \<open>The lower-case hex rendering used in messages is injective: it names one digest.\<close>

lemma hex_lower_inj: "hex_lower xs = hex_lower ys \<Longrightarrow> xs = ys"
proof (induction xs arbitrary: ys)
  case Nil
  then show ?case by (cases ys) (auto simp: hex_lower_def)
next
  case (Cons x xs)
  then obtain y ys' where ys: "ys = y # ys'" by (cases ys) (auto simp: hex_lower_def)
  have d: "hex_digit (unat x div 16) = hex_digit (unat y div 16)" "hex_digit (unat x mod 16) = hex_digit (unat y mod 16)"
    and rest: "hex_lower xs = hex_lower ys'"
    using Cons.prems by (simp_all add: ys hex_lower_def del: hex_digit.simps)
  have "unat x < 256" "unat y < 256" using unsigned_less [of x] unsigned_less [of y] by simp_all
  then have "unat x div 16 = unat y div 16" "unat x mod 16 = unat y mod 16"
    using d hex_digit_inj by (auto simp del: hex_digit.simps)
  then have "x = y" by (metis div_mult_mod_eq unsigned_word_eqI)
  with Cons.IH [OF rest] ys show ?case by simp
qed

section \<open>Properties\<close>

text \<open>The blob backend stores faithfully: if \<open>put\<close> succeeds on a sound store in which no other
  blob has the blake3 hash of \<open>b\<close>, it returns the sha-256 of \<open>b\<close>; afterwards \<open>get\<close> returns
  exactly \<open>b\<close>, \<open>has\<close> answers yes, \<open>size\<close> is the length of \<open>b\<close>, and \<open>list_all\<close> lists the new digest
  and what it listed before, nothing else.\<close>

theorem blob_put_roundtrip:
  assumes "blob_inv H c" "no_clash H c b" "blob_put H b c = (Inr d, c')"
  shows "d = sha256 H b \<and> (\<exists>c''. blob_get H d c' = (Inr b, c'')) \<and> blob_has d c' \<and>
    blob_size d c' = Some (length b) \<and> set (blob_list_all c') = insert d (set (blob_list_all c))"
  using sqlite_blobs.put_law [OF assms] sqlite_blobs.put_then_get [OF assms]
    sqlite_blobs.put_then_queries [OF assms] by blast

lemma toy_blob_inv: "blob_inv toy_hashers toy_conn"
  using toy_store_inv toy_digests
  by (simp add: blob_inv_def art_rows_def toy_conn_def open_conn_def fresh_tables_def)

lemma toy_blob_put: "\<exists>c. blob_put toy_hashers b toy_conn = (Inr (sha256 toy_hashers b), c)"
  using toy_put [of toy_hashers b] by (auto simp: blob_put_def put_def bnd_def map_err_def)

theorem blob_put_roundtrip_witness:
  "\<exists>c' c''. blob_put toy_hashers [7, 8] toy_conn = (Inr (sha256 toy_hashers [7, 8]), c') \<and>
     blob_get toy_hashers (sha256 toy_hashers [7, 8]) c' = (Inr [7, 8], c'') \<and>
     blob_size (sha256 toy_hashers [7, 8]) c' = Some 2"
proof -
  obtain c' where c': "blob_put toy_hashers [7, 8] toy_conn = (Inr (sha256 toy_hashers [7, 8]), c')"
    using toy_blob_put by blast
  have "no_clash toy_hashers toy_conn [7, 8]" by (simp add: no_clash_def)
  from blob_put_roundtrip [OF toy_blob_inv this c'] c' show ?thesis by auto
qed

text \<open>Reading and deleting through the blob backend on a sound store: \<open>get\<close> never reports a digest
  mismatch, and when it returns bytes they hash to the requested digest. A \<open>delete\<close> that succeeds
  removes exactly that digest; one that fails changes nothing, and it fails on a stored digest only
  because a URI still references the artifact.\<close>

theorem blob_get_delete_spec:
  assumes "blob_inv H c"
  shows "fst (blob_get H d c) \<noteq> Inl (BlobDigestMismatch d) \<and>
    (\<forall>b c'. blob_get H d c = (Inr b, c') \<longrightarrow> sha256 H b = d) \<and>
    (\<forall>c'. blob_delete d c = (Inr (), c') \<longrightarrow> blob_view c' = (blob_view c)(d := None) \<and> \<not> blob_has d c') \<and>
    (\<forall>e c'. blob_delete d c = (Inl e, c') \<longrightarrow> blob_view c' = blob_view c \<and>
       (blob_has d c \<longrightarrow> (\<exists>r \<in> set (art_rows c). a_sha256 r = Some d \<and> is_bound c r)))"
proof (intro conjI allI impI)
  show "fst (blob_get H d c) \<noteq> Inl (BlobDigestMismatch d)"
    using blob_get_hit [OF assms, of d] blob_get_miss [OF assms, of d]
    by (cases "blob_view c d") (auto split: if_splits)
  show "sha256 H b = d" if "blob_get H d c = (Inr b, c')" for b c'
    using that blob_get_hit [OF assms, of d] blob_get_miss [OF assms, of d] blob_view_SomeD [OF assms, of d]
    by (cases "blob_view c d") auto
  show "blob_view c' = (blob_view c)(d := None)" "\<not> blob_has d c'" if "blob_delete d c = (Inr (), c')" for c'
    using sqlite_blobs.delete_ok [OF assms that] sqlite_blobs.delete_then_gone [OF assms that] by auto
  show "blob_view c' = blob_view c" if "blob_delete d c = (Inl e, c')" for e c'
    using sqlite_blobs.delete_err [OF assms that] by simp
  show "\<exists>r \<in> set (art_rows c). a_sha256 r = Some d \<and> is_bound c r"
    if run: "blob_delete d c = (Inl e, c')" and has: "blob_has d c" for e c'
  proof -
    let ?st = "art_delete_stmt (\<lambda>_ r. a_sha256 r = Some d) c"
    have stored: "blob_view c d \<noteq> None" using has blob_has_law [OF assms] by simp
    then have len: "length d = 32" using blob_view_SomeD [OF assms] by blast
    obtain x where "?st = Inl x"
    proof (cases ?st)
      case (Inr c1)
      with run len sha_delete_blob [OF assms Inr] stored show ?thesis
        by (simp add: blob_delete_def as_sha256_def bnd_def map_err_def exec_def)
    qed blast
    with assms show ?thesis
      by (elim blob_invE)
        (auto simp: art_delete_stmt_def arts_def uris_def list_ex_iff uri_rows_def split: if_splits)
  qed
qed

theorem blob_get_delete_spec_witness:
  "fst (blob_get toy_hashers (replicate 32 9) toy_conn) = Inl (BlobNotFound (replicate 32 9)) \<and>
   fst (blob_get toy_hashers (replicate 32 9) toy_conn) \<noteq> Inl (BlobDigestMismatch (replicate 32 9))"
proof -
  have "fst (blob_get toy_hashers (replicate 32 9) toy_conn) = Inl (BlobNotFound (replicate 32 9))"
    by (simp add: blob_get_def as_sha256_def get_by_sha256_ref_def sha_sel_def arts_def select_def bnd_def map_err_def
        toy_conn_def open_conn_def fresh_tables_def tick_def)
  with blob_get_delete_spec [OF toy_blob_inv, of "replicate 32 9"] show ?thesis by blast
qed

end
