(* ===== verification/Parsers.thy ===== *)
theory Parsers
  imports Rust_Text
begin

text \<open>
  The shared parsers of \<^verbatim>\<open>sqlink-parsers/src\<close>: durations (\<^verbatim>\<open>duration.rs\<close>), the argument vectors of
  the \<open>.bundle\<close> commands (\<^verbatim>\<open>bundle_cli_argv.rs\<close>), the checks in front of a spawned build
  (\<^verbatim>\<open>spawn_build_validation.rs\<close>) and the \<open>.load\<close> line with its grants (\<^verbatim>\<open>load_args.rs\<close>). All are
  total functions from text to an error or a value. The policy type of the crate
  \<open>sqlite_extension_policy\<close>, which is not part of the repository, is the parameter \<open>P\<close>.
\<close>

section \<open>Durations\<close>

datatype duration_error =
    NoSuffix string
  | NotAnInteger string
  | DurationOverflow nat nat

definition parse_duration :: "string \<Rightarrow> duration_error + nat" where
  "parse_duration s =
     (let suffixed = (case strip_suffix (CHR ''s'') s of Some n \<Rightarrow> Some (n, 1)
        | None \<Rightarrow> (case strip_suffix (CHR ''m'') s of Some n \<Rightarrow> Some (n, 60)
        | None \<Rightarrow> (case strip_suffix (CHR ''h'') s of Some n \<Rightarrow> Some (n, 3600)
        | None \<Rightarrow> (case strip_suffix (CHR ''d'') s of Some n \<Rightarrow> Some (n, 86400)
        | None \<Rightarrow> None)))) in
      case suffixed of
        None \<Rightarrow> Inl (NoSuffix s)
      | Some (num, mul) \<Rightarrow>
          (case parse_uint u64_max num of
             None \<Rightarrow> Inl (NotAnInteger num)
           | Some n \<Rightarrow> if n * mul \<le> u64_max then Inr (n * mul) else Inl (DurationOverflow n mul)))"

section \<open>Argument vectors of the bundle commands\<close>

datatype argv_error =
    UnknownFlag string
  | OneNameOnly
  | NameRequired
  | TargetValueMissing
  | KeepValueMissing
  | KeepNotAnInteger string
  | OlderThanValueMissing
  | NoKnob

record save_args =
  sa_name :: string
  sa_no_build :: bool

fun parse_save_loop :: "string option \<Rightarrow> bool \<Rightarrow> string list \<Rightarrow> argv_error + string option \<times> bool" where
  "parse_save_loop name no_build [] = Inr (name, no_build)"
| "parse_save_loop name no_build (a # as) =
     (if a = ''--no-build'' then parse_save_loop name True as
      else if a = ''--name'' then parse_save_loop name no_build as
      else if starts_with a ''--'' then Inl (UnknownFlag a)
      else if name \<noteq> None then Inl OneNameOnly
      else parse_save_loop (Some a) no_build as)"

definition parse_save :: "string list \<Rightarrow> argv_error + save_args" where
  "parse_save args = sbind (parse_save_loop None False args) (\<lambda>(name, no_build).
     case name of None \<Rightarrow> Inl NameRequired | Some n \<Rightarrow> Inr \<lparr>sa_name = n, sa_no_build = no_build\<rparr>)"

record build_args =
  ba_name :: string
  ba_target :: "string option"

fun parse_build_loop :: "string option \<Rightarrow> string option \<Rightarrow> string list \<Rightarrow> argv_error + string option \<times> string option" where
  "parse_build_loop name target [] = Inr (name, target)"
| "parse_build_loop name target (a # as) =
     (if a = ''--target'' then
        (case as of
           [] \<Rightarrow> Inl TargetValueMissing
         | t # rest \<Rightarrow> parse_build_loop name (Some t) rest)
      else if starts_with a ''--'' then Inl (UnknownFlag a)
      else if name \<noteq> None then Inl OneNameOnly
      else parse_build_loop (Some a) target as)"

definition parse_build :: "string list \<Rightarrow> argv_error + build_args" where
  "parse_build args = sbind (parse_build_loop None None args) (\<lambda>(name, target).
     case name of None \<Rightarrow> Inl NameRequired | Some n \<Rightarrow> Inr \<lparr>ba_name = n, ba_target = target\<rparr>)"

record gc_args =
  ga_keep_last :: "nat option"
  ga_older_than :: "string option"

fun parse_gc_loop :: "nat option \<Rightarrow> string option \<Rightarrow> string list \<Rightarrow> argv_error + nat option \<times> string option" where
  "parse_gc_loop keep older [] = Inr (keep, older)"
| "parse_gc_loop keep older (a # as) =
     (if a = ''--keep'' then
        (case as of
           [] \<Rightarrow> Inl KeepValueMissing
         | v # rest \<Rightarrow> (case parse_uint u32_max v of
             None \<Rightarrow> Inl (KeepNotAnInteger v)
           | Some n \<Rightarrow> parse_gc_loop (Some n) older rest))
      else if a = ''--older-than'' then
        (case as of
           [] \<Rightarrow> Inl OlderThanValueMissing
         | v # rest \<Rightarrow> parse_gc_loop keep (Some v) rest)
      else Inl (UnknownFlag a))"

definition parse_gc :: "string list \<Rightarrow> argv_error + gc_args" where
  "parse_gc args = sbind (parse_gc_loop None None args) (\<lambda>(keep, older).
     if keep = None \<and> older = None then Inl NoKnob else Inr \<lparr>ga_keep_last = keep, ga_older_than = older\<rparr>)"

section \<open>Checks in front of a spawned build\<close>

datatype triple_error = EmptyTriple | DisallowedCharacters

definition triple_char :: "char \<Rightarrow> bool" where
  "triple_char ch \<longleftrightarrow> (CHR ''a'' \<le> ch \<and> ch \<le> CHR ''z'') \<or> (CHR ''0'' \<le> ch \<and> ch \<le> CHR ''9'') \<or> ch = CHR ''_'' \<or> ch = CHR ''-''"

definition validate_target_triple :: "string option \<Rightarrow> triple_error + unit" where
  "validate_target_triple triple =
     (case triple of
        None \<Rightarrow> Inr ()
      | Some t \<Rightarrow>
          if t = [] then Inl EmptyTriple
          else if \<not> list_all triple_char t then Inl DisallowedCharacters
          else Inr ())"

text \<open>The components of a Unix path: repeated separators, a trailing separator and inner \<open>.\<close> components do
  not count.\<close>

datatype component = RootDir | CurDir | ParentDir | Normal string

definition component_of :: "string \<Rightarrow> component" where
  "component_of p = (if p = ''..'' then ParentDir else Normal p)"

definition components :: "string \<Rightarrow> component list" where
  "components s =
     (let parts = split_on (CHR ''/'') s;
          rest = map component_of (filter (\<lambda>p. p \<noteq> [] \<and> p \<noteq> ''.'') parts)
      in if starts_with s ''/'' then RootDir # rest
         else if hd parts = ''.'' then CurDir # rest else rest)"

text \<open>\<open>Path::file_name\<close> and \<open>Path::file_stem\<close>.\<close>

definition file_name :: "string \<Rightarrow> string option" where
  "file_name p = (case rev (components p) of Normal n # _ \<Rightarrow> Some n | _ \<Rightarrow> None)"

definition file_stem :: "string \<Rightarrow> string option" where
  "file_stem p = map_option (\<lambda>n. let before = butlast (split_on CHR ''.'' n) in
     if before = [] \<or> before = [[]] then n else join_with CHR ''.'' before) (file_name p)"

text \<open>\<open>Path::starts_with\<close> and \<open>==\<close> compare components.\<close>

fun path_starts_with :: "component list \<Rightarrow> component list \<Rightarrow> bool" where
  "path_starts_with cs [] = True"
| "path_starts_with [] (p # ps) = False"
| "path_starts_with (c # cs) (p # ps) = (c = p \<and> path_starts_with cs ps)"

fun check_canonical_under_prefix :: "string \<Rightarrow> string list \<Rightarrow> string list + unit" where
  "check_canonical_under_prefix canon prefixes =
     (if list_ex (\<lambda>pref. components canon = components pref \<or> path_starts_with (components canon) (components pref)) prefixes
      then Inr () else Inl prefixes)"

section \<open>The load line\<close>

text \<open>The capabilities the parsers name.\<close>

datatype capability = Spi | Prepared | Transaction | Schema | State | Cache | Random | Text | Hashing | Encoding | Http | Dns
  | WalFrames | S3 | SpawnBuild | Bundles

record http_policy =
  allowed_hosts :: "string list"
  allowed_methods :: "string list option"
  max_body_bytes :: "nat option"
  http_timeout_ms :: "nat option"

record dns_policy =
  allowed_domains :: "string list"
  dns_timeout_ms :: "nat option"

text \<open>The constructors of the policy type that the parser calls.\<close>

record 'p policy_api =
  deny_all :: 'p
  with_grants :: "'p \<Rightarrow> capability list \<Rightarrow> 'p"
  with_http :: "'p \<Rightarrow> http_policy \<Rightarrow> 'p"
  with_dns :: "'p \<Rightarrow> dns_policy \<Rightarrow> 'p"

datatype load_error =
    MissingPath
  | ExpectedKeyValue string
  | UnknownGrant string

definition capability_of :: "string \<Rightarrow> capability option" where
  "capability_of s =
     (if s = ''spi'' then Some Spi else if s = ''prepared'' then Some Prepared
      else if s = ''transaction'' then Some Transaction else if s = ''schema'' then Some Schema
      else if s = ''state'' then Some State else if s = ''cache'' then Some Cache
      else if s = ''random'' then Some Random else if s = ''text'' then Some Text
      else if s = ''hashing'' then Some Hashing else if s = ''encoding'' then Some Encoding
      else if s = ''http'' then Some Http else if s = ''dns'' then Some Dns
      else if s = ''wal-frames'' \<or> s = ''wal_frames'' then Some WalFrames
      else if s = ''s3'' then Some S3
      else if s = ''spawn-build'' \<or> s = ''spawn_build'' then Some SpawnBuild
      else None)"

fun add_grants :: "capability list \<Rightarrow> string list \<Rightarrow> load_error + capability list" where
  "add_grants grants [] = Inr grants"
| "add_grants grants (p # ps) =
     (if trim p = [] then add_grants grants ps
      else case capability_of (to_ascii_lowercase (trim p)) of
        None \<Rightarrow> Inl (UnknownGrant (to_ascii_lowercase (trim p)))
      | Some cap \<Rightarrow> add_grants (grants @ [cap]) ps)"

definition nonblank :: "string \<Rightarrow> string list" where
  "nonblank v = filter (\<lambda>h. h \<noteq> []) (map trim (split_on (CHR '','') v))"

fun parse_load_loop :: "capability list \<Rightarrow> string list \<Rightarrow> string list \<Rightarrow> string list \<Rightarrow>
    load_error + capability list \<times> string list \<times> string list" where
  "parse_load_loop grants hosts domains [] = Inr (grants, hosts, domains)"
| "parse_load_loop grants hosts domains (arg # args) =
     (case split_once (CHR ''='') arg of
        None \<Rightarrow> Inl (ExpectedKeyValue arg)
      | Some (k, v) \<Rightarrow>
          if k = ''--grant'' then sbind (add_grants grants (split_on (CHR '','') v)) (\<lambda>gs. parse_load_loop gs hosts domains args)
          else if k = ''--allowed-hosts'' then parse_load_loop grants (hosts @ nonblank v) domains args
          else if k = ''--allowed-domains'' then parse_load_loop grants hosts (domains @ nonblank v) args
          else parse_load_loop grants hosts domains args)"

definition load_policy :: "'p policy_api \<Rightarrow> capability list \<Rightarrow> string list \<Rightarrow> string list \<Rightarrow> 'p" where
  "load_policy P grants hosts domains =
     (let http = (if Http \<in> set grants
            then Some \<lparr>allowed_hosts = hosts, allowed_methods = None, max_body_bytes = None, http_timeout_ms = None\<rparr> else None);
          dns = (if Dns \<in> set grants then Some \<lparr>allowed_domains = domains, dns_timeout_ms = None\<rparr> else None);
          policy = with_grants P (deny_all P) grants;
          policy = (case http of Some h \<Rightarrow> with_http P policy h | None \<Rightarrow> policy)
      in case dns of Some d \<Rightarrow> with_dns P policy d | None \<Rightarrow> policy)"

definition parse_load_args :: "'p policy_api \<Rightarrow> string \<Rightarrow> load_error + string \<times> 'p" where
  "parse_load_args P input =
     (case split_whitespace input of
        [] \<Rightarrow> Inl MissingPath
      | path # args \<Rightarrow> sbind (parse_load_loop [] [] [] args) (\<lambda>(grants, hosts, domains).
          Inr (path, load_policy P grants hosts domains)))"

section \<open>Lemmas\<close>

definition duration_units :: "(char \<times> nat) list" where
  "duration_units = [(CHR ''s'', 1), (CHR ''m'', 60), (CHR ''h'', 3600), (CHR ''d'', 86400)]"

lemma strip_suffix_snoc [simp]: "strip_suffix ch (s @ [u]) = (if u = ch then Some s else None)"
  by (simp add: strip_suffix_def)

lemma parse_duration_unit:
  assumes "(u, mul) \<in> set duration_units"
  shows "parse_duration (num @ [u]) =
    (case parse_uint u64_max num of
       None \<Rightarrow> Inl (NotAnInteger num)
     | Some n \<Rightarrow> if n * mul \<le> u64_max then Inr (n * mul) else Inl (DurationOverflow n mul))"
  using assms by (auto simp: duration_units_def parse_duration_def split: option.splits)

lemma parse_duration_other:
  assumes "\<forall>num. \<forall>(u, mul) \<in> set duration_units. s \<noteq> num @ [u]"
  shows "parse_duration s = Inl (NoSuffix s)"
proof -
  have "strip_suffix u s = None" if "u \<in> {CHR ''s'', CHR ''m'', CHR ''h'', CHR ''d''}" for u
    using assms that by (cases "strip_suffix u s") (auto simp: strip_suffix_eq_Some duration_units_def)
  then show ?thesis by (simp add: parse_duration_def)
qed

lemma path_starts_with_iff: "path_starts_with cs ps \<longleftrightarrow> (\<exists>rest. cs = ps @ rest)"
  by (induction cs ps rule: path_starts_with.induct) auto

lemma hd_append_split [simp]: "hd (split_on sep a @ xs) = hd (split_on sep a)"
  by (simp add: hd_append)

lemma starts_with_append: "s \<noteq> [] \<Longrightarrow> starts_with (s @ t) [c] = starts_with s [c]"
  by (cases s) auto

lemma components_join:
  assumes "base \<noteq> []" "CHR ''/'' \<notin> set t" "t \<noteq> []" "t \<noteq> ''.''"
  shows "components (base @ CHR ''/'' # t) = components base @ [component_of t]"
  using assms by (simp add: components_def split_on_append_sep split_on_none starts_with_append Let_def)

text \<open>What the grants of a load line come from.\<close>

definition granted_by :: "string list \<Rightarrow> capability \<Rightarrow> bool" where
  "granted_by args cap \<longleftrightarrow> (\<exists>v p. ''--grant='' @ v \<in> set args \<and> p \<in> set (split_on (CHR '','') v) \<and>
     trim p \<noteq> [] \<and> capability_of (to_ascii_lowercase (trim p)) = Some cap)"

lemma add_grants_set:
  "add_grants gs ps = Inr gs' \<Longrightarrow> set gs' = set gs \<union>
     {cap. \<exists>p \<in> set ps. trim p \<noteq> [] \<and> capability_of (to_ascii_lowercase (trim p)) = Some cap}"
  by (induction gs ps rule: add_grants.induct) (auto split: if_splits option.splits)

lemma granted_by_Cons:
  "granted_by (a # args) cap \<longleftrightarrow> granted_by args cap \<or>
     (\<exists>v p. a = ''--grant='' @ v \<and> p \<in> set (split_on (CHR '','') v) \<and> trim p \<noteq> [] \<and>
       capability_of (to_ascii_lowercase (trim p)) = Some cap)"
  unfolding granted_by_def by auto

lemma parse_load_loop_grants:
  "parse_load_loop gs hs ds args = Inr (gs', hs', ds') \<Longrightarrow> set gs' = set gs \<union> {cap. granted_by args cap}"
proof (induction gs hs ds args rule: parse_load_loop.induct)
  case (1 gs hs ds)
  then show ?case by (simp add: granted_by_def)
next
  case (2 gs hs ds a args)
  obtain k v where kv: "split_once (CHR ''='') a = Some (k, v)" using 2(5) by (auto split: option.splits)
  then have a: "a = k @ CHR ''='' # v" "CHR ''='' \<notin> set k" by (simp_all add: split_once_eq_Some)
  show ?case
  proof (cases "k = ''--grant''")
    case True
    obtain gs1 where g: "add_grants gs (split_on (CHR '','') v) = Inr gs1" "parse_load_loop gs1 hs ds args = Inr (gs', hs', ds')"
      using 2(5) kv True by (auto simp: sbind_eq_Inr_iff)
    have "{cap. granted_by (a # args) cap} = {cap. granted_by args cap} \<union>
        {cap. \<exists>p \<in> set (split_on (CHR '','') v). trim p \<noteq> [] \<and> capability_of (to_ascii_lowercase (trim p)) = Some cap}"
      unfolding granted_by_Cons a(1) True by auto
    with 2(1) [OF kv refl True g(2)] add_grants_set [OF g(1)] show ?thesis by auto
  next
    case False
    have "a \<noteq> ''--grant='' @ w" for w
    proof
      assume "a = ''--grant='' @ w"
      then have "split_once (CHR ''='') a = Some (''--grant'', w)" by (simp add: split_once_eq_Some)
      with kv False show False by simp
    qed
    then have "granted_by (a # args) cap \<longleftrightarrow> granted_by args cap" for cap unfolding granted_by_Cons by blast
    with 2(2-5) kv False show ?thesis by (auto split: if_splits)
  qed
qed

section \<open>Properties\<close>

text \<open>C38. Durations are read back exactly and never overflow: a printed number with a unit letter parses to the
  number times the seconds of the unit, as long as that fits into a u64, and is refused as an overflow
  otherwise; text that does not end in one of the four letters is refused.\<close>

theorem parse_duration_exact:
  assumes "n \<le> u64_max" "(u, mul) \<in> set duration_units"
  shows "parse_duration (show_nat n @ [u]) = (if n * mul \<le> u64_max then Inr (n * mul) else Inl (DurationOverflow n mul)) \<and>
    ((\<forall>num. \<forall>(v, k) \<in> set duration_units. s \<noteq> num @ [v]) \<longrightarrow> parse_duration s = Inl (NoSuffix s))"
  using parse_duration_unit [OF assms(2)] parse_uint_show [OF assms(1)] parse_duration_other [of s] by simp

theorem parse_duration_exact_witness:
  "parse_duration (show_nat 30 @ ''d'') = Inr 2592000 \<and>
   parse_duration (show_nat u64_max @ ''d'') = Inl (DurationOverflow u64_max 86400)"
  using parse_duration_exact [of 30 "CHR ''d''" 86400] parse_duration_exact [of u64_max "CHR ''d''" 86400]
  by (simp add: u64_max_def duration_units_def)

text \<open>How a client writes the argument vectors.\<close>

definition save_argv :: "save_args \<Rightarrow> string list" where
  "save_argv a = (if sa_no_build a then [''--no-build''] else []) @ [sa_name a]"

definition build_argv :: "build_args \<Rightarrow> string list" where
  "build_argv a = ba_name a # (case ba_target a of None \<Rightarrow> [] | Some t \<Rightarrow> [''--target'', t])"

definition gc_argv :: "gc_args \<Rightarrow> string list" where
  "gc_argv a = (case ga_keep_last a of None \<Rightarrow> [] | Some n \<Rightarrow> [''--keep'', show_nat n]) @
     (case ga_older_than a of None \<Rightarrow> [] | Some d \<Rightarrow> [''--older-than'', d])"

text \<open>The bundle commands mean what was typed: for every name that does not look like a flag and every value
  (a count that fits into a u32, any target or duration text), writing out the arguments and parsing
  them gives the arguments back; a collection without a knob is refused.\<close>

theorem bundle_argv_roundtrip:
  assumes "\<not> starts_with (sa_name s) ''--''" "\<not> starts_with (ba_name b) ''--''"
    "\<forall>n. ga_keep_last g = Some n \<longrightarrow> n \<le> u32_max"
  shows "parse_save (save_argv s) = Inr s \<and> parse_build (build_argv b) = Inr b \<and>
    parse_gc (gc_argv g) = (if ga_keep_last g = None \<and> ga_older_than g = None then Inl NoKnob else Inr g)"
proof (intro conjI)
  have "sa_name s \<noteq> ''--no-build''" "sa_name s \<noteq> ''--name''" "ba_name b \<noteq> ''--target''" using assms(1,2) by auto
  with assms(1,2) show "parse_save (save_argv s) = Inr s" "parse_build (build_argv b) = Inr b"
    by (auto simp: parse_save_def save_argv_def parse_build_def build_argv_def split: option.splits)
  show "parse_gc (gc_argv g) = (if ga_keep_last g = None \<and> ga_older_than g = None then Inl NoKnob else Inr g)"
    using assms(3) by (auto simp: parse_gc_def gc_argv_def parse_uint_show split: option.splits)
qed

theorem bundle_argv_roundtrip_witness:
  "parse_gc [''--keep'', show_nat 10, ''--older-than'', ''30d''] = Inr \<lparr>ga_keep_last = Some 10, ga_older_than = Some ''30d''\<rparr> \<and>
   parse_save [''--no-build'', ''dev''] = Inr \<lparr>sa_name = ''dev'', sa_no_build = True\<rparr>"
  using bundle_argv_roundtrip [of "\<lparr>sa_name = ''dev'', sa_no_build = True\<rparr>" "\<lparr>ba_name = ''dev'', ba_target = None\<rparr>"
      "\<lparr>ga_keep_last = Some 10, ga_older_than = Some ''30d''\<rparr>"]
  by (simp add: save_argv_def gc_argv_def u32_max_def)

text \<open>A build cannot leave its directory: a path is accepted exactly when its components extend those of
  an allowed prefix (so a sibling that merely shares the spelling is refused), and an accepted target
  triple is a single ordinary component, so the directory it names below an allowed prefix is accepted
  and lies directly below it.\<close>

theorem spawn_build_confined:
  assumes "validate_target_triple (Some t) = Inr ()" "base \<in> set prefixes" "base \<noteq> []"
  shows "(check_canonical_under_prefix canon prefixes = Inr () \<longleftrightarrow>
      (\<exists>p \<in> set prefixes. \<exists>rest. components canon = components p @ rest)) \<and>
    components (base @ ''/'' @ t) = components base @ [Normal t] \<and>
    check_canonical_under_prefix (base @ ''/'' @ t) prefixes = Inr ()"
proof -
  have iff: "check_canonical_under_prefix q prefixes = Inr () \<longleftrightarrow> (\<exists>p \<in> set prefixes. \<exists>rest. components q = components p @ rest)" for q
  proof -
    have "components q = components p \<or> path_starts_with (components q) (components p) \<longleftrightarrow>
        (\<exists>rest. components q = components p @ rest)" for p
      unfolding path_starts_with_iff by (metis append_Nil2)
    then show ?thesis by (simp add: list_ex_iff)
  qed
  have ch: "triple_char ch" if "ch \<in> set t" for ch
    using assms(1) that by (auto simp: validate_target_triple_def list_all_iff split: if_splits)
  then have "CHR ''/'' \<notin> set t" "CHR ''.'' \<notin> set t" by (auto simp: triple_char_def dest!: ch)
  moreover have "t \<noteq> []" using assms(1) by (auto simp: validate_target_triple_def)
  moreover have "t \<noteq> ''.''" "t \<noteq> ''..''" using calculation(2) by auto
  ultimately have "components (base @ ''/'' @ t) = components base @ [Normal t]"
    using components_join [OF assms(3), of t] by (simp add: component_of_def)
  with iff [of canon] iff [of "base @ ''/'' @ t"] assms(2) show ?thesis by (simp del: check_canonical_under_prefix.simps) blast
qed

theorem spawn_build_confined_witness:
  "validate_target_triple (Some ''wasm32-wasip2'') = Inr () \<and>
   check_canonical_under_prefix ''/b/wasm32-wasip2'' [''/b''] = Inr () \<and>
   check_canonical_under_prefix ''/b-other'' [''/b''] \<noteq> Inr ()"
proof -
  have t: "validate_target_triple (Some ''wasm32-wasip2'') = Inr ()" by (simp add: validate_target_triple_def triple_char_def)
  from spawn_build_confined [OF t, of "''/b''" "[''/b'']" "''/b-other''"] t show ?thesis by (simp add: components_def component_of_def)
qed

text \<open>C37. Loading grants nothing that was not asked for: the capabilities of the policy are exactly those named in
  the \<open>--grant\<close> arguments, whatever else the line contains; the host list has no effect without the \<open>http\<close>
  grant and the domain list none without the \<open>dns\<close> grant, so a line without grants gives the
  deny-all policy.\<close>

theorem parse_load_least_privilege:
  assumes "parse_load_args P input = Inr (path, pol)"
  shows "\<exists>args grants hosts domains. split_whitespace input = path # args \<and> pol = load_policy P grants hosts domains \<and>
    (\<forall>cap. cap \<in> set grants \<longleftrightarrow> granted_by args cap) \<and>
    (\<not> granted_by args Http \<longrightarrow> pol = load_policy P grants [] domains) \<and>
    (\<not> granted_by args Dns \<longrightarrow> pol = load_policy P grants hosts []) \<and>
    ((\<forall>cap. \<not> granted_by args cap) \<longrightarrow> pol = with_grants P (deny_all P) [])"
proof -
  obtain args gs hs ds where a: "split_whitespace input = path # args" "parse_load_loop [] [] [] args = Inr (gs, hs, ds)"
    "pol = load_policy P gs hs ds"
    using assms by (auto simp: parse_load_args_def sbind_eq_Inr_iff split: list.splits prod.splits)
  then have g: "set gs = {cap. granted_by args cap}" using parse_load_loop_grants by fastforce
  have "pol = with_grants P (deny_all P) []" if "\<forall>cap. \<not> granted_by args cap"
  proof -
    have "gs = []" using g that by (cases gs) auto
    then show ?thesis by (simp add: a(3) load_policy_def)
  qed
  moreover have "Http \<notin> set gs \<longrightarrow> pol = load_policy P gs [] ds" "Dns \<notin> set gs \<longrightarrow> pol = load_policy P gs hs []"
    by (simp_all add: a(3) load_policy_def)
  moreover have "cap \<in> set gs \<longleftrightarrow> granted_by args cap" for cap by (simp add: g)
  ultimately show ?thesis using a(1,3) by blast
qed

text \<open>A policy that records what it was built from.\<close>

definition trace_api :: "(capability list \<times> http_policy option \<times> dns_policy option) policy_api" where
  "trace_api = \<lparr>deny_all = ([], None, None), with_grants = (\<lambda>(_, h, d) gs. (gs, h, d)),
     with_http = (\<lambda>(g, _, d) h. (g, Some h, d)), with_dns = (\<lambda>(g, h, _) d. (g, h, Some d))\<rparr>"

lemma load_example:
  "parse_load_args trace_api ''/x --grant=spi --allowed-hosts=a'' = Inr (''/x'', [Spi], None, None)"
  by code_simp

theorem parse_load_least_privilege_witness:
  "\<exists>args grants. split_whitespace ''/x --grant=spi --allowed-hosts=a'' = ''/x'' # args \<and> (\<forall>cap. cap \<in> set grants \<longleftrightarrow> granted_by args cap)"
  using parse_load_least_privilege [OF load_example] by blast

end
