(* ===== verification/Host_Cache.thy ===== *)
theory Host_Cache
  imports Cas_Blob Parsers
begin

text \<open>
  \<^verbatim>\<open>host/src/cache.rs\<close>: the cache handle of the host over the content-addressed store. Hashes cross
  this interface as hex text; lookups turn every error of the store into a miss; the location of the
  database file comes from a flag and the environment. The mutex around the store makes each method
  one step.
\<close>

section \<open>Hex digests\<close>

text \<open>\<open>u8::from_str_radix(.., 16)\<close> of two characters; like every integer parser of the library it takes a
  leading \<open>+\<close>.\<close>

definition from_str_radix16 :: "char \<Rightarrow> char \<Rightarrow> byte option" where
  "from_str_radix16 a b =
     (if a = CHR ''+'' then map_option of_nat (hex_val b)
      else case (hex_val a, hex_val b) of (Some x, Some y) \<Rightarrow> Some (of_nat (16 * x + y)) | _ \<Rightarrow> None)"

fun decode_hex_pairs :: "string \<Rightarrow> bytes option" where
  "decode_hex_pairs [] = Some []"
| "decode_hex_pairs [a] = None"
| "decode_hex_pairs (a # b # cs) =
     (case from_str_radix16 a b of
        None \<Rightarrow> None
      | Some x \<Rightarrow> map_option (\<lambda>xs. x # xs) (decode_hex_pairs cs))"

definition decode_hex32 :: "string \<Rightarrow> bytes option" where
  "decode_hex32 hex = (if length hex \<noteq> 64 then None else decode_hex_pairs hex)"

section \<open>Operations\<close>

record host_uri_entry =
  h_uri :: string
  h_hash :: string
  h_fetched_at :: nat
  h_sha256 :: "string option"

text \<open>\<open>.ok().flatten()\<close>.\<close>

fun ok_flatten :: "'e + 'a option \<Rightarrow> 'a option" where
  "ok_flatten (Inl e) = None"
| "ok_flatten (Inr x) = x"

definition lookup_by_uri :: "string \<Rightarrow> conn \<Rightarrow> (string \<times> bytes) option \<times> conn" where
  "lookup_by_uri u c = (case resolve_uri u c of (r, c') \<Rightarrow>
     (map_option (\<lambda>(h, b). (hex_lower h, b)) (ok_flatten r), c'))"

definition lookup_by_hash :: "string \<Rightarrow> conn \<Rightarrow> bytes option \<times> conn" where
  "lookup_by_hash hex c =
     (case decode_hex32 hex of
        None \<Rightarrow> (None, c)
      | Some h \<Rightarrow>
          (case get h c of
             (Inr (Some b), c1) \<Rightarrow> (Some b, c1)
           | (_, c1) \<Rightarrow> (case get_by_sha256_ref h c1 of (r, c2) \<Rightarrow> (ok_flatten r, c2))))"

definition cache_put :: "hashers \<Rightarrow> string \<Rightarrow> bytes \<Rightarrow> string cas_op" where
  "cache_put H u b = bnd (put H b) (\<lambda>h. bnd (set_uri u h) (\<lambda>_. ret (hex_lower h)))"

definition list_uris :: "conn \<Rightarrow> host_uri_entry list" where
  "list_uris c =
     (case fst (list_entries c) of
        Inl _ \<Rightarrow> []
      | Inr es \<Rightarrow> map (\<lambda>e. \<lparr>h_uri = e_uri e, h_hash = hex_lower (e_hash e), h_fetched_at = e_fetched_at e, h_sha256 = None\<rparr>)
          (sort_key e_uri es))"

definition cache_purge :: "nat cas_op" where
  "cache_purge = bnd artifact_count (\<lambda>n. bnd purge (\<lambda>_. ret n))"

section \<open>Where the database is\<close>

text \<open>\<open>PathBuf::join\<close>, \<open>file_name\<close> and \<open>extension\<close> on Unix.\<close>

definition path_join :: "string \<Rightarrow> string \<Rightarrow> string" where
  "path_join p q =
     (if starts_with q ''/'' then q
      else if p = [] \<or> last p = CHR ''/'' then p @ q
      else p @ ''/'' @ q)"

definition file_name :: "string \<Rightarrow> string option" where
  "file_name p = (case rev (components p) of Normal n # _ \<Rightarrow> Some n | _ \<Rightarrow> None)"

definition extension :: "string \<Rightarrow> string option" where
  "extension p =
     (case file_name p of
        None \<Rightarrow> None
      | Some n \<Rightarrow> (case split_once (CHR ''.'') (rev n) of
          None \<Rightarrow> None
        | Some (ext, stem) \<Rightarrow> if stem = [] then None else Some (rev ext)))"

datatype root_error = NoHome | NoCachePath

definition default_root :: "(string \<Rightarrow> string option) \<Rightarrow> string option \<Rightarrow> root_error + string" where
  "default_root env cli_arg =
     (let nonempty = (\<lambda>s. if s \<noteq> [] then Some s else None) in
      sbind
        (case cli_arg of
           Some p \<Rightarrow> Inr (nonempty p)
         | None \<Rightarrow> (case env ''SQLITE_WASM_CACHE_DIR'' of
             Some e \<Rightarrow> Inr (nonempty e)
           | None \<Rightarrow> (case env ''XDG_CACHE_HOME'' of
               Some x \<Rightarrow> Inr (map_option (\<lambda>p. path_join p ''sqlink'') (nonempty x))
             | None \<Rightarrow> (case env ''HOME'' of
                 None \<Rightarrow> Inl NoHome
               | Some h \<Rightarrow> Inr (Some (path_join (path_join h ''.cache'') ''sqlink''))))))
        (\<lambda>raw. case raw of
           None \<Rightarrow> Inl NoCachePath
         | Some r \<Rightarrow> Inr (if extension r = Some ''sqlite'' then r else path_join r ''cas.sqlite'')))"

section \<open>Lemmas\<close>

lemma hex_val_digit: "n < 16 \<Longrightarrow> hex_val (hex_digit n) = Some n"
  by (auto simp: hex_val_def Let_def)

lemma hex_digit_plus: "n < 16 \<Longrightarrow> hex_digit n \<noteq> CHR ''+''"
  using hex_val_digit [of n] by (auto simp: hex_val_def Let_def)

declare hex_digit.simps [simp del]

lemma radix_byte: "from_str_radix16 (hex_digit (unat b div 16)) (hex_digit (unat b mod 16)) = Some (b :: byte)"
proof -
  have "unat b < 256" using unsigned_less [of b] by simp
  then have d: "unat b div 16 < 16" "unat b mod 16 < 16" by auto
  have "of_nat (16 * (unat b div 16) + unat b mod 16) = b" by (simp only: mult_div_mod_eq of_nat_unat ucast_id)
  with d show ?thesis by (simp add: from_str_radix16_def hex_val_digit hex_digit_plus)
qed

lemma decode_pairs_hex: "decode_hex_pairs (hex_lower bs) = Some bs"
  by (induction bs) (simp_all add: hex_lower_def radix_byte)

lemma length_hex_lower: "length (hex_lower bs) = 2 * length bs"
  by (induction bs) (simp_all add: hex_lower_def)

lemma decode_hex_lower: "length h = 32 \<Longrightarrow> decode_hex32 (hex_lower h) = Some h"
  by (simp add: decode_hex32_def length_hex_lower decode_pairs_hex)

lemma get_by_sha256_eval:
  assumes "blob_inv H c"
  shows "\<exists>c'. get_by_sha256_ref d c = (Inr (blob_view c d), c') \<and> same_view c c'"
proof -
  have "sha_sel d (db (tick c)) = Inr (map_option (\<lambda>r. (a_bytes r, a_hash r)) (lookup_by a_sha256 (Some d) (art_rows c)))"
    using sha_sel_eval [OF assms] by simp
  moreover obtain t where "artifact_t (db c) = Some t" using assms by (rule blob_invE)
  then have "\<exists>c'. get_upd_stmt h now (tick c) = Inr c'" for h now by (simp add: get_upd_stmt_def arts_def)
  then obtain f where f: "get_upd_stmt h now (tick c) = Inr (f h now)" for h now by metis
  moreover have "same_view c (f h now)" for h now
    using get_upd_stmt_view [OF f] by (simp add: same_view_def)
  moreover have "same_view c (tick c)" by (simp add: same_view_def)
  ultimately show ?thesis
    by (cases "lookup_by a_sha256 (Some d) (art_rows c)") (simp_all add: get_by_sha256_ref_def blob_view_def run_op)
qed

lemma cache_put_eval:
  assumes "store_inv H c" "cache_put H u b c = (Inr hex, c')"
  shows "\<exists>c1. put H b c = (Inr (blake3 H b), c1) \<and> set_uri u (blake3 H b) c1 = (Inr (), c') \<and>
    hex = hex_lower (blake3 H b) \<and> store_inv H c1 \<and> store_inv H c' \<and> contents c' = contents c1 \<and>
    bindings c' = (bindings c)(u \<mapsto> blake3 H b) \<and>
    contents c1 = (contents c)(blake3 H b \<mapsto> case contents c (blake3 H b) of None \<Rightarrow> b | Some old \<Rightarrow> old)"
proof -
  obtain h c1 where p: "put H b c = (Inr h, c1)" "set_uri u h c1 = (Inr (), c')" "hex = hex_lower h"
    using assms(2) by (auto simp: cache_put_def bnd_eq_Inr_iff)
  note s = put_spec [OF p(1)]
  have i: "store_inv H c1" using keepsD [OF keeps_put assms(1) p(1)] .
  have "contents c1 h \<noteq> None" using s by simp
  from set_uri_eval [OF i this, of u] p(2) have "contents c' = contents c1" "bindings c' = (bindings c1)(u \<mapsto> h)" by auto
  with p s i keepsD [OF keeps_set_uri i p(2)] show ?thesis by auto
qed

lemma art_rows_set_uri: "set_uri u h c = (r, c') \<Longrightarrow> art_rows c' = art_rows c"
  by (auto simp: set_uri_def exec_def set_uri_stmt_def art_rows_def sbind_eq_Inr_iff set_uris_def split: sum.splits if_splits)

lemma art_rows_get:
  assumes "get h c = (Inr None, c')"
  shows "art_rows c' = art_rows c"
  using assms by (auto simp: get_def bnd_eq_Inr_iff select_eq_Inr_iff art_rows_def split: option.splits)

section \<open>Properties\<close>

text \<open>What the host caches it finds again: after a successful \<open>put\<close> of bytes that clash with no stored
  artifact, the URI leads to the bytes with their hex digest, and the hex digest leads to the bytes,
  both the blake3 one that \<open>put\<close> returned and the sha-256 one (unless that happens to be the blake3
  address of another artifact).\<close>

theorem cache_put_lookup:
  assumes "blob_inv H c" "no_clash H c b" "cache_put H u b c = (Inr hex, c')"
  shows "hex = hex_lower (blake3 H b) \<and> fst (lookup_by_uri u c') = Some (hex, b) \<and> fst (lookup_by_hash hex c') = Some b \<and>
    (contents c' (sha256 H b) = None \<longrightarrow> fst (lookup_by_hash (hex_lower (sha256 H b)) c') = Some b)"
proof -
  have inv: "store_inv H c" and dig: "digests_32 H" using assms(1) by (auto simp: blob_inv_def)
  obtain c1 where p: "put H b c = (Inr (blake3 H b), c1)" "set_uri u (blake3 H b) c1 = (Inr (), c')" "hex = hex_lower (blake3 H b)"
    "store_inv H c'" "contents c' = contents c1" "bindings c' = (bindings c)(u \<mapsto> blake3 H b)"
    "contents c1 = (contents c)(blake3 H b \<mapsto> case contents c (blake3 H b) of None \<Rightarrow> b | Some old \<Rightarrow> old)"
    using cache_put_eval [OF inv assms(3)] by blast
  have stored: "contents c' (blake3 H b) = Some b" using assms(2) p(5,7) by (auto simp: no_clash_def split: option.splits)
  have len: "length (blake3 H b) = 32" "length (sha256 H b) = 32" using dig by (auto simp: digests_32_def)
  have uri: "fst (lookup_by_uri u c') = Some (hex, b)"
    using resolve_uri_eval [OF p(4) dig, of u] stored p(3,6) by (auto simp: lookup_by_uri_def)
  have hash: "fst (lookup_by_hash hex c') = Some b"
    using get_eval [OF p(4), of "blake3 H b"] stored p(3) len by (auto simp: lookup_by_hash_def decode_hex_lower)
  have "fst (lookup_by_hash (hex_lower (sha256 H b)) c') = Some b" if miss: "contents c' (sha256 H b) = None"
  proof -
    obtain c2 where c2: "get (sha256 H b) c' = (Inr None, c2)" using get_eval [OF p(4), of "sha256 H b"] miss by auto
    have "blob_put H b c = (Inr (sha256 H b), c1)" using p(1) by (simp add: blob_put_def put_def bnd_def map_err_def)
    from blob_put_law [OF assms(1,2) this] have v: "blob_inv H c1" "blob_view c1 (sha256 H b) = Some b" by auto
    have rows: "art_rows c2 = art_rows c1" using art_rows_get [OF c2] art_rows_set_uri [OF p(2)] by simp
    have "store_inv H c2" using keepsD [OF keeps_get p(4) c2] .
    with v(1) rows have "blob_inv H c2" by (simp add: blob_inv_def)
    moreover have "blob_view c2 (sha256 H b) = Some b" using v(2) rows by (simp add: blob_view_def)
    ultimately obtain c3 where "get_by_sha256_ref (sha256 H b) c2 = (Inr (Some b), c3)" using get_by_sha256_eval by metis
    with c2 len show ?thesis by (simp add: lookup_by_hash_def decode_hex_lower)
  qed
  with p(3) uri hash show ?thesis by blast
qed

lemma toy_cache_put: "\<exists>hex c'. cache_put toy_hashers u [7] toy_conn = (Inr hex, c')"
proof -
  obtain h c1 where c1: "put toy_hashers [7] toy_conn = (Inr h, c1)" using toy_put by blast
  have i: "store_inv toy_hashers c1" using keepsD [OF keeps_put toy_store_inv c1] .
  have "contents c1 h \<noteq> None" using put_spec [OF c1] by simp
  then obtain c2 where "set_uri u h c1 = (Inr (), c2)" using set_uri_eval [OF i, of h u] by blast
  with c1 show ?thesis by (simp add: cache_put_def bnd_def)
qed

theorem cache_put_lookup_witness:
  "\<exists>c'. fst (lookup_by_uri ''x'' c') = Some (hex_lower (blake3 toy_hashers [7]), [7]) \<and>
     fst (lookup_by_hash (hex_lower (blake3 toy_hashers [7])) c') = Some [7]"
proof -
  obtain hex c' where c': "cache_put toy_hashers ''x'' [7] toy_conn = (Inr hex, c')" using toy_cache_put by blast
  have "no_clash toy_hashers toy_conn [7]" by (simp add: no_clash_def)
  from cache_put_lookup [OF toy_blob_inv this c'] show ?thesis by blast
qed

section \<open>Where the code departs from its documentation\<close>

text \<open>The documented precedence falls through from one source to the next; the code stops at a variable
  that is set but empty, and an empty flag hides the whole environment.\<close>

theorem empty_variable_is_final:
  assumes "env ''HOME'' = Some ''/home/u''" "env ''SQLITE_WASM_CACHE_DIR'' = None" "env ''XDG_CACHE_HOME'' = Some []"
  shows "default_root env None = Inl NoCachePath \<and> default_root env (Some []) = Inl NoCachePath"
  using assms by (simp add: default_root_def)

text \<open>A plus sign passes for the first digit of a pair.\<close>

theorem plus_is_a_hex_digit:
  "decode_hex32 (concat (replicate 32 ''+a'')) = Some (replicate 32 10)"
  by code_simp

end
