(* ===== verification/Provider_Envelope.thy ===== *)
theory Provider_Envelope
  imports Rust_Text Cas_Blob
begin

text \<open>
  The envelope spoken between the host and a provider component (module \<open>provider_envelope\<close> of
  \<open>host/src/lib.rs\<close>): every request the host sends to \<open>endpoint.handle\<close> and every answer it
  reads, as CBOR trees. Rust's i32, u32, i64 and u64 are words of their width, read with \<open>sint\<close> or
  \<open>uint\<close> as the casts do; an f64 is its bit pattern, which the module only copies.

  The \<open>ciborium\<close> crate is not part of the repository: the writer and the reader are the parameters
  \<open>ser\<close> and \<open>deser\<close> of a \<open>codec\<close>, and \<open>codec_ok\<close> is what the module relies on. The
  lemmas show that values and rows survive the trip, that a request can be told from every other one
  by its bytes alone, and that a manifest is read field by field without confusion.
\<close>

section \<open>Values\<close>

type_synonym u64 = "64 word"
type_synonym i64 = "64 word"
type_synonym u32 = "32 word"
type_synonym i32 = "32 word"
type_synonym f64 = "64 word"

record wit_value_payload =
  wp_type_id :: bytes
  wp_bytes :: bytes
  wp_symbolic_name :: string

datatype sqlvalue =
    SqlNull
  | SqlInteger i64
  | SqlReal f64
  | SqlText string
  | SqlBlob bytes
  | SqlWitValue wit_value_payload

text \<open>The variants of \<open>ciborium::value::Value\<close> the module names; \<open>COther\<close> is any other one.\<close>

datatype cbor =
    CInteger int
  | CBytes bytes
  | CFloat f64
  | CText string
  | CBool bool
  | CNull
  | CArray "cbor list"
  | CMap "(cbor \<times> cbor) list"
  | COther nat

record 'b codec =
  ser :: "cbor \<Rightarrow> string + 'b"
  deser :: "'b \<Rightarrow> string + cbor"

text \<open>What the crate documents: a tree that was written is read back, as long as it is not nested too
  deep for the reader (the crate stops at 256 levels; no message of the module needs more than 16) and
  holds no NaN, whose payload bits are not kept.\<close>

definition is_nan :: "f64 \<Rightarrow> bool" where
  "is_nan f \<longleftrightarrow> (uint f div 2 ^ 52) mod 2 ^ 11 = 2 ^ 11 - 1 \<and> uint f mod 2 ^ 52 \<noteq> 0"

fun wire_ok :: "nat \<Rightarrow> cbor \<Rightarrow> bool" where
  "wire_ok d (CFloat f) = (\<not> is_nan f)"
| "wire_ok 0 (CArray xs) = False"
| "wire_ok (Suc d) (CArray xs) = list_all (wire_ok d) xs"
| "wire_ok 0 (CMap ps) = False"
| "wire_ok (Suc d) (CMap ps) = list_all (\<lambda>p. wire_ok d (fst p) \<and> wire_ok d (snd p)) ps"
| "wire_ok d v = True"

definition codec_ok :: "'b codec \<Rightarrow> bool" where
  "codec_ok C \<longleftrightarrow> (\<forall>v b. wire_ok 16 v \<and> ser C v = Inr b \<longrightarrow> deser C b = Inr v)"

section \<open>Reading a tree\<close>

definition cbor_field :: "cbor \<Rightarrow> string \<Rightarrow> cbor option" where
  "cbor_field v key =
     (case v of
        CMap m \<Rightarrow> map_option snd (List.find (\<lambda>p. fst p = CText key) m)
      | _ \<Rightarrow> None)"

definition cbor_arr :: "cbor \<Rightarrow> cbor list" where
  "cbor_arr v = (case v of CArray a \<Rightarrow> a | _ \<Rightarrow> [])"

definition cbor_text :: "cbor \<Rightarrow> string" where
  "cbor_text v = (case v of CText s \<Rightarrow> s | _ \<Rightarrow> [])"

definition cbor_int :: "cbor \<Rightarrow> int" where
  "cbor_int v = (case v of CInteger i \<Rightarrow> i | _ \<Rightarrow> 0)"

definition is_true :: "cbor \<Rightarrow> bool" where
  "is_true v \<longleftrightarrow> v = CBool True"

text \<open>\<open>field(v, key).map(f).unwrap_or(d)\<close>.\<close>

definition field_or :: "cbor \<Rightarrow> string \<Rightarrow> (cbor \<Rightarrow> 'a) \<Rightarrow> 'a \<Rightarrow> 'a" where
  "field_or v key f d = (case cbor_field v key of None \<Rightarrow> d | Some x \<Rightarrow> f x)"

text \<open>The casts of an i128.\<close>

abbreviation int_u64 :: "cbor \<Rightarrow> u64" where
  "int_u64 v \<equiv> word_of_int (cbor_int v)"

abbreviation int_i64 :: "cbor \<Rightarrow> i64" where
  "int_i64 v \<equiv> word_of_int (cbor_int v)"

abbreviation int_i32 :: "cbor \<Rightarrow> i32" where
  "int_i32 v \<equiv> word_of_int (cbor_int v)"

abbreviation int_u8 :: "cbor \<Rightarrow> byte" where
  "int_u8 v \<equiv> word_of_int (cbor_int v)"

text \<open>\<open>collect::<Result<Vec<_>, _>>\<close> stops at the first error.\<close>

fun collect_result :: "('e + 'a) list \<Rightarrow> 'e + 'a list" where
  "collect_result [] = Inr []"
| "collect_result (Inl e # rs) = Inl e"
| "collect_result (Inr x # rs) = sbind (collect_result rs) (\<lambda>xs. Inr (x # xs))"

section \<open>Values on the wire\<close>

definition cbor_map :: "(string \<times> cbor) list \<Rightarrow> cbor" where
  "cbor_map entries = CMap (map (\<lambda>(k, v). (CText k, v)) entries)"

definition tagged :: "string \<Rightarrow> cbor \<Rightarrow> cbor" where
  "tagged tag v = CMap [(CText ''t'', CText tag), (CText ''v'', v)]"

fun sqlval_to_cbor :: "sqlvalue \<Rightarrow> cbor" where
  "sqlval_to_cbor SqlNull = CMap [(CText ''t'', CText ''null'')]"
| "sqlval_to_cbor (SqlInteger i) = tagged ''integer'' (CInteger (sint i))"
| "sqlval_to_cbor (SqlReal f) = tagged ''real'' (CFloat f)"
| "sqlval_to_cbor (SqlText s) = tagged ''text'' (CText s)"
| "sqlval_to_cbor (SqlBlob b) = tagged ''blob'' (CBytes b)"
| "sqlval_to_cbor (SqlWitValue p) =
     tagged ''witvalue'' (CMap [(CText ''type_id'', CBytes (wp_type_id p)), (CText ''bytes'', CBytes (wp_bytes p)),
       (CText ''symbolic_name'', CText (wp_symbolic_name p))])"

definition cbor_to_sqlval :: "cbor \<Rightarrow> string + sqlvalue" where
  "cbor_to_sqlval v =
     (case map_option cbor_text (cbor_field v ''t'') of
        None \<Rightarrow> Inl ''SqlValue missing tag''
      | Some tag \<Rightarrow>
          let inner = cbor_field v ''v'' in
          if tag = ''null'' then Inr SqlNull
          else if tag = ''integer'' then Inr (SqlInteger (word_of_int (case inner of None \<Rightarrow> 0 | Some x \<Rightarrow> cbor_int x)))
          else if tag = ''real'' then Inr (SqlReal (case inner of Some (CFloat f) \<Rightarrow> f | _ \<Rightarrow> 0))
          else if tag = ''text'' then Inr (SqlText (case inner of None \<Rightarrow> [] | Some x \<Rightarrow> cbor_text x))
          else if tag = ''blob'' then
            Inr (SqlBlob (case inner of
              Some (CBytes b) \<Rightarrow> b
            | Some (CArray a) \<Rightarrow> map int_u8 (cbor_arr (CArray a))
            | _ \<Rightarrow> []))
          else Inl (''unsupported SqlValue tag '' @ tag))"

definition args_cbor :: "sqlvalue list \<Rightarrow> cbor" where
  "args_cbor args = CArray (map sqlval_to_cbor args)"

definition opt_text :: "string option \<Rightarrow> cbor" where
  "opt_text so = (case so of Some s \<Rightarrow> CText s | None \<Rightarrow> CNull)"

section \<open>Requests\<close>

definition encode_call :: "'b codec \<Rightarrow> u64 \<Rightarrow> sqlvalue list \<Rightarrow> string + 'b" where
  "encode_call C func_id args =
     ser C (CMap [(CText ''func_id'', CInteger (uint func_id)), (CText ''args'', CArray (map sqlval_to_cbor args))])"

definition encode_collation_compare :: "'b codec \<Rightarrow> u64 \<Rightarrow> string \<Rightarrow> string \<Rightarrow> string + 'b" where
  "encode_collation_compare C collation_id a b =
     ser C (CMap [(CText ''collation_id'', CInteger (uint collation_id)), (CText ''a'', CText a), (CText ''b'', CText b)])"

definition encode_agg_step :: "'b codec \<Rightarrow> u64 \<Rightarrow> u64 \<Rightarrow> sqlvalue list \<Rightarrow> string + 'b" where
  "encode_agg_step C func_id context_id args =
     ser C (cbor_map [(''func_id'', CInteger (uint func_id)), (''context_id'', CInteger (uint context_id)), (''args'', args_cbor args)])"

definition encode_agg_ctx :: "'b codec \<Rightarrow> u64 \<Rightarrow> u64 \<Rightarrow> string + 'b" where
  "encode_agg_ctx C func_id context_id =
     ser C (cbor_map [(''func_id'', CInteger (uint func_id)), (''context_id'', CInteger (uint context_id))])"

definition encode_vtab_connect :: "'b codec \<Rightarrow> u64 \<Rightarrow> u64 \<Rightarrow> string \<Rightarrow> string \<Rightarrow> string list \<Rightarrow> string + 'b" where
  "encode_vtab_connect C vtab_id instance_id db_name table_name args =
     ser C (cbor_map [(''vtab_id'', CInteger (uint vtab_id)), (''instance_id'', CInteger (uint instance_id)),
       (''db_name'', CText db_name), (''table_name'', CText table_name), (''args'', CArray (map CText args))])"

definition encode_vtab_instance :: "'b codec \<Rightarrow> u64 \<Rightarrow> u64 \<Rightarrow> string + 'b" where
  "encode_vtab_instance C vtab_id instance_id =
     ser C (cbor_map [(''vtab_id'', CInteger (uint vtab_id)), (''instance_id'', CInteger (uint instance_id))])"

definition encode_vtab_open :: "'b codec \<Rightarrow> u64 \<Rightarrow> u64 \<Rightarrow> u64 \<Rightarrow> string + 'b" where
  "encode_vtab_open C vtab_id instance_id cursor_id =
     ser C (cbor_map [(''vtab_id'', CInteger (uint vtab_id)), (''instance_id'', CInteger (uint instance_id)),
       (''cursor_id'', CInteger (uint cursor_id))])"

definition encode_vtab_cursor :: "'b codec \<Rightarrow> u64 \<Rightarrow> u64 \<Rightarrow> string + 'b" where
  "encode_vtab_cursor C vtab_id cursor_id =
     ser C (cbor_map [(''vtab_id'', CInteger (uint vtab_id)), (''cursor_id'', CInteger (uint cursor_id))])"

definition encode_vtab_filter :: "'b codec \<Rightarrow> u64 \<Rightarrow> u64 \<Rightarrow> i32 \<Rightarrow> string option \<Rightarrow> sqlvalue list \<Rightarrow> string + 'b" where
  "encode_vtab_filter C vtab_id cursor_id idx_num idx_str args =
     ser C (cbor_map [(''vtab_id'', CInteger (uint vtab_id)), (''cursor_id'', CInteger (uint cursor_id)),
       (''idx_num'', CInteger (sint idx_num)), (''idx_str'', opt_text idx_str), (''args'', args_cbor args)])"

definition encode_vtab_fetch_batch :: "'b codec \<Rightarrow> u64 \<Rightarrow> u64 \<Rightarrow> u32 \<Rightarrow> string + 'b" where
  "encode_vtab_fetch_batch C vtab_id cursor_id max_rows =
     ser C (cbor_map [(''vtab_id'', CInteger (uint vtab_id)), (''cursor_id'', CInteger (uint cursor_id)),
       (''max_rows'', CInteger (uint max_rows))])"

definition encode_vtab_column :: "'b codec \<Rightarrow> u64 \<Rightarrow> u64 \<Rightarrow> i32 \<Rightarrow> string + 'b" where
  "encode_vtab_column C vtab_id cursor_id col =
     ser C (cbor_map [(''vtab_id'', CInteger (uint vtab_id)), (''cursor_id'', CInteger (uint cursor_id)), (''col'', CInteger (sint col))])"

definition encode_vtab_update :: "'b codec \<Rightarrow> u64 \<Rightarrow> u64 \<Rightarrow> sqlvalue list \<Rightarrow> string + 'b" where
  "encode_vtab_update C vtab_id instance_id args =
     ser C (cbor_map [(''vtab_id'', CInteger (uint vtab_id)), (''instance_id'', CInteger (uint instance_id)), (''args'', args_cbor args)])"

definition encode_vtab_rename :: "'b codec \<Rightarrow> u64 \<Rightarrow> u64 \<Rightarrow> string \<Rightarrow> string + 'b" where
  "encode_vtab_rename C vtab_id instance_id new_name =
     ser C (cbor_map [(''vtab_id'', CInteger (uint vtab_id)), (''instance_id'', CInteger (uint instance_id)),
       (''new_name'', CText new_name)])"

definition encode_vtab_savepoint :: "'b codec \<Rightarrow> u64 \<Rightarrow> u64 \<Rightarrow> i32 \<Rightarrow> string + 'b" where
  "encode_vtab_savepoint C vtab_id instance_id savepoint =
     ser C (cbor_map [(''vtab_id'', CInteger (uint vtab_id)), (''instance_id'', CInteger (uint instance_id)),
       (''savepoint'', CInteger (sint savepoint))])"

definition encode_vtab_shadow_name :: "'b codec \<Rightarrow> u64 \<Rightarrow> string \<Rightarrow> string + 'b" where
  "encode_vtab_shadow_name C vtab_id name = ser C (cbor_map [(''vtab_id'', CInteger (uint vtab_id)), (''name'', CText name)])"

definition encode_vtab_integrity :: "'b codec \<Rightarrow> u64 \<Rightarrow> u64 \<Rightarrow> string \<Rightarrow> string \<Rightarrow> u32 \<Rightarrow> string + 'b" where
  "encode_vtab_integrity C vtab_id instance_id schema table_name mode_flags =
     ser C (cbor_map [(''vtab_id'', CInteger (uint vtab_id)), (''instance_id'', CInteger (uint instance_id)),
       (''schema'', CText schema), (''table_name'', CText table_name), (''mode_flags'', CInteger (uint mode_flags))])"

definition encode_authorize :: "'b codec \<Rightarrow> string \<Rightarrow> string option \<Rightarrow> string option \<Rightarrow> string option \<Rightarrow> string option \<Rightarrow>
    string + 'b" where
  "encode_authorize C action arg1 arg2 database trigger =
     ser C (cbor_map [(''action'', CText action), (''arg1'', opt_text arg1), (''arg2'', opt_text arg2),
       (''database'', opt_text database), (''trigger'', opt_text trigger)])"

definition encode_hook_update :: "'b codec \<Rightarrow> string \<Rightarrow> string \<Rightarrow> string \<Rightarrow> i64 \<Rightarrow> string + 'b" where
  "encode_hook_update C operation database tbl rowid =
     ser C (cbor_map [(''operation'', CText operation), (''database'', CText database), (''table'', CText tbl),
       (''rowid'', CInteger (sint rowid))])"

definition encode_hook_wal :: "'b codec \<Rightarrow> u64 \<Rightarrow> string \<Rightarrow> u32 \<Rightarrow> string + 'b" where
  "encode_hook_wal C hook_id db_name n_frames =
     ser C (cbor_map [(''hook_id'', CInteger (uint hook_id)), (''db_name'', CText db_name), (''n_frames_in_wal'', CInteger (uint n_frames))])"

definition encode_vtab_best_index :: "'b codec \<Rightarrow> u64 \<Rightarrow> u64 \<Rightarrow> (i32 \<times> string \<times> bool) list \<Rightarrow> (i32 \<times> bool) list \<Rightarrow> u64 \<Rightarrow>
    string + 'b" where
  "encode_vtab_best_index C vtab_id instance_id constraints orderbys col_used =
     (let cs = CArray (map (\<lambda>(col, op, usable).
            cbor_map [(''column'', CInteger (sint col)), (''op'', CText op), (''usable'', CBool usable)]) constraints);
          obs = CArray (map (\<lambda>(col, desc). cbor_map [(''column'', CInteger (sint col)), (''desc'', CBool desc)]) orderbys)
      in ser C (cbor_map [(''vtab_id'', CInteger (uint vtab_id)), (''instance_id'', CInteger (uint instance_id)),
           (''constraints'', cs), (''orderbys'', obs), (''col_used'', CInteger (uint col_used))]))"

definition encode_dot_invoke :: "'b codec \<Rightarrow> u64 \<Rightarrow> string \<Rightarrow> bool \<Rightarrow> string \<Rightarrow> bool \<Rightarrow> string + 'b" where
  "encode_dot_invoke C func_id args interactive display_mode bail_on_error =
     ser C (cbor_map [(''func_id'', CInteger (uint func_id)), (''args'', CText args), (''interactive'', CBool interactive),
       (''display_mode'', CText display_mode), (''bail_on_error'', CBool bail_on_error)])"

section \<open>Answers\<close>

definition decode_sql_value :: "'b codec \<Rightarrow> 'b \<Rightarrow> string + sqlvalue" where
  "decode_sql_value C b = sbind (deser C b) cbor_to_sqlval"

definition decode_i32 :: "'b codec \<Rightarrow> 'b \<Rightarrow> string + i32" where
  "decode_i32 C b = sbind (deser C b) (\<lambda>v. Inr (int_i32 v))"

definition decode_bool :: "'b codec \<Rightarrow> 'b \<Rightarrow> string + bool" where
  "decode_bool C b = sbind (deser C b) (\<lambda>v. Inr (is_true v))"

definition decode_i64 :: "'b codec \<Rightarrow> 'b \<Rightarrow> string + i64" where
  "decode_i64 C b = sbind (deser C b) (\<lambda>v. Inr (int_i64 v))"

definition decode_string :: "'b codec \<Rightarrow> 'b \<Rightarrow> string + string" where
  "decode_string C b = sbind (deser C b) (\<lambda>v. Inr (cbor_text v))"

record index_plan_parts =
  ip_usage :: "(i32 \<times> bool) list"
  ip_idx_num :: i32
  ip_idx_str :: "string option"
  ip_cost :: f64
  ip_rows :: i64
  ip_consumed :: bool

definition decode_vtab_index_plan :: "'b codec \<Rightarrow> 'b \<Rightarrow> string + index_plan_parts" where
  "decode_vtab_index_plan C b = sbind (deser C b) (\<lambda>v. Inr
     \<lparr>ip_usage = field_or v ''constraint_usage''
        (\<lambda>cu. map (\<lambda>u. (field_or u ''argv_index'' int_i32 0, field_or u ''omit'' is_true False)) (cbor_arr cu)) [],
      ip_idx_num = field_or v ''idx_num'' int_i32 0,
      ip_idx_str = (case cbor_field v ''idx_str'' of Some (CText s) \<Rightarrow> Some s | _ \<Rightarrow> None),
      ip_cost = (case cbor_field v ''estimated_cost'' of Some (CFloat f) \<Rightarrow> f | _ \<Rightarrow> 0),
      ip_rows = field_or v ''estimated_rows'' int_i64 0,
      ip_consumed = field_or v ''orderby_consumed'' is_true False\<rparr>)"

definition read_vtab_row :: "cbor \<Rightarrow> string + i64 \<times> sqlvalue list" where
  "read_vtab_row row =
     (let rowid = field_or row ''rowid'' int_i64 0 in
      sbind (field_or row ''columns'' (\<lambda>c. collect_result (map cbor_to_sqlval (cbor_arr c))) (Inr [])) (\<lambda>cols.
      Inr (rowid, cols)))"

definition decode_vtab_rows :: "'b codec \<Rightarrow> 'b \<Rightarrow> string + (i64 \<times> sqlvalue list) list" where
  "decode_vtab_rows C b = sbind (deser C b) (\<lambda>v. collect_result (map read_vtab_row (cbor_arr v)))"

section \<open>Dot commands\<close>

text \<open>\<open>format!\<close> of an i64, and of a control character as \<open>\u00xx\<close>; \<open>show_f64\<close> stands for the
  standard library's rendering of an f64.\<close>

definition show_i64 :: "i64 \<Rightarrow> string" where
  "show_i64 i = (if sint i < 0 then CHR ''-'' # show_nat (nat (- sint i)) else show_nat (nat (sint i)))"

definition json_char :: "char \<Rightarrow> string" where
  "json_char ch =
     (if ch = CHR 0x22 then [CHR 0x5C, CHR 0x22]
      else if ch = CHR 0x5C then [CHR 0x5C, CHR 0x5C]
      else if ch = CHR 0x0A then [CHR 0x5C, CHR ''n'']
      else if ch = CHR 0x0D then [CHR 0x5C, CHR ''r'']
      else if ch = CHR 0x09 then [CHR 0x5C, CHR ''t'']
      else if of_char ch < (32 :: nat) then [CHR 0x5C, CHR ''u''] @ ''00'' @ hex_lower [of_char ch]
      else [ch])"

definition json_str :: "string \<Rightarrow> string" where
  "json_str s = [CHR 0x22] @ concat (map json_char s) @ [CHR 0x22]"

fun sqlval_to_value_json :: "(f64 \<Rightarrow> string) \<Rightarrow> sqlvalue \<Rightarrow> string" where
  "sqlval_to_value_json show_f64 SqlNull = ''null''"
| "sqlval_to_value_json show_f64 (SqlInteger i) = show_i64 i"
| "sqlval_to_value_json show_f64 (SqlReal f) = show_f64 f"
| "sqlval_to_value_json show_f64 (SqlText s) = json_str s"
| "sqlval_to_value_json show_f64 (SqlBlob b) = json_str ([CHR ''X'', CHR 0x27] @ hex_lower b @ [CHR 0x27])"
| "sqlval_to_value_json show_f64 (SqlWitValue p) = ''null''"

record dot_outcome =
  do_text :: string
  do_ok :: bool
  do_exit_code :: i32
  do_stdout :: string
  do_stderr :: string
  do_deltas :: "(string \<times> string) list"

definition read_delta :: "(f64 \<Rightarrow> string) \<Rightarrow> cbor \<Rightarrow> (string \<times> string) option" where
  "read_delta show_f64 d =
     (case cbor_field d ''key'' of
        None \<Rightarrow> None
      | Some k \<Rightarrow>
          (case cbor_field d ''value'' of
             None \<Rightarrow> None
           | Some x \<Rightarrow>
               (case cbor_to_sqlval x of
                  Inl _ \<Rightarrow> None
                | Inr val \<Rightarrow> Some (cbor_text k, sqlval_to_value_json show_f64 val))))"

definition decode_dot_invoke :: "(f64 \<Rightarrow> string) \<Rightarrow> 'b codec \<Rightarrow> 'b \<Rightarrow> string + dot_outcome" where
  "decode_dot_invoke show_f64 C b = sbind (deser C b) (\<lambda>v. Inr
     \<lparr>do_text = field_or v ''text'' cbor_text [],
      do_ok = field_or v ''ok'' is_true False,
      do_exit_code = field_or v ''exit_code'' int_i32 0,
      do_stdout = field_or v ''stdout'' cbor_text [],
      do_stderr = field_or v ''stderr'' cbor_text [],
      do_deltas = List.map_filter (read_delta show_f64) (field_or v ''state_deltas'' cbor_arr [])\<rparr>)"

section \<open>Manifests\<close>

record scalar_flags =
  deterministic :: bool
  direct_only :: bool
  innocuous :: bool

record agg_spec =
  as_id :: u64
  as_name :: string
  as_num_args :: i32
  as_is_window :: bool

record vtab_spec_e =
  vs_id :: u64
  vs_name :: string
  vs_eponymous :: bool
  vs_mutable :: bool
  vs_batched :: bool

record dot_spec_e =
  ds_id :: u64
  ds_name :: string
  ds_version :: string
  ds_summary :: string
  ds_usage :: string
  ds_requires_write :: bool
  ds_no_args :: bool

record provider_manifest =
  pm_name :: string
  pm_version :: string
  pm_scalar_specs :: "(string \<times> u64 \<times> i32) list"
  pm_scalar_flags :: "u64 \<rightharpoonup> scalar_flags"
  pm_collations :: "(string \<times> u64) list"
  pm_aggregates :: "(string \<times> u64) list"
  pm_has_vtab :: bool
  pm_has_any_hook :: bool
  pm_aggregate_specs :: "agg_spec list"
  pm_vtab_specs :: "vtab_spec_e list"
  pm_dotcmd_specs :: "dot_spec_e list"
  pm_has_authorizer :: bool
  pm_has_update_hook :: bool
  pm_has_commit_hook :: bool
  pm_has_wal_hook :: bool
  pm_wal_hook_id :: u64
  pm_declared_capabilities :: "string list"

definition manifest_scalars :: "provider_manifest \<Rightarrow> (string \<times> u64) list" where
  "manifest_scalars m = map (\<lambda>(n, i, _). (n, i)) (pm_scalar_specs m)"

text \<open>An entry without its name or its id is left out (the \<open>?\<close> inside \<open>filter_map\<close>).\<close>

definition id_name_pairs :: "cbor \<Rightarrow> (string \<times> u64) list" where
  "id_name_pairs v = List.map_filter (\<lambda>e.
     case cbor_field e ''name'' of None \<Rightarrow> None | Some n \<Rightarrow>
     (case cbor_field e ''id'' of None \<Rightarrow> None | Some i \<Rightarrow> Some (cbor_text n, int_u64 i))) (cbor_arr v)"

definition scalar_specs :: "cbor \<Rightarrow> (string \<times> u64 \<times> i32) list" where
  "scalar_specs v = List.map_filter (\<lambda>e.
     case cbor_field e ''name'' of None \<Rightarrow> None | Some n \<Rightarrow>
     (case cbor_field e ''id'' of None \<Rightarrow> None | Some i \<Rightarrow>
        Some (cbor_text n, int_u64 i, field_or e ''num_args'' int_i32 (-1)))) (cbor_arr v)"

text \<open>Collecting into a \<open>HashMap\<close>: a later entry for the same key replaces the earlier one.\<close>

definition collect_map :: "('k \<times> 'v) list \<Rightarrow> ('k \<rightharpoonup> 'v)" where
  "collect_map ps = foldl (\<lambda>m (k, v). m(k \<mapsto> v)) Map.empty ps"

definition scalar_flags_of :: "cbor \<Rightarrow> (u64 \<rightharpoonup> scalar_flags)" where
  "scalar_flags_of v = collect_map (List.map_filter (\<lambda>e.
     case cbor_field e ''id'' of None \<Rightarrow> None | Some i \<Rightarrow>
       Some (int_u64 i, \<lparr>deterministic = field_or e ''deterministic'' is_true False,
         direct_only = field_or e ''direct_only'' is_true False, innocuous = field_or e ''innocuous'' is_true False\<rparr>)) (cbor_arr v))"

definition agg_specs :: "cbor \<Rightarrow> agg_spec list" where
  "agg_specs v = List.map_filter (\<lambda>e.
     case cbor_field e ''id'' of None \<Rightarrow> None | Some i \<Rightarrow>
     (case cbor_field e ''name'' of None \<Rightarrow> None | Some n \<Rightarrow>
        Some \<lparr>as_id = int_u64 i, as_name = cbor_text n, as_num_args = field_or e ''num_args'' int_i32 (-1),
          as_is_window = field_or e ''is_window'' is_true False\<rparr>)) (cbor_arr v)"

definition vtab_specs :: "cbor \<Rightarrow> vtab_spec_e list" where
  "vtab_specs v = List.map_filter (\<lambda>e.
     case cbor_field e ''id'' of None \<Rightarrow> None | Some i \<Rightarrow>
     (case cbor_field e ''name'' of None \<Rightarrow> None | Some n \<Rightarrow>
        Some \<lparr>vs_id = int_u64 i, vs_name = cbor_text n, vs_eponymous = field_or e ''eponymous'' is_true False,
          vs_mutable = field_or e ''mutable'' is_true False, vs_batched = field_or e ''batched'' is_true False\<rparr>)) (cbor_arr v)"

definition dot_specs :: "cbor \<Rightarrow> dot_spec_e list" where
  "dot_specs v = List.map_filter (\<lambda>e.
     case cbor_field e ''id'' of None \<Rightarrow> None | Some i \<Rightarrow>
     (case cbor_field e ''name'' of None \<Rightarrow> None | Some n \<Rightarrow>
        Some \<lparr>ds_id = int_u64 i, ds_name = cbor_text n, ds_version = field_or e ''version'' cbor_text [],
          ds_summary = field_or e ''summary'' cbor_text [], ds_usage = field_or e ''usage'' cbor_text [],
          ds_requires_write = field_or e ''requires_write'' is_true False,
          ds_no_args = field_or e ''no_args'' is_true False\<rparr>)) (cbor_arr v)"

definition decode_manifest :: "'b codec \<Rightarrow> 'b \<Rightarrow> string + provider_manifest" where
  "decode_manifest C b = sbind (deser C b) (\<lambda>v. Inr
     \<lparr>pm_name = field_or v ''name'' cbor_text [],
      pm_version = field_or v ''version'' cbor_text [],
      pm_scalar_specs = field_or v ''scalars'' scalar_specs [],
      pm_scalar_flags = field_or v ''scalars'' scalar_flags_of Map.empty,
      pm_collations = field_or v ''collations'' id_name_pairs [],
      pm_aggregates = field_or v ''aggregates'' id_name_pairs [],
      pm_has_vtab = field_or v ''vtabs'' (\<lambda>a. cbor_arr a \<noteq> []) False,
      pm_has_any_hook = (field_or v ''has_authorizer'' is_true False \<or> field_or v ''has_update_hook'' is_true False \<or>
        field_or v ''has_commit_hook'' is_true False \<or> field_or v ''has_wal_hook'' is_true False),
      pm_aggregate_specs = field_or v ''aggregates'' agg_specs [],
      pm_vtab_specs = field_or v ''vtabs'' vtab_specs [],
      pm_dotcmd_specs = field_or v ''dot_commands'' dot_specs [],
      pm_has_authorizer = field_or v ''has_authorizer'' is_true False,
      pm_has_update_hook = field_or v ''has_update_hook'' is_true False,
      pm_has_commit_hook = field_or v ''has_commit_hook'' is_true False,
      pm_has_wal_hook = field_or v ''has_wal_hook'' is_true False,
      pm_wal_hook_id = field_or v ''wal_hook_id'' int_u64 0,
      pm_declared_capabilities = field_or v ''declared_capabilities'' (\<lambda>c. map cbor_text (cbor_arr c)) []\<rparr>)"

section \<open>Encoders and decoders that fit\<close>

text \<open>The contract between an encoder and a decoder of trees: the decoder returns what was encoded, for the
  values the pair supports. It then holds for lists of them, and for their bytes.\<close>

locale wire_format =
  fixes enc :: "'a \<Rightarrow> cbor" and dec :: "cbor \<Rightarrow> string + 'a" and ok :: "'a \<Rightarrow> bool"
  assumes dec_enc: "ok x \<Longrightarrow> dec (enc x) = Inr x"
begin

lemma dec_list: "list_all ok xs \<Longrightarrow> collect_result (map dec (map enc xs)) = Inr xs"
  by (induction xs) (simp_all add: dec_enc)

lemma via_bytes:
  assumes "codec_ok C" "ok x" "wire_ok 16 (enc x)" "ser C (enc x) = Inr b"
  shows "sbind (deser C b) dec = Inr x"
  using assms dec_enc unfolding codec_ok_def by fastforce

lemma list_via_bytes:
  assumes "codec_ok C" "list_all ok xs" "wire_ok 16 (CArray (map enc xs))" "ser C (CArray (map enc xs)) = Inr b"
  shows "sbind (deser C b) (\<lambda>v. collect_result (map dec (cbor_arr v))) = Inr xs"
proof -
  have "deser C b = Inr (CArray (map enc xs))" using assms(1,3,4) unfolding codec_ok_def by blast
  with dec_list [OF assms(2)] show ?thesis by (simp add: cbor_arr_def)
qed

end

lemmas cbor_reads = cbor_field_def cbor_arr_def cbor_text_def cbor_int_def is_true_def field_or_def cbor_map_def

definition plain_value :: "sqlvalue \<Rightarrow> bool" where
  "plain_value v = (case v of SqlWitValue _ \<Rightarrow> False | _ \<Rightarrow> True)"

definition nan_value :: "sqlvalue \<Rightarrow> bool" where
  "nan_value v = (case v of SqlReal f \<Rightarrow> is_nan f | _ \<Rightarrow> False)"

interpretation wire_value: wire_format sqlval_to_cbor cbor_to_sqlval plain_value
  by unfold_locales (auto simp: plain_value_def cbor_to_sqlval_def tagged_def cbor_reads split: sqlvalue.splits)

text \<open>The form in which a provider sends a batch of rows.\<close>

definition row_to_cbor :: "i64 \<times> sqlvalue list \<Rightarrow> cbor" where
  "row_to_cbor row = cbor_map [(''rowid'', CInteger (sint (fst row))), (''columns'', args_cbor (snd row))]"

definition plain_row :: "i64 \<times> sqlvalue list \<Rightarrow> bool" where
  "plain_row row = list_all plain_value (snd row)"

interpretation wire_row: wire_format row_to_cbor read_vtab_row plain_row
proof
  fix row :: "i64 \<times> sqlvalue list"
  assume "plain_row row"
  then show "read_vtab_row (row_to_cbor row) = Inr row"
    using wire_value.dec_list [of "snd row"]
    by (simp add: plain_row_def read_vtab_row_def row_to_cbor_def args_cbor_def cbor_reads)
qed

lemma sixteen: "(16 :: nat) = Suc (Suc (Suc (Suc (Suc 11))))"
  by simp

lemma wire_ok_leaf [simp]: "wire_ok d (CText s)" "wire_ok d (CInteger i)" "wire_ok d (CBool t)" "wire_ok d (CBytes b)" "wire_ok d CNull"
  by (cases d; simp)+

lemma wire_ok_value: "\<not> nan_value v \<Longrightarrow> wire_ok (Suc (Suc d)) (sqlval_to_cbor v)"
  by (cases v) (auto simp: nan_value_def tagged_def)

lemma wire_ok_values: "list_all (\<lambda>v. \<not> nan_value v) vs \<Longrightarrow> wire_ok (Suc (Suc (Suc d))) (args_cbor vs)"
  by (auto simp: args_cbor_def list_all_iff wire_ok_value)

lemma wire_ok_texts: "wire_ok (Suc d) (CArray (map CText ss))"
  by (simp add: list_all_iff)

lemma wire_ok_opt_text [simp]: "wire_ok d (opt_text so)"
  by (simp add: opt_text_def split: option.splits)

lemma wire_ok_row: "list_all (\<lambda>v. \<not> nan_value v) (snd row) \<Longrightarrow> wire_ok (Suc (Suc (Suc (Suc d)))) (row_to_cbor row)"
  by (simp add: row_to_cbor_def cbor_map_def wire_ok_values)

lemma sint_inj [simp]: "sint x = sint y \<longleftrightarrow> x = y" for x y :: "'a::len word"
  by (auto intro: signed_word_eqI)

lemma uint_inj [simp]: "uint x = uint y \<longleftrightarrow> x = y" for x y :: "'a::len word"
  by (auto intro: unsigned_word_eqI)

lemma sqlval_to_cbor_inj: "sqlval_to_cbor v = sqlval_to_cbor w \<Longrightarrow> v = w"
  by (cases v; cases w) (auto simp: tagged_def)

lemma args_cbor_inj: "args_cbor vs = args_cbor ws \<longleftrightarrow> vs = ws"
  by (auto simp: args_cbor_def inj_map_eq_map inj_def sqlval_to_cbor_inj)

lemma opt_text_inj: "opt_text a = opt_text b \<longleftrightarrow> a = b"
  by (auto simp: opt_text_def split: option.splits)

section \<open>Requests\<close>

text \<open>Every request the host can send, with the encoder that builds its message.\<close>

datatype request =
    Call u64 "sqlvalue list"
  | CollationCompare u64 string string
  | AggStep u64 u64 "sqlvalue list"
  | AggCtx u64 u64
  | VtabConnect u64 u64 string string "string list"
  | VtabInstance u64 u64
  | VtabOpen u64 u64 u64
  | VtabCursor u64 u64
  | VtabFilter u64 u64 i32 "string option" "sqlvalue list"
  | VtabFetchBatch u64 u64 u32
  | VtabColumn u64 u64 i32
  | VtabUpdate u64 u64 "sqlvalue list"
  | VtabRename u64 u64 string
  | VtabSavepoint u64 u64 i32
  | VtabShadowName u64 string
  | VtabIntegrity u64 u64 string string u32
  | Authorize string "string option" "string option" "string option" "string option"
  | HookUpdate string string string i64
  | HookWal u64 string u32
  | VtabBestIndex u64 u64 "(i32 \<times> string \<times> bool) list" "(i32 \<times> bool) list" u64
  | DotInvoke u64 string bool string bool

fun encode_request :: "'b codec \<Rightarrow> request \<Rightarrow> string + 'b" where
  "encode_request C (Call f as) = encode_call C f as"
| "encode_request C (CollationCompare i a b) = encode_collation_compare C i a b"
| "encode_request C (AggStep f c as) = encode_agg_step C f c as"
| "encode_request C (AggCtx f c) = encode_agg_ctx C f c"
| "encode_request C (VtabConnect v i d t as) = encode_vtab_connect C v i d t as"
| "encode_request C (VtabInstance v i) = encode_vtab_instance C v i"
| "encode_request C (VtabOpen v i c) = encode_vtab_open C v i c"
| "encode_request C (VtabCursor v c) = encode_vtab_cursor C v c"
| "encode_request C (VtabFilter v c n s as) = encode_vtab_filter C v c n s as"
| "encode_request C (VtabFetchBatch v c n) = encode_vtab_fetch_batch C v c n"
| "encode_request C (VtabColumn v c n) = encode_vtab_column C v c n"
| "encode_request C (VtabUpdate v i as) = encode_vtab_update C v i as"
| "encode_request C (VtabRename v i n) = encode_vtab_rename C v i n"
| "encode_request C (VtabSavepoint v i n) = encode_vtab_savepoint C v i n"
| "encode_request C (VtabShadowName v n) = encode_vtab_shadow_name C v n"
| "encode_request C (VtabIntegrity v i s t m) = encode_vtab_integrity C v i s t m"
| "encode_request C (Authorize a x y d t) = encode_authorize C a x y d t"
| "encode_request C (HookUpdate p d t r) = encode_hook_update C p d t r"
| "encode_request C (HookWal h d n) = encode_hook_wal C h d n"
| "encode_request C (VtabBestIndex v i cs bs u) = encode_vtab_best_index C v i cs bs u"
| "encode_request C (DotInvoke f a i d b) = encode_dot_invoke C f a i d b"

lemmas encode_defs = encode_call_def encode_collation_compare_def encode_agg_step_def encode_agg_ctx_def encode_vtab_connect_def
  encode_vtab_instance_def encode_vtab_open_def encode_vtab_cursor_def encode_vtab_filter_def encode_vtab_fetch_batch_def
  encode_vtab_column_def encode_vtab_update_def encode_vtab_rename_def encode_vtab_savepoint_def encode_vtab_shadow_name_def
  encode_vtab_integrity_def encode_authorize_def encode_hook_update_def encode_hook_wal_def encode_vtab_best_index_def
  encode_dot_invoke_def Let_def

definition request_args :: "request \<Rightarrow> sqlvalue list" where
  "request_args r =
     (case r of Call _ as \<Rightarrow> as | AggStep _ _ as \<Rightarrow> as | VtabFilter _ _ _ _ as \<Rightarrow> as | VtabUpdate _ _ as \<Rightarrow> as | _ \<Rightarrow> [])"

text \<open>The tree of a request: what its encoder hands to the writer.\<close>

definition tree_codec :: "cbor codec" where
  "tree_codec = \<lparr>ser = Inr, deser = Inr\<rparr>"

definition request_tree :: "request \<Rightarrow> cbor" where
  "request_tree r = projr (encode_request tree_codec r)"

lemma encode_request_tree: "encode_request C r = ser C (request_tree r)"
  by (cases r) (simp_all add: request_tree_def tree_codec_def encode_defs)

lemma request_tree_simps:
  "request_tree r = projr (encode_request \<lparr>ser = Inr, deser = Inr\<rparr> r)"
  by (simp add: request_tree_def tree_codec_def)

lemma wire_ok_request:
  "list_all (\<lambda>v. \<not> nan_value v) (request_args r) \<Longrightarrow> wire_ok (Suc (Suc (Suc (Suc (Suc d))))) (request_tree r)"
  by (cases r) (auto simp: request_tree_simps encode_defs cbor_map_def request_args_def args_cbor_def list_all_iff wire_ok_value)

lemma constraints_inj:
  "map (\<lambda>(col, op, usable). CMap [(CText ''column'', CInteger (sint (col :: i32))), (CText ''op'', CText op), (CText ''usable'', CBool usable)]) xs =
   map (\<lambda>(col, op, usable). CMap [(CText ''column'', CInteger (sint col)), (CText ''op'', CText op), (CText ''usable'', CBool usable)]) ys
   \<longleftrightarrow> xs = ys"
  by (intro inj_map_eq_map) (auto simp: inj_def)

lemma orderbys_inj:
  "map (\<lambda>(col, desc). CMap [(CText ''column'', CInteger (sint (col :: i32))), (CText ''desc'', CBool desc)]) xs =
   map (\<lambda>(col, desc). CMap [(CText ''column'', CInteger (sint col)), (CText ''desc'', CBool desc)]) ys
   \<longleftrightarrow> xs = ys"
  by (intro inj_map_eq_map) (auto simp: inj_def)

lemma texts_inj: "map CText xs = map CText ys \<longleftrightarrow> xs = ys"
  by (intro inj_map_eq_map) (auto simp: inj_def)

lemma call_args_inj: "map sqlval_to_cbor xs = map sqlval_to_cbor ys \<longleftrightarrow> xs = ys"
  by (intro inj_map_eq_map) (auto simp: inj_def sqlval_to_cbor_inj)

text \<open>The keys of a message name its kind: two requests of different kinds never have the same keys with the
  same kinds of values.\<close>

lemma request_tree_inj: "request_tree r = request_tree s \<Longrightarrow> r = s"
  by (cases r; cases s)
    (simp_all add: request_tree_simps encode_defs cbor_map_def args_cbor_inj opt_text_inj texts_inj call_args_inj
      constraints_inj orderbys_inj args_cbor_def)

section \<open>Theorems\<close>

lemma deser_ser: "codec_ok C \<Longrightarrow> wire_ok 16 v \<Longrightarrow> ser C v = Inr b \<Longrightarrow> deser C b = Inr v"
  unfolding codec_ok_def by blast

text \<open>C31. What a provider sends is what the host reads: null, integer, real, text and blob values come back
  unchanged (every integer of 64 bits, signed), a blob also when it is sent as an array of integers, and a
  batch of rows with its row ids and columns in order. A wit-value can be sent but not read back: the host
  refuses the answer.\<close>

theorem envelope_value_roundtrip:
  assumes C: "codec_ok C"
  shows "(\<forall>v b. plain_value v \<and> \<not> nan_value v \<and> ser C (sqlval_to_cbor v) = Inr b \<longrightarrow> decode_sql_value C b = Inr v) \<and>
    (\<forall>bs b. ser C (tagged ''blob'' (CArray (map (\<lambda>x. CInteger (uint (x :: byte))) bs))) = Inr b \<longrightarrow> decode_sql_value C b = Inr (SqlBlob bs)) \<and>
    (\<forall>rows b. list_all plain_row rows \<and> list_all (\<lambda>row. list_all (\<lambda>v. \<not> nan_value v) (snd row)) rows \<and>
        ser C (CArray (map row_to_cbor rows)) = Inr b \<longrightarrow> decode_vtab_rows C b = Inr rows) \<and>
    (\<forall>p b. ser C (sqlval_to_cbor (SqlWitValue p)) = Inr b \<longrightarrow> decode_sql_value C b = Inl ''unsupported SqlValue tag witvalue'')"
proof (intro conjI allI impI; (elim conjE)?)
  fix v b assume v: "plain_value v" "\<not> nan_value v" "ser C (sqlval_to_cbor v) = Inr b"
  from v(2) have "wire_ok 16 (sqlval_to_cbor v)" unfolding sixteen by (rule wire_ok_value)
  with v show "decode_sql_value C b = Inr v" unfolding decode_sql_value_def by (intro wire_value.via_bytes [OF C])
next
  fix bs :: bytes and b assume b: "ser C (tagged ''blob'' (CArray (map (\<lambda>x. CInteger (uint x)) bs))) = Inr b"
  have "wire_ok (Suc (Suc d)) (tagged ''blob'' (CArray (map (\<lambda>x. CInteger (uint x)) bs)))" for d
    by (simp add: tagged_def list_all_iff)
  from deser_ser [OF C this [of 14, simplified] b] show "decode_sql_value C b = Inr (SqlBlob bs)"
    by (simp add: decode_sql_value_def cbor_to_sqlval_def tagged_def cbor_reads comp_def)
next
  fix rows b
  assume rows: "list_all plain_row rows" "list_all (\<lambda>row. list_all (\<lambda>v. \<not> nan_value v) (snd row)) rows"
    "ser C (CArray (map row_to_cbor rows)) = Inr b"
  from rows(2) have "wire_ok 16 (CArray (map row_to_cbor rows))"
    unfolding sixteen wire_ok.simps list.pred_map comp_def by (rule list.pred_mono_strong) (rule wire_ok_row)
  with rows show "decode_vtab_rows C b = Inr rows" unfolding decode_vtab_rows_def by (intro wire_row.list_via_bytes [OF C])
next
  fix p b assume p: "ser C (sqlval_to_cbor (SqlWitValue p)) = Inr b"
  have "wire_ok 16 (sqlval_to_cbor (SqlWitValue p))" unfolding sixteen by (rule wire_ok_value) (simp add: nan_value_def)
  from deser_ser [OF C this p] show "decode_sql_value C b = Inl ''unsupported SqlValue tag witvalue''"
    by (simp add: decode_sql_value_def cbor_to_sqlval_def tagged_def cbor_reads)
qed

text \<open>A writer and reader that know one message.\<close>

definition one_message :: "cbor \<Rightarrow> bytes codec" where
  "one_message m = \<lparr>ser = (\<lambda>v. if v = m then Inr [1] else Inl ''unsupported''),
     deser = (\<lambda>b. if b = [1] then Inr m else Inl ''eof'')\<rparr>"

lemma one_message_ok: "codec_ok (one_message m)"
  by (simp add: codec_ok_def one_message_def)

theorem envelope_value_roundtrip_witness:
  "decode_sql_value (one_message (sqlval_to_cbor (SqlInteger (- 5)))) [1] = Inr (SqlInteger (- 5))"
proof -
  let ?v = "SqlInteger (- 5)"
  have "plain_value ?v \<and> \<not> nan_value ?v \<and> ser (one_message (sqlval_to_cbor ?v)) (sqlval_to_cbor ?v) = Inr [1]"
    by (simp add: plain_value_def nan_value_def one_message_def)
  with envelope_value_roundtrip [OF one_message_ok] show ?thesis by blast
qed

text \<open>C32. A request is determined by its bytes: whatever two requests the host encodes, of the same kind or of
  different kinds, equal messages mean equal requests, with the same ids, names, arguments and flags. No
  provider can mistake one for the other.\<close>

theorem request_bytes_determine_request:
  assumes "codec_ok C" "encode_request C r = Inr b" "encode_request C s = Inr b"
    and "list_all (\<lambda>v. \<not> nan_value v) (request_args r)" "list_all (\<lambda>v. \<not> nan_value v) (request_args s)"
  shows "r = s"
proof -
  have "wire_ok 16 (request_tree q)" if "list_all (\<lambda>v. \<not> nan_value v) (request_args q)" for q
    unfolding sixteen using that by (rule wire_ok_request)
  with assms have "Inr (request_tree r) = (Inr (request_tree s) :: string + cbor)"
    by (metis deser_ser encode_request_tree)
  then show ?thesis using request_tree_inj by blast
qed

theorem request_bytes_determine_request_witness:
  "encode_request (one_message (request_tree (Call 7 [SqlText ''a'']))) (Call 7 [SqlText ''a'']) = Inr [1] \<and>
   encode_request (one_message (request_tree (Call 7 [SqlText ''a'']))) (Call 8 [SqlText ''a'']) \<noteq> Inr [1]"
proof
  let ?C = "one_message (request_tree (Call 7 [SqlText ''a'']))"
  show seven: "encode_request ?C (Call 7 [SqlText ''a'']) = Inr [1]" by (subst encode_request_tree) (simp add: one_message_def)
  have args: "list_all (\<lambda>v. \<not> nan_value v) (request_args (Call n [SqlText ''a'']))" for n
    by (simp add: request_args_def nan_value_def)
  show "encode_request ?C (Call 8 [SqlText ''a'']) \<noteq> Inr [1]"
  proof
    assume "encode_request ?C (Call 8 [SqlText ''a'']) = Inr [1]"
    from request_bytes_determine_request [OF one_message_ok seven this args args] show False by simp
  qed
qed

section \<open>Reading a manifest\<close>

text \<open>The manifest a provider describes, and its message: the documented keys, in any company of further ones
  that do not repeat them.\<close>

record provider_desc =
  d_name :: string
  d_version :: string
  d_scalars :: "(string \<times> u64 \<times> i32 \<times> scalar_flags) list"
  d_collations :: "(string \<times> u64) list"
  d_aggregates :: "agg_spec list"
  d_vtabs :: "vtab_spec_e list"
  d_dots :: "dot_spec_e list"
  d_hooks :: "bool \<times> bool \<times> bool \<times> bool"
  d_wal_hook_id :: u64
  d_capabilities :: "string list"

definition scalar_tree :: "string \<times> u64 \<times> i32 \<times> scalar_flags \<Rightarrow> cbor" where
  "scalar_tree = (\<lambda>(n, i, a, f). cbor_map [(''id'', CInteger (uint i)), (''name'', CText n), (''num_args'', CInteger (sint a)),
     (''deterministic'', CBool (deterministic f)), (''direct_only'', CBool (direct_only f)), (''innocuous'', CBool (innocuous f))])"

definition collation_tree :: "string \<times> u64 \<Rightarrow> cbor" where
  "collation_tree = (\<lambda>(n, i). cbor_map [(''id'', CInteger (uint i)), (''name'', CText n)])"

definition agg_tree :: "agg_spec \<Rightarrow> cbor" where
  "agg_tree a = cbor_map [(''id'', CInteger (uint (as_id a))), (''name'', CText (as_name a)),
     (''num_args'', CInteger (sint (as_num_args a))), (''is_window'', CBool (as_is_window a))]"

definition vtab_tree :: "vtab_spec_e \<Rightarrow> cbor" where
  "vtab_tree v = cbor_map [(''id'', CInteger (uint (vs_id v))), (''name'', CText (vs_name v)),
     (''eponymous'', CBool (vs_eponymous v)), (''mutable'', CBool (vs_mutable v)), (''batched'', CBool (vs_batched v))]"

definition dot_tree :: "dot_spec_e \<Rightarrow> cbor" where
  "dot_tree d = cbor_map [(''id'', CInteger (uint (ds_id d))), (''name'', CText (ds_name d)), (''version'', CText (ds_version d)),
     (''summary'', CText (ds_summary d)), (''usage'', CText (ds_usage d)), (''requires_write'', CBool (ds_requires_write d)),
     (''no_args'', CBool (ds_no_args d))]"

definition manifest_tree :: "provider_desc \<Rightarrow> (string \<times> cbor) list \<Rightarrow> cbor" where
  "manifest_tree d extra =
     (case d_hooks d of (auth, upd, com, wal) \<Rightarrow>
      cbor_map ([(''name'', CText (d_name d)), (''version'', CText (d_version d)), (''scalars'', CArray (map scalar_tree (d_scalars d))),
        (''collations'', CArray (map collation_tree (d_collations d))), (''aggregates'', CArray (map agg_tree (d_aggregates d))),
        (''vtabs'', CArray (map vtab_tree (d_vtabs d))), (''dot_commands'', CArray (map dot_tree (d_dots d))),
        (''has_authorizer'', CBool auth), (''has_update_hook'', CBool upd), (''has_commit_hook'', CBool com),
        (''has_wal_hook'', CBool wal), (''wal_hook_id'', CInteger (uint (d_wal_hook_id d))),
        (''declared_capabilities'', CArray (map CText (d_capabilities d)))] @ extra))"

text \<open>What the host should hold for it.\<close>

definition expected_manifest :: "provider_desc \<Rightarrow> provider_manifest" where
  "expected_manifest d =
     (case d_hooks d of (auth, upd, com, wal) \<Rightarrow>
      \<lparr>pm_name = d_name d, pm_version = d_version d, pm_scalar_specs = map (\<lambda>(n, i, a, f). (n, i, a)) (d_scalars d),
       pm_scalar_flags = map_of (rev (map (\<lambda>(n, i, a, f). (i, f)) (d_scalars d))),
       pm_collations = d_collations d, pm_aggregates = map (\<lambda>a. (as_name a, as_id a)) (d_aggregates d),
       pm_has_vtab = (d_vtabs d \<noteq> []), pm_has_any_hook = (auth \<or> upd \<or> com \<or> wal),
       pm_aggregate_specs = d_aggregates d, pm_vtab_specs = d_vtabs d, pm_dotcmd_specs = d_dots d,
       pm_has_authorizer = auth, pm_has_update_hook = upd, pm_has_commit_hook = com, pm_has_wal_hook = wal,
       pm_wal_hook_id = d_wal_hook_id d, pm_declared_capabilities = d_capabilities d\<rparr>)"

lemma cbor_field_map [simp]: "cbor_field (cbor_map ((k, v) # ps)) key = (if k = key then Some v else cbor_field (cbor_map ps) key)"
  by (simp add: cbor_field_def cbor_map_def)

lemma field_or_map [simp]: "field_or (cbor_map ((k, v) # ps)) key f x = (if k = key then f v else field_or (cbor_map ps) key f x)"
  by (simp add: field_or_def)

lemma cbor_read_simps [simp]:
  "cbor_text (CText s) = s" "cbor_int (CInteger i) = i" "is_true (CBool t) = t" "cbor_arr (CArray xs) = xs"
  by (simp_all add: cbor_text_def cbor_int_def is_true_def cbor_arr_def)

lemma collect_map_of: "collect_map ps = map_of (rev ps)"
proof -
  have "foldl (\<lambda>m (k, v). m(k \<mapsto> v)) m ps = m ++ map_of (rev ps)" for m
    by (induction ps arbitrary: m) (auto simp: map_add_assoc)
  then show ?thesis by (simp add: collect_map_def)
qed

lemma map_filter_all: "(\<And>x. f (g x) = Some (h x)) \<Longrightarrow> List.map_filter f (map g xs) = map h xs"
  by (induction xs) (simp_all add: List.map_filter_simps)

lemma spec_eta:
  "\<lparr>deterministic = deterministic f, direct_only = direct_only f, innocuous = innocuous f\<rparr> = f"
  "\<lparr>as_id = as_id a, as_name = as_name a, as_num_args = as_num_args a, as_is_window = as_is_window a\<rparr> = a"
  "\<lparr>vs_id = vs_id v, vs_name = vs_name v, vs_eponymous = vs_eponymous v, vs_mutable = vs_mutable v, vs_batched = vs_batched v\<rparr> = v"
  "\<lparr>ds_id = ds_id d, ds_name = ds_name d, ds_version = ds_version d, ds_summary = ds_summary d, ds_usage = ds_usage d,
     ds_requires_write = ds_requires_write d, ds_no_args = ds_no_args d\<rparr> = d"
  by simp_all

lemma read_specs:
  "scalar_specs (CArray (map scalar_tree ss)) = map (\<lambda>(n, i, a, f). (n, i, a)) ss"
  "scalar_flags_of (CArray (map scalar_tree ss)) = map_of (rev (map (\<lambda>(n, i, a, f). (i, f)) ss))"
  "id_name_pairs (CArray (map collation_tree cs)) = cs"
  "id_name_pairs (CArray (map agg_tree as)) = map (\<lambda>a. (as_name a, as_id a)) as"
  "agg_specs (CArray (map agg_tree as)) = as"
  "vtab_specs (CArray (map vtab_tree vs)) = vs"
  "dot_specs (CArray (map dot_tree ds)) = ds"
  by (simp_all add: scalar_specs_def scalar_flags_of_def id_name_pairs_def agg_specs_def vtab_specs_def dot_specs_def
      scalar_tree_def collation_tree_def agg_tree_def vtab_tree_def dot_tree_def collect_map_of map_filter_all split_def spec_eta)

lemma read_manifest:
  "deser C b = Inr (manifest_tree d extra) \<Longrightarrow> decode_manifest C b = Inr (expected_manifest d)"
  by (simp add: decode_manifest_def manifest_tree_def expected_manifest_def read_specs comp_def split: prod.splits)

lemma wire_ok_maps: "list_all (\<lambda>p. wire_ok d (snd p)) ps \<Longrightarrow> wire_ok (Suc d) (cbor_map ps)"
  by (auto simp: cbor_map_def list_all_iff)

lemma wire_ok_specs:
  "wire_ok (Suc (Suc d)) (CArray (map scalar_tree ss))" "wire_ok (Suc (Suc d)) (CArray (map collation_tree cs))"
  "wire_ok (Suc (Suc d)) (CArray (map agg_tree as))" "wire_ok (Suc (Suc d)) (CArray (map vtab_tree vs))"
  "wire_ok (Suc (Suc d)) (CArray (map dot_tree ds))" "wire_ok (Suc (Suc d)) (CArray (map CText ts))"
  by (auto simp: list_all_iff cbor_map_def scalar_tree_def collation_tree_def agg_tree_def vtab_tree_def dot_tree_def)

lemma wire_ok_manifest:
  "list_all (\<lambda>p. wire_ok (Suc (Suc d)) (snd p)) extra \<Longrightarrow> wire_ok (Suc (Suc (Suc d))) (manifest_tree desc extra)"
  unfolding manifest_tree_def
  by (cases "d_hooks desc") (simp del: wire_ok.simps(3,5) add: wire_ok_maps wire_ok_specs)

text \<open>C40. A manifest is read exactly: every scalar with its id, arity and flags, every collation, aggregate,
  virtual table, dot command, hook and capability the provider describes is what the host holds, in order,
  and nothing else; further keys the host does not know are ignored. The flags of a function id are those
  of its last entry.\<close>

theorem manifest_read_exactly:
  assumes C: "codec_ok C" and b: "ser C (manifest_tree d extra) = Inr b"
    and extra: "list_all (\<lambda>p. wire_ok 15 (snd p)) extra"
  shows "decode_manifest C b = Inr (expected_manifest d)"
proof -
  have "wire_ok (Suc (Suc (Suc 13))) (manifest_tree d extra)" using extra by (intro wire_ok_manifest) simp
  then have "wire_ok 16 (manifest_tree d extra)" by simp
  from deser_ser [OF C this b] show ?thesis by (rule read_manifest)
qed

definition uuid_desc :: provider_desc where
  "uuid_desc = \<lparr>d_name = ''uuid'', d_version = ''1.0'',
     d_scalars = [(''uuid4'', 1, 0, \<lparr>deterministic = False, direct_only = False, innocuous = True\<rparr>),
       (''uuid_str'', 2, 1, \<lparr>deterministic = True, direct_only = False, innocuous = True\<rparr>)],
     d_collations = [], d_aggregates = [], d_vtabs = [], d_dots = [], d_hooks = (False, False, False, False),
     d_wal_hook_id = 0, d_capabilities = [''random'']\<rparr>"

theorem manifest_read_exactly_witness:
  "decode_manifest (one_message (manifest_tree uuid_desc [(''author'', CText ''x'')])) [1] = Inr (expected_manifest uuid_desc) \<and>
   pm_scalar_flags (expected_manifest uuid_desc) 1 = Some \<lparr>deterministic = False, direct_only = False, innocuous = True\<rparr>"
proof
  show "decode_manifest (one_message (manifest_tree uuid_desc [(''author'', CText ''x'')])) [1] = Inr (expected_manifest uuid_desc)"
    by (rule manifest_read_exactly [OF one_message_ok, where extra = "[(''author'', CText ''x'')]"]) (simp_all add: one_message_def)
qed (simp add: expected_manifest_def uuid_desc_def)

text \<open>A missing or ill-typed flag never makes a function deterministic: SQLite may cache a deterministic
  function's result, so the default has to be false.\<close>

lemma deterministic_only_when_declared:
  assumes "decode_manifest C b = Inr m" "pm_scalar_flags m i = Some f" "deterministic f"
  shows "\<exists>v ss e. deser C b = Inr v \<and> cbor_field v ''scalars'' = Some ss \<and> e \<in> set (cbor_arr ss) \<and>
    cbor_field e ''deterministic'' = Some (CBool True)"
proof -
  obtain v where v: "deser C b = Inr v" "pm_scalar_flags m = field_or v ''scalars'' scalar_flags_of Map.empty"
    using assms(1) unfolding decode_manifest_def sbind_eq_Inr_iff by auto
  with assms(2) obtain ss where ss: "cbor_field v ''scalars'' = Some ss" "scalar_flags_of ss i = Some f"
    by (cases "cbor_field v ''scalars''") (simp_all add: field_or_def)
  from ss(2) obtain e where e: "e \<in> set (cbor_arr ss)" "f = \<lparr>deterministic = field_or e ''deterministic'' is_true False,
      direct_only = field_or e ''direct_only'' is_true False, innocuous = field_or e ''innocuous'' is_true False\<rparr>"
    unfolding scalar_flags_of_def collect_map_of by (auto dest!: map_of_SomeD simp: List.map_filter_def split: option.splits)
  then have "field_or e ''deterministic'' is_true False" using assms(3) by simp
  then have "cbor_field e ''deterministic'' = Some (CBool True)"
    by (cases "cbor_field e ''deterministic''") (simp_all add: field_or_def is_true_def)
  with v(1) ss(1) e(1) show ?thesis by blast
qed

end
