(* ===== verification/Host_Security.thy ===== *)
theory Host_Security
  imports Host_Cache Provider_Envelope
begin

text \<open>
  The gates of the host (\<open>host/src/lib.rs\<close>): the policy an operator grants by default, the checks in front
  of an outbound HTTP or DNS request, the trust policy that a provider component has to pass before it is
  registered for a tenant, the search for the artifact of a bare extension name, and the names under which
  the authorizer's actions are sent to a provider.

  Parameters: the constructors and checks of the policy crate, the environment and the file system, the
  Ed25519 verifier, the digest and the compiler.
\<close>

section \<open>Policies\<close>

definition operator_allowlist :: "(string \<Rightarrow> string option) \<Rightarrow> string \<Rightarrow> string list" where
  "operator_allowlist env var =
     (case map_option trim (env var) of
        Some spec \<Rightarrow>
          if spec \<noteq> [] \<and> spec \<noteq> ''*'' then filter (\<lambda>s. s \<noteq> []) (map trim (split_on (CHR '','') spec))
          else [''*.'']
      | None \<Rightarrow> [''*.''])"

definition default_operator_policy :: "'p policy_api \<Rightarrow> (string \<Rightarrow> string option) \<Rightarrow> 'p" where
  "default_operator_policy P env =
     with_dns P
       (with_http P
         (with_grants P (deny_all P)
           [Random, Hashing, Encoding, Text, Cache, State, Spi, Prepared, Schema, Transaction, Http, Dns, S3])
         \<lparr>allowed_hosts = operator_allowlist env ''SQLINK_ALLOW_HTTP'', allowed_methods = None, max_body_bytes = None,
          http_timeout_ms = None\<rparr>)
       \<lparr>allowed_domains = operator_allowlist env ''SQLINK_ALLOW_DNS'', dns_timeout_ms = None\<rparr>"

text \<open>The checks of the policy crate, and the HTTP client's reading of a method that is not a standard one.\<close>

record policy_checks =
  check_host :: "http_policy \<Rightarrow> string \<Rightarrow> string + unit"
  check_method :: "http_policy \<Rightarrow> string \<Rightarrow> string + unit"
  check_domain :: "dns_policy \<Rightarrow> string \<Rightarrow> string + unit"
  method_from_bytes :: "string \<Rightarrow> string + string"

definition map_error :: "('e \<Rightarrow> 'f) \<Rightarrow> 'e + 'a \<Rightarrow> 'f + 'a" where
  "map_error f r = (case r of Inl e \<Rightarrow> Inl (f e) | Inr x \<Rightarrow> Inr x)"

definition check_http_policy :: "policy_checks \<Rightarrow> http_policy option \<Rightarrow> string \<Rightarrow> string \<Rightarrow> string + unit" where
  "check_http_policy K policy authority verb =
     (case policy of
        None \<Rightarrow> Inl ''http policy denied: extension was not granted any http policy at load time''
      | Some p \<Rightarrow>
          let host_only = hd (split_on (CHR '':'') authority) in
          sbind (map_error (\<lambda>e. ''http policy denied: '' @ e) (check_host K p host_only)) (\<lambda>_.
          map_error (\<lambda>e. ''http policy denied: '' @ e) (check_method K p verb)))"

definition check_dns_policy :: "policy_checks \<Rightarrow> dns_policy option \<Rightarrow> string \<Rightarrow> string + unit" where
  "check_dns_policy K policy name =
     (case policy of
        None \<Rightarrow> Inl ''dns policy denied: extension was not granted any dns policy at load time''
      | Some p \<Rightarrow> map_error (\<lambda>e. ''dns policy denied: '' @ e) (check_domain K p name))"

text \<open>The head of \<open>net_http_handle\<close>: the method and URL that are requested once the gate lets them pass.\<close>

datatype scheme = SchemeHttp | SchemeHttps | SchemeOther string

datatype http_method = MGet | MHead | MPost | MPut | MDelete | MConnect | MOptions | MTrace | MPatch | MOther string

datatype http_error = InvalidUrl string | TimedOut | ConnectionError string | ProtocolError string | HttpOther string

definition method_name :: "policy_checks \<Rightarrow> http_method \<Rightarrow> http_error + string" where
  "method_name K meth =
     (case meth of
        MGet \<Rightarrow> Inr ''GET'' | MHead \<Rightarrow> Inr ''HEAD'' | MPost \<Rightarrow> Inr ''POST'' | MPut \<Rightarrow> Inr ''PUT'' | MDelete \<Rightarrow> Inr ''DELETE''
      | MConnect \<Rightarrow> Inr ''CONNECT'' | MOptions \<Rightarrow> Inr ''OPTIONS'' | MTrace \<Rightarrow> Inr ''TRACE'' | MPatch \<Rightarrow> Inr ''PATCH''
      | MOther s \<Rightarrow> map_error HttpOther (method_from_bytes K s))"

definition http_url :: "policy_checks \<Rightarrow> http_policy option \<Rightarrow> scheme option \<Rightarrow> string option \<Rightarrow> string option \<Rightarrow> http_method \<Rightarrow>
    http_error + string \<times> string" where
  "http_url K policy sch authority path_q meth =
     sbind (case (case sch of None \<Rightarrow> SchemeHttps | Some s \<Rightarrow> s) of
        SchemeHttp \<Rightarrow> Inr ''http''
      | SchemeHttps \<Rightarrow> Inr ''https''
      | SchemeOther s \<Rightarrow> Inl (InvalidUrl (''unsupported scheme '' @ s))) (\<lambda>scheme_str.
     sbind (case authority of None \<Rightarrow> Inl (InvalidUrl ''missing authority'') | Some a \<Rightarrow> Inr a) (\<lambda>auth.
     let url = scheme_str @ ''://'' @ auth @ (case path_q of None \<Rightarrow> ''/'' | Some q \<Rightarrow> q) in
     sbind (method_name K meth) (\<lambda>verb.
     sbind (map_error HttpOther (check_http_policy K policy auth verb)) (\<lambda>_. Inr (verb, url)))))"

section \<open>Trusted providers\<close>

datatype trust_policy =
    AllowAll
  | DigestAllowlist "string list"
  | DenyAll
  | Ed25519Signed "bytes list"

datatype trust_denial =
    AllDenied string
  | NotInAllowlist string string
  | NeedsBytes string

definition trust_verify :: "trust_policy \<Rightarrow> string \<Rightarrow> string \<Rightarrow> trust_denial + unit" where
  "trust_verify policy ident digest =
     (case policy of
        AllowAll \<Rightarrow> Inr ()
      | DenyAll \<Rightarrow> Inl (AllDenied ident)
      | DigestAllowlist ds \<Rightarrow> if digest \<in> set ds then Inr () else Inl (NotInAllowlist ident digest)
      | Ed25519Signed _ \<Rightarrow> Inl (NeedsBytes ident))"

record 'p provider_env =
  read_file :: "string \<Rightarrow> string + bytes"
  verify_ed25519 :: "bytes \<Rightarrow> bytes \<Rightarrow> bytes \<Rightarrow> string + bool"
  blake3_hex :: "bytes \<Rightarrow> string"
  compile_provider :: "bytes \<Rightarrow> string \<Rightarrow> string + 'p"
  inside_runtime :: bool

datatype register_error =
    ReadFailed string string
  | SignatureLength string nat
  | VerifierFailed string
  | NoAnchorMatches string
  | TrustDenied trust_denial
  | NotCompiled string
  | NeedsAsync string

definition sig_sidecar_path :: "string \<Rightarrow> string" where
  "sig_sidecar_path p = p @ ''.sig''"

fun verify_against_anchors :: "'p provider_env \<Rightarrow> bytes list \<Rightarrow> bytes \<Rightarrow> bytes \<Rightarrow> string + bool" where
  "verify_against_anchors E [] b sig = Inr False"
| "verify_against_anchors E (a # as) b sig =
     sbind (verify_ed25519 E a b sig) (\<lambda>ok. if ok then Inr True else verify_against_anchors E as b sig)"

record 'p provider_state =
  trust :: trust_policy
  compose_providers :: "string \<rightharpoonup> string \<rightharpoonup> 'p"

type_synonym ('p, 'a) provider_op = "(register_error, 'p provider_state, 'a) op"

definition set_trust_policy :: "trust_policy \<Rightarrow> 'p provider_state \<Rightarrow> 'p provider_state" where
  "set_trust_policy policy s = s\<lparr>trust := policy\<rparr>"

definition register_compose_provider_in :: "string \<Rightarrow> string \<Rightarrow> 'p \<Rightarrow> 'p provider_state \<Rightarrow> 'p provider_state" where
  "register_compose_provider_in tenant ident p s =
     s\<lparr>compose_providers := (compose_providers s)(tenant \<mapsto>
       (case compose_providers s tenant of None \<Rightarrow> Map.empty | Some inner \<Rightarrow> inner)(ident \<mapsto> p))\<rparr>"

definition get_compose_provider_in :: "string \<Rightarrow> string \<Rightarrow> 'p provider_state \<Rightarrow> 'p option" where
  "get_compose_provider_in tenant ident s =
     (case compose_providers s tenant of None \<Rightarrow> None | Some inner \<Rightarrow> inner ident)"

definition DEFAULT_TENANT :: string where
  "DEFAULT_TENANT = ''default''"

definition get_compose_provider :: "string \<Rightarrow> 'p provider_state \<Rightarrow> 'p option" where
  "get_compose_provider ident s = get_compose_provider_in DEFAULT_TENANT ident s"

definition check_signature :: "'p provider_env \<Rightarrow> bytes list \<Rightarrow> string \<Rightarrow> string \<Rightarrow> bytes \<Rightarrow> register_error + unit" where
  "check_signature E anchors ident path b =
     (let sig_path = sig_sidecar_path path in
      sbind (map_error (ReadFailed sig_path) (read_file E sig_path)) (\<lambda>sig.
      if length sig \<noteq> 64 then Inl (SignatureLength sig_path (length sig))
      else sbind (map_error VerifierFailed (verify_against_anchors E anchors b sig)) (\<lambda>ok.
        if ok then Inr () else Inl (NoAnchorMatches ident))))"

definition register_wasm_provider_in_async :: "'p provider_env \<Rightarrow> string \<Rightarrow> string \<Rightarrow> string \<Rightarrow> ('p, unit) provider_op" where
  "register_wasm_provider_in_async E tenant ident path =
     bnd (query (\<lambda>s. map_error (ReadFailed path) (read_file E path))) (\<lambda>b.
     bnd (query (\<lambda>s. case trust s of
            Ed25519Signed anchors \<Rightarrow> check_signature E anchors ident path b
          | other \<Rightarrow> map_error TrustDenied (trust_verify other ident (blake3_hex E b)))) (\<lambda>_.
     bnd (query (\<lambda>s. map_error NotCompiled (compile_provider E b path))) (\<lambda>p s.
     (Inr (), register_compose_provider_in tenant ident p s))))"

definition register_wasm_provider_in :: "'p provider_env \<Rightarrow> string \<Rightarrow> string \<Rightarrow> string \<Rightarrow> ('p, unit) provider_op" where
  "register_wasm_provider_in E tenant ident path s =
     (let policy = trust s in
      case policy of
        Ed25519Signed _ \<Rightarrow>
          if inside_runtime E then (Inl (NeedsAsync ident), s)
          else register_wasm_provider_in_async E tenant ident path s
      | _ \<Rightarrow>
          bnd (query (\<lambda>s. map_error (ReadFailed path) (read_file E path))) (\<lambda>b.
          bnd (query (\<lambda>s. map_error TrustDenied (trust_verify policy ident (blake3_hex E b)))) (\<lambda>_.
          bnd (query (\<lambda>s. map_error NotCompiled (compile_provider E b path))) (\<lambda>p s.
          (Inr (), register_compose_provider_in tenant ident p s)))) s)"

definition register_wasm_provider :: "'p provider_env \<Rightarrow> string \<Rightarrow> string \<Rightarrow> ('p, unit) provider_op" where
  "register_wasm_provider E ident path = register_wasm_provider_in E DEFAULT_TENANT ident path"

section \<open>The artifact of a bare name\<close>

definition catalog_filenames :: "string \<Rightarrow> string list" where
  "catalog_filenames name =
     (let norm = map (\<lambda>ch. if ch = CHR ''-'' then CHR ''_'' else ch) name in
      [name @ ''-provider.wasm'', norm @ ''_provider.wasm'', norm @ ''_extension.component.wasm'', norm @ ''.component.wasm'',
       norm @ ''_extension.wasm'', norm @ ''.wasm''])"

definition catalog_dirs :: "(string \<Rightarrow> string option) \<Rightarrow> string option \<Rightarrow> string \<Rightarrow> string list" where
  "catalog_dirs env cwd name =
     (let root = (case env ''SQLINK_REPO_ROOT'' of Some r \<Rightarrow> r | None \<Rightarrow> (case cwd of Some d \<Rightarrow> d | None \<Rightarrow> [])) in
      (case env ''SQLINK_EXT_DIR'' of None \<Rightarrow> [] | Some v \<Rightarrow> filter (\<lambda>d. d \<noteq> []) (split_on (CHR '':'') v)) @
      [path_join root ''extensions/_shared-target/wasm32-wasip2/release'',
       path_join root ''target/wasm32-wasip2/release'',
       path_join root (''extensions/'' @ name @ ''/target/wasm32-wasip2/release'')])"

definition catalog_name :: "string \<Rightarrow> bool" where
  "catalog_name name \<longleftrightarrow> name \<noteq> [] \<and> CHR ''/'' \<notin> set name \<and> CHR 0x5C \<notin> set name \<and> CHR '':'' \<notin> set name \<and> CHR ''.'' \<notin> set name"

definition resolve_catalog_artifact :: "(string \<Rightarrow> string option) \<Rightarrow> string option \<Rightarrow> (string \<Rightarrow> bool) \<Rightarrow> string \<Rightarrow> string option" where
  "resolve_catalog_artifact env cwd is_file name =
     (if \<not> catalog_name name then None
      else List.find is_file (concat (map (\<lambda>d. map (path_join d) (catalog_filenames name)) (catalog_dirs env cwd name))))"

section \<open>Lemmas\<close>

lemma map_error_eq_Inr [simp]: "map_error f r = Inr x \<longleftrightarrow> r = Inr x"
  by (cases r) (simp_all add: map_error_def)

lemma find_first:
  "List.find P xs = Some x \<longleftrightarrow> (\<exists>ys zs. xs = ys @ x # zs \<and> P x \<and> (\<forall>y \<in> set ys. \<not> P y))"
proof (induction xs)
  case (Cons a xs)
  show ?case
  proof (cases "P a")
    case True
    then show ?thesis by (auto simp: Cons_eq_append_conv)
  next
    case False
    have "(\<exists>ys zs. a # xs = ys @ x # zs \<and> P x \<and> (\<forall>y \<in> set ys. \<not> P y)) \<longleftrightarrow>
      (\<exists>ys zs. xs = ys @ x # zs \<and> P x \<and> (\<forall>y \<in> set ys. \<not> P y))"
      using False by (auto simp: Cons_eq_append_conv) (metis list.set_intros(1) set_ConsD)
    with Cons False show ?thesis by simp
  qed
qed simp

text \<open>The host that a URL with this authority names: what follows the user information, up to the port.\<close>

definition authority_host :: "string \<Rightarrow> string" where
  "authority_host a = hd (split_on (CHR '':'') (last (split_on (CHR ''@'') a)))"

lemma authority_host_plain: "CHR ''@'' \<notin> set a \<Longrightarrow> authority_host a = hd (split_on (CHR '':'') a)"
  by (simp add: authority_host_def split_on_none)

text \<open>The anchors are asked in the order they are listed: the first one that accepts the signature settles the
  matter, and so does the first one whose verification fails with an error.\<close>

lemma anchors_accept_iff:
  "verify_against_anchors E as b sig = Inr True \<longleftrightarrow>
     (\<exists>earlier a later. as = earlier @ a # later \<and> verify_ed25519 E a b sig = Inr True \<and>
        (\<forall>x \<in> set earlier. verify_ed25519 E x b sig = Inr False))"
proof
  show "verify_against_anchors E as b sig = Inr True \<Longrightarrow> \<exists>earlier a later. as = earlier @ a # later \<and>
      verify_ed25519 E a b sig = Inr True \<and> (\<forall>x \<in> set earlier. verify_ed25519 E x b sig = Inr False)"
  proof (induction as)
    case (Cons x as)
    then obtain ok where ok: "verify_ed25519 E x b sig = Inr ok" by (cases "verify_ed25519 E x b sig") auto
    show ?case
    proof (cases ok)
      case True
      with ok have "x # as = [] @ x # as \<and> verify_ed25519 E x b sig = Inr True \<and> (\<forall>y \<in> set []. verify_ed25519 E y b sig = Inr False)"
        by simp
      then show ?thesis by blast
    next
      case False
      with ok Cons obtain earlier a later where "as = earlier @ a # later" "verify_ed25519 E a b sig = Inr True"
        "\<forall>x \<in> set earlier. verify_ed25519 E x b sig = Inr False" by auto
      with ok False show ?thesis by (intro exI [of _ "x # earlier"] exI [of _ a] exI [of _ later]) simp
    qed
  qed simp
next
  have "verify_against_anchors E (earlier @ a # later) b sig = Inr True"
    if "verify_ed25519 E a b sig = Inr True" "\<forall>x \<in> set earlier. verify_ed25519 E x b sig = Inr False" for earlier a later
    using that by (induction earlier) auto
  then show "\<exists>earlier a later. as = earlier @ a # later \<and> verify_ed25519 E a b sig = Inr True \<and>
      (\<forall>x \<in> set earlier. verify_ed25519 E x b sig = Inr False) \<Longrightarrow> verify_against_anchors E as b sig = Inr True" by blast
qed

lemma failing_anchor_hides_later: "verify_ed25519 E a b sig = Inl e \<Longrightarrow> verify_against_anchors E (a # as) b sig = Inl e"
  by simp

text \<open>What it takes for a trust policy to admit the bytes read from a path.\<close>

definition admits :: "'p provider_env \<Rightarrow> trust_policy \<Rightarrow> string \<Rightarrow> bytes \<Rightarrow> bool" where
  "admits E policy path b \<longleftrightarrow>
     (case policy of
        AllowAll \<Rightarrow> True
      | DenyAll \<Rightarrow> False
      | DigestAllowlist ds \<Rightarrow> blake3_hex E b \<in> set ds
      | Ed25519Signed anchors \<Rightarrow>
          \<exists>sig earlier a later. read_file E (path @ ''.sig'') = Inr sig \<and> length sig = 64 \<and> anchors = earlier @ a # later \<and>
            verify_ed25519 E a b sig = Inr True \<and> (\<forall>x \<in> set earlier. verify_ed25519 E x b sig = Inr False))"

lemma check_signature_iff:
  "check_signature E anchors ident path b = Inr () \<longleftrightarrow> admits E (Ed25519Signed anchors) path b"
proof (cases "read_file E (path @ ''.sig'')")
  case (Inl e)
  then show ?thesis by (simp add: check_signature_def sig_sidecar_path_def admits_def map_error_def)
next
  case (Inr sig)
  then show ?thesis
    using anchors_accept_iff [of E anchors b sig]
    by (cases "verify_against_anchors E anchors b sig") (auto simp: check_signature_def sig_sidecar_path_def admits_def map_error_def)
qed

lemma gate_iff:
  "(case policy of Ed25519Signed anchors \<Rightarrow> check_signature E anchors ident path b
    | other \<Rightarrow> map_error TrustDenied (trust_verify other ident (blake3_hex E b))) = Inr () \<longleftrightarrow> admits E policy path b"
  by (cases policy) (simp_all add: check_signature_iff trust_verify_def admits_def)

lemma register_async_iff:
  "register_wasm_provider_in_async E tenant ident path s = (Inr (), s') \<longleftrightarrow>
     (\<exists>b p. read_file E path = Inr b \<and> admits E (trust s) path b \<and> compile_provider E b path = Inr p \<and>
       s' = register_compose_provider_in tenant ident p s)"
proof -
  have "register_wasm_provider_in_async E tenant ident path s = (Inr (), s') \<longleftrightarrow>
     (\<exists>b. read_file E path = Inr b \<and>
       (case trust s of Ed25519Signed anchors \<Rightarrow> check_signature E anchors ident path b
        | other \<Rightarrow> map_error TrustDenied (trust_verify other ident (blake3_hex E b))) = Inr () \<and>
       (\<exists>p. compile_provider E b path = Inr p \<and> s' = register_compose_provider_in tenant ident p s))"
    unfolding register_wasm_provider_in_async_def bnd_eq_Inr_iff query_app by auto
  then show ?thesis unfolding gate_iff by blast
qed

lemma register_async_error: "register_wasm_provider_in_async E tenant ident path s = (Inl e, s') \<Longrightarrow> s' = s"
  unfolding register_wasm_provider_in_async_def by (auto simp: bnd_def split: sum.splits prod.splits)

lemma register_sync_async:
  "\<not> (\<exists>anchors. trust s = Ed25519Signed anchors) \<or> \<not> inside_runtime E \<Longrightarrow>
   register_wasm_provider_in E tenant ident path s = register_wasm_provider_in_async E tenant ident path s"
  unfolding register_wasm_provider_in_def register_wasm_provider_in_async_def
  by (cases "trust s"; cases "read_file E path") (auto simp: bnd_def map_error_def)

lemma get_registered:
  "get_compose_provider_in t i (register_compose_provider_in tenant ident p s) =
     (if t = tenant \<and> i = ident then Some p else get_compose_provider_in t i s)"
  by (auto simp: get_compose_provider_in_def register_compose_provider_in_def split: option.splits)

lemma trust_registered [simp]: "trust (register_compose_provider_in tenant ident p s) = trust s"
  by (simp add: register_compose_provider_in_def)

section \<open>Theorems\<close>

text \<open>A session registers providers one after the other, for any tenants.\<close>

definition run_registrations :: "'p provider_env \<Rightarrow> (string \<times> string \<times> string) list \<Rightarrow> 'p provider_state \<Rightarrow> 'p provider_state" where
  "run_registrations E rs s = foldl (\<lambda>s (tenant, ident, path). snd (register_wasm_provider_in_async E tenant ident path s)) s rs"

definition trusted_entry :: "'p provider_env \<Rightarrow> trust_policy \<Rightarrow> (string \<times> string \<times> string) list \<Rightarrow> string \<Rightarrow> string \<Rightarrow> 'p \<Rightarrow> bool" where
  "trusted_entry E policy rs tenant ident p \<longleftrightarrow>
     (\<exists>path b. (tenant, ident, path) \<in> set rs \<and> read_file E path = Inr b \<and> admits E policy path b \<and> compile_provider E b path = Inr p)"

lemma trusted_entry_mono: "trusted_entry E policy rs t i p \<Longrightarrow> set rs \<subseteq> set rs' \<Longrightarrow> trusted_entry E policy rs' t i p"
  by (auto simp: trusted_entry_def)

lemma register_step:
  assumes "register_wasm_provider_in_async E tenant ident path s = (r, s')"
  shows "trust s' = trust s \<and>
    (\<forall>t i p. get_compose_provider_in t i s' = Some p \<longrightarrow>
       get_compose_provider_in t i s = Some p \<or> trusted_entry E (trust s) [(tenant, ident, path)] t i p)"
proof (cases r)
  case (Inl e)
  with assms register_async_error show ?thesis by blast
next
  case (Inr u)
  with assms obtain b p where "read_file E path = Inr b" "admits E (trust s) path b" "compile_provider E b path = Inr p"
    "s' = register_compose_provider_in tenant ident p s" using register_async_iff by (metis old.unit.exhaust)
  then show ?thesis by (auto simp: get_registered trusted_entry_def)
qed

lemma run_registrations_inv:
  "trust (run_registrations E rs s) = trust s \<and>
   (\<forall>t i p. get_compose_provider_in t i (run_registrations E rs s) = Some p \<longrightarrow>
      get_compose_provider_in t i s = Some p \<or> trusted_entry E (trust s) rs t i p)"
proof (induction rs arbitrary: s)
  case Nil
  then show ?case by (simp add: run_registrations_def)
next
  case (Cons x rs)
  obtain tenant ident path where x: "x = (tenant, ident, path)" by (metis prod_cases3)
  obtain r s1 where s1: "register_wasm_provider_in_async E tenant ident path s = (r, s1)" by fastforce
  then have run: "run_registrations E (x # rs) s = run_registrations E rs s1" by (simp add: run_registrations_def x)
  show ?case
  proof (intro conjI allI impI)
    show "trust (run_registrations E (x # rs) s) = trust s" using run Cons [of s1] register_step [OF s1] by simp
  next
    fix t i p assume "get_compose_provider_in t i (run_registrations E (x # rs) s) = Some p"
    then consider "get_compose_provider_in t i s1 = Some p" | "trusted_entry E (trust s1) rs t i p" using run Cons [of s1] by auto
    then show "get_compose_provider_in t i s = Some p \<or> trusted_entry E (trust s) (x # rs) t i p"
    proof cases
      case 1
      with register_step [OF s1] show ?thesis using trusted_entry_mono [of E _ "[x]" t i p "x # rs"] x by auto
    next
      case 2
      with register_step [OF s1] show ?thesis using trusted_entry_mono [of E _ rs t i p "x # rs"] by auto
    qed
  qed
qed

text \<open>C8. Registering a provider goes through the trust policy. Starting without providers, after any sequence
  of \<open>register_wasm_provider_in_async\<close> calls for any tenants a provider can be resolved by a tenant only if
  that tenant registered it, from bytes the policy admits: any bytes under AllowAll, none under DenyAll, those
  with a listed digest, or those with a 64-byte signature beside them that one of the anchors accepts and that
  every anchor listed before it rejects (an earlier anchor whose verification fails with an error ends the
  registration). A registration the policy admits succeeds, is what the tenant then resolves, and changes no
  other entry; one it does not admit fails and changes nothing. Loading an extension registers the extension's
  own provider without consulting the policy and is not one of these calls.\<close>

theorem registered_providers_trusted:
  assumes "compose_providers s = Map.empty"
  shows "(\<forall>t i p. get_compose_provider_in t i (run_registrations E rs s) = Some p \<longrightarrow> trusted_entry E (trust s) rs t i p) \<and>
    (\<forall>tenant ident path b p s1. s1 = run_registrations E rs s \<and> read_file E path = Inr b \<and> compile_provider E b path = Inr p \<longrightarrow>
       (\<exists>r s2. register_wasm_provider_in_async E tenant ident path s1 = (r, s2) \<and>
          (if admits E (trust s) path b
           then r = Inr () \<and> (\<forall>t i. get_compose_provider_in t i s2 = (if t = tenant \<and> i = ident then Some p else get_compose_provider_in t i s1))
           else (\<exists>e. r = Inl e) \<and> s2 = s1)))"
proof (intro conjI allI impI)
  fix t i p assume "get_compose_provider_in t i (run_registrations E rs s) = Some p"
  then show "trusted_entry E (trust s) rs t i p"
    using run_registrations_inv [of E rs s] assms by (auto simp: get_compose_provider_in_def)
next
  fix tenant ident path b p s1
  assume a: "s1 = run_registrations E rs s \<and> read_file E path = Inr b \<and> compile_provider E b path = Inr p"
  then have tr: "trust s1 = trust s" using run_registrations_inv by blast
  obtain r s2 where reg: "register_wasm_provider_in_async E tenant ident path s1 = (r, s2)" by fastforce
  have ok: "r = Inr () \<longleftrightarrow> admits E (trust s) path b"
    using a reg tr register_async_iff [of E tenant ident path s1] by (metis Pair_inject sum.inject(2))
  then show "\<exists>r s2. register_wasm_provider_in_async E tenant ident path s1 = (r, s2) \<and>
      (if admits E (trust s) path b
       then r = Inr () \<and> (\<forall>t i. get_compose_provider_in t i s2 = (if t = tenant \<and> i = ident then Some p else get_compose_provider_in t i s1))
       else (\<exists>e. r = Inl e) \<and> s2 = s1)"
  proof (cases "admits E (trust s) path b")
    case True
    then have "s2 = register_compose_provider_in tenant ident p s1"
      using a reg ok register_async_iff [of E tenant ident path s1 s2] by auto
    with True ok reg show ?thesis by (auto simp: get_registered)
  next
    case False
    with ok obtain e where "r = Inl e" by (cases r) auto
    moreover from this reg have "s2 = s1" using register_async_error by blast
    ultimately show ?thesis using False reg by auto
  qed
qed

definition toy_provider_env :: "nat provider_env" where
  "toy_provider_env = \<lparr>read_file = (\<lambda>p. if p = ''a.wasm'' then Inr [1] else if p = ''b.wasm'' then Inr [2] else Inl ''no such file''),
     verify_ed25519 = (\<lambda>a b sig. Inr False), blake3_hex = (\<lambda>b. if b = [1] then ''aa'' else ''bb''),
     compile_provider = (\<lambda>b p. Inr (length p)), inside_runtime = False\<rparr>"

theorem registered_providers_trusted_witness:
  "let s = run_registrations toy_provider_env [(''x'', ''one'', ''a.wasm''), (''x'', ''two'', ''b.wasm'')]
       \<lparr>trust = DigestAllowlist [''aa''], compose_providers = Map.empty\<rparr>
   in get_compose_provider_in ''x'' ''one'' s = Some 6 \<and>
     trusted_entry toy_provider_env (DigestAllowlist [''aa'']) [(''x'', ''one'', ''a.wasm''), (''x'', ''two'', ''b.wasm'')] ''x'' ''one'' 6 \<and>
     get_compose_provider_in ''x'' ''two'' s = None"
proof -
  let ?s = "\<lparr>trust = DigestAllowlist [''aa''], compose_providers = Map.empty\<rparr> :: nat provider_state"
  let ?rs = "[(''x'', ''one'', ''a.wasm''), (''x'', ''two'', ''b.wasm'')]"
  have got: "get_compose_provider_in ''x'' ''one'' (run_registrations toy_provider_env ?rs ?s) = Some 6"
    "get_compose_provider_in ''x'' ''two'' (run_registrations toy_provider_env ?rs ?s) = None"
    by (simp_all add: run_registrations_def register_wasm_provider_in_async_def toy_provider_env_def map_error_def bnd_def trust_verify_def
        register_compose_provider_in_def get_compose_provider_in_def)
  have "compose_providers ?s = Map.empty" by simp
  from registered_providers_trusted [OF this, of toy_provider_env ?rs] got(1)
  have "trusted_entry toy_provider_env (trust ?s) ?rs ''x'' ''one'' 6" by blast
  with got show ?thesis unfolding Let_def by simp
qed

text \<open>The network gates are closed by default and guard what is requested: without a policy every request is
  refused; a request for which a URL is handed on has an \<open>http\<close> or \<open>https\<close> scheme, its method was allowed
  by the extension's policy, and so was the host the URL names, provided the authority carries no user
  information.\<close>

theorem http_gate:
  assumes "http_url K policy sch (Some authority) path_q meth = Inr (verb, url)"
  shows "method_name K meth = Inr verb \<and> (\<exists>p sc. policy = Some p \<and> sc \<in> {''http'', ''https''} \<and> url = sc @ ''://'' @ authority @ (case path_q of None \<Rightarrow> ''/'' | Some q \<Rightarrow> q) \<and>
    check_method K p verb = Inr () \<and> (CHR ''@'' \<notin> set authority \<longrightarrow> check_host K p (authority_host authority) = Inr ()))"
proof -
  have m: "method_name K meth = Inr verb" and pass: "check_http_policy K policy authority verb = Inr ()"
    and sc: "\<exists>sc \<in> {''http'', ''https''}. url = sc @ ''://'' @ authority @ (case path_q of None \<Rightarrow> ''/'' | Some q \<Rightarrow> q)"
    using assms by (auto simp: http_url_def sbind_eq_Inr_iff Let_def split: option.splits scheme.splits)
  from pass obtain p where p: "policy = Some p" "check_host K p (hd (split_on (CHR '':'') authority)) = Inr ()" "check_method K p verb = Inr ()"
    unfolding check_http_policy_def by (cases policy) (simp_all add: sbind_eq_Inr_iff)
  from p(2) have "CHR ''@'' \<notin> set authority \<longrightarrow> check_host K p (authority_host authority) = Inr ()"
    using authority_host_plain by metis
  with m p(1,3) sc show ?thesis by blast
qed

definition toy_checks :: policy_checks where
  "toy_checks = \<lparr>check_host = (\<lambda>p h. if h \<in> set (allowed_hosts p) then Inr () else Inl ''host''),
     check_method = (\<lambda>p m. Inr ()), check_domain = (\<lambda>p d. Inl ''domain''), method_from_bytes = Inr\<rparr>"

definition only_good :: http_policy where
  "only_good = \<lparr>allowed_hosts = [''good.com''], allowed_methods = None, max_body_bytes = None, http_timeout_ms = None\<rparr>"

lemmas gate_eval = http_url_def method_name_def check_http_policy_def toy_checks_def only_good_def authority_host_def map_error_def

lemma good_url: "http_url toy_checks (Some only_good) None (Some ''good.com:8443'') None MGet = Inr (''GET'', ''https://good.com:8443/'')"
  by (simp add: gate_eval)

theorem http_gate_witness:
  "check_host toy_checks only_good (authority_host ''good.com:8443'') = Inr ()"
proof -
  have "CHR ''@'' \<notin> set ''good.com:8443''" by simp
  with http_gate [OF good_url] show ?thesis by blast
qed

text \<open>The proviso is needed. The gate cuts the authority at its first colon, but a URL's host comes after the
  user information: an extension that may only reach one host reaches any other.\<close>

theorem userinfo_bypasses_host_check:
  "http_url toy_checks (Some only_good) None (Some ''good.com:x@evil.com'') None MGet = Inr (''GET'', ''https://good.com:x@evil.com/'') \<and>
   authority_host ''good.com:x@evil.com'' = ''evil.com'' \<and>
   check_host toy_checks only_good (authority_host ''good.com:x@evil.com'') = Inl ''host''"
  by (simp add: gate_eval)

section \<open>Artifacts\<close>

lemma slash_free_filenames:
  assumes "catalog_name name" "f \<in> set (catalog_filenames name)"
  shows "CHR ''/'' \<notin> set f" "f \<noteq> []" "f \<noteq> ''.''" "f \<noteq> ''..''"
proof -
  have sl: "CHR ''/'' \<notin> set (map (\<lambda>ch. if ch = CHR ''-'' then CHR ''_'' else ch) name)" "CHR ''/'' \<notin> set name"
    using assms(1) by (auto simp: catalog_name_def)
  have "CHR ''w'' \<in> set f" using assms(2) by (auto simp: catalog_filenames_def Let_def)
  then show "f \<noteq> []" "f \<noteq> ''.''" "f \<noteq> ''..''" by auto
  show "CHR ''/'' \<notin> set f" using sl assms(2) by (auto simp: catalog_filenames_def Let_def)
qed

lemma path_join_child:
  assumes "CHR ''/'' \<notin> set f" "f \<noteq> []" "f \<noteq> ''.''" "f \<noteq> ''..''" "d \<noteq> []"
  shows "components (path_join d f) = components d @ [Normal f]"
proof (cases "last d = CHR ''/''")
  case False
  then have "path_join d f = d @ CHR ''/'' # f" using assms by (cases f) (auto simp: path_join_def)
  then show ?thesis using components_join [of d f] assms by (simp add: component_of_def)
next
  case True
  then obtain e where e: "d = e @ ''/''" using assms(5) by (metis append_butlast_last_id)
  have "path_join d f = e @ CHR ''/'' # f" using assms True e by (cases f) (auto simp: path_join_def)
  then show ?thesis
  proof (cases "e = []")
    case True
    then show ?thesis using e \<open>path_join d f = _\<close> assms by (simp add: components_def split_on_none component_of_def)
  next
    case False
    have "components d = components e"
      using False e by (simp add: components_def split_on_append_sep starts_with_append Let_def)
    then show ?thesis using \<open>path_join d f = _\<close> components_join [of e f] False assms by (simp add: component_of_def)
  qed
qed

lemma path_join_Nil: "path_join p q = [] \<longleftrightarrow> p = [] \<and> q = []" "[] = path_join p q \<longleftrightarrow> p = [] \<and> q = []"
  by (auto simp: path_join_def)

lemma catalog_dirs_nonempty: "d \<in> set (catalog_dirs env cwd name) \<Longrightarrow> d \<noteq> []"
  by (auto simp: catalog_dirs_def Let_def path_join_Nil split: option.splits)

text \<open>A bare name stays inside the artifact directories. Only names without separators, colons and dots are
  looked up; what is found is an existing file directly inside one of the search directories, with one of the
  six conventional names, and every candidate before it in the search order (directories first, provider
  artifacts before plain components) does not exist. Nothing is found exactly when no candidate exists.\<close>

theorem catalog_confined:
  assumes "resolve_catalog_artifact env cwd is_file name = Some p"
  shows "catalog_name name \<and> is_file p \<and>
    (\<exists>d f before after. d \<in> set (catalog_dirs env cwd name) \<and> f \<in> set (catalog_filenames name) \<and>
       p = path_join d f \<and> components p = components d @ [Normal f] \<and>
       concat (map (\<lambda>d. map (path_join d) (catalog_filenames name)) (catalog_dirs env cwd name)) = before @ p # after \<and>
       (\<forall>q \<in> set before. \<not> is_file q))"
proof -
  let ?c = "concat (map (\<lambda>d. map (path_join d) (catalog_filenames name)) (catalog_dirs env cwd name))"
  have n: "catalog_name name" and found: "List.find is_file ?c = Some p"
    using assms by (auto simp: resolve_catalog_artifact_def split: if_splits)
  from found obtain ys zs where c: "?c = ys @ p # zs" "is_file p" "\<forall>q \<in> set ys. \<not> is_file q" unfolding find_first by blast
  from c(1) have "p \<in> set ?c" by simp
  then obtain d f where df: "d \<in> set (catalog_dirs env cwd name)" "f \<in> set (catalog_filenames name)" "p = path_join d f" by auto
  then have "components p = components d @ [Normal f]"
    using path_join_child slash_free_filenames [OF n] catalog_dirs_nonempty by simp
  with n c df show ?thesis by blast
qed

theorem catalog_confined_witness:
  "catalog_name ''sha1'' \<and>
   resolve_catalog_artifact (\<lambda>v. if v = ''SQLINK_EXT_DIR'' then Some ''/opt/ext'' else None) (Some ''/w'') (\<lambda>p. p = ''/opt/ext/sha1.wasm'') ''sha1'' =
     Some ''/opt/ext/sha1.wasm''"
proof -
  have r: "resolve_catalog_artifact (\<lambda>v. if v = ''SQLINK_EXT_DIR'' then Some ''/opt/ext'' else None) (Some ''/w'') (\<lambda>p. p = ''/opt/ext/sha1.wasm'') ''sha1'' =
     Some ''/opt/ext/sha1.wasm''" by code_simp
  from catalog_confined [OF r] r show ?thesis by blast
qed

section \<open>The authorizer\<close>

datatype auth_action =
    ActCreateIndex | ActCreateTable | ActCreateTempIndex | ActCreateTempTable | ActCreateTempTrigger | ActCreateTempView
    | ActCreateTrigger | ActCreateView | ActDelete | ActDropIndex | ActDropTable | ActDropTempIndex
    | ActDropTempTable | ActDropTempTrigger | ActDropTempView | ActDropTrigger | ActDropView | ActInsert
    | ActPragma | ActRead | ActSelect | ActTransaction | ActUpdate | ActAttach
    | ActDetach | ActAlterTable | ActReindex | ActAnalyze | ActCreateVtable | ActDropVtable
    | ActFunction | ActSavepoint | ActRecursive

datatype auth_result = AuthOk | AuthDeny | AuthIgnore

text \<open>SQLite's action codes, as its documentation numbers them. An unknown code counts as a read.\<close>

definition sqlite_code_to_auth_action :: "int \<Rightarrow> auth_action" where
  "sqlite_code_to_auth_action code =
     (case map_of [(1, ActCreateIndex), (2, ActCreateTable), (3, ActCreateTempIndex), (4, ActCreateTempTable), (5, ActCreateTempTrigger),
   (6, ActCreateTempView), (7, ActCreateTrigger), (8, ActCreateView), (9, ActDelete), (10, ActDropIndex),
   (11, ActDropTable), (12, ActDropTempIndex), (13, ActDropTempTable), (14, ActDropTempTrigger), (15, ActDropTempView),
   (16, ActDropTrigger), (17, ActDropView), (18, ActInsert), (19, ActPragma), (20, ActRead),
   (21, ActSelect), (22, ActTransaction), (23, ActUpdate), (24, ActAttach), (25, ActDetach),
   (26, ActAlterTable), (27, ActReindex), (28, ActAnalyze), (29, ActCreateVtable), (30, ActDropVtable),
   (31, ActFunction), (32, ActSavepoint), (33, ActRecursive)] code of
        Some a \<Rightarrow> a | None \<Rightarrow> ActRead)"

primrec auth_action_name :: "auth_action \<Rightarrow> string" where
  "auth_action_name ActCreateIndex = ''create-index''"
| "auth_action_name ActCreateTable = ''create-table''"
| "auth_action_name ActCreateTempIndex = ''create-temp-index''"
| "auth_action_name ActCreateTempTable = ''create-temp-table''"
| "auth_action_name ActCreateTempTrigger = ''create-temp-trigger''"
| "auth_action_name ActCreateTempView = ''create-temp-view''"
| "auth_action_name ActCreateTrigger = ''create-trigger''"
| "auth_action_name ActCreateView = ''create-view''"
| "auth_action_name ActDelete = ''delete''"
| "auth_action_name ActDropIndex = ''drop-index''"
| "auth_action_name ActDropTable = ''drop-table''"
| "auth_action_name ActDropTempIndex = ''drop-temp-index''"
| "auth_action_name ActDropTempTable = ''drop-temp-table''"
| "auth_action_name ActDropTempTrigger = ''drop-temp-trigger''"
| "auth_action_name ActDropTempView = ''drop-temp-view''"
| "auth_action_name ActDropTrigger = ''drop-trigger''"
| "auth_action_name ActDropView = ''drop-view''"
| "auth_action_name ActInsert = ''insert''"
| "auth_action_name ActPragma = ''pragma''"
| "auth_action_name ActRead = ''read''"
| "auth_action_name ActSelect = ''select''"
| "auth_action_name ActTransaction = ''transaction''"
| "auth_action_name ActUpdate = ''update''"
| "auth_action_name ActAttach = ''attach''"
| "auth_action_name ActDetach = ''detach''"
| "auth_action_name ActAlterTable = ''alter-table''"
| "auth_action_name ActReindex = ''reindex''"
| "auth_action_name ActAnalyze = ''analyze''"
| "auth_action_name ActCreateVtable = ''create-vtable''"
| "auth_action_name ActDropVtable = ''drop-vtable''"
| "auth_action_name ActFunction = ''function''"
| "auth_action_name ActSavepoint = ''savepoint''"
| "auth_action_name ActRecursive = ''recursive''"

text \<open>Anything but a denial or an ignore counts as permission.\<close>

definition auth_result_from_name :: "string \<Rightarrow> auth_result" where
  "auth_result_from_name s = (if s = ''deny'' then AuthDeny else if s = ''ignore'' then AuthIgnore else AuthOk)"

definition auth_action_names :: "(string \<times> auth_action) list" where
  "auth_action_names = map (\<lambda>code. (auth_action_name (sqlite_code_to_auth_action code), sqlite_code_to_auth_action code))
     [1, 2, 3, 4, 5, 6, 7, 8, 9, 10, 11, 12, 13, 14, 15, 16, 17, 18, 19, 20, 21, 22, 23, 24, 25, 26, 27, 28, 29, 30, 31, 32, 33]"

lemma action_of_name: "map_of auth_action_names (auth_action_name a) = Some a"
  by (cases a; hypsubst) code_simp+

lemma auth_action_name_inj: "auth_action_name a = auth_action_name b \<Longrightarrow> a = b"
  by (metis action_of_name option.inject)

lemma auth_codes_distinct:
  assumes "1 \<le> c" "c \<le> 33" "1 \<le> d" "d \<le> 33" "sqlite_code_to_auth_action c = sqlite_code_to_auth_action d"
  shows "c = d"
proof -
  have "distinct (map sqlite_code_to_auth_action [1..33])" by code_simp
  then have "inj_on sqlite_code_to_auth_action {1..33}" by (metis distinct_map set_upto)
  with assms show ?thesis by (auto dest: inj_onD)
qed

text \<open>Two different known actions are never sent to a provider as the same request.\<close>

lemma authorize_requests_distinct:
  assumes "codec_ok C" "1 \<le> c" "c \<le> 33" "1 \<le> d" "d \<le> 33"
    and r: "encode_authorize C (auth_action_name (sqlite_code_to_auth_action c)) x y z t = Inr b"
    and s: "encode_authorize C (auth_action_name (sqlite_code_to_auth_action d)) x' y' z' t' = Inr b"
  shows "c = d \<and> (x, y, z, t) = (x', y', z', t')"
proof -
  let ?q = "\<lambda>c x y z t. Authorize (auth_action_name (sqlite_code_to_auth_action c)) x y z t"
  have ok: "wire_ok 16 (request_tree (?q c x y z t))" for c x y z t
    unfolding sixteen by (rule wire_ok_request) (simp add: request_args_def)
  have "ser C (request_tree (?q c x y z t)) = Inr b" "ser C (request_tree (?q d x' y' z' t')) = Inr b"
    using r s by (simp_all flip: encode_request_tree)
  then have "request_tree (?q c x y z t) = request_tree (?q d x' y' z' t')"
    using deser_ser [OF assms(1) ok] by (metis sum.inject(2))
  from request_tree_inj [OF this] show ?thesis using auth_action_name_inj auth_codes_distinct assms(2-5) by auto
qed

end
