(* ===== verification/Prefix_Registry.thy ===== *)
theory Prefix_Registry
  imports Rust_Text
begin

text \<open>
  \<^verbatim>\<open>host/src/prefix_registry.rs\<close>: the registry that keeps functions of different extensions apart. Three
  tables bind short prefixes to expansions, record which expansion provides which function, and pin bare
  names; the functions visible on the connection (\<open>PRAGMA function_list\<close>) are part of the state. The
  constant \<open>COLLISION_FALLBACK_LIMIT\<close> and the precedence rule of bare names belong to the crate
  datalink_prefix and are the parameters \<open>limit\<close> and \<open>rule\<close>.
\<close>

section \<open>State\<close>

record prefix_row =
  p_name :: string
  p_expansion :: string
  p_created_at :: int

record function_row =
  f_expansion :: string
  f_name :: string
  f_extension :: string
  f_nargs :: int
  f_registered_at :: int

record pin_row =
  q_name :: string
  q_nargs :: int
  q_expansion :: string
  q_set_at :: int

record prefix_db =
  prefix_t :: "prefix_row list option"
  function_t :: "function_row list option"
  pin_t :: "pin_row list option"
  function_list :: "(string \<times> int) list"

datatype prefix_error =
    NoPrefixTable
  | DuplicatePrefix string
  | PrefixExhausted string nat
  | NameExhausted string int

type_synonym 'a prefix_op = "(prefix_error, prefix_db, 'a) op"

definition table :: "(prefix_db \<Rightarrow> 'r option) \<Rightarrow> 'r prefix_op" where
  "table get_t = query (\<lambda>d. case get_t d of None \<Rightarrow> Inl NoPrefixTable | Some rs \<Rightarrow> Inr rs)"

definition put_db :: "(prefix_db \<Rightarrow> prefix_db) \<Rightarrow> unit prefix_op" where
  "put_db f = (\<lambda>d. (Inr (), f d))"

section \<open>Operations\<close>

definition install_prefix_schema :: "unit prefix_op" where
  "install_prefix_schema = put_db (\<lambda>d. d\<lparr>
     prefix_t := (case prefix_t d of None \<Rightarrow> Some [] | Some rs \<Rightarrow> Some rs),
     function_t := (case function_t d of None \<Rightarrow> Some [] | Some rs \<Rightarrow> Some rs),
     pin_t := (case pin_t d of None \<Rightarrow> Some [] | Some rs \<Rightarrow> Some rs)\<rparr>)"

definition lookup_expansion :: "string \<Rightarrow> string option prefix_op" where
  "lookup_expansion prefix = bnd (table prefix_t) (\<lambda>rs. ret (map_option p_expansion (lookup_by p_name prefix rs)))"

definition insert_prefix :: "string \<Rightarrow> string \<Rightarrow> int \<Rightarrow> unit prefix_op" where
  "insert_prefix prefix expansion now = bnd (table prefix_t) (\<lambda>rs.
     if prefix \<in> p_name ` set rs then fail (DuplicatePrefix prefix)
     else put_db (\<lambda>d. d\<lparr>prefix_t := Some (rs @ [\<lparr>p_name = prefix, p_expansion = expansion, p_created_at = now\<rparr>])\<rparr>))"

text \<open>The walk over the numbered alternatives \<open>n\<close>, \<open>n + 1\<close>, ..; \<open>todo\<close> of them are left.\<close>

fun numbered_prefix :: "string \<Rightarrow> string \<Rightarrow> int \<Rightarrow> nat \<Rightarrow> nat \<Rightarrow> nat \<Rightarrow> string prefix_op" where
  "numbered_prefix requested expansion now limit n 0 = fail (PrefixExhausted requested limit)"
| "numbered_prefix requested expansion now limit n (Suc todo) =
     bnd (lookup_expansion (requested @ show_nat n)) (\<lambda>alias_existing.
     case alias_existing of
       Some e \<Rightarrow>
         if e = expansion then ret (requested @ show_nat n)
         else numbered_prefix requested expansion now limit (Suc n) todo
     | None \<Rightarrow>
         bnd (insert_prefix (requested @ show_nat n) expansion now) (\<lambda>_.
         ret (requested @ show_nat n)))"

definition record_prefix_with_collision_fallback :: "nat \<Rightarrow> string \<Rightarrow> string \<Rightarrow> int \<Rightarrow> string prefix_op" where
  "record_prefix_with_collision_fallback limit requested expansion now =
     bnd (lookup_expansion requested) (\<lambda>existing.
     if existing = Some expansion then ret requested
     else if existing = None then bnd (insert_prefix requested expansion now) (\<lambda>_. ret requested)
     else numbered_prefix requested expansion now limit 2 (limit - 1))"

definition fn_key :: "function_row \<Rightarrow> string \<times> string \<times> int" where
  "fn_key r = (f_expansion r, f_name r, f_nargs r)"

definition record_function :: "string \<Rightarrow> string \<Rightarrow> int \<Rightarrow> string \<Rightarrow> int \<Rightarrow> string list prefix_op" where
  "record_function expansion name nargs ext now =
     bnd (table function_t) (\<lambda>rs.
     let others = map f_expansion (filter (\<lambda>r. f_name r = name \<and> f_nargs r = nargs \<and> f_expansion r \<noteq> expansion) rs);
         rs' = (if (expansion, name, nargs) \<in> fn_key ` set rs
                then update_where (\<lambda>r. fn_key r = (expansion, name, nargs)) (\<lambda>r. r\<lparr>f_extension := ext, f_registered_at := now\<rparr>) rs
                else rs @ [\<lparr>f_expansion = expansion, f_name = name, f_extension = ext, f_nargs = nargs, f_registered_at = now\<rparr>])
     in bnd (put_db (\<lambda>d. d\<lparr>function_t := Some rs'\<rparr>)) (\<lambda>_. ret others))"

definition lookup_pin :: "string \<Rightarrow> int \<Rightarrow> string option prefix_op" where
  "lookup_pin name nargs =
     bnd (table pin_t) (\<lambda>rs. ret (map_option q_expansion (lookup_by (\<lambda>r. (q_name r, q_nargs r)) (name, nargs) rs)))"

definition pin :: "string \<Rightarrow> int \<Rightarrow> string \<Rightarrow> int \<Rightarrow> unit prefix_op" where
  "pin name nargs expansion now =
     bnd (table pin_t) (\<lambda>rs. put_db (\<lambda>d. d\<lparr>pin_t := Some (
       if (name, nargs) \<in> (\<lambda>r. (q_name r, q_nargs r)) ` set rs
       then update_where (\<lambda>r. (q_name r, q_nargs r) = (name, nargs)) (\<lambda>r. r\<lparr>q_expansion := expansion, q_set_at := now\<rparr>) rs
       else rs @ [\<lparr>q_name = name, q_nargs = nargs, q_expansion = expansion, q_set_at = now\<rparr>])\<rparr>))"

definition should_register_bare :: "(string option \<Rightarrow> string \<Rightarrow> bool) \<Rightarrow> string \<Rightarrow> int \<Rightarrow> string \<Rightarrow> bool prefix_op" where
  "should_register_bare rule name nargs my_expansion =
     bnd (lookup_pin name nargs) (\<lambda>pinned. ret (rule pinned my_expansion))"

definition NAME_COLLISION_FALLBACK_LIMIT :: nat where
  "NAME_COLLISION_FALLBACK_LIMIT = 999"

definition function_exists :: "string \<Rightarrow> int \<Rightarrow> prefix_db \<Rightarrow> bool" where
  "function_exists name nargs d = list_ex (\<lambda>(nm, na). nm = name \<and> (na = nargs \<or> na = - 1)) (function_list d)"

record resolved_name =
  rn_name :: string
  rn_remapped :: bool

fun numbered_name :: "string \<Rightarrow> string \<Rightarrow> int \<Rightarrow> prefix_db \<Rightarrow> nat \<Rightarrow> nat \<Rightarrow> prefix_error + resolved_name" where
  "numbered_name name base nargs d n 0 = Inl (NameExhausted name nargs)"
| "numbered_name name base nargs d n (Suc todo) =
     (if \<not> function_exists (base @ ''_'' @ show_nat n) nargs d
      then Inr \<lparr>rn_name = base @ ''_'' @ show_nat n, rn_remapped = True\<rparr>
      else numbered_name name base nargs d (Suc n) todo)"

definition resolve_collision_free_name :: "string \<Rightarrow> string \<Rightarrow> int \<Rightarrow> prefix_db \<Rightarrow> prefix_error + resolved_name" where
  "resolve_collision_free_name ext name nargs d =
     (if \<not> function_exists name nargs d then Inr \<lparr>rn_name = name, rn_remapped = False\<rparr>
      else let base = ext @ ''_'' @ name in
        if \<not> function_exists base nargs d then Inr \<lparr>rn_name = base, rn_remapped = True\<rparr>
        else numbered_name name base nargs d 2 (NAME_COLLISION_FALLBACK_LIMIT - 1))"

text \<open>\<open>i as i32\<close>.\<close>

definition as_i32 :: "int \<Rightarrow> int" where
  "as_i32 i = (i + 2 ^ 31) mod 2 ^ 32 - 2 ^ 31"

record collision =
  k_name :: string
  k_nargs :: int
  k_expansions :: "string list"

definition collides :: "function_row list \<Rightarrow> function_row \<Rightarrow> bool" where
  "collides rs r \<longleftrightarrow> 1 < card (f_expansion ` {q \<in> set rs. f_name q = f_name r \<and> f_nargs q = f_nargs r})"

definition push_collision :: "collision list \<Rightarrow> function_row \<Rightarrow> collision list" where
  "push_collision out r =
     (if out \<noteq> [] \<and> k_name (last out) = f_name r \<and> k_nargs (last out) = as_i32 (f_nargs r)
      then butlast out @ [(last out)\<lparr>k_expansions := k_expansions (last out) @ [f_expansion r]\<rparr>]
      else out @ [\<lparr>k_name = f_name r, k_nargs = as_i32 (f_nargs r), k_expansions = [f_expansion r]\<rparr>])"

definition list_collisions :: "collision list prefix_op" where
  "list_collisions =
     bnd (table function_t) (\<lambda>rs.
     ret (foldl push_collision [] (sort_key (\<lambda>r. (f_name r, f_nargs r, f_registered_at r)) (filter (collides rs) rs))))"

section \<open>Lemmas\<close>

text \<open>What a registry with its tables in place says about a prefix.\<close>

definition expansions :: "prefix_db \<Rightarrow> string \<Rightarrow> string option" where
  "expansions d prefix = (case prefix_t d of None \<Rightarrow> None | Some rs \<Rightarrow> map_option p_expansion (lookup_by p_name prefix rs))"

definition prefix_inv :: "prefix_db \<Rightarrow> bool" where
  "prefix_inv d \<longleftrightarrow> (\<exists>rs. prefix_t d = Some rs \<and> distinct (map p_name rs))"

lemma lookup_expansion_eval: "prefix_inv d \<Longrightarrow> lookup_expansion p d = (Inr (expansions d p), d)"
  by (auto simp: prefix_inv_def lookup_expansion_def table_def bnd_def expansions_def)

lemma insert_prefix_eval:
  assumes "prefix_inv d" "expansions d p = None"
  shows "\<exists>d'. insert_prefix p e now d = (Inr (), d') \<and> prefix_inv d' \<and> expansions d' = (expansions d)(p \<mapsto> e)"
proof -
  obtain rs where rs: "prefix_t d = Some rs" "distinct (map p_name rs)" using assms(1) by (auto simp: prefix_inv_def)
  let ?r = "\<lparr>p_name = p, p_expansion = e, p_created_at = now\<rparr>" and ?d' = "d\<lparr>prefix_t := Some (rs @ [\<lparr>p_name = p, p_expansion = e, p_created_at = now\<rparr>])\<rparr>"
  have new: "p \<notin> p_name ` set rs" using assms(2) rs by (simp add: expansions_def lookup_by_None_iff)
  then have "insert_prefix p e now d = (Inr (), ?d')" using rs by (simp add: insert_prefix_def table_def bnd_def put_db_def)
  moreover have "prefix_inv ?d'" using rs new by (simp add: prefix_inv_def)
  moreover have "expansions ?d' = (expansions d)(p \<mapsto> e)"
    using rs new by (auto simp: expansions_def fun_eq_iff lookup_by_append split: option.splits dest: lookup_by_SomeD)
  ultimately show ?thesis by blast
qed

text \<open>The names that are tried for a requested prefix, in order.\<close>

definition alternatives :: "string \<Rightarrow> nat \<Rightarrow> nat \<Rightarrow> string list" where
  "alternatives p n todo = map (\<lambda>i. p @ show_nat i) [n..<n + todo]"

lemma alternatives_simps [simp]: "alternatives p n 0 = []"
  "alternatives p n (Suc todo) = (p @ show_nat n) # alternatives p (Suc n) todo"
  by (simp_all add: alternatives_def upt_conv_Cons del: upt_Suc)

text \<open>The first of some names that is free or already bound to the expansion.\<close>

fun first_fit :: "prefix_db \<Rightarrow> string \<Rightarrow> string list \<Rightarrow> string option" where
  "first_fit d e [] = None"
| "first_fit d e (p # ps) = (if expansions d p \<in> {None, Some e} then Some p else first_fit d e ps)"

lemma numbered_prefix_eval:
  assumes "prefix_inv d"
  shows "\<exists>d'. numbered_prefix p e now limit n todo d =
      (case first_fit d e (alternatives p n todo) of None \<Rightarrow> Inl (PrefixExhausted p limit) | Some a \<Rightarrow> Inr a, d') \<and> prefix_inv d' \<and>
    expansions d' = (case first_fit d e (alternatives p n todo) of None \<Rightarrow> expansions d | Some a \<Rightarrow> (expansions d)(a \<mapsto> e))"
proof (induction todo arbitrary: n)
  case 0
  then show ?case using assms by simp
next
  case (Suc todo)
  let ?a = "p @ show_nat n"
  show ?case
  proof (cases "expansions d ?a")
    case None
    with insert_prefix_eval [OF assms None, of e now] show ?thesis
      by (auto simp: bnd_def lookup_expansion_eval [OF assms])
  next
    case (Some x)
    then have "(expansions d)(?a \<mapsto> x) = expansions d" by (simp add: fun_upd_idem)
    with Some Suc [of "Suc n"] assms show ?thesis
      by (cases "x = e") (simp_all add: bnd_def lookup_expansion_eval [OF assms])
  qed
qed

lemma record_prefix_eval:
  fixes p :: string and limit :: nat
  assumes "prefix_inv d"
  defines "names \<equiv> p # alternatives p 2 (limit - 1)"
  shows "\<exists>d'. record_prefix_with_collision_fallback limit p e now d =
      (case first_fit d e names of None \<Rightarrow> Inl (PrefixExhausted p limit) | Some a \<Rightarrow> Inr a, d') \<and> prefix_inv d' \<and>
    expansions d' = (case first_fit d e names of None \<Rightarrow> expansions d | Some a \<Rightarrow> (expansions d)(a \<mapsto> e))"
proof (cases "expansions d p")
  case None
  with insert_prefix_eval [OF assms(1) None, of e now] show ?thesis
    by (auto simp: names_def record_prefix_with_collision_fallback_def bnd_def lookup_expansion_eval [OF assms(1)])
next
  case (Some x)
  then have "(expansions d)(p \<mapsto> x) = expansions d" by (simp add: fun_upd_idem)
  with Some numbered_prefix_eval [OF assms(1), of p e now limit 2 "limit - 1"] assms show ?thesis
    by (cases "x = e")
      (simp_all add: names_def record_prefix_with_collision_fallback_def bnd_def lookup_expansion_eval [OF assms(1)])
qed

lemma first_fit_Some:
  "first_fit d e ps = Some a \<Longrightarrow> a \<in> set ps \<and> expansions d a \<in> {None, Some e}"
  by (induction ps) (auto split: if_splits)

lemma first_fit_None: "first_fit d e ps = None \<Longrightarrow> p \<in> set ps \<Longrightarrow> \<exists>x. expansions d p = Some x \<and> x \<noteq> e"
  by (induction ps) (auto split: if_splits)

lemma first_fit_again:
  "first_fit d e ps = Some a \<Longrightarrow> expansions d' = (expansions d)(a \<mapsto> e) \<Longrightarrow> first_fit d' e ps = Some a"
  by (induction ps) (auto split: if_splits)

lemma distinct_alternatives: "distinct (p # alternatives p n todo)"
  by (auto simp: alternatives_def distinct_map inj_on_def show_nat_inject)

text \<open>Names of functions that are tried, and pigeonholes: fewer functions than names leave a name free.\<close>

definition numbered_names :: "string \<Rightarrow> nat \<Rightarrow> nat \<Rightarrow> string list" where
  "numbered_names base n todo = map (\<lambda>i. base @ ''_'' @ show_nat i) [n..<n + todo]"

definition name_candidates :: "string \<Rightarrow> string \<Rightarrow> string list" where
  "name_candidates ext name = name # (ext @ ''_'' @ name) #
     numbered_names (ext @ ''_'' @ name) 2 (NAME_COLLISION_FALLBACK_LIMIT - 1)"

lemma numbered_names_simps [simp]: "numbered_names base n 0 = []"
  "numbered_names base n (Suc todo) = (base @ ''_'' @ show_nat n) # numbered_names base (Suc n) todo"
  by (simp_all add: numbered_names_def upt_conv_Cons del: upt_Suc)

lemma numbered_name_eval:
  "numbered_name name base nargs d n todo =
     (case List.find (\<lambda>c. \<not> function_exists c nargs d) (numbered_names base n todo) of
        None \<Rightarrow> Inl (NameExhausted name nargs) | Some c \<Rightarrow> Inr \<lparr>rn_name = c, rn_remapped = True\<rparr>)"
  by (induction todo arbitrary: n) simp_all

lemma resolve_name_eval:
  "resolve_collision_free_name ext name nargs d =
     (case List.find (\<lambda>c. \<not> function_exists c nargs d) (name_candidates ext name) of
        None \<Rightarrow> Inl (NameExhausted name nargs)
      | Some c \<Rightarrow> Inr \<lparr>rn_name = c, rn_remapped = function_exists name nargs d\<rparr>)"
  by (simp add: resolve_collision_free_name_def numbered_name_eval name_candidates_def Let_def split: option.splits)

lemma distinct_numbered_names: "distinct (base # numbered_names base n todo)"
  by (auto simp: numbered_names_def distinct_map inj_on_def show_nat_inject)

lemma numbered_names_longer: "c \<in> set (numbered_names base n todo) \<Longrightarrow> length base < length c"
  by (auto simp: numbered_names_def)

lemma distinct_candidates: "distinct (name_candidates ext name)"
  using distinct_numbered_names [of "ext @ ''_'' @ name" 2 "NAME_COLLISION_FALLBACK_LIMIT - 1"]
    numbered_names_longer [of name "ext @ ''_'' @ name" 2 "NAME_COLLISION_FALLBACK_LIMIT - 1"]
  by (auto simp: name_candidates_def dest: arg_cong [where f = length])

lemma length_candidates: "length (name_candidates ext name) = 1000"
  by (simp add: name_candidates_def numbered_names_def NAME_COLLISION_FALLBACK_LIMIT_def)

lemma function_exists_name: "function_exists c nargs d \<Longrightarrow> c \<in> fst ` set (function_list d)"
  by (force simp: function_exists_def list_ex_iff image_iff)

lemma some_name_free:
  assumes "length (function_list d) < 1000"
  shows "\<exists>c \<in> set (name_candidates ext name). \<not> function_exists c nargs d"
proof (rule ccontr)
  assume "\<not> ?thesis"
  then have "set (name_candidates ext name) \<subseteq> fst ` set (function_list d)" using function_exists_name by blast
  then have "card (set (name_candidates ext name)) \<le> card (fst ` set (function_list d))" by (intro card_mono) auto
  also have "\<dots> \<le> length (function_list d)" using card_image_le card_length by (metis List.finite_set le_trans)
  finally show False using assms distinct_candidates [of ext name] length_candidates [of ext name] by (simp add: distinct_card)
qed

text \<open>Grouping a sorted list of rows: one collision per name and arity, with the expansions in the order of the
  rows.\<close>

definition fn_sig :: "function_row \<Rightarrow> string \<times> int" where
  "fn_sig r = (f_name r, f_nargs r)"

definition collision_sig :: "collision \<Rightarrow> string \<times> int" where
  "collision_sig k = (k_name k, k_nargs k)"

definition grouped :: "function_row list \<Rightarrow> collision list \<Rightarrow> bool" where
  "grouped xs out \<longleftrightarrow> distinct (map collision_sig out) \<and> collision_sig ` set out = fn_sig ` set xs \<and>
     (xs \<noteq> [] \<longrightarrow> out \<noteq> [] \<and> collision_sig (last out) = fn_sig (last xs)) \<and>
     (\<forall>k \<in> set out. k_expansions k = map f_expansion (filter (\<lambda>r. fn_sig r = collision_sig k) xs))"

lemma grouped_push:
  assumes g: "grouped xs out" and srt: "sorted (map fn_sig (xs @ [x]))" and arity: "as_i32 (f_nargs x) = f_nargs x"
  shows "grouped (xs @ [x]) (push_collision out x)"
proof (cases "out \<noteq> [] \<and> collision_sig (last out) = fn_sig x")
  case True
  then obtain ks k where out: "out = ks @ [k]" by (meson rev_exhaust)
  let ?k = "k\<lparr>k_expansions := k_expansions k @ [f_expansion x]\<rparr>"
  have push: "push_collision out x = ks @ [?k]"
    using True arity by (simp add: push_collision_def out collision_sig_def fn_sig_def)
  have sig: "collision_sig ?k = collision_sig k" "collision_sig k = fn_sig x" using True by (simp_all add: out collision_sig_def)
  have other: "collision_sig c \<noteq> fn_sig x" if "c \<in> set ks" for c using g that sig(2) by (auto simp: grouped_def out image_iff)
  have mem: "fn_sig x \<in> fn_sig ` set xs" using g sig(2) by (auto simp: grouped_def out)
  show ?thesis
    unfolding grouped_def push using g sig other mem
    by (auto simp: grouped_def out insert_absorb)
next
  case False
  have new: "fn_sig x \<notin> fn_sig ` set xs"
  proof
    assume m: "fn_sig x \<in> fn_sig ` set xs"
    then have ne: "xs \<noteq> []" by auto
    have le: "sorted (map fn_sig xs)" "\<forall>r \<in> set xs. fn_sig r \<le> fn_sig x" using srt by (auto simp: sorted_append)
    obtain ys y where ys: "xs = ys @ [y]" using ne by (meson rev_exhaust)
    have "fn_sig r \<le> fn_sig y" if "r \<in> set xs" for r using le(1) that by (auto simp: ys sorted_append)
    with m have "fn_sig x \<le> fn_sig y" by auto
    with le(2) ys have "fn_sig y = fn_sig x" by (intro antisym) auto
    with g ne ys False show False by (auto simp: grouped_def)
  qed
  let ?k = "\<lparr>k_name = f_name x, k_nargs = f_nargs x, k_expansions = [f_expansion x]\<rparr>"
  have push: "push_collision out x = out @ [?k]"
    using False arity by (auto simp: push_collision_def collision_sig_def fn_sig_def)
  have sig: "collision_sig ?k = fn_sig x" by (simp add: collision_sig_def fn_sig_def)
  have keys: "collision_sig ` set out = fn_sig ` set xs" using g by (simp add: grouped_def)
  then have other: "fn_sig x \<noteq> collision_sig c" if "c \<in> set out" for c using that new by (metis imageI)
  have none: "filter (\<lambda>r. fn_sig r = fn_sig x) xs = []" using new by (auto simp: filter_empty_conv image_iff)
  have exps: "k_expansions c = map f_expansion (filter (\<lambda>r. fn_sig r = collision_sig c) (xs @ [x]))" if "c \<in> set (out @ [?k])" for c
  proof (cases "c \<in> set out")
    case True
    with g other [OF True] show ?thesis by (simp add: grouped_def)
  next
    case False
    with that have "c = ?k" by simp
    with none sig show ?thesis by simp
  qed
  have "distinct (map collision_sig (out @ [?k]))" using g new keys sig by (simp add: grouped_def)
  moreover have "collision_sig ` set (out @ [?k]) = fn_sig ` set (xs @ [x])" using keys sig by simp
  ultimately show ?thesis unfolding push using exps sig by (simp add: grouped_def)
qed

lemma grouped_foldl:
  "sorted (map fn_sig xs) \<Longrightarrow> \<forall>r \<in> set xs. as_i32 (f_nargs r) = f_nargs r \<Longrightarrow> grouped xs (foldl push_collision [] xs)"
proof (induction xs rule: rev_induct)
  case Nil
  show ?case by (simp add: grouped_def)
next
  case (snoc x xs)
  then have "grouped xs (foldl push_collision [] xs)" by (simp add: sorted_append)
  with snoc.prems show ?case by (simp add: grouped_push)
qed

definition function_inv :: "prefix_db \<Rightarrow> bool" where
  "function_inv d \<longleftrightarrow> (\<exists>rs. function_t d = Some rs \<and> distinct (map fn_key rs) \<and> (\<forall>r \<in> set rs. as_i32 (f_nargs r) = f_nargs r))"

interpretation refresh: key_stable fn_key "\<lambda>r. r\<lparr>f_extension := ext, f_registered_at := now\<rparr>"
  by unfold_locales (simp add: fn_key_def)

lemma record_function_eval:
  assumes "function_inv d" "function_t d = Some rs" "as_i32 n = n"
  shows "\<exists>d' rs'. record_function e f n ext now d =
      (Inr (map f_expansion (filter (\<lambda>r. f_name r = f \<and> f_nargs r = n \<and> f_expansion r \<noteq> e) rs)), d') \<and>
    function_t d' = Some rs' \<and> function_inv d' \<and> fn_key ` set rs' = insert (e, f, n) (fn_key ` set rs)"
proof -
  have rs: "distinct (map fn_key rs)" "\<forall>r \<in> set rs. as_i32 (f_nargs r) = f_nargs r"
    using assms(1,2) by (auto simp: function_inv_def)
  let ?up = "update_where (\<lambda>r. fn_key r = (e, f, n)) (\<lambda>r. r\<lparr>f_extension := ext, f_registered_at := now\<rparr>) rs"
  let ?new = "rs @ [\<lparr>f_expansion = e, f_name = f, f_extension = ext, f_nargs = n, f_registered_at = now\<rparr>]"
  let ?rs' = "if (e, f, n) \<in> fn_key ` set rs then ?up else ?new"
  have ar: "\<forall>r \<in> set ?up. as_i32 (f_nargs r) = f_nargs r" using rs(2) by (auto simp: set_update_where)
  have "distinct (map fn_key ?rs')" "\<forall>r \<in> set ?rs'. as_i32 (f_nargs r) = f_nargs r"
    using rs ar assms(3) by (auto simp: refresh.keys_update_where) (simp_all add: fn_key_def)
  moreover have "fn_key ` set ?rs' = insert (e, f, n) (fn_key ` set rs)"
    by (auto simp: refresh.keyset_update_where) (simp_all add: fn_key_def)
  moreover have "record_function e f n ext now d =
      (Inr (map f_expansion (filter (\<lambda>r. f_name r = f \<and> f_nargs r = n \<and> f_expansion r \<noteq> e) rs)), d\<lparr>function_t := Some ?rs'\<rparr>)"
    using assms(2) by (simp add: record_function_def table_def put_db_def bnd_def Let_def)
  ultimately show ?thesis by (intro exI [of _ "d\<lparr>function_t := Some ?rs'\<rparr>"] exI [of _ ?rs']) (simp add: function_inv_def)
qed

lemma insort_key_same_order:
  "\<forall>y \<in> set ys. (f x \<le> f y) = (g x \<le> g y) \<Longrightarrow> insort_key f x ys = insort_key g x ys"
  by (induction ys) auto

lemma sort_key_same_order:
  "\<forall>x \<in> set xs. \<forall>y \<in> set xs. (f x \<le> f y) = (g x \<le> g y) \<Longrightarrow> sort_key f xs = sort_key g xs"
proof (induction xs)
  case (Cons x xs)
  then show ?case by (simp add: insort_key_same_order [of _ f x g])
qed simp

section \<open>A load session\<close>

text \<open>The extensions of a session record their prefixes one after the other, whatever each of them gets.\<close>

type_synonym prefix_request = "string \<times> string \<times> int"

fun record_all :: "(string \<Rightarrow> string \<Rightarrow> int \<Rightarrow> ('e, 's, string) op) \<Rightarrow> prefix_request list \<Rightarrow> 's \<Rightarrow> ('e + string) list \<times> 's" where
  "record_all rec [] s = ([], s)"
| "record_all rec ((p, e, now) # reqs) s =
     (let (r, s1) = rec p e now s; (rs, s2) = record_all rec reqs s1 in (r # rs, s2))"

text \<open>What the loader relies on (the trait \<open>PrefixStore\<close>): a recorded prefix is bound to the expansion, and bindings
  only grow.\<close>

locale prefix_store =
  fixes inv :: "'s \<Rightarrow> bool"
    and bound :: "'s \<Rightarrow> string \<Rightarrow> string option"
    and rec :: "string \<Rightarrow> string \<Rightarrow> int \<Rightarrow> ('e, 's, string) op"
  assumes record_inv: "inv s \<Longrightarrow> rec p e now s = (r, s') \<Longrightarrow> inv s'"
    and record_binds: "inv s \<Longrightarrow> rec p e now s = (Inr a, s') \<Longrightarrow> bound s' a = Some e"
    and record_grows: "inv s \<Longrightarrow> rec p e now s = (r, s') \<Longrightarrow> bound s q = Some x \<Longrightarrow> bound s' q = Some x"
begin

lemma session_grows:
  "inv s \<Longrightarrow> record_all rec reqs s = (rs, s') \<Longrightarrow> bound s q = Some x \<Longrightarrow> bound s' q = Some x"
proof (induction reqs arbitrary: s rs)
  case (Cons req reqs)
  obtain p e now where req: "req = (p, e, now)" by (cases req)
  obtain r s1 where r: "rec p e now s = (r, s1)" by fastforce
  from Cons.prems(2) obtain rs1 where "record_all rec reqs s1 = (rs1, s')" by (auto simp: req r split: prod.splits)
  with Cons.IH record_inv [OF Cons.prems(1) r] record_grows [OF Cons.prems(1) r Cons.prems(3)] show ?case by blast
qed simp

lemma session_results:
  "inv s \<Longrightarrow> record_all rec reqs s = (rs, s') \<Longrightarrow> length rs = length reqs \<and>
     (\<forall>i < length reqs. \<forall>a. rs ! i = Inr a \<longrightarrow> bound s' a = Some (fst (snd (reqs ! i))))"
proof (induction reqs arbitrary: s rs)
  case (Cons req reqs)
  obtain p e now where req: "req = (p, e, now)" by (cases req)
  obtain r s1 where r: "rec p e now s = (r, s1)" by fastforce
  obtain rs1 where rs1: "record_all rec reqs s1 = (rs1, s')" "rs = r # rs1" using Cons.prems(2) by (auto simp: req r split: prod.splits)
  have inv1: "inv s1" using record_inv [OF Cons.prems(1) r] .
  note IH = Cons.IH [OF inv1 rs1(1)]
  have "bound s' a = Some e" if "r = Inr a" for a
    using session_grows [OF inv1 rs1(1)] record_binds [OF Cons.prems(1), of p e now a s1] r that by simp
  then have "\<forall>i < length (req # reqs). \<forall>a. (r # rs1) ! i = Inr a \<longrightarrow> bound s' a = Some (fst (snd ((req # reqs) ! i)))"
    using IH by (simp add: All_less_Suc2 req)
  with IH show ?case by (simp add: rs1(2))
qed simp

lemma session_separates:
  assumes "inv s" "record_all rec reqs s = (rs, s')" "i < length reqs" "j < length reqs"
    "fst (snd (reqs ! i)) \<noteq> fst (snd (reqs ! j))" "rs ! i = Inr a" "rs ! j = Inr b"
  shows "a \<noteq> b"
proof -
  have "bound s' a = Some (fst (snd (reqs ! i)))" "bound s' b = Some (fst (snd (reqs ! j)))"
    using session_results [OF assms(1,2)] assms(3,4,6,7) by blast+
  with assms(5) show ?thesis by auto
qed

end

lemma record_prefix_laws:
  assumes "prefix_inv d" "record_prefix_with_collision_fallback limit p e now d = (r, d')"
  shows "prefix_inv d' \<and> (\<forall>a. r = Inr a \<longrightarrow> expansions d' a = Some e) \<and> (\<forall>q x. expansions d q = Some x \<longrightarrow> expansions d' q = Some x)"
proof -
  let ?names = "p # alternatives p 2 (limit - 1)"
  have run: "r = (case first_fit d e ?names of None \<Rightarrow> Inl (PrefixExhausted p limit) | Some a \<Rightarrow> Inr a)" "prefix_inv d'"
    "expansions d' = (case first_fit d e ?names of None \<Rightarrow> expansions d | Some a \<Rightarrow> (expansions d)(a \<mapsto> e))"
    using record_prefix_eval [OF assms(1), of limit p e now] assms(2) by auto
  show ?thesis
  proof (cases "first_fit d e ?names")
    case (Some a)
    with run first_fit_Some [OF Some] show ?thesis by auto
  qed (use run in auto)
qed

interpretation sqlite_prefixes: prefix_store prefix_inv expansions "record_prefix_with_collision_fallback limit"
  for limit
  by unfold_locales (use record_prefix_laws in blast)+

section \<open>Properties\<close>

text \<open>Prefixes are never taken away. Recording a prefix for an expansion answers the requested prefix or one
  of its numbered alternatives, which is then bound to the expansion; no binding that existed before is
  changed, and recording again gives the same answer. It fails only when the prefix and all its
  alternatives are bound to other expansions, and then changes nothing.\<close>

theorem record_prefix_sound:
  assumes "prefix_inv d" "record_prefix_with_collision_fallback limit p e now d = (r, d')"
  shows "prefix_inv d' \<and> (\<forall>q x. expansions d q = Some x \<longrightarrow> expansions d' q = Some x) \<and>
    (case r of
       Inr a \<Rightarrow> a \<in> set (p # alternatives p 2 (limit - 1)) \<and> expansions d' a = Some e \<and>
         fst (record_prefix_with_collision_fallback limit p e now' d') = Inr a
     | Inl err \<Rightarrow> err = PrefixExhausted p limit \<and> expansions d' = expansions d \<and>
         (\<forall>q \<in> set (p # alternatives p 2 (limit - 1)). \<exists>x. expansions d q = Some x \<and> x \<noteq> e))"
proof -
  let ?names = "p # alternatives p 2 (limit - 1)"
  note laws = record_prefix_laws [OF assms]
  have run: "r = (case first_fit d e ?names of None \<Rightarrow> Inl (PrefixExhausted p limit) | Some a \<Rightarrow> Inr a)"
    "expansions d' = (case first_fit d e ?names of None \<Rightarrow> expansions d | Some a \<Rightarrow> (expansions d)(a \<mapsto> e))"
    using record_prefix_eval [OF assms(1), of limit p e now] assms(2) by auto
  show ?thesis
  proof (cases "first_fit d e ?names")
    case None
    with run laws first_fit_None [OF None] show ?thesis by auto
  next
    case (Some a)
    have "first_fit d' e ?names = Some a" using first_fit_again [OF Some] run(2) Some by simp
    then have "fst (record_prefix_with_collision_fallback limit p e now' d') = Inr a"
      using record_prefix_eval [of d' limit p e now'] laws by auto
    with run laws Some first_fit_Some [OF Some] show ?thesis by auto
  qed
qed

definition toy_prefixes :: prefix_db where
  "toy_prefixes = \<lparr>prefix_t = Some [\<lparr>p_name = ''foaf'', p_expansion = ''http://a'', p_created_at = 0\<rparr>], function_t = Some [],
     pin_t = Some [], function_list = [(''upper'', 1), (''max'', - 1)]\<rparr>"

theorem record_prefix_sound_witness:
  "\<exists>d'. record_prefix_with_collision_fallback 999 ''foaf'' ''http://b'' 1 toy_prefixes = (Inr ''foaf2'', d') \<and>
     expansions d' ''foaf'' = Some ''http://a'' \<and> expansions d' ''foaf2'' = Some ''http://b''"
proof -
  have inv: "prefix_inv toy_prefixes" by (simp add: prefix_inv_def toy_prefixes_def)
  have "show_nat 2 = ''2''" by code_simp
  then have "fst (record_prefix_with_collision_fallback 999 ''foaf'' ''http://b'' 1 toy_prefixes) = Inr ''foaf2''"
    by (simp add: record_prefix_with_collision_fallback_def lookup_expansion_def table_def bnd_def toy_prefixes_def
        insert_prefix_def put_db_def numeral_eq_Suc)
  then obtain d' where d': "record_prefix_with_collision_fallback 999 ''foaf'' ''http://b'' 1 toy_prefixes = (Inr ''foaf2'', d')"
    by (metis prod.collapse)
  have "expansions toy_prefixes ''foaf'' = Some ''http://a''" by (simp add: expansions_def toy_prefixes_def)
  with record_prefix_sound [OF inv d'] d' show ?thesis by simp
qed

text \<open>Extensions never share a prefix: whatever extensions are loaded in a session and whatever prefixes they
  ask for, two extensions with different expansions that both get a prefix get different ones.\<close>

theorem session_prefixes_separate:
  assumes "prefix_inv d" "record_all (record_prefix_with_collision_fallback limit) reqs d = (rs, d')"
    "i < length reqs" "j < length reqs" "fst (snd (reqs ! i)) \<noteq> fst (snd (reqs ! j))" "rs ! i = Inr a" "rs ! j = Inr b"
  shows "a \<noteq> b"
  using assms by (rule sqlite_prefixes.session_separates)

theorem session_prefixes_separate_witness:
  "\<exists>a b d'. record_all (record_prefix_with_collision_fallback 999) [(''foaf'', ''http://a'', 0), (''foaf'', ''http://b'', 1)] toy_prefixes =
     ([Inr a, Inr b], d') \<and> a \<noteq> b"
proof -
  have inv: "prefix_inv toy_prefixes" by (simp add: prefix_inv_def toy_prefixes_def)
  have two: "show_nat 2 = ''2''" by code_simp
  obtain d' where d': "record_all (record_prefix_with_collision_fallback 999) [(''foaf'', ''http://a'', 0), (''foaf'', ''http://b'', 1)] toy_prefixes =
      ([Inr ''foaf'', Inr ''foaf2''], d')"
    using two by (simp add: record_prefix_with_collision_fallback_def lookup_expansion_def table_def bnd_def toy_prefixes_def
        insert_prefix_def put_db_def numeral_eq_Suc)
  from session_prefixes_separate [OF inv d', of 0 1 "''foaf''" "''foaf2''"] d' show ?thesis by simp
qed

text \<open>Loading a function never hides another one of the same spelling: the chosen name has no function of
  that arity and no variadic one; the bare name is kept exactly when it is free; and with fewer than
  1000 functions on the connection a name is always found.\<close>

theorem resolve_name_collision_free:
  "(\<forall>n. resolve_collision_free_name ext name nargs d = Inr n \<longrightarrow> \<not> function_exists (rn_name n) nargs d \<and>
      (rn_remapped n \<longleftrightarrow> rn_name n \<noteq> name) \<and> (rn_remapped n \<longleftrightarrow> function_exists name nargs d)) \<and>
   (length (function_list d) < 1000 \<longrightarrow> (\<exists>n. resolve_collision_free_name ext name nargs d = Inr n))"
proof (intro conjI allI impI)
  fix n assume "resolve_collision_free_name ext name nargs d = Inr n"
  then obtain c where c: "List.find (\<lambda>c. \<not> function_exists c nargs d) (name_candidates ext name) = Some c"
    "n = \<lparr>rn_name = c, rn_remapped = function_exists name nargs d\<rparr>"
    by (auto simp: resolve_name_eval split: option.splits)
  then have free: "\<not> function_exists c nargs d" by (auto simp: find_Some_iff)
  moreover have "c = name" if "\<not> function_exists name nargs d" using c(1) that by (simp add: name_candidates_def)
  ultimately show "\<not> function_exists (rn_name n) nargs d" "rn_remapped n \<longleftrightarrow> rn_name n \<noteq> name"
    "rn_remapped n \<longleftrightarrow> function_exists name nargs d" using c(2) by auto
next
  assume "length (function_list d) < 1000"
  from some_name_free [OF this, of ext name nargs] have "List.find (\<lambda>c. \<not> function_exists c nargs d) (name_candidates ext name) \<noteq> None"
    by (auto simp: find_None_iff)
  then show "\<exists>n. resolve_collision_free_name ext name nargs d = Inr n" by (auto simp: resolve_name_eval)
qed

theorem resolve_name_collision_free_witness:
  "\<exists>n. resolve_collision_free_name ''ext'' ''upper'' 1 toy_prefixes = Inr n \<and> rn_remapped n \<and> rn_name n \<noteq> ''upper''"
proof -
  have "length (function_list toy_prefixes) < 1000" "function_exists ''upper'' 1 toy_prefixes"
    by (simp_all add: toy_prefixes_def function_exists_def)
  with resolve_name_collision_free [of "''ext''" "''upper''" 1 toy_prefixes] show ?thesis by blast
qed

text \<open>The collision report is exact: every function name and arity that two expansions provide is listed
  once, nothing else is, and its expansions are those that provide it, in the order in which they
  registered.\<close>

theorem list_collisions_exact:
  assumes "function_inv d" "function_t d = Some rs"
  shows "\<exists>cs. list_collisions d = (Inr cs, d) \<and> distinct (map collision_sig cs) \<and>
    collision_sig ` set cs = {s. 1 < card (f_expansion ` {q \<in> set rs. fn_sig q = s})} \<and>
    (\<forall>k \<in> set cs. k_expansions k = map f_expansion (sort_key f_registered_at (filter (\<lambda>r. fn_sig r = collision_sig k) rs)))"
proof -
  let ?key = "\<lambda>r. (f_name r, f_nargs r, f_registered_at r)"
  let ?xs = "sort_key ?key (filter (collides rs) rs)"
  have arity: "\<forall>r \<in> set rs. as_i32 (f_nargs r) = f_nargs r" using assms by (auto simp: function_inv_def)
  have "sorted (map fn_sig ?xs)"
    using sorted_sort_key [of ?key "filter (collides rs) rs"]
    by (auto simp: sorted_map fn_sig_def less_eq_prod_def elim!: sorted_wrt_mono_rel [rotated])
  then have g: "grouped ?xs (foldl push_collision [] ?xs)" using arity by (intro grouped_foldl) auto
  have sel: "collides rs r \<longleftrightarrow> 1 < card (f_expansion ` {q \<in> set rs. fn_sig q = fn_sig r})" for r
    by (simp add: collides_def fn_sig_def)
  have keys: "fn_sig ` set ?xs = {s. 1 < card (f_expansion ` {q \<in> set rs. fn_sig q = s})}"
  proof (intro equalityI subsetI)
    fix s assume s: "s \<in> {s. 1 < card (f_expansion ` {q \<in> set rs. fn_sig q = s})}"
    then have "{q \<in> set rs. fn_sig q = s} \<noteq> {}" by (metis (lifting) card.empty image_empty mem_Collect_eq not_one_less_zero)
    then obtain q where "q \<in> set rs" "fn_sig q = s" by auto
    with s sel [of q] show "s \<in> fn_sig ` set ?xs" by auto
  qed (auto simp: sel)
  have exps: "filter (\<lambda>r. fn_sig r = s) ?xs = sort_key f_registered_at (filter (\<lambda>r. fn_sig r = s) rs)"
    if s: "s \<in> fn_sig ` set ?xs" for s
  proof -
    have "filter (\<lambda>r. fn_sig r = s) (filter (collides rs) rs) = filter (\<lambda>r. fn_sig r = s) rs"
      using s keys sel by (auto simp: filter_filter intro!: filter_cong)
    moreover have "sort_key ?key (filter (\<lambda>r. fn_sig r = s) rs) = sort_key f_registered_at (filter (\<lambda>r. fn_sig r = s) rs)"
      by (rule sort_key_same_order) (auto simp: fn_sig_def less_eq_prod_def)
    ultimately show ?thesis by (simp add: filter_sort)
  qed
  have "list_collisions d = (Inr (foldl push_collision [] ?xs), d)"
    using assms(2) by (simp add: list_collisions_def table_def bnd_def)
  moreover have "k_expansions k = map f_expansion (sort_key f_registered_at (filter (\<lambda>r. fn_sig r = collision_sig k) rs))"
    if k: "k \<in> set (foldl push_collision [] ?xs)" for k
  proof -
    have "collision_sig ` set (foldl push_collision [] ?xs) = fn_sig ` set ?xs" using g unfolding grouped_def by (elim conjE)
    then have "collision_sig k \<in> fn_sig ` set ?xs" using imageI [OF k, of collision_sig] by (simp only:)
    from exps [OF this] show ?thesis using g k by (simp add: grouped_def)
  qed
  moreover have "distinct (map collision_sig (foldl push_collision [] ?xs))"
    "collision_sig ` set (foldl push_collision [] ?xs) = {s. 1 < card (f_expansion ` {q \<in> set rs. fn_sig q = s})}"
    using g keys by (simp_all add: grouped_def)
  ultimately show ?thesis by blast
qed

theorem list_collisions_exact_witness:
  "\<exists>cs. list_collisions (snd (record_function ''http://b'' ''name'' 1 ''b'' 5 (snd (record_function ''http://a'' ''name'' 1 ''a'' 7 toy_prefixes)))) =
       (Inr cs, snd (record_function ''http://b'' ''name'' 1 ''b'' 5 (snd (record_function ''http://a'' ''name'' 1 ''a'' 7 toy_prefixes)))) \<and>
     distinct (map collision_sig cs)"
proof -
  have a: "function_inv toy_prefixes" "function_t toy_prefixes = Some []" by (simp_all add: function_inv_def toy_prefixes_def)
  have one: "as_i32 1 = 1" by (simp add: as_i32_def)
  obtain d1 rs1 where d1: "snd (record_function ''http://a'' ''name'' 1 ''a'' 7 toy_prefixes) = d1" "function_t d1 = Some rs1" "function_inv d1"
    using record_function_eval [OF a one, of "''http://a''" "''name''" "''a''" 7] by auto
  obtain d2 rs2 where d2: "snd (record_function ''http://b'' ''name'' 1 ''b'' 5 d1) = d2" "function_t d2 = Some rs2" "function_inv d2"
    using record_function_eval [OF d1(3,2) one, of "''http://b''" "''name''" "''b''" 5] by auto
  from list_collisions_exact [OF d2(3,2)] show ?thesis unfolding d1(1) d2(1) by blast
qed

section \<open>Where the code departs from its documentation\<close>

text \<open>SQLite resolves function names without regard to case, but the check compares spellings: another
  spelling of a built-in is taken for free and keeps its bare name.\<close>

theorem case_variant_taken_for_free:
  "resolve_collision_free_name ''ext'' ''UPPER'' 1 toy_prefixes = Inr \<lparr>rn_name = ''UPPER'', rn_remapped = False\<rparr>"
  by (simp add: resolve_collision_free_name_def function_exists_def toy_prefixes_def)

end
