(* ===== verification/Uri_Loader.thy ===== *)
theory Uri_Loader
  imports Host_Cache Prefix_Registry Provider_Envelope
begin

text \<open>
  How the host resolves and registers what it loads (\<open>host/src/lib.rs\<close>): a URI to bytes, through the content
  store of theory Host_Cache; an extension to its prefix, and its functions to their qualified names, through
  theory Prefix_Registry; and a provider's manifest to the one that is registered with SQLite.

  The file system, the crate \<open>datalink_prefix\<close> (which proposes a prefix and an expansion and builds qualified
  names), the loading of a path and the instantiation of bytes are parameters.
\<close>

section \<open>From a URI to bytes\<close>

fun pinned_scheme_of :: "string list \<Rightarrow> string \<Rightarrow> (string \<times> string) option" where
  "pinned_scheme_of [] uri = None"
| "pinned_scheme_of (s # ss) uri =
     (case strip_prefix s uri of
        Some rest \<Rightarrow> (case strip_prefix '':'' rest of Some hex \<Rightarrow> Some (s, hex) | None \<Rightarrow> pinned_scheme_of ss uri)
      | None \<Rightarrow> pinned_scheme_of ss uri)"

definition pinned_hash_scheme :: "string \<Rightarrow> (string \<times> string) option" where
  "pinned_hash_scheme uri = pinned_scheme_of [''sha256'', ''digest'', ''blake3''] uri"

text \<open>\<open>trim_start_matches("//")\<close>.\<close>

fun trim_slashes :: "string \<Rightarrow> string" where
  "trim_slashes (a # b # s) = (if a = CHR ''/'' \<and> b = CHR ''/'' then trim_slashes s else a # b # s)"
| "trim_slashes s = s"

datatype uri_error =
    NotAUri string
  | FileError string string
  | NeedsCacheDir string
  | NotInCache string string
  | UnsupportedScheme string
  | CacheFailed cas_error

text \<open>The cache is optional; its connection is threaded through.\<close>

type_synonym 'a uri_op = "(uri_error, conn option, 'a) op"

definition cached_by_hash :: "string \<Rightarrow> string \<Rightarrow> bytes uri_op" where
  "cached_by_hash scheme hex cache =
     (case cache of
        None \<Rightarrow> (Inl (NeedsCacheDir scheme), None)
      | Some c \<Rightarrow>
          (case lookup_by_hash hex c of
             (Some b, c') \<Rightarrow> (Inr b, Some c')
           | (None, c') \<Rightarrow> (Inl (NotInCache scheme hex), Some c')))"

definition host_resolve_uri :: "(string \<Rightarrow> string + bytes) \<Rightarrow> string \<Rightarrow> bytes uri_op" where
  "host_resolve_uri read uri cache =
     (case split_once (CHR '':'') uri of
        None \<Rightarrow> (Inl (NotAUri uri), cache)
      | Some (scheme, rest) \<Rightarrow>
          if scheme = ''file'' then
            (case read (trim_slashes rest) of Inl e \<Rightarrow> (Inl (FileError (trim_slashes rest) e), cache) | Inr b \<Rightarrow> (Inr b, cache))
          else if scheme \<in> {''blake3'', ''sha256'', ''digest''} then cached_by_hash scheme rest cache
          else (Inl (UnsupportedScheme scheme), cache))"

definition cached_by_uri :: "string \<Rightarrow> conn option \<Rightarrow> bytes option \<times> conn option" where
  "cached_by_uri uri cache =
     (case cache of
        None \<Rightarrow> (None, None)
      | Some c \<Rightarrow> (case lookup_by_uri uri c of (found, c') \<Rightarrow> (map_option snd found, Some c')))"

definition resolve_uri_to_bytes :: "hashers \<Rightarrow> (string \<Rightarrow> string + bytes) \<Rightarrow> string \<Rightarrow> bytes uri_op" where
  "resolve_uri_to_bytes H read uri cache =
     (case pinned_hash_scheme uri of
        Some (scheme, hex) \<Rightarrow> cached_by_hash scheme hex cache
      | None \<Rightarrow>
          (case cached_by_uri uri cache of
             (Some b, cache1) \<Rightarrow> (Inr b, cache1)
           | (None, cache1) \<Rightarrow>
               (case host_resolve_uri read uri cache1 of
                  (Inl e, cache2) \<Rightarrow> (Inl e, cache2)
                | (Inr b, cache2) \<Rightarrow>
                    (case cache2 of
                       None \<Rightarrow> (Inl (NeedsCacheDir uri), None)
                     | Some c \<Rightarrow>
                         (case cache_put H uri b c of
                            (Inl e, c') \<Rightarrow> (Inl (CacheFailed e), Some c')
                          | (Inr _, c') \<Rightarrow> (Inr b, Some c'))))))"

text \<open>The two ends of a load: a path is loaded, bytes are instantiated under a hint and with the build grant.\<close>

record 'l load_api =
  load_path :: "string \<Rightarrow> string + 'l"
  instantiate_bytes :: "string \<Rightarrow> bytes \<Rightarrow> bool \<Rightarrow> string + 'l"

definition load_extension_from_uri :: "hashers \<Rightarrow> (string \<Rightarrow> string + bytes) \<Rightarrow> 'l load_api \<Rightarrow> bool \<Rightarrow> string \<Rightarrow>
    conn option \<Rightarrow> ((string + uri_error) + 'l) \<times> conn option" where
  "load_extension_from_uri H read L spawn_build uri cache =
     (if starts_with uri ''file:'' then
        (let path = (case strip_prefix ''file://'' uri of
            Some p \<Rightarrow> p
          | None \<Rightarrow> (case strip_prefix ''file:'' uri of Some p \<Rightarrow> p | None \<Rightarrow> uri))
         in (case load_path L path of Inl e \<Rightarrow> Inl (Inl e) | Inr l \<Rightarrow> Inr l, cache))
      else case resolve_uri_to_bytes H read uri cache of
        (Inl e, cache') \<Rightarrow> (Inl (Inr e), cache')
      | (Inr b, cache') \<Rightarrow>
          (let hint = (case pinned_hash_scheme uri of Some (scheme, hex) \<Rightarrow> scheme @ '':'' @ take 8 hex | None \<Rightarrow> uri)
           in (case instantiate_bytes L hint b spawn_build of Inl e \<Rightarrow> Inl (Inl e) | Inr l \<Rightarrow> Inr l, cache')))"

section \<open>From an extension to its prefix\<close>

record prefix_state =
  prefix_cache :: "string \<rightharpoonup> string \<times> string"
  shared_spi_conn :: "prefix_db option"

record prefix_rules =
  propose_prefix :: "string \<Rightarrow> string \<times> string"
  qualify :: "string \<Rightarrow> string \<Rightarrow> string"
  bare_rule :: "string option \<Rightarrow> string \<Rightarrow> bool"
  fallback_limit :: nat

definition ensure_prefix_for_extension :: "prefix_rules \<Rightarrow> int \<Rightarrow> string \<Rightarrow> prefix_state \<Rightarrow> (string \<times> string) option \<times> prefix_state" where
  "ensure_prefix_for_extension Q now ext s =
     (case prefix_cache s ext of
        Some v \<Rightarrow> (Some v, s)
      | None \<Rightarrow>
          (case propose_prefix Q ext of (p, e) \<Rightarrow>
           case shared_spi_conn s of
             None \<Rightarrow> (None, s)
           | Some d \<Rightarrow>
               (case install_prefix_schema d of
                  (Inl _, d1) \<Rightarrow> (None, s\<lparr>shared_spi_conn := Some d1\<rparr>)
                | (Inr _, d1) \<Rightarrow>
                    (case record_prefix_with_collision_fallback (fallback_limit Q) p e now d1 of (r, d2) \<Rightarrow>
                     let pair = (case r of Inr p2 \<Rightarrow> (p2, e) | Inl _ \<Rightarrow> (p, e)) in
                     (Some pair, s\<lparr>shared_spi_conn := Some d2, prefix_cache := (prefix_cache s)(ext \<mapsto> pair)\<rparr>)))))"

record recorded_function =
  rf_qualified :: string
  rf_prefix :: string
  rf_expansion :: string
  rf_other_expansions :: "string list"
  rf_want_bare :: bool

definition record_function_for_extension :: "prefix_rules \<Rightarrow> int \<Rightarrow> string \<Rightarrow> string \<Rightarrow> int \<Rightarrow> prefix_state \<Rightarrow>
    recorded_function option \<times> prefix_state" where
  "record_function_for_extension Q now ext name nargs s =
     (case ensure_prefix_for_extension Q now ext s of
        (None, s1) \<Rightarrow> (None, s1)
      | (Some (prefix, expansion), s1) \<Rightarrow>
          (case (case shared_spi_conn s1 of
              None \<Rightarrow> ([], True, s1)
            | Some d \<Rightarrow>
                (case record_function expansion name nargs ext now d of (r, d1) \<Rightarrow>
                 case should_register_bare (bare_rule Q) name nargs expansion d1 of (q, d2) \<Rightarrow>
                 (case r of Inr others \<Rightarrow> others | Inl _ \<Rightarrow> [], case q of Inr bare \<Rightarrow> bare | Inl _ \<Rightarrow> True,
                  s1\<lparr>shared_spi_conn := Some d2\<rparr>))) of (others, bare, s2) \<Rightarrow>
           (Some \<lparr>rf_qualified = qualify Q prefix name, rf_prefix = prefix, rf_expansion = expansion,
              rf_other_expansions = others, rf_want_bare = bare\<rparr>, s2)))"

section \<open>From a provider's manifest to SQLite\<close>

record wit_manifest =
  w_name :: string
  w_version :: string
  w_scalar_functions :: "(u64 \<times> string \<times> i32) list"
  w_aggregate_functions :: "(u64 \<times> string \<times> i32 \<times> bool) list"
  w_collations :: "(u64 \<times> string) list"
  w_vtabs :: "vtab_spec_e list"
  w_dot_commands :: "dot_spec_e list"
  w_has_authorizer :: bool
  w_has_update_hook :: bool
  w_has_commit_hook :: bool
  w_has_wal_hook :: bool
  w_wal_hook_id :: u64

definition scalar_sql_name :: "string \<Rightarrow> prefix_db option \<Rightarrow> string \<Rightarrow> i32 \<Rightarrow> string" where
  "scalar_sql_name ext conn name num_args =
     (case conn of
        None \<Rightarrow> name
      | Some d \<Rightarrow> (case resolve_collision_free_name ext name (sint num_args) d of Inr res \<Rightarrow> rn_name res | Inl _ \<Rightarrow> name))"

definition manifest_for_provider :: "provider_manifest \<Rightarrow> prefix_db option \<Rightarrow> wit_manifest" where
  "manifest_for_provider m conn =
     \<lparr>w_name = pm_name m, w_version = pm_version m,
      w_scalar_functions = map (\<lambda>(name, i, num_args). (i, scalar_sql_name (pm_name m) conn name num_args, num_args)) (pm_scalar_specs m),
      w_aggregate_functions = map (\<lambda>a. (as_id a, as_name a, as_num_args a, as_is_window a)) (pm_aggregate_specs m),
      w_collations = map (\<lambda>(name, i). (i, name)) (pm_collations m),
      w_vtabs = map (\<lambda>v. \<lparr>vs_id = vs_id v, vs_name = vs_name v, vs_eponymous = vs_eponymous v, vs_mutable = vs_mutable v,
        vs_batched = vs_batched v\<rparr>) (pm_vtab_specs m),
      w_dot_commands = map (\<lambda>d. \<lparr>ds_id = ds_id d, ds_name = ds_name d, ds_version = ds_version d, ds_summary = ds_summary d,
        ds_usage = ds_usage d, ds_requires_write = ds_requires_write d, ds_no_args = ds_no_args d\<rparr>) (pm_dotcmd_specs m),
      w_has_authorizer = pm_has_authorizer m, w_has_update_hook = pm_has_update_hook m, w_has_commit_hook = pm_has_commit_hook m,
      w_has_wal_hook = pm_has_wal_hook m, w_wal_hook_id = pm_wal_hook_id m\<rparr>"

section \<open>Lemmas on URIs\<close>

lemma pinned_schemes:
  "pinned_hash_scheme uri = Some (scheme, hex) \<Longrightarrow> scheme \<in> {''sha256'', ''digest'', ''blake3''} \<and> uri = scheme @ '':'' @ hex"
  by (auto simp: pinned_hash_scheme_def strip_prefix_def starts_with_iff split: if_splits option.splits)

lemma lookup_by_hash_sound:
  assumes "blob_inv H c" "lookup_by_hash hex c = (r, c')"
  shows "store_inv H c' \<and> same_view c c' \<and>
    (case r of
       Some b \<Rightarrow> \<exists>h. decode_hex32 hex = Some h \<and> (contents c h = Some b \<and> blake3 H b = h \<or> blob_view c h = Some b \<and> sha256 H b = h)
     | None \<Rightarrow> \<forall>h. decode_hex32 hex = Some h \<longrightarrow> contents c h = None \<and> blob_view c h = None)"
proof (cases "decode_hex32 hex")
  case None
  with assms show ?thesis by (auto simp: lookup_by_hash_def blob_inv_def)
next
  case (Some h)
  have inv: "store_inv H c" using assms(1) by (simp add: blob_inv_def)
  obtain c1 where g: "get h c = (Inr (contents c h), c1)" "same_view c c1" using get_eval [OF inv] by blast
  have inv1: "store_inv H c1" using keepsD [OF keeps_get inv g(1)] .
  show ?thesis
  proof (cases "contents c h")
    case (Some b)
    then have "r = Some b" "c' = c1" using g \<open>decode_hex32 hex = Some h\<close> assms(2) by (auto simp: lookup_by_hash_def)
    with \<open>decode_hex32 hex = Some h\<close> inv1 g(2) Some contents_address [OF inv Some] show ?thesis by simp
  next
    case None
    have rows: "art_rows c1 = art_rows c" using art_rows_get g None by simp
    then have b1: "blob_inv H c1" "blob_view c1 = blob_view c"
      using assms(1) inv1 by (auto simp: blob_inv_def blob_view_def fun_eq_iff)
    obtain c2 where s: "get_by_sha256_ref h c1 = (Inr (blob_view c h), c2)" "same_view c1 c2"
      using get_by_sha256_eval [OF b1(1), of h] b1(2) by auto
    have "store_inv H c2" using keepsD [OF keeps_get_by_sha256_ref inv1 s(1)] .
    moreover have "r = blob_view c h" "c' = c2" using assms(2) \<open>decode_hex32 hex = Some h\<close> g None s by (auto simp: lookup_by_hash_def)
    moreover have "sha256 H b = h" if "blob_view c h = Some b" for b using blob_view_SomeD [OF assms(1) that] by blast
    ultimately show ?thesis using None \<open>decode_hex32 hex = Some h\<close> same_view_trans [OF g(2) s(2)] by (auto split: option.splits)
  qed
qed

lemma lookup_by_uri_eval:
  assumes "store_inv H c" "digests_32 H"
  shows "\<exists>c'. lookup_by_uri u c = (map_option (\<lambda>h. (hex_lower h, the (contents c h))) (bindings c u), c') \<and> store_inv H c' \<and> same_view c c'"
proof -
  obtain c' where c': "resolve_uri u c = (Inr (case bindings c u of None \<Rightarrow> None | Some h \<Rightarrow> Some (h, the (contents c h))), c')" "same_view c c'"
    using resolve_uri_eval [OF assms] by blast
  then have "store_inv H c'" using keepsD [OF keeps_resolve_uri assms(1)] by blast
  with c' show ?thesis by (auto simp: lookup_by_uri_def split: option.splits)
qed

text \<open>A URI that is neither pinned nor a \<open>file:\<close> one has no resolver left: it loads from the cache or not at all.\<close>

definition no_resolver :: "string \<Rightarrow> uri_error" where
  "no_resolver uri = (case split_once (CHR '':'') uri of None \<Rightarrow> NotAUri uri | Some (scheme, _) \<Rightarrow> UnsupportedScheme scheme)"

lemma unpinned_unresolved:
  assumes "pinned_hash_scheme uri = None" "\<not> starts_with uri ''file:''"
  shows "host_resolve_uri read uri cache = (Inl (no_resolver uri), cache)"
proof (cases "split_once (CHR '':'') uri")
  case None
  then show ?thesis by (simp add: host_resolve_uri_def no_resolver_def)
next
  case (Some sr)
  obtain scheme rest where sr: "sr = (scheme, rest)" by (cases sr)
  then have "uri = scheme @ CHR '':'' # rest" using Some by (simp add: split_once_eq_Some)
  then have "scheme \<notin> {''file'', ''blake3'', ''sha256'', ''digest''}"
    using assms by (auto simp: pinned_hash_scheme_def strip_prefix_def)
  with Some sr show ?thesis by (simp add: host_resolve_uri_def no_resolver_def)
qed

lemma cached_or_unresolved:
  assumes "store_inv H c" "digests_32 H" "pinned_hash_scheme uri = None" "\<not> starts_with uri ''file:''"
  shows "\<exists>c'. store_inv H c' \<and> same_view c c' \<and> (\<forall>read. resolve_uri_to_bytes H read uri (Some c) =
    (case bindings c uri of Some h \<Rightarrow> Inr (the (contents c h)) | None \<Rightarrow> Inl (no_resolver uri), Some c'))"
proof -
  obtain c' where c': "lookup_by_uri uri c = (map_option (\<lambda>h. (hex_lower h, the (contents c h))) (bindings c uri), c')"
    "store_inv H c'" "same_view c c'" using lookup_by_uri_eval [OF assms(1,2)] by blast
  then have "resolve_uri_to_bytes H read uri (Some c) =
      (case bindings c uri of Some h \<Rightarrow> Inr (the (contents c h)) | None \<Rightarrow> Inl (no_resolver uri), Some c')" for read
    using assms(3) unpinned_unresolved [OF assms(3,4), of read "Some c'"]
    by (cases "bindings c uri") (simp_all add: resolve_uri_to_bytes_def cached_by_uri_def)
  with c'(2,3) show ?thesis by blast
qed

lemma bound_contents:
  assumes "store_inv H c" "bindings c u = Some h"
  shows "\<exists>b. contents c h = Some b \<and> blake3 H b = h"
  using bindings_stored [OF assms] contents_address [OF assms(1)] by blast

section \<open>Properties of loading\<close>


text \<open>An artifact that was put into the cache is what a URI pinned to its blake3 digest instantiates.\<close>

definition toy_load :: "bytes load_api" where
  "toy_load = \<lparr>load_path = (\<lambda>p. Inl ''no such file''), instantiate_bytes = (\<lambda>hint b spawn. Inr b)\<rparr>"


section \<open>Prefixes of extensions\<close>

text \<open>The proposed prefix and all its alternatives belong to other expansions.\<close>

definition exhausted :: "prefix_rules \<Rightarrow> prefix_db \<Rightarrow> string \<Rightarrow> bool" where
  "exhausted Q d ext \<longleftrightarrow> (\<forall>q \<in> set (fst (propose_prefix Q ext) # alternatives (fst (propose_prefix Q ext)) 2 (fallback_limit Q - 1)).
     \<exists>x. expansions d q = Some x \<and> x \<noteq> snd (propose_prefix Q ext))"

definition holds_prefix :: "prefix_rules \<Rightarrow> prefix_db \<Rightarrow> string \<Rightarrow> string \<times> string \<Rightarrow> bool" where
  "holds_prefix Q d ext v \<longleftrightarrow> snd v = snd (propose_prefix Q ext) \<and> (expansions d (fst v) = Some (snd v) \<or> exhausted Q d ext)"

definition session_inv :: "prefix_rules \<Rightarrow> prefix_state \<Rightarrow> bool" where
  "session_inv Q s \<longleftrightarrow> (\<exists>d. shared_spi_conn s = Some d \<and> (prefix_t d = None \<or> prefix_inv d) \<and>
     (\<forall>ext v. prefix_cache s ext = Some v \<longrightarrow> holds_prefix Q d ext v))"

lemma install_prefix_eval:
  assumes "prefix_t d = None \<or> prefix_inv d"
  shows "\<exists>d1. install_prefix_schema d = (Inr (), d1) \<and> prefix_inv d1 \<and> expansions d1 = expansions d"
  using assms by (auto simp: install_prefix_schema_def put_db_def prefix_inv_def expansions_def fun_eq_iff)

lemma holds_prefix_grows:
  assumes "holds_prefix Q d ext v" "\<And>q x. expansions d q = Some x \<Longrightarrow> expansions d' q = Some x"
  shows "holds_prefix Q d' ext v"
  using assms unfolding holds_prefix_def exhausted_def by blast

lemma ensure_prefix_session:
  assumes "session_inv Q s"
  shows "\<exists>v s'. ensure_prefix_for_extension Q now ext s = (Some v, s') \<and> session_inv Q s' \<and> prefix_cache s' ext = Some v \<and>
    (\<forall>x w. prefix_cache s x = Some w \<longrightarrow> prefix_cache s' x = Some w)"
proof -
  obtain d where d: "shared_spi_conn s = Some d" "prefix_t d = None \<or> prefix_inv d"
    "\<forall>ext v. prefix_cache s ext = Some v \<longrightarrow> holds_prefix Q d ext v" using assms by (auto simp: session_inv_def)
  show ?thesis
  proof (cases "prefix_cache s ext")
    case (Some v)
    with assms show ?thesis by (simp add: ensure_prefix_for_extension_def)
  next
    case None
    obtain p e where pe: "propose_prefix Q ext = (p, e)" by fastforce
    obtain d1 where d1: "install_prefix_schema d = (Inr (), d1)" "prefix_inv d1" "expansions d1 = expansions d"
      using install_prefix_eval [OF d(2)] by blast
    obtain r d2 where r: "record_prefix_with_collision_fallback (fallback_limit Q) p e now d1 = (r, d2)" by fastforce
    let ?v = "(case r of Inr p2 \<Rightarrow> (p2, e) | Inl _ \<Rightarrow> (p, e))"
    note laws = record_prefix_laws [OF d1(2) r]
    have grows: "expansions d q = Some x \<Longrightarrow> expansions d2 q = Some x" for q x using laws d1(3) by simp
    have "holds_prefix Q d2 ext ?v"
    proof (cases r)
      case (Inr a)
      then show ?thesis using laws pe by (simp add: holds_prefix_def)
    next
      case (Inl err)
      then have ff: "first_fit d1 e (p # alternatives p 2 (fallback_limit Q - 1)) = None"
        using record_prefix_eval [OF d1(2), of "fallback_limit Q" p e now] r
        by (cases "first_fit d1 e (p # alternatives p 2 (fallback_limit Q - 1))") (simp_all del: first_fit.simps)
      have "exhausted Q d2 ext" unfolding exhausted_def pe using first_fit_None [OF ff] grows d1(3) by (metis fst_conv snd_conv)
      with Inl pe show ?thesis by (simp add: holds_prefix_def)
    qed
    moreover have "holds_prefix Q d2 x w" if "prefix_cache s x = Some w" for x w
      using holds_prefix_grows d(3) that grows by blast
    moreover have "ensure_prefix_for_extension Q now ext s =
        (Some ?v, s\<lparr>shared_spi_conn := Some d2, prefix_cache := (prefix_cache s)(ext \<mapsto> ?v)\<rparr>)"
      using None pe d(1) d1(1) r by (simp add: ensure_prefix_for_extension_def Let_def)
    ultimately show ?thesis using laws None by (auto simp: session_inv_def)
  qed
qed

text \<open>Recording functions and reading pins leaves the prefixes alone.\<close>

lemma record_function_prefixes: "record_function e name nargs ext now d = (r, d') \<Longrightarrow> prefix_t d' = prefix_t d"
  by (auto simp: record_function_def table_def put_db_def bnd_def Let_def split: option.splits)

lemma should_register_bare_pure: "should_register_bare rule name nargs e d = (r, d') \<Longrightarrow> d' = d"
  by (auto simp: should_register_bare_def lookup_pin_def table_def bnd_def split: option.splits)

lemma same_prefixes: "prefix_t d' = prefix_t d \<Longrightarrow> prefix_inv d' = prefix_inv d \<and> expansions d' = expansions d"
  by (simp add: prefix_inv_def expansions_def fun_eq_iff)

lemma record_extension_session:
  assumes "session_inv Q s"
  shows "\<exists>rf s'. record_function_for_extension Q now ext name nargs s = (Some rf, s') \<and> session_inv Q s' \<and>
    rf_qualified rf = qualify Q (rf_prefix rf) name \<and> prefix_cache s' ext = Some (rf_prefix rf, rf_expansion rf) \<and>
    (\<forall>x w. prefix_cache s x = Some w \<longrightarrow> prefix_cache s' x = Some w)"
proof -
  obtain v s1 where e: "ensure_prefix_for_extension Q now ext s = (Some v, s1)" "session_inv Q s1" "prefix_cache s1 ext = Some v"
    "\<forall>x w. prefix_cache s x = Some w \<longrightarrow> prefix_cache s1 x = Some w" using ensure_prefix_session [OF assms] by blast
  obtain p x where v: "v = (p, x)" by (cases v)
  obtain d where d: "shared_spi_conn s1 = Some d" "prefix_t d = None \<or> prefix_inv d"
    "\<forall>ext v. prefix_cache s1 ext = Some v \<longrightarrow> holds_prefix Q d ext v" using e(2) by (auto simp: session_inv_def)
  obtain r d1 where r: "record_function x name nargs ext now d = (r, d1)" by fastforce
  obtain q where q: "should_register_bare (bare_rule Q) name nargs x d1 = (q, d1)"
    using should_register_bare_pure by (metis surj_pair)
  note same = same_prefixes [OF record_function_prefixes [OF r]]
  have "holds_prefix Q d1 = holds_prefix Q d" using same by (simp add: holds_prefix_def exhausted_def fun_eq_iff)
  then have "session_inv Q (s1\<lparr>shared_spi_conn := Some d1\<rparr>)"
    using d same record_function_prefixes [OF r] by (simp add: session_inv_def)
  then show ?thesis using e v d(1) r q by (simp add: record_function_for_extension_def)
qed

lemma record_session:
  "session_inv Q s \<Longrightarrow>
   session_inv Q (foldl (\<lambda>s (ext, name, nargs, now). snd (record_function_for_extension Q now ext name nargs s)) s calls)"
proof (induction calls arbitrary: s)
  case (Cons a calls)
  obtain ext name nargs now where a: "a = (ext, name, nargs, now)" by (metis prod_cases4)
  from record_extension_session [OF Cons.prems, of now ext name nargs]
  have "session_inv Q (snd (record_function_for_extension Q now ext name nargs s))" by auto
  from Cons.IH [OF this] show ?case by (simp add: a)
qed simp

text \<open>C33. Extensions with different expansions get different prefixes. In a session that registers the functions
  of any extensions in any order, every function is recorded with the qualified name built from its extension's
  prefix; that prefix never changes once assigned; and it differs from the prefix of every other extension with
  another expansion, unless the prefix proposed for one of the two and all its numbered alternatives were taken.\<close>

theorem extension_prefixes_separate:
  fixes s0 :: prefix_state and calls :: "(string \<times> string \<times> int \<times> int) list"
  assumes "prefix_cache s0 = Map.empty" "shared_spi_conn s0 = Some d0" "prefix_t d0 = None \<or> prefix_inv d0"
    and "s = foldl (\<lambda>s (ext, name, nargs, now). snd (record_function_for_extension Q now ext name nargs s)) s0 calls"
  shows "\<exists>rf s' d'. record_function_for_extension Q now ext name nargs s = (Some rf, s') \<and> shared_spi_conn s' = Some d' \<and>
    rf_qualified rf = qualify Q (rf_prefix rf) name \<and> rf_expansion rf = snd (propose_prefix Q ext) \<and>
    (\<forall>v. prefix_cache s ext = Some v \<longrightarrow> v = (rf_prefix rf, rf_expansion rf)) \<and>
    (\<forall>ext' p' e'. prefix_cache s' ext' = Some (p', e') \<and> e' \<noteq> rf_expansion rf \<and> \<not> exhausted Q d' ext \<and> \<not> exhausted Q d' ext' \<longrightarrow>
       p' \<noteq> rf_prefix rf)"
proof -
  have "session_inv Q s0" using assms(1-3) by (simp add: session_inv_def)
  then have i: "session_inv Q s" unfolding assms(4) by (rule record_session)
  obtain rf s' where rf: "record_function_for_extension Q now ext name nargs s = (Some rf, s')" "session_inv Q s'"
    "rf_qualified rf = qualify Q (rf_prefix rf) name" "prefix_cache s' ext = Some (rf_prefix rf, rf_expansion rf)"
    "\<forall>x w. prefix_cache s x = Some w \<longrightarrow> prefix_cache s' x = Some w"
    using record_extension_session [OF i, of now ext name nargs] by blast
  obtain d' where d': "shared_spi_conn s' = Some d'" "\<forall>ext v. prefix_cache s' ext = Some v \<longrightarrow> holds_prefix Q d' ext v"
    using rf(2) by (auto simp: session_inv_def)
  have "\<forall>ext' p' e'. prefix_cache s' ext' = Some (p', e') \<and> e' \<noteq> rf_expansion rf \<and> \<not> exhausted Q d' ext \<and> \<not> exhausted Q d' ext' \<longrightarrow>
       p' \<noteq> rf_prefix rf"
  proof (intro allI impI; elim conjE)
    fix ext' p' e'
    assume a: "prefix_cache s' ext' = Some (p', e')" "e' \<noteq> rf_expansion rf" "\<not> exhausted Q d' ext" "\<not> exhausted Q d' ext'"
    have "expansions d' p' = Some e'" using d'(2) a(1,4) unfolding holds_prefix_def by (metis fst_conv snd_conv)
    moreover have "expansions d' (rf_prefix rf) = Some (rf_expansion rf)"
      using d'(2) rf(4) a(3) unfolding holds_prefix_def by (metis fst_conv snd_conv)
    ultimately show "p' \<noteq> rf_prefix rf" using a(2) by auto
  qed
  moreover have "rf_expansion rf = snd (propose_prefix Q ext)" 
    using d'(2) rf(4) unfolding holds_prefix_def by (metis snd_conv)
  moreover have "\<forall>v. prefix_cache s ext = Some v \<longrightarrow> v = (rf_prefix rf, rf_expansion rf)" using rf(4,5) by fastforce
  ultimately show ?thesis using rf(1,3) d'(1) by blast
qed

text \<open>Two extensions that propose the same prefix: the second one is given the first alternative.\<close>

definition toy_rules :: prefix_rules where
  "toy_rules = \<lparr>propose_prefix = (\<lambda>ext. (''geo'', ''sqlink-internal://'' @ ext)), qualify = (\<lambda>p n. p @ ''__'' @ n),
     bare_rule = (\<lambda>pinned e. pinned = None \<or> pinned = Some e), fallback_limit = 3\<rparr>"

definition blank_session :: prefix_state where
  "blank_session = \<lparr>prefix_cache = Map.empty,
     shared_spi_conn = Some \<lparr>prefix_t = None, function_t = None, pin_t = None, function_list = []\<rparr>\<rparr>"

definition geos_session :: prefix_state where
  "geos_session = foldl (\<lambda>s (ext, name, nargs, now). snd (record_function_for_extension toy_rules now ext name nargs s)) blank_session
     [(''geos'', ''area'', 2, 0)]"

lemma both_recorded:
  "prefix_cache (snd (record_function_for_extension toy_rules 1 ''h3'' ''area'' 2 geos_session)) ''geos'' = Some (''geo'', ''sqlink-internal://geos'')"
  "rf_expansion (the (fst (record_function_for_extension toy_rules 1 ''h3'' ''area'' 2 geos_session))) = ''sqlink-internal://h3''"
  "map (expansions (the (shared_spi_conn (snd (record_function_for_extension toy_rules 1 ''h3'' ''area'' 2 geos_session))))) [''geo3''] = [None]"
  by code_simp+

lemma geo_not_exhausted: "expansions d ''geo3'' = None \<Longrightarrow> \<not> exhausted toy_rules d ext"
proof -
  have "''geo3'' \<in> set (alternatives ''geo'' 2 2)" by code_simp
  then show "expansions d ''geo3'' = None \<Longrightarrow> \<not> exhausted toy_rules d ext"
    by (auto simp: exhausted_def toy_rules_def intro!: bexI [of _ "''geo3''"])
qed

theorem extension_prefixes_separate_witness:
  "\<exists>rf s'. record_function_for_extension toy_rules 1 ''h3'' ''area'' 2 geos_session = (Some rf, s') \<and>
     rf_qualified rf = qualify toy_rules (rf_prefix rf) ''area'' \<and>
     (\<exists>p e. prefix_cache s' ''geos'' = Some (p, e) \<and> p \<noteq> rf_prefix rf)"
proof -
  have "prefix_cache blank_session = Map.empty"
    "shared_spi_conn blank_session = Some \<lparr>prefix_t = None, function_t = None, pin_t = None, function_list = []\<rparr>"
    by (simp_all add: blank_session_def)
  from extension_prefixes_separate [OF this _ geos_session_def, where now = 1 and ext = "''h3''" and name = "''area''" and nargs = 2]
  obtain rf s' d' where rf: "record_function_for_extension toy_rules 1 ''h3'' ''area'' 2 geos_session = (Some rf, s')"
    "shared_spi_conn s' = Some d'" "rf_qualified rf = qualify toy_rules (rf_prefix rf) ''area''"
    "\<forall>ext' p' e'. prefix_cache s' ext' = Some (p', e') \<and> e' \<noteq> rf_expansion rf \<and> \<not> exhausted toy_rules d' ''h3'' \<and>
       \<not> exhausted toy_rules d' ext' \<longrightarrow> p' \<noteq> rf_prefix rf"
    unfolding prefix_db.simps by blast
  from both_recorded rf(1,2) have "prefix_cache s' ''geos'' = Some (''geo'', ''sqlink-internal://geos'')"
    "''sqlink-internal://geos'' \<noteq> rf_expansion rf" "expansions d' ''geo3'' = None" by simp_all
  with rf(4) geo_not_exhausted have "''geo'' \<noteq> rf_prefix rf" by blast
  with rf(1,3) \<open>prefix_cache s' ''geos'' = _\<close> show ?thesis by blast
qed

section \<open>Names of a provider's functions\<close>

text \<open>No scalar of a provider hides a function of the connection.\<close>

lemma provider_names_free:
  assumes "(i, n, a) \<in> set (w_scalar_functions (manifest_for_provider m (Some d)))" "length (function_list d) < 1000"
  shows "\<not> function_exists n (sint a) d"
proof -
  obtain name where n: "n = scalar_sql_name (pm_name m) (Some d) name a" using assms(1) by (auto simp: manifest_for_provider_def)
  have "List.find (\<lambda>c. \<not> function_exists c (sint a) d) (name_candidates (pm_name m) name) \<noteq> None"
    using some_name_free [OF assms(2), of "pm_name m" name "sint a"] by (auto simp: find_None_iff)
  then obtain c where c: "List.find (\<lambda>c. \<not> function_exists c (sint a) d) (name_candidates (pm_name m) name) = Some c" by blast
  then have "n = c" using n by (simp add: scalar_sql_name_def resolve_name_eval)
  moreover have "\<not> function_exists c (sint a) d" using c by (auto simp: find_Some_iff)
  ultimately show ?thesis by simp
qed

text \<open>Dispatch is by id, so ids and arities are those of the provider, in order.\<close>

lemma provider_ids_kept:
  "map (\<lambda>(i, n, a). (i, a)) (w_scalar_functions (manifest_for_provider m conn)) = map (\<lambda>(n, i, a). (i, a)) (pm_scalar_specs m)"
  by (simp add: manifest_for_provider_def split_def comp_def)

text \<open>But two scalars of one provider can be given the same name: each is resolved against the connection alone,
  before any of them is registered.\<close>

theorem provider_scalars_can_clash:
  "map (\<lambda>(i, n, a). (n, a)) (w_scalar_functions (manifest_for_provider
      (expected_manifest (uuid_desc\<lparr>d_name := ''ext'', d_scalars := [(''upper'', 1, 1, \<lparr>deterministic = True, direct_only = False, innocuous = False\<rparr>),
         (''ext_upper'', 2, 1, \<lparr>deterministic = True, direct_only = False, innocuous = False\<rparr>)]\<rparr>)) (Some toy_prefixes))) =
   [(''ext_upper'', 1), (''ext_upper'', 1)]"
  by (simp add: manifest_for_provider_def expected_manifest_def uuid_desc_def scalar_sql_name_def resolve_collision_free_name_def
      function_exists_def toy_prefixes_def Let_def)

end
