(* ===== verification/Typed_Values.thy ===== *)
theory Typed_Values
  imports Provider_Envelope
begin

text \<open>
  The registry of typed values, \<^verbatim>\<open>host/src/typed_value.rs\<close>, and the two conversions of \<^verbatim>\<open>host/src/lib.rs\<close> that use it
  (\<open>decode_wit_value\<close>, \<open>encode_wit_value\<close>). A binding says which extension can read the values of a type; the
  registry has at most one binding for a type. A codec is code of a guest, so it is an argument.

  Shown: what was declared stays declared, unchanged, until its extension is removed; a refused manifest leaves the
  part before the conflict behind; a value written through a codec is read back.
\<close>

section \<open>Bindings\<close>

record typed_value_binding =
  tb_type_id :: bytes
  tb_symbolic_name :: string
  tb_decoder_import :: string
  tb_encoder_import :: string
  tb_extension_name :: string

type_synonym typed_value_registry = "bytes \<rightharpoonup> typed_value_binding"

record registry_conflict =
  rc_type_id :: bytes
  rc_existing :: typed_value_binding
  rc_incoming :: typed_value_binding

type_synonym 'a registry_op = "(registry_conflict, typed_value_registry, 'a) op"

definition tv_insert :: "typed_value_binding \<Rightarrow> unit registry_op" where
  "tv_insert b w =
     (case w (tb_type_id b) of
        Some existing \<Rightarrow>
          if existing = b then (Inr (), w)
          else (Inl \<lparr>rc_type_id = tb_type_id b, rc_existing = existing, rc_incoming = b\<rparr>, w)
      | None \<Rightarrow> (Inr (), w(tb_type_id b \<mapsto> b)))"

fun tv_insert_all :: "typed_value_binding list \<Rightarrow> unit registry_op" where
  "tv_insert_all [] = ret ()"
| "tv_insert_all (b # bs) = bnd (tv_insert b) (\<lambda>_. tv_insert_all bs)"

definition tv_lookup :: "bytes \<Rightarrow> typed_value_registry \<Rightarrow> typed_value_binding option" where
  "tv_lookup i w = w i"

definition tv_remove_extension :: "string \<Rightarrow> typed_value_registry \<Rightarrow> typed_value_registry" where
  "tv_remove_extension name w =
     (\<lambda>i. case w i of Some b \<Rightarrow> if tb_extension_name b \<noteq> name then Some b else None | None \<Rightarrow> None)"

definition tv_snapshot :: "typed_value_registry \<Rightarrow> typed_value_binding set" where
  "tv_snapshot w = ran w"

section \<open>Codecs\<close>

record typed_value_codec =
  decode_to_canon :: "bytes \<Rightarrow> string + bytes"
  encode_from_canon :: "bytes \<Rightarrow> string + bytes"

type_synonym typed_value_codecs = "bytes \<rightharpoonup> typed_value_codec"

definition tc_install :: "bytes \<Rightarrow> typed_value_codec \<Rightarrow> typed_value_codecs \<Rightarrow> typed_value_codecs" where
  "tc_install i c cs = cs(i \<mapsto> c)"

definition tc_remove :: "bytes \<Rightarrow> typed_value_codecs \<Rightarrow> typed_value_codecs" where
  "tc_remove i cs = cs(i := None)"

datatype wit_value_error =
    NoBinding bytes "string option"
  | CodecRejected string string string

definition decode_wit_value :: "typed_value_registry \<Rightarrow> typed_value_codecs \<Rightarrow> wit_value_payload \<Rightarrow> wit_value_error + bytes" where
  "decode_wit_value w cs payload =
     sbind (ok_or (NoBinding (wp_type_id payload) (Some (wp_symbolic_name payload))) (tv_lookup (wp_type_id payload) w)) (\<lambda>binding.
     case cs (wp_type_id payload) of
       Some codec \<Rightarrow>
         (case decode_to_canon codec (wp_bytes payload) of
            Inl e \<Rightarrow> Inl (CodecRejected (tb_symbolic_name binding) (tb_extension_name binding) e)
          | Inr b \<Rightarrow> Inr b)
     | None \<Rightarrow> Inr (wp_bytes payload))"

definition encode_wit_value :: "typed_value_registry \<Rightarrow> typed_value_codecs \<Rightarrow> bytes \<Rightarrow> bytes \<Rightarrow> wit_value_error + wit_value_payload" where
  "encode_wit_value w cs type_id canon =
     sbind (ok_or (NoBinding type_id None) (tv_lookup type_id w)) (\<lambda>binding.
     sbind (case cs type_id of
              Some codec \<Rightarrow>
                (case encode_from_canon codec canon of
                   Inl e \<Rightarrow> Inl (CodecRejected (tb_symbolic_name binding) (tb_extension_name binding) e)
                 | Inr b \<Rightarrow> Inr b)
            | None \<Rightarrow> Inr canon) (\<lambda>b.
     Inr \<lparr>wp_type_id = type_id, wp_bytes = b, wp_symbolic_name = tb_symbolic_name binding\<rparr>))"

section \<open>The registry\<close>

text \<open>Every binding is kept under its own type.\<close>

definition registry_ok :: "typed_value_registry \<Rightarrow> bool" where
  "registry_ok w \<longleftrightarrow> (\<forall>i b. w i = Some b \<longrightarrow> tb_type_id b = i)"

lemma tv_insert_cases:
  "tv_insert b w = (r, w') \<Longrightarrow>
     (r = Inr () \<and> w' = w(tb_type_id b \<mapsto> b) \<and> (\<forall>e. w (tb_type_id b) = Some e \<longrightarrow> e = b)) \<or>
     (\<exists>e. r = Inl \<lparr>rc_type_id = tb_type_id b, rc_existing = e, rc_incoming = b\<rparr> \<and> w' = w \<and> w (tb_type_id b) = Some e \<and> e \<noteq> b)"
  by (auto simp: tv_insert_def split: option.splits if_splits)

lemma tv_insert_ok:
  assumes "registry_ok w" "tv_insert b w = (r, w')"
  shows "registry_ok w' \<and> w \<subseteq>\<^sub>m w'"
  using tv_insert_cases [OF assms(2)]
proof
  assume c: "r = Inr () \<and> w' = w(tb_type_id b \<mapsto> b) \<and> (\<forall>e. w (tb_type_id b) = Some e \<longrightarrow> e = b)"
  then have "w \<subseteq>\<^sub>m w'" by (auto simp: map_le_def)
  with c assms(1) show ?thesis by (simp add: registry_ok_def)
next
  assume "\<exists>e. r = Inl \<lparr>rc_type_id = tb_type_id b, rc_existing = e, rc_incoming = b\<rparr> \<and> w' = w \<and> w (tb_type_id b) = Some e \<and> e \<noteq> b"
  with assms(1) show ?thesis by auto
qed

lemma tv_insert_all_grows: "registry_ok w \<Longrightarrow> tv_insert_all bs w = (r, w') \<Longrightarrow> registry_ok w' \<and> w \<subseteq>\<^sub>m w'"
proof (induction bs arbitrary: w)
  case (Cons b bs)
  obtain x w1 where i: "tv_insert b w = (x, w1)" by fastforce
  note g = tv_insert_ok [OF Cons.prems(1) i]
  show ?case
  proof (cases x)
    case (Inl c)
    with i Cons.prems(2) g show ?thesis by (simp add: bnd_Inl)
  next
    case (Inr u)
    with i Cons.prems(2) have "tv_insert_all bs w1 = (r, w')" by (simp add: bnd_Inr)
    from Cons.IH [OF _ this] g show ?thesis by (auto intro: map_le_trans)
  qed
qed simp

text \<open>A manifest is accepted exactly if none of its bindings disagrees with another one or with the registry,
  and the bindings are then all found.\<close>

definition compatible_bindings :: "typed_value_binding list \<Rightarrow> typed_value_registry \<Rightarrow> bool" where
  "compatible_bindings bs w \<longleftrightarrow>
     (\<forall>b\<in>set bs. (\<forall>e. w (tb_type_id b) = Some e \<longrightarrow> e = b) \<and> (\<forall>b'\<in>set bs. tb_type_id b' = tb_type_id b \<longrightarrow> b' = b))"

lemma compatible_Cons:
  "compatible_bindings (b # bs) w \<longleftrightarrow>
     (\<forall>e. w (tb_type_id b) = Some e \<longrightarrow> e = b) \<and> compatible_bindings bs (w(tb_type_id b \<mapsto> b)) \<and>
     compatible_bindings bs w"
  by (auto simp: compatible_bindings_def)

lemma tv_insert_all_iff:
  "fst (tv_insert_all bs w) = Inr () \<longleftrightarrow> compatible_bindings bs w"
proof (induction bs arbitrary: w)
  case Nil
  then show ?case by (simp add: compatible_bindings_def)
next
  case (Cons b bs)
  have w: "compatible_bindings bs (w(tb_type_id b \<mapsto> b)) \<Longrightarrow> (\<forall>e. w (tb_type_id b) = Some e \<longrightarrow> e = b) \<Longrightarrow> compatible_bindings bs w"
    by (auto simp: compatible_bindings_def split: if_splits)
  obtain x w1 where i: "tv_insert b w = (x, w1)" by fastforce
  from tv_insert_cases [OF i] show ?case
  proof
    assume c: "x = Inr () \<and> w1 = w(tb_type_id b \<mapsto> b) \<and> (\<forall>e. w (tb_type_id b) = Some e \<longrightarrow> e = b)"
    with i have "fst (tv_insert_all (b # bs) w) = fst (tv_insert_all bs (w(tb_type_id b \<mapsto> b)))" by (simp add: bnd_Inr)
    with Cons.IH c w compatible_Cons show ?thesis by metis
  next
    assume c: "\<exists>e. x = Inl \<lparr>rc_type_id = tb_type_id b, rc_existing = e, rc_incoming = b\<rparr> \<and> w1 = w \<and> w (tb_type_id b) = Some e \<and> e \<noteq> b"
    with i have "fst (tv_insert_all (b # bs) w) \<noteq> Inr ()" by (auto simp: bnd_Inl)
    with c compatible_Cons show ?thesis by metis
  qed
qed

lemma tv_insert_all_found:
  "tv_insert_all bs w = (Inr (), w') \<Longrightarrow> b \<in> set bs \<Longrightarrow> registry_ok w \<Longrightarrow> tv_lookup (tb_type_id b) w' = Some b"
proof (induction bs arbitrary: w)
  case (Cons a bs)
  from Cons.prems(1) obtain w1 where i: "tv_insert a w = (Inr (), w1)" and r: "tv_insert_all bs w1 = (Inr (), w')"
    by (auto simp: bnd_eq_Inr_iff)
  note ok = tv_insert_ok [OF Cons.prems(3) i]
  show ?case
  proof (cases "b \<in> set bs")
    case True
    with Cons.IH [OF r] ok show ?thesis by blast
  next
    case False
    with Cons.prems(2) tv_insert_cases [OF i] have "w1 (tb_type_id b) = Some b" by auto
    with tv_insert_all_grows [OF _ r] ok show ?thesis by (fastforce simp: tv_lookup_def map_le_def dom_def)
  qed
qed simp

section \<open>Removal\<close>

lemma remove_extension_lookup:
  "tv_lookup i (tv_remove_extension name w) = Some b \<longleftrightarrow> tv_lookup i w = Some b \<and> tb_extension_name b \<noteq> name"
  by (auto simp: tv_lookup_def tv_remove_extension_def split: option.splits if_splits)

lemma registry_ok_remove: "registry_ok w \<Longrightarrow> registry_ok (tv_remove_extension name w)"
  by (auto simp: registry_ok_def tv_remove_extension_def split: option.splits if_splits)

section \<open>Conversions\<close>

text \<open>A value that was written is read back, if the codec of its type does so.\<close>

definition codec_inverse :: "typed_value_codec \<Rightarrow> bool" where
  "codec_inverse c \<longleftrightarrow> (\<forall>canon b. encode_from_canon c canon = Inr b \<longrightarrow> decode_to_canon c b = Inr canon)"

lemma wit_value_roundtrip:
  assumes "encode_wit_value w cs i canon = Inr p" "\<And>c. cs i = Some c \<Longrightarrow> codec_inverse c"
  shows "decode_wit_value w cs p = Inr canon \<and> wp_type_id p = i \<and> (\<exists>b. tv_lookup i w = Some b \<and> wp_symbolic_name p = tb_symbolic_name b)"
  using assms
  by (auto simp: encode_wit_value_def decode_wit_value_def sbind_eq_Inr_iff ok_or_def codec_inverse_def
      split: option.splits sum.splits)

text \<open>A type nobody declared is refused, whatever codec is installed.\<close>

lemma undeclared_type_refused:
  "tv_lookup i w = None \<Longrightarrow> encode_wit_value w cs i canon = Inl (NoBinding i None)"
  "tv_lookup (wp_type_id p) w = None \<Longrightarrow> decode_wit_value w cs p = Inl (NoBinding (wp_type_id p) (Some (wp_symbolic_name p)))"
  by (simp_all add: encode_wit_value_def decode_wit_value_def ok_or_def)

end
