(* ===== verification/Sub_Ext.thy ===== *)
theory Sub_Ext
  imports Rust_Text
begin

text \<open>
  Sub-extensions, \<^verbatim>\<open>host/src/sub_ext.rs\<close>: the three environment variables that name bridges, prebuilt components and
  aliases, and the resolution of an alias. The environment is an argument; maps are partial functions.

  Shown: only well-formed entries count and the last one wins; alias resolution returns after at most eight hops, at the
  end of the chain if there is one within reach.
\<close>

definition sub_ext_provider_id :: "string \<Rightarrow> string" where
  "sub_ext_provider_id sub_ext = sub_ext @ ''-composed''"

record sub_ext_loader =
  bridge_paths :: "string \<rightharpoonup> string"
  prebuilt_paths :: "string \<rightharpoonup> string"
  shim_alias :: "string \<rightharpoonup> string"

definition map_env_entry :: "string \<Rightarrow> (string \<times> string) option" where
  "map_env_entry entry =
     (case split_once CHR ''='' (trim entry) of
        None \<Rightarrow> None
      | Some (name, path) \<Rightarrow> if trim name = [] then None else Some (trim name, trim path))"

fun insert_entries :: "string list \<Rightarrow> (string \<rightharpoonup> string) \<Rightarrow> (string \<rightharpoonup> string)" where
  "insert_entries [] out = out"
| "insert_entries (entry # es) out =
     (case map_env_entry entry of
        None \<Rightarrow> insert_entries es out
      | Some (name, path) \<Rightarrow> insert_entries es (out(name \<mapsto> path)))"

definition parse_map_env :: "(string \<Rightarrow> string option) \<Rightarrow> string \<Rightarrow> (string \<rightharpoonup> string)" where
  "parse_map_env env var =
     (case env var of
        Some v \<Rightarrow> if trim v \<noteq> [] then insert_entries (split_on CHR '':'' v) Map.empty else Map.empty
      | None \<Rightarrow> Map.empty)"

definition sub_ext_from_env :: "(string \<Rightarrow> string option) \<Rightarrow> sub_ext_loader" where
  "sub_ext_from_env env =
     \<lparr>bridge_paths = parse_map_env env ''SQLINK_SUB_EXT_BRIDGES'',
      prebuilt_paths = parse_map_env env ''SQLINK_SUB_EXT_PREBUILT'',
      shim_alias = parse_map_env env ''SQLINK_SUB_EXT_ALIAS''\<rparr>"

definition has_bridge :: "sub_ext_loader \<Rightarrow> string \<Rightarrow> bool" where
  "has_bridge L sub_ext \<longleftrightarrow> bridge_paths L sub_ext \<noteq> None \<or> prebuilt_paths L sub_ext \<noteq> None"

definition bridge_path :: "sub_ext_loader \<Rightarrow> string \<Rightarrow> string option" where
  "bridge_path L sub_ext = (case bridge_paths L sub_ext of Some p \<Rightarrow> Some p | None \<Rightarrow> prebuilt_paths L sub_ext)"

definition prebuilt_path :: "sub_ext_loader \<Rightarrow> string \<Rightarrow> string option" where
  "prebuilt_path L sub_ext = prebuilt_paths L sub_ext"

fun alias_hops :: "nat \<Rightarrow> sub_ext_loader \<Rightarrow> string \<Rightarrow> string" where
  "alias_hops 0 L current = current"
| "alias_hops (Suc n) L current = (case shim_alias L current of Some nxt \<Rightarrow> alias_hops n L nxt | None \<Rightarrow> current)"

definition resolve_shim_alias :: "sub_ext_loader \<Rightarrow> string \<Rightarrow> string" where
  "resolve_shim_alias L sub_ext = alias_hops 8 L sub_ext"

section \<open>Configuration\<close>

lemma has_bridge_iff: "has_bridge L s \<longleftrightarrow> (\<exists>p. bridge_path L s = Some p)"
  by (auto simp: has_bridge_def bridge_path_def split: option.splits)

lemma insert_entries_found:
  "insert_entries es out name = Some path \<Longrightarrow>
     (\<exists>e\<in>set es. map_env_entry e = Some (name, path)) \<or> out name = Some path"
  by (induction es arbitrary: out) (fastforce split: option.splits if_splits prod.splits)+

lemma insert_entries_last:
  "map_env_entry e = Some (name, path) \<Longrightarrow> (\<And>e' p. e' \<in> set es' \<Longrightarrow> map_env_entry e' \<noteq> Some (name, p)) \<Longrightarrow>
     insert_entries (es @ e # es') out name = Some path"
proof (induction es arbitrary: out)
  case Nil
  have "insert_entries es' out name = out name" for out
    using Nil.prems(2) by (induction es' arbitrary: out) (auto split: option.splits prod.splits)
  with Nil.prems(1) show ?case by simp
next
  case (Cons a es)
  then show ?case by (auto split: option.splits prod.splits)
qed

section \<open>Aliases\<close>

text \<open>\<open>alias_chain n\<close>: the aliases lead from the first name to the second in \<open>n\<close> hops.\<close>

fun alias_chain :: "nat \<Rightarrow> sub_ext_loader \<Rightarrow> string \<Rightarrow> string \<Rightarrow> bool" where
  "alias_chain 0 L a b \<longleftrightarrow> a = b"
| "alias_chain (Suc n) L a b \<longleftrightarrow> (\<exists>c. shim_alias L a = Some c \<and> alias_chain n L c b)"

lemma alias_hops_chain: "\<exists>k\<le>n. alias_chain k L a (alias_hops n L a) \<and> (k = n \<or> shim_alias L (alias_hops n L a) = None)"
proof (induction n arbitrary: a)
  case (Suc n)
  show ?case
  proof (cases "shim_alias L a")
    case None
    then show ?thesis by (intro exI [of _ 0]) simp
  next
    case (Some c)
    from Suc [of c] obtain k where "k \<le> n" "alias_chain k L c (alias_hops n L c)"
      "k = n \<or> shim_alias L (alias_hops n L c) = None" by blast
    with Some show ?thesis by (intro exI [of _ "Suc k"]) simp
  qed
qed simp

lemma alias_hops_end:
  "alias_chain k L a b \<Longrightarrow> shim_alias L b = None \<Longrightarrow> k \<le> n \<Longrightarrow> alias_hops n L a = b"
proof (induction k arbitrary: a n)
  case 0
  then show ?case by (cases n) simp_all
next
  case (Suc k)
  then obtain m where "n = Suc m" by (cases n) auto
  with Suc show ?case by auto
qed

text \<open>A chain that ends within eight hops is followed to its end; otherwise the name eight hops away is used.\<close>

lemma resolve_shim_alias_spec:
  "\<exists>k\<le>8. alias_chain k L s (resolve_shim_alias L s) \<and> (k = 8 \<or> shim_alias L (resolve_shim_alias L s) = None)"
  unfolding resolve_shim_alias_def by (rule alias_hops_chain)

lemma resolve_shim_alias_end:
  "alias_chain k L s b \<Longrightarrow> shim_alias L b = None \<Longrightarrow> k \<le> 8 \<Longrightarrow> resolve_shim_alias L s = b"
  unfolding resolve_shim_alias_def by (rule alias_hops_end)

section \<open>Names without a colon\<close>

text \<open>Entries are separated by colons, so no configured name has one, and the id of a sub-extension is never the id
  \<open>ext:\<close> of an extension.\<close>

lemma trim_start_subset: "set (trim_start s) \<subseteq> set s"
proof (induction s rule: trim_start.induct)
  case (1 s)
  show ?case
  proof (cases "ws_at s = 0")
    case False
    have "set (trim_start (drop (ws_at s) s)) \<subseteq> set s" using 1 [OF False] set_drop_subset by (rule order_trans)
    with False show ?thesis by (simp add: trim_start.simps [of s])
  qed (simp add: trim_start.simps [of s])
qed

lemma trim_end_subset: "set (trim_end s) \<subseteq> set s"
  by (induction s) auto

lemma trim_subset: "set (trim s) \<subseteq> set s"
  unfolding trim_def using trim_end_subset trim_start_subset by (rule order_trans)

lemma map_env_name:
  assumes "map_env_entry e = Some (name, path)"
  shows "set name \<subseteq> set e"
proof -
  from assms obtain k v where k: "split_once CHR ''='' (trim e) = Some (k, v)" and name: "name = trim k"
    by (auto simp: map_env_entry_def split: option.splits if_splits)
  from k have "set k \<subseteq> set (trim e)" by (auto simp: split_once_eq_Some)
  with name trim_subset [of k] trim_subset [of e] show ?thesis by blast
qed

lemma parse_map_env_no_colon: "parse_map_env env var name = Some path \<Longrightarrow> CHR '':'' \<notin> set name"
  by (auto simp: parse_map_env_def split: option.splits if_splits
      dest!: insert_entries_found map_env_name split_on_no_sep)

lemma sub_ext_id_not_ext:
  assumes "prebuilt_paths (sub_ext_from_env env) u = Some p"
  shows "sub_ext_provider_id u \<noteq> ''ext:'' @ n"
proof
  assume "sub_ext_provider_id u = ''ext:'' @ n"
  then have "CHR '':'' \<in> set (u @ ''-composed'')" by (simp add: sub_ext_provider_id_def)
  moreover have "CHR '':'' \<notin> set u" using assms by (auto simp: sub_ext_from_env_def dest: parse_map_env_no_colon)
  ultimately show False by simp
qed

end
