(* ===== verification/Extension_Host.thy ===== *)
theory Extension_Host
  imports Component_Loader Host_Security Uri_Loader Typed_Values Sub_Ext "HOL-Library.AList"
begin

text \<open>
  The extension registries of the host and the operations that fill and empty them, from \<^verbatim>\<open>host/src/lib.rs\<close>
  (\<open>load_extension\<close>, \<open>instantiate_provider_from_bytes\<close>, \<open>load_extension_as_provider\<close>,
  \<open>load_extension_as_dynlink_bridge\<close>, \<open>describe_extension\<close>, \<open>unload\<close>, the language runtimes) and the provider handles of
  \<^verbatim>\<open>host/src/compose_provider.rs\<close>.

  A guest is code outside the repository: what a provider answers, what a bridge instance does, whether a component
  exports an interface are arguments, gathered in \<open>guest_env\<close>. The stores of the guests are part of the state
  (\<open>eh_bridges\<close>, \<open>eh_mutating\<close>, and \<open>eh_world\<close> for the stores behind provider handles). A guest that calls back into the
  host while it is being called is not modelled. Hash maps are association lists with distinct keys; their order
  stands for the unspecified order of iteration.
\<close>

section \<open>Provider handles\<close>

text \<open>What a resident provider is given when it is built. The capabilities come from the load policy.\<close>

record resident_grants =
  rg_db_path :: string
  rg_http :: "http_policy option"
  rg_dns :: "dns_policy option"
  rg_s3 :: bool
  rg_spawn_build :: bool

text \<open>The store of a resident provider is shared by all clones of its handle: a number identifies it.\<close>

datatype 'c provider_kind =
    SqliteRuntime
  | WasmComponent 'c string
  | ResidentWasmComponent 'c string nat resident_grants

definition is_resident :: "'c provider_kind \<Rightarrow> bool" where
  "is_resident p = (case p of ResidentWasmComponent _ _ _ _ \<Rightarrow> True | _ \<Rightarrow> False)"

record cli_capture =
  cap_stdout :: string
  cap_stderr :: string

text \<open>What \<open>load_extension\<close> reads of a policy.\<close>

record load_grants =
  lg_http :: "http_policy option"
  lg_dns :: "dns_policy option"
  lg_s3 :: bool
  lg_spawn_build :: bool

section \<open>Manifests of bridges\<close>

record guest_manifest =
  gm_name :: string
  gm_version :: string
  gm_scalars :: "(string \<times> u64 \<times> i32 \<times> scalar_flags) list"
  gm_collations :: "(string \<times> u64) list"
  gm_aggregates :: "agg_spec list"
  gm_vtabs :: "vtab_spec_e list"
  gm_has_authorizer :: bool
  gm_has_update_hook :: bool
  gm_has_commit_hook :: bool
  gm_has_wal_hook :: bool
  gm_wal_hook_id :: u64

definition envelope_manifest :: "guest_manifest \<Rightarrow> provider_manifest" where
  "envelope_manifest g =
     \<lparr>pm_name = gm_name g, pm_version = gm_version g,
      pm_scalar_specs = map (\<lambda>(n, i, k, _). (n, i, k)) (gm_scalars g),
      pm_scalar_flags = collect_map (map (\<lambda>(_, i, _, f). (i, f)) (gm_scalars g)),
      pm_collations = gm_collations g,
      pm_aggregates = map (\<lambda>a. (as_name a, as_id a)) (gm_aggregates g),
      pm_has_vtab = (gm_vtabs g \<noteq> []),
      pm_has_any_hook = (gm_has_authorizer g \<or> gm_has_update_hook g \<or> gm_has_commit_hook g \<or> gm_has_wal_hook g),
      pm_aggregate_specs = gm_aggregates g,
      pm_vtab_specs = gm_vtabs g,
      pm_dotcmd_specs = [],
      pm_has_authorizer = gm_has_authorizer g, pm_has_update_hook = gm_has_update_hook g,
      pm_has_commit_hook = gm_has_commit_hook g, pm_has_wal_hook = gm_has_wal_hook g,
      pm_wal_hook_id = gm_wal_hook_id g, pm_declared_capabilities = []\<rparr>"

section \<open>State and environment\<close>

record provider_backing =
  pb_provider_id :: string
  pb_scalars :: "string \<rightharpoonup> u64"
  pb_collations :: "string \<rightharpoonup> u64"
  pb_aggregates :: "string \<rightharpoonup> u64"
  pb_vtabs :: "u64 set"
  pb_has_hook :: bool
  pb_dotcmds :: "string \<rightharpoonup> u64"
  pb_resident :: bool

record ('g, 'w, 'c) ext_host =
  eh_providers :: "'c provider_kind provider_state"
  eh_backed :: "(string \<times> provider_backing) list"
  eh_manifests :: "(string \<times> provider_manifest) list"
  eh_bridges :: "(string \<times> 'g) list"
  eh_mutating :: "(string \<times> 'g) list"
  eh_typed :: typed_value_registry
  eh_codecs :: typed_value_codecs
  eh_loader :: "'c loader_state"
  eh_cache :: "conn option"
  eh_runtimes :: "((string \<times> string) \<times> 'c \<times> load_grants) list"
  eh_next_store :: nat
  eh_world :: 'w

text \<open>The values a run can return, as far as the host looks at them.\<close>

datatype wasmos_value = WString string | WResult "wasmos_value option + wasmos_value option" | WOther

record ('g, 'w, 'c) guest_env =
  g_codec :: "bytes codec"
  g_hashers :: hashers
  g_compiler :: "'c compiler_env"
  g_from_binary :: "bytes \<Rightarrow> string + 'c"
  g_exists :: "string \<Rightarrow> bool"
  g_is_file :: "string \<Rightarrow> bool"
  g_read :: "string \<Rightarrow> string + bytes"
  g_vars :: "string \<Rightarrow> string option"
  g_cwd :: "string option"
  g_sub_ext :: sub_ext_loader
  g_exports_endpoint :: "'c \<Rightarrow> bool"
  g_is_bridge :: "'c \<Rightarrow> bool"
  g_exports_update :: "'c \<Rightarrow> bool"
  g_imports_cli :: "'c \<Rightarrow> bool"
  g_contract :: "'c \<Rightarrow> string \<Rightarrow> string + unit"
  g_invoke :: "'c provider_kind \<Rightarrow> string \<Rightarrow> bytes \<Rightarrow> (string, 'w, bytes) op"
  g_invoke_cli :: "'c \<Rightarrow> string \<Rightarrow> bytes \<Rightarrow> (string \<rightharpoonup> string) \<Rightarrow> bool \<Rightarrow> (string, 'w, bytes \<times> cli_capture) op"
  g_new_bridge :: "bytes \<Rightarrow> (string, 'w, 'g) op"
  g_new_mutating :: "bytes \<Rightarrow> (string, 'w, 'g) op"
  g_set_fuel :: "(string, 'g, unit) op"
  g_describe :: "(string, 'g, guest_manifest) op"
  g_instantiate :: "'c \<Rightarrow> string \<Rightarrow> load_grants option \<Rightarrow> (string \<times> string) list \<Rightarrow> (string, 'w, 'g) op"
  g_call_export :: "string \<Rightarrow> string list \<Rightarrow> 'g \<Rightarrow> (string, 'w, wasmos_value list) op"

datatype load_error =
    NotFound string
  | CannotRead string string
  | PrebuiltUnusable string string string
  | CannotCompile string string
  | ContractSkew string
  | DescribeFailed string
  | BadManifest string
  | NeedsResident string
  | BridgeFailed string string
  | MutatingBridgeFailed string string
  | RefreshFuel string
  | Retired string
  | NotAProvider string
  | NotLoadedExt string
  | NoRuntime string string
  | NoPathExtension string
  | InstantiateFailed string
  | RunFailed string
  | RunReturnedError string
  | UnexpectedShape

type_synonym ('g, 'w, 'c, 'a) host_op = "(load_error, ('g, 'w, 'c) ext_host, 'a) op"

text \<open>Running an operation of a part of the state.\<close>

definition in_world :: "(string \<Rightarrow> load_error) \<Rightarrow> (string, 'w, 'a) op \<Rightarrow> ('g, 'w, 'c, 'a) host_op" where
  "in_world err m h = (case m (eh_world h) of (r, w) \<Rightarrow> (map_error err r, h\<lparr>eh_world := w\<rparr>))"

definition in_loader :: "(string \<Rightarrow> load_error) \<Rightarrow> (string, 'c loader_state, 'a) op \<Rightarrow> ('g, 'w, 'c, 'a) host_op" where
  "in_loader err m h = (case m (eh_loader h) of (r, l) \<Rightarrow> (map_error err r, h\<lparr>eh_loader := l\<rparr>))"

section \<open>Building and asking providers\<close>

definition db_path :: "('g, 'w, 'c) ext_host \<Rightarrow> string" where
  "db_path h = user_db_path (eh_loader h)"

definition new_resident_from_bytes :: "('g, 'w, 'c) guest_env \<Rightarrow> (string \<Rightarrow> load_error) \<Rightarrow> load_grants \<Rightarrow> bytes \<Rightarrow> string \<Rightarrow>
    ('g, 'w, 'c, 'c provider_kind) host_op" where
  "new_resident_from_bytes E err g b label h =
     (case g_from_binary E b of
        Inl e \<Rightarrow> (Inl (err (''compile '' @ label @ '': '' @ e)), h)
      | Inr c \<Rightarrow>
          (Inr (ResidentWasmComponent c label (eh_next_store h)
             \<lparr>rg_db_path = db_path h, rg_http = lg_http g, rg_dns = lg_dns g, rg_s3 = lg_s3 g, rg_spawn_build = lg_spawn_build g\<rparr>),
           h\<lparr>eh_next_store := Suc (eh_next_store h)\<rparr>))"

definition new_resident :: "('g, 'w, 'c) guest_env \<Rightarrow> (string \<Rightarrow> load_error) \<Rightarrow> load_grants \<Rightarrow> string \<Rightarrow>
    ('g, 'w, 'c, 'c provider_kind) host_op" where
  "new_resident E err g path h =
     (case g_read E path of
        Inl e \<Rightarrow> (Inl (err (''read '' @ path @ '': '' @ e)), h)
      | Inr b \<Rightarrow> new_resident_from_bytes E err g b path h)"

definition invoke_cli :: "('g, 'w, 'c) guest_env \<Rightarrow> 'c provider_kind \<Rightarrow> string \<Rightarrow> bytes \<Rightarrow> (string \<rightharpoonup> string) \<Rightarrow>
    (string, 'w, bytes \<times> cli_capture) op" where
  "invoke_cli E p meth payload cli_state =
     (let plain = bnd (g_invoke E p meth payload) (\<lambda>b. ret (b, \<lparr>cap_stdout = [], cap_stderr = []\<rparr>)) in
      case p of
        WasmComponent c _ \<Rightarrow> if g_imports_cli E c then g_invoke_cli E c meth payload cli_state False else plain
      | ResidentWasmComponent c _ _ g \<Rightarrow>
          if g_imports_cli E c then g_invoke_cli E c meth payload cli_state (rg_spawn_build g) else plain
      | SqliteRuntime \<Rightarrow> plain)"

definition describe_provider :: "('g, 'w, 'c) guest_env \<Rightarrow> 'c provider_kind \<Rightarrow> ('g, 'w, 'c, provider_manifest) host_op" where
  "describe_provider E p =
     bnd (in_world DescribeFailed (invoke_cli E p ''describe'' [] Map.empty)) (\<lambda>(mbytes, _) h.
     (map_error BadManifest (decode_manifest (g_codec E) mbytes), h))"

definition name_or :: "provider_manifest \<Rightarrow> string \<Rightarrow> string" where
  "name_or m hint = (if pm_name m = [] then hint else pm_name m)"

definition ext_provider_id :: "string \<Rightarrow> string" where
  "ext_provider_id name = ''ext:'' @ name"

definition register_compose_provider :: "string \<Rightarrow> 'c provider_kind \<Rightarrow> ('g, 'w, 'c) ext_host \<Rightarrow> ('g, 'w, 'c) ext_host" where
  "register_compose_provider ident p h = h\<lparr>eh_providers := register_compose_provider_in DEFAULT_TENANT ident p (eh_providers h)\<rparr>"

definition coherence_sensitive :: "provider_manifest \<Rightarrow> bool" where
  "coherence_sensitive m \<longleftrightarrow> pm_has_vtab m \<or> pm_has_any_hook m \<or> pm_aggregates m \<noteq> []"

definition backing_of :: "string \<Rightarrow> provider_manifest \<Rightarrow> bool \<Rightarrow> provider_backing" where
  "backing_of key m res =
     \<lparr>pb_provider_id = ext_provider_id key,
      pb_scalars = collect_map (manifest_scalars m),
      pb_collations = collect_map (pm_collations m),
      pb_aggregates = collect_map (map (\<lambda>a. (as_name a, as_id a)) (pm_aggregate_specs m)),
      pb_vtabs = set (map vs_id (pm_vtab_specs m)),
      pb_has_hook = (pm_has_authorizer m \<or> pm_has_update_hook m \<or> pm_has_commit_hook m \<or> pm_has_wal_hook m),
      pb_dotcmds = collect_map (map (\<lambda>d. (ds_name d, ds_id d)) (pm_dotcmd_specs m)),
      pb_resident = res\<rparr>"

definition load_extension_as_provider :: "('g, 'w, 'c) guest_env \<Rightarrow> string \<Rightarrow> 'c provider_kind \<Rightarrow> ('g, 'w, 'c, provider_manifest) host_op" where
  "load_extension_as_provider E ext_name p =
     bnd (describe_provider E p) (\<lambda>m h.
     let key = name_or m ext_name; res = is_resident p in
     if coherence_sensitive m \<and> \<not> res then (Inl (NeedsResident key), h)
     else
       let h1 = register_compose_provider (ext_provider_id key) p h in
       (Inr m, h1\<lparr>eh_backed := AList.update key (backing_of key m res) (eh_backed h1),
                  eh_manifests := AList.update key m (eh_manifests h1)\<rparr>))"

definition register_provider :: "('g, 'w, 'c) guest_env \<Rightarrow> string \<Rightarrow> 'c provider_kind \<Rightarrow> ('g, 'w, 'c, string) host_op" where
  "register_provider E hint p =
     bnd (describe_provider E p) (\<lambda>m.
     let ext_name = name_or m hint in
     bnd (load_extension_as_provider E ext_name p) (\<lambda>_. ret ext_name))"

section \<open>Bridges\<close>

definition load_extension_as_dynlink_bridge :: "('g, 'w, 'c) guest_env \<Rightarrow> string \<Rightarrow> 'g \<Rightarrow> ('g, 'w, 'c, string) host_op" where
  "load_extension_as_dynlink_bridge E hint bridge h =
     (case g_set_fuel E bridge of
        (Inl e, _) \<Rightarrow> (Inl (RefreshFuel e), h)
      | (Inr _, bridge1) \<Rightarrow>
          (case g_describe E bridge1 of
             (Inl e, _) \<Rightarrow> (Inl (DescribeFailed e), h)
           | (Inr g, bridge2) \<Rightarrow>
               (let ext_name = (if gm_name g = [] then hint else gm_name g) in
                (Inr ext_name, h\<lparr>eh_bridges := AList.update ext_name bridge2 (eh_bridges h),
                                 eh_manifests := AList.update ext_name (envelope_manifest g) (eh_manifests h)\<rparr>))))"

definition load_bridge :: "('g, 'w, 'c) guest_env \<Rightarrow> string \<Rightarrow> bytes \<Rightarrow> 'c \<Rightarrow> ('g, 'w, 'c, string) host_op" where
  "load_bridge E hint b c =
     bnd (in_world (BridgeFailed hint) (g_new_bridge E b)) (\<lambda>bridge.
     bnd (if g_exports_update E c then bnd (in_world (MutatingBridgeFailed hint) (g_new_mutating E b)) (\<lambda>m. ret (Some m)) else ret None) (\<lambda>mut.
     bnd (load_extension_as_dynlink_bridge E hint bridge) (\<lambda>ext_name h.
     (Inr ext_name, case mut of
        Some m \<Rightarrow> h\<lparr>eh_mutating := AList.update ext_name m (eh_mutating h)\<rparr>
      | None \<Rightarrow> h))))"

section \<open>Loading a path\<close>

definition cache_bytes :: "('g, 'w, 'c) guest_env \<Rightarrow> string \<Rightarrow> bytes \<Rightarrow> ('g, 'w, 'c) ext_host \<Rightarrow> ('g, 'w, 'c) ext_host" where
  "cache_bytes E path b h =
     h\<lparr>eh_cache := (case eh_cache h of
        None \<Rightarrow> None
      | Some c \<Rightarrow> Some (snd (cache_put (g_hashers E) (''file://'' @ path) b c)))\<rparr>"

definition try_component :: "('g, 'w, 'c) guest_env \<Rightarrow> bytes \<Rightarrow> string \<Rightarrow> ('g, 'w, 'c) ext_host \<Rightarrow> 'c option \<times> ('g, 'w, 'c) ext_host" where
  "try_component E b hint h =
     (case component_for_digest (g_compiler E) b (hex_lower (blake3 (g_hashers E) b)) hint (eh_loader h) of
        (Inl _, l) \<Rightarrow> (None, h\<lparr>eh_loader := l\<rparr>)
      | (Inr c, l) \<Rightarrow> (Some c, h\<lparr>eh_loader := l\<rparr>))"

definition load_resolved :: "('g, 'w, 'c) guest_env \<Rightarrow> load_grants \<Rightarrow> string \<Rightarrow> string \<Rightarrow> ('g, 'w, 'c, string) host_op" where
  "load_resolved E policy resolved hint h =
     (case g_read E resolved of
        Inl e \<Rightarrow> (Inl (CannotRead resolved e), h)
      | Inr b \<Rightarrow>
          (case try_component E b hint (cache_bytes E resolved b h) of
             (found, h1) \<Rightarrow>
               if (case found of Some c \<Rightarrow> g_exports_endpoint E c | None \<Rightarrow> False) then
                 bnd (new_resident E (CannotCompile resolved) policy resolved) (register_provider E hint) h1
               else (case found of
                 Some c \<Rightarrow> if g_is_bridge E c then load_bridge E hint b c h1 else (Inl (Retired hint), h1)
               | None \<Rightarrow> (Inl (Retired hint), h1))))"

definition find_artifact :: "('g, 'w, 'c) guest_env \<Rightarrow> string \<Rightarrow> (string \<times> string) option" where
  "find_artifact E path =
     (if g_exists E path then Some (path, case file_stem path of Some s \<Rightarrow> s | None \<Rightarrow> ''extension'')
      else (case resolve_catalog_artifact (g_vars E) (g_cwd E) (g_is_file E) path of
        Some p \<Rightarrow> Some (p, path)
      | None \<Rightarrow> None))"

definition load_found :: "('g, 'w, 'c) guest_env \<Rightarrow> load_grants \<Rightarrow> string \<Rightarrow> ('g, 'w, 'c, string) host_op" where
  "load_found E policy path h =
     (case find_artifact E path of
        Some (resolved, hint) \<Rightarrow> load_resolved E policy resolved hint h
      | None \<Rightarrow> (Inl (NotFound path), h))"

definition register_prebuilt :: "('g, 'w, 'c) guest_env \<Rightarrow> load_grants \<Rightarrow> string \<Rightarrow> ('g, 'w, 'c, unit) host_op" where
  "register_prebuilt E policy name =
     (let upstream = resolve_shim_alias (g_sub_ext E) name in
      case prebuilt_path (g_sub_ext E) upstream of
        None \<Rightarrow> ret ()
      | Some prebuilt \<Rightarrow>
          bnd (new_resident E (PrebuiltUnusable upstream prebuilt) policy prebuilt) (\<lambda>p h.
          (Inr (), register_compose_provider (sub_ext_provider_id upstream) p h)))"

text \<open>A bridge is loaded by loading its path in turn, which may again be the name of a sub-extension. The
  recursion need not end, so a load that never returns is \<open>None\<close>.\<close>

partial_function (option) load_extension :: "('g, 'w, 'c) guest_env \<Rightarrow> load_grants \<Rightarrow> string \<Rightarrow> ('g, 'w, 'c) ext_host \<Rightarrow>
    ((load_error + string) \<times> ('g, 'w, 'c) ext_host) option" where
  "load_extension E policy path h =
     (if \<not> g_exists E path \<and> has_bridge (g_sub_ext E) path then
        (case register_prebuilt E policy path h of
           (Inl e, h1) \<Rightarrow> Some (Inl e, h1)
         | (Inr _, h1) \<Rightarrow>
             (case bridge_path (g_sub_ext E) path of
                Some bridge \<Rightarrow> load_extension E policy bridge h1
              | None \<Rightarrow> Some (load_found E policy path h1)))
      else Some (load_found E policy path h))"

section \<open>Loading bytes\<close>

definition no_grants :: "bool \<Rightarrow> load_grants" where
  "no_grants spawn_build = \<lparr>lg_http = None, lg_dns = None, lg_s3 = False, lg_spawn_build = spawn_build\<rparr>"

definition check_provider :: "('g, 'w, 'c) guest_env \<Rightarrow> string \<Rightarrow> 'c \<Rightarrow> load_error + unit" where
  "check_provider E hint c =
     sbind (map_error ContractSkew (g_contract E c hint)) (\<lambda>_.
     ensure (NotAProvider hint) (g_exports_endpoint E c))"

definition instantiate_provider_from_bytes :: "('g, 'w, 'c) guest_env \<Rightarrow> string \<Rightarrow> bytes \<Rightarrow> bool \<Rightarrow> ('g, 'w, 'c, string) host_op" where
  "instantiate_provider_from_bytes E hint b spawn_build =
     bnd (query (\<lambda>_. map_error (CannotCompile hint) (compile_via_runtime (g_compiler E) b hint))) (\<lambda>c.
     bnd (query (\<lambda>_. check_provider E hint c)) (\<lambda>_.
     bnd (new_resident_from_bytes E (CannotCompile hint) (no_grants spawn_build) b (''bytes:'' @ hint)) (\<lambda>p.
     register_provider E hint p)))"

definition describe_extension_from_bytes_full :: "('g, 'w, 'c) guest_env \<Rightarrow> bytes \<Rightarrow> string \<Rightarrow>
    ('g, 'w, 'c, string \<times> string \<times> string list) host_op" where
  "describe_extension_from_bytes_full E b hint =
     (let digest = hex_lower (blake3 (g_hashers E) b) in
      bnd (in_loader (CannotCompile hint) (component_for_digest (g_compiler E) b digest hint)) (\<lambda>c.
      bnd (query (\<lambda>_. check_provider E hint c)) (\<lambda>_.
      bnd (new_resident_from_bytes E (CannotCompile hint) (no_grants False) b (''describe:'' @ hint)) (\<lambda>p.
      bnd (describe_provider E p) (\<lambda>m.
      ret (name_or m hint, digest, pm_declared_capabilities m))))))"

definition describe_extension_from_bytes :: "('g, 'w, 'c) guest_env \<Rightarrow> bytes \<Rightarrow> string \<Rightarrow> ('g, 'w, 'c, string \<times> string) host_op" where
  "describe_extension_from_bytes E b hint =
     bnd (describe_extension_from_bytes_full E b hint) (\<lambda>(name, digest, _). ret (name, digest))"

definition describe_extension_full :: "('g, 'w, 'c) guest_env \<Rightarrow> string \<Rightarrow> ('g, 'w, 'c, string \<times> string \<times> string list) host_op" where
  "describe_extension_full E path =
     bnd (query (\<lambda>_. map_error (CannotRead path) (g_read E path))) (\<lambda>b.
     describe_extension_from_bytes_full E b (case file_stem path of Some s \<Rightarrow> s | None \<Rightarrow> ''extension''))"

definition describe_extension :: "('g, 'w, 'c) guest_env \<Rightarrow> string \<Rightarrow> ('g, 'w, 'c, string \<times> string) host_op" where
  "describe_extension E path = bnd (describe_extension_full E path) (\<lambda>(name, digest, _). ret (name, digest))"

section \<open>Unloading and listing\<close>

definition remove_provider :: "string \<Rightarrow> 'p provider_state \<Rightarrow> 'p provider_state" where
  "remove_provider ident s =
     (case compose_providers s DEFAULT_TENANT of
        None \<Rightarrow> s
      | Some inner \<Rightarrow> s\<lparr>compose_providers := (compose_providers s)(DEFAULT_TENANT \<mapsto> inner(ident := None))\<rparr>)"

definition drop_codecs :: "string \<Rightarrow> typed_value_registry \<Rightarrow> typed_value_codecs \<Rightarrow> typed_value_codecs" where
  "drop_codecs name w cs =
     (\<lambda>i. if (\<exists>b\<in>tv_snapshot w. tb_extension_name b = name \<and> tb_type_id b = i) then None else cs i)"

definition unload :: "string \<Rightarrow> ('g, 'w, 'c, unit) host_op" where
  "unload name h =
     (if map_of (eh_backed h) name \<noteq> None then
        (Inr (), h\<lparr>eh_backed := AList.delete name (eh_backed h),
                   eh_manifests := AList.delete name (eh_manifests h),
                   eh_providers := remove_provider (ext_provider_id name) (eh_providers h),
                   eh_typed := tv_remove_extension name (eh_typed h),
                   eh_codecs := drop_codecs name (eh_typed h) (eh_codecs h)\<rparr>)
      else (Inl (NotLoadedExt name), h))"

definition list_extensions :: "('g, 'w, 'c) ext_host \<Rightarrow> string list" where
  "list_extensions h = map fst (eh_backed h)"

definition is_loaded :: "string \<Rightarrow> ('g, 'w, 'c) ext_host \<Rightarrow> bool" where
  "is_loaded name h \<longleftrightarrow> map_of (eh_backed h) name \<noteq> None"

definition provider_backed_bindings_manifest :: "prefix_db option \<Rightarrow> string \<Rightarrow> ('g, 'w, 'c) ext_host \<Rightarrow> wit_manifest option" where
  "provider_backed_bindings_manifest spi name h =
     map_option (\<lambda>m. manifest_for_provider m spi) (map_of (eh_manifests h) name)"

section \<open>Runs\<close>

definition run_result :: "wasmos_value list \<Rightarrow> load_error + string" where
  "run_result vs =
     (case vs of
        WResult (Inl (Some (WString s))) # _ \<Rightarrow> Inl (RunReturnedError s)
      | WResult (Inr (Some (WString s))) # _ \<Rightarrow> Inr s
      | _ \<Rightarrow> Inl UnexpectedShape)"

definition register_runtime :: "('g, 'w, 'c) guest_env \<Rightarrow> string \<Rightarrow> string \<Rightarrow> string \<Rightarrow> load_grants \<Rightarrow> ('g, 'w, 'c, unit) host_op" where
  "register_runtime E ext flavor path policy =
     bnd (query (\<lambda>_. map_error (CannotRead path) (g_read E path))) (\<lambda>b.
     bnd (query (\<lambda>_. map_error (CannotCompile path)
       (compile_via_runtime (g_compiler E) b (''language_runtime:'' @ ext @ '':'' @ flavor)))) (\<lambda>c h.
     (Inr (), h\<lparr>eh_runtimes := AList.update (ext, flavor) (c, policy) (eh_runtimes h)\<rparr>)))"

definition unregister_runtime :: "string \<Rightarrow> string \<Rightarrow> ('g, 'w, 'c, unit) host_op" where
  "unregister_runtime ext flavor h =
     (if map_of (eh_runtimes h) (ext, flavor) \<noteq> None
      then (Inr (), h\<lparr>eh_runtimes := AList.delete (ext, flavor) (eh_runtimes h)\<rparr>)
      else (Inl (NoRuntime ext flavor), h))"

definition dispatch_runtime_execute :: "('g, 'w, 'c) guest_env \<Rightarrow> 'c \<times> load_grants \<Rightarrow> string \<Rightarrow> string \<Rightarrow> (string \<times> string) list \<Rightarrow>
    ('g, 'w, 'c, string) host_op" where
  "dispatch_runtime_execute E = (\<lambda>(c, policy) source_name src vars.
     bnd (in_world InstantiateFailed (g_instantiate E c DEFAULT_TENANT (Some policy) vars)) (\<lambda>inst.
     bnd (in_world RunFailed (g_call_export E ''sqlink:wasm/runtime@0.1.0#execute'' [source_name, src] inst)) (\<lambda>vs.
     query (\<lambda>_. run_result vs))))"

definition invoke_runtime :: "('g, 'w, 'c) guest_env \<Rightarrow> string \<Rightarrow> string \<Rightarrow> string \<Rightarrow> string \<Rightarrow> (string \<times> string) list \<Rightarrow>
    ('g, 'w, 'c, string) host_op" where
  "invoke_runtime E ext variant source_name src vars =
     bnd (query (\<lambda>h. ok_or (NoRuntime ext variant) (map_of (eh_runtimes h) (ext, variant)))) (\<lambda>r.
     dispatch_runtime_execute E r source_name src vars)"

definition path_extension :: "string \<Rightarrow> string option" where
  "path_extension p = Option.bind (file_name p) (\<lambda>n.
     let parts = split_on CHR ''.'' n in
     if butlast parts = [] \<or> butlast parts = [[]] then None else Some (last parts))"

definition run_source :: "('g, 'w, 'c) guest_env \<Rightarrow> string \<Rightarrow> string \<Rightarrow> ('g, 'w, 'c, string) host_op" where
  "run_source E path flavor =
     bnd (query (\<lambda>_. ok_or (NoPathExtension path) (path_extension path))) (\<lambda>ext.
     bnd (query (\<lambda>h. ok_or (NoRuntime ext flavor) (map_of (eh_runtimes h) (ext, flavor)))) (\<lambda>r.
     bnd (query (\<lambda>_. map_error (CannotRead path)
       (sbind (g_read E path) (\<lambda>b. let s = map (\<lambda>x. char_of (unat x)) b in
         if utf8_valid s then Inr s else Inl ''stream did not contain valid UTF-8'')))) (\<lambda>src.
     dispatch_runtime_execute E r (case file_name path of Some n \<Rightarrow> n | None \<Rightarrow> path) src [])))"

definition run_wasm_as :: "('g, 'w, 'c) guest_env \<Rightarrow> string \<Rightarrow> string \<Rightarrow> ('g, 'w, 'c, string) host_op" where
  "run_wasm_as E path tenant =
     bnd (query (\<lambda>_. map_error (CannotRead path) (g_read E path))) (\<lambda>b.
     bnd (query (\<lambda>_. map_error (CannotCompile path) (compile_via_runtime (g_compiler E) b (''run_wasm:'' @ path)))) (\<lambda>c.
     bnd (in_world InstantiateFailed (g_instantiate E c tenant None [])) (\<lambda>inst.
     bnd (in_world RunFailed (g_call_export E ''sqlink:wasm/run@0.1.0#run'' [] inst)) (\<lambda>vs.
     query (\<lambda>_. run_result vs)))))"

section \<open>Resolving providers for guests\<close>

datatype resolve_error =
    NoProvider string
  | NoTenant string string
  | NotInCas string
  | NeedsSidecar string
  | TrustRejected string trust_denial
  | NotInstantiable string string
  | DigestNotImplemented

definition host_resolve_by_id :: "string \<Rightarrow> 'p provider_state \<Rightarrow> resolve_error + 'p" where
  "host_resolve_by_id ident s = ok_or (NoProvider ident) (get_compose_provider_in DEFAULT_TENANT ident s)"

definition host_resolve_by_digest :: "('g, 'w, 'c) guest_env \<Rightarrow> bytes \<Rightarrow> ('g, 'w, 'c) ext_host \<Rightarrow>
    (resolve_error + 'c provider_kind) \<times> ('g, 'w, 'c) ext_host" where
  "host_resolve_by_digest E digest h =
     (let hex = hex_lower digest in
      case (case eh_cache h of None \<Rightarrow> (None, None) | Some c \<Rightarrow> (case lookup_by_hash hex c of (b, c') \<Rightarrow> (b, Some c'))) of
        (found, cache1) \<Rightarrow>
          (sbind (ok_or (NotInCas hex) found) (\<lambda>b.
           sbind (case trust (eh_providers h) of
                    Ed25519Signed _ \<Rightarrow> Inl (NeedsSidecar hex)
                  | other \<Rightarrow> map_error (TrustRejected hex) (trust_verify other ''compose-resolve-by-digest'' hex)) (\<lambda>_.
           map_error (NotInstantiable hex)
             (sbind (g_from_binary E b) (\<lambda>c. Inr (WasmComponent c (''blake3:'' @ hex)))))), h\<lparr>eh_cache := cache1\<rparr>))"

definition run_resolve_by_id :: "string \<Rightarrow> string \<Rightarrow> 'p provider_state \<Rightarrow> resolve_error + 'p" where
  "run_resolve_by_id tenant ident s =
     (case compose_providers s tenant of
        None \<Rightarrow> Inl (NoTenant tenant ident)
      | Some inner \<Rightarrow> ok_or (NoProvider ident) (inner ident))"

definition run_resolve_by_digest :: "bytes \<Rightarrow> resolve_error + 'p" where
  "run_resolve_by_digest digest = Inl DigestNotImplemented"

end
