(* ===== verification/Extension_Dispatch.thy ===== *)
theory Extension_Dispatch
  imports Extension_Host
begin

text \<open>
  Dispatch into loaded extensions, from \<^verbatim>\<open>host/src/lib.rs\<close>: every \<open>try_bridge_*\<close>, \<open>try_provider_*\<close> and \<open>dispatch_*\<close> method.
  A call goes to the bridge instance of the extension if there is one (the mutating instance first), else to its
  resident provider through the CBOR envelope, else it fails.

  The exports of a bridge instance are gathered in \<open>guest_api\<close>, with the types of the WIT interface: a call may trap
  (outer error) or answer with the guest's own error (inner error). The result of a dispatch has the same two levels.
\<close>

section \<open>Types of the vtab interface\<close>

datatype constraint_op =
    OpEq | OpGt | OpLe | OpLt | OpGe | OpNe | OpMatch | OpLike | OpRegexp | OpGlob | OpIsNull | OpIsNotNull | OpLimit | OpOffset
  | OpFunction

fun constraint_op_name :: "constraint_op \<Rightarrow> string" where
  "constraint_op_name OpEq = ''eq''"
| "constraint_op_name OpGt = ''gt''"
| "constraint_op_name OpLe = ''le''"
| "constraint_op_name OpLt = ''lt''"
| "constraint_op_name OpGe = ''ge''"
| "constraint_op_name OpNe = ''ne''"
| "constraint_op_name OpMatch = ''match''"
| "constraint_op_name OpLike = ''like''"
| "constraint_op_name OpRegexp = ''regexp''"
| "constraint_op_name OpGlob = ''glob''"
| "constraint_op_name OpIsNull = ''is-null''"
| "constraint_op_name OpIsNotNull = ''is-not-null''"
| "constraint_op_name OpLimit = ''limit''"
| "constraint_op_name OpOffset = ''offset''"
| "constraint_op_name OpFunction = ''function''"

record index_constraint =
  ic_column :: i32
  ic_op :: constraint_op
  ic_usable :: bool

record index_info =
  ii_constraints :: "index_constraint list"
  ii_orderbys :: "(i32 \<times> bool) list"
  ii_col_used :: u64

datatype update_operation = UpInsert | UpUpdate | UpDelete

fun update_op_name :: "update_operation \<Rightarrow> string" where
  "update_op_name UpInsert = ''insert''"
| "update_op_name UpUpdate = ''update''"
| "update_op_name UpDelete = ''delete''"

text \<open>The exports of a bridge instance. An index plan is \<open>index_plan_parts\<close>, a row its id and its columns.\<close>

record 'g guest_api =
  x_scalar :: "u64 \<Rightarrow> sqlvalue list \<Rightarrow> (string, 'g, string + sqlvalue) op"
  x_connect :: "u64 \<Rightarrow> u64 \<Rightarrow> string \<Rightarrow> string \<Rightarrow> string list \<Rightarrow> (string, 'g, string + string) op"
  x_disconnect :: "u64 \<Rightarrow> u64 \<Rightarrow> (string, 'g, string + unit) op"
  x_best_index :: "u64 \<Rightarrow> u64 \<Rightarrow> index_info \<Rightarrow> (string, 'g, string + index_plan_parts) op"
  x_open :: "u64 \<Rightarrow> u64 \<Rightarrow> u64 \<Rightarrow> (string, 'g, string + unit) op"
  x_close :: "u64 \<Rightarrow> u64 \<Rightarrow> (string, 'g, string + unit) op"
  x_filter :: "u64 \<Rightarrow> u64 \<Rightarrow> i32 \<Rightarrow> string option \<Rightarrow> sqlvalue list \<Rightarrow> (string, 'g, string + unit) op"
  x_fetch_batch :: "u64 \<Rightarrow> u64 \<Rightarrow> u32 \<Rightarrow> (string, 'g, string + (i64 \<times> sqlvalue list) list) op"
  x_next :: "u64 \<Rightarrow> u64 \<Rightarrow> (string, 'g, string + unit) op"
  x_eof :: "u64 \<Rightarrow> u64 \<Rightarrow> (string, 'g, bool) op"
  x_column :: "u64 \<Rightarrow> u64 \<Rightarrow> i32 \<Rightarrow> (string, 'g, string + sqlvalue) op"
  x_rowid :: "u64 \<Rightarrow> u64 \<Rightarrow> (string, 'g, string + i64) op"
  x_update :: "u64 \<Rightarrow> u64 \<Rightarrow> sqlvalue list \<Rightarrow> (string, 'g, string + i64) op"
  x_begin :: "u64 \<Rightarrow> u64 \<Rightarrow> (string, 'g, string + unit) op"
  x_sync :: "u64 \<Rightarrow> u64 \<Rightarrow> (string, 'g, string + unit) op"
  x_commit :: "u64 \<Rightarrow> u64 \<Rightarrow> (string, 'g, string + unit) op"
  x_rollback :: "u64 \<Rightarrow> u64 \<Rightarrow> (string, 'g, string + unit) op"
  x_rename :: "u64 \<Rightarrow> u64 \<Rightarrow> string \<Rightarrow> (string, 'g, string + unit) op"
  x_savepoint :: "u64 \<Rightarrow> u64 \<Rightarrow> i32 \<Rightarrow> (string, 'g, string + unit) op"
  x_release :: "u64 \<Rightarrow> u64 \<Rightarrow> i32 \<Rightarrow> (string, 'g, string + unit) op"
  x_rollback_to :: "u64 \<Rightarrow> u64 \<Rightarrow> i32 \<Rightarrow> (string, 'g, string + unit) op"
  x_is_shadow_name :: "u64 \<Rightarrow> string \<Rightarrow> (string, 'g, bool) op"
  x_integrity :: "u64 \<Rightarrow> u64 \<Rightarrow> string \<Rightarrow> string \<Rightarrow> u32 \<Rightarrow> (string, 'g, string + unit) op"

section \<open>Bridges\<close>

text \<open>The failures of the host itself; what an extension reports is a string.\<close>

datatype dispatch_error =
    ExtNotLoaded string
  | ProviderVanished string string
  | FuelNotSet string string
  | GuestTrap string string
  | EncodeFailed string string
  | DecodeFailed string string
  | InvokeFailed string string
  | NoDotCommand string
  | ParserRejected string

type_synonym ('g, 'w, 'c, 'a) attempt = "('g, 'w, 'c) ext_host \<Rightarrow> 'a option \<times> ('g, 'w, 'c) ext_host"
type_synonym ('g, 'w, 'c, 'a) dispatch_op = "(dispatch_error, ('g, 'w, 'c) ext_host, 'a) op"
type_synonym 'a two_level = "dispatch_error + (string + 'a)"

definition on_bridge :: "string \<Rightarrow> ('g \<Rightarrow> 'r \<times> 'g) \<Rightarrow> ('g, 'w, 'c, 'r) attempt" where
  "on_bridge ext f h =
     (case map_of (eh_bridges h) ext of
        None \<Rightarrow> (None, h)
      | Some g \<Rightarrow> (case f g of (r, g') \<Rightarrow> (Some r, h\<lparr>eh_bridges := AList.update ext g' (eh_bridges h)\<rparr>)))"

definition on_mutating :: "string \<Rightarrow> ('g \<Rightarrow> 'r \<times> 'g) \<Rightarrow> ('g, 'w, 'c, 'r) attempt" where
  "on_mutating ext f h =
     (case map_of (eh_mutating h) ext of
        None \<Rightarrow> (None, h)
      | Some g \<Rightarrow> (case f g of (r, g') \<Rightarrow> (Some r, h\<lparr>eh_mutating := AList.update ext g' (eh_mutating h)\<rparr>)))"

definition or_else :: "('g, 'w, 'c, 'r) attempt \<Rightarrow> ('g, 'w, 'c, 'r) attempt \<Rightarrow> ('g, 'w, 'c, 'r) attempt" where
  "or_else a b h = (case a h of (Some r, h1) \<Rightarrow> (Some r, h1) | (None, h1) \<Rightarrow> b h1)"

text \<open>One call of an export: fuel is refreshed first; a trap becomes the extension's error, except where the export
  has no error of its own.\<close>

definition fuelled :: "('g, 'w, 'c) guest_env \<Rightarrow> string \<Rightarrow> ('g \<Rightarrow> (dispatch_error + 'r) \<times> 'g) \<Rightarrow> 'g \<Rightarrow> (dispatch_error + 'r) \<times> 'g" where
  "fuelled E label k g =
     (case g_set_fuel E g of (Inl e, g1) \<Rightarrow> (Inl (FuelNotSet label e), g1) | (Inr _, g1) \<Rightarrow> k g1)"

definition call_export :: "('g, 'w, 'c) guest_env \<Rightarrow> string \<Rightarrow> string \<Rightarrow> (string, 'g, string + 'a) op \<Rightarrow> 'g \<Rightarrow> 'a two_level \<times> 'g" where
  "call_export E label what f =
     fuelled E label (\<lambda>g. case f g of
       (Inl trap, g') \<Rightarrow> (Inr (Inl (what @ '' trap: '' @ trap)), g')
     | (Inr r, g') \<Rightarrow> (Inr r, g'))"

definition call_flag :: "('g, 'w, 'c) guest_env \<Rightarrow> string \<Rightarrow> string \<Rightarrow> (string, 'g, bool) op \<Rightarrow> 'g \<Rightarrow> (dispatch_error + bool) \<times> 'g" where
  "call_flag E label what f =
     fuelled E label (\<lambda>g. case f g of
       (Inl trap, g') \<Rightarrow> (Inl (GuestTrap what trap), g')
     | (Inr b, g') \<Rightarrow> (Inr b, g'))"

definition try_bridge_scalar :: "('g, 'w, 'c) guest_env \<Rightarrow> 'g guest_api \<Rightarrow> string \<Rightarrow> u64 \<Rightarrow> sqlvalue list \<Rightarrow> ('g, 'w, 'c, sqlvalue two_level) attempt" where
  "try_bridge_scalar E X ext func_id args = on_bridge ext (call_export E ''call'' ''dynlink bridge scalar'' (x_scalar X func_id args))"

text \<open>A read goes to the mutating instance if there is one, so that reads and writes share a store.\<close>

definition read_tier :: "('g, 'w, 'c) guest_env \<Rightarrow> string \<Rightarrow> string \<Rightarrow> (string, 'g, string + 'a) op \<Rightarrow> ('g, 'w, 'c, 'a two_level) attempt" where
  "read_tier E ext meth f =
     or_else (on_mutating ext (call_export E meth (''dynlink bridge (mutating) '' @ meth) f))
             (on_bridge ext (call_export E meth (''dynlink bridge '' @ meth) f))"

definition write_tier :: "('g, 'w, 'c) guest_env \<Rightarrow> string \<Rightarrow> string \<Rightarrow> (string, 'g, string + 'a) op \<Rightarrow> ('g, 'w, 'c, 'a two_level) attempt" where
  "write_tier E ext meth f = on_mutating ext (call_export E meth (''dynlink bridge '' @ meth) f)"

definition try_bridge_vtab_connect :: "('g, 'w, 'c) guest_env \<Rightarrow> 'g guest_api \<Rightarrow> string \<Rightarrow> u64 \<Rightarrow> u64 \<Rightarrow> string \<Rightarrow> string \<Rightarrow> string list \<Rightarrow> ('g, 'w, 'c, string two_level) attempt" where
  "try_bridge_vtab_connect E X ext v i d t args = read_tier E ext ''vtab.connect'' (x_connect X v i d t args)"

definition try_bridge_vtab_disconnect :: "('g, 'w, 'c) guest_env \<Rightarrow> 'g guest_api \<Rightarrow> string \<Rightarrow> u64 \<Rightarrow> u64 \<Rightarrow> ('g, 'w, 'c, unit two_level) attempt" where
  "try_bridge_vtab_disconnect E X ext v i = read_tier E ext ''vtab.disconnect'' (x_disconnect X v i)"

definition try_bridge_vtab_best_index :: "('g, 'w, 'c) guest_env \<Rightarrow> 'g guest_api \<Rightarrow> string \<Rightarrow> u64 \<Rightarrow> u64 \<Rightarrow> index_info \<Rightarrow> ('g, 'w, 'c, index_plan_parts two_level) attempt" where
  "try_bridge_vtab_best_index E X ext v i info = read_tier E ext ''vtab.best-index'' (x_best_index X v i info)"

definition try_bridge_vtab_open :: "('g, 'w, 'c) guest_env \<Rightarrow> 'g guest_api \<Rightarrow> string \<Rightarrow> u64 \<Rightarrow> u64 \<Rightarrow> u64 \<Rightarrow> ('g, 'w, 'c, unit two_level) attempt" where
  "try_bridge_vtab_open E X ext v i c = read_tier E ext ''vtab.open'' (x_open X v i c)"

definition try_bridge_vtab_close :: "('g, 'w, 'c) guest_env \<Rightarrow> 'g guest_api \<Rightarrow> string \<Rightarrow> u64 \<Rightarrow> u64 \<Rightarrow> ('g, 'w, 'c, unit two_level) attempt" where
  "try_bridge_vtab_close E X ext v c = read_tier E ext ''vtab.close'' (x_close X v c)"

definition try_bridge_vtab_filter :: "('g, 'w, 'c) guest_env \<Rightarrow> 'g guest_api \<Rightarrow> string \<Rightarrow> u64 \<Rightarrow> u64 \<Rightarrow> i32 \<Rightarrow> string option \<Rightarrow> sqlvalue list \<Rightarrow> ('g, 'w, 'c, unit two_level) attempt" where
  "try_bridge_vtab_filter E X ext v c n s args = read_tier E ext ''vtab.filter'' (x_filter X v c n s args)"

definition try_bridge_vtab_fetch_batch :: "('g, 'w, 'c) guest_env \<Rightarrow> 'g guest_api \<Rightarrow> string \<Rightarrow> u64 \<Rightarrow> u64 \<Rightarrow> u32 \<Rightarrow> ('g, 'w, 'c, (i64 \<times> sqlvalue list) list two_level) attempt" where
  "try_bridge_vtab_fetch_batch E X ext v c n = read_tier E ext ''vtab.fetch-batch'' (x_fetch_batch X v c n)"

definition try_bridge_vtab_next :: "('g, 'w, 'c) guest_env \<Rightarrow> 'g guest_api \<Rightarrow> string \<Rightarrow> u64 \<Rightarrow> u64 \<Rightarrow> ('g, 'w, 'c, unit two_level) attempt" where
  "try_bridge_vtab_next E X ext v c = read_tier E ext ''vtab.next'' (x_next X v c)"

definition try_bridge_vtab_eof :: "('g, 'w, 'c) guest_env \<Rightarrow> 'g guest_api \<Rightarrow> string \<Rightarrow> u64 \<Rightarrow> u64 \<Rightarrow> ('g, 'w, 'c, dispatch_error + bool) attempt" where
  "try_bridge_vtab_eof E X ext v c =
     or_else (on_mutating ext (call_flag E ''vtab.eof'' ''dynlink bridge (mutating) vtab.eof'' (x_eof X v c)))
             (on_bridge ext (call_flag E ''vtab.eof'' ''dynlink bridge vtab.eof'' (x_eof X v c)))"

definition try_bridge_vtab_column :: "('g, 'w, 'c) guest_env \<Rightarrow> 'g guest_api \<Rightarrow> string \<Rightarrow> u64 \<Rightarrow> u64 \<Rightarrow> i32 \<Rightarrow> ('g, 'w, 'c, sqlvalue two_level) attempt" where
  "try_bridge_vtab_column E X ext v c n = read_tier E ext ''vtab.column'' (x_column X v c n)"

definition try_bridge_vtab_rowid :: "('g, 'w, 'c) guest_env \<Rightarrow> 'g guest_api \<Rightarrow> string \<Rightarrow> u64 \<Rightarrow> u64 \<Rightarrow> ('g, 'w, 'c, i64 two_level) attempt" where
  "try_bridge_vtab_rowid E X ext v c = read_tier E ext ''vtab.rowid'' (x_rowid X v c)"

definition try_bridge_vtab_update :: "('g, 'w, 'c) guest_env \<Rightarrow> 'g guest_api \<Rightarrow> string \<Rightarrow> u64 \<Rightarrow> u64 \<Rightarrow> sqlvalue list \<Rightarrow> ('g, 'w, 'c, i64 two_level) attempt" where
  "try_bridge_vtab_update E X ext v i args = write_tier E ext ''vtab-update.update'' (x_update X v i args)"

definition try_bridge_vtab_begin :: "('g, 'w, 'c) guest_env \<Rightarrow> 'g guest_api \<Rightarrow> string \<Rightarrow> u64 \<Rightarrow> u64 \<Rightarrow> ('g, 'w, 'c, unit two_level) attempt" where
  "try_bridge_vtab_begin E X ext v i = write_tier E ext ''vtab-update.begin'' (x_begin X v i)"

definition try_bridge_vtab_sync :: "('g, 'w, 'c) guest_env \<Rightarrow> 'g guest_api \<Rightarrow> string \<Rightarrow> u64 \<Rightarrow> u64 \<Rightarrow> ('g, 'w, 'c, unit two_level) attempt" where
  "try_bridge_vtab_sync E X ext v i = write_tier E ext ''vtab-update.sync'' (x_sync X v i)"

definition try_bridge_vtab_commit :: "('g, 'w, 'c) guest_env \<Rightarrow> 'g guest_api \<Rightarrow> string \<Rightarrow> u64 \<Rightarrow> u64 \<Rightarrow> ('g, 'w, 'c, unit two_level) attempt" where
  "try_bridge_vtab_commit E X ext v i = write_tier E ext ''vtab-update.commit'' (x_commit X v i)"

definition try_bridge_vtab_rollback :: "('g, 'w, 'c) guest_env \<Rightarrow> 'g guest_api \<Rightarrow> string \<Rightarrow> u64 \<Rightarrow> u64 \<Rightarrow> ('g, 'w, 'c, unit two_level) attempt" where
  "try_bridge_vtab_rollback E X ext v i = write_tier E ext ''vtab-update.rollback'' (x_rollback X v i)"

definition try_bridge_vtab_rename :: "('g, 'w, 'c) guest_env \<Rightarrow> 'g guest_api \<Rightarrow> string \<Rightarrow> u64 \<Rightarrow> u64 \<Rightarrow> string \<Rightarrow> ('g, 'w, 'c, unit two_level) attempt" where
  "try_bridge_vtab_rename E X ext v i n = write_tier E ext ''vtab-update.rename'' (x_rename X v i n)"

definition try_bridge_vtab_savepoint :: "('g, 'w, 'c) guest_env \<Rightarrow> 'g guest_api \<Rightarrow> string \<Rightarrow> u64 \<Rightarrow> u64 \<Rightarrow> i32 \<Rightarrow> ('g, 'w, 'c, unit two_level) attempt" where
  "try_bridge_vtab_savepoint E X ext v i n = write_tier E ext ''vtab-update.savepoint'' (x_savepoint X v i n)"

definition try_bridge_vtab_release :: "('g, 'w, 'c) guest_env \<Rightarrow> 'g guest_api \<Rightarrow> string \<Rightarrow> u64 \<Rightarrow> u64 \<Rightarrow> i32 \<Rightarrow> ('g, 'w, 'c, unit two_level) attempt" where
  "try_bridge_vtab_release E X ext v i n = write_tier E ext ''vtab-update.release'' (x_release X v i n)"

definition try_bridge_vtab_rollback_to :: "('g, 'w, 'c) guest_env \<Rightarrow> 'g guest_api \<Rightarrow> string \<Rightarrow> u64 \<Rightarrow> u64 \<Rightarrow> i32 \<Rightarrow> ('g, 'w, 'c, unit two_level) attempt" where
  "try_bridge_vtab_rollback_to E X ext v i n = write_tier E ext ''vtab-update.rollback-to'' (x_rollback_to X v i n)"

definition try_bridge_vtab_is_shadow_name :: "('g, 'w, 'c) guest_env \<Rightarrow> 'g guest_api \<Rightarrow> string \<Rightarrow> u64 \<Rightarrow> string \<Rightarrow> ('g, 'w, 'c, dispatch_error + bool) attempt" where
  "try_bridge_vtab_is_shadow_name E X ext v n =
     on_mutating ext (call_flag E ''vtab-update.is-shadow-name'' ''dynlink bridge vtab-update.is-shadow-name'' (x_is_shadow_name X v n))"

definition try_bridge_vtab_integrity :: "('g, 'w, 'c) guest_env \<Rightarrow> 'g guest_api \<Rightarrow> string \<Rightarrow> u64 \<Rightarrow> u64 \<Rightarrow> string \<Rightarrow> string \<Rightarrow> u32 \<Rightarrow> ('g, 'w, 'c, unit two_level) attempt" where
  "try_bridge_vtab_integrity E X ext v i s t m = write_tier E ext ''vtab-update.integrity'' (x_integrity X v i s t m)"

section \<open>Providers\<close>

definition strip_provider_call_prefix :: "string \<Rightarrow> string" where
  "strip_provider_call_prefix msg = (case find_after ''scalar call: '' msg of Some rest \<Rightarrow> rest | None \<Rightarrow> msg)"

definition backing_provider :: "string \<Rightarrow> ('g, 'w, 'c) ext_host \<Rightarrow> 'c provider_kind option" where
  "backing_provider ident h = get_compose_provider ident (eh_providers h)"

definition try_provider_scalar :: "('g, 'w, 'c) guest_env \<Rightarrow> string \<Rightarrow> u64 \<Rightarrow> sqlvalue list \<Rightarrow> ('g, 'w, 'c, sqlvalue two_level) attempt" where
  "try_provider_scalar E ext func_id args h =
     (case map_of (eh_backed h) ext of
        None \<Rightarrow> (None, h)
      | Some b \<Rightarrow>
          (case backing_provider (pb_provider_id b) h of
             None \<Rightarrow> (Some (Inl (ProviderVanished (pb_provider_id b) ext)), h)
           | Some p \<Rightarrow>
               (case encode_call (g_codec E) func_id args of
                  Inl e \<Rightarrow> (Some (Inl (EncodeFailed ''call'' e)), h)
                | Inr payload \<Rightarrow>
                    (case g_invoke E p ''call'' payload (eh_world h) of
                       (Inr bytes, w) \<Rightarrow>
                         (Some (Inr (map_error (\<lambda>e. ''decode call result: '' @ e) (decode_sql_value (g_codec E) bytes))), h\<lparr>eh_world := w\<rparr>)
                     | (Inl e, w) \<Rightarrow> (Some (Inr (Inl (strip_provider_call_prefix e))), h\<lparr>eh_world := w\<rparr>)))))"

definition resident_provider_handle :: "string \<Rightarrow> ('g, 'w, 'c) ext_host \<Rightarrow> 'c provider_kind option" where
  "resident_provider_handle ext h =
     (case map_of (eh_backed h) ext of
        None \<Rightarrow> None
      | Some b \<Rightarrow> if pb_resident b then backing_provider (pb_provider_id b) h else None)"

text \<open>A request to the resident provider whose encoding failed is the host's error for an aggregate and the
  extension's for the other tiers.\<close>

definition try_provider_aggregate :: "('g, 'w, 'c) guest_env \<Rightarrow> string \<Rightarrow> string \<Rightarrow> string + bytes \<Rightarrow> (bytes \<Rightarrow> string + 'a) \<Rightarrow> ('g, 'w, 'c, 'a two_level) attempt" where
  "try_provider_aggregate E ext meth payload dec h =
     (case resident_provider_handle ext h of
        None \<Rightarrow> (None, h)
      | Some p \<Rightarrow>
          (case payload of
             Inl e \<Rightarrow> (Some (Inl (EncodeFailed meth e)), h)
           | Inr b \<Rightarrow> (case g_invoke E p meth b (eh_world h) of (r, w) \<Rightarrow> (Some (Inr (sbind r dec)), h\<lparr>eh_world := w\<rparr>))))"

definition try_provider_aggregate_step :: "('g, 'w, 'c) guest_env \<Rightarrow> string \<Rightarrow> u64 \<Rightarrow> u64 \<Rightarrow> sqlvalue list \<Rightarrow> ('g, 'w, 'c, unit two_level) attempt" where
  "try_provider_aggregate_step E ext func_id ctx args =
     try_provider_aggregate E ext ''agg.step'' (encode_agg_step (g_codec E) func_id ctx args) (\<lambda>_. Inr ())"

definition try_provider_aggregate_inverse :: "('g, 'w, 'c) guest_env \<Rightarrow> string \<Rightarrow> u64 \<Rightarrow> u64 \<Rightarrow> sqlvalue list \<Rightarrow> ('g, 'w, 'c, unit two_level) attempt" where
  "try_provider_aggregate_inverse E ext func_id ctx args =
     try_provider_aggregate E ext ''agg.inverse'' (encode_agg_step (g_codec E) func_id ctx args) (\<lambda>_. Inr ())"

definition try_provider_aggregate_ctx :: "('g, 'w, 'c) guest_env \<Rightarrow> string \<Rightarrow> string \<Rightarrow> u64 \<Rightarrow> u64 \<Rightarrow> ('g, 'w, 'c, sqlvalue two_level) attempt" where
  "try_provider_aggregate_ctx E ext meth func_id ctx =
     try_provider_aggregate E ext meth (encode_agg_ctx (g_codec E) func_id ctx)
       (\<lambda>b. map_error (\<lambda>e. ''decode '' @ meth @ '' result: '' @ e) (decode_sql_value (g_codec E) b))"

definition try_provider_invoke :: "('g, 'w, 'c) guest_env \<Rightarrow> string \<Rightarrow> string \<Rightarrow> string + bytes \<Rightarrow> ('g, 'w, 'c, string + bytes) attempt" where
  "try_provider_invoke E ext meth payload h =
     (case resident_provider_handle ext h of
        None \<Rightarrow> (None, h)
      | Some p \<Rightarrow>
          (case payload of
             Inl e \<Rightarrow> (Some (Inl (''encode '' @ meth @ '': '' @ e)), h)
           | Inr b \<Rightarrow> (case g_invoke E p meth b (eh_world h) of (r, w) \<Rightarrow> (Some r, h\<lparr>eh_world := w\<rparr>))))"

definition mapped :: "('a \<Rightarrow> 'b) \<Rightarrow> ('g, 'w, 'c, 'a) attempt \<Rightarrow> ('g, 'w, 'c, 'b) attempt" where
  "mapped f a h = (case a h of (r, h') \<Rightarrow> (map_option f r, h'))"

definition provider_tier :: "('g, 'w, 'c) guest_env \<Rightarrow> string \<Rightarrow> string \<Rightarrow> string + bytes \<Rightarrow> (bytes \<Rightarrow> string + 'a) \<Rightarrow> ('g, 'w, 'c, 'a two_level) attempt" where
  "provider_tier E ext meth payload dec = mapped (\<lambda>r. Inr (sbind r dec)) (try_provider_invoke E ext meth payload)"

definition provider_plain :: "('g, 'w, 'c) guest_env \<Rightarrow> string \<Rightarrow> string \<Rightarrow> string + bytes \<Rightarrow> string \<Rightarrow> (bytes \<Rightarrow> string + 'a) \<Rightarrow>
    ('g, 'w, 'c, dispatch_error + 'a) attempt" where
  "provider_plain E ext meth payload what dec =
     mapped (\<lambda>r. sbind (map_error (InvokeFailed meth) r) (\<lambda>b. map_error (DecodeFailed what) (dec b))) (try_provider_invoke E ext meth payload)"

definition or_not_loaded :: "string \<Rightarrow> ('g, 'w, 'c, dispatch_error + 'a) attempt \<Rightarrow> ('g, 'w, 'c, 'a) dispatch_op" where
  "or_not_loaded ext a h = (case a h of (Some r, h') \<Rightarrow> (r, h') | (None, h') \<Rightarrow> (Inl (ExtNotLoaded ext), h'))"

abbreviation done_unit :: "bytes \<Rightarrow> string + unit" where
  "done_unit \<equiv> \<lambda>_. Inr ()"

abbreviation decode_as :: "string \<Rightarrow> (bytes \<Rightarrow> string + 'a) \<Rightarrow> bytes \<Rightarrow> string + 'a" where
  "decode_as what dec \<equiv> \<lambda>b. map_error (\<lambda>e. ''decode '' @ what @ '': '' @ e) (dec b)"

section \<open>Dispatch of functions\<close>

definition dispatch_scalar :: "('g, 'w, 'c) guest_env \<Rightarrow> 'g guest_api \<Rightarrow> string \<Rightarrow> u64 \<Rightarrow> sqlvalue list \<Rightarrow> ('g, 'w, 'c, string + sqlvalue) dispatch_op" where
  "dispatch_scalar E X ext func_id args =
     or_not_loaded ext (or_else (try_bridge_scalar E X ext func_id args) (try_provider_scalar E ext func_id args))"

definition dispatch_aggregate_step :: "('g, 'w, 'c) guest_env \<Rightarrow> string \<Rightarrow> u64 \<Rightarrow> u64 \<Rightarrow> sqlvalue list \<Rightarrow> ('g, 'w, 'c, string + unit) dispatch_op" where
  "dispatch_aggregate_step E ext func_id ctx args = or_not_loaded ext (try_provider_aggregate_step E ext func_id ctx args)"

definition dispatch_aggregate_finalize :: "('g, 'w, 'c) guest_env \<Rightarrow> string \<Rightarrow> u64 \<Rightarrow> u64 \<Rightarrow> ('g, 'w, 'c, string + sqlvalue) dispatch_op" where
  "dispatch_aggregate_finalize E ext func_id ctx = or_not_loaded ext (try_provider_aggregate_ctx E ext ''agg.finalize'' func_id ctx)"

definition dispatch_aggregate_value :: "('g, 'w, 'c) guest_env \<Rightarrow> string \<Rightarrow> u64 \<Rightarrow> u64 \<Rightarrow> ('g, 'w, 'c, string + sqlvalue) dispatch_op" where
  "dispatch_aggregate_value E ext func_id ctx = or_not_loaded ext (try_provider_aggregate_ctx E ext ''agg.value'' func_id ctx)"

definition dispatch_aggregate_inverse :: "('g, 'w, 'c) guest_env \<Rightarrow> string \<Rightarrow> u64 \<Rightarrow> u64 \<Rightarrow> sqlvalue list \<Rightarrow> ('g, 'w, 'c, string + unit) dispatch_op" where
  "dispatch_aggregate_inverse E ext func_id ctx args = or_not_loaded ext (try_provider_aggregate_inverse E ext func_id ctx args)"

definition dispatch_collation :: "('g, 'w, 'c) guest_env \<Rightarrow> string \<Rightarrow> u64 \<Rightarrow> string \<Rightarrow> string \<Rightarrow> ('g, 'w, 'c, i32) dispatch_op" where
  "dispatch_collation E ext coll a b h =
     (case Option.bind (map_of (eh_backed h) ext) (\<lambda>k. backing_provider (pb_provider_id k) h) of
        None \<Rightarrow> (Inl (ExtNotLoaded ext), h)
      | Some p \<Rightarrow>
          (case encode_collation_compare (g_codec E) coll a b of
             Inl e \<Rightarrow> (Inl (EncodeFailed ''collation compare'' e), h)
           | Inr payload \<Rightarrow>
               (case g_invoke E p ''collation.compare'' payload (eh_world h) of
                  (r, w) \<Rightarrow>
                    (sbind (map_error (InvokeFailed ''collation.compare'') r) (\<lambda>bs.
                       map_error (DecodeFailed ''collation result'') (decode_i32 (g_codec E) bs)), h\<lparr>eh_world := w\<rparr>))))"

section \<open>Dispatch of virtual tables\<close>

definition dispatch_vtab_create :: "('g, 'w, 'c) guest_env \<Rightarrow> string \<Rightarrow> u64 \<Rightarrow> u64 \<Rightarrow> string \<Rightarrow> string \<Rightarrow> string list \<Rightarrow> ('g, 'w, 'c, string + string) dispatch_op" where
  "dispatch_vtab_create E ext v i d t args =
     or_not_loaded ext (provider_tier E ext ''vtab.create'' (encode_vtab_connect (g_codec E) v i d t args) (decode_string (g_codec E)))"

definition dispatch_vtab_connect :: "('g, 'w, 'c) guest_env \<Rightarrow> 'g guest_api \<Rightarrow> string \<Rightarrow> u64 \<Rightarrow> u64 \<Rightarrow> string \<Rightarrow> string \<Rightarrow> string list \<Rightarrow> ('g, 'w, 'c, string + string) dispatch_op" where
  "dispatch_vtab_connect E X ext v i d t args =
     or_not_loaded ext (or_else (try_bridge_vtab_connect E X ext v i d t args)
       (provider_tier E ext ''vtab.connect'' (encode_vtab_connect (g_codec E) v i d t args) (decode_string (g_codec E))))"

definition dispatch_vtab_destroy :: "('g, 'w, 'c) guest_env \<Rightarrow> string \<Rightarrow> u64 \<Rightarrow> u64 \<Rightarrow> ('g, 'w, 'c, string + unit) dispatch_op" where
  "dispatch_vtab_destroy E ext v i =
     or_not_loaded ext (provider_tier E ext ''vtab.destroy'' (encode_vtab_instance (g_codec E) v i) done_unit)"

definition dispatch_vtab_disconnect :: "('g, 'w, 'c) guest_env \<Rightarrow> 'g guest_api \<Rightarrow> string \<Rightarrow> u64 \<Rightarrow> u64 \<Rightarrow> ('g, 'w, 'c, string + unit) dispatch_op" where
  "dispatch_vtab_disconnect E X ext v i =
     or_not_loaded ext (or_else (try_bridge_vtab_disconnect E X ext v i)
       (provider_tier E ext ''vtab.disconnect'' (encode_vtab_instance (g_codec E) v i) done_unit))"

definition best_index_request :: "bytes codec \<Rightarrow> u64 \<Rightarrow> u64 \<Rightarrow> index_info \<Rightarrow> string + bytes" where
  "best_index_request C v i info =
     encode_vtab_best_index C v i
       (map (\<lambda>c. (ic_column c, constraint_op_name (ic_op c), ic_usable c)) (ii_constraints info)) (ii_orderbys info) (ii_col_used info)"

definition dispatch_vtab_best_index :: "('g, 'w, 'c) guest_env \<Rightarrow> 'g guest_api \<Rightarrow> string \<Rightarrow> u64 \<Rightarrow> u64 \<Rightarrow> index_info \<Rightarrow> ('g, 'w, 'c, string + index_plan_parts) dispatch_op" where
  "dispatch_vtab_best_index E X ext v i info =
     or_not_loaded ext (or_else (try_bridge_vtab_best_index E X ext v i info)
       (provider_tier E ext ''vtab.best-index'' (best_index_request (g_codec E) v i info)
         (decode_as ''index plan'' (decode_vtab_index_plan (g_codec E)))))"

definition dispatch_vtab_open :: "('g, 'w, 'c) guest_env \<Rightarrow> 'g guest_api \<Rightarrow> string \<Rightarrow> u64 \<Rightarrow> u64 \<Rightarrow> u64 \<Rightarrow> ('g, 'w, 'c, string + unit) dispatch_op" where
  "dispatch_vtab_open E X ext v i c =
     or_not_loaded ext (or_else (try_bridge_vtab_open E X ext v i c)
       (provider_tier E ext ''vtab.open'' (encode_vtab_open (g_codec E) v i c) done_unit))"

definition dispatch_vtab_close :: "('g, 'w, 'c) guest_env \<Rightarrow> 'g guest_api \<Rightarrow> string \<Rightarrow> u64 \<Rightarrow> u64 \<Rightarrow> ('g, 'w, 'c, string + unit) dispatch_op" where
  "dispatch_vtab_close E X ext v c =
     or_not_loaded ext (or_else (try_bridge_vtab_close E X ext v c)
       (provider_tier E ext ''vtab.close'' (encode_vtab_cursor (g_codec E) v c) done_unit))"

definition dispatch_vtab_filter :: "('g, 'w, 'c) guest_env \<Rightarrow> 'g guest_api \<Rightarrow> string \<Rightarrow> u64 \<Rightarrow> u64 \<Rightarrow> i32 \<Rightarrow> string option \<Rightarrow> sqlvalue list \<Rightarrow> ('g, 'w, 'c, string + unit) dispatch_op" where
  "dispatch_vtab_filter E X ext v c n s args =
     or_not_loaded ext (or_else (try_bridge_vtab_filter E X ext v c n s args)
       (provider_tier E ext ''vtab.filter'' (encode_vtab_filter (g_codec E) v c n s args) done_unit))"

definition dispatch_vtab_next :: "('g, 'w, 'c) guest_env \<Rightarrow> 'g guest_api \<Rightarrow> string \<Rightarrow> u64 \<Rightarrow> u64 \<Rightarrow> ('g, 'w, 'c, string + unit) dispatch_op" where
  "dispatch_vtab_next E X ext v c =
     or_not_loaded ext (or_else (try_bridge_vtab_next E X ext v c)
       (provider_tier E ext ''vtab.next'' (encode_vtab_cursor (g_codec E) v c) done_unit))"

definition dispatch_vtab_eof :: "('g, 'w, 'c) guest_env \<Rightarrow> 'g guest_api \<Rightarrow> string \<Rightarrow> u64 \<Rightarrow> u64 \<Rightarrow> ('g, 'w, 'c, bool) dispatch_op" where
  "dispatch_vtab_eof E X ext v c =
     or_not_loaded ext (or_else (try_bridge_vtab_eof E X ext v c)
       (provider_plain E ext ''vtab.eof'' (encode_vtab_cursor (g_codec E) v c) ''eof'' (decode_bool (g_codec E))))"

definition dispatch_vtab_column :: "('g, 'w, 'c) guest_env \<Rightarrow> 'g guest_api \<Rightarrow> string \<Rightarrow> u64 \<Rightarrow> u64 \<Rightarrow> i32 \<Rightarrow> ('g, 'w, 'c, string + sqlvalue) dispatch_op" where
  "dispatch_vtab_column E X ext v c n =
     or_not_loaded ext (or_else (try_bridge_vtab_column E X ext v c n)
       (provider_tier E ext ''vtab.column'' (encode_vtab_column (g_codec E) v c n) (decode_as ''column'' (decode_sql_value (g_codec E)))))"

definition dispatch_vtab_rowid :: "('g, 'w, 'c) guest_env \<Rightarrow> 'g guest_api \<Rightarrow> string \<Rightarrow> u64 \<Rightarrow> u64 \<Rightarrow> ('g, 'w, 'c, string + i64) dispatch_op" where
  "dispatch_vtab_rowid E X ext v c =
     or_not_loaded ext (or_else (try_bridge_vtab_rowid E X ext v c)
       (provider_tier E ext ''vtab.rowid'' (encode_vtab_cursor (g_codec E) v c) (decode_as ''rowid'' (decode_i64 (g_codec E)))))"

definition dispatch_vtab_fetch_batch :: "('g, 'w, 'c) guest_env \<Rightarrow> 'g guest_api \<Rightarrow> string \<Rightarrow> u64 \<Rightarrow> u64 \<Rightarrow> u32 \<Rightarrow> ('g, 'w, 'c, string + (i64 \<times> sqlvalue list) list) dispatch_op" where
  "dispatch_vtab_fetch_batch E X ext v c n =
     or_not_loaded ext (or_else (try_bridge_vtab_fetch_batch E X ext v c n)
       (provider_tier E ext ''vtab.fetch-batch'' (encode_vtab_fetch_batch (g_codec E) v c n)
         (decode_as ''fetch-batch'' (decode_vtab_rows (g_codec E)))))"

section \<open>Dispatch of writes\<close>

definition dispatch_vtab_update :: "('g, 'w, 'c) guest_env \<Rightarrow> 'g guest_api \<Rightarrow> string \<Rightarrow> u64 \<Rightarrow> u64 \<Rightarrow> sqlvalue list \<Rightarrow> ('g, 'w, 'c, string + i64) dispatch_op" where
  "dispatch_vtab_update E X ext v i args =
     or_not_loaded ext (or_else (try_bridge_vtab_update E X ext v i args)
       (provider_tier E ext ''vtab-update.update'' (encode_vtab_update (g_codec E) v i args) (decode_as ''xUpdate rowid'' (decode_i64 (g_codec E)))))"

definition dispatch_vtab_begin :: "('g, 'w, 'c) guest_env \<Rightarrow> 'g guest_api \<Rightarrow> string \<Rightarrow> u64 \<Rightarrow> u64 \<Rightarrow> ('g, 'w, 'c, string + unit) dispatch_op" where
  "dispatch_vtab_begin E X ext v i =
     or_not_loaded ext (or_else (try_bridge_vtab_begin E X ext v i)
       (provider_tier E ext ''vtab-update.begin'' (encode_vtab_instance (g_codec E) v i) done_unit))"

definition dispatch_vtab_sync :: "('g, 'w, 'c) guest_env \<Rightarrow> 'g guest_api \<Rightarrow> string \<Rightarrow> u64 \<Rightarrow> u64 \<Rightarrow> ('g, 'w, 'c, string + unit) dispatch_op" where
  "dispatch_vtab_sync E X ext v i =
     or_not_loaded ext (or_else (try_bridge_vtab_sync E X ext v i)
       (provider_tier E ext ''vtab-update.sync'' (encode_vtab_instance (g_codec E) v i) done_unit))"

definition dispatch_vtab_commit :: "('g, 'w, 'c) guest_env \<Rightarrow> 'g guest_api \<Rightarrow> string \<Rightarrow> u64 \<Rightarrow> u64 \<Rightarrow> ('g, 'w, 'c, string + unit) dispatch_op" where
  "dispatch_vtab_commit E X ext v i =
     or_not_loaded ext (or_else (try_bridge_vtab_commit E X ext v i)
       (provider_tier E ext ''vtab-update.commit'' (encode_vtab_instance (g_codec E) v i) done_unit))"

definition dispatch_vtab_rollback :: "('g, 'w, 'c) guest_env \<Rightarrow> 'g guest_api \<Rightarrow> string \<Rightarrow> u64 \<Rightarrow> u64 \<Rightarrow> ('g, 'w, 'c, string + unit) dispatch_op" where
  "dispatch_vtab_rollback E X ext v i =
     or_not_loaded ext (or_else (try_bridge_vtab_rollback E X ext v i)
       (provider_tier E ext ''vtab-update.rollback'' (encode_vtab_instance (g_codec E) v i) done_unit))"

definition dispatch_vtab_rename :: "('g, 'w, 'c) guest_env \<Rightarrow> 'g guest_api \<Rightarrow> string \<Rightarrow> u64 \<Rightarrow> u64 \<Rightarrow> string \<Rightarrow> ('g, 'w, 'c, string + unit) dispatch_op" where
  "dispatch_vtab_rename E X ext v i n =
     or_not_loaded ext (or_else (try_bridge_vtab_rename E X ext v i n)
       (provider_tier E ext ''vtab-update.rename'' (encode_vtab_rename (g_codec E) v i n) done_unit))"

definition dispatch_vtab_savepoint :: "('g, 'w, 'c) guest_env \<Rightarrow> 'g guest_api \<Rightarrow> string \<Rightarrow> u64 \<Rightarrow> u64 \<Rightarrow> i32 \<Rightarrow> ('g, 'w, 'c, string + unit) dispatch_op" where
  "dispatch_vtab_savepoint E X ext v i n =
     or_not_loaded ext (or_else (try_bridge_vtab_savepoint E X ext v i n)
       (provider_tier E ext ''vtab-update.savepoint'' (encode_vtab_savepoint (g_codec E) v i n) done_unit))"

definition dispatch_vtab_release :: "('g, 'w, 'c) guest_env \<Rightarrow> 'g guest_api \<Rightarrow> string \<Rightarrow> u64 \<Rightarrow> u64 \<Rightarrow> i32 \<Rightarrow> ('g, 'w, 'c, string + unit) dispatch_op" where
  "dispatch_vtab_release E X ext v i n =
     or_not_loaded ext (or_else (try_bridge_vtab_release E X ext v i n)
       (provider_tier E ext ''vtab-update.release'' (encode_vtab_savepoint (g_codec E) v i n) done_unit))"

definition dispatch_vtab_rollback_to :: "('g, 'w, 'c) guest_env \<Rightarrow> 'g guest_api \<Rightarrow> string \<Rightarrow> u64 \<Rightarrow> u64 \<Rightarrow> i32 \<Rightarrow> ('g, 'w, 'c, string + unit) dispatch_op" where
  "dispatch_vtab_rollback_to E X ext v i n =
     or_not_loaded ext (or_else (try_bridge_vtab_rollback_to E X ext v i n)
       (provider_tier E ext ''vtab-update.rollback-to'' (encode_vtab_savepoint (g_codec E) v i n) done_unit))"

definition dispatch_vtab_is_shadow_name :: "('g, 'w, 'c) guest_env \<Rightarrow> 'g guest_api \<Rightarrow> string \<Rightarrow> u64 \<Rightarrow> string \<Rightarrow> ('g, 'w, 'c, bool) dispatch_op" where
  "dispatch_vtab_is_shadow_name E X ext v n =
     or_not_loaded ext (or_else (try_bridge_vtab_is_shadow_name E X ext v n)
       (provider_plain E ext ''vtab-update.is-shadow-name'' (encode_vtab_shadow_name (g_codec E) v n) ''is-shadow-name'' (decode_bool (g_codec E))))"

definition dispatch_vtab_integrity :: "('g, 'w, 'c) guest_env \<Rightarrow> 'g guest_api \<Rightarrow> string \<Rightarrow> u64 \<Rightarrow> u64 \<Rightarrow> string \<Rightarrow> string \<Rightarrow> u32 \<Rightarrow> ('g, 'w, 'c, string + unit) dispatch_op" where
  "dispatch_vtab_integrity E X ext v i s t m =
     or_not_loaded ext (or_else (try_bridge_vtab_integrity E X ext v i s t m)
       (provider_tier E ext ''vtab-update.integrity'' (encode_vtab_integrity (g_codec E) v i s t m) done_unit))"

section \<open>Dispatch of hooks\<close>

text \<open>An extension without an authorizer allows: the only dispatch that does not fail when nothing is loaded.\<close>

definition dispatch_authorize :: "('g, 'w, 'c) guest_env \<Rightarrow> string \<Rightarrow> auth_action \<Rightarrow> string option \<Rightarrow> string option \<Rightarrow> string option \<Rightarrow> string option \<Rightarrow>
    ('g, 'w, 'c, auth_result) dispatch_op" where
  "dispatch_authorize E ext action arg1 arg2 dbn trigger h =
     (case provider_plain E ext ''authorizer.authorize'' (encode_authorize (g_codec E) (auth_action_name action) arg1 arg2 dbn trigger)
             ''authorize result'' (\<lambda>b. sbind (decode_string (g_codec E) b) (\<lambda>s. Inr (auth_result_from_name s))) h of
        (Some r, h') \<Rightarrow> (r, h')
      | (None, h') \<Rightarrow> (Inr AuthOk, h'))"

definition dispatch_on_update :: "('g, 'w, 'c) guest_env \<Rightarrow> string \<Rightarrow> update_operation \<Rightarrow> string \<Rightarrow> string \<Rightarrow> i64 \<Rightarrow> ('g, 'w, 'c, unit) dispatch_op" where
  "dispatch_on_update E ext operation dbn tbl rowid =
     or_not_loaded ext (provider_plain E ext ''hook.update'' (encode_hook_update (g_codec E) (update_op_name operation) dbn tbl rowid)
       ''hook.update'' done_unit)"

definition dispatch_on_commit :: "('g, 'w, 'c) guest_env \<Rightarrow> string \<Rightarrow> ('g, 'w, 'c, bool) dispatch_op" where
  "dispatch_on_commit E ext = or_not_loaded ext (provider_plain E ext ''hook.commit'' (Inr []) ''on-commit'' (decode_bool (g_codec E)))"

definition dispatch_on_rollback :: "('g, 'w, 'c) guest_env \<Rightarrow> string \<Rightarrow> ('g, 'w, 'c, unit) dispatch_op" where
  "dispatch_on_rollback E ext = or_not_loaded ext (provider_plain E ext ''hook.rollback'' (Inr []) ''hook.rollback'' done_unit)"

definition dispatch_on_wal_hook :: "('g, 'w, 'c) guest_env \<Rightarrow> string \<Rightarrow> u64 \<Rightarrow> string \<Rightarrow> u32 \<Rightarrow> ('g, 'w, 'c, i32) dispatch_op" where
  "dispatch_on_wal_hook E ext hook dbn n_frames =
     or_not_loaded ext (provider_plain E ext ''hook.wal'' (encode_hook_wal (g_codec E) hook dbn n_frames) ''wal hook'' (decode_i32 (g_codec E)))"

section \<open>Dot commands and parsers\<close>

fun json_text_chars :: "string \<Rightarrow> string" where
  "json_text_chars [] = []"
| "json_text_chars [c] = [c]"
| "json_text_chars (c # d # cs) =
     (if c \<noteq> CHR 0x5C then c # json_text_chars (d # cs)
      else if d = CHR ''n'' then CHR 0x0A # json_text_chars cs
      else if d = CHR ''r'' then CHR 0x0D # json_text_chars cs
      else if d = CHR ''t'' then CHR 0x09 # json_text_chars cs
      else if d = CHR 0x22 \<or> d = CHR 0x5C then d # json_text_chars cs
      else c # d # json_text_chars cs)"

definition parse_json_text :: "string \<Rightarrow> string option" where
  "parse_json_text json =
     (let s = trim json in
      if s = [] \<or> hd s \<noteq> CHR 0x22 \<or> last s \<noteq> CHR 0x22 \<or> length s < 2 then None
      else Some (json_text_chars (butlast (tl s))))"

record dot_command_outcome =
  dc_text :: string
  dc_state_deltas :: "(string \<times> string) list"
  dc_exit_code :: i32

fun find_map :: "('a \<Rightarrow> 'b option) \<Rightarrow> 'a list \<Rightarrow> 'b option" where
  "find_map f [] = None"
| "find_map f (x # xs) = (case f x of Some y \<Rightarrow> Some y | None \<Rightarrow> find_map f xs)"

definition dot_outcome_of :: "dot_outcome \<Rightarrow> cli_capture \<Rightarrow> dot_command_outcome" where
  "dot_outcome_of r cli =
     (let streamed = (if cap_stdout cli \<noteq> [] then cap_stdout cli else do_stdout r) in
      \<lparr>dc_text = (if streamed = [] then do_text r else if do_text r = [] then streamed else streamed @ do_text r),
       dc_state_deltas = do_deltas r,
       dc_exit_code = (if do_ok r then do_exit_code r else if sint (do_exit_code r) \<le> 1 then 1 else do_exit_code r)\<rparr>)"

definition dispatch_dot_command :: "('g, 'w, 'c) guest_env \<Rightarrow> (f64 \<Rightarrow> string) \<Rightarrow> string \<Rightarrow> string \<Rightarrow> (string \<times> string) list \<Rightarrow>
    ('g, 'w, 'c, dot_command_outcome) dispatch_op" where
  "dispatch_dot_command E show_f64 name args cli_state h =
     (case find_map (\<lambda>(_, b). map_option (\<lambda>i. (pb_provider_id b, i)) (pb_dotcmds b name)) (eh_backed h) of
        None \<Rightarrow> (Inl (NoDotCommand name), h)
      | Some (provider_id, func_id) \<Rightarrow>
          (case backing_provider provider_id h of
             None \<Rightarrow> (Inl (ProviderVanished provider_id name), h)
           | Some p \<Rightarrow>
               (let snapshot = collect_map cli_state;
                    display_mode = (case Option.bind (snapshot ''display/mode'') parse_json_text of Some m \<Rightarrow> m | None \<Rightarrow> ''list'');
                    bail = (case snapshot ''bail/on-error'' of Some j \<Rightarrow> trim j \<in> {''true'', ''1''} | None \<Rightarrow> False) in
                case encode_dot_invoke (g_codec E) func_id args True display_mode bail of
                  Inl e \<Rightarrow> (Inl (EncodeFailed ''dotcmd.invoke'' e), h)
                | Inr payload \<Rightarrow>
                    (case invoke_cli E p ''dotcmd.invoke'' payload snapshot (eh_world h) of
                       (r, w) \<Rightarrow>
                         (sbind (map_error (InvokeFailed ''dotcmd.invoke'') r) (\<lambda>(resp, cli).
                          sbind (map_error (DecodeFailed ''dotcmd resp'') (decode_dot_invoke show_f64 (g_codec E) resp)) (\<lambda>out.
                          Inr (dot_outcome_of out cli))), h\<lparr>eh_world := w\<rparr>)))))"

definition PARSER_ENTRY_FN :: string where
  "PARSER_ENTRY_FN = ''__sqlink_parse''"

definition parser_candidates :: "('g, 'w, 'c) ext_host \<Rightarrow> (string \<times> u64) list" where
  "parser_candidates h =
     List.map_filter (\<lambda>(ext, m). map_option (\<lambda>(_, i, _). (ext, i))
       (List.find (\<lambda>(name, _, _). name = PARSER_ENTRY_FN) (pm_scalar_specs m))) (eh_manifests h)"

fun try_parsers :: "('g, 'w, 'c) guest_env \<Rightarrow> 'g guest_api \<Rightarrow> string \<Rightarrow> (string \<times> u64) list \<Rightarrow> ('g, 'w, 'c, string option) dispatch_op" where
  "try_parsers E X stmt [] = ret None"
| "try_parsers E X stmt ((ext, i) # rest) =
     bnd (dispatch_scalar E X ext i [SqlText stmt]) (\<lambda>r.
     case r of
       Inr (SqlText sql) \<Rightarrow> if trim sql \<noteq> [] then ret (Some sql) else try_parsers E X stmt rest
     | Inr _ \<Rightarrow> try_parsers E X stmt rest
     | Inl msg \<Rightarrow> fail (ParserRejected msg))"

definition dispatch_parse :: "('g, 'w, 'c) guest_env \<Rightarrow> 'g guest_api \<Rightarrow> string \<Rightarrow> ('g, 'w, 'c, string option) dispatch_op" where
  "dispatch_parse E X stmt h = try_parsers E X stmt (parser_candidates h) h"

end
