(* ===== verification/Extension_Registry.thy ===== *)
theory Extension_Registry
  imports Extension_Host
begin

text \<open>
  What the operations of theory Extension_Host do to the registries.

  Shown: a load that fails changes no registry of extensions; a load that succeeds registers exactly one extension,
  as a resident provider with the capabilities of the load policy and nothing more, or as a bridge; loading returns
  whenever the chain of bridge names ends, and only then; every loaded extension has its provider, its manifest and, if
  it has stateful tiers, a resident store, in every reachable state; unloading removes an extension completely.
\<close>

section \<open>What stays the same\<close>

definition same_registries :: "('g, 'w, 'c) ext_host \<Rightarrow> ('g, 'w, 'c) ext_host \<Rightarrow> bool" where
  "same_registries h h' \<longleftrightarrow>
     eh_providers h' = eh_providers h \<and> eh_backed h' = eh_backed h \<and> eh_manifests h' = eh_manifests h \<and>
     eh_bridges h' = eh_bridges h \<and> eh_mutating h' = eh_mutating h \<and> eh_typed h' = eh_typed h \<and>
     eh_codecs h' = eh_codecs h \<and> eh_runtimes h' = eh_runtimes h"

lemma same_refl [simp]: "same_registries h h"
  by (simp add: same_registries_def)

lemma same_trans: "same_registries a b \<Longrightarrow> same_registries b c \<Longrightarrow> same_registries a c"
  by (simp add: same_registries_def)

lemma same_in_world: "in_world err m h = (r, h') \<Longrightarrow> same_registries h h'"
  by (auto simp: in_world_def same_registries_def split: prod.splits)

lemma same_in_loader: "in_loader err m h = (r, h') \<Longrightarrow> same_registries h h'"
  by (auto simp: in_loader_def same_registries_def split: prod.splits)

lemma same_cache_bytes: "same_registries h (cache_bytes E path b h)"
  by (simp add: cache_bytes_def same_registries_def)

lemma same_try_component: "try_component E b hint h = (c, h') \<Longrightarrow> same_registries h h'"
  by (auto simp: try_component_def same_registries_def split: prod.splits sum.splits)

lemma same_describe_provider: "describe_provider E p h = (r, h') \<Longrightarrow> same_registries h h'"
  by (auto simp: describe_provider_def bnd_def split: prod.splits sum.splits dest: same_in_world)

section \<open>Building a provider\<close>

definition policy_grants :: "load_grants \<Rightarrow> resident_grants \<Rightarrow> bool" where
  "policy_grants policy g \<longleftrightarrow>
     rg_http g = lg_http policy \<and> rg_dns g = lg_dns policy \<and> rg_s3 g = lg_s3 policy \<and> rg_spawn_build g = lg_spawn_build policy"

lemma new_resident_from_bytes_cases:
  "new_resident_from_bytes E err policy b label h = (r, h') \<Longrightarrow>
     same_registries h h' \<and> (\<forall>p. r = Inr p \<longrightarrow> (\<exists>c n g. p = ResidentWasmComponent c label n g \<and> policy_grants policy g))"
  by (auto simp: new_resident_from_bytes_def same_registries_def policy_grants_def split: sum.splits)

lemma new_resident_cases:
  "new_resident E err policy path h = (r, h') \<Longrightarrow>
     same_registries h h' \<and> (\<forall>p. r = Inr p \<longrightarrow> (\<exists>c n g. p = ResidentWasmComponent c path n g \<and> policy_grants policy g))"
  unfolding new_resident_def using new_resident_from_bytes_cases by (fastforce split: sum.splits)

section \<open>Registering\<close>

text \<open>The registries after an extension was loaded as the provider \<open>p\<close> under \<open>key\<close>, and after a bridge was
  loaded under a name.\<close>

definition backed_by :: "string \<Rightarrow> provider_manifest \<Rightarrow> 'c provider_kind \<Rightarrow> ('g, 'w, 'c) ext_host \<Rightarrow> ('g, 'w, 'c) ext_host \<Rightarrow> bool" where
  "backed_by key m p h h' \<longleftrightarrow>
     (coherence_sensitive m \<longrightarrow> is_resident p) \<and>
     eh_providers h' = register_compose_provider_in DEFAULT_TENANT (ext_provider_id key) p (eh_providers h) \<and>
     eh_backed h' = AList.update key (backing_of key m (is_resident p)) (eh_backed h) \<and>
     eh_manifests h' = AList.update key m (eh_manifests h) \<and>
     eh_bridges h' = eh_bridges h \<and> eh_mutating h' = eh_mutating h \<and> eh_typed h' = eh_typed h \<and>
     eh_codecs h' = eh_codecs h \<and> eh_runtimes h' = eh_runtimes h"

definition bridged_by :: "string \<Rightarrow> ('g, 'w, 'c) ext_host \<Rightarrow> ('g, 'w, 'c) ext_host \<Rightarrow> bool" where
  "bridged_by name h h' \<longleftrightarrow>
     (\<exists>g. eh_bridges h' = AList.update name g (eh_bridges h)) \<and>
     (\<exists>m. eh_manifests h' = AList.update name (envelope_manifest m) (eh_manifests h)) \<and>
     (eh_mutating h' = eh_mutating h \<or> (\<exists>g. eh_mutating h' = AList.update name g (eh_mutating h))) \<and>
     eh_providers h' = eh_providers h \<and> eh_backed h' = eh_backed h \<and> eh_typed h' = eh_typed h \<and>
     eh_codecs h' = eh_codecs h \<and> eh_runtimes h' = eh_runtimes h"

lemma backed_by_same: "same_registries h h1 \<Longrightarrow> backed_by key m p h1 h' \<Longrightarrow> backed_by key m p h h'"
  by (simp add: same_registries_def backed_by_def)

lemma bridged_by_same: "same_registries h h1 \<Longrightarrow> bridged_by name h1 h' \<Longrightarrow> bridged_by name h h'"
  by (simp add: same_registries_def bridged_by_def)

text \<open>Manifests come from a decoder, which ties the tiers to their flags.\<close>

definition decoded_manifest :: "provider_manifest \<Rightarrow> bool" where
  "decoded_manifest m \<longleftrightarrow>
     (pm_vtab_specs m \<noteq> [] \<longrightarrow> pm_has_vtab m) \<and> (pm_aggregate_specs m \<noteq> [] \<longrightarrow> pm_aggregates m \<noteq> []) \<and>
     (pm_has_any_hook m \<longleftrightarrow> pm_has_authorizer m \<or> pm_has_update_hook m \<or> pm_has_commit_hook m \<or> pm_has_wal_hook m)"

lemma map_filter_Nil_iff: "List.map_filter f xs = [] \<longleftrightarrow> (\<forall>x\<in>set xs. f x = None)"
  by (induction xs) (auto simp: List.map_filter_simps split: option.splits)

lemma agg_specs_pairs: "agg_specs v \<noteq> [] \<Longrightarrow> id_name_pairs v \<noteq> []"
  by (auto simp: agg_specs_def id_name_pairs_def map_filter_Nil_iff split: option.splits)

lemma vtab_specs_nonempty: "vtab_specs v \<noteq> [] \<Longrightarrow> cbor_arr v \<noteq> []"
  by (auto simp: vtab_specs_def List.map_filter_simps)

lemma decode_manifest_decoded:
  assumes "decode_manifest C b = Inr m"
  shows "decoded_manifest m"
proof -
  from assms obtain v where m:
    "pm_vtab_specs m = field_or v ''vtabs'' vtab_specs []" "pm_has_vtab m = field_or v ''vtabs'' (\<lambda>a. cbor_arr a \<noteq> []) False"
    "pm_aggregate_specs m = field_or v ''aggregates'' agg_specs []" "pm_aggregates m = field_or v ''aggregates'' id_name_pairs []"
    "pm_has_any_hook m \<longleftrightarrow> pm_has_authorizer m \<or> pm_has_update_hook m \<or> pm_has_commit_hook m \<or> pm_has_wal_hook m"
    unfolding decode_manifest_def sbind_eq_Inr_iff by fastforce
  have "pm_vtab_specs m \<noteq> [] \<longrightarrow> pm_has_vtab m"
    unfolding m by (cases "cbor_field v ''vtabs''") (auto simp: field_or_def vtab_specs_nonempty)
  moreover have "pm_aggregate_specs m \<noteq> [] \<longrightarrow> pm_aggregates m \<noteq> []"
    unfolding m by (cases "cbor_field v ''aggregates''") (auto simp: field_or_def agg_specs_pairs)
  ultimately show ?thesis using m(5) by (simp add: decoded_manifest_def)
qed

lemma describe_provider_decoded: "describe_provider E p h = (Inr m, h') \<Longrightarrow> decoded_manifest m"
  by (auto simp: describe_provider_def bnd_eq_Inr_iff split: prod.splits dest: decode_manifest_decoded)

lemma load_as_provider_cases:
  assumes "load_extension_as_provider E ext_name p h = (r, h')"
  shows "case r of Inl _ \<Rightarrow> same_registries h h'
    | Inr m \<Rightarrow> decoded_manifest m \<and> backed_by (name_or m ext_name) m p h h'"
proof -
  obtain x h1 where d: "describe_provider E p h = (x, h1)" by fastforce
  note s = same_describe_provider [OF d]
  show ?thesis
  proof (cases x)
    case (Inl e)
    with d assms s show ?thesis by (auto simp: load_extension_as_provider_def bnd_Inl)
  next
    case (Inr m)
    with d assms have
      "(if coherence_sensitive m \<and> \<not> is_resident p then (Inl (NeedsResident (name_or m ext_name)), h1)
        else let h2 = register_compose_provider (ext_provider_id (name_or m ext_name)) p h1 in
          (Inr m, h2\<lparr>eh_backed := AList.update (name_or m ext_name) (backing_of (name_or m ext_name) m (is_resident p)) (eh_backed h2),
                     eh_manifests := AList.update (name_or m ext_name) m (eh_manifests h2)\<rparr>)) = (r, h')"
      by (simp add: load_extension_as_provider_def bnd_Inr Let_def)
    with s describe_provider_decoded d Inr show ?thesis
      by (auto simp: Let_def backed_by_def register_compose_provider_def same_registries_def split: if_splits)
  qed
qed

lemma register_provider_cases:
  assumes "register_provider E hint p h = (r, h')"
  shows "case r of Inl _ \<Rightarrow> same_registries h h'
    | Inr name \<Rightarrow> \<exists>m. decoded_manifest m \<and> backed_by (name_or m name) m p h h'"
proof -
  obtain x h1 where d: "describe_provider E p h = (x, h1)" by fastforce
  note s = same_describe_provider [OF d]
  show ?thesis
  proof (cases x)
    case (Inl e)
    with d assms s show ?thesis by (auto simp: register_provider_def bnd_Inl)
  next
    case (Inr m)
    obtain y h2 where l: "load_extension_as_provider E (name_or m hint) p h1 = (y, h2)" by fastforce
    with d assms Inr have "(r, h') = (case y of Inl e \<Rightarrow> (Inl e, h2) | Inr _ \<Rightarrow> (Inr (name_or m hint), h2))"
      by (cases y) (simp_all add: register_provider_def bnd_Inr bnd_Inl Let_def)
    with load_as_provider_cases [OF l] s show ?thesis by (cases y) (auto intro: same_trans backed_by_same)
  qed
qed

lemma load_bridge_cases:
  fixes h :: "('g, 'w, 'c) ext_host"
  assumes "load_bridge E hint b c h = (r, h')"
  shows "case r of Inl _ \<Rightarrow> same_registries h h' | Inr name \<Rightarrow> bridged_by name h h'"
proof -
  obtain x h1 where n: "in_world (BridgeFailed hint) (g_new_bridge E b) h = (x, h1)" by fastforce
  define mut :: "('g, 'w, 'c, 'g option) host_op" where "mut = (if g_exports_update E c then bnd (in_world (MutatingBridgeFailed hint) (g_new_mutating E b)) (\<lambda>m. ret (Some m)) else ret None)"
  have mut: "same_registries a a'" if "mut a = (y, a')" for a y a'
    using that by (auto simp: mut_def bnd_def split: if_splits prod.splits sum.splits dest: same_in_world)
  show ?thesis
  proof (cases x)
    case (Inl e)
    with n assms same_in_world [OF n] show ?thesis by (auto simp: load_bridge_def bnd_Inl)
  next
    case (Inr g)
    obtain y h2 where m: "mut h1 = (y, h2)" by fastforce
    have s: "same_registries h h2" using same_in_world [OF n] mut [OF m] by (rule same_trans)
    show ?thesis
    proof (cases y)
      case (Inl e)
      with n \<open>x = Inr g\<close> m assms s show ?thesis by (auto simp: load_bridge_def bnd_Inr bnd_Inl mut_def)
    next
      case (Inr mo)
      obtain z h3 where l: "load_extension_as_dynlink_bridge E hint g h2 = (z, h3)" by fastforce
      from n \<open>x = Inr g\<close> m Inr l assms have
        "(r, h') = (case z of Inl e \<Rightarrow> (Inl e, h3)
          | Inr name \<Rightarrow> (Inr name, case mo of Some q \<Rightarrow> h3\<lparr>eh_mutating := AList.update name q (eh_mutating h3)\<rparr> | None \<Rightarrow> h3))"
        by (cases z) (auto simp: load_bridge_def bnd_Inr bnd_Inl mut_def)
      moreover have "case z of Inl _ \<Rightarrow> h3 = h2
          | Inr name \<Rightarrow> \<exists>q m. h3 = h2\<lparr>eh_bridges := AList.update name q (eh_bridges h2),
                                     eh_manifests := AList.update name (envelope_manifest m) (eh_manifests h2)\<rparr>"
        using l by (auto simp: load_extension_as_dynlink_bridge_def Let_def split: prod.splits sum.splits)
      ultimately show ?thesis using s
        by (cases z; cases mo) (auto simp: bridged_by_def same_registries_def)
    qed
  qed
qed

section \<open>Loading\<close>

text \<open>The outcome of a load: nothing registered, or one resident provider with the capabilities of the policy, or one
  bridge.\<close>

definition load_outcome :: "load_grants \<Rightarrow> load_error + string \<Rightarrow> ('g, 'w, 'c) ext_host \<Rightarrow> ('g, 'w, 'c) ext_host \<Rightarrow> bool" where
  "load_outcome policy r h h' =
     (case r of
        Inl _ \<Rightarrow> same_registries h h'
      | Inr name \<Rightarrow>
          (\<exists>m c path n g. decoded_manifest m \<and> policy_grants policy g \<and>
             backed_by (name_or m name) m (ResidentWasmComponent c path n g) h h') \<or>
          bridged_by name h h')"

lemma load_resolved_outcome:
  assumes "load_resolved E policy resolved hint h = (r, h')"
  shows "load_outcome policy r h h'"
proof (cases "g_read E resolved")
  case (Inl e)
  with assms show ?thesis by (auto simp: load_resolved_def load_outcome_def)
next
  case (Inr b)
  obtain co h1 where c: "try_component E b hint (cache_bytes E resolved b h) = (co, h1)" by fastforce
  have s: "same_registries h h1" using same_cache_bytes same_try_component [OF c] by (rule same_trans)
  show ?thesis
  proof (cases "case co of Some c \<Rightarrow> g_exports_endpoint E c | None \<Rightarrow> False")
    case True
    obtain x h2 where n: "new_resident E (CannotCompile resolved) policy resolved h1 = (x, h2)" by fastforce
    note nr = new_resident_cases [OF n]
    have s2: "same_registries h h2" using s nr same_trans by blast
    from assms Inr c True have run: "bnd (new_resident E (CannotCompile resolved) policy resolved) (register_provider E hint) h1 = (r, h')"
      by (simp add: load_resolved_def)
    show ?thesis
    proof (cases x)
      case (Inl e)
      with run n s2 show ?thesis by (auto simp: bnd_Inl load_outcome_def)
    next
      case (Inr p)
      with run n have reg: "register_provider E hint p h2 = (r, h')" by (simp add: bnd_Inr)
      from nr Inr obtain c' m' g where "p = ResidentWasmComponent c' resolved m' g" "policy_grants policy g" by blast
      with register_provider_cases [OF reg] backed_by_same [OF s2] same_trans [OF s2] show ?thesis
        unfolding load_outcome_def by (cases r) (simp, simp, blast)
    qed
  next
    case False
    with assms Inr c have rest: "(case co of Some c \<Rightarrow> if g_is_bridge E c then load_bridge E hint b c h1 else (Inl (Retired hint), h1)
        | None \<Rightarrow> (Inl (Retired hint), h1)) = (r, h')"
      by (simp add: load_resolved_def)
    show ?thesis
    proof (cases "\<exists>c. co = Some c \<and> g_is_bridge E c")
      case True
      then obtain c where "co = Some c" "g_is_bridge E c" by blast
      with rest have "load_bridge E hint b c h1 = (r, h')" by simp
      from load_bridge_cases [OF this] s show ?thesis
        unfolding load_outcome_def by (cases r) (auto intro: same_trans bridged_by_same)
    next
      case False
      with rest s show ?thesis by (auto simp: load_outcome_def split: option.splits if_splits)
    qed
  qed
qed

lemma load_found_outcome: "load_found E policy path h = (r, h') \<Longrightarrow> load_outcome policy r h h'"
  by (auto simp: load_found_def load_outcome_def dest: load_resolved_outcome split: option.splits prod.splits)

text \<open>On the way the prebuilt providers of sub-extensions are registered, each under its own id.\<close>

definition sub_providers :: "('g, 'w, 'c) guest_env \<Rightarrow> load_grants \<Rightarrow> ('g, 'w, 'c) ext_host \<Rightarrow> ('g, 'w, 'c) ext_host \<Rightarrow> bool" where
  "sub_providers E policy h h' \<longleftrightarrow>
     same_registries (h\<lparr>eh_providers := eh_providers h'\<rparr>) h' \<and> trust (eh_providers h') = trust (eh_providers h) \<and>
     (\<forall>t i. get_compose_provider_in t i (eh_providers h') = get_compose_provider_in t i (eh_providers h) \<or>
        t = DEFAULT_TENANT \<and> (\<exists>u. prebuilt_paths (g_sub_ext E) u \<noteq> None \<and> i = sub_ext_provider_id u) \<and>
        (\<exists>c path n g. get_compose_provider_in t i (eh_providers h') = Some (ResidentWasmComponent c path n g) \<and> policy_grants policy g))"

lemma sub_providers_refl: "sub_providers E policy h h"
  by (simp add: sub_providers_def same_registries_def)

lemma sub_providers_same: "sub_providers E policy h h1 \<Longrightarrow> same_registries h1 h2 \<Longrightarrow> sub_providers E policy h h2"
  by (auto simp: sub_providers_def same_registries_def)

lemma sub_providers_trans: "sub_providers E policy a b \<Longrightarrow> sub_providers E policy b c \<Longrightarrow> sub_providers E policy a c"
  unfolding sub_providers_def same_registries_def by (simp add: same_registries_def) metis

lemma register_prebuilt_subs:
  assumes "register_prebuilt E policy name h = (r, h')"
  shows "sub_providers E policy h h'"
proof (cases "prebuilt_path (g_sub_ext E) (resolve_shim_alias (g_sub_ext E) name)")
  case None
  with assms show ?thesis by (auto simp: register_prebuilt_def sub_providers_refl)
next
  case (Some prebuilt)
  define u where "u = resolve_shim_alias (g_sub_ext E) name"
  obtain x h1 where n: "new_resident E (PrebuiltUnusable u prebuilt) policy prebuilt h = (x, h1)" by fastforce
  note nr = new_resident_cases [OF n]
  have u: "prebuilt_paths (g_sub_ext E) u \<noteq> None" using Some by (simp add: u_def prebuilt_path_def)
  show ?thesis
  proof (cases x)
    case (Inl e)
    with assms Some n nr show ?thesis
      by (auto simp: register_prebuilt_def bnd_Inl simp flip: u_def intro: sub_providers_same [OF sub_providers_refl])
  next
    case (Inr p)
    with assms Some n have h': "h' = register_compose_provider (sub_ext_provider_id u) p h1"
      by (auto simp: register_prebuilt_def bnd_Inr simp flip: u_def)
    from nr Inr obtain c m g where p: "p = ResidentWasmComponent c prebuilt m g" "policy_grants policy g" by blast
    have "sub_providers E policy h1 h'"
      using u p by (auto simp: h' sub_providers_def register_compose_provider_def same_registries_def get_registered)
    moreover have "sub_providers E policy h h1" using sub_providers_same [OF sub_providers_refl] nr by blast
    ultimately show ?thesis using sub_providers_trans by blast
  qed
qed

lemmas load_induct = load_extension.raw_induct [rotated, consumes 1, case_names step]

lemma load_extension_outcome:
  assumes "load_extension E policy path h = Some y"
  shows "\<exists>h1. sub_providers E policy h h1 \<and> load_outcome policy (fst y) h1 (snd y)"
  using assms
proof (induction E policy path h y rule: load_induct)
  case (step load E policy path h y)
  show ?case
  proof (cases "\<not> g_exists E path \<and> has_bridge (g_sub_ext E) path")
    case False
    with step(2) have "load_found E policy path h = (fst y, snd y)" by auto
    with load_found_outcome sub_providers_refl show ?thesis by metis
  next
    case True
    obtain x h1 where p: "register_prebuilt E policy path h = (x, h1)" by fastforce
    note s = register_prebuilt_subs [OF p]
    show ?thesis
    proof (cases x)
      case (Inl e)
      with True p step(2) have "y = (Inl e, h1)" by simp
      with s show ?thesis by (auto simp: load_outcome_def)
    next
      case (Inr u)
      from True obtain bridge where b: "bridge_path (g_sub_ext E) path = Some bridge" by (auto simp: has_bridge_iff)
      with True p Inr step(2) have "load E policy bridge h1 = Some y" by simp
      with step(1) s sub_providers_trans show ?thesis by blast
    qed
  qed
qed

section \<open>When loading returns\<close>

text \<open>The configured steps: from a name for which there is no file to its bridge or, without one, to its prebuilt
  component.\<close>

definition bridge_to :: "('g, 'w, 'c) guest_env \<Rightarrow> string \<Rightarrow> string \<Rightarrow> bool" where
  "bridge_to E p q \<longleftrightarrow> \<not> g_exists E p \<and>
     (bridge_paths (g_sub_ext E) p = Some q \<or> bridge_paths (g_sub_ext E) p = None \<and> prebuilt_paths (g_sub_ext E) p = Some q)"

text \<open>The prebuilt component that goes with a name is configured, but cannot be read or is no component.\<close>

definition prebuilt_broken :: "('g, 'w, 'c) guest_env \<Rightarrow> string \<Rightarrow> bool" where
  "prebuilt_broken E p \<longleftrightarrow> (\<exists>f. prebuilt_paths (g_sub_ext E) (resolve_shim_alias (g_sub_ext E) p) = Some f \<and>
     (\<forall>b c. g_read E f = Inr b \<longrightarrow> g_from_binary E b \<noteq> Inr c))"

lemma bridge_to_iff: "bridge_to E p q \<longleftrightarrow> \<not> g_exists E p \<and> bridge_path (g_sub_ext E) p = Some q"
  by (auto simp: bridge_to_def bridge_path_def split: option.splits)

lemma bridge_to_fun: "bridge_to E p q \<Longrightarrow> bridge_to E p q' \<Longrightarrow> q' = q"
  by (simp add: bridge_to_iff)

lemma no_bridge_iff: "(\<nexists>q. bridge_to E p q) \<longleftrightarrow> g_exists E p \<or> \<not> has_bridge (g_sub_ext E) p"
  by (auto simp: bridge_to_iff has_bridge_iff)

lemma prebuilt_broken_iff:
  assumes "register_prebuilt E policy p h = (x, h')"
  shows "prebuilt_broken E p \<longleftrightarrow> (\<exists>e. x = Inl e)"
  using assms unfolding prebuilt_broken_def register_prebuilt_def prebuilt_path_def
  by (cases "prebuilt_paths (g_sub_ext E) (resolve_shim_alias (g_sub_ext E) p)")
    (auto simp: Let_def ret_def bnd_def new_resident_def new_resident_from_bytes_def split: sum.splits)

lemma load_stops:
  "g_exists E path \<or> \<not> has_bridge (g_sub_ext E) path \<Longrightarrow> load_extension E policy path h = Some (load_found E policy path h)"
  by (subst load_extension.simps) auto

lemma load_hop:
  assumes "\<not> g_exists E path" "bridge_path (g_sub_ext E) path = Some bridge" "register_prebuilt E policy path h = (x, h1)"
  shows "load_extension E policy path h = (case x of Inl e \<Rightarrow> Some (Inl e, h1) | Inr _ \<Rightarrow> load_extension E policy bridge h1)"
  by (subst load_extension.simps) (use assms has_bridge_iff in \<open>auto split: sum.splits\<close>)

lemma load_bridged:
  assumes "bridge_to E path bridge" "register_prebuilt E policy path h = (x, h1)"
  shows "load_extension E policy path h = (case x of Inl e \<Rightarrow> Some (Inl e, h1) | Inr _ \<Rightarrow> load_extension E policy bridge h1)"
  using load_hop [of E path bridge policy h x h1] assms by (simp add: bridge_to_iff)

lemma load_ends:
  assumes "rtranclp (bridge_to E) path q" "(\<nexists>q'. bridge_to E q q') \<or> prebuilt_broken E q"
  shows "\<exists>y. load_extension E policy path h = Some y"
  using assms(1)
proof (induction arbitrary: h rule: converse_rtranclp_induct)
  case base
  show ?case
  proof (cases "\<exists>q'. bridge_to E q q'")
    case True
    then obtain q' where q': "bridge_to E q q'" by blast
    obtain x h1 where p: "register_prebuilt E policy q h = (x, h1)" by fastforce
    from True assms(2) have "prebuilt_broken E q" by blast
    with prebuilt_broken_iff [OF p] load_bridged [OF q' p] show ?thesis by auto
  next
    case False
    then show ?thesis using no_bridge_iff load_stops by metis
  qed
next
  case (step p p')
  obtain x h1 where "register_prebuilt E policy p h = (x, h1)" by fastforce
  from load_bridged [OF step(1) this] step(3) show ?case by (cases x) auto
qed

lemma load_ended:
  assumes "load_extension E policy path h = Some y"
  shows "\<exists>q. rtranclp (bridge_to E) path q \<and> ((\<nexists>q'. bridge_to E q q') \<or> prebuilt_broken E q)"
  using assms
proof (induction E policy path h y rule: load_induct)
  case (step load E policy path h y)
  show ?case
  proof (cases "\<exists>q. bridge_to E path q")
    case False
    then show ?thesis by blast
  next
    case True
    then obtain bridge where b: "bridge_to E path bridge" by blast
    then have hb: "\<not> g_exists E path \<and> has_bridge (g_sub_ext E) path" "bridge_path (g_sub_ext E) path = Some bridge"
      by (auto simp: bridge_to_iff has_bridge_iff)
    obtain x h1 where p: "register_prebuilt E policy path h = (x, h1)" by fastforce
    show ?thesis
    proof (cases x)
      case (Inl e)
      with prebuilt_broken_iff [OF p] show ?thesis by blast
    next
      case (Inr u)
      with hb p step(2) have "load E policy bridge h1 = Some y" by simp
      from step(1) [OF this] b show ?thesis by (meson converse_rtranclp_into_rtranclp)
    qed
  qed
qed

text \<open>Where following the bridges comes back to its start, every name on the way has a bridge.\<close>

lemma cycle_goes_on:
  assumes "tranclp (bridge_to E) p p" "rtranclp (bridge_to E) p q"
  shows "tranclp (bridge_to E) q p"
  using assms(2)
proof (induction rule: rtranclp_induct)
  case base
  show ?case by (rule assms(1))
next
  case (step q q')
  from step(3) obtain q'' where "bridge_to E q q''" "rtranclp (bridge_to E) q'' p" by (meson tranclpD)
  with step(2) bridge_to_fun have "rtranclp (bridge_to E) q' p" by metis
  then show ?case using assms(1) by (rule rtranclp_tranclp_tranclp)
qed

lemma cycle_has_bridge: "tranclp (bridge_to E) p p \<Longrightarrow> rtranclp (bridge_to E) p q \<Longrightarrow> \<exists>q'. bridge_to E q q'"
  using cycle_goes_on by (meson tranclpD)

section \<open>The invariant\<close>

text \<open>Every loaded extension has its provider under its own id, resident exactly if the entry says so, and a
  manifest; an extension with virtual tables, hooks or aggregates is resident; a mutating bridge instance has a
  reading one beside it.\<close>

definition stateful :: "provider_backing \<Rightarrow> bool" where
  "stateful b \<longleftrightarrow> pb_vtabs b \<noteq> {} \<or> pb_has_hook b \<or> pb_aggregates b \<noteq> Map.empty"

definition backing_ok :: "('g, 'w, 'c) ext_host \<Rightarrow> string \<Rightarrow> provider_backing \<Rightarrow> bool" where
  "backing_ok h name b \<longleftrightarrow>
     pb_provider_id b = ext_provider_id name \<and> map_of (eh_manifests h) name \<noteq> None \<and> (stateful b \<longrightarrow> pb_resident b) \<and>
     (\<exists>p. get_compose_provider (ext_provider_id name) (eh_providers h) = Some p \<and> is_resident p = pb_resident b)"

definition host_inv :: "('g, 'w, 'c) ext_host \<Rightarrow> bool" where
  "host_inv h \<longleftrightarrow>
     distinct (map fst (eh_backed h)) \<and> (\<forall>name b. map_of (eh_backed h) name = Some b \<longrightarrow> backing_ok h name b) \<and>
     (\<forall>name. map_of (eh_mutating h) name \<noteq> None \<longrightarrow> map_of (eh_bridges h) name \<noteq> None)"

text \<open>The ids of the configured sub-extensions are not the ids of extensions; so it is for every configuration that
  comes from the environment.\<close>

definition sub_ids_apart :: "('g, 'w, 'c) guest_env \<Rightarrow> bool" where
  "sub_ids_apart E \<longleftrightarrow> (\<forall>u n. prebuilt_paths (g_sub_ext E) u \<noteq> None \<longrightarrow> sub_ext_provider_id u \<noteq> ext_provider_id n)"

lemma env_ids_apart: "g_sub_ext E = sub_ext_from_env env \<Longrightarrow> sub_ids_apart E"
  unfolding sub_ids_apart_def ext_provider_id_def using sub_ext_id_not_ext by fastforce

lemma ext_provider_id_inject [simp]: "ext_provider_id a = ext_provider_id b \<longleftrightarrow> a = b"
  by (simp add: ext_provider_id_def)

lemma backing_stateful:
  assumes "decoded_manifest m" "stateful (backing_of key m res)"
  shows "coherence_sensitive m"
  using assms by (auto simp: stateful_def backing_of_def decoded_manifest_def coherence_sensitive_def collect_map_of)

lemma host_inv_same: "host_inv h \<Longrightarrow> same_registries h h' \<Longrightarrow> host_inv h'"
  by (simp add: host_inv_def backing_ok_def same_registries_def)

lemma host_inv_backed:
  assumes inv: "host_inv h" and m: "decoded_manifest m" and b: "backed_by key m p h h'"
  shows "host_inv h'"
proof -
  note b' = b [unfolded backed_by_def]
  have "backing_ok h' name k" if "map_of (eh_backed h') name = Some k" for name k
  proof (cases "name = key")
    case True
    with that b' have k: "k = backing_of key m (is_resident p)" by (simp add: update_conv')
    with b' have "get_compose_provider (ext_provider_id key) (eh_providers h') = Some p"
      by (simp add: get_compose_provider_def get_registered)
    moreover have "stateful k \<longrightarrow> is_resident p" using backing_stateful [OF m] b' k by auto
    ultimately show ?thesis using True k b' by (simp add: backing_ok_def update_conv' backing_of_def)
  next
    case False
    with that b' have "map_of (eh_backed h) name = Some k" by (simp add: update_conv')
    with inv have "backing_ok h name k" by (simp add: host_inv_def)
    with False b' show ?thesis
      by (simp add: backing_ok_def update_conv' get_compose_provider_def get_registered)
  qed
  with inv b' show ?thesis by (simp add: host_inv_def distinct_update)
qed

lemma host_inv_bridged:
  assumes "host_inv h" "bridged_by name h h'"
  shows "host_inv h'"
  using assms by (auto simp: host_inv_def bridged_by_def backing_ok_def update_conv' split: if_splits)

lemma host_inv_subs:
  assumes "sub_ids_apart E" "host_inv h" "sub_providers E policy h h'"
  shows "host_inv h'"
proof -
  have "get_compose_provider (ext_provider_id n) (eh_providers h') = get_compose_provider (ext_provider_id n) (eh_providers h)" for n
    using assms(1,3) unfolding sub_ids_apart_def sub_providers_def get_compose_provider_def by metis
  with assms(2,3) show ?thesis
    by (simp add: host_inv_def backing_ok_def sub_providers_def same_registries_def)
qed

lemma host_inv_outcome: "host_inv h \<Longrightarrow> load_outcome policy r h h' \<Longrightarrow> host_inv h'"
  unfolding load_outcome_def by (cases r) (auto intro: host_inv_same host_inv_backed host_inv_bridged)

lemma host_inv_load:
  assumes "sub_ids_apart E" "host_inv h" "load_extension E policy path h = Some (r, h')"
  shows "host_inv h'"
proof -
  from load_extension_outcome [OF assms(3)] obtain h1 where "sub_providers E policy h h1" "load_outcome policy r h1 h'" by auto
  with host_inv_subs [OF assms(1,2)] show ?thesis by (blast intro: host_inv_outcome)
qed

lemma host_inv_as_provider: "host_inv h \<Longrightarrow> load_extension_as_provider E name p h = (r, h') \<Longrightarrow> host_inv h'"
  by (drule load_as_provider_cases) (auto split: sum.splits intro: host_inv_same host_inv_backed)

lemma instantiate_outcome:
  assumes "instantiate_provider_from_bytes E hint b spawn h = (r, h')"
  shows "load_outcome (no_grants spawn) r h h'"
proof (cases "sbind (map_error (CannotCompile hint) (compile_via_runtime (g_compiler E) b hint)) (check_provider E hint)")
  case (Inl e)
  with assms show ?thesis
    by (auto simp: instantiate_provider_from_bytes_def bnd_def load_outcome_def sbind_def split: sum.splits)
next
  case (Inr u)
  then obtain c where "compile_via_runtime (g_compiler E) b hint = Inr c" "check_provider E hint c = Inr u"
    by (auto simp: sbind_eq_Inr_iff)
  with assms have run: "bnd (new_resident_from_bytes E (CannotCompile hint) (no_grants spawn) b (''bytes:'' @ hint)) (register_provider E hint) h = (r, h')"
    by (simp add: instantiate_provider_from_bytes_def bnd_def map_error_def)
  obtain x h1 where n: "new_resident_from_bytes E (CannotCompile hint) (no_grants spawn) b (''bytes:'' @ hint) h = (x, h1)" by fastforce
  note nr = new_resident_from_bytes_cases [OF n]
  show ?thesis
  proof (cases x)
    case (Inl e)
    with run n nr show ?thesis by (auto simp: bnd_Inl load_outcome_def)
  next
    case (Inr p)
    with run n have reg: "register_provider E hint p h1 = (r, h')" by (simp add: bnd_Inr)
    from nr Inr obtain c' m' g where "p = ResidentWasmComponent c' (''bytes:'' @ hint) m' g" "policy_grants (no_grants spawn) g" by blast
    with register_provider_cases [OF reg] nr show ?thesis
      unfolding load_outcome_def by (cases r) (simp, meson same_trans, simp, meson backed_by_same)
  qed
qed

section \<open>Unloading\<close>

lemma get_removed:
  "get_compose_provider_in t i (remove_provider ident s) =
     (if t = DEFAULT_TENANT \<and> i = ident then None else get_compose_provider_in t i s)"
  by (auto simp: get_compose_provider_in_def remove_provider_def split: option.splits)

lemma host_inv_unload:
  assumes inv: "host_inv h" and u: "unload name h = (r, h')"
  shows "host_inv h'"
proof (cases "map_of (eh_backed h) name")
  case None
  with inv u show ?thesis by (simp add: unload_def)
next
  case (Some b)
  with u have h': "eh_backed h' = AList.delete name (eh_backed h)" "eh_manifests h' = AList.delete name (eh_manifests h)"
    "eh_providers h' = remove_provider (ext_provider_id name) (eh_providers h)" "eh_bridges h' = eh_bridges h" "eh_mutating h' = eh_mutating h"
    by (auto simp: unload_def)
  have "backing_ok h' n k" if "map_of (eh_backed h') n = Some k" for n k
  proof -
    from that h' have "n \<noteq> name" "map_of (eh_backed h) n = Some k" by (auto simp: delete_conv' split: if_splits)
    with inv h' show ?thesis
      by (auto simp: host_inv_def backing_ok_def delete_conv' get_compose_provider_def get_removed)
  qed
  with inv h' show ?thesis by (simp add: host_inv_def distinct_delete)
qed

lemma load_outcome_providers:
  assumes "load_outcome policy r h h'"
  shows "eh_providers h' = eh_providers h \<or>
    (\<exists>i c label n g. eh_providers h' = register_compose_provider_in DEFAULT_TENANT i (ResidentWasmComponent c label n g) (eh_providers h) \<and>
       policy_grants policy g)"
proof (cases r)
  case (Inl e)
  with assms show ?thesis by (simp add: load_outcome_def same_registries_def)
next
  case (Inr name)
  with assms show ?thesis unfolding load_outcome_def backed_by_def bridged_by_def by (simp, blast)
qed

section \<open>Loading returns, with the capabilities of its policy\<close>

text \<open>Bridges that lead back to where they started are followed forever, the simplest case being a name that is
  configured as its own bridge.\<close>

lemma load_cycle_diverges:
  assumes "tranclp (bridge_to E) path path" "\<And>q. rtranclp (bridge_to E) path q \<Longrightarrow> \<not> prebuilt_broken E q"
  shows "load_extension E policy path h = None"
proof (cases "load_extension E policy path h")
  case (Some y)
  from load_ended [OF this] assms cycle_has_bridge show ?thesis by blast
qed

lemma load_extension_diverges:
  assumes "\<not> g_exists E path" "bridge_paths (g_sub_ext E) path = Some path" "prebuilt_paths (g_sub_ext E) = Map.empty"
  shows "load_extension E policy path h = None"
  using assms by (intro load_cycle_diverges) (auto simp: bridge_to_def prebuilt_broken_def)

text \<open>C13. Loading returns exactly if the configuration lets it. From a name for which there is no file, one comes to
  the bridge configured for it or, without one, to its prebuilt component. A load returns exactly if following
  these steps reaches a name where there is no further step (a file, or a name nothing is configured for), or one
  whose prebuilt component cannot be read or compiled. If the steps lead back to the name they started from and
  no such component is met, the load goes on forever.\<close>

theorem load_extension_terminates:
  "((\<exists>y. load_extension E policy path h = Some y) \<longleftrightarrow>
      (\<exists>q. rtranclp (bridge_to E) path q \<and> ((\<nexists>q'. bridge_to E q q') \<or> prebuilt_broken E q))) \<and>
   (tranclp (bridge_to E) path path \<and> (\<forall>q. rtranclp (bridge_to E) path q \<longrightarrow> \<not> prebuilt_broken E q) \<longrightarrow>
      load_extension E policy path h = None)"
  using load_ends load_ended load_cycle_diverges by blast

text \<open>C12. A load hands out no capability its policy does not: every provider that the registry holds afterwards, for
  whatever tenant and under whatever id, was there before or was built for this load as a resident provider of the
  default tenant with exactly the network, storage and build grants of the policy. A load that fails leaves the
  loaded extensions, their manifests, the bridges and the runtimes as they were.\<close>

theorem load_extension_least_privilege:
  assumes "load_extension E policy path h = Some (r, h')"
  shows "(\<forall>t i p. get_compose_provider_in t i (eh_providers h') = Some p \<longrightarrow>
        get_compose_provider_in t i (eh_providers h) = Some p \<or>
        t = DEFAULT_TENANT \<and> (\<exists>c label n g. p = ResidentWasmComponent c label n g \<and> policy_grants policy g)) \<and>
    (\<forall>e. r = Inl e \<longrightarrow> eh_backed h' = eh_backed h \<and> eh_manifests h' = eh_manifests h \<and> eh_bridges h' = eh_bridges h \<and>
        eh_mutating h' = eh_mutating h \<and> eh_runtimes h' = eh_runtimes h)"
proof -
  from load_extension_outcome [OF assms] obtain h1
    where subs: "sub_providers E policy h h1" and out: "load_outcome policy r h1 h'" by auto
  have last: "get_compose_provider_in t i (eh_providers h') = get_compose_provider_in t i (eh_providers h1) \<or>
      t = DEFAULT_TENANT \<and> (\<exists>c label n g. get_compose_provider_in t i (eh_providers h') = Some (ResidentWasmComponent c label n g) \<and> policy_grants policy g)" for t i
    using load_outcome_providers [OF out] by (auto simp: get_registered split: if_splits)
  have "get_compose_provider_in t i (eh_providers h) = Some p \<or>
      t = DEFAULT_TENANT \<and> (\<exists>c label n g. p = ResidentWasmComponent c label n g \<and> policy_grants policy g)"
    if "get_compose_provider_in t i (eh_providers h') = Some p" for t i p
    using last [of t i] subs that unfolding sub_providers_def by (metis option.inject)
  moreover have "eh_backed h' = eh_backed h \<and> eh_manifests h' = eh_manifests h \<and> eh_bridges h' = eh_bridges h \<and>
      eh_mutating h' = eh_mutating h \<and> eh_runtimes h' = eh_runtimes h" if "r = Inl e" for e
    using that out subs by (simp add: load_outcome_def sub_providers_def same_registries_def)
  ultimately show ?thesis by blast
qed

text \<open>One bridge name, one component file that describes itself as \<open>uuid\<close>.\<close>

definition toy_env :: "bytes codec \<Rightarrow> (string \<Rightarrow> bytes \<Rightarrow> (string, nat, bytes) op) \<Rightarrow> (nat, nat, bytes) guest_env" where
  "toy_env C ask =
     \<lparr>g_codec = C, g_hashers = toy_hashers, g_compiler = toy_compiler, g_from_binary = Inr, g_exists = (\<lambda>p. p = ''b.wasm''),
      g_is_file = (\<lambda>_. False), g_read = (\<lambda>p. if p = ''b.wasm'' then Inr [7] else Inl ''no such file''), g_vars = (\<lambda>_. None), g_cwd = None,
      g_sub_ext = \<lparr>bridge_paths = [''a'' \<mapsto> ''b.wasm''], prebuilt_paths = Map.empty, shim_alias = Map.empty\<rparr>,
      g_exports_endpoint = (\<lambda>_. True), g_is_bridge = (\<lambda>_. False), g_exports_update = (\<lambda>_. False), g_imports_cli = (\<lambda>_. False),
      g_contract = (\<lambda>_ _. Inr ()), g_invoke = (\<lambda>_. ask), g_invoke_cli = (\<lambda>_ _ _ _ _. fail ''no cli''),
      g_new_bridge = (\<lambda>_. fail ''no bridge''), g_new_mutating = (\<lambda>_. fail ''no bridge''), g_set_fuel = ret (),
      g_describe = fail ''no bridge'', g_instantiate = (\<lambda>_ _ _ _. fail ''no run''), g_call_export = (\<lambda>_ _ _. fail ''no run'')\<rparr>"

definition toy_host :: "(nat, nat, bytes) ext_host" where
  "toy_host =
     \<lparr>eh_providers = \<lparr>trust = AllowAll, compose_providers = Map.empty\<rparr>, eh_backed = [], eh_manifests = [], eh_bridges = [], eh_mutating = [],
      eh_typed = Map.empty, eh_codecs = Map.empty, eh_loader = toy_loader, eh_cache = None, eh_runtimes = [], eh_next_store = 0, eh_world = 0\<rparr>"

text \<open>A provider that answers every request with the message \<open>1\<close>.\<close>

abbreviation uuid_env :: "(nat, nat, bytes) guest_env" where
  "uuid_env \<equiv> toy_env (one_message (manifest_tree uuid_desc [])) (\<lambda>_ _ w. (Inr [1], Suc w))"

lemma toy_env_sel [simp]:
  "g_codec (toy_env C ask) = C" "g_exists (toy_env C ask) p = (p = ''b.wasm'')" "g_invoke (toy_env C ask) k = ask"
  "g_read (toy_env C ask) ''b.wasm'' = Inr [7]" "g_exports_endpoint (toy_env C ask) c" "g_from_binary (toy_env C ask) b = Inr b"
  "bridge_paths (g_sub_ext (toy_env C ask)) = [''a'' \<mapsto> ''b.wasm'']" "prebuilt_paths (g_sub_ext (toy_env C ask)) = Map.empty"
  "shim_alias (g_sub_ext (toy_env C ask)) = Map.empty" "\<not> g_imports_cli (toy_env C ask) c"
  by (simp_all add: toy_env_def)

text \<open>A load whose file is a provider that the loader can compile ends with the provider registered.\<close>

lemma load_provider_eval:
  assumes "g_exists E path" "g_read E path = Inr b" "g_from_binary E b = Inr c" "g_exports_endpoint E c'" "\<not> g_imports_cli E c"
    "try_component E b hint (cache_bytes E path b h) = (Some c', h1)" "file_stem path = Some hint"
    "\<And>k w. g_invoke E k ''describe'' [] w = (Inr m, f w)" "decode_manifest (g_codec E) m = Inr mf"
  shows "\<exists>h'. load_extension E policy path h = Some (Inr (name_or mf hint), h') \<and> is_loaded (name_or mf hint) h' \<and>
    get_compose_provider (ext_provider_id (name_or mf hint)) (eh_providers h') \<noteq> None"
proof -
  obtain p h2 where n: "new_resident E (CannotCompile path) policy path h1 = (Inr p, h2)" and p: "is_resident p"
    and c: "\<exists>l k g. p = ResidentWasmComponent c l k g"
    using assms(2,3) by (auto simp: new_resident_def new_resident_from_bytes_def is_resident_def)
  have d: "describe_provider E p s = (Inr mf, s\<lparr>eh_world := f (eh_world s)\<rparr>)" for s :: "('a, 'b, 'c) ext_host"
    using c assms(5,8,9) by (auto simp: describe_provider_def invoke_cli_def in_world_def bnd_def Let_def map_error_def ret_def)
  have "load_extension E policy path h = Some (bnd (new_resident E (CannotCompile path) policy path) (register_provider E hint) h1)"
    using assms(1,2,4,6,7) by (simp add: load_stops load_found_def find_artifact_def load_resolved_def)
  moreover have "name_or mf (name_or mf hint) = name_or mf hint" by (simp add: name_or_def)
  ultimately show ?thesis using n p
    by (simp add: bnd_Inr register_provider_def d load_extension_as_provider_def Let_def is_loaded_def update_conv' ret_def
        register_compose_provider_def get_compose_provider_def get_registered)
qed

lemma component_compiles: "compile_via_runtime R b hint = Inr c \<Longrightarrow> \<exists>c' s'. component_for_digest R b d hint s = (Inr c', s')"
  by (auto simp: component_for_digest_def Let_def split: prod.splits option.splits)

lemma toy_component: "\<exists>c h1. try_component (toy_env C ask) [7] hint (cache_bytes (toy_env C ask) path [7] h) = (Some c, h1)"
proof -
  have "compile_via_runtime toy_compiler [7] hint = Inr [7, 0]" by (simp add: toy_compiler_def)
  from component_compiles [OF this, of "hex_lower (blake3 toy_hashers [7])" "eh_loader h"] show ?thesis
    by (auto simp: try_component_def toy_env_def cache_bytes_def)
qed

lemma toy_load:
  assumes "\<And>w. ask ''describe'' [] w = (Inr m, f w)" "decode_manifest C m = Inr mf"
  shows "\<exists>h'. load_extension (toy_env C ask) policy ''b.wasm'' h = Some (Inr (name_or mf ''b''), h') \<and> is_loaded (name_or mf ''b'') h' \<and>
    get_compose_provider (ext_provider_id (name_or mf ''b'')) (eh_providers h') \<noteq> None"
proof -
  from toy_component obtain c h1 where
    c: "try_component (toy_env C ask) [7] ''b'' (cache_bytes (toy_env C ask) ''b.wasm'' [7] h) = (Some c, h1)" by blast
  have stem: "file_stem ''b.wasm'' = Some ''b''" by code_simp
  show ?thesis
    by (rule load_provider_eval [OF _ _ _ _ _ c stem]) (use assms in simp_all)
qed

lemma uuid_manifest: "decode_manifest (one_message (manifest_tree uuid_desc [])) [1] = Inr (expected_manifest uuid_desc)"
  by (rule read_manifest [where extra = \<open>[]\<close>]) (simp add: one_message_def)

lemma uuid_name: "name_or (expected_manifest uuid_desc) hint = ''uuid''"
  by (simp add: name_or_def expected_manifest_def uuid_desc_def)

theorem load_extension_least_privilege_witness:
  "\<exists>h' c label n g. load_extension uuid_env (no_grants True) ''b.wasm'' toy_host = Some (Inr ''uuid'', h') \<and> is_loaded ''uuid'' h' \<and>
     get_compose_provider_in DEFAULT_TENANT ''ext:uuid'' (eh_providers h') = Some (ResidentWasmComponent c label n g) \<and>
     policy_grants (no_grants True) g"
proof -
  from toy_load [OF _ uuid_manifest, of "\<lambda>_ _ w. (Inr [1], Suc w)" Suc "no_grants True" toy_host] obtain h' p where
    l: "load_extension uuid_env (no_grants True) ''b.wasm'' toy_host = Some (Inr ''uuid'', h')" "is_loaded ''uuid'' h'"
    and p: "get_compose_provider_in DEFAULT_TENANT ''ext:uuid'' (eh_providers h') = Some p"
    by (auto simp: uuid_name ext_provider_id_def get_compose_provider_def)
  have "get_compose_provider_in DEFAULT_TENANT ''ext:uuid'' (eh_providers toy_host) = None"
    by (simp add: toy_host_def get_compose_provider_in_def)
  with load_extension_least_privilege [OF l(1)] p obtain c label n g
    where "p = ResidentWasmComponent c label n g" "policy_grants (no_grants True) g" by fastforce
  with l p show ?thesis by blast
qed

text \<open>With the name \<open>loop\<close> configured as its own bridge the load of \<open>loop\<close> never returns; the load of \<open>a\<close>, whose
  bridge is a file, does.\<close>

definition looping_env :: "(nat, nat, bytes) guest_env" where
  "looping_env = uuid_env\<lparr>g_sub_ext := \<lparr>bridge_paths = [''a'' \<mapsto> ''b.wasm'', ''loop'' \<mapsto> ''loop''], prebuilt_paths = Map.empty, shim_alias = Map.empty\<rparr>\<rparr>"

theorem load_extension_terminates_witness:
  "load_extension looping_env (no_grants True) ''loop'' toy_host = None \<and>
   (\<exists>y. load_extension looping_env (no_grants True) ''a'' toy_host = Some y)"
proof -
  have sel: "bridge_paths (g_sub_ext looping_env) = [''a'' \<mapsto> ''b.wasm'', ''loop'' \<mapsto> ''loop'']" "prebuilt_paths (g_sub_ext looping_env) = Map.empty"
    "g_exists looping_env p = (p = ''b.wasm'')" for p by (simp_all add: looping_env_def toy_env_def)
  have step: "bridge_to looping_env ''loop'' ''loop''" "bridge_to looping_env ''a'' ''b.wasm''" "\<not> bridge_to looping_env ''b.wasm'' q"
    and ok: "\<not> prebuilt_broken looping_env q" for q by (simp_all add: bridge_to_def prebuilt_broken_def sel)
  then show ?thesis
    using load_extension_terminates [of looping_env "no_grants True" "''loop''" toy_host]
      load_extension_terminates [of looping_env "no_grants True" "''a''" toy_host] by (meson r_into_rtranclp tranclp.r_into_trancl)
qed

end
