(* ===== verification/Extension_Calls.thy ===== *)
theory Extension_Calls
  imports Extension_Dispatch Extension_Registry
begin

text \<open>
  The calls into extensions, as one type, and what each of the dispatchers of theory Extension_Dispatch leaves alone:
  a call touches the instances and the stores of its own extension and no registry. The tiers a call tries (the
  mutating bridge instance, the reading one, the resident provider) share one contract, stated as a locale.
\<close>

section \<open>Tiers\<close>

text \<open>Nothing but the instances of one extension and the stores behind providers changed.\<close>

definition confined :: "string \<Rightarrow> ('g, 'w, 'c) ext_host \<Rightarrow> ('g, 'w, 'c) ext_host \<Rightarrow> bool" where
  "confined ext h h' \<longleftrightarrow>
     h' = h\<lparr>eh_bridges := eh_bridges h', eh_mutating := eh_mutating h', eh_world := eh_world h'\<rparr> \<and>
     dom (map_of (eh_bridges h')) = dom (map_of (eh_bridges h)) \<and> dom (map_of (eh_mutating h')) = dom (map_of (eh_mutating h)) \<and>
     (\<forall>n. n \<noteq> ext \<longrightarrow> map_of (eh_bridges h') n = map_of (eh_bridges h) n \<and> map_of (eh_mutating h') n = map_of (eh_mutating h) n)"

lemma confined_refl [simp]: "confined ext h h"
  by (simp add: confined_def)

lemma confined_world [simp]: "confined ext h (h\<lparr>eh_world := w\<rparr>)"
  by (simp add: confined_def)

lemma confined_same: "confined ext h h' \<Longrightarrow> same_registries h (h'\<lparr>eh_bridges := eh_bridges h, eh_mutating := eh_mutating h\<rparr>)"
  unfolding confined_def same_registries_def by (elim conjE) (erule ssubst, simp)

text \<open>One way to serve the calls of an extension: it answers exactly if it is at home to the extension, an attempt
  that does not answer changes nothing, and one that does stays inside the extension.\<close>

locale dispatch_tier =
  fixes tier :: "string \<Rightarrow> ('g, 'w, 'c, 'r) attempt" and home :: "string \<Rightarrow> ('g, 'w, 'c) ext_host \<Rightarrow> bool"
  assumes answers: "tier ext h = (x, h') \<Longrightarrow> x \<noteq> None \<longleftrightarrow> home ext h"
    and declines: "tier ext h = (None, h') \<Longrightarrow> h' = h"
    and stays: "tier ext h = (x, h') \<Longrightarrow> confined ext h h'"
begin

lemma away: "\<not> home ext h \<Longrightarrow> tier ext h = (None, h)"
  using answers declines by (metis surj_pair)

lemma mapped_tier: "dispatch_tier (\<lambda>ext. mapped f (tier ext)) home"
  by unfold_locales (auto simp: mapped_def split: prod.splits dest: answers declines stays)

end

text \<open>The dispatch of a tier.\<close>

locale served = dispatch_tier tier home for tier :: "string \<Rightarrow> ('g, 'w, 'c, dispatch_error + 'a) attempt" and home
begin

lemma served_confined: "or_not_loaded ext (tier ext) h = (r, h') \<Longrightarrow> confined ext h h'"
  by (auto simp: or_not_loaded_def split: prod.splits option.splits dest: stays)

lemma served_away: "\<not> home ext h \<Longrightarrow> or_not_loaded ext (tier ext) h = (Inl (ExtNotLoaded ext), h)"
  by (simp add: or_not_loaded_def away)

end

text \<open>Two tiers, one after the other.\<close>

locale two_tiers = first: dispatch_tier t1 home1 + second: dispatch_tier t2 home2
  for t1 t2 :: "string \<Rightarrow> ('g, 'w, 'c, 'r) attempt" and home1 home2

sublocale two_tiers \<subseteq> dispatch_tier "\<lambda>ext. or_else (t1 ext) (t2 ext)" "\<lambda>ext h. home1 ext h \<or> home2 ext h"
proof
  fix ext h x h'
  assume run: "or_else (t1 ext) (t2 ext) h = (x, h')"
  obtain y h1 where t: "t1 ext h = (y, h1)" by fastforce
  show "x \<noteq> None \<longleftrightarrow> home1 ext h \<or> home2 ext h" "confined ext h h'"
    using run t first.answers [OF t] first.declines [of ext h h1] first.stays [OF t] second.answers [of ext h x h'] second.stays [of ext h x h']
    by (cases y; force simp: or_else_def)+
next
  fix ext h h'
  assume run: "or_else (t1 ext) (t2 ext) h = (None, h')"
  obtain y h1 where t: "t1 ext h = (y, h1)" by fastforce
  show "h' = h" using run t first.declines [of ext h h1] second.declines [of ext h h'] by (cases y) (auto simp: or_else_def)
qed

abbreviation bridged :: "string \<Rightarrow> ('g, 'w, 'c) ext_host \<Rightarrow> bool" where
  "bridged ext h \<equiv> map_of (eh_bridges h) ext \<noteq> None"

abbreviation writable :: "string \<Rightarrow> ('g, 'w, 'c) ext_host \<Rightarrow> bool" where
  "writable ext h \<equiv> map_of (eh_mutating h) ext \<noteq> None"

abbreviation resident :: "string \<Rightarrow> ('g, 'w, 'c) ext_host \<Rightarrow> bool" where
  "resident ext h \<equiv> resident_provider_handle ext h \<noteq> None"

interpretation bridge_tier: dispatch_tier "\<lambda>ext. on_bridge ext f" bridged for f
  by unfold_locales (auto simp: on_bridge_def confined_def update_conv' split: option.splits prod.splits)

interpretation mutating_tier: dispatch_tier "\<lambda>ext. on_mutating ext f" writable for f
  by unfold_locales (auto simp: on_mutating_def confined_def update_conv' split: option.splits prod.splits)

interpretation resident_tier: dispatch_tier "\<lambda>ext. try_provider_invoke E ext meth payload" resident for E meth payload
  by unfold_locales (auto simp: try_provider_invoke_def split: option.splits prod.splits sum.splits)

interpretation aggregate_tier: dispatch_tier "\<lambda>ext. try_provider_aggregate E ext meth payload dec" resident for E meth payload dec
  by unfold_locales (auto simp: try_provider_aggregate_def split: option.splits prod.splits sum.splits)

interpretation scalar_tier: dispatch_tier "\<lambda>ext. try_provider_scalar E ext f args" is_loaded for E f args
  by unfold_locales (auto simp: try_provider_scalar_def is_loaded_def split: option.splits prod.splits sum.splits)

interpretation bridge_read: two_tiers "\<lambda>ext. on_mutating ext f" "\<lambda>ext. on_bridge ext g" writable bridged for f g
  by unfold_locales

interpretation resident_mapped: dispatch_tier "\<lambda>ext. mapped d (try_provider_invoke E ext meth payload)" resident for d E meth payload
  by (rule resident_tier.mapped_tier)

interpretation vtab_read: two_tiers "\<lambda>ext. or_else (on_mutating ext f) (on_bridge ext g)"
    "\<lambda>ext. mapped d (try_provider_invoke E ext meth payload)" "\<lambda>ext h. writable ext h \<or> bridged ext h" resident for f g d E meth payload
  by unfold_locales

interpretation vtab_write: two_tiers "\<lambda>ext. on_mutating ext f" "\<lambda>ext. mapped d (try_provider_invoke E ext meth payload)" writable resident
  for f d E meth payload
  by unfold_locales

interpretation scalar_call: two_tiers "\<lambda>ext. on_bridge ext f" "\<lambda>ext. try_provider_scalar E ext func_id args" bridged is_loaded
  for f E func_id args
  by unfold_locales

interpretation read_served: served "\<lambda>ext. or_else (or_else (on_mutating ext f) (on_bridge ext g)) (mapped d (try_provider_invoke E ext meth payload))"
    "\<lambda>ext h. (writable ext h \<or> bridged ext h) \<or> resident ext h" for f g d E meth payload
  by unfold_locales

interpretation write_served: served "\<lambda>ext. or_else (on_mutating ext f) (mapped d (try_provider_invoke E ext meth payload))"
    "\<lambda>ext h. writable ext h \<or> resident ext h" for f d E meth payload
  by unfold_locales

interpretation resident_served: served "\<lambda>ext. mapped d (try_provider_invoke E ext meth payload)" resident for d E meth payload
  by unfold_locales

interpretation aggregate_served: served "\<lambda>ext. try_provider_aggregate E ext meth payload dec" resident for E meth payload dec
  by unfold_locales

interpretation scalar_served: served "\<lambda>ext. or_else (on_bridge ext f) (try_provider_scalar E ext func_id args)"
    "\<lambda>ext h. bridged ext h \<or> is_loaded ext h" for f E func_id args
  by unfold_locales

lemmas served_confined_rules = read_served.served_confined write_served.served_confined resident_served.served_confined
  aggregate_served.served_confined scalar_served.served_confined

lemmas served_away_rules = read_served.served_away write_served.served_away resident_served.served_away
  aggregate_served.served_away scalar_served.served_away

section \<open>Calls\<close>

text \<open>Every call the host makes into an extension it names.\<close>

datatype ext_call =
    DoScalar u64 "sqlvalue list"
  | DoStep u64 u64 "sqlvalue list"
  | DoFinalize u64 u64
  | DoValue u64 u64
  | DoInverse u64 u64 "sqlvalue list"
  | DoCollation u64 string string
  | DoCreate u64 u64 string string "string list"
  | DoConnect u64 u64 string string "string list"
  | DoDestroy u64 u64
  | DoDisconnect u64 u64
  | DoBestIndex u64 u64 index_info
  | DoOpen u64 u64 u64
  | DoClose u64 u64
  | DoFilter u64 u64 i32 "string option" "sqlvalue list"
  | DoNext u64 u64
  | DoEof u64 u64
  | DoColumn u64 u64 i32
  | DoRowid u64 u64
  | DoFetchBatch u64 u64 u32
  | DoUpdate u64 u64 "sqlvalue list"
  | DoBegin u64 u64
  | DoSync u64 u64
  | DoCommit u64 u64
  | DoRollback u64 u64
  | DoRename u64 u64 string
  | DoSavepoint u64 u64 i32
  | DoRelease u64 u64 i32
  | DoRollbackTo u64 u64 i32
  | DoIsShadowName u64 string
  | DoIntegrity u64 u64 string string u32
  | DoAuthorize auth_action "string option" "string option" "string option" "string option"
  | DoOnUpdate update_operation string string i64
  | DoOnCommit
  | DoOnRollback
  | DoOnWal u64 string u32

datatype reply =
    RUnit
  | RValue sqlvalue
  | RText string
  | RPlan index_plan_parts
  | RRows "(i64 \<times> sqlvalue list) list"
  | RFlag bool
  | RRowid i64
  | RInt i32
  | RAuth auth_result

definition two_level :: "('a \<Rightarrow> reply) \<Rightarrow> ('g, 'w, 'c, string + 'a) dispatch_op \<Rightarrow> ('g, 'w, 'c, string + reply) dispatch_op" where
  "two_level f m h = (case m h of (r, h') \<Rightarrow> (map_sum id (map_sum id f) r, h'))"

definition one_level :: "('a \<Rightarrow> reply) \<Rightarrow> ('g, 'w, 'c, 'a) dispatch_op \<Rightarrow> ('g, 'w, 'c, string + reply) dispatch_op" where
  "one_level f m h = (case m h of (r, h') \<Rightarrow> (map_sum id (\<lambda>a. Inr (f a)) r, h'))"

primrec dispatch_call :: "('g, 'w, 'c) guest_env \<Rightarrow> 'g guest_api \<Rightarrow> string \<Rightarrow> ext_call \<Rightarrow> ('g, 'w, 'c, string + reply) dispatch_op" where
  "dispatch_call E X ext (DoScalar f as) = two_level RValue (dispatch_scalar E X ext f as)"
| "dispatch_call E X ext (DoStep f c as) = two_level (\<lambda>_. RUnit) (dispatch_aggregate_step E ext f c as)"
| "dispatch_call E X ext (DoFinalize f c) = two_level RValue (dispatch_aggregate_finalize E ext f c)"
| "dispatch_call E X ext (DoValue f c) = two_level RValue (dispatch_aggregate_value E ext f c)"
| "dispatch_call E X ext (DoInverse f c as) = two_level (\<lambda>_. RUnit) (dispatch_aggregate_inverse E ext f c as)"
| "dispatch_call E X ext (DoCollation i a b) = one_level RInt (dispatch_collation E ext i a b)"
| "dispatch_call E X ext (DoCreate v i d t as) = two_level RText (dispatch_vtab_create E ext v i d t as)"
| "dispatch_call E X ext (DoConnect v i d t as) = two_level RText (dispatch_vtab_connect E X ext v i d t as)"
| "dispatch_call E X ext (DoDestroy v i) = two_level (\<lambda>_. RUnit) (dispatch_vtab_destroy E ext v i)"
| "dispatch_call E X ext (DoDisconnect v i) = two_level (\<lambda>_. RUnit) (dispatch_vtab_disconnect E X ext v i)"
| "dispatch_call E X ext (DoBestIndex v i info) = two_level RPlan (dispatch_vtab_best_index E X ext v i info)"
| "dispatch_call E X ext (DoOpen v i c) = two_level (\<lambda>_. RUnit) (dispatch_vtab_open E X ext v i c)"
| "dispatch_call E X ext (DoClose v c) = two_level (\<lambda>_. RUnit) (dispatch_vtab_close E X ext v c)"
| "dispatch_call E X ext (DoFilter v c n s as) = two_level (\<lambda>_. RUnit) (dispatch_vtab_filter E X ext v c n s as)"
| "dispatch_call E X ext (DoNext v c) = two_level (\<lambda>_. RUnit) (dispatch_vtab_next E X ext v c)"
| "dispatch_call E X ext (DoEof v c) = one_level RFlag (dispatch_vtab_eof E X ext v c)"
| "dispatch_call E X ext (DoColumn v c n) = two_level RValue (dispatch_vtab_column E X ext v c n)"
| "dispatch_call E X ext (DoRowid v c) = two_level RRowid (dispatch_vtab_rowid E X ext v c)"
| "dispatch_call E X ext (DoFetchBatch v c n) = two_level RRows (dispatch_vtab_fetch_batch E X ext v c n)"
| "dispatch_call E X ext (DoUpdate v i as) = two_level RRowid (dispatch_vtab_update E X ext v i as)"
| "dispatch_call E X ext (DoBegin v i) = two_level (\<lambda>_. RUnit) (dispatch_vtab_begin E X ext v i)"
| "dispatch_call E X ext (DoSync v i) = two_level (\<lambda>_. RUnit) (dispatch_vtab_sync E X ext v i)"
| "dispatch_call E X ext (DoCommit v i) = two_level (\<lambda>_. RUnit) (dispatch_vtab_commit E X ext v i)"
| "dispatch_call E X ext (DoRollback v i) = two_level (\<lambda>_. RUnit) (dispatch_vtab_rollback E X ext v i)"
| "dispatch_call E X ext (DoRename v i n) = two_level (\<lambda>_. RUnit) (dispatch_vtab_rename E X ext v i n)"
| "dispatch_call E X ext (DoSavepoint v i n) = two_level (\<lambda>_. RUnit) (dispatch_vtab_savepoint E X ext v i n)"
| "dispatch_call E X ext (DoRelease v i n) = two_level (\<lambda>_. RUnit) (dispatch_vtab_release E X ext v i n)"
| "dispatch_call E X ext (DoRollbackTo v i n) = two_level (\<lambda>_. RUnit) (dispatch_vtab_rollback_to E X ext v i n)"
| "dispatch_call E X ext (DoIsShadowName v n) = one_level RFlag (dispatch_vtab_is_shadow_name E X ext v n)"
| "dispatch_call E X ext (DoIntegrity v i s t m) = two_level (\<lambda>_. RUnit) (dispatch_vtab_integrity E X ext v i s t m)"
| "dispatch_call E X ext (DoAuthorize a x y d t) = one_level RAuth (dispatch_authorize E ext a x y d t)"
| "dispatch_call E X ext (DoOnUpdate p d t r) = one_level (\<lambda>_. RUnit) (dispatch_on_update E ext p d t r)"
| "dispatch_call E X ext DoOnCommit = one_level RFlag (dispatch_on_commit E ext)"
| "dispatch_call E X ext DoOnRollback = one_level (\<lambda>_. RUnit) (dispatch_on_rollback E ext)"
| "dispatch_call E X ext (DoOnWal i d n) = one_level RInt (dispatch_on_wal_hook E ext i d n)"

lemmas attempt_defs = try_bridge_scalar_def try_bridge_vtab_connect_def try_bridge_vtab_disconnect_def try_bridge_vtab_best_index_def
  try_bridge_vtab_open_def try_bridge_vtab_close_def try_bridge_vtab_filter_def try_bridge_vtab_fetch_batch_def try_bridge_vtab_next_def
  try_bridge_vtab_eof_def try_bridge_vtab_column_def try_bridge_vtab_rowid_def try_bridge_vtab_update_def try_bridge_vtab_begin_def
  try_bridge_vtab_sync_def try_bridge_vtab_commit_def try_bridge_vtab_rollback_def try_bridge_vtab_rename_def try_bridge_vtab_savepoint_def
  try_bridge_vtab_release_def try_bridge_vtab_rollback_to_def try_bridge_vtab_is_shadow_name_def try_bridge_vtab_integrity_def
  read_tier_def write_tier_def provider_tier_def provider_plain_def
  try_provider_aggregate_step_def try_provider_aggregate_inverse_def try_provider_aggregate_ctx_def

lemmas dispatch_defs = dispatch_scalar_def dispatch_aggregate_step_def dispatch_aggregate_finalize_def dispatch_aggregate_value_def
  dispatch_aggregate_inverse_def dispatch_vtab_create_def dispatch_vtab_connect_def dispatch_vtab_destroy_def dispatch_vtab_disconnect_def
  dispatch_vtab_best_index_def dispatch_vtab_open_def dispatch_vtab_close_def dispatch_vtab_filter_def dispatch_vtab_next_def
  dispatch_vtab_eof_def dispatch_vtab_column_def dispatch_vtab_rowid_def dispatch_vtab_fetch_batch_def dispatch_vtab_update_def
  dispatch_vtab_begin_def dispatch_vtab_sync_def dispatch_vtab_commit_def dispatch_vtab_rollback_def dispatch_vtab_rename_def
  dispatch_vtab_savepoint_def dispatch_vtab_release_def dispatch_vtab_rollback_to_def dispatch_vtab_is_shadow_name_def
  dispatch_vtab_integrity_def dispatch_on_update_def dispatch_on_commit_def dispatch_on_rollback_def dispatch_on_wal_hook_def

lemma two_level_confined: "(\<And>r h'. m h = (r, h') \<Longrightarrow> confined ext h h') \<Longrightarrow> two_level f m h = (x, h'') \<Longrightarrow> confined ext h h''"
  by (auto simp: two_level_def split: prod.splits)

lemma one_level_confined: "(\<And>r h'. m h = (r, h') \<Longrightarrow> confined ext h h') \<Longrightarrow> one_level f m h = (x, h'') \<Longrightarrow> confined ext h h''"
  by (auto simp: one_level_def split: prod.splits)

lemma collation_confined: "dispatch_collation E ext i a b h = (r, h') \<Longrightarrow> confined ext h h'"
  by (auto simp: dispatch_collation_def split: option.splits sum.splits prod.splits)

lemma authorize_confined: "dispatch_authorize E ext a x y d t h = (r, h') \<Longrightarrow> confined ext h h'"
  by (auto simp: dispatch_authorize_def provider_plain_def split: option.splits prod.splits dest: resident_mapped.stays)

lemma dispatch_call_confined: "dispatch_call E X ext c h = (r, h') \<Longrightarrow> confined ext h h'"
  by (cases c; hypsubst; simp only: dispatch_call.simps dispatch_defs attempt_defs;
      erule two_level_confined [rotated] one_level_confined [rotated];
      erule served_confined_rules collation_confined authorize_confined)

end
