(* ===== verification/Extension_Serving.thy ===== *)
theory Extension_Serving
  imports Extension_Calls
begin

text \<open>
  What a call through a resident provider does. The specification of an extension is an operation on its store for
  each call; the dispatchers, the envelope and the provider's endpoint together are shown to refine it.
\<close>

section \<open>What a provider is asked\<close>

primrec call_method :: "ext_call \<Rightarrow> string" where
  "call_method (DoScalar f as) = ''call''"
| "call_method (DoStep f c as) = ''agg.step''"
| "call_method (DoFinalize f c) = ''agg.finalize''"
| "call_method (DoValue f c) = ''agg.value''"
| "call_method (DoInverse f c as) = ''agg.inverse''"
| "call_method (DoCollation i a b) = ''collation.compare''"
| "call_method (DoCreate v i d t as) = ''vtab.create''"
| "call_method (DoConnect v i d t as) = ''vtab.connect''"
| "call_method (DoDestroy v i) = ''vtab.destroy''"
| "call_method (DoDisconnect v i) = ''vtab.disconnect''"
| "call_method (DoBestIndex v i info) = ''vtab.best-index''"
| "call_method (DoOpen v i c) = ''vtab.open''"
| "call_method (DoClose v c) = ''vtab.close''"
| "call_method (DoFilter v c n s as) = ''vtab.filter''"
| "call_method (DoNext v c) = ''vtab.next''"
| "call_method (DoEof v c) = ''vtab.eof''"
| "call_method (DoColumn v c n) = ''vtab.column''"
| "call_method (DoRowid v c) = ''vtab.rowid''"
| "call_method (DoFetchBatch v c n) = ''vtab.fetch-batch''"
| "call_method (DoUpdate v i as) = ''vtab-update.update''"
| "call_method (DoBegin v i) = ''vtab-update.begin''"
| "call_method (DoSync v i) = ''vtab-update.sync''"
| "call_method (DoCommit v i) = ''vtab-update.commit''"
| "call_method (DoRollback v i) = ''vtab-update.rollback''"
| "call_method (DoRename v i n) = ''vtab-update.rename''"
| "call_method (DoSavepoint v i n) = ''vtab-update.savepoint''"
| "call_method (DoRelease v i n) = ''vtab-update.release''"
| "call_method (DoRollbackTo v i n) = ''vtab-update.rollback-to''"
| "call_method (DoIsShadowName v n) = ''vtab-update.is-shadow-name''"
| "call_method (DoIntegrity v i s t m) = ''vtab-update.integrity''"
| "call_method (DoAuthorize a x y d t) = ''authorizer.authorize''"
| "call_method (DoOnUpdate p d t r) = ''hook.update''"
| "call_method DoOnCommit = ''hook.commit''"
| "call_method DoOnRollback = ''hook.rollback''"
| "call_method (DoOnWal i d n) = ''hook.wal''"

text \<open>The message of a call; the commit and rollback hooks have an empty one.\<close>

primrec call_request :: "ext_call \<Rightarrow> request option" where
  "call_request (DoScalar f as) = Some (Call f as)"
| "call_request (DoStep f c as) = Some (AggStep f c as)"
| "call_request (DoFinalize f c) = Some (AggCtx f c)"
| "call_request (DoValue f c) = Some (AggCtx f c)"
| "call_request (DoInverse f c as) = Some (AggStep f c as)"
| "call_request (DoCollation i a b) = Some (CollationCompare i a b)"
| "call_request (DoCreate v i d t as) = Some (VtabConnect v i d t as)"
| "call_request (DoConnect v i d t as) = Some (VtabConnect v i d t as)"
| "call_request (DoDestroy v i) = Some (VtabInstance v i)"
| "call_request (DoDisconnect v i) = Some (VtabInstance v i)"
| "call_request (DoBestIndex v i info) = Some (VtabBestIndex v i
     (map (\<lambda>c. (ic_column c, constraint_op_name (ic_op c), ic_usable c)) (ii_constraints info)) (ii_orderbys info) (ii_col_used info))"
| "call_request (DoOpen v i c) = Some (VtabOpen v i c)"
| "call_request (DoClose v c) = Some (VtabCursor v c)"
| "call_request (DoFilter v c n s as) = Some (VtabFilter v c n s as)"
| "call_request (DoNext v c) = Some (VtabCursor v c)"
| "call_request (DoEof v c) = Some (VtabCursor v c)"
| "call_request (DoColumn v c n) = Some (VtabColumn v c n)"
| "call_request (DoRowid v c) = Some (VtabCursor v c)"
| "call_request (DoFetchBatch v c n) = Some (VtabFetchBatch v c n)"
| "call_request (DoUpdate v i as) = Some (VtabUpdate v i as)"
| "call_request (DoBegin v i) = Some (VtabInstance v i)"
| "call_request (DoSync v i) = Some (VtabInstance v i)"
| "call_request (DoCommit v i) = Some (VtabInstance v i)"
| "call_request (DoRollback v i) = Some (VtabInstance v i)"
| "call_request (DoRename v i n) = Some (VtabRename v i n)"
| "call_request (DoSavepoint v i n) = Some (VtabSavepoint v i n)"
| "call_request (DoRelease v i n) = Some (VtabSavepoint v i n)"
| "call_request (DoRollbackTo v i n) = Some (VtabSavepoint v i n)"
| "call_request (DoIsShadowName v n) = Some (VtabShadowName v n)"
| "call_request (DoIntegrity v i s t m) = Some (VtabIntegrity v i s t m)"
| "call_request (DoAuthorize a x y d t) = Some (Authorize (auth_action_name a) x y d t)"
| "call_request (DoOnUpdate p d t r) = Some (HookUpdate (update_op_name p) d t r)"
| "call_request DoOnCommit = None"
| "call_request DoOnRollback = None"
| "call_request (DoOnWal i d n) = Some (HookWal i d n)"

definition call_payload :: "bytes codec \<Rightarrow> ext_call \<Rightarrow> string + bytes" where
  "call_payload C c = (case call_request c of Some r \<Rightarrow> encode_request C r | None \<Rightarrow> Inr [])"

section \<open>What a provider answers\<close>

definition plan_tree :: "index_plan_parts \<Rightarrow> cbor" where
  "plan_tree p = cbor_map
     [(''constraint_usage'', CArray (map (\<lambda>(a, omit). cbor_map [(''argv_index'', CInteger (sint a)), (''omit'', CBool omit)]) (ip_usage p))),
      (''idx_num'', CInteger (sint (ip_idx_num p))), (''idx_str'', opt_text (ip_idx_str p)), (''estimated_cost'', CFloat (ip_cost p)),
      (''estimated_rows'', CInteger (sint (ip_rows p))), (''orderby_consumed'', CBool (ip_consumed p))]"

definition auth_result_name :: "auth_result \<Rightarrow> string" where
  "auth_result_name a = (case a of AuthOk \<Rightarrow> ''ok'' | AuthDeny \<Rightarrow> ''deny'' | AuthIgnore \<Rightarrow> ''ignore'')"

primrec reply_tree :: "reply \<Rightarrow> cbor" where
  "reply_tree RUnit = CNull"
| "reply_tree (RValue v) = sqlval_to_cbor v"
| "reply_tree (RText s) = CText s"
| "reply_tree (RPlan p) = plan_tree p"
| "reply_tree (RRows rows) = CArray (map row_to_cbor rows)"
| "reply_tree (RFlag b) = CBool b"
| "reply_tree (RRowid i) = CInteger (sint i)"
| "reply_tree (RInt i) = CInteger (sint i)"
| "reply_tree (RAuth a) = CText (auth_result_name a)"

text \<open>The values the envelope carries: no wit-value and no NaN.\<close>

definition carried :: "sqlvalue \<Rightarrow> bool" where
  "carried v \<longleftrightarrow> plain_value v \<and> \<not> nan_value v"

primrec reply_carried :: "reply \<Rightarrow> bool" where
  "reply_carried RUnit = True"
| "reply_carried (RValue v) = carried v"
| "reply_carried (RText s) = True"
| "reply_carried (RPlan p) = (\<not> is_nan (ip_cost p))"
| "reply_carried (RRows rows) = list_all (\<lambda>row. list_all carried (snd row)) rows"
| "reply_carried (RFlag b) = True"
| "reply_carried (RRowid i) = True"
| "reply_carried (RInt i) = True"
| "reply_carried (RAuth a) = True"

text \<open>The kind of answer a call expects.\<close>

definition expects_reply :: "ext_call \<Rightarrow> reply \<Rightarrow> bool" where
  "expects_reply c rep =
     (case c of
        DoScalar _ _ \<Rightarrow> (\<exists>v. rep = RValue v)
      | DoFinalize _ _ \<Rightarrow> (\<exists>v. rep = RValue v)
      | DoValue _ _ \<Rightarrow> (\<exists>v. rep = RValue v)
      | DoColumn _ _ _ \<Rightarrow> (\<exists>v. rep = RValue v)
      | DoCollation _ _ _ \<Rightarrow> (\<exists>i. rep = RInt i)
      | DoOnWal _ _ _ \<Rightarrow> (\<exists>i. rep = RInt i)
      | DoCreate _ _ _ _ _ \<Rightarrow> (\<exists>s. rep = RText s)
      | DoConnect _ _ _ _ _ \<Rightarrow> (\<exists>s. rep = RText s)
      | DoBestIndex _ _ _ \<Rightarrow> (\<exists>p. rep = RPlan p)
      | DoEof _ _ \<Rightarrow> (\<exists>b. rep = RFlag b)
      | DoIsShadowName _ _ \<Rightarrow> (\<exists>b. rep = RFlag b)
      | DoOnCommit \<Rightarrow> (\<exists>b. rep = RFlag b)
      | DoRowid _ _ \<Rightarrow> (\<exists>i. rep = RRowid i)
      | DoUpdate _ _ _ \<Rightarrow> (\<exists>i. rep = RRowid i)
      | DoFetchBatch _ _ _ \<Rightarrow> (\<exists>rows. rep = RRows rows)
      | DoAuthorize _ _ _ _ _ \<Rightarrow> (\<exists>a. rep = RAuth a)
      | _ \<Rightarrow> rep = RUnit)"

section \<open>Reading the answers\<close>

lemma wire_ok_plan: "\<not> is_nan (ip_cost p) \<Longrightarrow> wire_ok (Suc (Suc (Suc d))) (plan_tree p)"
  by (auto simp: plan_tree_def cbor_map_def list_all_iff)

lemma wire_ok_reply:
  assumes "reply_carried rep"
  shows "wire_ok (Suc (Suc (Suc (Suc (Suc d))))) (reply_tree rep)"
proof (cases rep)
  case (RRows rows)
  with assms show ?thesis by (auto simp: list_all_iff carried_def intro!: wire_ok_row)
next
  case (RPlan p)
  with assms wire_ok_plan [of p "Suc (Suc d)"] show ?thesis by simp
next
  case (RValue v)
  with assms wire_ok_value [of v "Suc (Suc (Suc d))"] show ?thesis by (simp add: carried_def)
qed simp_all

lemma reply_read:
  assumes "codec_ok C" "reply_carried rep" "ser C (reply_tree rep) = Inr b"
  shows "deser C b = Inr (reply_tree rep)"
proof -
  have "wire_ok 16 (reply_tree rep)" unfolding sixteen using assms(2) by (rule wire_ok_reply)
  from deser_ser [OF assms(1) this assms(3)] show ?thesis .
qed

lemma plan_fields:
  "field_or (plan_tree p) ''constraint_usage'' f d =
     f (CArray (map (\<lambda>(a, omit). cbor_map [(''argv_index'', CInteger (sint a)), (''omit'', CBool omit)]) (ip_usage p)))"
  "field_or (plan_tree p) ''idx_num'' g e = g (CInteger (sint (ip_idx_num p)))"
  "cbor_field (plan_tree p) ''idx_str'' = Some (opt_text (ip_idx_str p))"
  "cbor_field (plan_tree p) ''estimated_cost'' = Some (CFloat (ip_cost p))"
  "field_or (plan_tree p) ''estimated_rows'' k n = k (CInteger (sint (ip_rows p)))"
  "field_or (plan_tree p) ''orderby_consumed'' l b = l (CBool (ip_consumed p))"
  unfolding plan_tree_def by simp_all

lemma usage_read:
  "map (\<lambda>u. (field_or u ''argv_index'' int_i32 0, field_or u ''omit'' is_true False))
     (map (\<lambda>(a, omit). cbor_map [(''argv_index'', CInteger (sint a)), (''omit'', CBool omit)]) us) = us"
  by (induction us) auto

lemma read_plan: "deser C b = Inr (plan_tree p) \<Longrightarrow> decode_vtab_index_plan C b = Inr p"
  by (simp add: decode_vtab_index_plan_def plan_fields usage_read opt_text_def del: map_map split: option.splits)

lemma read_auth: "auth_result_from_name (auth_result_name a) = a"
  by (cases a) (simp_all add: auth_result_from_name_def auth_result_name_def)

text \<open>\<open>dec\<close> reads the answers a call expects, as replies of the form \<open>f\<close>.\<close>

definition sent :: "bytes codec \<Rightarrow> ext_call \<Rightarrow> reply \<Rightarrow> bytes \<Rightarrow> bool" where
  "sent C c rep b \<longleftrightarrow> expects_reply c rep \<and> reply_carried rep \<and> (rep = RUnit \<or> ser C (reply_tree rep) = Inr b)"

definition reads :: "bytes codec \<Rightarrow> ext_call \<Rightarrow> (bytes \<Rightarrow> string + 'a) \<Rightarrow> ('a \<Rightarrow> reply) \<Rightarrow> bool" where
  "reads C c dec f \<longleftrightarrow> (\<forall>rep b. sent C c rep b \<longrightarrow> (\<exists>a. dec b = Inr a \<and> f a = rep))"

definition answered :: "bytes codec \<Rightarrow> ext_call \<Rightarrow> string + reply \<Rightarrow> string + bytes \<Rightarrow> bool" where
  "answered C c r r0 \<longleftrightarrow> (case r of Inl e \<Rightarrow> r0 = Inl e | Inr rep \<Rightarrow> (\<exists>b. r0 = Inr b \<and> sent C c rep b))"

lemma reads_answer: "reads C c dec f \<Longrightarrow> answered C c r r0 \<Longrightarrow> map_sum id f (sbind r0 dec) = r"
  by (cases r) (fastforce simp: reads_def answered_def)+

lemma reads_named: "reads C c dec f \<Longrightarrow> reads C c (\<lambda>b. map_error (g b) (dec b)) f"
  unfolding reads_def map_error_def by fastforce

text \<open>The decoders of the dispatchers.\<close>

lemma reads_kind:
  assumes "codec_ok C" "\<And>rep. expects_reply c rep \<Longrightarrow> \<exists>x. rep = k x" "\<And>x. k x \<noteq> RUnit"
    "\<And>x b. reply_carried (k x) \<Longrightarrow> deser C b = Inr (reply_tree (k x)) \<Longrightarrow> \<exists>a. dec b = Inr a \<and> f a = k x"
  shows "reads C c dec f"
  unfolding reads_def sent_def
proof (intro allI impI, elim conjE)
  fix rep b
  assume rep: "expects_reply c rep" "reply_carried rep" "rep = RUnit \<or> ser C (reply_tree rep) = Inr b"
  from assms(2) [OF rep(1)] obtain x where x: "rep = k x" ..
  with rep(3) assms(3) have "ser C (reply_tree rep) = Inr b" by auto
  from reply_read [OF assms(1) rep(2) this] rep(2) assms(4) x show "\<exists>a. dec b = Inr a \<and> f a = rep" by blast
qed

lemma rows_read:
  assumes "list_all (\<lambda>row. list_all carried (snd row)) rows" "deser C b = Inr (CArray (map row_to_cbor rows))"
  shows "decode_vtab_rows C b = Inr rows"
proof -
  have "list_all plain_row rows" using assms(1) by (auto simp: list_all_iff plain_row_def carried_def)
  from wire_row.dec_list [OF this] assms(2) show ?thesis by (simp add: decode_vtab_rows_def cbor_arr_def)
qed

lemma value_read: "carried v \<Longrightarrow> deser C b = Inr (sqlval_to_cbor v) \<Longrightarrow> decode_sql_value C b = Inr v"
  by (simp add: decode_sql_value_def carried_def wire_value.dec_enc)

lemma reads_value: "codec_ok C \<Longrightarrow> (\<And>rep. expects_reply c rep \<Longrightarrow> \<exists>v. rep = RValue v) \<Longrightarrow> reads C c (decode_sql_value C) RValue"
  by (rule reads_kind [where k = RValue]) (auto simp: value_read)

lemma reads_rows: "codec_ok C \<Longrightarrow> (\<And>rep. expects_reply c rep \<Longrightarrow> \<exists>v. rep = RRows v) \<Longrightarrow> reads C c (decode_vtab_rows C) RRows"
  by (rule reads_kind [where k = RRows]) (auto simp: rows_read)

lemma reads_plan: "codec_ok C \<Longrightarrow> (\<And>rep. expects_reply c rep \<Longrightarrow> \<exists>v. rep = RPlan v) \<Longrightarrow> reads C c (decode_vtab_index_plan C) RPlan"
  by (rule reads_kind [where k = RPlan]) (auto dest: read_plan)

lemma reads_text: "codec_ok C \<Longrightarrow> (\<And>rep. expects_reply c rep \<Longrightarrow> \<exists>v. rep = RText v) \<Longrightarrow> reads C c (decode_string C) RText"
  by (rule reads_kind [where k = RText]) (auto simp: decode_string_def cbor_text_def)

lemma reads_flag: "codec_ok C \<Longrightarrow> (\<And>rep. expects_reply c rep \<Longrightarrow> \<exists>v. rep = RFlag v) \<Longrightarrow> reads C c (decode_bool C) RFlag"
  by (rule reads_kind [where k = RFlag]) (auto simp: decode_bool_def is_true_def)

lemma reads_rowid: "codec_ok C \<Longrightarrow> (\<And>rep. expects_reply c rep \<Longrightarrow> \<exists>v. rep = RRowid v) \<Longrightarrow> reads C c (decode_i64 C) RRowid"
  by (rule reads_kind [where k = RRowid]) (auto simp: decode_i64_def cbor_int_def)

lemma reads_int: "codec_ok C \<Longrightarrow> (\<And>rep. expects_reply c rep \<Longrightarrow> \<exists>v. rep = RInt v) \<Longrightarrow> reads C c (decode_i32 C) RInt"
  by (rule reads_kind [where k = RInt]) (auto simp: decode_i32_def cbor_int_def)

lemma reads_auth:
  "codec_ok C \<Longrightarrow> (\<And>rep. expects_reply c rep \<Longrightarrow> \<exists>v. rep = RAuth v) \<Longrightarrow>
     reads C c (\<lambda>b. sbind (decode_string C b) (\<lambda>s. Inr (auth_result_from_name s))) RAuth"
  by (rule reads_kind [where k = RAuth]) (auto simp: decode_string_def cbor_text_def read_auth)

lemma reads_unit: "(\<And>rep. expects_reply c rep \<Longrightarrow> rep = RUnit) \<Longrightarrow> reads C c (\<lambda>_. Inr ()) (\<lambda>_. RUnit)"
  by (auto simp: reads_def sent_def)

section \<open>A call is an operation of the provider\<close>

text \<open>The specification of an extension: for each call, an operation on the store, which fails or answers. A
  provider speaks it if its endpoint performs the operation on the message of the call, for all calls whose
  arguments survive the encoding.\<close>

definition speaks :: "bytes codec \<Rightarrow> (string \<Rightarrow> bytes \<Rightarrow> (string, 'w, bytes) op) \<Rightarrow> (ext_call \<Rightarrow> (string, 'w, reply) op) \<Rightarrow> bool" where
  "speaks C ask S \<longleftrightarrow>
     (\<forall>c b w. list_all (\<lambda>v. \<not> nan_value v) (case call_request c of Some r \<Rightarrow> request_args r | None \<Rightarrow> []) \<and> call_payload C c = Inr b \<longrightarrow>
        answered C c (fst (S c w)) (fst (ask (call_method c) b w)) \<and> snd (ask (call_method c) b w) = snd (S c w))"

definition one_level_call :: "ext_call \<Rightarrow> bool" where
  "one_level_call c =
     (case c of DoCollation _ _ _ \<Rightarrow> True | DoEof _ _ \<Rightarrow> True | DoIsShadowName _ _ \<Rightarrow> True | DoAuthorize _ _ _ _ _ \<Rightarrow> True
      | DoOnUpdate _ _ _ _ \<Rightarrow> True | DoOnCommit \<Rightarrow> True | DoOnRollback \<Rightarrow> True | DoOnWal _ _ _ \<Rightarrow> True | _ \<Rightarrow> False)"

text \<open>How the dispatchers report the extension's own error, and a request that cannot be encoded.\<close>

definition call_outcome :: "ext_call \<Rightarrow> string + reply \<Rightarrow> dispatch_error + (string + reply)" where
  "call_outcome c r =
     (case r of
        Inr rep \<Rightarrow> Inr (Inr rep)
      | Inl e \<Rightarrow>
          if one_level_call c then Inl (InvokeFailed (call_method c) e)
          else Inr (Inl (case c of DoScalar _ _ \<Rightarrow> strip_provider_call_prefix e | _ \<Rightarrow> e)))"

definition encode_failure :: "ext_call \<Rightarrow> string \<Rightarrow> dispatch_error + (string + reply)" where
  "encode_failure c e =
     (case c of
        DoScalar _ _ \<Rightarrow> Inl (EncodeFailed ''call'' e)
      | DoStep _ _ _ \<Rightarrow> Inl (EncodeFailed ''agg.step'' e)
      | DoFinalize _ _ \<Rightarrow> Inl (EncodeFailed ''agg.finalize'' e)
      | DoValue _ _ \<Rightarrow> Inl (EncodeFailed ''agg.value'' e)
      | DoInverse _ _ _ \<Rightarrow> Inl (EncodeFailed ''agg.inverse'' e)
      | DoCollation _ _ _ \<Rightarrow> Inl (EncodeFailed ''collation compare'' e)
      | _ \<Rightarrow> call_outcome c (Inl (''encode '' @ call_method c @ '': '' @ e)))"

lemma resident_invoke:
  assumes "resident_provider_handle ext h = Some p"
  shows "mapped d (try_provider_invoke E ext meth payload) h =
    (case payload of
       Inl e \<Rightarrow> (Some (d (Inl (''encode '' @ meth @ '': '' @ e))), h)
     | Inr b \<Rightarrow> (case g_invoke E p meth b (eh_world h) of (r, w) \<Rightarrow> (Some (d r), h\<lparr>eh_world := w\<rparr>)))"
  using assms by (simp add: mapped_def try_provider_invoke_def split: sum.splits prod.splits)

lemma no_bridge_tier: "\<not> bridged ext h \<Longrightarrow> or_else (on_bridge ext f) a h = a h"
  by (simp add: or_else_def bridge_tier.away)

lemma no_writer_tier: "\<not> writable ext h \<Longrightarrow> or_else (on_mutating ext f) a h = a h"
  by (simp add: or_else_def mutating_tier.away)

lemma no_instance_tier: "\<not> bridged ext h \<Longrightarrow> \<not> writable ext h \<Longrightarrow> or_else (or_else (on_mutating ext f) (on_bridge ext g)) a h = a h"
  by (simp add: or_else_def mutating_tier.away bridge_tier.away)

lemma or_not_loaded_cong: "a h = b h \<Longrightarrow> or_not_loaded ext a h = or_not_loaded ext b h"
  by (simp add: or_not_loaded_def)

text \<open>The two shapes of a dispatch through a resident provider. The answers are those of the specification.\<close>

definition performs :: "('g, 'w, 'c) guest_env \<Rightarrow> 'c provider_kind \<Rightarrow> ext_call \<Rightarrow> (string, 'w, reply) op \<Rightarrow> 'w \<Rightarrow> bool" where
  "performs E p c s w \<longleftrightarrow>
     (\<forall>b. call_payload (g_codec E) c = Inr b \<longrightarrow>
        answered (g_codec E) c (fst (s w)) (fst (g_invoke E p (call_method c) b w)) \<and> snd (g_invoke E p (call_method c) b w) = snd (s w))"

definition spec_call :: "('g, 'w, 'c) guest_env \<Rightarrow> ext_call \<Rightarrow> (string, 'w, reply) op \<Rightarrow> ('g, 'w, 'c, string + reply) dispatch_op" where
  "spec_call E c s h =
     (case call_payload (g_codec E) c of
        Inl e \<Rightarrow> (encode_failure c e, h)
      | Inr _ \<Rightarrow> (case s (eh_world h) of (r, w) \<Rightarrow> (call_outcome c r, h\<lparr>eh_world := w\<rparr>)))"

lemma performs_answer:
  assumes "performs E p c s w" "call_payload (g_codec E) c = Inr b" "g_invoke E p (call_method c) b w = (r0, w')"
  shows "answered (g_codec E) c (fst (s w)) r0 \<and> s w = (fst (s w), w')"
  using assms by (auto simp: performs_def prod_eq_iff)

lemma call_outcome_Inr [simp]: "call_outcome c (Inr rep) = Inr (Inr rep)"
  by (simp add: call_outcome_def)

text \<open>The shapes of a dispatch through a resident provider: with two levels of errors, with one, and the
  aggregates, whose encoding errors are the host's.\<close>

lemma two_level_refines:
  assumes h: "resident_provider_handle ext h = Some p" and p: "performs E p c s (eh_world h)" and d: "reads (g_codec E) c dec f"
    and o: "\<And>e. call_outcome c (Inl e) = Inr (Inl e)" "\<And>e. encode_failure c e = Inr (Inl (''encode '' @ call_method c @ '': '' @ e))"
  shows "two_level f (or_not_loaded ext (provider_tier E ext (call_method c) (call_payload (g_codec E) c) dec)) h = spec_call E c s h"
proof (cases "call_payload (g_codec E) c")
  case (Inl e)
  with h o show ?thesis by (simp add: two_level_def or_not_loaded_def provider_tier_def resident_invoke spec_call_def)
next
  case (Inr b)
  obtain r0 w' where i: "g_invoke E p (call_method c) b (eh_world h) = (r0, w')" by fastforce
  obtain r where s: "s (eh_world h) = (r, w')" "answered (g_codec E) c r r0" using performs_answer [OF p Inr i] by blast
  have "call_outcome c r = Inr r" using o(1) by (cases r) simp_all
  with Inr i s h reads_answer [OF d s(2)] show ?thesis
    by (simp add: two_level_def or_not_loaded_def provider_tier_def resident_invoke spec_call_def)
qed

lemma one_level_refines:
  assumes h: "resident_provider_handle ext h = Some p" and p: "performs E p c s (eh_world h)" and d: "reads (g_codec E) c dec f"
    and o: "\<And>e. call_outcome c (Inl e) = Inl (InvokeFailed (call_method c) e)"
      "\<And>e. encode_failure c e = Inl (InvokeFailed (call_method c) (''encode '' @ call_method c @ '': '' @ e))"
  shows "one_level f (or_not_loaded ext (provider_plain E ext (call_method c) (call_payload (g_codec E) c) what dec)) h = spec_call E c s h"
proof (cases "call_payload (g_codec E) c")
  case (Inl e)
  with h o show ?thesis by (simp add: one_level_def or_not_loaded_def provider_plain_def resident_invoke spec_call_def map_error_def)
next
  case (Inr b)
  obtain r0 w' where i: "g_invoke E p (call_method c) b (eh_world h) = (r0, w')" by fastforce
  obtain r where s: "s (eh_world h) = (r, w')" "answered (g_codec E) c r r0" using performs_answer [OF p Inr i] by blast
  have "map_sum id (\<lambda>a. Inr (f a)) (sbind (map_error (InvokeFailed (call_method c)) r0) (\<lambda>b. map_error (DecodeFailed what) (dec b))) = call_outcome c r"
    using s(2) d o(1) by (cases r) (fastforce simp: answered_def reads_def map_error_def)+
  with Inr i s h show ?thesis
    by (simp add: one_level_def or_not_loaded_def provider_plain_def resident_invoke spec_call_def)
qed

lemma aggregate_refines:
  assumes h: "resident_provider_handle ext h = Some p" and p: "performs E p c s (eh_world h)" and d: "reads (g_codec E) c dec f"
    and o: "\<And>e. call_outcome c (Inl e) = Inr (Inl e)" "\<And>e. encode_failure c e = Inl (EncodeFailed (call_method c) e)"
  shows "two_level f (or_not_loaded ext (try_provider_aggregate E ext (call_method c) (call_payload (g_codec E) c) dec)) h = spec_call E c s h"
proof (cases "call_payload (g_codec E) c")
  case (Inl e)
  with h o show ?thesis by (simp add: two_level_def or_not_loaded_def try_provider_aggregate_def spec_call_def)
next
  case (Inr b)
  obtain r0 w' where i: "g_invoke E p (call_method c) b (eh_world h) = (r0, w')" by fastforce
  obtain r where s: "s (eh_world h) = (r, w')" "answered (g_codec E) c r r0" using performs_answer [OF p Inr i] by blast
  have "call_outcome c r = Inr r" using o(1) by (cases r) simp_all
  with Inr i s h reads_answer [OF d s(2)] show ?thesis
    by (simp add: two_level_def or_not_loaded_def try_provider_aggregate_def spec_call_def)
qed

lemma resident_backing:
  assumes "resident_provider_handle ext h = Some p"
  shows "\<exists>k. map_of (eh_backed h) ext = Some k \<and> backing_provider (pb_provider_id k) h = Some p"
  using assms by (auto simp: resident_provider_handle_def split: option.splits if_splits)

lemma scalar_refines:
  assumes h: "resident_provider_handle ext h = Some p" "\<not> bridged ext h" and p: "performs E p (DoScalar f as) s (eh_world h)" and C: "codec_ok (g_codec E)"
  shows "dispatch_call E X ext (DoScalar f as) h = spec_call E (DoScalar f as) s h"
proof -
  obtain k where k: "map_of (eh_backed h) ext = Some k" "backing_provider (pb_provider_id k) h = Some p" using resident_backing [OF h(1)] by blast
  have run: "dispatch_call E X ext (DoScalar f as) h = two_level RValue (or_not_loaded ext (try_provider_scalar E ext f as)) h"
    using h(2) by (simp add: two_level_def or_not_loaded_def dispatch_scalar_def try_bridge_scalar_def no_bridge_tier)
  have pl: "call_payload (g_codec E) (DoScalar f as) = encode_call (g_codec E) f as" by (simp add: call_payload_def)
  show ?thesis
  proof (cases "encode_call (g_codec E) f as")
    case (Inl e)
    with run k pl show ?thesis by (simp add: two_level_def or_not_loaded_def try_provider_scalar_def spec_call_def encode_failure_def)
  next
    case (Inr b)
    obtain r0 w' where i: "g_invoke E p ''call'' b (eh_world h) = (r0, w')" by fastforce
    obtain r where s: "s (eh_world h) = (r, w')" "answered (g_codec E) (DoScalar f as) r r0"
      using performs_answer [OF p, of b r0 w'] Inr pl i by auto
    have "reads (g_codec E) (DoScalar f as) (decode_sql_value (g_codec E)) RValue"
      by (rule reads_value [OF C]) (simp add: expects_reply_def)
    from reads_answer [OF this s(2)] Inr i s k run pl show ?thesis
      by (cases r) (auto simp: two_level_def or_not_loaded_def try_provider_scalar_def spec_call_def call_outcome_def one_level_call_def
          answered_def map_error_def split: sum.splits)
  qed
qed

lemma collation_refines:
  assumes h: "resident_provider_handle ext h = Some p" and p: "performs E p (DoCollation i a b) s (eh_world h)" and C: "codec_ok (g_codec E)"
  shows "dispatch_call E X ext (DoCollation i a b) h = spec_call E (DoCollation i a b) s h"
proof -
  obtain k where k: "map_of (eh_backed h) ext = Some k" "backing_provider (pb_provider_id k) h = Some p" using resident_backing [OF h(1)] by blast
  have pl: "call_payload (g_codec E) (DoCollation i a b) = encode_collation_compare (g_codec E) i a b" by (simp add: call_payload_def)
  show ?thesis
  proof (cases "encode_collation_compare (g_codec E) i a b")
    case (Inl e)
    with k pl show ?thesis by (simp add: one_level_def dispatch_collation_def spec_call_def encode_failure_def)
  next
    case (Inr m)
    obtain r0 w' where v: "g_invoke E p ''collation.compare'' m (eh_world h) = (r0, w')" by fastforce
    obtain r where s: "s (eh_world h) = (r, w')" "answered (g_codec E) (DoCollation i a b) r r0"
      using performs_answer [OF p, of m r0 w'] Inr pl v by auto
    have d: "reads (g_codec E) (DoCollation i a b) (decode_i32 (g_codec E)) RInt"
      by (rule reads_int [OF C]) (simp add: expects_reply_def)
    have "map_sum id (\<lambda>x. Inr (RInt x)) (sbind (map_error (InvokeFailed ''collation.compare'') r0)
        (\<lambda>bs. map_error (DecodeFailed ''collation result'') (decode_i32 (g_codec E) bs))) = call_outcome (DoCollation i a b) r"
      using s(2) d by (cases r) (fastforce simp: answered_def reads_def map_error_def call_outcome_def one_level_call_def)+
    with Inr v s k pl show ?thesis by (simp add: one_level_def dispatch_collation_def spec_call_def)
  qed
qed

lemma authorize_refines:
  assumes h: "resident_provider_handle ext h = Some p" and p: "performs E p (DoAuthorize a x y d t) s (eh_world h)" and C: "codec_ok (g_codec E)"
  shows "dispatch_call E X ext (DoAuthorize a x y d t) h = spec_call E (DoAuthorize a x y d t) s h"
proof -
  let ?c = "DoAuthorize a x y d t"
  let ?dec = "\<lambda>b. sbind (decode_string (g_codec E) b) (\<lambda>s. Inr (auth_result_from_name s))"
  have rd: "reads (g_codec E) ?c ?dec RAuth" by (rule reads_auth [OF C]) (simp add: expects_reply_def)
  have "dispatch_call E X ext ?c h = one_level RAuth (or_not_loaded ext (provider_plain E ext (call_method ?c) (call_payload (g_codec E) ?c) ''authorize result'' ?dec)) h"
    using resident_mapped.answers h
    by (simp add: one_level_def dispatch_authorize_def or_not_loaded_def provider_plain_def resident_invoke [OF h] call_payload_def
        split: sum.splits prod.splits)
  also have "\<dots> = spec_call E ?c s h"
    by (rule one_level_refines [OF h p rd]) (simp_all add: call_outcome_def one_level_call_def encode_failure_def)
  finally show ?thesis .
qed

text \<open>The other calls have one of the shapes, once the bridges are out of the way.\<close>

definition aggregate_call :: "ext_call \<Rightarrow> bool" where
  "aggregate_call c = (case c of DoStep _ _ _ \<Rightarrow> True | DoFinalize _ _ \<Rightarrow> True | DoValue _ _ \<Rightarrow> True | DoInverse _ _ _ \<Rightarrow> True | _ \<Rightarrow> False)"

definition direct_call :: "ext_call \<Rightarrow> bool" where
  "direct_call c = (case c of DoScalar _ _ \<Rightarrow> True | DoCollation _ _ _ \<Rightarrow> True | _ \<Rightarrow> False)"

lemmas call_kinds = expects_reply_def one_level_call_def aggregate_call_def direct_call_def

lemmas call_shape_defs = two_level_def one_level_def or_not_loaded_def no_instance_tier no_writer_tier call_payload_def best_index_request_def

lemma outcome_two_level: "\<not> one_level_call c \<Longrightarrow> \<not> direct_call c \<Longrightarrow> call_outcome c (Inl e) = Inr (Inl e)"
  by (cases c) (simp_all add: call_outcome_def direct_call_def)

lemma outcome_one_level: "one_level_call c \<Longrightarrow> call_outcome c (Inl e) = Inl (InvokeFailed (call_method c) e)"
  by (simp add: call_outcome_def)

lemma encode_failure_extension:
  "\<not> aggregate_call c \<Longrightarrow> \<not> direct_call c \<Longrightarrow>
     encode_failure c e = call_outcome c (Inl (''encode '' @ call_method c @ '': '' @ e))"
  by (cases c) (simp_all add: encode_failure_def aggregate_call_def direct_call_def)

lemma unit_shape:
  assumes "\<not> bridged ext h" "\<not> writable ext h" "expects_reply c RUnit" "\<not> one_level_call c" "\<not> aggregate_call c"
  shows "dispatch_call E X ext c h =
    two_level (\<lambda>_. RUnit) (or_not_loaded ext (provider_tier E ext (call_method c) (call_payload (g_codec E) c) (\<lambda>_. Inr ()))) h"
  using assms by (cases c; simp add: call_kinds; simp only: dispatch_defs attempt_defs; simp add: call_shape_defs)

lemma value_shape:
  assumes "\<not> bridged ext h" "\<not> writable ext h" "expects_reply c (RValue v)" "\<not> aggregate_call c" "\<not> direct_call c"
  shows "dispatch_call E X ext c h =
    two_level RValue (or_not_loaded ext (provider_tier E ext (call_method c) (call_payload (g_codec E) c) (decode_as ''column'' (decode_sql_value (g_codec E))))) h"
  using assms by (cases c; simp add: call_kinds; simp only: dispatch_defs attempt_defs; simp add: call_shape_defs)

lemma aggregate_shape:
  assumes "aggregate_call c"
  shows "dispatch_call E X ext c h =
    (if expects_reply c RUnit
     then two_level (\<lambda>_. RUnit) (or_not_loaded ext (try_provider_aggregate E ext (call_method c) (call_payload (g_codec E) c) (\<lambda>_. Inr ()))) h
     else two_level RValue (or_not_loaded ext (try_provider_aggregate E ext (call_method c) (call_payload (g_codec E) c)
       (\<lambda>b. map_error (\<lambda>e. ''decode '' @ call_method c @ '' result: '' @ e) (decode_sql_value (g_codec E) b)))) h)"
  using assms by (cases c; simp add: call_kinds; simp only: dispatch_defs attempt_defs; simp add: call_shape_defs)

lemma text_shape:
  assumes "\<not> bridged ext h" "\<not> writable ext h" "expects_reply c (RText s)"
  shows "dispatch_call E X ext c h =
    two_level RText (or_not_loaded ext (provider_tier E ext (call_method c) (call_payload (g_codec E) c) (decode_string (g_codec E)))) h"
  using assms by (cases c; simp add: call_kinds; simp only: dispatch_defs attempt_defs; simp add: call_shape_defs)

lemma plan_shape:
  assumes "\<not> bridged ext h" "\<not> writable ext h" "expects_reply c (RPlan q)"
  shows "dispatch_call E X ext c h =
    two_level RPlan (or_not_loaded ext (provider_tier E ext (call_method c) (call_payload (g_codec E) c)
      (decode_as ''index plan'' (decode_vtab_index_plan (g_codec E))))) h"
  using assms by (cases c; simp add: call_kinds; simp only: dispatch_defs attempt_defs; simp add: call_shape_defs)

lemma rows_shape:
  assumes "\<not> bridged ext h" "\<not> writable ext h" "expects_reply c (RRows rows)"
  shows "dispatch_call E X ext c h =
    two_level RRows (or_not_loaded ext (provider_tier E ext (call_method c) (call_payload (g_codec E) c)
      (decode_as ''fetch-batch'' (decode_vtab_rows (g_codec E))))) h"
  using assms by (cases c; simp add: call_kinds; simp only: dispatch_defs attempt_defs; simp add: call_shape_defs)

lemma rowid_shape:
  assumes "\<not> bridged ext h" "\<not> writable ext h" "expects_reply c (RRowid i)"
  shows "\<exists>what. dispatch_call E X ext c h =
    two_level RRowid (or_not_loaded ext (provider_tier E ext (call_method c) (call_payload (g_codec E) c)
      (decode_as what (decode_i64 (g_codec E))))) h"
  by (rule exI [of _ "case c of DoRowid _ _ \<Rightarrow> ''rowid'' | _ \<Rightarrow> ''xUpdate rowid''"])
    (use assms in \<open>cases c; simp add: call_kinds; simp only: dispatch_defs attempt_defs; simp add: call_shape_defs\<close>)

lemma flag_shape:
  assumes "\<not> bridged ext h" "\<not> writable ext h" "expects_reply c (RFlag b)"
  shows "\<exists>what. dispatch_call E X ext c h =
    one_level RFlag (or_not_loaded ext (provider_plain E ext (call_method c) (call_payload (g_codec E) c) what (decode_bool (g_codec E)))) h"
  by (rule exI [of _ "case c of DoEof _ _ \<Rightarrow> ''eof'' | DoOnCommit \<Rightarrow> ''on-commit'' | _ \<Rightarrow> ''is-shadow-name''"])
    (use assms in \<open>cases c; simp add: call_kinds; simp only: dispatch_defs attempt_defs; simp add: call_shape_defs\<close>)

lemma hook_shape:
  assumes "expects_reply c RUnit" "one_level_call c"
  shows "dispatch_call E X ext c h =
    one_level (\<lambda>_. RUnit) (or_not_loaded ext (provider_plain E ext (call_method c) (call_payload (g_codec E) c) (call_method c) (\<lambda>_. Inr ()))) h"
  using assms by (cases c; simp add: call_kinds; simp only: dispatch_defs attempt_defs; simp add: call_shape_defs)

lemma int_shape:
  assumes "expects_reply c (RInt i)" "\<not> direct_call c"
  shows "dispatch_call E X ext c h =
    one_level RInt (or_not_loaded ext (provider_plain E ext (call_method c) (call_payload (g_codec E) c) ''wal hook'' (decode_i32 (g_codec E)))) h"
  using assms by (cases c; simp add: call_kinds; simp only: dispatch_defs attempt_defs; simp add: call_shape_defs)

lemma expected_kind: "\<exists>rep. expects_reply c rep"
  by (cases c) (simp_all add: expects_reply_def, blast+)

lemma same_kind:
  "expects_reply c RUnit \<Longrightarrow> expects_reply c x \<Longrightarrow> x = RUnit"
  "expects_reply c (RValue v) \<Longrightarrow> expects_reply c x \<Longrightarrow> \<exists>v. x = RValue v"
  "expects_reply c (RText s) \<Longrightarrow> expects_reply c x \<Longrightarrow> \<exists>s. x = RText s"
  "expects_reply c (RPlan q) \<Longrightarrow> expects_reply c x \<Longrightarrow> \<exists>q. x = RPlan q"
  "expects_reply c (RRows rs) \<Longrightarrow> expects_reply c x \<Longrightarrow> \<exists>rs. x = RRows rs"
  "expects_reply c (RFlag b) \<Longrightarrow> expects_reply c x \<Longrightarrow> \<exists>b. x = RFlag b"
  "expects_reply c (RRowid i) \<Longrightarrow> expects_reply c x \<Longrightarrow> \<exists>i. x = RRowid i"
  "expects_reply c (RInt j) \<Longrightarrow> expects_reply c x \<Longrightarrow> \<exists>j. x = RInt j"
  by (cases c; simp add: expects_reply_def)+

lemma level_of_kind:
  "expects_reply c (RValue v) \<Longrightarrow> \<not> one_level_call c"
  "expects_reply c (RText s) \<Longrightarrow> \<not> one_level_call c"
  "expects_reply c (RPlan q) \<Longrightarrow> \<not> one_level_call c"
  "expects_reply c (RRows rs) \<Longrightarrow> \<not> one_level_call c"
  "expects_reply c (RRowid i) \<Longrightarrow> \<not> one_level_call c"
  "expects_reply c (RFlag b) \<Longrightarrow> one_level_call c"
  "expects_reply c (RInt j) \<Longrightarrow> one_level_call c"
  "expects_reply c (RAuth a) \<Longrightarrow> one_level_call c"
  by (cases c; simp add: call_kinds)+

lemma aggregate_kinds:
  assumes "aggregate_call c"
  shows "\<not> one_level_call c \<and> \<not> direct_call c \<and> encode_failure c e = Inl (EncodeFailed (call_method c) e)"
    "\<not> expects_reply c RUnit \<Longrightarrow> expects_reply c x \<Longrightarrow> \<exists>v. x = RValue v"
  using assms by (cases c; simp add: call_kinds encode_failure_def)+

lemma aggregate_call_refines:
  assumes h: "resident_provider_handle ext h = Some p" and p: "performs E p c s (eh_world h)" and C: "codec_ok (g_codec E)" and c: "aggregate_call c"
  shows "dispatch_call E X ext c h = spec_call E c s h"
proof (cases "expects_reply c RUnit")
  case True
  have "reads (g_codec E) c (\<lambda>_. Inr ()) (\<lambda>_. RUnit)" using same_kind(1) [OF True] by (rule reads_unit)
  from aggregate_refines [OF h p this] aggregate_kinds(1) [OF c] show ?thesis
    by (simp add: aggregate_shape [OF c] True outcome_two_level)
next
  case False
  note d = reads_named [OF reads_value [OF C aggregate_kinds(2) [OF c False]], where g = "\<lambda>_ e. ''decode '' @ call_method c @ '' result: '' @ e"]
  from aggregate_refines [OF h p d] aggregate_kinds(1) [OF c] False show ?thesis
    by (simp add: aggregate_shape [OF c] outcome_two_level)
qed

lemma two_level_call_refines:
  assumes b: "\<not> bridged ext h" "\<not> writable ext h" and h: "resident_provider_handle ext h = Some p"
    and p: "performs E p c s (eh_world h)" and C: "codec_ok (g_codec E)"
    and c: "\<not> aggregate_call c" "\<not> direct_call c" "\<not> one_level_call c"
  shows "dispatch_call E X ext c h = spec_call E c s h"
proof -
  have o: "call_outcome c (Inl e) = Inr (Inl e)" "encode_failure c e = Inr (Inl (''encode '' @ call_method c @ '': '' @ e))" for e
    using c by (simp_all add: outcome_two_level encode_failure_extension)
  note two = two_level_refines [OF h p _ o]
  obtain rep where rep: "expects_reply c rep" using expected_kind by blast
  show ?thesis
  proof (cases rep)
    case RUnit
    note k = rep [unfolded RUnit]
    show ?thesis using two [OF reads_unit [OF same_kind(1) [OF k]]] by (simp only: unit_shape [OF b k c(3,1)])
  next
    case (RValue v)
    note k = rep [unfolded RValue]
    show ?thesis using two [OF reads_named [OF reads_value [OF C same_kind(2) [OF k]]]] by (simp only: value_shape [OF b k c(1,2)])
  next
    case (RText t)
    note k = rep [unfolded RText]
    show ?thesis using two [OF reads_text [OF C same_kind(3) [OF k]]] by (simp only: text_shape [OF b k])
  next
    case (RPlan q)
    note k = rep [unfolded RPlan]
    show ?thesis using two [OF reads_named [OF reads_plan [OF C same_kind(4) [OF k]]]] by (simp only: plan_shape [OF b k])
  next
    case (RRows rs)
    note k = rep [unfolded RRows]
    show ?thesis using two [OF reads_named [OF reads_rows [OF C same_kind(5) [OF k]]]] by (simp only: rows_shape [OF b k])
  next
    case (RRowid i)
    note k = rep [unfolded RRowid]
    from rowid_shape [OF b k] obtain what where w: "dispatch_call E X ext c h = two_level RRowid (or_not_loaded ext
      (provider_tier E ext (call_method c) (call_payload (g_codec E) c) (decode_as what (decode_i64 (g_codec E))))) h" ..
    show ?thesis using two [OF reads_named [OF reads_rowid [OF C same_kind(7) [OF k]]]] by (simp only: w)
  qed (use rep c(3) level_of_kind in blast)+
qed

lemma one_level_call_refines:
  assumes b: "\<not> bridged ext h" "\<not> writable ext h" and h: "resident_provider_handle ext h = Some p"
    and p: "performs E p c s (eh_world h)" and C: "codec_ok (g_codec E)"
    and c: "\<not> aggregate_call c" "\<not> direct_call c" "one_level_call c"
  shows "dispatch_call E X ext c h = spec_call E c s h"
proof -
  have o: "call_outcome c (Inl e) = Inl (InvokeFailed (call_method c) e)"
    "encode_failure c e = Inl (InvokeFailed (call_method c) (''encode '' @ call_method c @ '': '' @ e))" for e
    using c by (simp_all add: outcome_one_level encode_failure_extension)
  note one = one_level_refines [OF h p _ o]
  obtain rep where rep: "expects_reply c rep" using expected_kind by blast
  show ?thesis
  proof (cases rep)
    case RUnit
    note k = rep [unfolded RUnit]
    show ?thesis using one [OF reads_unit [OF same_kind(1) [OF k]]] by (simp only: hook_shape [OF k c(3)])
  next
    case (RFlag t)
    note k = rep [unfolded RFlag]
    from flag_shape [OF b k] obtain what where w: "dispatch_call E X ext c h = one_level RFlag (or_not_loaded ext
      (provider_plain E ext (call_method c) (call_payload (g_codec E) c) what (decode_bool (g_codec E)))) h" ..
    show ?thesis using one [OF reads_flag [OF C same_kind(6) [OF k]]] by (simp only: w)
  next
    case (RInt j)
    note k = rep [unfolded RInt]
    show ?thesis using one [OF reads_int [OF C same_kind(8) [OF k]]] by (simp only: int_shape [OF k c(2)])
  next
    case (RAuth a)
    with rep authorize_refines [OF h _ C] p show ?thesis by (cases c) (simp_all add: expects_reply_def)
  qed (use rep c(3) level_of_kind in blast)+
qed

text \<open>One call through a resident provider.\<close>

lemma call_refines:
  assumes b: "\<not> bridged ext h" "\<not> writable ext h" and h: "resident_provider_handle ext h = Some p"
    and p: "performs E p c s (eh_world h)" and C: "codec_ok (g_codec E)"
  shows "dispatch_call E X ext c h = spec_call E c s h"
proof -
  consider "aggregate_call c" | "direct_call c" | "\<not> aggregate_call c" "\<not> direct_call c" by blast
  then show ?thesis
  proof cases
    case 1
    with aggregate_call_refines [OF h p C] show ?thesis by blast
  next
    case 2
    with scalar_refines [OF h b(1) _ C] collation_refines [OF h _ C] p show ?thesis by (cases c) (simp_all add: direct_call_def)
  next
    case 3
    with one_level_call_refines [OF assms] two_level_call_refines [OF assms] show ?thesis by blast
  qed
qed

section \<open>Sequences of calls\<close>

fun dispatch_calls :: "('g, 'w, 'c) guest_env \<Rightarrow> 'g guest_api \<Rightarrow> string \<Rightarrow> ext_call list \<Rightarrow> ('g, 'w, 'c) ext_host \<Rightarrow>
    (dispatch_error + (string + reply)) list \<times> ('g, 'w, 'c) ext_host" where
  "dispatch_calls E X ext [] h = ([], h)"
| "dispatch_calls E X ext (c # cs) h =
     (case dispatch_call E X ext c h of (r, h1) \<Rightarrow> (case dispatch_calls E X ext cs h1 of (rs, h2) \<Rightarrow> (r # rs, h2)))"

text \<open>The same calls on the extension itself: each is its operation on its store, one after the other.\<close>

fun spec_calls :: "bytes codec \<Rightarrow> (ext_call \<Rightarrow> (string, 'w, reply) op) \<Rightarrow> ext_call list \<Rightarrow> 'w \<Rightarrow>
    (dispatch_error + (string + reply)) list \<times> 'w" where
  "spec_calls C S [] w = ([], w)"
| "spec_calls C S (c # cs) w =
     (case call_payload C c of
        Inl e \<Rightarrow> (case spec_calls C S cs w of (rs, w') \<Rightarrow> (encode_failure c e # rs, w'))
      | Inr _ \<Rightarrow> (case S c w of (r, w1) \<Rightarrow> (case spec_calls C S cs w1 of (rs, w') \<Rightarrow> (call_outcome c r # rs, w'))))"

definition plain_call :: "ext_call \<Rightarrow> bool" where
  "plain_call c \<longleftrightarrow> list_all (\<lambda>v. \<not> nan_value v) (case call_request c of Some r \<Rightarrow> request_args r | None \<Rightarrow> [])"

lemma resident_handle_world [simp]: "resident_provider_handle ext (h\<lparr>eh_world := w\<rparr>) = resident_provider_handle ext h"
  by (simp add: resident_provider_handle_def backing_provider_def split: option.splits)

lemma speaks_performs: "speaks (g_codec E) (g_invoke E p) S \<Longrightarrow> plain_call c \<Longrightarrow> performs E p c (S c) w"
  by (simp add: speaks_def performs_def plain_call_def)


text \<open>A provider with one function, that counts its calls.\<close>

definition two_messages :: "cbor \<Rightarrow> cbor \<Rightarrow> bytes codec" where
  "two_messages a b = \<lparr>ser = (\<lambda>v. if v = a then Inr [1] else if v = b then Inr [2] else Inl ''unsupported''),
     deser = (\<lambda>bs. if bs = [1] then Inr a else if bs = [2] then Inr b else Inl ''eof'')\<rparr>"

definition double_codec :: "bytes codec" where
  "double_codec = two_messages (request_tree (Call 1 [SqlInteger 2])) (sqlval_to_cbor (SqlInteger 4))"

definition double_ask :: "string \<Rightarrow> bytes \<Rightarrow> (string, nat, bytes) op" where
  "double_ask meth b w = (if meth = ''call'' \<and> b = [1] then (Inr [2], Suc w) else (Inl ''unknown'', w))"

definition double_spec :: "ext_call \<Rightarrow> (string, nat, reply) op" where
  "double_spec c w = (if call_method c = ''call'' \<and> call_payload double_codec c = Inr [1] then (Inr (RValue (SqlInteger 4)), Suc w) else (Inl ''unknown'', w))"

definition double_host :: "(nat, nat, bytes) ext_host" where
  "double_host = register_compose_provider (ext_provider_id ''double'')
     (ResidentWasmComponent [7] ''b.wasm'' 0 \<lparr>rg_db_path = [], rg_http = None, rg_dns = None, rg_s3 = False, rg_spawn_build = False\<rparr>)
     (toy_host\<lparr>eh_backed := [(''double'', backing_of ''double'' (expected_manifest uuid_desc) True)]\<rparr>)"

lemma double_speaks: "speaks double_codec double_ask double_spec"
proof -
  have "expects_reply c (RValue v)" if "call_method c = ''call''" for c v
    using that by (cases c) (simp_all add: expects_reply_def)
  then show ?thesis
    by (auto simp: speaks_def answered_def sent_def double_ask_def double_spec_def carried_def plain_value_def nan_value_def
        double_codec_def two_messages_def request_tree_simps encode_defs cbor_map_def tagged_def)
qed


end
