(* ===== verification/Extension_Lifecycle.thy ===== *)
theory Extension_Lifecycle
  imports Extension_Calls
begin

text \<open>
  The life of the extensions of a host: the steps that change it, the states they reach, and what holds in all of
  them. Each loaded extension is backed by its provider; a call stays inside its extension; unloading leaves nothing
  to call.
\<close>

section \<open>What the other operations leave alone\<close>

lemma host_inv_confined: "host_inv h \<Longrightarrow> confined ext h h' \<Longrightarrow> host_inv h'"
proof -
  assume inv: "host_inv h" and c: "confined ext h h'"
  have "eh_providers h' = eh_providers h" "eh_backed h' = eh_backed h" "eh_manifests h' = eh_manifests h"
    using confined_same [OF c] by (simp_all add: same_registries_def)
  moreover have "map_of (eh_bridges h') n \<noteq> None \<longleftrightarrow> map_of (eh_bridges h) n \<noteq> None" "map_of (eh_mutating h') n \<noteq> None \<longleftrightarrow> map_of (eh_mutating h) n \<noteq> None" for n
    using c by (auto simp: confined_def dom_def)
  ultimately show "host_inv h'" using inv by (simp add: host_inv_def backing_ok_def)
qed

lemma same_new_resident_from_bytes: "new_resident_from_bytes E err g b label h = (r, h') \<Longrightarrow> same_registries h h'"
  using new_resident_from_bytes_cases by blast

lemma same_bnd:
  assumes "bnd m k h = (r, h')" "\<And>x h1. m h = (x, h1) \<Longrightarrow> same_registries h h1"
    "\<And>x h1 r h'. k x h1 = (r, h') \<Longrightarrow> same_registries h1 h'"
  shows "same_registries h h'"
  using assms by (auto simp: bnd_def split: prod.splits sum.splits intro: same_trans)

lemma same_query: "query q h = (r, h') \<Longrightarrow> same_registries h h'"
  by simp

lemma same_ret: "ret x h = (r, h') \<Longrightarrow> same_registries h h'"
  by simp

lemma same_describe_full:
  "describe_extension_from_bytes_full E b hint h = (r, h') \<Longrightarrow> same_registries h h'"
  unfolding describe_extension_from_bytes_full_def Let_def
  by (elim same_bnd same_in_loader same_query same_describe_provider same_new_resident_from_bytes same_ret)

lemma same_runtime_execute: "dispatch_runtime_execute E rt n src vars h = (r, h') \<Longrightarrow> same_registries h h'"
  unfolding dispatch_runtime_execute_def by (cases rt) (auto elim!: same_bnd same_in_world)

lemma same_invoke_runtime: "invoke_runtime E ext v n src vars h = (r, h') \<Longrightarrow> same_registries h h'"
  unfolding invoke_runtime_def by (elim same_bnd same_query same_runtime_execute)

lemma same_run_wasm: "run_wasm_as E path tenant h = (r, h') \<Longrightarrow> same_registries h h'"
  unfolding run_wasm_as_def by (elim same_bnd same_query same_in_world)

lemma host_inv_runtimes: "host_inv h \<Longrightarrow> host_inv (h\<lparr>eh_runtimes := rs\<rparr>)"
  by (simp add: host_inv_def backing_ok_def)

lemma host_inv_register_runtime: "host_inv h \<Longrightarrow> register_runtime E ext flavor path policy h = (r, h') \<Longrightarrow> host_inv h'"
  by (auto simp: register_runtime_def bnd_def host_inv_runtimes split: sum.splits prod.splits)

lemma host_inv_unregister_runtime: "host_inv h \<Longrightarrow> unregister_runtime ext flavor h = (r, h') \<Longrightarrow> host_inv h'"
  by (auto simp: unregister_runtime_def host_inv_runtimes split: if_splits)

lemma dot_command_world:
  "dispatch_dot_command E sf name args st h = (r, h') \<Longrightarrow> \<exists>w. h' = h\<lparr>eh_world := w\<rparr>"
  by (auto simp: dispatch_dot_command_def Let_def split: option.splits prod.splits sum.splits intro: exI [of _ "eh_world h"])

lemma host_inv_parsers: "host_inv h \<Longrightarrow> try_parsers E X stmt cs h = (r, h') \<Longrightarrow> host_inv h'"
proof (induction E X stmt cs arbitrary: h rule: try_parsers.induct)
  case (2 E X stmt ext i rest)
  obtain x h1 where d: "dispatch_scalar E X ext i [SqlText stmt] h = (x, h1)" by fastforce
  have "confined ext h h1" using dispatch_call_confined [of E X ext "DoScalar i [SqlText stmt]" h] d by (simp add: two_level_def)
  with "2.prems"(1) have "host_inv h1" using host_inv_confined by blast
  with "2.IH" "2.prems"(2) d show ?case by (auto simp: bnd_def split: sum.splits sqlvalue.splits if_splits)
qed simp


section \<open>Reachable states\<close>

text \<open>A host starts without extensions. An embedder registers providers under ids of its own, which are not those
  the host uses for extensions.\<close>

definition foreign_id :: "string \<Rightarrow> string \<Rightarrow> bool" where
  "foreign_id tenant ident \<longleftrightarrow> tenant \<noteq> DEFAULT_TENANT \<or> (\<forall>n. ident \<noteq> ext_provider_id n)"

inductive host_step :: "('g, 'w, 'c) guest_env \<Rightarrow> 'g guest_api \<Rightarrow> ('g, 'w, 'c) ext_host \<Rightarrow> ('g, 'w, 'c) ext_host \<Rightarrow> bool" for E X where
  load: "load_extension E policy path h = Some (r, h') \<Longrightarrow> host_step E X h h'"
| load_bytes: "instantiate_provider_from_bytes E hint b spawn h = (r, h') \<Longrightarrow> host_step E X h h'"
| load_provider: "load_extension_as_provider E name p h = (r, h') \<Longrightarrow> host_step E X h h'"
| describe: "describe_extension_from_bytes_full E b hint h = (r, h') \<Longrightarrow> host_step E X h h'"
| register: "foreign_id tenant ident \<Longrightarrow> host_step E X h (h\<lparr>eh_providers := register_compose_provider_in tenant ident p (eh_providers h)\<rparr>)"
| unloading: "unload name h = (r, h') \<Longrightarrow> host_step E X h h'"
| call: "dispatch_call E X ext c h = (r, h') \<Longrightarrow> host_step E X h h'"
| dot: "dispatch_dot_command E sf name args st h = (r, h') \<Longrightarrow> host_step E X h h'"
| parsing: "dispatch_parse E X stmt h = (r, h') \<Longrightarrow> host_step E X h h'"
| runtime: "register_runtime E ext flavor path policy h = (r, h') \<Longrightarrow> host_step E X h h'"
| no_runtime: "unregister_runtime ext flavor h = (r, h') \<Longrightarrow> host_step E X h h'"
| run_runtime: "invoke_runtime E ext flavor n src vars h = (r, h') \<Longrightarrow> host_step E X h h'"
| run_component: "run_wasm_as E path tenant h = (r, h') \<Longrightarrow> host_step E X h h'"

inductive host_reach :: "('g, 'w, 'c) guest_env \<Rightarrow> 'g guest_api \<Rightarrow> ('g, 'w, 'c) ext_host \<Rightarrow> bool" for E X where
  start: "eh_backed h = [] \<Longrightarrow> eh_mutating h = [] \<Longrightarrow> host_reach E X h"
| step: "host_reach E X h \<Longrightarrow> host_step E X h h' \<Longrightarrow> host_reach E X h'"

lemma host_inv_register:
  assumes "host_inv h" "foreign_id tenant ident"
  shows "host_inv (h\<lparr>eh_providers := register_compose_provider_in tenant ident p (eh_providers h)\<rparr>)"
  using assms by (auto simp: host_inv_def backing_ok_def foreign_id_def get_compose_provider_def get_registered)

lemma host_inv_step:
  assumes "sub_ids_apart E" "host_inv h" "host_step E X h h'"
  shows "host_inv h'"
  using assms(3)
proof cases
  case load
  with assms show ?thesis by (blast intro: host_inv_load)
next
  case load_bytes
  with assms(2) instantiate_outcome show ?thesis by (blast intro: host_inv_outcome)
next
  case load_provider
  with assms(2) show ?thesis by (blast intro: host_inv_as_provider)
next
  case describe
  with assms(2) show ?thesis by (blast intro: host_inv_same same_describe_full)
next
  case register
  with assms(2) host_inv_register show ?thesis by blast
next
  case unloading
  with assms(2) show ?thesis by (blast intro: host_inv_unload)
next
  case call
  with assms(2) show ?thesis by (blast intro: host_inv_confined dispatch_call_confined)
next
  case dot
  with dot_command_world assms(2) host_inv_confined confined_world show ?thesis by metis
next
  case parsing
  with assms(2) show ?thesis unfolding dispatch_parse_def by (blast intro: host_inv_parsers)
next
  case runtime
  with assms(2) show ?thesis by (blast intro: host_inv_register_runtime)
next
  case no_runtime
  with assms(2) show ?thesis by (blast intro: host_inv_unregister_runtime)
next
  case run_runtime
  with assms(2) show ?thesis by (blast intro: host_inv_same same_invoke_runtime)
next
  case run_component
  with assms(2) show ?thesis by (blast intro: host_inv_same same_run_wasm)
qed

lemma host_inv_start: "eh_backed h = [] \<Longrightarrow> eh_mutating h = [] \<Longrightarrow> host_inv h"
  by (simp add: host_inv_def)

lemma host_inv_reach:
  assumes "sub_ids_apart E" "host_reach E X h"
  shows "host_inv h"
  using assms(2) by induction (auto intro: host_inv_start host_inv_step [OF assms(1)])

section \<open>Properties\<close>

lemma scalar_not_vanished:
  assumes "map_of (eh_backed h) name = Some b" "backing_provider (pb_provider_id b) h \<noteq> None"
  shows "fst (dispatch_scalar E X name f args h) \<noteq> Inl (ProviderVanished i n)"
  using assms by (auto simp: dispatch_scalar_def or_not_loaded_def or_else_def try_bridge_scalar_def on_bridge_def call_export_def fuelled_def
      try_provider_scalar_def split: prod.splits option.splits sum.splits)

lemma find_map_Some: "find_map f xs = Some y \<Longrightarrow> \<exists>x\<in>set xs. f x = Some y"
  by (induction xs) (auto split: option.splits)

lemma dot_not_vanished:
  assumes "host_inv h"
  shows "fst (dispatch_dot_command E sf cmd args st h) \<noteq> Inl (ProviderVanished i n)"
proof (cases "find_map (\<lambda>(_, b). map_option (\<lambda>i. (pb_provider_id b, i)) (pb_dotcmds b cmd)) (eh_backed h)")
  case (Some y)
  then obtain name b where "(name, b) \<in> set (eh_backed h)" and y: "fst y = pb_provider_id b" by (fastforce dest: find_map_Some)
  with assms have "backing_ok h name b" by (simp add: host_inv_def)
  with y have "backing_provider (fst y) h \<noteq> None" by (auto simp: backing_ok_def backing_provider_def)
  with Some show ?thesis
    by (cases y) (auto simp: dispatch_dot_command_def Let_def map_error_def sbind_def split: option.splits prod.splits sum.splits)
qed (simp add: dispatch_dot_command_def)

text \<open>C11. In every state a host reaches by loading, unloading, calling, parsing, running and registering providers
  under other ids, each loaded extension has its provider under its own id and its manifest, the provider is resident
  exactly if the entry says so, and resident it is if the extension has virtual tables, hooks or aggregates, whose
  state must outlive a call. So no function call and no dot command ever finds its provider gone.\<close>

theorem loaded_extensions_backed:
  assumes "sub_ids_apart E" "host_reach E X h" "map_of (eh_backed h) name = Some b"
  shows "pb_provider_id b = ext_provider_id name \<and> map_of (eh_manifests h) name \<noteq> None \<and>
    (\<exists>p. get_compose_provider (ext_provider_id name) (eh_providers h) = Some p \<and> is_resident p = pb_resident b) \<and>
    (stateful b \<longrightarrow> pb_resident b) \<and>
    fst (dispatch_scalar E X name f args h) \<noteq> Inl (ProviderVanished i n) \<and>
    fst (dispatch_dot_command E sf cmd line st h) \<noteq> Inl (ProviderVanished i n)"
proof -
  note inv = host_inv_reach [OF assms(1,2)]
  with assms(3) have ok: "backing_ok h name b" by (simp add: host_inv_def)
  then have "backing_provider (pb_provider_id b) h \<noteq> None" by (auto simp: backing_ok_def backing_provider_def)
  with scalar_not_vanished [OF assms(3)] dot_not_vanished [OF inv] ok show ?thesis by (simp add: backing_ok_def)
qed

lemma uuid_env_apart: "sub_ids_apart (toy_env C ask)"
  by (simp add: sub_ids_apart_def)

theorem loaded_extensions_backed_witness:
  "\<forall>X :: nat guest_api. \<exists>h b. host_reach uuid_env X h \<and> map_of (eh_backed h) ''uuid'' = Some b \<and>
     pb_provider_id b = ''ext:uuid'' \<and> map_of (eh_manifests h) ''uuid'' \<noteq> None \<and>
     (\<exists>p. get_compose_provider ''ext:uuid'' (eh_providers h) = Some p)"
proof
  fix X :: "nat guest_api"
  from toy_load [OF _ uuid_manifest, of "\<lambda>_ _ w. (Inr [1], Suc w)" Suc "no_grants True" toy_host] obtain h b where
    l: "load_extension uuid_env (no_grants True) ''b.wasm'' toy_host = Some (Inr ''uuid'', h)" and b: "map_of (eh_backed h) ''uuid'' = Some b"
    by (auto simp: uuid_name is_loaded_def)
  have "host_reach uuid_env X toy_host" by (rule start) (simp_all add: toy_host_def)
  then have r: "host_reach uuid_env X h" using load [OF l] by (rule step)
  from loaded_extensions_backed [OF uuid_env_apart r b] have "pb_provider_id b = ''ext:uuid''" "map_of (eh_manifests h) ''uuid'' \<noteq> None"
    "\<exists>p. get_compose_provider ''ext:uuid'' (eh_providers h) = Some p" unfolding ext_provider_id_def append.simps by blast+
  with r b show "\<exists>h b. host_reach uuid_env X h \<and> map_of (eh_backed h) ''uuid'' = Some b \<and>
     pb_provider_id b = ''ext:uuid'' \<and> map_of (eh_manifests h) ''uuid'' \<noteq> None \<and> (\<exists>p. get_compose_provider ''ext:uuid'' (eh_providers h) = Some p)"
    by blast
qed

section \<open>Unloading\<close>

lemma unloaded_away:
  assumes "\<not> bridged ext h" "\<not> writable ext h" "\<not> is_loaded ext h"
  shows "dispatch_call E X ext c h =
    (case c of DoAuthorize _ _ _ _ _ \<Rightarrow> Inr (Inr (RAuth AuthOk)) | _ \<Rightarrow> Inl (ExtNotLoaded ext), h)"
proof -
  have r: "\<not> resident ext h" using assms(3) by (simp add: is_loaded_def resident_provider_handle_def)
  have "dispatch_authorize E ext a x y d t h = (Inr AuthOk, h)" for a x y d t
    by (simp add: dispatch_authorize_def provider_plain_def resident_mapped.away [OF r])
  moreover have "dispatch_collation E ext i a b h = (Inl (ExtNotLoaded ext), h)" for i a b
    using assms(3) by (simp add: dispatch_collation_def is_loaded_def)
  ultimately show ?thesis using assms r
    by (cases c; hypsubst; simp only: dispatch_call.simps dispatch_defs attempt_defs two_level_def one_level_def served_away_rules simp_thms)
      simp_all
qed

text \<open>C14. Unloading is complete and precise: it succeeds exactly for a loaded extension; then the extension has no
  entry, no manifest, no provider and no typed value left, and the codecs of the types it had bound are gone. Nothing
  else changes: the entries, manifests and typed values of every other extension, the codecs of types the unloaded one
  had not bound, every other provider of every tenant, the bridges and the runtimes stay. Unless a bridge of the same
  name is loaded, every further call into the extension reports that it is not loaded and changes nothing, except that
  an authorizer that is gone allows. A refused unload changes nothing.\<close>

theorem unload_complete:
  assumes "unload name h = (r, h')"
  shows "(r = Inr () \<longleftrightarrow> is_loaded name h) \<and> (r \<noteq> Inr () \<longrightarrow> h' = h) \<and>
    (r = Inr () \<longrightarrow>
       \<not> is_loaded name h' \<and> name \<notin> set (list_extensions h') \<and> map_of (eh_manifests h') name = None \<and>
       get_compose_provider (ext_provider_id name) (eh_providers h') = None \<and>
       (\<forall>i b. eh_typed h' i = Some b \<longleftrightarrow> eh_typed h i = Some b \<and> tb_extension_name b \<noteq> name) \<and>
       (\<forall>t. eh_codecs h' t =
          (if \<exists>i b. eh_typed h i = Some b \<and> tb_extension_name b = name \<and> tb_type_id b = t then None else eh_codecs h t)) \<and>
       (\<forall>n. n \<noteq> name \<longrightarrow> map_of (eh_backed h') n = map_of (eh_backed h) n \<and> map_of (eh_manifests h') n = map_of (eh_manifests h) n) \<and>
       trust (eh_providers h') = trust (eh_providers h) \<and>
       (\<forall>t i. (t, i) \<noteq> (DEFAULT_TENANT, ext_provider_id name) \<longrightarrow>
          get_compose_provider_in t i (eh_providers h') = get_compose_provider_in t i (eh_providers h)) \<and>
       h' = h\<lparr>eh_backed := eh_backed h', eh_manifests := eh_manifests h', eh_providers := eh_providers h', eh_typed := eh_typed h',
         eh_codecs := eh_codecs h'\<rparr> \<and>
       (map_of (eh_bridges h) name = None \<and> map_of (eh_mutating h) name = None \<longrightarrow>
          (\<forall>c. dispatch_call E X name c h' =
             (case c of DoAuthorize _ _ _ _ _ \<Rightarrow> Inr (Inr (RAuth AuthOk)) | _ \<Rightarrow> Inl (ExtNotLoaded name), h'))))"
proof (cases "is_loaded name h")
  case False
  with assms show ?thesis by (auto simp: unload_def is_loaded_def)
next
  case True
  with assms have r: "r = Inr ()" and h': "eh_backed h' = AList.delete name (eh_backed h)" "eh_manifests h' = AList.delete name (eh_manifests h)"
    "eh_providers h' = remove_provider (ext_provider_id name) (eh_providers h)" "eh_typed h' = tv_remove_extension name (eh_typed h)"
    "eh_codecs h' = drop_codecs name (eh_typed h) (eh_codecs h)" "eh_bridges h' = eh_bridges h" "eh_mutating h' = eh_mutating h"
    and rest: "h' = h\<lparr>eh_backed := eh_backed h', eh_manifests := eh_manifests h', eh_providers := eh_providers h', eh_typed := eh_typed h',
         eh_codecs := eh_codecs h'\<rparr>"
    by (auto simp: unload_def is_loaded_def)
  have gone: "\<not> is_loaded name h'" by (simp add: is_loaded_def h' delete_conv')
  moreover have "name \<notin> set (list_extensions h')" using gone by (simp add: is_loaded_def list_extensions_def map_of_eq_None_iff)
  moreover have "\<forall>i b. eh_typed h' i = Some b \<longleftrightarrow> eh_typed h i = Some b \<and> tb_extension_name b \<noteq> name"
    by (auto simp: h' tv_remove_extension_def split: option.splits if_splits)
  moreover have "\<forall>t. eh_codecs h' t =
      (if \<exists>i b. eh_typed h i = Some b \<and> tb_extension_name b = name \<and> tb_type_id b = t then None else eh_codecs h t)"
    by (auto simp: h' drop_codecs_def tv_snapshot_def ran_def)
  moreover have "trust (eh_providers h') = trust (eh_providers h)" by (simp add: h' remove_provider_def split: option.split)
  moreover have "dispatch_call E X name c h' = (case c of DoAuthorize _ _ _ _ _ \<Rightarrow> Inr (Inr (RAuth AuthOk)) | _ \<Rightarrow> Inl (ExtNotLoaded name), h')"
    if "map_of (eh_bridges h) name = None \<and> map_of (eh_mutating h) name = None" for c
    by (rule unloaded_away) (use that gone h' in simp_all)
  moreover have "map_of (eh_manifests h') name = None" "get_compose_provider (ext_provider_id name) (eh_providers h') = None"
    "\<forall>n. n \<noteq> name \<longrightarrow> map_of (eh_backed h') n = map_of (eh_backed h) n \<and> map_of (eh_manifests h') n = map_of (eh_manifests h) n"
    "\<forall>t i. (t, i) \<noteq> (DEFAULT_TENANT, ext_provider_id name) \<longrightarrow>
       get_compose_provider_in t i (eh_providers h') = get_compose_provider_in t i (eh_providers h)"
    by (auto simp: h' delete_conv' get_compose_provider_def get_removed)
  ultimately show ?thesis using r True rest by blast
qed

text \<open>Two loaded extensions, each with a typed value.\<close>

definition two_loaded :: "(nat, nat, bytes) ext_host" where
  "two_loaded = toy_host
     \<lparr>eh_backed := [(''uuid'', backing_of ''uuid'' (expected_manifest uuid_desc) True), (''geo'', backing_of ''geo'' (expected_manifest uuid_desc) True)],
      eh_typed := [[1] \<mapsto> \<lparr>tb_type_id = [1], tb_symbolic_name = ''uuid'', tb_decoder_import = ''d'', tb_encoder_import = ''e'', tb_extension_name = ''uuid''\<rparr>,
        [2] \<mapsto> \<lparr>tb_type_id = [2], tb_symbolic_name = ''geom'', tb_decoder_import = ''d'', tb_encoder_import = ''e'', tb_extension_name = ''geo''\<rparr>]\<rparr>"

theorem unload_complete_witness:
  "\<forall>X. \<exists>h'. unload ''uuid'' two_loaded = (Inr (), h') \<and> \<not> is_loaded ''uuid'' h' \<and> is_loaded ''geo'' h' \<and>
     eh_typed h' [1] = None \<and> eh_typed h' [2] = eh_typed two_loaded [2] \<and>
     dispatch_call uuid_env X ''uuid'' (DoScalar 1 []) h' = (Inl (ExtNotLoaded ''uuid''), h')"
proof
  fix X
  obtain r h' where u: "unload ''uuid'' two_loaded = (r, h')" by fastforce
  have l: "is_loaded ''uuid'' two_loaded" "is_loaded ''geo'' two_loaded"
    and b: "map_of (eh_bridges two_loaded) ''uuid'' = None \<and> map_of (eh_mutating two_loaded) ''uuid'' = None"
    and ty: "eh_typed two_loaded = [[1] \<mapsto> \<lparr>tb_type_id = [1], tb_symbolic_name = ''uuid'', tb_decoder_import = ''d'', tb_encoder_import = ''e'', tb_extension_name = ''uuid''\<rparr>,
        [2] \<mapsto> \<lparr>tb_type_id = [2], tb_symbolic_name = ''geom'', tb_decoder_import = ''d'', tb_encoder_import = ''e'', tb_extension_name = ''geo''\<rparr>]"
    by (simp_all add: is_loaded_def two_loaded_def toy_host_def)
  note spec = unload_complete [OF u, of uuid_env X]
  from spec l have r: "r = Inr ()" by blast
  with spec b have "dispatch_call uuid_env X ''uuid'' (DoScalar 1 []) h' =
    (case DoScalar 1 [] of DoAuthorize _ _ _ _ _ \<Rightarrow> Inr (Inr (RAuth AuthOk)) | _ \<Rightarrow> Inl (ExtNotLoaded ''uuid''), h')" by blast
  moreover from spec r have "\<not> is_loaded ''uuid'' h'" by blast
  moreover have "\<forall>n. n \<noteq> ''uuid'' \<longrightarrow> map_of (eh_backed h') n = map_of (eh_backed two_loaded) n" using spec r by blast
  then have "map_of (eh_backed h') ''geo'' = map_of (eh_backed two_loaded) ''geo''" by simp
  moreover have typed: "eh_typed h' i = Some k \<longleftrightarrow> eh_typed two_loaded i = Some k \<and> tb_extension_name k \<noteq> ''uuid''" for i k
    using spec r by blast
  have "eh_typed h' [1] = None"
  proof (cases "eh_typed h' [1]")
    case (Some k)
    with typed [of "[1]" k] ty show ?thesis by auto
  qed
  moreover from typed [of "[2]"] ty have "eh_typed h' [2] = eh_typed two_loaded [2]" by simp
  ultimately show "\<exists>h'. unload ''uuid'' two_loaded = (Inr (), h') \<and> \<not> is_loaded ''uuid'' h' \<and> is_loaded ''geo'' h' \<and>
     eh_typed h' [1] = None \<and> eh_typed h' [2] = eh_typed two_loaded [2] \<and>
     dispatch_call uuid_env X ''uuid'' (DoScalar 1 []) h' = (Inl (ExtNotLoaded ''uuid''), h')"
    using u r l(2) by (simp add: is_loaded_def)
qed

text \<open>What unloading does not do. An extension that was loaded as a bridge is not among the loaded ones, so it can be
  neither listed nor unloaded; and a provider registered under the id of an extension takes its place.\<close>

lemma bridge_cannot_be_unloaded:
  assumes "load_bridge E hint b c h = (Inr name, h')" "\<not> is_loaded name h"
  shows "map_of (eh_bridges h') name \<noteq> None \<and> \<not> is_loaded name h' \<and> name \<notin> set (list_extensions h') \<and>
    unload name h' = (Inl (NotLoadedExt name), h')"
proof -
  have "bridged_by name h h'" using load_bridge_cases [OF assms(1)] by simp
  then have "map_of (eh_bridges h') name \<noteq> None" "eh_backed h' = eh_backed h" by (auto simp: bridged_by_def update_conv')
  with assms(2) show ?thesis by (auto simp: is_loaded_def list_extensions_def unload_def map_of_eq_None_iff)
qed

lemma registered_id_takes_over:
  "backing_provider (ext_provider_id name) (register_compose_provider (ext_provider_id name) p h) = Some p"
  by (simp add: backing_provider_def register_compose_provider_def get_compose_provider_def get_registered)

end
