(* ===== verification/Vtab_Trampolines.thy ===== *)
theory Vtab_Trampolines
  imports Extension_Dispatch
begin

text \<open>
  The virtual table callbacks of the host, \<^verbatim>\<open>host/src/vtab.rs\<close>: what SQLite calls, the ids it is given, the rows kept
  for batched tables, and the dispatch into the extension.

  A pointer to a table or a cursor object stands for the id stored in it; a null C string is \<open>None\<close>. What a callback
  writes through its out parameters (a new object, a rowid, a message, a result) is part of its result.
  Allocation does not fail. \<open>sqlite3_declare_vtab\<close> and the text of an error are arguments.
\<close>

section \<open>State\<close>

record module_aux =
  ma_ext_name :: string
  ma_vtab_id :: u64
  ma_eponymous :: bool
  ma_batched :: bool

record instance_meta =
  im_ext_name :: string
  im_vtab_id :: u64
  im_batched :: bool

record cursor_meta =
  cm_ext_name :: string
  cm_vtab_id :: u64
  cm_batched :: bool

type_synonym batch_row = "i64 \<times> sqlvalue list"

record batch_cache =
  bc_rows :: "batch_row list"
  bc_idx :: nat
  bc_eof_seen :: bool

definition default_cache :: batch_cache where
  "default_cache = \<lparr>bc_rows = [], bc_idx = 0, bc_eof_seen = False\<rparr>"

definition BATCH_SIZE :: u32 where
  "BATCH_SIZE = 64"

record ('g, 'w, 'c) vtab_state =
  vt_host :: "('g, 'w, 'c) ext_host"
  vt_instances :: "u64 \<rightharpoonup> instance_meta"
  vt_cursors :: "u64 \<rightharpoonup> cursor_meta"
  vt_next_instance :: u64
  vt_next_cursor :: u64
  vt_batches :: "u64 \<rightharpoonup> batch_cache"
  vt_shadow_owner :: "(string \<times> u64) option"

record ('g, 'w, 'c) vtab_env =
  ve_env :: "('g, 'w, 'c) guest_env"
  ve_api :: "'g guest_api"
  ve_show :: "dispatch_error \<Rightarrow> string"
  ve_declare :: "string \<Rightarrow> int"

type_synonym ('g, 'w, 'c, 'a) vtab_op = "('g, 'w, 'c) vtab_state \<Rightarrow> 'a \<times> ('g, 'w, 'c) vtab_state"

definition SQLITE_OK :: int where "SQLITE_OK = 0"

definition SQLITE_ERROR :: int where "SQLITE_ERROR = 1"

definition SQLITE_INTERNAL :: int where "SQLITE_INTERNAL = 2"

section \<open>Ids\<close>

definition alloc_instance_id :: "instance_meta \<Rightarrow> ('g, 'w, 'c, u64) vtab_op" where
  "alloc_instance_id meta s =
     (let i = vt_next_instance s in
      (i, s\<lparr>vt_next_instance := i + 1, vt_instances := (vt_instances s)(i \<mapsto> meta)\<rparr>))"

definition alloc_cursor_id :: "cursor_meta \<Rightarrow> ('g, 'w, 'c, u64) vtab_op" where
  "alloc_cursor_id meta s =
     (let i = vt_next_cursor s in
      (i, s\<lparr>vt_next_cursor := i + 1, vt_cursors := (vt_cursors s)(i \<mapsto> meta)\<rparr>))"

definition instance_meta_of :: "u64 \<Rightarrow> ('g, 'w, 'c) vtab_state \<Rightarrow> instance_meta option" where
  "instance_meta_of i s = vt_instances s i"

definition cursor_meta_of :: "u64 \<Rightarrow> ('g, 'w, 'c) vtab_state \<Rightarrow> cursor_meta option" where
  "cursor_meta_of i s = vt_cursors s i"

definition drop_instance :: "u64 \<Rightarrow> ('g, 'w, 'c) vtab_state \<Rightarrow> ('g, 'w, 'c) vtab_state" where
  "drop_instance i s = s\<lparr>vt_instances := (vt_instances s)(i := None)\<rparr>"

definition drop_cursor :: "u64 \<Rightarrow> ('g, 'w, 'c) vtab_state \<Rightarrow> ('g, 'w, 'c) vtab_state" where
  "drop_cursor i s = s\<lparr>vt_cursors := (vt_cursors s)(i := None)\<rparr>"

definition drop_batch_cache :: "u64 \<Rightarrow> ('g, 'w, 'c) vtab_state \<Rightarrow> ('g, 'w, 'c) vtab_state" where
  "drop_batch_cache i s = s\<lparr>vt_batches := (vt_batches s)(i := None)\<rparr>"

section \<open>Dispatch\<close>

definition sync_dispatch :: "('g, 'w, 'c) vtab_env \<Rightarrow> ('g, 'w, 'c, string + 'a) dispatch_op \<Rightarrow> ('g, 'w, 'c, string + 'a) vtab_op" where
  "sync_dispatch V m s =
     (case m (vt_host s) of
        (r, h) \<Rightarrow> ((case r of Inl e \<Rightarrow> Inl (ve_show V e) | Inr x \<Rightarrow> x), s\<lparr>vt_host := h\<rparr>))"

definition sync_dispatch_flag :: "bool \<Rightarrow> ('g, 'w, 'c, bool) dispatch_op \<Rightarrow> ('g, 'w, 'c, bool) vtab_op" where
  "sync_dispatch_flag d m s = (case m (vt_host s) of (r, h) \<Rightarrow> ((case r of Inl _ \<Rightarrow> d | Inr b \<Rightarrow> b), s\<lparr>vt_host := h\<rparr>))"

definition sync_dispatch_vtab_create :: "('g, 'w, 'c) vtab_env \<Rightarrow> string \<Rightarrow> u64 \<Rightarrow> u64 \<Rightarrow> string \<Rightarrow> string \<Rightarrow> string list \<Rightarrow> ('g, 'w, 'c, string + string) vtab_op" where
  "sync_dispatch_vtab_create V ext v i d t args = sync_dispatch V (dispatch_vtab_create (ve_env V) ext v i d t args)"

definition sync_dispatch_vtab_connect :: "('g, 'w, 'c) vtab_env \<Rightarrow> string \<Rightarrow> u64 \<Rightarrow> u64 \<Rightarrow> string \<Rightarrow> string \<Rightarrow> string list \<Rightarrow> ('g, 'w, 'c, string + string) vtab_op" where
  "sync_dispatch_vtab_connect V ext v i d t args = sync_dispatch V (dispatch_vtab_connect (ve_env V) (ve_api V) ext v i d t args)"

definition sync_dispatch_vtab_disconnect :: "('g, 'w, 'c) vtab_env \<Rightarrow> string \<Rightarrow> u64 \<Rightarrow> u64 \<Rightarrow> ('g, 'w, 'c, string + unit) vtab_op" where
  "sync_dispatch_vtab_disconnect V ext v i = sync_dispatch V (dispatch_vtab_disconnect (ve_env V) (ve_api V) ext v i)"

definition sync_dispatch_vtab_destroy :: "('g, 'w, 'c) vtab_env \<Rightarrow> string \<Rightarrow> u64 \<Rightarrow> u64 \<Rightarrow> ('g, 'w, 'c, string + unit) vtab_op" where
  "sync_dispatch_vtab_destroy V ext v i = sync_dispatch V (dispatch_vtab_destroy (ve_env V) ext v i)"

definition sync_dispatch_vtab_best_index :: "('g, 'w, 'c) vtab_env \<Rightarrow> string \<Rightarrow> u64 \<Rightarrow> u64 \<Rightarrow> index_info \<Rightarrow> ('g, 'w, 'c, string + index_plan_parts) vtab_op" where
  "sync_dispatch_vtab_best_index V ext v i info = sync_dispatch V (dispatch_vtab_best_index (ve_env V) (ve_api V) ext v i info)"

definition sync_dispatch_vtab_open :: "('g, 'w, 'c) vtab_env \<Rightarrow> string \<Rightarrow> u64 \<Rightarrow> u64 \<Rightarrow> u64 \<Rightarrow> ('g, 'w, 'c, string + unit) vtab_op" where
  "sync_dispatch_vtab_open V ext v i c = sync_dispatch V (dispatch_vtab_open (ve_env V) (ve_api V) ext v i c)"

definition sync_dispatch_vtab_close :: "('g, 'w, 'c) vtab_env \<Rightarrow> string \<Rightarrow> u64 \<Rightarrow> u64 \<Rightarrow> ('g, 'w, 'c, string + unit) vtab_op" where
  "sync_dispatch_vtab_close V ext v c = sync_dispatch V (dispatch_vtab_close (ve_env V) (ve_api V) ext v c)"

definition sync_dispatch_vtab_filter :: "('g, 'w, 'c) vtab_env \<Rightarrow> string \<Rightarrow> u64 \<Rightarrow> u64 \<Rightarrow> i32 \<Rightarrow> string option \<Rightarrow> sqlvalue list \<Rightarrow> ('g, 'w, 'c, string + unit) vtab_op" where
  "sync_dispatch_vtab_filter V ext v c n q args = sync_dispatch V (dispatch_vtab_filter (ve_env V) (ve_api V) ext v c n q args)"

definition sync_dispatch_vtab_next :: "('g, 'w, 'c) vtab_env \<Rightarrow> string \<Rightarrow> u64 \<Rightarrow> u64 \<Rightarrow> ('g, 'w, 'c, string + unit) vtab_op" where
  "sync_dispatch_vtab_next V ext v c = sync_dispatch V (dispatch_vtab_next (ve_env V) (ve_api V) ext v c)"

text \<open>An error of \<open>eof\<close> ends the scan.\<close>

definition sync_dispatch_vtab_eof :: "('g, 'w, 'c) vtab_env \<Rightarrow> string \<Rightarrow> u64 \<Rightarrow> u64 \<Rightarrow> ('g, 'w, 'c, bool) vtab_op" where
  "sync_dispatch_vtab_eof V ext v c = sync_dispatch_flag True (dispatch_vtab_eof (ve_env V) (ve_api V) ext v c)"

definition sync_dispatch_vtab_column :: "('g, 'w, 'c) vtab_env \<Rightarrow> string \<Rightarrow> u64 \<Rightarrow> u64 \<Rightarrow> i32 \<Rightarrow> ('g, 'w, 'c, string + sqlvalue) vtab_op" where
  "sync_dispatch_vtab_column V ext v c n = sync_dispatch V (dispatch_vtab_column (ve_env V) (ve_api V) ext v c n)"

definition sync_dispatch_vtab_rowid :: "('g, 'w, 'c) vtab_env \<Rightarrow> string \<Rightarrow> u64 \<Rightarrow> u64 \<Rightarrow> ('g, 'w, 'c, string + i64) vtab_op" where
  "sync_dispatch_vtab_rowid V ext v c = sync_dispatch V (dispatch_vtab_rowid (ve_env V) (ve_api V) ext v c)"

definition sync_dispatch_vtab_fetch_batch :: "('g, 'w, 'c) vtab_env \<Rightarrow> string \<Rightarrow> u64 \<Rightarrow> u64 \<Rightarrow> u32 \<Rightarrow> ('g, 'w, 'c, string + batch_row list) vtab_op" where
  "sync_dispatch_vtab_fetch_batch V ext v c n = sync_dispatch V (dispatch_vtab_fetch_batch (ve_env V) (ve_api V) ext v c n)"

definition sync_dispatch_vtab_update :: "('g, 'w, 'c) vtab_env \<Rightarrow> string \<Rightarrow> u64 \<Rightarrow> u64 \<Rightarrow> sqlvalue list \<Rightarrow> ('g, 'w, 'c, string + i64) vtab_op" where
  "sync_dispatch_vtab_update V ext v i args = sync_dispatch V (dispatch_vtab_update (ve_env V) (ve_api V) ext v i args)"

definition sync_dispatch_vtab_begin :: "('g, 'w, 'c) vtab_env \<Rightarrow> string \<Rightarrow> u64 \<Rightarrow> u64 \<Rightarrow> ('g, 'w, 'c, string + unit) vtab_op" where
  "sync_dispatch_vtab_begin V ext v i = sync_dispatch V (dispatch_vtab_begin (ve_env V) (ve_api V) ext v i)"

definition sync_dispatch_vtab_sync :: "('g, 'w, 'c) vtab_env \<Rightarrow> string \<Rightarrow> u64 \<Rightarrow> u64 \<Rightarrow> ('g, 'w, 'c, string + unit) vtab_op" where
  "sync_dispatch_vtab_sync V ext v i = sync_dispatch V (dispatch_vtab_sync (ve_env V) (ve_api V) ext v i)"

definition sync_dispatch_vtab_commit :: "('g, 'w, 'c) vtab_env \<Rightarrow> string \<Rightarrow> u64 \<Rightarrow> u64 \<Rightarrow> ('g, 'w, 'c, string + unit) vtab_op" where
  "sync_dispatch_vtab_commit V ext v i = sync_dispatch V (dispatch_vtab_commit (ve_env V) (ve_api V) ext v i)"

definition sync_dispatch_vtab_rollback :: "('g, 'w, 'c) vtab_env \<Rightarrow> string \<Rightarrow> u64 \<Rightarrow> u64 \<Rightarrow> ('g, 'w, 'c, string + unit) vtab_op" where
  "sync_dispatch_vtab_rollback V ext v i = sync_dispatch V (dispatch_vtab_rollback (ve_env V) (ve_api V) ext v i)"

definition sync_dispatch_vtab_rename :: "('g, 'w, 'c) vtab_env \<Rightarrow> string \<Rightarrow> u64 \<Rightarrow> u64 \<Rightarrow> string \<Rightarrow> ('g, 'w, 'c, string + unit) vtab_op" where
  "sync_dispatch_vtab_rename V ext v i n = sync_dispatch V (dispatch_vtab_rename (ve_env V) (ve_api V) ext v i n)"

definition sync_dispatch_vtab_savepoint :: "('g, 'w, 'c) vtab_env \<Rightarrow> string \<Rightarrow> u64 \<Rightarrow> u64 \<Rightarrow> i32 \<Rightarrow> ('g, 'w, 'c, string + unit) vtab_op" where
  "sync_dispatch_vtab_savepoint V ext v i n = sync_dispatch V (dispatch_vtab_savepoint (ve_env V) (ve_api V) ext v i n)"

definition sync_dispatch_vtab_release :: "('g, 'w, 'c) vtab_env \<Rightarrow> string \<Rightarrow> u64 \<Rightarrow> u64 \<Rightarrow> i32 \<Rightarrow> ('g, 'w, 'c, string + unit) vtab_op" where
  "sync_dispatch_vtab_release V ext v i n = sync_dispatch V (dispatch_vtab_release (ve_env V) (ve_api V) ext v i n)"

definition sync_dispatch_vtab_rollback_to :: "('g, 'w, 'c) vtab_env \<Rightarrow> string \<Rightarrow> u64 \<Rightarrow> u64 \<Rightarrow> i32 \<Rightarrow> ('g, 'w, 'c, string + unit) vtab_op" where
  "sync_dispatch_vtab_rollback_to V ext v i n = sync_dispatch V (dispatch_vtab_rollback_to (ve_env V) (ve_api V) ext v i n)"

definition sync_dispatch_vtab_is_shadow_name :: "('g, 'w, 'c) vtab_env \<Rightarrow> string \<Rightarrow> u64 \<Rightarrow> string \<Rightarrow> ('g, 'w, 'c, bool) vtab_op" where
  "sync_dispatch_vtab_is_shadow_name V ext v n = sync_dispatch_flag False (dispatch_vtab_is_shadow_name (ve_env V) (ve_api V) ext v n)"

definition sync_dispatch_vtab_integrity :: "('g, 'w, 'c) vtab_env \<Rightarrow> string \<Rightarrow> u64 \<Rightarrow> u64 \<Rightarrow> string \<Rightarrow> string \<Rightarrow> u32 \<Rightarrow> ('g, 'w, 'c, string + unit) vtab_op" where
  "sync_dispatch_vtab_integrity V ext v i q t m = sync_dispatch V (dispatch_vtab_integrity (ve_env V) (ve_api V) ext v i q t m)"

section \<open>Helpers\<close>

definition cstr_to_string :: "string option \<Rightarrow> string" where
  "cstr_to_string p = (case p of None \<Rightarrow> [] | Some b \<Rightarrow> from_utf8_lossy b)"

text \<open>The message left for SQLite: a text with a NUL byte cannot be passed on.\<close>

definition set_err :: "string \<Rightarrow> string" where
  "set_err msg = (if CHR 0x00 \<in> set msg then ''vtab error (non-UTF8 message)'' else msg)"

definition map_constraint_op :: "byte \<Rightarrow> constraint_op" where
  "map_constraint_op b =
     (if b = 2 then OpEq else if b = 4 then OpGt else if b = 8 then OpLe else if b = 16 then OpLt else if b = 32 then OpGe
      else if b = 68 then OpNe else if b = 64 then OpMatch else if b = 65 then OpLike else if b = 67 then OpRegexp
      else if b = 66 then OpGlob else if b = 71 then OpIsNull else if b = 70 then OpIsNotNull else if b = 73 then OpLimit
      else if b = 74 then OpOffset else if b = 150 then OpFunction else OpFunction)"

text \<open>A value of SQLite by its storage class; text is bytes that need not be UTF-8.\<close>

datatype sqlite_value = VNull | VInteger i64 | VFloat f64 | VText string | VBlob bytes

definition sqlite3_value_to_wit :: "sqlite_value \<Rightarrow> sqlvalue" where
  "sqlite3_value_to_wit v =
     (case v of
        VInteger i \<Rightarrow> SqlInteger i
      | VFloat f \<Rightarrow> SqlReal f
      | VText t \<Rightarrow> SqlText (from_utf8_lossy t)
      | VBlob b \<Rightarrow> SqlBlob b
      | VNull \<Rightarrow> SqlNull)"

datatype sqlite_result = ResValue sqlite_value | ResError string

definition wit_to_sqlite3_result :: "sqlvalue \<Rightarrow> sqlite_result" where
  "wit_to_sqlite3_result v =
     (case v of
        SqlNull \<Rightarrow> ResValue VNull
      | SqlInteger i \<Rightarrow> ResValue (VInteger i)
      | SqlReal f \<Rightarrow> ResValue (VFloat f)
      | SqlText t \<Rightarrow> ResValue (VText t)
      | SqlBlob b \<Rightarrow> ResValue (VBlob b)
      | SqlWitValue _ \<Rightarrow> ResError ''wit-value vtab column not yet implemented (Phase B owe)'')"

section \<open>Batches\<close>

definition refill_batch :: "('g, 'w, 'c) vtab_env \<Rightarrow> cursor_meta \<Rightarrow> u64 \<Rightarrow> ('g, 'w, 'c, bool) vtab_op" where
  "refill_batch V meta c s =
     (case sync_dispatch_vtab_fetch_batch V (cm_ext_name meta) (cm_vtab_id meta) c BATCH_SIZE s of
        (r, s1) \<Rightarrow>
          (let entry = (case vt_batches s1 c of Some e \<Rightarrow> e | None \<Rightarrow> default_cache) in
           case r of
             Inl _ \<Rightarrow> (False, s1\<lparr>vt_batches := (vt_batches s1)(c \<mapsto> entry\<lparr>bc_eof_seen := True\<rparr>)\<rparr>)
           | Inr rows \<Rightarrow>
               if rows = [] then
                 (False, s1\<lparr>vt_batches := (vt_batches s1)(c \<mapsto> entry\<lparr>bc_idx := 0, bc_rows := [], bc_eof_seen := True\<rparr>)\<rparr>)
               else (True, s1\<lparr>vt_batches := (vt_batches s1)(c \<mapsto> entry\<lparr>bc_idx := 0, bc_rows := rows\<rparr>)\<rparr>)))"

section \<open>Tables\<close>

text \<open>The result of a callback that makes an object: the code, the id in the new object, the message.\<close>

type_synonym created = "int \<times> u64 option \<times> string option"

definition create_or_connect :: "('g, 'w, 'c) vtab_env \<Rightarrow> module_aux \<Rightarrow> string option list \<Rightarrow> bool \<Rightarrow> ('g, 'w, 'c, created) vtab_op" where
  "create_or_connect V aux argv is_connect s =
     (let args = map cstr_to_string argv;
          db_name = (if 1 < length args then args ! 1 else []);
          table_name = (if 2 < length args then args ! 2 else []);
          user_args = drop 3 args in
      case alloc_instance_id \<lparr>im_ext_name = ma_ext_name aux, im_vtab_id = ma_vtab_id aux, im_batched = ma_batched aux\<rparr> s of
        (i, s1) \<Rightarrow>
          (case (if is_connect \<or> ma_eponymous aux
                 then sync_dispatch_vtab_connect V (ma_ext_name aux) (ma_vtab_id aux) i db_name table_name user_args
                 else sync_dispatch_vtab_create V (ma_ext_name aux) (ma_vtab_id aux) i db_name table_name user_args) s1 of
             (Inl e, s2) \<Rightarrow> ((SQLITE_ERROR, None, Some (set_err e)), drop_instance i s2)
           | (Inr sql, s2) \<Rightarrow>
               if CHR 0x00 \<in> set sql then ((SQLITE_ERROR, None, Some (set_err ''vtab schema contained NUL'')), drop_instance i s2)
               else if ve_declare V sql \<noteq> SQLITE_OK then ((ve_declare V sql, None, None), drop_instance i s2)
               else ((SQLITE_OK, Some i, None), s2)))"

definition x_create :: "('g, 'w, 'c) vtab_env \<Rightarrow> module_aux \<Rightarrow> string option list \<Rightarrow> ('g, 'w, 'c, created) vtab_op" where
  "x_create V aux argv = create_or_connect V aux argv False"

definition x_connect_cb :: "('g, 'w, 'c) vtab_env \<Rightarrow> module_aux \<Rightarrow> string option list \<Rightarrow> ('g, 'w, 'c, created) vtab_op" where
  "x_connect_cb V aux argv = create_or_connect V aux argv True"

definition x_disconnect_cb :: "('g, 'w, 'c) vtab_env \<Rightarrow> u64 \<Rightarrow> ('g, 'w, 'c, int) vtab_op" where
  "x_disconnect_cb V i s =
     (SQLITE_OK, drop_instance i (case instance_meta_of i s of
        Some meta \<Rightarrow> snd (sync_dispatch_vtab_disconnect V (im_ext_name meta) (im_vtab_id meta) i s)
      | None \<Rightarrow> s))"

definition x_destroy_cb :: "('g, 'w, 'c) vtab_env \<Rightarrow> u64 \<Rightarrow> ('g, 'w, 'c, int) vtab_op" where
  "x_destroy_cb V i s =
     (SQLITE_OK, drop_instance i (case instance_meta_of i s of
        Some meta \<Rightarrow> snd (sync_dispatch_vtab_destroy V (im_ext_name meta) (im_vtab_id meta) i s)
      | None \<Rightarrow> s))"

section \<open>Planning\<close>

text \<open>What SQLite offers a plan, and what is written back.\<close>

record planner_info =
  pi_constraints :: "(i32 \<times> byte \<times> byte) list"
  pi_orderbys :: "(i32 \<times> byte) list"
  pi_col_used :: u64

record planner_choice =
  pc_usage :: "(i32 \<times> byte) list"
  pc_idx_num :: i32
  pc_idx_str :: "string option"
  pc_cost :: f64
  pc_rows :: i64
  pc_consumed :: int

definition offered :: "planner_info \<Rightarrow> index_info" where
  "offered p =
     \<lparr>ii_constraints = map (\<lambda>(col, op, usable). \<lparr>ic_column = col, ic_op = map_constraint_op op, ic_usable = (usable \<noteq> 0)\<rparr>) (pi_constraints p),
      ii_orderbys = map (\<lambda>(col, desc). (col, desc \<noteq> 0)) (pi_orderbys p),
      ii_col_used = pi_col_used p\<rparr>"

fun write_usage :: "(i32 \<times> bool) list \<Rightarrow> (i32 \<times> byte) list \<Rightarrow> (i32 \<times> byte) list" where
  "write_usage ((argv_index, omit) # us) (_ # slots) = (argv_index, if omit then 1 else 0) # write_usage us slots"
| "write_usage _ slots = slots"

definition x_best_index_cb :: "('g, 'w, 'c) vtab_env \<Rightarrow> u64 \<Rightarrow> planner_info \<Rightarrow> planner_choice \<Rightarrow> ('g, 'w, 'c, int \<times> planner_choice \<times> string option) vtab_op" where
  "x_best_index_cb V i info out s =
     (case instance_meta_of i s of
        None \<Rightarrow> ((SQLITE_INTERNAL, out, None), s)
      | Some meta \<Rightarrow>
          (case sync_dispatch_vtab_best_index V (im_ext_name meta) (im_vtab_id meta) i (offered info) s of
             (Inl e, s1) \<Rightarrow> ((SQLITE_ERROR, out, Some (if CHR 0x00 \<in> set e then ''best_index'' else e)), s1)
           | (Inr plan, s1) \<Rightarrow>
               ((SQLITE_OK,
                 \<lparr>pc_usage = write_usage (ip_usage plan) (pc_usage out), pc_idx_num = ip_idx_num plan,
                  pc_idx_str = (case ip_idx_str plan of Some q \<Rightarrow> if CHR 0x00 \<in> set q then pc_idx_str out else Some q | None \<Rightarrow> pc_idx_str out),
                  pc_cost = ip_cost plan, pc_rows = ip_rows plan, pc_consumed = (if ip_consumed plan then 1 else 0)\<rparr>, None), s1)))"

section \<open>Cursors\<close>

definition x_open_cb :: "('g, 'w, 'c) vtab_env \<Rightarrow> u64 \<Rightarrow> ('g, 'w, 'c, int \<times> u64 option) vtab_op" where
  "x_open_cb V i s =
     (case instance_meta_of i s of
        None \<Rightarrow> ((SQLITE_INTERNAL, None), s)
      | Some meta \<Rightarrow>
          (case alloc_cursor_id \<lparr>cm_ext_name = im_ext_name meta, cm_vtab_id = im_vtab_id meta, cm_batched = im_batched meta\<rparr> s of
             (c, s1) \<Rightarrow>
               (case sync_dispatch_vtab_open V (im_ext_name meta) (im_vtab_id meta) i c s1 of
                  (Inl _, s2) \<Rightarrow> ((SQLITE_ERROR, None), drop_cursor c s2)
                | (Inr _, s2) \<Rightarrow> ((SQLITE_OK, Some c), s2))))"

definition x_close_cb :: "('g, 'w, 'c) vtab_env \<Rightarrow> u64 \<Rightarrow> ('g, 'w, 'c, int) vtab_op" where
  "x_close_cb V c s =
     (SQLITE_OK, drop_cursor c (drop_batch_cache c (case cursor_meta_of c s of
        Some meta \<Rightarrow> snd (sync_dispatch_vtab_close V (cm_ext_name meta) (cm_vtab_id meta) c s)
      | None \<Rightarrow> s)))"

definition x_filter_cb :: "('g, 'w, 'c) vtab_env \<Rightarrow> u64 \<Rightarrow> i32 \<Rightarrow> string option \<Rightarrow> sqlite_value list \<Rightarrow> ('g, 'w, 'c, int) vtab_op" where
  "x_filter_cb V c idx_num idx_str argv s =
     (case cursor_meta_of c s of
        None \<Rightarrow> (SQLITE_INTERNAL, s)
      | Some meta \<Rightarrow>
          (case sync_dispatch_vtab_filter V (cm_ext_name meta) (cm_vtab_id meta) c idx_num (map_option from_utf8_lossy idx_str)
                  (map sqlite3_value_to_wit argv) s of
             (Inl _, s1) \<Rightarrow> (SQLITE_ERROR, s1)
           | (Inr _, s1) \<Rightarrow>
               (SQLITE_OK,
                if cm_batched meta then snd (refill_batch V meta c (s1\<lparr>vt_batches := (vt_batches s1)(c \<mapsto> default_cache)\<rparr>)) else s1)))"

definition x_next_cb :: "('g, 'w, 'c) vtab_env \<Rightarrow> u64 \<Rightarrow> ('g, 'w, 'c, int) vtab_op" where
  "x_next_cb V c s =
     (case cursor_meta_of c s of
        None \<Rightarrow> (SQLITE_INTERNAL, s)
      | Some meta \<Rightarrow>
          if cm_batched meta then
            (let entry = (case vt_batches s c of Some e \<Rightarrow> e | None \<Rightarrow> default_cache);
                 entry1 = entry\<lparr>bc_idx := bc_idx entry + 1\<rparr>;
                 s1 = s\<lparr>vt_batches := (vt_batches s)(c \<mapsto> entry1)\<rparr> in
             (SQLITE_OK,
              if length (bc_rows entry1) \<le> bc_idx entry1 \<and> \<not> bc_eof_seen entry1 then snd (refill_batch V meta c s1) else s1))
          else
            (case sync_dispatch_vtab_next V (cm_ext_name meta) (cm_vtab_id meta) c s of
               (Inl _, s1) \<Rightarrow> (SQLITE_ERROR, s1)
             | (Inr _, s1) \<Rightarrow> (SQLITE_OK, s1)))"

definition x_eof_cb :: "('g, 'w, 'c) vtab_env \<Rightarrow> u64 \<Rightarrow> ('g, 'w, 'c, int) vtab_op" where
  "x_eof_cb V c s =
     (case cursor_meta_of c s of
        None \<Rightarrow> (1, s)
      | Some meta \<Rightarrow>
          if cm_batched meta then
            (case vt_batches s c of
               None \<Rightarrow> (1, s)
             | Some entry \<Rightarrow> (if bc_idx entry < length (bc_rows entry) then 0 else if bc_eof_seen entry then 1 else 0, s))
          else
            (case sync_dispatch_vtab_eof V (cm_ext_name meta) (cm_vtab_id meta) c s of (b, s1) \<Rightarrow> (if b then 1 else 0, s1)))"

definition x_column_cb :: "('g, 'w, 'c) vtab_env \<Rightarrow> u64 \<Rightarrow> i32 \<Rightarrow> ('g, 'w, 'c, int \<times> sqlite_result option) vtab_op" where
  "x_column_cb V c col s =
     (case cursor_meta_of c s of
        None \<Rightarrow> ((SQLITE_INTERNAL, None), s)
      | Some meta \<Rightarrow>
          if cm_batched meta then
            (case vt_batches s c of
               None \<Rightarrow> ((SQLITE_ERROR, None), s)
             | Some entry \<Rightarrow>
                 if bc_idx entry < length (bc_rows entry) then
                   (let columns = snd (bc_rows entry ! bc_idx entry) in
                    if 0 \<le> sint col \<and> nat (sint col) < length columns
                    then ((SQLITE_OK, Some (wit_to_sqlite3_result (columns ! nat (sint col)))), s)
                    else ((SQLITE_OK, Some (ResValue VNull)), s))
                 else ((SQLITE_ERROR, None), s))
          else
            (case sync_dispatch_vtab_column V (cm_ext_name meta) (cm_vtab_id meta) c col s of
               (Inl _, s1) \<Rightarrow> ((SQLITE_ERROR, None), s1)
             | (Inr v, s1) \<Rightarrow> ((SQLITE_OK, Some (wit_to_sqlite3_result v)), s1)))"

definition x_rowid_cb :: "('g, 'w, 'c) vtab_env \<Rightarrow> u64 \<Rightarrow> ('g, 'w, 'c, int \<times> i64 option) vtab_op" where
  "x_rowid_cb V c s =
     (case cursor_meta_of c s of
        None \<Rightarrow> ((SQLITE_INTERNAL, None), s)
      | Some meta \<Rightarrow>
          if cm_batched meta then
            (case vt_batches s c of
               None \<Rightarrow> ((SQLITE_ERROR, None), s)
             | Some entry \<Rightarrow>
                 if bc_idx entry < length (bc_rows entry) then ((SQLITE_OK, Some (fst (bc_rows entry ! bc_idx entry))), s)
                 else ((SQLITE_ERROR, None), s))
          else
            (case sync_dispatch_vtab_rowid V (cm_ext_name meta) (cm_vtab_id meta) c s of
               (Inl _, s1) \<Rightarrow> ((SQLITE_ERROR, None), s1)
             | (Inr r, s1) \<Rightarrow> ((SQLITE_OK, Some r), s1)))"

definition x_find_function :: "string option \<Rightarrow> int" where
  "x_find_function z_name =
     (case z_name of
        None \<Rightarrow> 0
      | Some b \<Rightarrow>
          if \<not> utf8_valid b then 0
          else (let name = to_ascii_lowercase b in
            if name = ''match'' then 64 else if name = ''glob'' then 66 else if name = ''regexp'' then 67 else if name = ''like'' then 65 else 0))"

section \<open>Writes\<close>

definition argv_to_wit_values :: "sqlite_value list \<Rightarrow> sqlvalue list" where
  "argv_to_wit_values argv = map sqlite3_value_to_wit argv"

definition x_update_cb :: "('g, 'w, 'c) vtab_env \<Rightarrow> u64 \<Rightarrow> sqlite_value list \<Rightarrow> ('g, 'w, 'c, int \<times> i64 option \<times> string option) vtab_op" where
  "x_update_cb V i argv s =
     (case instance_meta_of i s of
        None \<Rightarrow> ((SQLITE_ERROR, None, None), s)
      | Some meta \<Rightarrow>
          (case sync_dispatch_vtab_update V (im_ext_name meta) (im_vtab_id meta) i (argv_to_wit_values argv) s of
             (Inr rowid, s1) \<Rightarrow> ((SQLITE_OK, Some rowid, None), s1)
           | (Inl e, s1) \<Rightarrow> ((SQLITE_ERROR, None, Some (set_err e)), s1)))"

text \<open>The transaction callbacks: an unknown table is an error; the extension's error is reported, with its text
  where the code passes it on.\<close>

definition tx_callback :: "bool \<Rightarrow> u64 \<Rightarrow> (instance_meta \<Rightarrow> ('g, 'w, 'c, string + unit) vtab_op) \<Rightarrow> ('g, 'w, 'c, int \<times> string option) vtab_op" where
  "tx_callback with_text i f s =
     (case instance_meta_of i s of
        None \<Rightarrow> ((SQLITE_ERROR, None), s)
      | Some meta \<Rightarrow>
          (case f meta s of
             (Inr _, s1) \<Rightarrow> ((SQLITE_OK, None), s1)
           | (Inl e, s1) \<Rightarrow> ((SQLITE_ERROR, if with_text then Some (set_err e) else None), s1)))"

definition x_begin_cb :: "('g, 'w, 'c) vtab_env \<Rightarrow> u64 \<Rightarrow> ('g, 'w, 'c, int \<times> string option) vtab_op" where
  "x_begin_cb V i = tx_callback True i (\<lambda>m. sync_dispatch_vtab_begin V (im_ext_name m) (im_vtab_id m) i)"

definition x_sync_cb :: "('g, 'w, 'c) vtab_env \<Rightarrow> u64 \<Rightarrow> ('g, 'w, 'c, int \<times> string option) vtab_op" where
  "x_sync_cb V i = tx_callback True i (\<lambda>m. sync_dispatch_vtab_sync V (im_ext_name m) (im_vtab_id m) i)"

definition x_commit_cb :: "('g, 'w, 'c) vtab_env \<Rightarrow> u64 \<Rightarrow> ('g, 'w, 'c, int \<times> string option) vtab_op" where
  "x_commit_cb V i = tx_callback True i (\<lambda>m. sync_dispatch_vtab_commit V (im_ext_name m) (im_vtab_id m) i)"

definition x_rollback_cb :: "('g, 'w, 'c) vtab_env \<Rightarrow> u64 \<Rightarrow> ('g, 'w, 'c, int \<times> string option) vtab_op" where
  "x_rollback_cb V i = tx_callback True i (\<lambda>m. sync_dispatch_vtab_rollback V (im_ext_name m) (im_vtab_id m) i)"

definition x_rename_cb :: "('g, 'w, 'c) vtab_env \<Rightarrow> u64 \<Rightarrow> string option \<Rightarrow> ('g, 'w, 'c, int \<times> string option) vtab_op" where
  "x_rename_cb V i z_new =
     tx_callback True i (\<lambda>m s.
       if (case z_new of Some b \<Rightarrow> \<not> utf8_valid b | None \<Rightarrow> False) then (Inl ''xRename: new name is not valid UTF-8'', s)
       else sync_dispatch_vtab_rename V (im_ext_name m) (im_vtab_id m) i (case z_new of Some b \<Rightarrow> b | None \<Rightarrow> []) s)"

definition x_savepoint_cb :: "('g, 'w, 'c) vtab_env \<Rightarrow> u64 \<Rightarrow> i32 \<Rightarrow> ('g, 'w, 'c, int \<times> string option) vtab_op" where
  "x_savepoint_cb V i n = tx_callback False i (\<lambda>m. sync_dispatch_vtab_savepoint V (im_ext_name m) (im_vtab_id m) i n)"

definition x_release_cb :: "('g, 'w, 'c) vtab_env \<Rightarrow> u64 \<Rightarrow> i32 \<Rightarrow> ('g, 'w, 'c, int \<times> string option) vtab_op" where
  "x_release_cb V i n = tx_callback False i (\<lambda>m. sync_dispatch_vtab_release V (im_ext_name m) (im_vtab_id m) i n)"

definition x_rollback_to_cb :: "('g, 'w, 'c) vtab_env \<Rightarrow> u64 \<Rightarrow> i32 \<Rightarrow> ('g, 'w, 'c, int \<times> string option) vtab_op" where
  "x_rollback_to_cb V i n = tx_callback False i (\<lambda>m. sync_dispatch_vtab_rollback_to V (im_ext_name m) (im_vtab_id m) i n)"

definition x_shadow_name :: "('g, 'w, 'c) vtab_env \<Rightarrow> string option \<Rightarrow> ('g, 'w, 'c, int) vtab_op" where
  "x_shadow_name V z_name s =
     (case z_name of
        None \<Rightarrow> (0, s)
      | Some name \<Rightarrow>
          if \<not> utf8_valid name then (0, s)
          else (case vt_shadow_owner s of
            None \<Rightarrow> (0, s)
          | Some (ext, v) \<Rightarrow> (case sync_dispatch_vtab_is_shadow_name V ext v name s of (b, s1) \<Rightarrow> (if b then 1 else 0, s1))))"

definition x_integrity_cb :: "('g, 'w, 'c) vtab_env \<Rightarrow> u64 \<Rightarrow> string option \<Rightarrow> string option \<Rightarrow> i32 \<Rightarrow> ('g, 'w, 'c, int \<times> string option) vtab_op" where
  "x_integrity_cb V i z_schema z_tab m_flags s =
     (case instance_meta_of i s of
        None \<Rightarrow> ((SQLITE_ERROR, None), s)
      | Some meta \<Rightarrow>
          (case sync_dispatch_vtab_integrity V (im_ext_name meta) (im_vtab_id meta) i (cstr_to_string z_schema) (cstr_to_string z_tab)
                  (word_of_int (sint m_flags)) s of
             (Inr _, s1) \<Rightarrow> ((SQLITE_OK, None), s1)
           | (Inl e, s1) \<Rightarrow> ((SQLITE_ERROR, if CHR 0x00 \<in> set e then None else Some e), s1)))"

section \<open>Modules\<close>

text \<open>The three templates a module is registered with: the version of the structure and the slots that hold a callback.\<close>

record module_template =
  i_version :: nat
  filled_slots :: "string list"

definition MODULE :: module_template where
  "MODULE = \<lparr>i_version = 1, filled_slots =
     [''xCreate'', ''xConnect'', ''xBestIndex'', ''xDisconnect'', ''xDestroy'', ''xOpen'', ''xClose'', ''xFilter'', ''xNext'', ''xEof'', ''xColumn'', ''xRowid'', ''xFindFunction'']\<rparr>"

definition MODULE_EPONYMOUS :: module_template where
  "MODULE_EPONYMOUS = \<lparr>i_version = 1, filled_slots =
     [''xConnect'', ''xBestIndex'', ''xDisconnect'', ''xDestroy'', ''xOpen'', ''xClose'', ''xFilter'', ''xNext'', ''xEof'', ''xColumn'', ''xRowid'', ''xFindFunction'']\<rparr>"

definition MODULE_MUTABLE :: module_template where
  "MODULE_MUTABLE = \<lparr>i_version = 2, filled_slots =
     [''xCreate'', ''xConnect'', ''xBestIndex'', ''xDisconnect'', ''xDestroy'', ''xOpen'', ''xClose'', ''xFilter'', ''xNext'', ''xEof'', ''xColumn'', ''xRowid'',
      ''xUpdate'', ''xBegin'', ''xSync'', ''xCommit'', ''xRollback'', ''xFindFunction'', ''xRename'', ''xSavepoint'', ''xRelease'', ''xRollbackTo'',
      ''xShadowName'', ''xIntegrity'']\<rparr>"

datatype module_error = BadModuleName | CreateModuleFailed int

text \<open>\<open>sqlite3_create_module_v2\<close> is an argument: its code, and how often it ran the destructor of the module data
  before it returned. The result also counts how often the data was freed.\<close>

definition register_vtab_module :: "(string \<Rightarrow> module_template \<Rightarrow> module_aux \<Rightarrow> int \<times> nat) \<Rightarrow> string \<Rightarrow> string \<Rightarrow> u64 \<Rightarrow> bool \<Rightarrow> bool \<Rightarrow> bool \<Rightarrow>
    ('g, 'w, 'c, (module_error + module_template) \<times> nat) vtab_op" where
  "register_vtab_module create name ext_name vtab_id eponymous mutable batched s =
     (let aux = \<lparr>ma_ext_name = ext_name, ma_vtab_id = vtab_id, ma_eponymous = eponymous, ma_batched = batched\<rparr> in
      if CHR 0x00 \<in> set name then ((Inl BadModuleName, 0), s)
      else
        let template = (if mutable then MODULE_MUTABLE else if eponymous then MODULE_EPONYMOUS else MODULE);
            s1 = (if mutable then s\<lparr>vt_shadow_owner := Some (ext_name, vtab_id)\<rparr> else s);
            (rc, frees) = create name template aux in
        if rc \<noteq> SQLITE_OK then ((Inl (CreateModuleFailed rc), frees + 1), s1)
        else ((Inr template, frees), s1))"

definition unregister_vtab_module :: "(string \<Rightarrow> int) \<Rightarrow> string \<Rightarrow> int" where
  "unregister_vtab_module create_null name = (if CHR 0x00 \<in> set name then 21 else create_null name)"

text \<open>\<open>sqlite3_create_module_v2\<close> runs the destructor when it fails; the code frees the data once more.\<close>

lemma failed_registration_frees_twice:
  assumes "create name (if mutable then MODULE_MUTABLE else if eponymous then MODULE_EPONYMOUS else MODULE)
      \<lparr>ma_ext_name = ext, ma_vtab_id = v, ma_eponymous = eponymous, ma_batched = batched\<rparr> = (rc, 1)"
    "rc \<noteq> SQLITE_OK" "CHR 0x00 \<notin> set name"
  shows "fst (register_vtab_module create name ext v eponymous mutable batched s) = (Inl (CreateModuleFailed rc), 2)"
  using assms by (simp add: register_vtab_module_def Let_def)

section \<open>What a dispatch changes\<close>

lemma sync_dispatch_frame: "sync_dispatch V m s = (r, s') \<Longrightarrow> s' = s\<lparr>vt_host := vt_host s'\<rparr>"
  by (auto simp: sync_dispatch_def split: prod.splits)

lemma sync_dispatch_flag_frame: "sync_dispatch_flag d m s = (r, s') \<Longrightarrow> s' = s\<lparr>vt_host := vt_host s'\<rparr>"
  by (auto simp: sync_dispatch_flag_def split: prod.splits)

lemmas sync_defs = sync_dispatch_vtab_create_def sync_dispatch_vtab_connect_def sync_dispatch_vtab_disconnect_def sync_dispatch_vtab_destroy_def
  sync_dispatch_vtab_best_index_def sync_dispatch_vtab_open_def sync_dispatch_vtab_close_def sync_dispatch_vtab_filter_def
  sync_dispatch_vtab_next_def sync_dispatch_vtab_eof_def sync_dispatch_vtab_column_def sync_dispatch_vtab_rowid_def
  sync_dispatch_vtab_fetch_batch_def sync_dispatch_vtab_update_def sync_dispatch_vtab_begin_def sync_dispatch_vtab_sync_def
  sync_dispatch_vtab_commit_def sync_dispatch_vtab_rollback_def sync_dispatch_vtab_rename_def sync_dispatch_vtab_savepoint_def
  sync_dispatch_vtab_release_def sync_dispatch_vtab_rollback_to_def sync_dispatch_vtab_is_shadow_name_def sync_dispatch_vtab_integrity_def

text \<open>The tables of ids: equal up to the host.\<close>

definition same_tables :: "('g, 'w, 'c) vtab_state \<Rightarrow> ('g, 'w, 'c) vtab_state \<Rightarrow> bool" where
  "same_tables s s' \<longleftrightarrow> s' = s\<lparr>vt_host := vt_host s'\<rparr>"

lemma same_tables_refl [simp]: "same_tables s s"
  by (simp add: same_tables_def)

lemma same_tables_sync: "sync_dispatch V m s = (r, s') \<Longrightarrow> same_tables s s'"
  unfolding same_tables_def by (rule sync_dispatch_frame)

lemma same_tables_flag: "sync_dispatch_flag d m s = (r, s') \<Longrightarrow> same_tables s s'"
  unfolding same_tables_def by (rule sync_dispatch_flag_frame)

lemma same_tables_sel:
  assumes "same_tables s s'"
  shows "vt_instances s' = vt_instances s" "vt_cursors s' = vt_cursors s" "vt_next_instance s' = vt_next_instance s"
    "vt_next_cursor s' = vt_next_cursor s" "vt_batches s' = vt_batches s" "vt_shadow_owner s' = vt_shadow_owner s"
  by (subst assms [unfolded same_tables_def], simp)+

section \<open>Batched scans\<close>

text \<open>What the extension delivers: batches until one is empty or fails. Fuel bounds the number of batches.\<close>

fun fetch_all :: "nat \<Rightarrow> ('g, 'w, 'c) vtab_env \<Rightarrow> cursor_meta \<Rightarrow> u64 \<Rightarrow> ('g, 'w, 'c) ext_host \<Rightarrow> (batch_row list \<times> ('g, 'w, 'c) ext_host) option" where
  "fetch_all 0 V meta c h = None"
| "fetch_all (Suc n) V meta c h =
     (case dispatch_vtab_fetch_batch (ve_env V) (ve_api V) (cm_ext_name meta) (cm_vtab_id meta) c BATCH_SIZE h of
        (Inr (Inr rows), h1) \<Rightarrow> if rows = [] then Some ([], h1) else map_option (\<lambda>(rs, h2). (rows @ rs, h2)) (fetch_all n V meta c h1)
      | (_, h1) \<Rightarrow> Some ([], h1))"

text \<open>What SQLite does with a cursor: while it is not at the end, read the row id and \<open>w\<close> columns, and step.\<close>

fun read_columns :: "('g, 'w, 'c) vtab_env \<Rightarrow> u64 \<Rightarrow> nat list \<Rightarrow> ('g, 'w, 'c, (int \<times> sqlite_result option) list) vtab_op" where
  "read_columns V c [] s = ([], s)"
| "read_columns V c (k # ks) s =
     (case x_column_cb V c (word_of_nat k) s of (v, s1) \<Rightarrow> (case read_columns V c ks s1 of (vs, s2) \<Rightarrow> (v # vs, s2)))"

fun scan :: "nat \<Rightarrow> ('g, 'w, 'c) vtab_env \<Rightarrow> u64 \<Rightarrow> nat \<Rightarrow> ('g, 'w, 'c) vtab_state \<Rightarrow>
    (((int \<times> i64 option) \<times> (int \<times> sqlite_result option) list) list \<times> ('g, 'w, 'c) vtab_state) option" where
  "scan 0 V c w s = None"
| "scan (Suc n) V c w s =
     (case x_eof_cb V c s of
        (e, s1) \<Rightarrow>
          if e \<noteq> 0 then Some ([], s1)
          else
            (case x_rowid_cb V c s1 of (r, s2) \<Rightarrow>
            (case read_columns V c [0..<w] s2 of (vs, s3) \<Rightarrow>
            (case x_next_cb V c s3 of (_, s4) \<Rightarrow>
             map_option (\<lambda>(rows, s5). ((r, vs) # rows, s5)) (scan n V c w s4)))))"

definition shown_row :: "nat \<Rightarrow> batch_row \<Rightarrow> (int \<times> i64 option) \<times> (int \<times> sqlite_result option) list" where
  "shown_row w row =
     ((SQLITE_OK, Some (fst row)),
      map (\<lambda>k. (SQLITE_OK, Some (if k < length (snd row) then wit_to_sqlite3_result (snd row ! k) else ResValue VNull))) [0..<w])"

lemma sint_word_of_nat: "k < 2 ^ 31 \<Longrightarrow> sint (word_of_nat k :: i32) = int k"
  by (simp add: signed_of_nat signed_take_bit_int_eq_self)

lemma read_columns_batched:
  assumes "cursor_meta_of c s = Some meta" "cm_batched meta" "vt_batches s c = Some e" "bc_idx e < length (bc_rows e)"
    "\<And>k. k \<in> set ks \<Longrightarrow> k < 2 ^ 31"
  shows "read_columns V c ks s =
    (map (\<lambda>k. (SQLITE_OK, Some (if k < length (snd (bc_rows e ! bc_idx e)) then wit_to_sqlite3_result (snd (bc_rows e ! bc_idx e) ! k)
       else ResValue VNull))) ks, s)"
  using assms(5)
proof (induction ks)
  case (Cons k ks)
  with assms(1-4) Cons.prems [of k] sint_word_of_nat [of k] show ?case by (simp add: x_column_cb_def Let_def)
qed simp

text \<open>A cursor whose cached rows are used up and whose extension has no more.\<close>

definition at_end :: "cursor_meta \<Rightarrow> u64 \<Rightarrow> ('g, 'w, 'c) vtab_state \<Rightarrow> bool" where
  "at_end meta c s \<longleftrightarrow> cursor_meta_of c s = Some meta \<and> cm_batched meta \<and>
     (\<exists>e. vt_batches s c = Some e \<and> length (bc_rows e) \<le> bc_idx e \<and> bc_eof_seen e)"

text \<open>A cursor on row \<open>bc_idx\<close> of its cache, whose extension may have more.\<close>

definition on_row :: "cursor_meta \<Rightarrow> u64 \<Rightarrow> batch_cache \<Rightarrow> ('g, 'w, 'c) vtab_state \<Rightarrow> bool" where
  "on_row meta c e s \<longleftrightarrow> cursor_meta_of c s = Some meta \<and> cm_batched meta \<and> vt_batches s c = Some e \<and>
     bc_idx e < length (bc_rows e) \<and> \<not> bc_eof_seen e"

lemma scan_at_end: "at_end meta c s \<Longrightarrow> 0 < m \<Longrightarrow> scan m V c w s = Some ([], s)"
  by (cases m) (auto simp: at_end_def x_eof_cb_def)

text \<open>A refill on used-up rows either ends the scan or stands on the first row of the next batch.\<close>

lemma refill_batch_step:
  assumes "cursor_meta_of c s = Some meta" "cm_batched meta" "vt_batches s c = Some e" "length (bc_rows e) \<le> bc_idx e" "\<not> bc_eof_seen e"
    and all: "fetch_all n V meta c (vt_host s) = Some (rs, h')"
  obtains (finished) s1 where "snd (refill_batch V meta c s) = s1" "at_end meta c s1" "rs = []" "vt_host s1 = h'"
  | (batch) s1 e1 k rs' where "snd (refill_batch V meta c s) = s1" "on_row meta c e1 s1" "bc_idx e1 = 0" "rs = bc_rows e1 @ rs'"
      "fetch_all k V meta c (vt_host s1) = Some (rs', h')"
proof -
  from all obtain k where n: "n = Suc k" by (cases n) auto
  obtain r h1 where d: "dispatch_vtab_fetch_batch (ve_env V) (ve_api V) (cm_ext_name meta) (cm_vtab_id meta) c BATCH_SIZE (vt_host s) = (r, h1)"
    by fastforce
  note refill = refill_batch_def sync_dispatch_vtab_fetch_batch_def sync_dispatch_def Let_def cursor_meta_of_def
  consider (more) rows where "r = Inr (Inr rows)" "rows \<noteq> []" | (empty) "r = Inr (Inr [])" | (failed) "\<forall>rows. r \<noteq> Inr (Inr rows)"
    by (cases r; metis)
  then show thesis
  proof cases
    case more
    with all n d obtain rs' where rs': "rs = rows @ rs'" "fetch_all k V meta c h1 = Some (rs', h')" by auto
    show thesis
      by (rule batch [of _ "e\<lparr>bc_idx := 0, bc_rows := rows\<rparr>" rs' k], rule refl)
        (use assms more d rs' in \<open>simp_all add: refill on_row_def\<close>)
  next
    case empty
    show thesis by (rule finished, rule refl) (use assms empty d n in \<open>simp_all add: refill at_end_def\<close>)
  next
    case failed
    then consider y where "r = Inl y" | y where "r = Inr (Inl y)" by (metis sum.exhaust)
    then show thesis
      by (cases; intro finished [OF refl]) (use assms d n in \<open>auto simp: refill at_end_def\<close>)
  qed
qed

text \<open>Stepping off a row: to the next row of the cache, or through a refill.\<close>

lemma x_next_batched:
  assumes "on_row meta c e s"
  shows "x_next_cb V c s =
    (let e1 = e\<lparr>bc_idx := bc_idx e + 1\<rparr>; s1 = s\<lparr>vt_batches := (vt_batches s)(c \<mapsto> e1)\<rparr> in
     (SQLITE_OK, if length (bc_rows e) \<le> bc_idx e + 1 then snd (refill_batch V meta c s1) else s1))"
  using assms by (simp add: on_row_def x_next_cb_def Let_def)

lemma scan_on_row:
  assumes "on_row meta c e s" "w \<le> 2 ^ 31"
  shows "scan (Suc m) V c w s =
    map_option (\<lambda>(rows, t). (shown_row w (bc_rows e ! bc_idx e) # rows, t)) (scan m V c w (snd (x_next_cb V c s)))"
proof -
  from assms have "read_columns V c [0..<w] s = (snd (shown_row w (bc_rows e ! bc_idx e)), s)"
    by (subst read_columns_batched [of _ _ meta e]) (auto simp: on_row_def shown_row_def)
  with assms show ?thesis
    by (cases "x_next_cb V c s") (simp add: on_row_def x_eof_cb_def x_rowid_cb_def shown_row_def)
qed

lemma scan_from_row:
  assumes "on_row meta c e s" "w \<le> 2 ^ 31" "fetch_all n V meta c (vt_host s) = Some (rs, h')"
    "length (drop (bc_idx e) (bc_rows e) @ rs) < m"
  shows "\<exists>t. scan m V c w s = Some (map (shown_row w) (drop (bc_idx e) (bc_rows e) @ rs), t) \<and> vt_host t = h' \<and> at_end meta c t"
  using assms
proof (induction m arbitrary: s e n rs)
  case (Suc m)
  let ?e1 = "e\<lparr>bc_idx := bc_idx e + 1\<rparr>"
  let ?s1 = "s\<lparr>vt_batches := (vt_batches s)(c \<mapsto> ?e1)\<rparr>"
  from Suc.prems(1) have idx: "bc_idx e < length (bc_rows e)" by (simp add: on_row_def)
  have split: "drop (bc_idx e) (bc_rows e) = (bc_rows e ! bc_idx e) # drop (Suc (bc_idx e)) (bc_rows e)"
    using idx by (simp add: Cons_nth_drop_Suc)
  note step = scan_on_row [OF Suc.prems(1,2), where m = m and V = V] x_next_batched [OF Suc.prems(1), where V = V]
  show ?case
  proof (cases "length (bc_rows e) \<le> bc_idx e + 1")
    case False
    have "on_row meta c ?e1 ?s1" using Suc.prems(1) False by (simp add: on_row_def cursor_meta_of_def)
    from Suc.IH [OF this Suc.prems(2), of n rs] Suc.prems(3,4) split False
    show ?thesis by (auto simp: step Let_def simp del: scan.simps)
  next
    case True
    have cache: "cursor_meta_of c ?s1 = Some meta" "cm_batched meta" "vt_batches ?s1 c = Some ?e1"
      "length (bc_rows ?e1) \<le> bc_idx ?e1" "\<not> bc_eof_seen ?e1" "fetch_all n V meta c (vt_host ?s1) = Some (rs, h')"
      using Suc.prems(1,3) True by (simp_all add: on_row_def cursor_meta_of_def)
    show ?thesis
    proof (cases rule: refill_batch_step [OF cache, case_names finished batch])
      case (finished s1)
      have "0 < m" using Suc.prems(4) split by simp
      then have "scan m V c w s1 = Some ([], s1)" using finished(2) by (rule scan_at_end [rotated])
      with finished True split show ?thesis by (auto simp: step Let_def simp del: scan.simps)
    next
      case (batch s1 e1 k rs')
      from Suc.IH [OF batch(2) Suc.prems(2) batch(5)] Suc.prems(4) batch(3,4) True split
      show ?thesis using batch(1) by (auto simp: step Let_def simp del: scan.simps)
    qed
  qed
qed simp

text \<open>A batched cursor touches nothing but the host and its own cache.\<close>

definition only_cache :: "u64 \<Rightarrow> ('g, 'w, 'c) vtab_state \<Rightarrow> ('g, 'w, 'c) vtab_state \<Rightarrow> bool" where
  "only_cache c s t \<longleftrightarrow> t = s\<lparr>vt_host := vt_host t, vt_batches := (vt_batches s)(c := vt_batches t c)\<rparr>"

lemma only_cache_refl [simp]: "only_cache c s s"
  by (simp add: only_cache_def)

lemma only_cache_trans: "only_cache c s t \<Longrightarrow> only_cache c t u \<Longrightarrow> only_cache c s u"
  unfolding only_cache_def by (cases s; cases t; cases u) (auto, metis fun_upd_upd)

lemma only_cache_upd [simp]: "only_cache c s (s\<lparr>vt_batches := (vt_batches s)(c := x)\<rparr>)" "only_cache c s (s\<lparr>vt_host := h\<rparr>)"
  by (simp_all add: only_cache_def)

lemma only_cache_meta: "only_cache c s t \<Longrightarrow> cursor_meta_of d t = cursor_meta_of d s"
  by (cases s; cases t) (auto simp: only_cache_def cursor_meta_of_def)

lemma refill_only_cache: "only_cache c s (snd (refill_batch V meta c s))"
  by (auto simp: only_cache_def refill_batch_def sync_dispatch_vtab_fetch_batch_def sync_dispatch_def Let_def split: prod.splits sum.splits)

lemma x_next_only_cache:
  assumes "cursor_meta_of c s = Some meta" "cm_batched meta"
  shows "only_cache c s (snd (x_next_cb V c s))"
  using assms by (auto simp: x_next_cb_def Let_def intro: only_cache_trans [OF only_cache_upd(1) refill_only_cache])

lemma read_columns_only_cache:
  assumes "cursor_meta_of c s = Some meta" "cm_batched meta"
  shows "snd (read_columns V c ks s) = s"
proof (induction ks)
  case (Cons k ks)
  have "snd (x_column_cb V c (word_of_nat k) s) = s"
    using assms by (auto simp: x_column_cb_def Let_def split: option.splits)
  with Cons show ?case by (simp add: case_prod_unfold)
qed simp

lemma scan_only_cache:
  assumes "scan m V c w s = Some (rows, t)" "cursor_meta_of c s = Some meta" "cm_batched meta"
  shows "only_cache c s t"
  using assms
proof (induction m arbitrary: s rows t)
  case (Suc m)
  have e: "snd (x_eof_cb V c s) = s" "snd (x_rowid_cb V c s) = s"
    using Suc.prems by (auto simp: x_eof_cb_def x_rowid_cb_def split: option.splits)
  have r: "snd (read_columns V c [0..<w] s) = s" using Suc.prems by (simp add: read_columns_only_cache)
  let ?u = "snd (x_next_cb V c s)"
  from Suc.prems have u: "only_cache c s ?u" by (simp add: x_next_only_cache)
  from Suc.prems(1) e r consider "t = s" | rows' where "scan m V c w ?u = Some (rows', t)"
    by (auto simp: case_prod_unfold split: if_splits)
  then show ?case
  proof cases
    case 2
    from Suc.IH [OF this] u Suc.prems show ?thesis by (auto simp: only_cache_meta intro: only_cache_trans)
  qed simp
qed simp

text \<open>C15. A batched scan delivers exactly the extension's rows. When a batched cursor was filtered with success, and the
  extension's batches after the filter, up to the first empty or failed one, hold \<open>rows\<close>, then reading the cursor
  the way SQLite does (test for the end, row id, columns, next) ends after \<open>length rows\<close> rows and shows these rows
  in this order, whatever the sizes of the batches; a column past the end of a row is NULL. Nothing but the extension
  and the cache of this cursor changes: other cursors keep their position and their rows.\<close>

theorem batched_scan_exact:
  assumes "cursor_meta_of c s = Some meta" "cm_batched meta"
    "x_filter_cb V c idx_num idx_str argv s = (SQLITE_OK, s1)"
    "dispatch_vtab_filter (ve_env V) (ve_api V) (cm_ext_name meta) (cm_vtab_id meta) c idx_num (map_option from_utf8_lossy idx_str)
       (map sqlite3_value_to_wit argv) (vt_host s) = (r, h)"
    "fetch_all n V meta c h = Some (rows, h')" "w \<le> 2 ^ 31" "length rows < m"
  shows "\<exists>t e. scan m V c w s1 = Some (map (shown_row w) rows, t) \<and> t = s\<lparr>vt_host := h', vt_batches := (vt_batches s)(c \<mapsto> e)\<rparr>"
proof -
  let ?s0 = "s\<lparr>vt_host := h, vt_batches := (vt_batches s)(c \<mapsto> default_cache)\<rparr>"
  have s1: "s1 = snd (refill_batch V meta c ?s0)"
    using assms(1-4) by (auto simp: x_filter_cb_def sync_dispatch_vtab_filter_def sync_dispatch_def SQLITE_OK_def SQLITE_ERROR_def split: sum.splits)
  have s0: "cursor_meta_of c ?s0 = Some meta" "cm_batched meta" "vt_batches ?s0 c = Some default_cache"
    "length (bc_rows default_cache) \<le> bc_idx default_cache" "\<not> bc_eof_seen default_cache" "fetch_all n V meta c (vt_host ?s0) = Some (rows, h')"
    using assms(1,2,5) by (simp_all add: cursor_meta_of_def default_cache_def)
  have "\<exists>t. scan m V c w s1 = Some (map (shown_row w) rows, t) \<and> vt_host t = h' \<and> at_end meta c t"
  proof (cases rule: refill_batch_step [OF s0, case_names finished batch])
    case (finished u)
    with s1 assms(7) scan_at_end show ?thesis by fastforce
  next
    case (batch u e k rs)
    from scan_from_row [OF batch(2) assms(6) batch(5), of m] batch assms(7) s1 show ?thesis by simp
  qed
  then obtain t where t: "scan m V c w s1 = Some (map (shown_row w) rows, t)" "vt_host t = h'" "at_end meta c t" by blast
  have 1: "only_cache c ?s0 s1" unfolding s1 by (rule refill_only_cache)
  with s0(1) have "cursor_meta_of c s1 = Some meta" by (simp add: only_cache_meta)
  from only_cache_trans [OF 1 scan_only_cache [OF t(1) this assms(2)]] t(2,3)
  have "t = s\<lparr>vt_host := h', vt_batches := (vt_batches s)(c \<mapsto> the (vt_batches t c))\<rparr>"
    by (cases s; cases t) (auto simp: only_cache_def at_end_def)
  with t(1) show ?thesis by blast
qed

text \<open>A bridge that holds the batches it has still to deliver.\<close>

definition batch_api :: "batch_row list list guest_api \<Rightarrow> batch_row list list guest_api" where
  "batch_api X = X\<lparr>x_connect := (\<lambda>_ _ _ _ _. ret (Inr ''create table t(a)'')), x_open := (\<lambda>_ _ _. ret (Inr ())), x_filter := (\<lambda>_ _ _ _ _. ret (Inr ())),
     x_fetch_batch := (\<lambda>_ _ _ g. case g of [] \<Rightarrow> (Inr (Inr []), []) | b # bs \<Rightarrow> (Inr (Inr b), bs))\<rparr>"

definition batch_env :: "(batch_row list list, nat, bytes) guest_env \<Rightarrow> batch_row list list guest_api \<Rightarrow> (batch_row list list, nat, bytes) vtab_env" where
  "batch_env E X = \<lparr>ve_env = E\<lparr>g_set_fuel := ret ()\<rparr>, ve_api = batch_api X, ve_show = (\<lambda>_. ''failed''), ve_declare = (\<lambda>_. 0)\<rparr>"

definition batch_host :: "(batch_row list list, nat, bytes) ext_host \<Rightarrow> batch_row list list \<Rightarrow> (batch_row list list, nat, bytes) ext_host" where
  "batch_host h bs = h\<lparr>eh_mutating := [], eh_bridges := [(''t'', bs)]\<rparr>"

definition batch_state :: "(batch_row list list, nat, bytes) ext_host \<Rightarrow> batch_row list list \<Rightarrow> (batch_row list list, nat, bytes) vtab_state" where
  "batch_state h bs = \<lparr>vt_host = batch_host h bs, vt_instances = Map.empty, vt_cursors = [1 \<mapsto> \<lparr>cm_ext_name = ''t'', cm_vtab_id = 5, cm_batched = True\<rparr>],
     vt_next_instance = 1, vt_next_cursor = 2, vt_batches = Map.empty, vt_shadow_owner = None\<rparr>"

lemma batch_fetch:
  "dispatch_vtab_fetch_batch (ve_env (batch_env E X)) (ve_api (batch_env E X)) ''t'' v c n (batch_host h bs) =
     (Inr (Inr (case bs of [] \<Rightarrow> [] | b # _ \<Rightarrow> b)), batch_host h (tl bs))"
  by (cases bs) (simp_all add: dispatch_vtab_fetch_batch_def batch_env_def batch_api_def batch_host_def or_not_loaded_def or_else_def
      try_bridge_vtab_fetch_batch_def read_tier_def on_mutating_def on_bridge_def call_export_def fuelled_def ret_def)

lemma batch_filter:
  "dispatch_vtab_filter (ve_env (batch_env E X)) (ve_api (batch_env E X)) ''t'' v c n q args (batch_host h bs) = (Inr (Inr ()), batch_host h bs)"
  by (simp add: dispatch_vtab_filter_def batch_env_def batch_api_def batch_host_def or_not_loaded_def or_else_def
      try_bridge_vtab_filter_def read_tier_def on_mutating_def on_bridge_def call_export_def fuelled_def ret_def)

theorem batched_scan_exact_witness:
  "\<forall>E X h. \<exists>s1 t. x_filter_cb (batch_env E X) 1 0 None [] (batch_state h [[(7, [SqlInteger 1]), (8, [])], [(9, [SqlNull, SqlInteger 2])]]) = (SQLITE_OK, s1) \<and>
     scan 4 (batch_env E X) 1 2 s1 = Some
       ([((SQLITE_OK, Some 7), [(SQLITE_OK, Some (ResValue (VInteger 1))), (SQLITE_OK, Some (ResValue VNull))]),
         ((SQLITE_OK, Some 8), [(SQLITE_OK, Some (ResValue VNull)), (SQLITE_OK, Some (ResValue VNull))]),
         ((SQLITE_OK, Some 9), [(SQLITE_OK, Some (ResValue VNull)), (SQLITE_OK, Some (ResValue (VInteger 2)))])], t)"
proof (intro allI)
  fix E X h
  let ?bs = "[[(7, [SqlInteger 1]), (8, [])], [(9, [SqlNull, SqlInteger 2])]] :: batch_row list list"
  let ?V = "batch_env E X" and ?s = "batch_state h ?bs" and ?meta = "\<lparr>cm_ext_name = ''t'', cm_vtab_id = 5, cm_batched = True\<rparr>"
  have m: "cursor_meta_of 1 ?s = Some ?meta" by (simp add: cursor_meta_of_def batch_state_def)
  obtain s1 where s1: "x_filter_cb ?V 1 0 None [] ?s = (SQLITE_OK, s1)"
    using m batch_filter [of E X 5 1 0 None "[]" h ?bs]
    by (simp add: x_filter_cb_def sync_dispatch_vtab_filter_def sync_dispatch_def batch_state_def)
  have f: "fetch_all 3 ?V ?meta 1 (batch_host h ?bs) = Some (concat ?bs, batch_host h [])"
    by (simp add: numeral_3_eq_3 batch_fetch)
  have "vt_host ?s = batch_host h ?bs" by (simp add: batch_state_def)
  with batched_scan_exact [OF m _ s1, of "Inr (Inr ())" "batch_host h ?bs" 3 "concat ?bs" "batch_host h []" 2 4] f batch_filter
  obtain t where "scan 4 ?V 1 2 s1 = Some (map (shown_row 2) (concat ?bs), t)" by auto
  moreover have "[0..<2] = [0, Suc 0]" by (simp add: upt_rec)
  ultimately have "scan 4 ?V 1 2 s1 = Some
       ([((SQLITE_OK, Some 7), [(SQLITE_OK, Some (ResValue (VInteger 1))), (SQLITE_OK, Some (ResValue VNull))]),
         ((SQLITE_OK, Some 8), [(SQLITE_OK, Some (ResValue VNull)), (SQLITE_OK, Some (ResValue VNull))]),
         ((SQLITE_OK, Some 9), [(SQLITE_OK, Some (ResValue VNull)), (SQLITE_OK, Some (ResValue (VInteger 2)))])], t)"
    by (simp add: shown_row_def wit_to_sqlite3_result_def)
  with s1 show "\<exists>s1 t. x_filter_cb ?V 1 0 None [] ?s = (SQLITE_OK, s1) \<and> scan 4 ?V 1 2 s1 = Some
       ([((SQLITE_OK, Some 7), [(SQLITE_OK, Some (ResValue (VInteger 1))), (SQLITE_OK, Some (ResValue VNull))]),
         ((SQLITE_OK, Some 8), [(SQLITE_OK, Some (ResValue VNull)), (SQLITE_OK, Some (ResValue VNull))]),
         ((SQLITE_OK, Some 9), [(SQLITE_OK, Some (ResValue VNull)), (SQLITE_OK, Some (ResValue (VInteger 2)))])], t)"
    by blast
qed

section \<open>Ids are fresh and nothing leaks\<close>

text \<open>Every entry point that SQLite or the loader calls, and the state after it.\<close>

datatype vtab_call =
    CallRegister string string u64 bool bool bool
  | CallCreate module_aux "string option list"
  | CallConnect module_aux "string option list"
  | CallDisconnect u64
  | CallDestroy u64
  | CallBestIndex u64 planner_info planner_choice
  | CallOpen u64
  | CallClose u64
  | CallFilter u64 i32 "string option" "sqlite_value list"
  | CallNext u64
  | CallEof u64
  | CallColumn u64 i32
  | CallRowid u64
  | CallUpdate u64 "sqlite_value list"
  | CallBegin u64
  | CallSync u64
  | CallCommit u64
  | CallRollback u64
  | CallRename u64 "string option"
  | CallSavepoint u64 i32
  | CallRelease u64 i32
  | CallRollbackTo u64 i32
  | CallShadowName "string option"
  | CallIntegrity u64 "string option" "string option" i32

fun run_vtab :: "(string \<Rightarrow> module_template \<Rightarrow> module_aux \<Rightarrow> int \<times> nat) \<Rightarrow> ('g, 'w, 'c) vtab_env \<Rightarrow> vtab_call \<Rightarrow> ('g, 'w, 'c) vtab_state \<Rightarrow> ('g, 'w, 'c) vtab_state" where
  "run_vtab K V (CallRegister n ext v e m b) s = snd (register_vtab_module K n ext v e m b s)"
| "run_vtab K V (CallCreate aux argv) s = snd (x_create V aux argv s)"
| "run_vtab K V (CallConnect aux argv) s = snd (x_connect_cb V aux argv s)"
| "run_vtab K V (CallDisconnect i) s = snd (x_disconnect_cb V i s)"
| "run_vtab K V (CallDestroy i) s = snd (x_destroy_cb V i s)"
| "run_vtab K V (CallBestIndex i info out) s = snd (x_best_index_cb V i info out s)"
| "run_vtab K V (CallOpen i) s = snd (x_open_cb V i s)"
| "run_vtab K V (CallClose c) s = snd (x_close_cb V c s)"
| "run_vtab K V (CallFilter c n q args) s = snd (x_filter_cb V c n q args s)"
| "run_vtab K V (CallNext c) s = snd (x_next_cb V c s)"
| "run_vtab K V (CallEof c) s = snd (x_eof_cb V c s)"
| "run_vtab K V (CallColumn c n) s = snd (x_column_cb V c n s)"
| "run_vtab K V (CallRowid c) s = snd (x_rowid_cb V c s)"
| "run_vtab K V (CallUpdate i args) s = snd (x_update_cb V i args s)"
| "run_vtab K V (CallBegin i) s = snd (x_begin_cb V i s)"
| "run_vtab K V (CallSync i) s = snd (x_sync_cb V i s)"
| "run_vtab K V (CallCommit i) s = snd (x_commit_cb V i s)"
| "run_vtab K V (CallRollback i) s = snd (x_rollback_cb V i s)"
| "run_vtab K V (CallRename i n) s = snd (x_rename_cb V i n s)"
| "run_vtab K V (CallSavepoint i n) s = snd (x_savepoint_cb V i n s)"
| "run_vtab K V (CallRelease i n) s = snd (x_release_cb V i n s)"
| "run_vtab K V (CallRollbackTo i n) s = snd (x_rollback_to_cb V i n s)"
| "run_vtab K V (CallShadowName n) s = snd (x_shadow_name V n s)"
| "run_vtab K V (CallIntegrity i q t m) s = snd (x_integrity_cb V i q t m s)"

definition vtab_init :: "('g, 'w, 'c) ext_host \<Rightarrow> ('g, 'w, 'c) vtab_state" where
  "vtab_init h = \<lparr>vt_host = h, vt_instances = Map.empty, vt_cursors = Map.empty, vt_next_instance = 1, vt_next_cursor = 1,
     vt_batches = Map.empty, vt_shadow_owner = None\<rparr>"

text \<open>After at most \<open>k\<close> allocations of each kind: ids in use are below the counter, cached rows belong to open cursors.\<close>

definition ids_ok :: "nat \<Rightarrow> ('g, 'w, 'c) vtab_state \<Rightarrow> bool" where
  "ids_ok k s \<longleftrightarrow>
     unat (vt_next_instance s) \<le> Suc k \<and> unat (vt_next_cursor s) \<le> Suc k \<and>
     (\<forall>i \<in> dom (vt_instances s). i < vt_next_instance s) \<and> (\<forall>c \<in> dom (vt_cursors s). c < vt_next_cursor s) \<and>
     dom (vt_batches s) \<subseteq> dom (vt_cursors s)"

lemma ids_ok_init: "ids_ok 0 (vtab_init h)"
  by (simp add: ids_ok_def vtab_init_def)

lemma ids_ok_Suc: "ids_ok k s \<Longrightarrow> ids_ok (Suc k) s"
  by (auto simp: ids_ok_def)

lemma ids_ok_same_tables: "same_tables s s' \<Longrightarrow> ids_ok k s' = ids_ok k s"
  by (simp add: ids_ok_def same_tables_sel)

lemma only_cache_sel:
  assumes "only_cache c s s'"
  shows "vt_instances s' = vt_instances s" "vt_cursors s' = vt_cursors s" "vt_next_instance s' = vt_next_instance s"
    "vt_next_cursor s' = vt_next_cursor s" "vt_shadow_owner s' = vt_shadow_owner s" "d \<noteq> c \<Longrightarrow> vt_batches s' d = vt_batches s d"
  by (subst assms [unfolded only_cache_def], simp)+

lemma ids_ok_only_cache:
  assumes "only_cache c s s'" "cursor_meta_of c s \<noteq> None" "ids_ok k s"
  shows "ids_ok k s'"
proof -
  have "x \<in> dom (vt_cursors s)" if "x \<in> dom (vt_batches s')" for x
  proof (cases "x = c")
    case False
    with that only_cache_sel(6) [OF assms(1), of x] have "x \<in> dom (vt_batches s)" by (simp add: domIff)
    with assms(3) show ?thesis unfolding ids_ok_def by blast
  qed (use assms(2) in \<open>simp add: cursor_meta_of_def domIff\<close>)
  with assms(3) show ?thesis by (auto simp: ids_ok_def only_cache_sel [OF assms(1)])
qed

text \<open>A counter below its largest value does not wrap.\<close>

lemma counter_step:
  fixes n :: u64
  assumes "unat n \<le> Suc k" "Suc (Suc k) < 2 ^ 64"
  shows "unat (n + 1) = Suc (unat n)" "i < n \<Longrightarrow> i < n + 1" "n < n + 1"
proof -
  have "n \<noteq> - 1"
  proof
    assume "n = - 1"
    then have "unat n = 2 ^ 64 - 1" by (simp add: unsigned_minus_1_eq_mask mask_eq_exp_minus_1)
    with assms show False by simp
  qed
  then show u: "unat (n + 1) = Suc (unat n)" by (metis unatSuc add.commute add_eq_0_iff)
  then show "i < n \<Longrightarrow> i < n + 1" "n < n + 1" by (simp_all add: word_less_nat_alt)
qed

lemma alloc_fst [simp]: "fst (alloc_instance_id im s) = vt_next_instance s" "fst (alloc_cursor_id cm s) = vt_next_cursor s"
  by (simp_all add: alloc_instance_id_def alloc_cursor_id_def Let_def)

lemma ids_ok_alloc_instance:
  assumes "ids_ok k s" "Suc (Suc k) < 2 ^ 64"
  shows "ids_ok (Suc k) (snd (alloc_instance_id meta s))" "vt_instances s (fst (alloc_instance_id meta s)) = None"
  using assms counter_step [of "vt_next_instance s" k] by (auto simp: ids_ok_def alloc_instance_id_def Let_def)

lemma ids_ok_alloc_cursor:
  assumes "ids_ok k s" "Suc (Suc k) < 2 ^ 64"
  shows "ids_ok (Suc k) (snd (alloc_cursor_id meta s))" "vt_cursors s (fst (alloc_cursor_id meta s)) = None"
    "vt_batches (snd (alloc_cursor_id meta s)) (fst (alloc_cursor_id meta s)) = None"
proof -
  from assms show "ids_ok (Suc k) (snd (alloc_cursor_id meta s))" and c: "vt_cursors s (fst (alloc_cursor_id meta s)) = None"
    using counter_step [of "vt_next_cursor s" k] by (auto simp: ids_ok_def alloc_cursor_id_def Let_def)
  from c assms(1) show "vt_batches (snd (alloc_cursor_id meta s)) (fst (alloc_cursor_id meta s)) = None"
    by (auto simp: ids_ok_def alloc_cursor_id_def Let_def domIff subset_iff)
qed

lemma ids_ok_drop_instance: "ids_ok k s \<Longrightarrow> ids_ok k (drop_instance i s)"
  by (auto simp: ids_ok_def drop_instance_def)

lemma ids_ok_drop_cursor: "ids_ok k s \<Longrightarrow> vt_batches s c = None \<Longrightarrow> ids_ok k (drop_cursor c s)"
  by (auto simp: ids_ok_def drop_cursor_def)

lemma ids_ok_drop_batch_cache: "ids_ok k s \<Longrightarrow> ids_ok k (drop_batch_cache c s)"
  by (auto simp: ids_ok_def drop_batch_cache_def)

text \<open>The callbacks that keep the tables.\<close>

lemma same_tables_dispatch:
  "same_tables s (snd (sync_dispatch V m s))" "same_tables s (snd (sync_dispatch_flag d f s))"
  using same_tables_sync [of V m s] same_tables_flag [of d f s] by (metis prod.collapse)+

lemma same_tables_tx:
  assumes "\<And>m t. same_tables t (snd (f m t))"
  shows "same_tables s (snd (tx_callback b i f s))"
  using assms by (auto simp: tx_callback_def split: option.splits prod.splits sum.splits) (metis snd_conv)+

lemma same_tables_callbacks:
  "same_tables s (snd (x_best_index_cb V i info out s))" "same_tables s (snd (x_update_cb V i args s))"
  "same_tables s (snd (x_begin_cb V i s))" "same_tables s (snd (x_sync_cb V i s))" "same_tables s (snd (x_commit_cb V i s))"
  "same_tables s (snd (x_rollback_cb V i s))" "same_tables s (snd (x_rename_cb V i z s))" "same_tables s (snd (x_savepoint_cb V i n s))"
  "same_tables s (snd (x_release_cb V i n s))" "same_tables s (snd (x_rollback_to_cb V i n s))" "same_tables s (snd (x_shadow_name V z s))"
  "same_tables s (snd (x_integrity_cb V i q u f s))" "same_tables s (snd (x_eof_cb V c s))" "same_tables s (snd (x_column_cb V c k s))"
  "same_tables s (snd (x_rowid_cb V c s))"
  by (auto simp: x_begin_cb_def x_sync_cb_def x_commit_cb_def x_rollback_cb_def x_rename_cb_def x_savepoint_cb_def x_release_cb_def
      x_rollback_to_cb_def sync_defs same_tables_dispatch intro!: same_tables_tx)
    (auto simp: x_best_index_cb_def x_update_cb_def x_shadow_name_def x_integrity_cb_def x_eof_cb_def x_column_cb_def x_rowid_cb_def Let_def sync_defs
      split: option.splits prod.splits sum.splits dest: same_tables_sync same_tables_flag)

text \<open>What the allocating callbacks leave: the new entry on success, the old tables on failure.\<close>

lemma create_or_connect_tables:
  assumes "create_or_connect V aux argv b s = (r, s')"
  shows "\<exists>meta. same_tables (if fst r = SQLITE_OK then snd (alloc_instance_id meta s)
      else drop_instance (vt_next_instance s) (snd (alloc_instance_id meta s))) s' \<and>
    (fst r = SQLITE_OK \<longrightarrow> fst (snd r) = Some (vt_next_instance s))"
proof -
  let ?meta = "\<lparr>im_ext_name = ma_ext_name aux, im_vtab_id = ma_vtab_id aux, im_batched = ma_batched aux\<rparr>"
  let ?s1 = "snd (alloc_instance_id ?meta s)"
  let ?args = "map cstr_to_string argv" and ?i = "vt_next_instance s"
  let ?db = "if 1 < length ?args then ?args ! 1 else []" and ?table = "if 2 < length ?args then ?args ! 2 else []"
  define m where "m = (if b \<or> ma_eponymous aux
    then dispatch_vtab_connect (ve_env V) (ve_api V) (ma_ext_name aux) (ma_vtab_id aux) ?i ?db ?table (drop 3 ?args)
    else dispatch_vtab_create (ve_env V) (ma_ext_name aux) (ma_vtab_id aux) ?i ?db ?table (drop 3 ?args))"
  have m: "create_or_connect V aux argv b s = (case sync_dispatch V m ?s1 of
             (Inl e, s2) \<Rightarrow> ((SQLITE_ERROR, None, Some (set_err e)), drop_instance (vt_next_instance s) s2)
           | (Inr sql, s2) \<Rightarrow>
               if CHR 0x00 \<in> set sql then ((SQLITE_ERROR, None, Some (set_err ''vtab schema contained NUL'')), drop_instance (vt_next_instance s) s2)
               else if ve_declare V sql \<noteq> SQLITE_OK then ((ve_declare V sql, None, None), drop_instance (vt_next_instance s) s2)
               else ((SQLITE_OK, Some (vt_next_instance s), None), s2))"
    unfolding m_def by (cases "b \<or> ma_eponymous aux") (simp_all add: create_or_connect_def Let_def alloc_instance_id_def sync_defs)
  obtain q s2 where d: "sync_dispatch V m ?s1 = (q, s2)" by fastforce
  have "same_tables ?s1 s2" using d by (rule same_tables_sync)
  moreover from this have "same_tables (drop_instance i ?s1) (drop_instance i s2)" for i
    by (cases ?s1; cases s2) (simp add: same_tables_def drop_instance_def)
  ultimately show ?thesis using assms unfolding m d
    by (intro exI [of _ ?meta]) (auto simp: SQLITE_OK_def SQLITE_ERROR_def split: sum.splits if_splits)
qed

lemma x_open_tables:
  assumes "x_open_cb V i s = (r, s')"
  shows "same_tables s s' \<and> fst r \<noteq> SQLITE_OK \<or>
    (\<exists>meta. same_tables (if fst r = SQLITE_OK then snd (alloc_cursor_id meta s)
       else drop_cursor (vt_next_cursor s) (snd (alloc_cursor_id meta s))) s' \<and>
     (fst r = SQLITE_OK \<longrightarrow> snd r = Some (vt_next_cursor s)))"
proof (cases "instance_meta_of i s")
  case None
  with assms show ?thesis by (auto simp: x_open_cb_def SQLITE_OK_def SQLITE_INTERNAL_def)
next
  case (Some im)
  let ?meta = "\<lparr>cm_ext_name = im_ext_name im, cm_vtab_id = im_vtab_id im, cm_batched = im_batched im\<rparr>"
  let ?s1 = "snd (alloc_cursor_id ?meta s)"
  obtain q s2 where d: "sync_dispatch_vtab_open V (im_ext_name im) (im_vtab_id im) i (vt_next_cursor s) ?s1 = (q, s2)" by fastforce
  have "same_tables ?s1 s2" using d unfolding sync_defs by (rule same_tables_sync)
  moreover from this have "same_tables (drop_cursor c ?s1) (drop_cursor c s2)" for c
    by (cases ?s1; cases s2) (simp add: same_tables_def drop_cursor_def)
  moreover have "x_open_cb V i s = (case (q, s2) of
      (Inl _, s2) \<Rightarrow> ((SQLITE_ERROR, None), drop_cursor (vt_next_cursor s) s2) | (Inr _, s2) \<Rightarrow> ((SQLITE_OK, Some (vt_next_cursor s)), s2))"
    using Some d by (simp add: x_open_cb_def alloc_cursor_id_def Let_def)
  ultimately show ?thesis using assms
    by (intro disjI2 exI [of _ ?meta]) (auto simp: SQLITE_OK_def SQLITE_ERROR_def split: sum.splits)
qed

lemma x_filter_only_cache: "cursor_meta_of c s = Some meta \<Longrightarrow> only_cache c s (snd (x_filter_cb V c n q args s))"
  by (auto simp: x_filter_cb_def sync_dispatch_vtab_filter_def sync_dispatch_def split: prod.splits sum.splits
      intro: only_cache_trans [OF only_cache_trans [OF only_cache_upd(2) only_cache_upd(1)] refill_only_cache])

lemma x_next_keeps_others: "cursor_meta_of c s = Some meta \<Longrightarrow> only_cache c s (snd (x_next_cb V c s))"
  by (cases "cm_batched meta", rule x_next_only_cache)
    (auto simp: x_next_cb_def sync_dispatch_vtab_next_def sync_dispatch_def split: prod.splits sum.splits)

lemma x_open_failed: "x_open_cb V i s = ((rc, cursor), s') \<Longrightarrow> rc \<noteq> SQLITE_OK \<Longrightarrow> cursor = None"
  by (auto simp: x_open_cb_def split: option.splits prod.splits sum.splits)

lemma create_failed: "create_or_connect V aux argv b s = ((rc, tab, msg), s') \<Longrightarrow> rc \<noteq> SQLITE_OK \<Longrightarrow> tab = None"
  unfolding create_or_connect_def Let_def by (auto split: prod.splits sum.splits if_splits)

lemma x_close_tables:
  "vt_cursors (snd (x_close_cb V c s)) = (vt_cursors s)(c := None) \<and> vt_batches (snd (x_close_cb V c s)) = (vt_batches s)(c := None) \<and>
   vt_instances (snd (x_close_cb V c s)) = vt_instances s"
  by (cases "cursor_meta_of c s")
    (simp_all add: x_close_cb_def drop_cursor_def drop_batch_cache_def sync_defs same_tables_sel [OF same_tables_dispatch(1)])

lemma ids_ok_x_close:
  assumes "ids_ok k s"
  shows "ids_ok k (snd (x_close_cb V c s))"
proof -
  define t where "t = (case cursor_meta_of c s of
      Some meta \<Rightarrow> snd (sync_dispatch_vtab_close V (cm_ext_name meta) (cm_vtab_id meta) c s) | None \<Rightarrow> s)"
  have "same_tables s t" by (simp add: t_def sync_defs same_tables_dispatch split: option.splits)
  moreover have "snd (x_close_cb V c s) = drop_cursor c (drop_batch_cache c t)" by (simp add: x_close_cb_def t_def)
  ultimately show ?thesis using assms
    by (auto simp: ids_ok_same_tables drop_batch_cache_def intro!: ids_ok_drop_cursor ids_ok_drop_batch_cache [unfolded drop_batch_cache_def])
qed

lemma ids_ok_disconnect:
  assumes "ids_ok k s"
  shows "ids_ok k (snd (x_disconnect_cb V i s))" "ids_ok k (snd (x_destroy_cb V i s))"
  using assms
  by (auto simp: x_disconnect_cb_def x_destroy_cb_def sync_defs ids_ok_same_tables [OF same_tables_dispatch(1)] intro!: ids_ok_drop_instance
      split: option.splits)

lemma x_open_fresh:
  assumes "ids_ok k s" "Suc (Suc k) < 2 ^ 64" "x_open_cb V i s = ((rc, cursor), s')"
  shows "(if rc = SQLITE_OK then \<exists>c meta. cursor = Some c \<and> vt_cursors s c = None \<and> vt_cursors s' = (vt_cursors s)(c \<mapsto> meta)
     else cursor = None \<and> vt_cursors s' = vt_cursors s) \<and> vt_batches s' = vt_batches s \<and> vt_instances s' = vt_instances s"
proof -
  have new: "vt_cursors s (vt_next_cursor s) = None" using ids_ok_alloc_cursor(2) [OF assms(1,2)] by simp
  note failed = x_open_failed [OF assms(3)]
  from x_open_tables [OF assms(3)] show ?thesis
  proof (elim disjE exE conjE)
    fix meta
    assume t: "same_tables (if fst (rc, cursor) = SQLITE_OK then snd (alloc_cursor_id meta s)
        else drop_cursor (vt_next_cursor s) (snd (alloc_cursor_id meta s))) s'"
      "fst (rc, cursor) = SQLITE_OK \<longrightarrow> snd (rc, cursor) = Some (vt_next_cursor s)"
    show ?thesis using same_tables_sel [OF t(1)] t(2) failed new
      by (cases "rc = SQLITE_OK") (auto simp: alloc_cursor_id_def drop_cursor_def Let_def fun_upd_idem)
  qed (use failed same_tables_sel in auto)
qed

lemma create_fresh:
  assumes "ids_ok k s" "Suc (Suc k) < 2 ^ 64" "create_or_connect V aux argv b s = ((rc, tab, msg), s')"
  shows "(if rc = SQLITE_OK then \<exists>j meta. tab = Some j \<and> vt_instances s j = None \<and> vt_instances s' = (vt_instances s)(j \<mapsto> meta)
     else tab = None \<and> vt_instances s' = vt_instances s) \<and> vt_batches s' = vt_batches s \<and> vt_cursors s' = vt_cursors s"
proof -
  have new: "vt_instances s (vt_next_instance s) = None" using ids_ok_alloc_instance(2) [OF assms(1,2)] by simp
  from create_or_connect_tables [OF assms(3)] obtain meta where
    t: "same_tables (if rc = SQLITE_OK then snd (alloc_instance_id meta s)
        else drop_instance (vt_next_instance s) (snd (alloc_instance_id meta s))) s'"
      "rc = SQLITE_OK \<longrightarrow> tab = Some (vt_next_instance s)" by auto
  show ?thesis using same_tables_sel [OF t(1)] t(2) create_failed [OF assms(3)] new
    by (cases "rc = SQLITE_OK") (auto simp: alloc_instance_id_def drop_instance_def Let_def fun_upd_idem)
qed

lemma ids_ok_create:
  assumes "ids_ok k s" "Suc (Suc k) < 2 ^ 64"
  shows "ids_ok (Suc k) (snd (create_or_connect V aux argv b s))"
proof -
  obtain r s' where c: "create_or_connect V aux argv b s = (r, s')" by fastforce
  from create_or_connect_tables [OF c] obtain meta where
    "same_tables (if fst r = SQLITE_OK then snd (alloc_instance_id meta s)
      else drop_instance (vt_next_instance s) (snd (alloc_instance_id meta s))) s'" by blast
  from ids_ok_same_tables [OF this] ids_ok_alloc_instance(1) [OF assms] show ?thesis
    by (simp add: c ids_ok_drop_instance)
qed

lemma ids_ok_open:
  assumes "ids_ok k s" "Suc (Suc k) < 2 ^ 64"
  shows "ids_ok (Suc k) (snd (x_open_cb V i s))"
proof -
  obtain r s' where c: "x_open_cb V i s = (r, s')" by fastforce
  from x_open_tables [OF c] show ?thesis
  proof (elim disjE exE conjE)
    fix meta
    assume "same_tables (if fst r = SQLITE_OK then snd (alloc_cursor_id meta s) else drop_cursor (vt_next_cursor s) (snd (alloc_cursor_id meta s))) s'"
    from ids_ok_same_tables [OF this] ids_ok_alloc_cursor [OF assms, of meta] show ?thesis
      by (simp add: c ids_ok_drop_cursor)
  qed (use assms in \<open>simp add: c ids_ok_same_tables ids_ok_Suc\<close>)
qed

lemma run_vtab_ids_ok:
  assumes "ids_ok k s" "Suc (Suc k) < 2 ^ 64"
  shows "ids_ok (Suc k) (run_vtab K V call s)"
proof -
  have same: "ids_ok (Suc k) t" if "same_tables s t" for t
    using that assms(1) by (simp add: ids_ok_same_tables ids_ok_Suc)
  have reg: "ids_ok (Suc k) (snd (register_vtab_module K n ext v e m b s))" for n ext v e m b
    using ids_ok_Suc [OF assms(1)] by (auto simp: register_vtab_module_def Let_def ids_ok_def split: prod.splits)
  have cur: "ids_ok (Suc k) (snd (x_filter_cb V c n q args s))" "ids_ok (Suc k) (snd (x_next_cb V c s))" for c n q args
  proof -
    show "ids_ok (Suc k) (snd (x_filter_cb V c n q args s))"
      using assms(1) x_filter_only_cache [of c s] ids_ok_only_cache ids_ok_Suc
      by (cases "cursor_meta_of c s") (simp add: x_filter_cb_def ids_ok_Suc, fastforce)
    show "ids_ok (Suc k) (snd (x_next_cb V c s))"
      using assms(1) x_next_keeps_others [of c s] ids_ok_only_cache ids_ok_Suc
      by (cases "cursor_meta_of c s") (simp add: x_next_cb_def ids_ok_Suc, fastforce)
  qed
  show ?thesis
    using ids_ok_create [OF assms] ids_ok_open [OF assms] ids_ok_disconnect [OF ids_ok_Suc [OF assms(1)]] ids_ok_x_close [OF ids_ok_Suc [OF assms(1)]]
      same_tables_callbacks [THEN same] reg cur
    by (cases call) (simp_all add: x_create_def x_connect_cb_def)
qed

lemma run_vtabs_ids_ok:
  assumes "length calls + 1 < 2 ^ 64"
  shows "ids_ok (length calls) (fold (run_vtab K V) calls (vtab_init h))"
  using assms
proof (induction calls rule: rev_induct)
  case (snoc call calls)
  then show ?case using run_vtab_ids_ok [of "length calls"] by simp
qed (simp add: ids_ok_init)

text \<open>C16. Object ids are never shared and nothing leaks. After any sequence of fewer than \<open>2 ^ 64 - 1\<close> calls of the
  module's entry points, in any order and with any arguments: the id that opening a cursor or creating a table hands
  out is not in use, and the call adds this one entry and changes no other; a call that fails leaves the tables of
  ids as they were; and rows are cached for open cursors only, so closing a cursor frees all that is kept for it.\<close>

theorem vtab_ids_fresh:
  assumes "s = fold (run_vtab K V) calls (vtab_init h)" "length calls + 2 < 2 ^ 64"
    "x_open_cb V i s = ((rc, cursor), s')" "create_or_connect V aux argv b s = ((rc2, tab, msg), s2)"
    "x_close_cb V d s = (rc3, s3)"
  shows "dom (vt_batches s) \<subseteq> dom (vt_cursors s) \<and>
    (if rc = SQLITE_OK then \<exists>c meta. cursor = Some c \<and> vt_cursors s c = None \<and> vt_cursors s' = (vt_cursors s)(c \<mapsto> meta)
     else cursor = None \<and> vt_cursors s' = vt_cursors s) \<and>
    vt_batches s' = vt_batches s \<and> vt_instances s' = vt_instances s \<and>
    (if rc2 = SQLITE_OK then \<exists>j meta. tab = Some j \<and> vt_instances s j = None \<and> vt_instances s2 = (vt_instances s)(j \<mapsto> meta)
     else tab = None \<and> vt_instances s2 = vt_instances s) \<and>
    vt_batches s2 = vt_batches s \<and> vt_cursors s2 = vt_cursors s \<and>
    vt_cursors s3 = (vt_cursors s)(d := None) \<and> vt_batches s3 = (vt_batches s)(d := None) \<and> vt_instances s3 = vt_instances s"
proof -
  have ok: "ids_ok (length calls) s" "Suc (Suc (length calls)) < 2 ^ 64"
    using run_vtabs_ids_ok [of calls K V h] assms(1,2) by simp_all
  then have "dom (vt_batches s) \<subseteq> dom (vt_cursors s)" by (simp add: ids_ok_def)
  moreover have "vt_cursors s3 = (vt_cursors s)(d := None) \<and> vt_batches s3 = (vt_batches s)(d := None) \<and> vt_instances s3 = vt_instances s"
    using x_close_tables [of V d s] assms(5) by simp
  ultimately show ?thesis using x_open_fresh [OF ok assms(3)] create_fresh [OF ok assms(4)]
    by (elim conjE) (intro conjI; assumption)
qed

text \<open>The batching bridge with one table and one open cursor, and a second cursor opened on it.\<close>

abbreviation batch_aux :: module_aux where
  "batch_aux \<equiv> \<lparr>ma_ext_name = ''t'', ma_vtab_id = 5, ma_eponymous = True, ma_batched = True\<rparr>"

lemma batch_connect:
  "dispatch_vtab_connect (ve_env (batch_env E X)) (ve_api (batch_env E X)) ''t'' v i d t args (batch_host h bs) =
     (Inr (Inr ''create table t(a)''), batch_host h bs)"
  "dispatch_vtab_open (ve_env (batch_env E X)) (ve_api (batch_env E X)) ''t'' v i c (batch_host h bs) = (Inr (Inr ()), batch_host h bs)"
  by (simp_all add: dispatch_vtab_connect_def dispatch_vtab_open_def batch_env_def batch_api_def batch_host_def or_not_loaded_def or_else_def
      try_bridge_vtab_connect_def try_bridge_vtab_open_def read_tier_def on_mutating_def on_bridge_def call_export_def fuelled_def ret_def)

theorem vtab_ids_fresh_witness:
  "\<forall>E X h. \<exists>s s'. s = fold (run_vtab (\<lambda>_ _ _. (0, 0)) (batch_env E X)) [CallConnect batch_aux [], CallOpen 1] (vtab_init (batch_host h [])) \<and>
     x_open_cb (batch_env E X) 1 s = ((SQLITE_OK, Some 2), s') \<and> vt_cursors s 1 \<noteq> None \<and> vt_cursors s 2 = None \<and> vt_cursors s' 1 = vt_cursors s 1"
proof (intro allI)
  fix E X h
  let ?V = "batch_env E X" and ?calls = "[CallConnect batch_aux [], CallOpen 1]" and ?K = "\<lambda>_ _ _. (0, 0)"
  let ?s = "fold (run_vtab ?K ?V) ?calls (vtab_init (batch_host h []))"
  have d: "ve_declare ?V q = SQLITE_OK" for q by (simp add: batch_env_def SQLITE_OK_def)
  have s: "?s = (vtab_init (batch_host h []))\<lparr>vt_next_instance := 2, vt_instances := [1 \<mapsto> \<lparr>im_ext_name = ''t'', im_vtab_id = 5, im_batched = True\<rparr>],
      vt_next_cursor := 2, vt_cursors := [1 \<mapsto> \<lparr>cm_ext_name = ''t'', cm_vtab_id = 5, cm_batched = True\<rparr>]\<rparr>"
    by (simp add: x_connect_cb_def create_or_connect_def Let_def alloc_instance_id_def alloc_cursor_id_def sync_defs sync_dispatch_def vtab_init_def
        batch_connect d x_open_cb_def instance_meta_of_def)
  obtain s' where o: "x_open_cb ?V 1 ?s = ((SQLITE_OK, Some 2), s')"
    unfolding s by (simp add: x_open_cb_def instance_meta_of_def alloc_cursor_id_def Let_def sync_defs sync_dispatch_def vtab_init_def batch_connect)
  obtain rc2 tab msg s2 where c: "create_or_connect ?V batch_aux [] True ?s = ((rc2, tab, msg), s2)" by (metis prod_cases3 surj_pair)
  obtain rc3 s3 where l: "x_close_cb ?V 1 ?s = (rc3, s3)" by (metis surj_pair)
  from vtab_ids_fresh [OF refl _ o c l] obtain meta where "vt_cursors ?s 2 = None" "vt_cursors s' = (vt_cursors ?s)(2 \<mapsto> meta)"
    by (simp del: fold_simps) blast
  moreover have "vt_cursors ?s 1 \<noteq> None" unfolding s by simp
  ultimately show "\<exists>s s'. s = ?s \<and> x_open_cb ?V 1 s = ((SQLITE_OK, Some 2), s') \<and> vt_cursors s 1 \<noteq> None \<and> vt_cursors s 2 = None \<and>
      vt_cursors s' 1 = vt_cursors s 1"
    using o by (intro exI [of _ ?s] exI [of _ s']) (simp del: fold_simps)
qed

text \<open>An error of the extension in a later batch ends the scan like the last row does: the step reports success, and so does
  the test for the end.\<close>

lemma failed_batch_ends_scan:
  assumes "on_row meta c e s" "length (bc_rows e) = bc_idx e + 1"
    "\<forall>h. \<exists>e h'. dispatch_vtab_fetch_batch (ve_env V) (ve_api V) (cm_ext_name meta) (cm_vtab_id meta) c BATCH_SIZE h = (Inl e, h')"
  shows "\<exists>s1. x_next_cb V c s = (SQLITE_OK, s1) \<and> x_eof_cb V c s1 = (1, s1)"
proof -
  let ?s1 = "s\<lparr>vt_batches := (vt_batches s)(c \<mapsto> e\<lparr>bc_idx := bc_idx e + 1\<rparr>)\<rparr>"
  obtain x h' where "dispatch_vtab_fetch_batch (ve_env V) (ve_api V) (cm_ext_name meta) (cm_vtab_id meta) c BATCH_SIZE (vt_host ?s1) = (Inl x, h')"
    using assms(3) by metis
  with assms(1,2) x_next_batched [OF assms(1), of V] show ?thesis
    by (simp add: on_row_def x_eof_cb_def refill_batch_def sync_dispatch_vtab_fetch_batch_def sync_dispatch_def cursor_meta_of_def Let_def)
qed

end
