(* ===== verification/Frame_Logic.thy ===== *)
theory Frame_Logic
  imports Prelude
begin

text \<open>
  What an operation leaves of a state, as a relation between the state before and after. The contract of such a relation is
  that it is reflexive and transitive; the operations built from parts that respect it respect it too.
\<close>

definition framed :: "('s \<Rightarrow> 's \<Rightarrow> bool) \<Rightarrow> ('s \<Rightarrow> 'r \<times> 's) \<Rightarrow> bool" where
  "framed R f \<longleftrightarrow> (\<forall>s. R s (snd (f s)))"

lemma framedI: "(\<And>s. R s (snd (f s))) \<Longrightarrow> framed R f"
  by (simp add: framed_def)

lemma framedD: "framed R f \<Longrightarrow> f s = (r, s') \<Longrightarrow> R s s'"
  by (metis framed_def snd_conv)

lemma framed_if: "framed R f \<Longrightarrow> framed R g \<Longrightarrow> framed R (if b then f else g)"
  by simp

locale frame_relation =
  fixes R :: "'s \<Rightarrow> 's \<Rightarrow> bool"
  assumes frame_refl: "R s s"
    and frame_trans: "R s t \<Longrightarrow> R t u \<Longrightarrow> R s u"
begin

lemma framed_return: "framed R (\<lambda>s. (a, s))"
  by (simp add: framed_def frame_refl)

lemma framed_ret: "framed R (ret x)"
  by (simp add: framed_def frame_refl)

lemma framed_query: "framed R (query q)"
  by (simp add: framed_def frame_refl)

lemma framed_bnd:
  assumes "framed R f" "\<And>x. framed R (g x)"
  shows "framed R (bnd f g)"
proof (rule framedI)
  fix s
  obtain r s1 where f: "f s = (r, s1)" by fastforce
  have "R s s1" using assms(1) f by (rule framedD)
  with f assms(2) show "R s (snd (bnd f g s))"
    by (cases r) (auto simp: bnd_def framed_def intro: frame_trans)
qed

text \<open>Only what can follow a success needs to respect the relation.\<close>

lemma framed_bnd_query:
  assumes "\<And>s x. q s = Inr x \<Longrightarrow> framed R (g x)"
  shows "framed R (bnd (query q) g)"
proof (rule framedI)
  fix s
  show "R s (snd (bnd (query q) g s))"
    using assms [of s] by (cases "q s") (auto simp: bnd_def query_def frame_refl framed_def)
qed

lemma framed_guard: "framed R f \<Longrightarrow> framed R (\<lambda>s. if Q s then (e, s) else f s)"
  by (simp add: framed_def frame_refl)

lemma framed_then:
  assumes "framed R f" "\<And>r. framed R (g r)"
  shows "framed R (\<lambda>s. case f s of (r, s1) \<Rightarrow> g r s1)"
proof (rule framedI)
  fix s
  obtain r s1 where f: "f s = (r, s1)" by fastforce
  have "R s s1" using assms(1) f by (rule framedD)
  with f assms(2) [of r] show "R s (snd (case f s of (r, s1) \<Rightarrow> g r s1))"
    by (auto simp: framed_def intro: frame_trans)
qed

end

end
