(* ===== verification/Sqlite_Runtime.thy ===== *)
theory Sqlite_Runtime
  imports Host_Security Frame_Logic
begin

text \<open>
  The provider \<open>sqlite-runtime\<close> of \<^verbatim>\<open>host/src/compose_provider.rs\<close>: queries and prepared statements over the host's own
  connection, asked for with CBOR requests.

  The connection is the core library of a submodule: its operations are the fields of \<open>conn_api\<close>, over a state \<open>'s\<close>
  and statements \<open>'q\<close>. The locks of the source are held for one request each; a request is one step.
  \<open>execute\<close> steps a statement until it is done, which need not happen: a request returns an option.
\<close>

section \<open>Values\<close>

definition cbor_to_db :: "cbor \<Rightarrow> string + sqlvalue" where
  "cbor_to_db v =
     (case v of
        CNull \<Rightarrow> Inr SqlNull
      | CBool b \<Rightarrow> Inr (SqlInteger (if b then 1 else 0))
      | CInteger i \<Rightarrow> if - (2 ^ 63) \<le> i \<and> i < 2 ^ 63 then Inr (SqlInteger (word_of_int i)) else Inl ''out of range integral type conversion attempted''
      | CFloat f \<Rightarrow> Inr (SqlReal f)
      | CText s \<Rightarrow> Inr (SqlText s)
      | CBytes b \<Rightarrow> Inr (SqlBlob b)
      | _ \<Rightarrow> Inl ''unsupported cbor value type'')"

definition db_to_cbor :: "sqlvalue \<Rightarrow> cbor" where
  "db_to_cbor v =
     (case v of
        SqlNull \<Rightarrow> CNull
      | SqlInteger i \<Rightarrow> CInteger (sint i)
      | SqlReal f \<Rightarrow> CFloat f
      | SqlText s \<Rightarrow> CText s
      | SqlBlob b \<Rightarrow> CBytes b
      | SqlWitValue p \<Rightarrow>
          CMap [(CText ''type_id'', CBytes (wp_type_id p)), (CText ''bytes'', CBytes (wp_bytes p)), (CText ''symbolic_name'', CText (wp_symbolic_name p))])"

definition decode_request :: "bytes codec \<Rightarrow> bytes \<Rightarrow> string + cbor" where
  "decode_request C payload = map_error (\<lambda>e. ''cbor decode: '' @ e) (deser C payload)"

definition encode_response :: "bytes codec \<Rightarrow> cbor \<Rightarrow> string + bytes" where
  "encode_response C v = map_error (\<lambda>e. ''cbor encode: '' @ e) (ser C v)"

definition get_field :: "cbor \<Rightarrow> string \<Rightarrow> string + cbor" where
  "get_field v key =
     (case v of
        CMap m \<Rightarrow> ok_or (''missing field: '' @ key) (map_option snd (List.find (\<lambda>p. fst p = CText key) m))
      | _ \<Rightarrow> Inl ''expected cbor map'')"

definition cbor_str :: "cbor \<Rightarrow> string + string" where
  "cbor_str v = (case v of CText s \<Rightarrow> Inr s | _ \<Rightarrow> Inl ''expected cbor text'')"

definition cbor_u64 :: "cbor \<Rightarrow> string + u64" where
  "cbor_u64 v =
     (case v of
        CInteger i \<Rightarrow> if i < 0 then Inl ''expected unsigned int'' else Inr (word_of_int i)
      | _ \<Rightarrow> Inl ''expected cbor integer'')"

definition cbor_params :: "cbor \<Rightarrow> string + sqlvalue list" where
  "cbor_params v =
     (case v of
        CArray a \<Rightarrow> collect_result (map cbor_to_db a)
      | CNull \<Rightarrow> Inr []
      | _ \<Rightarrow> Inl ''expected params array'')"

section \<open>State\<close>

record ('s, 'q) conn_api =
  cn_prepare :: "string \<Rightarrow> (string, 's, 'q) op"
  cn_columns :: "'q \<Rightarrow> string list"
  cn_bind_all :: "sqlvalue list \<Rightarrow> 'q \<Rightarrow> (string, 's, 'q) op"
  cn_collect_rows :: "'q \<Rightarrow> (string, 's, sqlvalue list list) op"
  cn_step :: "'q \<Rightarrow> (string, 's, bool \<times> 'q) op"
  cn_execute_batch :: "string \<Rightarrow> (string, 's, unit) op"
  cn_changes :: "'s \<Rightarrow> int"
  cn_last_rowid :: "'s \<Rightarrow> int"

record prepared_stmt =
  ps_sql :: string
  ps_bindings :: "sqlvalue list"
  ps_cursor :: "sqlvalue list list option"

record 's sqlite_runtime =
  sr_conn :: "'s option"
  sr_stmts :: "u64 \<rightharpoonup> prepared_stmt"
  sr_next_stmt_id :: u64

definition new_sqlite_runtime :: "'s option \<Rightarrow> 's sqlite_runtime" where
  "new_sqlite_runtime conn = \<lparr>sr_conn = conn, sr_stmts = Map.empty, sr_next_stmt_id = 1\<rparr>"

text \<open>An operation on the connection, which must be open.\<close>

definition on_conn :: "string \<Rightarrow> (string, 's, 'a) op \<Rightarrow> (string, 's sqlite_runtime, 'a) op" where
  "on_conn missing f s =
     (case sr_conn s of
        None \<Rightarrow> (Inl missing, s)
      | Some c \<Rightarrow> (case f c of (r, c') \<Rightarrow> (r, s\<lparr>sr_conn := Some c'\<rparr>)))"

section \<open>Methods\<close>

abbreviation read_conn :: "('s \<Rightarrow> 'a) \<Rightarrow> (string, 's, 'a) op" where
  "read_conn f \<equiv> query (\<lambda>c. Inr (f c))"

abbreviation pure_op :: "string + 'a \<Rightarrow> (string, 's, 'a) op" where
  "pure_op r \<equiv> query (\<lambda>_. r)"

definition sql_request :: "bytes codec \<Rightarrow> bytes \<Rightarrow> string + string \<times> cbor" where
  "sql_request C payload = sbind (decode_request C payload) (\<lambda>req. sbind (sbind (get_field req ''sql'') cbor_str) (\<lambda>sql. Inr (sql, req)))"

definition query_params :: "cbor \<Rightarrow> string + sqlvalue list" where
  "query_params req = cbor_params (case get_field req ''params'' of Inr v \<Rightarrow> v | Inl _ \<Rightarrow> CNull)"

definition rt_manifest :: "string \<Rightarrow> cbor" where
  "rt_manifest version =
     cbor_map [(''name'', CText ''sqlite-runtime''), (''version'', CText version),
       (''methods'', CArray (map CText [''manifest'', ''query'', ''query-scalar'', ''execute'', ''execute-batch'', ''prepare'', ''step'', ''finalize'']))]"

definition rt_query :: "('s, 'q) conn_api \<Rightarrow> bytes codec \<Rightarrow> bytes \<Rightarrow> (string, 's sqlite_runtime, bytes) op" where
  "rt_query A C payload =
     bnd (pure_op (sql_request C payload)) (\<lambda>(sql, req).
     bnd (pure_op (query_params req)) (\<lambda>params.
     bnd (on_conn ''no db open (run .open first)''
       (bnd (cn_prepare A sql) (\<lambda>stmt.
        bnd (cn_bind_all A params stmt) (\<lambda>stmt1.
        bnd (cn_collect_rows A stmt1) (\<lambda>rows.
        read_conn (\<lambda>c.
          cbor_map [(''cols'', CArray (map CText (cn_columns A stmt))), (''rows'', CArray (map (\<lambda>r. CArray (map db_to_cbor r)) rows)),
            (''changes'', CInteger (cn_changes A c)), (''last-rowid'', CInteger (cn_last_rowid A c))])))))) (\<lambda>resp.
     pure_op (encode_response C resp))))"

definition rt_query_scalar :: "('s, 'q) conn_api \<Rightarrow> bytes codec \<Rightarrow> bytes \<Rightarrow> (string, 's sqlite_runtime, bytes) op" where
  "rt_query_scalar A C payload =
     bnd (pure_op (sql_request C payload)) (\<lambda>(sql, req).
     bnd (pure_op (query_params req)) (\<lambda>params.
     bnd (on_conn ''no db open''
       (bnd (cn_prepare A sql) (\<lambda>stmt.
        bnd (cn_bind_all A params stmt) (\<lambda>stmt1.
        cn_collect_rows A stmt1)))) (\<lambda>rows.
     bnd (pure_op (case rows of (v # _) # _ \<Rightarrow> Inr v | _ \<Rightarrow> Inl ''query-scalar: no rows'')) (\<lambda>v.
     pure_op (encode_response C (db_to_cbor v))))))"

partial_function (option) step_to_done :: "('s, 'q) conn_api \<Rightarrow> 'q \<Rightarrow> 's \<Rightarrow> ((string + unit) \<times> 's) option" where
  "step_to_done A q c =
     (case cn_step A q c of
        (Inl e, c') \<Rightarrow> Some (Inl e, c')
      | (Inr (row, q'), c') \<Rightarrow> if row then step_to_done A q' c' else Some (Inr (), c'))"

definition rt_execute :: "('s, 'q) conn_api \<Rightarrow> bytes codec \<Rightarrow> bytes \<Rightarrow> 's sqlite_runtime \<Rightarrow> ((string + bytes) \<times> 's sqlite_runtime) option" where
  "rt_execute A C payload s =
     (case bnd (pure_op (sql_request C payload)) (\<lambda>(sql, req).
           bnd (pure_op (query_params req)) (\<lambda>params.
           on_conn ''no db open'' (bnd (cn_prepare A sql) (cn_bind_all A params)))) s of
        (Inl e, s1) \<Rightarrow> Some (Inl e, s1)
      | (Inr stmt, s1) \<Rightarrow>
          (case sr_conn s1 of
             None \<Rightarrow> Some (Inl ''no db open'', s1)
           | Some c \<Rightarrow>
               map_option (\<lambda>(r, c').
                 (sbind r (\<lambda>_. encode_response C
                    (cbor_map [(''changes'', CInteger (cn_changes A c')), (''last-rowid'', CInteger (cn_last_rowid A c'))])),
                  s1\<lparr>sr_conn := Some c'\<rparr>)) (step_to_done A stmt c)))"

definition rt_execute_batch :: "('s, 'q) conn_api \<Rightarrow> bytes codec \<Rightarrow> bytes \<Rightarrow> (string, 's sqlite_runtime, bytes) op" where
  "rt_execute_batch A C payload =
     bnd (pure_op (sql_request C payload)) (\<lambda>(sql, _).
     bnd (on_conn ''no db open'' (bnd (cn_execute_batch A sql) (\<lambda>_. read_conn (cn_changes A)))) (\<lambda>n.
     pure_op (encode_response C (cbor_map [(''changes'', CInteger n)]))))"

definition new_stmt :: "string \<Rightarrow> (string, 's sqlite_runtime, u64) op" where
  "new_stmt sql s =
     (let i = sr_next_stmt_id s in
      (Inr i, s\<lparr>sr_next_stmt_id := max (i + 1) 1, sr_stmts := (sr_stmts s)(i \<mapsto> \<lparr>ps_sql = sql, ps_bindings = [], ps_cursor = None\<rparr>)\<rparr>))"

definition rt_prepare :: "('s, 'q) conn_api \<Rightarrow> bytes codec \<Rightarrow> bytes \<Rightarrow> (string, 's sqlite_runtime, bytes) op" where
  "rt_prepare A C payload =
     bnd (pure_op (sql_request C payload)) (\<lambda>(sql, _).
     bnd (on_conn ''no db open'' (cn_prepare A sql)) (\<lambda>_.
     bnd (new_stmt sql) (\<lambda>i.
     pure_op (encode_response C (cbor_map [(''stmt-id'', CInteger (uint i))])))))"

definition id_request :: "bytes codec \<Rightarrow> bytes \<Rightarrow> string + u64" where
  "id_request C payload = sbind (decode_request C payload) (\<lambda>req. sbind (get_field req ''stmt-id'') cbor_u64)"

definition put_cursor :: "u64 \<Rightarrow> prepared_stmt \<Rightarrow> sqlvalue list list \<Rightarrow> 's sqlite_runtime \<Rightarrow> 's sqlite_runtime" where
  "put_cursor i entry rows s = s\<lparr>sr_stmts := (sr_stmts s)(i \<mapsto> entry\<lparr>ps_cursor := Some rows\<rparr>)\<rparr>"

text \<open>The rows are read on the first step and kept; a step takes the first one.\<close>

definition step_response :: "sqlvalue list list \<Rightarrow> cbor" where
  "step_response rows =
     (case rows of
        r # _ \<Rightarrow> cbor_map [(''done'', CBool False), (''row'', CArray (map db_to_cbor r))]
      | [] \<Rightarrow> cbor_map [(''done'', CBool True), (''row'', CNull)])"

definition rt_step :: "('s, 'q) conn_api \<Rightarrow> bytes codec \<Rightarrow> bytes \<Rightarrow> (string, 's sqlite_runtime, bytes) op" where
  "rt_step A C payload s =
     (case id_request C payload of
        Inl e \<Rightarrow> (Inl e, s)
      | Inr i \<Rightarrow>
          (case sr_stmts s i of
             None \<Rightarrow> (Inl ''unknown stmt-id'', s)
           | Some entry \<Rightarrow>
               (case (case ps_cursor entry of
                        Some rows \<Rightarrow> (Inr rows, s)
                      | None \<Rightarrow> on_conn ''no db open'' (bnd (cn_prepare A (ps_sql entry)) (cn_collect_rows A)) s) of
                  (Inl e, s1) \<Rightarrow> (Inl e, s1)
                | (Inr rows, s1) \<Rightarrow> (encode_response C (step_response rows), put_cursor i entry (tl rows) s1))))"

definition rt_finalize :: "bytes codec \<Rightarrow> bytes \<Rightarrow> (string, 's sqlite_runtime, bytes) op" where
  "rt_finalize C payload s =
     (case id_request C payload of
        Inl e \<Rightarrow> (Inl e, s)
      | Inr i \<Rightarrow> (encode_response C CNull, s\<lparr>sr_stmts := (sr_stmts s)(i := None)\<rparr>))"

definition sqlite_runtime_invoke :: "('s, 'q) conn_api \<Rightarrow> bytes codec \<Rightarrow> string \<Rightarrow> string \<Rightarrow> bytes \<Rightarrow> 's sqlite_runtime \<Rightarrow>
    ((string + bytes) \<times> 's sqlite_runtime) option" where
  "sqlite_runtime_invoke A C version meth payload s =
     (if meth = ''manifest'' then Some (encode_response C (rt_manifest version), s)
      else if meth = ''query'' then Some (rt_query A C payload s)
      else if meth = ''query-scalar'' then Some (rt_query_scalar A C payload s)
      else if meth = ''execute'' then rt_execute A C payload s
      else if meth = ''execute-batch'' then Some (rt_execute_batch A C payload s)
      else if meth = ''prepare'' then Some (rt_prepare A C payload s)
      else if meth = ''step'' then Some (rt_step A C payload s)
      else if meth = ''finalize'' then Some (rt_finalize C payload s)
      else Some (Inl (''unknown method: '' @ meth), s))"

section \<open>Requests in a row\<close>

fun run_requests :: "('s, 'q) conn_api \<Rightarrow> bytes codec \<Rightarrow> string \<Rightarrow> (string \<times> bytes) list \<Rightarrow> 's sqlite_runtime \<Rightarrow>
    ((string + bytes) list \<times> 's sqlite_runtime) option" where
  "run_requests A C version [] s = Some ([], s)"
| "run_requests A C version ((meth, payload) # calls) s =
     (case sqlite_runtime_invoke A C version meth payload s of
        None \<Rightarrow> None
      | Some (r, s1) \<Rightarrow> map_option (\<lambda>(rs, s2). (r # rs, s2)) (run_requests A C version calls s1))"

definition steps_stmt :: "bytes codec \<Rightarrow> u64 \<Rightarrow> string \<times> bytes \<Rightarrow> bool" where
  "steps_stmt C i call \<longleftrightarrow> fst call = ''step'' \<and> id_request C (snd call) = Inr i"

definition finalizes_stmt :: "bytes codec \<Rightarrow> u64 \<Rightarrow> string \<times> bytes \<Rightarrow> bool" where
  "finalizes_stmt C i call \<longleftrightarrow> fst call = ''finalize'' \<and> id_request C (snd call) = Inr i"

text \<open>The answers to the steps of one statement, and what they should be for given rows.\<close>

definition step_answers :: "bytes codec \<Rightarrow> u64 \<Rightarrow> (string \<times> bytes) list \<Rightarrow> (string + bytes) list \<Rightarrow> (string + bytes) list" where
  "step_answers C i calls rs = map snd (filter (\<lambda>(call, _). steps_stmt C i call) (zip calls rs))"

definition expected_answer :: "bytes codec \<Rightarrow> sqlvalue list list \<Rightarrow> nat \<Rightarrow> string + bytes" where
  "expected_answer C rows k = encode_response C (step_response (drop k rows))"

text \<open>Some run of the statement on some state of the connection gave these rows.\<close>

definition produced :: "('s, 'q) conn_api \<Rightarrow> string \<Rightarrow> sqlvalue list list \<Rightarrow> bool" where
  "produced A sql rows \<longleftrightarrow> (\<exists>c q c1 c2. cn_prepare A sql c = (Inr q, c1) \<and> cn_collect_rows A q c1 = (Inr rows, c2))"

text \<open>\<open>execute\<close> returns when the rows of a statement run out: when every row brings it closer to the end.\<close>

lemma step_to_done_returns:
  assumes "\<And>q c q' c'. cn_step A q c = (Inr (True, q'), c') \<Longrightarrow> left q' c' < (left q c :: nat)"
  shows "\<exists>y. step_to_done A q c = Some y"
proof (induction "left q c" arbitrary: q c rule: less_induct)
  case less
  obtain r c1 where s: "cn_step A q c = (r, c1)" by fastforce
  show ?case
  proof (cases r)
    case (Inr x)
    obtain row q1 where x: "x = (row, q1)" by fastforce
    show ?thesis
    proof (cases row)
      case True
      with s Inr x assms have "left q1 c1 < left q c" by simp
      from less [OF this] s Inr x True show ?thesis by (subst step_to_done.simps) simp
    qed (use s Inr x in \<open>subst step_to_done.simps, simp\<close>)
  qed (use s in \<open>subst step_to_done.simps, simp\<close>)
qed

section \<open>Other requests leave a statement alone\<close>

definition same_stmts :: "'s sqlite_runtime \<Rightarrow> 's sqlite_runtime \<Rightarrow> bool" where
  "same_stmts s t \<longleftrightarrow> sr_stmts t = sr_stmts s \<and> sr_next_stmt_id t = sr_next_stmt_id s"

lemma same_stmts_refl [simp]: "same_stmts s s"
  by (simp add: same_stmts_def)

interpretation stmts_frame: frame_relation same_stmts
  by unfold_locales (simp_all add: same_stmts_def)

abbreviation quiet :: "(string, 's sqlite_runtime, 'a) op \<Rightarrow> bool" where
  "quiet \<equiv> framed same_stmts"

lemma quiet_conn: "quiet (on_conn m f)"
  by (auto simp: framed_def on_conn_def same_stmts_def split: option.splits prod.splits)

lemmas quiet_intros = stmts_frame.framed_query stmts_frame.framed_bnd quiet_conn

lemma quiet_methods:
  "quiet (rt_query A C p)" "quiet (rt_query_scalar A C p)" "quiet (rt_execute_batch A C p)"
  by (auto simp: rt_query_def rt_query_scalar_def rt_execute_batch_def split: prod.splits intro!: quiet_intros)

lemma quiet_execute: "rt_execute A C p s = Some (r, t) \<Longrightarrow> same_stmts s t"
proof -
  let ?f = "bnd (pure_op (sql_request C p)) (\<lambda>(sql, req).
           bnd (pure_op (query_params req)) (\<lambda>params.
           on_conn ''no db open'' (bnd (cn_prepare A sql) (cn_bind_all A params))))"
  assume e: "rt_execute A C p s = Some (r, t)"
  have "quiet ?f" by (auto split: prod.splits intro!: quiet_intros)
  then have "same_stmts s (snd (?f s))" by (simp add: framed_def)
  with e show ?thesis
    by (auto simp: rt_execute_def same_stmts_def split: prod.splits sum.splits option.splits)
qed

text \<open>Ids of statements are below the counter as long as it does not wrap.\<close>

definition stmts_ok :: "nat \<Rightarrow> 's sqlite_runtime \<Rightarrow> bool" where
  "stmts_ok k s \<longleftrightarrow> unat (sr_next_stmt_id s) \<le> Suc k \<and> (\<forall>i \<in> dom (sr_stmts s). i < sr_next_stmt_id s)"

lemma stmts_ok_same: "same_stmts s t \<Longrightarrow> stmts_ok k t = stmts_ok k s"
  by (simp add: stmts_ok_def same_stmts_def)

lemma stmts_ok_Suc: "stmts_ok k s \<Longrightarrow> stmts_ok (Suc k) s"
  by (auto simp: stmts_ok_def)

lemma stmt_counter_step:
  fixes n :: u64
  assumes "unat n \<le> Suc k" "Suc (Suc k) < 2 ^ 64"
  shows "unat (max (n + 1) 1) = Suc (unat n)" "i < n \<Longrightarrow> i < max (n + 1) 1" "n < max (n + 1) 1"
proof -
  have "n \<noteq> - 1"
  proof
    assume "n = - 1"
    then have "unat n = 2 ^ 64 - 1" by (simp add: unsigned_minus_1_eq_mask mask_eq_exp_minus_1)
    with assms show False by simp
  qed
  then have u: "unat (n + 1) = Suc (unat n)" by (metis unatSuc add.commute add_eq_0_iff)
  then have "1 \<le> n + 1" by (simp only: word_le_nat_alt) simp
  then have "max (n + 1) 1 = n + 1" by (rule max_absorb1)
  with u show "unat (max (n + 1) 1) = Suc (unat n)" "i < n \<Longrightarrow> i < max (n + 1) 1" "n < max (n + 1) 1"
    by (simp_all add: word_less_nat_alt)
qed

text \<open>A preparation either fails without a trace in the table of statements, or adds one.\<close>

lemma rt_prepare_cases:
  assumes "rt_prepare A C p s = (r, t)"
  obtains (failed) "same_stmts s t" "\<exists>e. r = Inl e"
  | (prepared) sql req s1 where "sql_request C p = Inr (sql, req)" "same_stmts s s1" "t = snd (new_stmt sql s1)"
      "r = encode_response C (cbor_map [(''stmt-id'', CInteger (uint (sr_next_stmt_id s)))])"
proof (cases "sql_request C p")
  case (Inl e)
  with assms show thesis by (intro failed) (auto simp: rt_prepare_def bnd_def query_def same_stmts_def)
next
  case (Inr x)
  obtain sql req where x: "x = (sql, req)" by fastforce
  obtain q s1 where q: "on_conn ''no db open'' (cn_prepare A sql) s = (q, s1)" by fastforce
  have same: "same_stmts s s1" using quiet_conn q by (rule framedD)
  show thesis
  proof (cases q)
    case Inl' : (Inl e)
    with assms Inr x q same show thesis by (intro failed) (auto simp: rt_prepare_def bnd_def query_def)
  next
    case Inr' : (Inr y)
    with assms Inr x q same show thesis
      by (intro prepared [of sql req s1]) (auto simp: rt_prepare_def bnd_def query_def new_stmt_def Let_def same_stmts_def)
  qed
qed

lemma stmts_ok_new_stmt:
  assumes "stmts_ok k s" "Suc (Suc k) < 2 ^ 64"
  shows "stmts_ok (Suc k) (snd (new_stmt sql s))"
  using assms stmt_counter_step [of "sr_next_stmt_id s" k] by (auto simp: stmts_ok_def new_stmt_def Let_def)

text \<open>What a step leaves.\<close>

lemma rt_step_stmts:
  assumes "rt_step A C p s = (r, t)"
  shows "sr_next_stmt_id t = sr_next_stmt_id s \<and> dom (sr_stmts t) = dom (sr_stmts s) \<and>
    (\<forall>i. id_request C p \<noteq> Inr i \<longrightarrow> sr_stmts t i = sr_stmts s i)"
proof -
  have c: "same_stmts s s1" if "on_conn ''no db open'' f s = (x, s1)" for f :: "(string, 'a, sqlvalue list list) op" and x s1
    using quiet_conn that by (rule framedD)
  show ?thesis using assms
    by (auto simp: rt_step_def put_cursor_def same_stmts_def split: sum.splits option.splits prod.splits if_splits dest!: c)
qed

lemma invoke_frame:
  assumes "sqlite_runtime_invoke A C ver m p s = Some (r, t)" "stmts_ok k s" "Suc (Suc k) < 2 ^ 64"
  shows "stmts_ok (Suc k) t \<and>
    (\<forall>i. i < sr_next_stmt_id s \<longrightarrow> i < sr_next_stmt_id t \<and> (\<not> steps_stmt C i (m, p) \<and> \<not> finalizes_stmt C i (m, p) \<longrightarrow> sr_stmts t i = sr_stmts s i))"
proof -
  have same: ?thesis if "same_stmts s t"
    using that assms(2) by (simp add: stmts_ok_same stmts_ok_Suc) (simp add: same_stmts_def)
  consider (quiet) "same_stmts s t" | (prepare) "m = ''prepare''" "rt_prepare A C p s = (r, t)"
    | (step) "m = ''step''" "rt_step A C p s = (r, t)" | (finalize) "m = ''finalize''" "rt_finalize C p s = (r, t)"
    using assms(1) quiet_methods [unfolded framed_def, rule_format, where A = A and C = C and p = p and s = s] quiet_execute [of A C p s r t]
    by (auto simp: sqlite_runtime_invoke_def split: if_splits)
  then show ?thesis
  proof cases
    case prepare
    from prepare(2) show ?thesis
    proof (cases rule: rt_prepare_cases)
      case (prepared sql req s1)
      with assms(2,3) have "stmts_ok (Suc k) t" by (simp add: stmts_ok_new_stmt stmts_ok_same)
      moreover have "i < sr_next_stmt_id t \<and> sr_stmts t i = sr_stmts s i" if "i < sr_next_stmt_id s" for i
        using prepared(2,3) that stmt_counter_step(2) [of "sr_next_stmt_id s" k i] assms(2,3)
        by (auto simp: new_stmt_def Let_def same_stmts_def stmts_ok_def)
      ultimately show ?thesis by blast
    qed (use same in blast)
  next
    case step
    from rt_step_stmts [OF step(2)] assms(2) show ?thesis by (auto simp: stmts_ok_def steps_stmt_def step(1))
  next
    case finalize
    with assms(2) show ?thesis by (auto simp: rt_finalize_def stmts_ok_def finalizes_stmt_def split: sum.splits if_splits)
  qed (use same in blast)
qed

section \<open>Prepared statements\<close>

lemma step_answers_Nil [simp]: "step_answers C i [] rs = []"
  by (simp add: step_answers_def)

lemma step_answers_Cons [simp]:
  "step_answers C i (call # calls) (r # rs) = (if steps_stmt C i call then r # step_answers C i calls rs else step_answers C i calls rs)"
  by (simp add: step_answers_def)

lemma invoke_step:
  assumes "steps_stmt C i (m, p)" "sqlite_runtime_invoke A C ver m p s = Some (r, t)"
  shows "rt_step A C p s = (r, t)" "id_request C p = Inr i"
  using assms by (simp_all add: steps_stmt_def sqlite_runtime_invoke_def)

lemma run_requests_Cons:
  assumes "run_requests A C ver ((m, p) # calls) s = Some (rs, t)"
  obtains r rs' s1 where "sqlite_runtime_invoke A C ver m p s = Some (r, s1)" "run_requests A C ver calls s1 = Some (rs', t)" "rs = r # rs'"
  using assms by (auto split: option.splits)

text \<open>Once the rows are read, every step takes the next one, whatever happens in between.\<close>

lemma steps_from_cursor:
  assumes "run_requests A C ver calls s = Some (rs, t)" "stmts_ok k s" "k + length calls + 1 < 2 ^ 64" "i < sr_next_stmt_id s"
    "sr_stmts s i = Some entry" "ps_cursor entry = Some rows" "list_all (\<lambda>c. \<not> finalizes_stmt C i c) calls"
  shows "step_answers C i calls rs = map (expected_answer C rows) [0..<length (filter (steps_stmt C i) calls)]"
  using assms
proof (induction calls arbitrary: s k rs entry rows)
  case (Cons call calls)
  obtain m p where call: "call = (m, p)" by fastforce
  from run_requests_Cons [OF Cons.prems(1) [unfolded call]] obtain r rs' s1 where
    one: "sqlite_runtime_invoke A C ver m p s = Some (r, s1)" and rest: "run_requests A C ver calls s1 = Some (rs', t)" and rs: "rs = r # rs'" .
  have frame: "stmts_ok (Suc k) s1" "i < sr_next_stmt_id s1" "\<not> steps_stmt C i (m, p) \<Longrightarrow> sr_stmts s1 i = sr_stmts s i"
    using invoke_frame [OF one Cons.prems(2)] Cons.prems call by simp_all
  have bound: "Suc k + length calls + 1 < 2 ^ 64" using Cons.prems(3) by simp
  note IH = Cons.IH [OF rest frame(1) bound frame(2)]
  show ?case
  proof (cases "steps_stmt C i (m, p)")
    case True
    from invoke_step [OF this one] Cons.prems(5,6) have
      r: "r = encode_response C (step_response rows)" and s1: "s1 = put_cursor i entry (tl rows) s"
      by (simp_all add: rt_step_def)
    have "step_answers C i calls rs' = map (expected_answer C (tl rows)) [0..<length (filter (steps_stmt C i) calls)]"
      by (rule IH [of "entry\<lparr>ps_cursor := Some (tl rows)\<rparr>"]) (use s1 Cons.prems(7) in \<open>simp_all add: put_cursor_def\<close>)
    moreover have "expected_answer C (tl rows) j = expected_answer C rows (Suc j)" for j by (simp add: expected_answer_def drop_Suc)
    ultimately show ?thesis
      using True by (simp add: call rs r map_upt_Suc expected_answer_def del: upt_Suc)
  next
    case False
    with IH [of entry rows] frame(3) Cons.prems(5-7) show ?thesis by (simp add: call rs)
  qed
qed simp

lemma steps_in_order:
  assumes "run_requests A C ver calls s = Some (rs, t)" "stmts_ok k s" "k + length calls + 1 < 2 ^ 64" "i < sr_next_stmt_id s"
    "sr_stmts s i = Some entry" "ps_cursor entry = None" "list_all (\<lambda>c. \<not> finalizes_stmt C i c) calls"
  shows "\<exists>errs rows. list_all (\<lambda>e. \<exists>m. e = Inl m) errs \<and>
    step_answers C i calls rs = errs @ map (expected_answer C rows) [0..<length (filter (steps_stmt C i) calls) - length errs] \<and>
    (length errs < length (filter (steps_stmt C i) calls) \<longrightarrow> produced A (ps_sql entry) rows)"
  using assms
proof (induction calls arbitrary: s k rs)
  case (Cons call calls)
  obtain m p where call: "call = (m, p)" by fastforce
  from run_requests_Cons [OF Cons.prems(1) [unfolded call]] obtain r rs' s1 where
    one: "sqlite_runtime_invoke A C ver m p s = Some (r, s1)" and rest: "run_requests A C ver calls s1 = Some (rs', t)" and rs: "rs = r # rs'" .
  have frame: "stmts_ok (Suc k) s1" "i < sr_next_stmt_id s1" "\<not> steps_stmt C i (m, p) \<Longrightarrow> sr_stmts s1 i = sr_stmts s i"
    using invoke_frame [OF one Cons.prems(2)] Cons.prems call by simp_all
  have bound: "Suc k + length calls + 1 < 2 ^ 64" using Cons.prems(3) by simp
  have fin: "list_all (\<lambda>c. \<not> finalizes_stmt C i c) calls" using Cons.prems(7) by simp
  show ?case
  proof (cases "steps_stmt C i (m, p)")
    case True
    obtain q s0 where q: "on_conn ''no db open'' (bnd (cn_prepare A (ps_sql entry)) (cn_collect_rows A)) s = (q, s0)" by fastforce
    have same: "same_stmts s s0" using quiet_conn q by (rule framedD)
    show ?thesis
    proof (cases q)
      case (Inl e)
      with invoke_step [OF True one] Cons.prems(5,6) q have r: "r = Inl e" "s1 = s0" by (simp_all add: rt_step_def)
      from Cons.IH [OF rest frame(1) bound frame(2) _ Cons.prems(6) fin] same Cons.prems(5) r obtain errs rows where
        "list_all (\<lambda>e. \<exists>m. e = Inl m) errs"
        "step_answers C i calls rs' = errs @ map (expected_answer C rows) [0..<length (filter (steps_stmt C i) calls) - length errs]"
        "length errs < length (filter (steps_stmt C i) calls) \<longrightarrow> produced A (ps_sql entry) rows"
        by (auto simp: same_stmts_def)
      then show ?thesis using True r by (intro exI [of _ "Inl e # errs"] exI [of _ rows]) (simp add: call rs)
    next
      case (Inr rows)
      with invoke_step [OF True one] Cons.prems(5,6) q have
        r: "r = encode_response C (step_response rows)" and s1: "s1 = put_cursor i entry (tl rows) s0" by (simp_all add: rt_step_def)
      have "step_answers C i calls rs' = map (expected_answer C (tl rows)) [0..<length (filter (steps_stmt C i) calls)]"
        by (rule steps_from_cursor [OF rest frame(1) bound frame(2), of "entry\<lparr>ps_cursor := Some (tl rows)\<rparr>"])
          (use s1 fin in \<open>simp_all add: put_cursor_def\<close>)
      moreover have "expected_answer C (tl rows) j = expected_answer C rows (Suc j)" for j by (simp add: expected_answer_def drop_Suc)
      moreover have "produced A (ps_sql entry) rows"
        using q Inr by (fastforce simp: on_conn_def bnd_def produced_def split: option.splits prod.splits sum.splits)
      ultimately show ?thesis
        using True by (intro exI [of _ "[]"] exI [of _ rows]) (simp add: call rs r map_upt_Suc expected_answer_def del: upt_Suc)
    qed
  next
    case False
    from Cons.IH [OF rest frame(1) bound frame(2) _ Cons.prems(6) fin] frame(3) [OF False] Cons.prems(5) False
    show ?thesis by (simp add: call rs)
  qed
qed (auto intro: exI [of _ "[]"])

lemma run_requests_stmts_ok:
  assumes "run_requests A C ver calls s = Some (rs, t)" "stmts_ok k s" "k + length calls + 1 < 2 ^ 64"
  shows "stmts_ok (k + length calls) t"
  using assms
proof (induction calls arbitrary: s k rs)
  case (Cons call calls)
  obtain m p where call: "call = (m, p)" by fastforce
  from run_requests_Cons [OF Cons.prems(1) [unfolded call]] obtain r rs' s1 where
    "sqlite_runtime_invoke A C ver m p s = Some (r, s1)" "run_requests A C ver calls s1 = Some (rs', t)" .
  with invoke_frame [OF this(1) Cons.prems(2)] Cons.IH [of s1 rs' "Suc k"] Cons.prems(3) show ?case by simp
qed simp

text \<open>What a client reads back of a row: every value but a typed one.\<close>

lemma db_cbor_roundtrip: "cbor_to_db (db_to_cbor v) = (case v of SqlWitValue _ \<Rightarrow> Inl ''unsupported cbor value type'' | _ \<Rightarrow> Inr v)"
proof (cases v)
  case (SqlInteger i)
  have "- (2 ^ 63) \<le> sint i" "sint i < 2 ^ 63" using sint_range_size [of i] by (simp_all add: word_size)
  with SqlInteger show ?thesis by (simp add: cbor_to_db_def db_to_cbor_def)
qed (simp_all add: cbor_to_db_def db_to_cbor_def)

text \<open>C18. A prepared statement delivers the rows of its query, in order and once each. After any requests, let
  \<open>prepare\<close> succeed. Then in any later sequence of requests that does not finalize the statement, with its steps
  interleaved with queries, writes, other preparations and the steps of other statements, the answers to the steps
  of this statement are: errors as long as the query could not be run; then the rows of one run of the statement's SQL,
  one by one, and after the last one \<open>done\<close> for ever. Writes in between do not change the rows, and no other statement is
  given the same id.\<close>

theorem prepared_rows_in_order:
  assumes "run_requests A C ver before (new_sqlite_runtime conn) = Some (rs0, s0)"
    "sqlite_runtime_invoke A C ver ''prepare'' payload s0 = Some (Inr b, s1)"
    "run_requests A C ver after s1 = Some (rs, s2)" "length before + length after + 2 < 2 ^ 64"
    "list_all (\<lambda>c. \<not> finalizes_stmt C (sr_next_stmt_id s0) c) after"
  shows "\<exists>sql req errs rows. sql_request C payload = Inr (sql, req) \<and> sr_stmts s0 (sr_next_stmt_id s0) = None \<and>
    encode_response C (cbor_map [(''stmt-id'', CInteger (uint (sr_next_stmt_id s0)))]) = Inr b \<and>
    list_all (\<lambda>e. \<exists>m. e = Inl m) errs \<and>
    step_answers C (sr_next_stmt_id s0) after rs =
      errs @ map (expected_answer C rows) [0..<length (filter (steps_stmt C (sr_next_stmt_id s0)) after) - length errs] \<and>
    (length errs < length (filter (steps_stmt C (sr_next_stmt_id s0)) after) \<longrightarrow> produced A sql rows)"
proof -
  let ?i = "sr_next_stmt_id s0"
  have "stmts_ok 0 (new_sqlite_runtime conn)" by (simp add: stmts_ok_def new_sqlite_runtime_def)
  from run_requests_stmts_ok [OF assms(1) this] assms(4) have ok: "stmts_ok (length before) s0" by simp
  have "Suc (Suc (length before)) < 2 ^ 64" using assms(4) by simp
  from invoke_frame [OF assms(2) ok this] have ok1: "stmts_ok (Suc (length before)) s1" by simp
  have "rt_prepare A C payload s0 = (Inr b, s1)" using assms(2) by (simp add: sqlite_runtime_invoke_def)
  then show ?thesis
  proof (cases rule: rt_prepare_cases)
    case (prepared sql req t)
    have s1: "sr_stmts s1 ?i = Some \<lparr>ps_sql = sql, ps_bindings = [], ps_cursor = None\<rparr>" "?i < sr_next_stmt_id s1"
      using prepared(2,3) stmt_counter_step(3) [of ?i "length before"] ok assms(4)
      by (auto simp: new_stmt_def Let_def same_stmts_def stmts_ok_def)
    from steps_in_order [OF assms(3) ok1 _ s1(2,1) _ assms(5)] assms(4) obtain errs rows where
      "list_all (\<lambda>e. \<exists>m. e = Inl m) errs"
      "step_answers C ?i after rs = errs @ map (expected_answer C rows) [0..<length (filter (steps_stmt C ?i) after) - length errs]"
      "length errs < length (filter (steps_stmt C ?i) after) \<longrightarrow> produced A sql rows" by auto
    moreover have "sr_stmts s0 ?i = None" using ok by (auto simp: stmts_ok_def)
    ultimately show ?thesis using prepared(1,4)
      by (intro exI [of _ sql] exI [of _ req] exI [of _ errs] exI [of _ rows] conjI) simp_all
  qed simp
qed

text \<open>A connection whose only table has one row, and the messages of one session.\<close>

definition one_row_conn :: "(nat, string) conn_api" where
  "one_row_conn = \<lparr>cn_prepare = (\<lambda>sql. ret sql), cn_columns = (\<lambda>_. [''a'']), cn_bind_all = (\<lambda>_ q. ret q),
     cn_collect_rows = (\<lambda>_. ret [[SqlInteger 7]]), cn_step = (\<lambda>q. ret (False, q)), cn_execute_batch = (\<lambda>_ c. (Inr (), Suc c)),
     cn_changes = int, cn_last_rowid = (\<lambda>_. 0)\<rparr>"

definition session_codec :: "bytes codec" where
  "session_codec = \<lparr>
     ser = (\<lambda>v. if v = cbor_map [(''stmt-id'', CInteger 1)] then Inr [2]
        else if v = step_response [[SqlInteger 7]] then Inr [3] else if v = step_response [] then Inr [4]
        else if v = cbor_map [(''changes'', CInteger 1)] then Inr [5] else Inl ''unsupported''),
     deser = (\<lambda>b. if b = [1] then Inr (cbor_map [(''sql'', CText ''q'')]) else if b = [2] then Inr (cbor_map [(''stmt-id'', CInteger 1)]) else Inl ''eof'')\<rparr>"

theorem prepared_rows_in_order_witness:
  "\<exists>rows s1 s2. sqlite_runtime_invoke one_row_conn session_codec ''1'' ''prepare'' [1] (new_sqlite_runtime (Some 0)) = Some (Inr [2], s1) \<and>
     run_requests one_row_conn session_codec ''1'' [(''step'', [2]), (''execute-batch'', [1]), (''step'', [2])] s1 = Some ([Inr [3], Inr [5], Inr [4]], s2) \<and>
     produced one_row_conn ''q'' rows \<and> map (expected_answer session_codec rows) [0..<2] = [Inr [3], Inr [4]]"
proof -
  let ?A = one_row_conn and ?C = session_codec and ?after = "[(''step'', [2]), (''execute-batch'', [1]), (''step'', [2])]"
  let ?s0 = "new_sqlite_runtime (Some 0) :: nat sqlite_runtime"
  have req: "sql_request ?C [1] = Inr (''q'', cbor_map [(''sql'', CText ''q'')])" "id_request ?C [2] = Inr 1"
    by (simp_all add: sql_request_def id_request_def decode_request_def session_codec_def map_error_def cbor_map_def get_field_def ok_or_def cbor_str_def cbor_u64_def)
  have enc: "encode_response ?C (cbor_map [(''stmt-id'', CInteger 1)]) = Inr [2]" "encode_response ?C (step_response [[SqlInteger 7]]) = Inr [3]"
    "encode_response ?C (step_response []) = Inr [4]" "encode_response ?C (cbor_map [(''changes'', CInteger 1)]) = Inr [5]"
    by (simp_all add: encode_response_def session_codec_def map_error_def cbor_map_def step_response_def db_to_cbor_def)
  have conn: "cn_prepare ?A sql c = (Inr sql, c)" "cn_collect_rows ?A q c = (Inr [[SqlInteger 7]], c)" "cn_execute_batch ?A sql c = (Inr (), Suc c)"
    "cn_changes ?A = int" for sql q c
    by (simp_all add: one_row_conn_def ret_def)
  obtain s1 where p: "sqlite_runtime_invoke ?A ?C ''1'' ''prepare'' [1] ?s0 = Some (Inr [2], s1)"
    and s1: "s1 = ?s0\<lparr>sr_next_stmt_id := 2, sr_stmts := [1 \<mapsto> \<lparr>ps_sql = ''q'', ps_bindings = [], ps_cursor = None\<rparr>]\<rparr>"
    by (simp add: sqlite_runtime_invoke_def rt_prepare_def bnd_def query_def req on_conn_def conn new_stmt_def Let_def enc new_sqlite_runtime_def)
  have run: "\<exists>s2. run_requests ?A ?C ''1'' ?after s1 = Some ([Inr [3], Inr [5], Inr [4]], s2)"
    unfolding s1
    by (simp add: sqlite_runtime_invoke_def rt_step_def rt_execute_batch_def bnd_def query_def req on_conn_def conn enc put_cursor_def new_sqlite_runtime_def)
  then obtain s2 where run: "run_requests ?A ?C ''1'' ?after s1 = Some ([Inr [3], Inr [5], Inr [4]], s2)" by blast
  have one: "sr_next_stmt_id ?s0 = 1" by (simp add: new_sqlite_runtime_def)
  have st: "filter (steps_stmt ?C 1) ?after = [(''step'', [2]), (''step'', [2])]" "step_answers ?C 1 ?after [Inr [3], Inr [5], Inr [4]] = [Inr [3], Inr [4]]"
    by (simp_all add: steps_stmt_def req)
  have r0: "run_requests ?A ?C ''1'' [] (new_sqlite_runtime (Some 0)) = Some ([], ?s0)" by simp
  have f: "list_all (\<lambda>c. \<not> finalizes_stmt ?C (sr_next_stmt_id ?s0) c) ?after" by (simp add: finalizes_stmt_def)
  have l: "length [] + length ?after + 2 < 2 ^ 64" by simp
  from prepared_rows_in_order [OF r0 p run l f, unfolded one st] obtain sql req' errs rows where
    e: "sql_request ?C [1] = Inr (sql, req')" "list_all (\<lambda>e. \<exists>m. e = Inl m) errs"
      "[Inr [3], Inr [4]] = errs @ map (expected_answer ?C rows) [0..<length [(''step'', [2 :: byte]), (''step'', [2])] - length errs]"
      "length errs < length [(''step'', [2 :: byte]), (''step'', [2])] \<longrightarrow> produced ?A sql rows" by blast
  then have "errs = []" by (cases errs) auto
  with e req have "produced ?A ''q'' rows" "map (expected_answer ?C rows) [0..<2] = [Inr [3], Inr [4]]" by (simp_all add: numeral_2_eq_2)
  with p run show ?thesis by (intro exI conjI)
qed

end
