(* ===== verification/Resident_Services.thy ===== *)
theory Resident_Services
  imports Host_Security Frame_Logic
begin

text \<open>
  The network and compression services of the host: \<^verbatim>\<open>http_resident.rs\<close>, \<^verbatim>\<open>s3_resident.rs\<close>,
  \<^verbatim>\<open>compression_resident.rs\<close>, and \<open>net_http_handle\<close>, \<open>net_dns_resolve\<close> of \<^verbatim>\<open>lib.rs\<close>. Each service is a provider component that is warmed
  on first use and then asked with CBOR messages.

  The runtime that loads and runs these components, the resolver, the HTTP client, the environment and the file system are
  parameters. What leaves the host is logged in the state: every message to a service, every name that is looked
  up and every URL that is fetched.
\<close>

section \<open>State and environment\<close>

datatype egress = SentTo string string bytes | LookedUp string string | Fetched string

record 'w service_state =
  ss_files :: "string \<rightharpoonup> bytes"
  ss_warm :: "string list"
  ss_log :: "egress list"
  ss_world :: 'w

record service_error =
  sv_message :: string
  sv_context :: "string option"

datatype rdata =
    RAddress string
  | RName string
  | RMx nat string
  | RTxt "string list"
  | RSoa string string nat int int int nat
  | RSrv nat nat nat string
  | ROther string

record resident_entry =
  re_url :: "string option"
  re_sha256 :: "string option"

record 'w service_env =
  se_codec :: "bytes codec"
  se_checks :: policy_checks
  se_sha256 :: "bytes \<Rightarrow> bytes"
  se_vars :: "string \<Rightarrow> string option"
  se_pid :: nat
  se_engine :: "string + unit"
  se_register :: "string \<Rightarrow> bool \<Rightarrow> bytes option \<Rightarrow> string + unit"
  se_warm :: "string \<Rightarrow> (string, 'w, unit) op"
  se_invoke :: "string \<Rightarrow> string \<Rightarrow> bytes \<Rightarrow> (service_error, 'w, bytes) op"
  se_lookup :: "nat \<Rightarrow> string \<Rightarrow> string \<Rightarrow> (string, 'w, rdata list) op"
  se_debug :: "string \<Rightarrow> string"
  se_record_type :: "string \<Rightarrow> string option"
  se_get :: "string \<Rightarrow> (string + string, 'w, bytes) op"
  se_manifest :: "bytes \<Rightarrow> string + resident_entry option"
  se_client :: "string + unit"
  se_mkdir :: "string \<Rightarrow> string + unit"
  se_write :: "string \<Rightarrow> string + unit"
  se_rename :: "string \<Rightarrow> string + unit"

type_synonym ('e, 'w, 'a) service_op = "('e, 'w service_state, 'a) op"

definition in_net :: "egress option \<Rightarrow> ('e, 'w, 'a) op \<Rightarrow> ('e, 'w, 'a) service_op" where
  "in_net entry f s =
     (case f (ss_world s) of
        (r, w) \<Rightarrow> (r, s\<lparr>ss_world := w, ss_log := (case entry of Some e \<Rightarrow> ss_log s @ [e] | None \<Rightarrow> ss_log s)\<rparr>))"

definition map_op_error :: "('e \<Rightarrow> 'f) \<Rightarrow> ('e, 's, 'a) op \<Rightarrow> ('f, 's, 'a) op" where
  "map_op_error f m s = (case m s of (r, s') \<Rightarrow> (map_error f r, s'))"

abbreviation lift_sum :: "'e + 'a \<Rightarrow> ('e, 's, 'a) op" where
  "lift_sum r \<equiv> query (\<lambda>_. r)"

text \<open>\<open>OnceCell::get_or_try_init\<close>.\<close>

definition get_or_try_init :: "string \<Rightarrow> ('e, 'w, unit) service_op \<Rightarrow> ('e, 'w, unit) service_op" where
  "get_or_try_init cell build s =
     (if cell \<in> set (ss_warm s) then (Inr (), s)
      else case build s of
        (Inl e, s1) \<Rightarrow> (Inl e, s1)
      | (Inr _, s1) \<Rightarrow> (Inr (), s1\<lparr>ss_warm := cell # ss_warm s1\<rparr>))"

section \<open>Warming a service\<close>

text \<open>The part the three builders share: an engine, the registration (with or without network), the first resolution.\<close>

definition warm_resident :: "'w service_env \<Rightarrow> string \<Rightarrow> bool \<Rightarrow> string \<Rightarrow> (string, 'w, unit) service_op" where
  "warm_resident E ident network path =
     bnd (lift_sum (map_error (\<lambda>e. ident @ '' resident engine: '' @ e) (se_engine E))) (\<lambda>_.
     bnd (query (\<lambda>s. map_error (\<lambda>e. ''register '' @ ident @ ''-endpoint provider: '' @ e) (se_register E ident network (ss_files s path)))) (\<lambda>_.
     map_op_error (\<lambda>e. ''warm '' @ ident @ ''-endpoint provider: '' @ e) (in_net None (se_warm E ident))))"

definition home_dir :: "'w service_env \<Rightarrow> string" where
  "home_dir E = (case se_vars E ''HOME'' of Some h \<Rightarrow> h | None \<Rightarrow> [])"

definition http_wasm_path :: "'w service_env \<Rightarrow> string" where
  "http_wasm_path E =
     (case se_vars E ''SQLINK_HTTP_ENDPOINT_WASM'' of
        Some p \<Rightarrow> p
      | None \<Rightarrow> path_join (home_dir E) ''git/datalink/components/http-endpoint/target/wasm32-wasip2/release/http_endpoint.wasm'')"

definition s3_wasm_path :: "'w service_env \<Rightarrow> string" where
  "s3_wasm_path E =
     (case se_vars E ''SQLINK_S3_ENDPOINT_WASM'' of
        Some p \<Rightarrow> p
      | None \<Rightarrow> path_join (home_dir E) ''git/datalink/components/s3-endpoint/target/wasm32-wasip2/release/s3_endpoint.wasm'')"

definition dev_wasm_path :: "'w service_env \<Rightarrow> string" where
  "dev_wasm_path E =
     path_join (home_dir E) ''git/datalink/components/compression-endpoint/target/wasm32-wasip2/release/compression_endpoint.wasm''"

definition build_http :: "'w service_env \<Rightarrow> (http_error, 'w, unit) service_op" where
  "build_http E s =
     (if ss_files s (http_wasm_path E) = None
      then (Inl (HttpOther (''http-endpoint provider wasm not found at '' @ http_wasm_path E @
        '' (build datalink/components/http-endpoint or set SQLINK_HTTP_ENDPOINT_WASM)'')), s)
      else map_op_error HttpOther (warm_resident E ''http'' True (http_wasm_path E)) s)"

section \<open>HTTP\<close>

record http_request =
  rq_method :: http_method
  rq_scheme :: "scheme option"
  rq_authority :: "string option"
  rq_path :: "string option"
  rq_headers :: "(string \<times> bytes) list"
  rq_body :: "bytes option"
  rq_timeout_ms :: "u32 option"

record http_response =
  rs_status :: "16 word"
  rs_headers :: "(string \<times> bytes) list"
  rs_body :: bytes

definition reconstruct_http_error :: "service_error \<Rightarrow> http_error" where
  "reconstruct_http_error e =
     (if sv_context e = Some ''invalid-url'' then InvalidUrl (sv_message e)
      else if sv_context e = Some ''timed-out'' then TimedOut
      else if sv_context e = Some ''connection-error'' then ConnectionError (sv_message e)
      else if sv_context e = Some ''protocol-error'' then ProtocolError (sv_message e)
      else HttpOther (sv_message e))"

definition headers_value :: "(string \<times> bytes) list \<Rightarrow> cbor" where
  "headers_value hs = CArray (map (\<lambda>(k, v). CArray [CText k, CBytes v]) hs)"

definition http_bytes :: "cbor \<Rightarrow> bytes" where
  "http_bytes v = (case v of CBytes b \<Rightarrow> b | CText t \<Rightarrow> map of_char t | _ \<Rightarrow> [])"

definition http_message :: "string \<Rightarrow> string \<Rightarrow> (string \<times> bytes) list \<Rightarrow> bytes option \<Rightarrow> u32 option \<Rightarrow> cbor" where
  "http_message meth url hs body timeout =
     cbor_map ([(''method'', CText meth), (''url'', CText url), (''headers'', headers_value hs)]
       @ (case body of Some b \<Rightarrow> [(''body'', CBytes b)] | None \<Rightarrow> [])
       @ (case timeout of Some t \<Rightarrow> [(''timeout_ms'', CInteger (uint t))] | None \<Rightarrow> []))"

definition read_headers :: "cbor list \<Rightarrow> (string \<times> bytes) list" where
  "read_headers a = List.map_filter (\<lambda>pair. case pair of CArray [CText name, v] \<Rightarrow> Some (name, http_bytes v) | _ \<Rightarrow> None) a"

definition http_answer :: "cbor \<Rightarrow> http_response" where
  "http_answer resp =
     \<lparr>rs_status = (case cbor_field resp ''status'' of Some (CInteger i) \<Rightarrow> if 0 \<le> i \<and> i < 2 ^ 16 then word_of_int i else 0 | _ \<Rightarrow> 0),
      rs_headers = (case cbor_field resp ''headers'' of Some (CArray a) \<Rightarrow> read_headers a | _ \<Rightarrow> []),
      rs_body = (case cbor_field resp ''body'' of Some v \<Rightarrow> http_bytes v | None \<Rightarrow> [])\<rparr>"

definition call_service :: "'w service_env \<Rightarrow> string \<Rightarrow> (service_error \<Rightarrow> 'e) \<Rightarrow> string \<Rightarrow> bytes \<Rightarrow> ('e, 'w, bytes) service_op" where
  "call_service E ident f meth payload = map_op_error f (in_net (Some (SentTo ident meth payload)) (se_invoke E ident meth payload))"

definition http_send :: "'w service_env \<Rightarrow> string \<Rightarrow> string \<Rightarrow> (string \<times> bytes) list \<Rightarrow> bytes option \<Rightarrow> u32 option \<Rightarrow> (http_error, 'w, http_response) service_op" where
  "http_send E meth url hs body timeout =
     bnd (get_or_try_init ''http'' (build_http E)) (\<lambda>_.
     bnd (lift_sum (map_error (\<lambda>e. HttpOther (''cbor encode: '' @ e)) (ser (se_codec E) (http_message meth url hs body timeout)))) (\<lambda>payload.
     bnd (call_service E ''http'' reconstruct_http_error ''request'' payload) (\<lambda>resp_bytes.
     bnd (lift_sum (map_error (\<lambda>e. ProtocolError (''cbor decode: '' @ e)) (deser (se_codec E) resp_bytes))) (\<lambda>resp.
     ret (http_answer resp)))))"

definition net_http_handle :: "'w service_env \<Rightarrow> http_policy option \<Rightarrow> http_request \<Rightarrow> (http_error, 'w, http_response) service_op" where
  "net_http_handle E policy req =
     bnd (lift_sum (http_url (se_checks E) policy (rq_scheme req) (rq_authority req) (rq_path req) (rq_method req))) (\<lambda>(verb, url).
     http_send E verb url (rq_headers req) (rq_body req) (rq_timeout_ms req))"

section \<open>Names\<close>

datatype dns_error = Refused string | DnsTimedOut | Nxdomain | DnsOther string

datatype record_type = RecA | RecAaaa | RecCname | RecMx | RecNs | RecTxt | RecPtr | RecSoa | RecSrv | RecOther string

definition record_name :: "'w service_env \<Rightarrow> record_type \<Rightarrow> string option" where
  "record_name E r =
     (case r of
        RecA \<Rightarrow> Some ''A'' | RecAaaa \<Rightarrow> Some ''AAAA'' | RecCname \<Rightarrow> Some ''CNAME'' | RecMx \<Rightarrow> Some ''MX'' | RecNs \<Rightarrow> Some ''NS''
      | RecTxt \<Rightarrow> Some ''TXT'' | RecPtr \<Rightarrow> Some ''PTR'' | RecSoa \<Rightarrow> Some ''SOA'' | RecSrv \<Rightarrow> Some ''SRV''
      | RecOther s \<Rightarrow> se_record_type E s)"

definition show_int :: "int \<Rightarrow> string" where
  "show_int i = (if i < 0 then CHR ''-'' # show_nat (nat (- i)) else show_nat (nat i))"

definition record_text :: "rdata \<Rightarrow> string" where
  "record_text r =
     (case r of
        RAddress a \<Rightarrow> a
      | RName n \<Rightarrow> n
      | RMx p x \<Rightarrow> show_nat p @ '' '' @ x
      | RTxt chunks \<Rightarrow> join_with CHR '';'' (map from_utf8_lossy chunks)
      | RSoa m rn serial refresh retry expire minimum \<Rightarrow>
          m @ '' '' @ rn @ '' '' @ show_nat serial @ '' '' @ show_int refresh @ '' '' @ show_int retry @ '' '' @ show_int expire @ '' '' @ show_nat minimum
      | RSrv p w port t \<Rightarrow> show_nat p @ '' '' @ show_nat w @ '' '' @ show_nat port @ '' '' @ t
      | ROther d \<Rightarrow> d)"

definition lookup_error :: "string \<Rightarrow> dns_error" where
  "lookup_error msg =
     (if contains_str msg ''NXDomain'' \<or> contains_str msg ''no record found'' then Nxdomain
      else if contains_str msg ''timed out'' \<or> contains_str msg ''timeout'' then DnsTimedOut
      else DnsOther msg)"

definition net_dns_resolve :: "'w service_env \<Rightarrow> dns_policy option \<Rightarrow> string \<Rightarrow> record_type \<Rightarrow> (dns_error, 'w, string list) service_op" where
  "net_dns_resolve E policy name r =
     bnd (lift_sum (map_error Refused (check_dns_policy (se_checks E) policy name))) (\<lambda>_.
     bnd (lift_sum (ok_or (DnsOther (''unknown record type '' @ (case r of RecOther s \<Rightarrow> se_debug E s | _ \<Rightarrow> []))) (record_name E r))) (\<lambda>rtype.
     let timeout = (case policy of Some p \<Rightarrow> (case dns_timeout_ms p of Some ms \<Rightarrow> ms | None \<Rightarrow> 5000) | None \<Rightarrow> 5000) in
     bnd (map_op_error lookup_error (in_net (Some (LookedUp name rtype)) (se_lookup E timeout name rtype))) (\<lambda>records.
     ret (map record_text records))))"

section \<open>Object storage\<close>

datatype s3_error =
    AccessDenied
  | NoSuchBucket
  | NoSuchKey
  | InvalidBucketName
  | InvalidRequest string
  | NetworkError string
  | S3ParseError string
  | Internal string
  | CapabilityNotGranted

record s3_credentials =
  sc_access_key_id :: string
  sc_secret_access_key :: string
  sc_session_token :: "string option"

record s3_endpoint_config =
  sp_url :: string
  sp_region :: string
  sp_path_style :: bool

record s3_object_metadata =
  md_content_type :: "string option"
  md_content_length :: "u64 option"
  md_etag :: "string option"
  md_last_modified :: "u64 option"
  md_custom :: "(string \<times> string) list"

record s3_object_info =
  oi_key :: string
  oi_size :: u64
  oi_etag :: "string option"
  oi_last_modified :: "u64 option"
  oi_storage_class :: "string option"

record s3_get_options =
  go_range :: "(u64 \<times> u64) option"
  go_if_match :: "string option"
  go_if_none_match :: "string option"

record s3_put_options =
  po_content_type :: "string option"
  po_metadata :: "(string \<times> string) list"
  po_cache_control :: "string option"

record s3_list_options =
  lo_prefix :: "string option"
  lo_delimiter :: "string option"
  lo_max_keys :: "u32 option"
  lo_continuation_token :: "string option"

record s3_get_output =
  gu_body :: bytes
  gu_metadata :: s3_object_metadata

record s3_list_output =
  lu_objects :: "s3_object_info list"
  lu_common_prefixes :: "string list"
  lu_next_token :: "string option"
  lu_is_truncated :: bool

definition reconstruct_s3_error :: "service_error \<Rightarrow> s3_error" where
  "reconstruct_s3_error e =
     (if sv_context e = Some ''access-denied'' then AccessDenied
      else if sv_context e = Some ''no-such-bucket'' then NoSuchBucket
      else if sv_context e = Some ''no-such-key'' then NoSuchKey
      else if sv_context e = Some ''invalid-bucket-name'' then InvalidBucketName
      else if sv_context e = Some ''invalid-request'' then InvalidRequest (sv_message e)
      else if sv_context e = Some ''network-error'' then NetworkError (sv_message e)
      else if sv_context e = Some ''parse-error'' then S3ParseError (sv_message e)
      else Internal (sv_message e))"

definition build_s3 :: "'w service_env \<Rightarrow> (s3_error, 'w, unit) service_op" where
  "build_s3 E s =
     (if ss_files s (s3_wasm_path E) = None
      then (Inl (Internal (''s3-endpoint provider wasm not found at '' @ s3_wasm_path E @
        '' (build datalink/components/s3-endpoint or set SQLINK_S3_ENDPOINT_WASM)'')), s)
      else map_op_error Internal (warm_resident E ''s3'' True (s3_wasm_path E)) s)"

definition opt_str :: "string option \<Rightarrow> cbor" where
  "opt_str o' = (case o' of Some s \<Rightarrow> CText s | None \<Rightarrow> CNull)"

definition endpoint_value :: "s3_endpoint_config \<Rightarrow> cbor" where
  "endpoint_value e = cbor_map [(''url'', CText (sp_url e)), (''region'', CText (sp_region e)), (''path_style'', CBool (sp_path_style e))]"

definition creds_value :: "s3_credentials \<Rightarrow> cbor" where
  "creds_value c =
     cbor_map [(''access_key_id'', CText (sc_access_key_id c)), (''secret_access_key'', CText (sc_secret_access_key c)),
       (''session_token'', opt_str (sc_session_token c))]"

definition pairs_value :: "(string \<times> string) list \<Rightarrow> cbor" where
  "pairs_value ps = CArray (map (\<lambda>(k, v). CArray [CText k, CText v]) ps)"

definition as_text :: "cbor \<Rightarrow> string option" where
  "as_text v = (case v of CText s \<Rightarrow> Some s | _ \<Rightarrow> None)"

definition cbor_nat64 :: "cbor \<Rightarrow> u64 option" where
  "cbor_nat64 v = (case v of CInteger i \<Rightarrow> if 0 \<le> i then Some (word_of_int i) else None | _ \<Rightarrow> None)"

fun all_some :: "'a option list \<Rightarrow> 'a list option" where
  "all_some [] = Some []"
| "all_some (None # xs) = None"
| "all_some (Some x # xs) = map_option (Cons x) (all_some xs)"

definition s3_bytes :: "cbor \<Rightarrow> bytes option" where
  "s3_bytes v =
     (case v of
        CBytes b \<Rightarrow> Some b
      | CArray a \<Rightarrow> all_some (map (\<lambda>x. map_option ucast (cbor_nat64 x)) a)
      | _ \<Rightarrow> None)"

definition opt_field_text :: "cbor \<Rightarrow> string \<Rightarrow> string option" where
  "opt_field_text v key = Option.bind (cbor_field v key) (\<lambda>x. if x = CNull then None else as_text x)"

definition opt_field_u64 :: "cbor \<Rightarrow> string \<Rightarrow> u64 option" where
  "opt_field_u64 v key = Option.bind (cbor_field v key) (\<lambda>x. if x = CNull then None else cbor_nat64 x)"

definition metadata_from :: "cbor \<Rightarrow> s3_object_metadata" where
  "metadata_from v =
     \<lparr>md_content_type = opt_field_text v ''content_type'', md_content_length = opt_field_u64 v ''content_length'',
      md_etag = opt_field_text v ''etag'', md_last_modified = opt_field_u64 v ''last_modified'',
      md_custom = (case cbor_field v ''custom'' of
         Some (CArray a) \<Rightarrow> List.map_filter (\<lambda>pair. case pair of CArray [CText k, CText x] \<Rightarrow> Some (k, x) | _ \<Rightarrow> None) a
       | _ \<Rightarrow> [])\<rparr>"

definition no_metadata :: s3_object_metadata where
  "no_metadata = \<lparr>md_content_type = None, md_content_length = None, md_etag = None, md_last_modified = None, md_custom = []\<rparr>"

definition field_metadata :: "cbor \<Rightarrow> s3_object_metadata" where
  "field_metadata resp = (case cbor_field resp ''metadata'' of Some v \<Rightarrow> metadata_from v | None \<Rightarrow> no_metadata)"

definition opt_entry :: "string \<Rightarrow> ('a \<Rightarrow> cbor) \<Rightarrow> 'a option \<Rightarrow> (string \<times> cbor) list" where
  "opt_entry key f o' = (case o' of Some x \<Rightarrow> [(key, f x)] | None \<Rightarrow> [])"

definition object_fields :: "s3_endpoint_config \<Rightarrow> s3_credentials \<Rightarrow> string \<Rightarrow> string \<Rightarrow> (string \<times> cbor) list" where
  "object_fields ep cr bucket key =
     [(''endpoint'', endpoint_value ep), (''credentials'', creds_value cr), (''bucket'', CText bucket), (''key'', CText key)]"

text \<open>One message and its answer. Encoding comes after warming, as the arguments of \<open>invoke\<close> are evaluated last.\<close>

definition s3_ask :: "'w service_env \<Rightarrow> string \<Rightarrow> (string \<times> cbor) list \<Rightarrow> (s3_error, 'w, bytes) service_op" where
  "s3_ask E meth kvs =
     bnd (get_or_try_init ''s3'' (build_s3 E)) (\<lambda>_.
     bnd (lift_sum (map_error (\<lambda>e. Internal (''cbor encode: '' @ e)) (ser (se_codec E) (cbor_map kvs)))) (\<lambda>payload.
     call_service E ''s3'' reconstruct_s3_error meth payload))"

definition s3_decoded :: "'w service_env \<Rightarrow> (s3_error, 'w, bytes) service_op \<Rightarrow> (cbor \<Rightarrow> 'a) \<Rightarrow> (s3_error, 'w, 'a) service_op" where
  "s3_decoded E m f =
     bnd m (\<lambda>b. bnd (lift_sum (map_error (\<lambda>e. S3ParseError (''cbor decode: '' @ e)) (deser (se_codec E) b))) (\<lambda>resp. ret (f resp)))"

definition get_object :: "'w service_env \<Rightarrow> s3_endpoint_config \<Rightarrow> s3_credentials \<Rightarrow> string \<Rightarrow> string \<Rightarrow> s3_get_options option \<Rightarrow>
    (s3_error, 'w, s3_get_output) service_op" where
  "get_object E ep cr bucket key options =
     s3_decoded E (s3_ask E ''get'' (object_fields ep cr bucket key @
        (case options of
           None \<Rightarrow> []
         | Some opts \<Rightarrow>
             opt_entry ''range'' (\<lambda>(a, b). CArray [CInteger (uint a), CInteger (uint b)]) (go_range opts) @
             opt_entry ''if_match'' CText (go_if_match opts) @ opt_entry ''if_none_match'' CText (go_if_none_match opts))))
       (\<lambda>resp. \<lparr>gu_body = (case Option.bind (cbor_field resp ''body'') s3_bytes of Some b \<Rightarrow> b | None \<Rightarrow> []), gu_metadata = field_metadata resp\<rparr>)"

definition etag_of :: "cbor \<Rightarrow> string" where
  "etag_of resp = (case opt_field_text resp ''etag'' of Some t \<Rightarrow> t | None \<Rightarrow> [])"

definition put_object :: "'w service_env \<Rightarrow> s3_endpoint_config \<Rightarrow> s3_credentials \<Rightarrow> string \<Rightarrow> string \<Rightarrow> bytes \<Rightarrow> s3_put_options option \<Rightarrow>
    (s3_error, 'w, string) service_op" where
  "put_object E ep cr bucket key body options =
     s3_decoded E (s3_ask E ''put'' (object_fields ep cr bucket key @ [(''body'', CBytes body)] @
        (case options of
           None \<Rightarrow> []
         | Some opts \<Rightarrow>
             opt_entry ''content_type'' CText (po_content_type opts) @ opt_entry ''cache_control'' CText (po_cache_control opts) @
             (if po_metadata opts = [] then [] else [(''metadata'', pairs_value (po_metadata opts))])))) etag_of"

definition delete_object :: "'w service_env \<Rightarrow> s3_endpoint_config \<Rightarrow> s3_credentials \<Rightarrow> string \<Rightarrow> string \<Rightarrow> (s3_error, 'w, unit) service_op" where
  "delete_object E ep cr bucket key = bnd (s3_ask E ''delete'' (object_fields ep cr bucket key)) (\<lambda>_. ret ())"

definition head_object :: "'w service_env \<Rightarrow> s3_endpoint_config \<Rightarrow> s3_credentials \<Rightarrow> string \<Rightarrow> string \<Rightarrow> (s3_error, 'w, s3_object_metadata) service_op" where
  "head_object E ep cr bucket key = s3_decoded E (s3_ask E ''head'' (object_fields ep cr bucket key)) field_metadata"

definition object_info :: "cbor \<Rightarrow> s3_object_info" where
  "object_info x =
     \<lparr>oi_key = (case opt_field_text x ''key'' of Some k \<Rightarrow> k | None \<Rightarrow> []), oi_size = (case opt_field_u64 x ''size'' of Some n \<Rightarrow> n | None \<Rightarrow> 0),
      oi_etag = opt_field_text x ''etag'', oi_last_modified = opt_field_u64 x ''last_modified'', oi_storage_class = opt_field_text x ''storage_class''\<rparr>"

definition list_objects :: "'w service_env \<Rightarrow> s3_endpoint_config \<Rightarrow> s3_credentials \<Rightarrow> string \<Rightarrow> s3_list_options option \<Rightarrow> (s3_error, 'w, s3_list_output) service_op" where
  "list_objects E ep cr bucket options =
     s3_decoded E (s3_ask E ''list'' ([(''endpoint'', endpoint_value ep), (''credentials'', creds_value cr), (''bucket'', CText bucket)] @
        (case options of
           None \<Rightarrow> []
         | Some opts \<Rightarrow>
             opt_entry ''prefix'' CText (lo_prefix opts) @ opt_entry ''delimiter'' CText (lo_delimiter opts) @
             opt_entry ''max_keys'' (\<lambda>m. CInteger (uint m)) (lo_max_keys opts) @ opt_entry ''continuation_token'' CText (lo_continuation_token opts))))
       (\<lambda>resp. \<lparr>lu_objects = (case cbor_field resp ''objects'' of Some (CArray a) \<Rightarrow> map object_info a | _ \<Rightarrow> []),
          lu_common_prefixes = (case cbor_field resp ''common_prefixes'' of Some (CArray a) \<Rightarrow> List.map_filter as_text a | _ \<Rightarrow> []),
          lu_next_token = opt_field_text resp ''next_continuation_token'',
          lu_is_truncated = (cbor_field resp ''is_truncated'' = Some (CBool True))\<rparr>)"

definition copy_object :: "'w service_env \<Rightarrow> s3_endpoint_config \<Rightarrow> s3_credentials \<Rightarrow> string \<Rightarrow> string \<Rightarrow> string \<Rightarrow> string \<Rightarrow> (s3_error, 'w, string) service_op" where
  "copy_object E ep cr sb sk tb tk =
     s3_decoded E (s3_ask E ''copy'' [(''endpoint'', endpoint_value ep), (''credentials'', creds_value cr), (''source_bucket'', CText sb), (''source_key'', CText sk),
       (''dest_bucket'', CText tb), (''dest_key'', CText tk)]) etag_of"

section \<open>Compression\<close>

definition DEFAULT_MANIFEST_URL :: string where
  "DEFAULT_MANIFEST_URL = ''https://get.sqlink.dev/providers/manifest.json''"

definition manifest_url :: "'w service_env \<Rightarrow> string" where
  "manifest_url E = (case se_vars E ''SQLINK_PROVIDERS_MANIFEST_URL'' of Some u \<Rightarrow> u | None \<Rightarrow> DEFAULT_MANIFEST_URL)"

definition sha256_hex :: "'w service_env \<Rightarrow> bytes \<Rightarrow> string" where
  "sha256_hex E b = hex_lower (se_sha256 E b)"

definition before_slash :: "string \<Rightarrow> string" where
  "before_slash s = takeWhile (\<lambda>c. c \<noteq> CHR ''/'') s"

definition after_slash :: "string \<Rightarrow> string option" where
  "after_slash s = (if CHR ''/'' \<in> set s then Some (tl (dropWhile (\<lambda>c. c \<noteq> CHR ''/'') s)) else None)"

fun split_once_str :: "string \<Rightarrow> string \<Rightarrow> (string \<times> string) option" where
  "split_once_str pat [] = (if pat = [] then Some ([], []) else None)"
| "split_once_str pat (c # cs) =
     (if starts_with (c # cs) pat then Some ([], drop (length pat) (c # cs)) else map_option (\<lambda>(a, b). (c # a, b)) (split_once_str pat cs))"

definition rebase_to_origin :: "string \<Rightarrow> string \<Rightarrow> string" where
  "rebase_to_origin base artifact =
     (case split_once_str ''://'' base of
        None \<Rightarrow> artifact
      | Some (scheme, rest) \<Rightarrow>
          scheme @ ''://'' @ before_slash rest @
          (case split_once_str ''://'' artifact of
             Some (_, arest) \<Rightarrow> (case after_slash arest of Some p \<Rightarrow> CHR ''/'' # p | None \<Rightarrow> ''/'')
           | None \<Rightarrow> if starts_with artifact ''/'' then artifact else CHR ''/'' # artifact))"

definition fetch_url :: "'w service_env \<Rightarrow> string \<Rightarrow> string \<Rightarrow> (string, 'w, bytes) service_op" where
  "fetch_url E what url =
     map_op_error (\<lambda>e. case e of Inl m \<Rightarrow> ''compression fetch: GET '' @ (if what = ''manifest'' then ''manifest '' else []) @ url @ '': '' @ m
         | Inr m \<Rightarrow> ''compression fetch: read '' @ what @ '': '' @ m)
       (in_net (Some (Fetched url)) (se_get E url))"

definition cache_path :: "'w service_env \<Rightarrow> string \<Rightarrow> string \<Rightarrow> string" where
  "cache_path E want suffix = path_join (path_join (home_dir E) ''.cache/sqlink/residents'') (''compression-endpoint-'' @ want @ suffix)"

definition write_file :: "string \<Rightarrow> bytes \<Rightarrow> ('e, 'w, unit) service_op" where
  "write_file path b s = (Inr (), s\<lparr>ss_files := (ss_files s)(path \<mapsto> b)\<rparr>)"

definition rename_file :: "string \<Rightarrow> string \<Rightarrow> ('e, 'w, unit) service_op" where
  "rename_file src dst s = (Inr (), s\<lparr>ss_files := (ss_files s)(src := None, dst := ss_files s src)\<rparr>)"

text \<open>The first twelve bytes of the digest, or all of it when there is no such prefix.\<close>

definition sha12 :: "string \<Rightarrow> string" where
  "sha12 want = (if 12 \<le> length want \<and> utf8_valid (take 12 want) then take 12 want else want)"

definition store_component :: "'w service_env \<Rightarrow> string \<Rightarrow> bytes \<Rightarrow> (string, 'w, string) service_op" where
  "store_component E want b =
     (let cached = cache_path E (sha12 want) ''.wasm''; tmp = cache_path E (sha12 want) (''.'' @ show_nat (se_pid E) @ ''.tmp'');
          dir = path_join (home_dir E) ''.cache/sqlink/residents'' in
      bnd (lift_sum (map_error (\<lambda>e. ''compression fetch: mkdir '' @ dir @ '': '' @ e) (se_mkdir E dir))) (\<lambda>_.
      bnd (lift_sum (map_error (\<lambda>e. ''compression fetch: write '' @ tmp @ '': '' @ e) (se_write E tmp))) (\<lambda>_.
      bnd (write_file tmp b) (\<lambda>_.
      bnd (lift_sum (map_error (\<lambda>e. ''compression fetch: rename to '' @ cached @ '': '' @ e) (se_rename E cached))) (\<lambda>_.
      bnd (rename_file tmp cached) (\<lambda>_.
      ret cached))))))"

definition obtain_component :: "'w service_env \<Rightarrow> string \<Rightarrow> string \<Rightarrow> (string, 'w, string) service_op" where
  "obtain_component E url want =
     (let cached = cache_path E (sha12 want) ''.wasm'' in
      bnd (query (\<lambda>s. Inr (ss_files s cached))) (\<lambda>found.
      if (case found of Some b \<Rightarrow> sha256_hex E b = want | None \<Rightarrow> False) then ret cached
      else
        bnd (fetch_url E ''body'' (rebase_to_origin (manifest_url E) url)) (\<lambda>b.
        bnd (lift_sum (ensure (''compression-endpoint sha256 mismatch (got '' @ sha256_hex E b @ '', want '' @ want @ '') from '' @ url) (sha256_hex E b = want))) (\<lambda>_.
        store_component E want b))))"

definition fetch_from_catalog :: "'w service_env \<Rightarrow> (string, 'w, string) service_op" where
  "fetch_from_catalog E =
     bnd (lift_sum (map_error (\<lambda>e. ''compression fetch: http client: '' @ e) (se_client E))) (\<lambda>_.
     bnd (fetch_url E ''manifest'' (manifest_url E)) (\<lambda>manifest.
     bnd (lift_sum (map_error (\<lambda>e. ''compression fetch: parse manifest: '' @ e) (se_manifest E manifest))) (\<lambda>entry.
     bnd (lift_sum (ok_or (''catalog manifest ('' @ manifest_url E @
       '') has no residents.compression-endpoint; build datalink/components/compression-endpoint or set SQLINK_COMPRESSION_ENDPOINT_WASM'') entry)) (\<lambda>en.
     bnd (lift_sum (ok_or ''residents.compression-endpoint missing url'' (re_url en))) (\<lambda>url.
     bnd (lift_sum (ok_or ''residents.compression-endpoint missing sha256'' (re_sha256 en))) (\<lambda>want.
     obtain_component E url want))))))"

definition resolve_or_fetch :: "'w service_env \<Rightarrow> (string, 'w, string) service_op" where
  "resolve_or_fetch E s =
     (case se_vars E ''SQLINK_COMPRESSION_ENDPOINT_WASM'' of
        Some p \<Rightarrow> if ss_files s p = None then (Inl (''SQLINK_COMPRESSION_ENDPOINT_WASM points at a missing file: '' @ p), s) else (Inr p, s)
      | None \<Rightarrow> if ss_files s (dev_wasm_path E) \<noteq> None then (Inr (dev_wasm_path E), s) else fetch_from_catalog E s)"

definition build_compression :: "'w service_env \<Rightarrow> (string, 'w, unit) service_op" where
  "build_compression E = bnd (resolve_or_fetch E) (\<lambda>path. warm_resident E ''compression'' False path)"

definition zstd :: "'w service_env \<Rightarrow> string \<Rightarrow> (string \<times> cbor) list \<Rightarrow> (string, 'w, bytes) service_op" where
  "zstd E meth kvs =
     bnd (lift_sum (map_error (\<lambda>e. ''cbor encode: '' @ e) (ser (se_codec E) (cbor_map kvs)))) (\<lambda>req.
     bnd (get_or_try_init ''compression'' (build_compression E)) (\<lambda>_.
     call_service E ''compression'' (\<lambda>e. ''compression '' @ meth @ '': '' @ sv_message e) meth req))"

definition compress :: "'w service_env \<Rightarrow> bytes \<Rightarrow> i32 \<Rightarrow> (string, 'w, bytes) service_op" where
  "compress E b level = zstd E ''zstd.compress'' [(''data'', CBytes b), (''level'', CInteger (sint level))]"

definition decompress :: "'w service_env \<Rightarrow> bytes \<Rightarrow> (string, 'w, bytes) service_op" where
  "decompress E b = zstd E ''zstd.decompress'' [(''data'', CBytes b)]"

definition compress_dict :: "'w service_env \<Rightarrow> bytes \<Rightarrow> bytes \<Rightarrow> i32 \<Rightarrow> (string, 'w, bytes) service_op" where
  "compress_dict E b d level = zstd E ''zstd.compress-dict'' [(''data'', CBytes b), (''dict'', CBytes d), (''level'', CInteger (sint level))]"

definition decompress_dict :: "'w service_env \<Rightarrow> bytes \<Rightarrow> bytes \<Rightarrow> (string, 'w, bytes) service_op" where
  "decompress_dict E b d = zstd E ''zstd.decompress-dict'' [(''data'', CBytes b), (''dict'', CBytes d)]"

section \<open>What leaves the host\<close>

text \<open>The log grows by entries that satisfy \<open>P\<close>.\<close>

definition log_extends :: "(egress \<Rightarrow> bool) \<Rightarrow> 'w service_state \<Rightarrow> 'w service_state \<Rightarrow> bool" where
  "log_extends P s t \<longleftrightarrow> (\<exists>es. ss_log t = ss_log s @ es \<and> list_all P es)"

interpretation log_frame: frame_relation "log_extends P" for P
proof
  show "log_extends P s s" for s by (simp add: log_extends_def)
  show "log_extends P s u" if st: "log_extends P s t" and tu: "log_extends P t u" for s t u
  proof -
    from st tu obtain es es' where "ss_log t = ss_log s @ es" "list_all P es" "ss_log u = ss_log t @ es'" "list_all P es'"
      unfolding log_extends_def by blast
    then show ?thesis unfolding log_extends_def by (intro exI [of _ "es @ es'"]) simp
  qed
qed

abbreviation emits :: "(egress \<Rightarrow> bool) \<Rightarrow> ('w service_state \<Rightarrow> 'r \<times> 'w service_state) \<Rightarrow> bool" where
  "emits P \<equiv> framed (log_extends P)"

named_theorems emits_intros

lemmas [emits_intros] = log_frame.framed_query log_frame.framed_ret log_frame.framed_bnd framed_if

lemma emits_map [emits_intros]: "emits P m \<Longrightarrow> emits P (map_op_error f m)"
  by (simp add: framed_def map_op_error_def case_prod_unfold)

lemma emits_net_None [emits_intros]: "emits P (in_net None f)"
  by (simp add: framed_def log_extends_def in_net_def case_prod_unfold)

lemma emits_net_Some [emits_intros]: "P e \<Longrightarrow> emits P (in_net (Some e) f)"
  by (simp add: framed_def log_extends_def in_net_def case_prod_unfold)

lemma emits_once [emits_intros]:
  assumes "emits P build"
  shows "emits P (get_or_try_init cell build)"
proof (rule framedI)
  fix s
  obtain r s1 where b: "build s = (r, s1)" by fastforce
  from framedD [OF assms b] b show "log_extends P s (snd (get_or_try_init cell build s))"
    by (cases r) (auto simp: get_or_try_init_def log_extends_def)
qed

lemma emits_files [emits_intros]: "emits P (write_file p b)" "emits P (rename_file p q)"
  by (simp_all add: framed_def log_extends_def write_file_def rename_file_def)

lemma emits_weaken: "emits P f \<Longrightarrow> (\<And>e. P e \<Longrightarrow> Q e) \<Longrightarrow> emits Q f"
  unfolding framed_def log_extends_def by (metis list.pred_mono_strong)

lemma emits_warm [emits_intros]: "emits P (warm_resident E i n p)"
  unfolding warm_resident_def by (intro emits_intros)

lemma emits_build_http [emits_intros]: "emits P (build_http E)"
  unfolding build_http_def [abs_def] by (intro log_frame.framed_guard emits_intros)

lemma emits_build_s3 [emits_intros]: "emits P (build_s3 E)"
  unfolding build_s3_def [abs_def] by (intro log_frame.framed_guard emits_intros)

lemma emits_call [emits_intros]: "P (SentTo ident m p) \<Longrightarrow> emits P (call_service E ident f m p)"
  unfolding call_service_def by (intro emits_intros)

lemma emits_s3_ask:
  assumes "\<And>m p. P (SentTo ''s3'' m p)"
  shows "emits P (s3_ask E m kvs)"
  unfolding s3_ask_def using assms by (intro emits_intros)

lemma emits_decoded [emits_intros]: "emits P m \<Longrightarrow> emits P (s3_decoded E m f)"
  unfolding s3_decoded_def by (intro emits_intros)

lemma emits_s3:
  assumes "\<And>m p. P (SentTo ''s3'' m p)"
  shows "emits P (get_object E ep cr b k go)" "emits P (put_object E ep cr b k body po)" "emits P (delete_object E ep cr b k)"
    "emits P (head_object E ep cr b k)" "emits P (list_objects E ep cr b lo)" "emits P (copy_object E ep cr b k b' k')"
  unfolding get_object_def put_object_def delete_object_def head_object_def list_objects_def copy_object_def
  by (intro emits_intros emits_s3_ask assms)+

text \<open>A request that reaches the HTTP service was let through by the policy, and is the one the message holds.\<close>

definition http_allowed :: "'w service_env \<Rightarrow> http_policy option \<Rightarrow> bytes \<Rightarrow> bool" where
  "http_allowed E policy payload \<longleftrightarrow>
     (\<exists>p sch authority path meth verb url hs body timeout. policy = Some p \<and>
        http_url (se_checks E) policy sch (Some authority) path meth = Inr (verb, url) \<and>
        ser (se_codec E) (http_message verb url hs body timeout) = Inr payload)"

lemma http_url_granted:
  assumes "http_url K policy sch authority path meth = Inr (verb, url)"
  obtains p a where "policy = Some p" "authority = Some a"
  using assms by (cases authority; cases policy) (auto simp: http_url_def check_http_policy_def sbind_eq_Inr_iff map_error_def Let_def)

lemma emits_http:
  assumes "\<And>payload. http_allowed E policy payload \<Longrightarrow> P (SentTo ''http'' ''request'' payload)"
  shows "emits P (net_http_handle E policy req)"
  unfolding net_http_handle_def
proof (rule log_frame.framed_bnd_query)
  fix x assume u: "http_url (se_checks E) policy (rq_scheme req) (rq_authority req) (rq_path req) (rq_method req) = Inr x"
  obtain verb url where x: "x = (verb, url)" by fastforce
  from http_url_granted [OF u [unfolded x]] obtain p a where g: "policy = Some p" "rq_authority req = Some a" .
  have "emits P (http_send E verb url (rq_headers req) (rq_body req) (rq_timeout_ms req))"
    unfolding http_send_def
  proof (rule log_frame.framed_bnd [OF emits_once [OF emits_build_http]], rule log_frame.framed_bnd_query, rule log_frame.framed_bnd [OF emits_call])
    fix payload assume m: "map_error (\<lambda>e. HttpOther (''cbor encode: '' @ e))
        (ser (se_codec E) (http_message verb url (rq_headers req) (rq_body req) (rq_timeout_ms req))) = Inr payload"
    then have "ser (se_codec E) (http_message verb url (rq_headers req) (rq_body req) (rq_timeout_ms req)) = Inr payload"
      by (simp add: map_error_def split: sum.splits)
    with u g x show "P (SentTo ''http'' ''request'' payload)"
      by (intro assms, unfold http_allowed_def) metis
  qed (intro emits_intros)
  then show "emits P (case x of (verb, url) \<Rightarrow> http_send E verb url (rq_headers req) (rq_body req) (rq_timeout_ms req))"
    by (simp add: x)
qed

lemma emits_dns:
  assumes "\<And>p rtype. policy = Some p \<Longrightarrow> check_domain (se_checks E) p name = Inr () \<Longrightarrow> P (LookedUp name rtype)"
  shows "emits P (net_dns_resolve E policy name r)"
  unfolding net_dns_resolve_def Let_def
proof (rule log_frame.framed_bnd_query, rule log_frame.framed_bnd_query, rule log_frame.framed_bnd [OF emits_map [OF emits_net_Some]])
  fix x rtype assume "map_error Refused (check_dns_policy (se_checks E) policy name) = Inr x"
  then obtain p where "policy = Some p" "check_domain (se_checks E) p name = Inr ()"
    by (cases policy) (auto simp: check_dns_policy_def map_error_def split: sum.splits)
  then show "P (LookedUp name rtype)" by (rule assms)
qed (intro emits_intros)

section \<open>The compression component\<close>

text \<open>Its origin: fetches go to the host of the catalog, whatever the catalog says.\<close>

lemma rebase_same_origin:
  assumes "split_once_str ''://'' base = Some (scheme, rest)"
  shows "\<exists>path. rebase_to_origin base artifact = scheme @ ''://'' @ before_slash rest @ CHR ''/'' # path"
proof (cases "split_once_str ''://'' artifact")
  case None
  show ?thesis
  proof (cases "starts_with artifact ''/''")
    case True
    then obtain p where "artifact = CHR ''/'' # p" by (cases artifact) auto
    with None assms True show ?thesis by (simp add: rebase_to_origin_def)
  qed (use None assms in \<open>simp add: rebase_to_origin_def\<close>)
qed (use assms in \<open>auto simp: rebase_to_origin_def split: option.splits\<close>)

definition catalog_fetch :: "'w service_env \<Rightarrow> egress \<Rightarrow> bool" where
  "catalog_fetch E e \<longleftrightarrow> (\<exists>url. e = Fetched url \<and> (url = manifest_url E \<or> (\<exists>u. url = rebase_to_origin (manifest_url E) u)))"

lemma emits_fetch_url: "P (Fetched url) \<Longrightarrow> emits P (fetch_url E what url)"
  unfolding fetch_url_def by (intro emits_intros)

lemma emits_fetch_from_catalog: "emits (catalog_fetch E) (fetch_from_catalog E)"
  unfolding fetch_from_catalog_def obtain_component_def store_component_def Let_def
  by (intro emits_intros emits_fetch_url) (auto simp: catalog_fetch_def)

lemma emits_resolve: "emits (catalog_fetch E) (resolve_or_fetch E)"
  unfolding resolve_or_fetch_def [abs_def]
  by (auto simp: framed_def log_frame.frame_refl intro: emits_fetch_from_catalog [unfolded framed_def, rule_format] split: option.splits)

lemma emits_zstd:
  assumes "\<And>m p. P (SentTo ''compression'' m p)" "\<And>e. catalog_fetch E e \<Longrightarrow> P e"
  shows "emits P (zstd E m kvs)"
  unfolding zstd_def build_compression_def
  by (intro emits_intros emits_weaken [OF emits_resolve] assms)

text \<open>Storing a component touches no cached one unless it succeeds.\<close>

lemma last_path_join: "q \<noteq> [] \<Longrightarrow> last (path_join p q) = last q"
  by (simp add: path_join_def)

lemma cache_path_distinct: "cache_path E a ''.wasm'' \<noteq> cache_path E b (''.'' @ n @ ''.tmp'')"
proof
  assume "cache_path E a ''.wasm'' = cache_path E b (''.'' @ n @ ''.tmp'')"
  then have "last (cache_path E a ''.wasm'') = last (cache_path E b (''.'' @ n @ ''.tmp''))" by simp
  then show False by (simp add: cache_path_def last_path_join)
qed

definition cache_kept :: "'w service_env \<Rightarrow> 'w service_state \<Rightarrow> 'w service_state \<Rightarrow> bool" where
  "cache_kept E s s' \<longleftrightarrow> (\<forall>w. ss_files s' (cache_path E w ''.wasm'') = ss_files s (cache_path E w ''.wasm''))"

lemma bnd_cases:
  assumes "bnd f g s = (r, s')"
  obtains (stop) e where "f s = (Inl e, s')" "r = Inl e" | (go) x s1 where "f s = (Inr x, s1)" "g x s1 = (r, s')"
  using assms by (auto simp: bnd_def split: prod.splits sum.splits)

lemma store_component_result:
  assumes "store_component E want b s = (r, s')"
  shows "ss_log s' = ss_log s \<and>
    (case r of Inr path \<Rightarrow> path = cache_path E (sha12 want) ''.wasm'' \<and> ss_files s' path = Some b | Inl _ \<Rightarrow> cache_kept E s s')"
  using assms cache_path_distinct [of E]
  by (auto simp: store_component_def Let_def query_def ret_def write_file_def rename_file_def cache_kept_def elim!: bnd_cases)

lemma fetch_url_result:
  assumes "fetch_url E what url s = (r, s')"
  shows "ss_files s' = ss_files s \<and> ss_log s' = ss_log s @ [Fetched url] \<and> (\<forall>b. r = Inr b \<longrightarrow> se_get E url (ss_world s) = (Inr b, ss_world s'))"
  using assms by (auto simp: fetch_url_def map_op_error_def in_net_def split: prod.splits)

lemma obtain_component_result:
  assumes "obtain_component E url want s = (r, s')"
  shows "ss_log s' \<in> {ss_log s, ss_log s @ [Fetched (rebase_to_origin (manifest_url E) url)]} \<and>
    (case r of Inr path \<Rightarrow> \<exists>b. path = cache_path E (sha12 want) ''.wasm'' \<and> ss_files s' path = Some b \<and> sha256_hex E b = want
     | Inl _ \<Rightarrow> cache_kept E s s')"
proof (cases "case ss_files s (cache_path E (sha12 want) ''.wasm'') of Some b \<Rightarrow> sha256_hex E b = want | None \<Rightarrow> False")
  case True
  with assms show ?thesis by (auto simp: obtain_component_def Let_def bnd_def query_def ret_def split: option.splits)
next
  case False
  let ?rest = "\<lambda>b. bnd (lift_sum (ensure (''compression-endpoint sha256 mismatch (got '' @ sha256_hex E b @ '', want '' @ want @ '') from '' @ url) (sha256_hex E b = want))) (\<lambda>_.
        store_component E want b)"
  from False assms have "bnd (fetch_url E ''body'' (rebase_to_origin (manifest_url E) url)) ?rest s = (r, s')"
    by (simp add: obtain_component_def Let_def bnd_def query_def)
  then show ?thesis
  proof (cases rule: bnd_cases)
    case (stop e)
    with fetch_url_result [OF stop(1)] show ?thesis by (simp add: cache_kept_def)
  next
    case (go b s1)
    note f = fetch_url_result [OF go(1)]
    from go(2) show ?thesis
    proof (cases rule: bnd_cases)
      case (stop e)
      with f show ?thesis by (simp add: query_def cache_kept_def)
    next
      case (go u s2)
      then have "sha256_hex E b = want" "s2 = s1" by (auto simp: query_def ensure_def split: if_splits)
      with store_component_result [OF go(2)] f show ?thesis by (auto simp: cache_kept_def split: sum.splits)
    qed
  qed
qed

text \<open>What a download from the catalog may fetch, and what it ends with.\<close>

definition catalog_fetches :: "'w service_env \<Rightarrow> egress list \<Rightarrow> bool" where
  "catalog_fetches E es \<longleftrightarrow> es = [] \<or> es = [Fetched (manifest_url E)] \<or>
     (\<exists>url. es = [Fetched (manifest_url E), Fetched (rebase_to_origin (manifest_url E) url)])"

definition catalog_component :: "'w service_env \<Rightarrow> 'w service_state \<Rightarrow> string \<Rightarrow> 'w service_state \<Rightarrow> bool" where
  "catalog_component E s path s' \<longleftrightarrow>
     (\<exists>m w entry b want. se_get E (manifest_url E) (ss_world s) = (Inr m, w) \<and> se_manifest E m = Inr (Some entry) \<and>
        re_sha256 entry = Some want \<and> path = cache_path E (sha12 want) ''.wasm'' \<and> ss_files s' path = Some b \<and> sha256_hex E b = want)"

lemma fetch_from_catalog_result:
  assumes "fetch_from_catalog E s = (r, s')"
  shows "(\<exists>es. ss_log s' = ss_log s @ es \<and> catalog_fetches E es) \<and>
    (case r of Inr path \<Rightarrow> catalog_component E s path s' | Inl _ \<Rightarrow> cache_kept E s s')"
proof -
  have kept: ?thesis if "ss_files s' = ss_files s" "\<exists>e. r = Inl e" "ss_log s' \<in> {ss_log s, ss_log s @ [Fetched (manifest_url E)]}"
    using that by (auto simp: cache_kept_def catalog_fetches_def)
  show ?thesis using assms unfolding fetch_from_catalog_def
  proof (elim bnd_cases)
    fix u1 s1 manifest s2 entry s3 en s4 url s5 want s6
    assume a: "lift_sum (map_error (\<lambda>e. ''compression fetch: http client: '' @ e) (se_client E)) s = (Inr u1, s1)"
      "fetch_url E ''manifest'' (manifest_url E) s1 = (Inr manifest, s2)"
      "lift_sum (map_error (\<lambda>e. ''compression fetch: parse manifest: '' @ e) (se_manifest E manifest)) s2 = (Inr entry, s3)"
      "lift_sum (ok_or (''catalog manifest ('' @ manifest_url E @
       '') has no residents.compression-endpoint; build datalink/components/compression-endpoint or set SQLINK_COMPRESSION_ENDPOINT_WASM'') entry) s3 = (Inr en, s4)"
      "lift_sum (ok_or ''residents.compression-endpoint missing url'' (re_url en)) s4 = (Inr url, s5)"
      "lift_sum (ok_or ''residents.compression-endpoint missing sha256'' (re_sha256 en)) s5 = (Inr want, s6)"
      "obtain_component E url want s6 = (r, s')"
    from a(1,3-6) have s6: "s1 = s" "s6 = s2" by (auto simp: query_def)
    note f = fetch_url_result [OF a(2)] and o = obtain_component_result [OF a(7)]
    have en: "se_manifest E manifest = Inr (Some en)" "re_sha256 en = Some want"
      using a(3,4,6) by (auto simp: query_def ok_or_def map_error_def split: sum.splits option.splits)
    have "\<exists>es. ss_log s' = ss_log s @ es \<and> catalog_fetches E es"
      using o f s6 by (auto simp: catalog_fetches_def)
    moreover have "case r of Inr path \<Rightarrow> catalog_component E s path s' | Inl _ \<Rightarrow> cache_kept E s s'"
      using o f s6 en unfolding catalog_component_def by (cases r) (simp add: cache_kept_def, force)
    ultimately show ?thesis by blast
  qed (rule kept; auto simp: query_def dest!: fetch_url_result)+
qed

text \<open>C19. The compression component is authentic and comes from the catalog's host. When it is neither configured nor built
  locally, resolving it either fails or ends with a file whose bytes have the SHA-256 digest that is stated by the
  catalog that was fetched for it, whether the file was cached before, was cached and corrupt, or was downloaded. What
  is fetched is at most the catalog and then one URL on the catalog's own host, whatever URL the catalog gives; and
  when resolving fails no cached component has changed.\<close>

theorem compression_component_verified:
  assumes "resolve_or_fetch E s = (r, s')" "se_vars E ''SQLINK_COMPRESSION_ENDPOINT_WASM'' = None" "ss_files s (dev_wasm_path E) = None"
    "split_once_str ''://'' (manifest_url E) = Some (scheme, rest)"
  shows "(case r of
      Inr path \<Rightarrow> \<exists>m w entry b want. se_get E (manifest_url E) (ss_world s) = (Inr m, w) \<and> se_manifest E m = Inr (Some entry) \<and>
        re_sha256 entry = Some want \<and> path = cache_path E (sha12 want) ''.wasm'' \<and> ss_files s' path = Some b \<and> sha256_hex E b = want
    | Inl _ \<Rightarrow> (\<forall>want. ss_files s' (cache_path E want ''.wasm'') = ss_files s (cache_path E want ''.wasm''))) \<and>
    (\<exists>es. ss_log s' = ss_log s @ es \<and> (es = [] \<or> es = [Fetched (manifest_url E)] \<or>
      (\<exists>path. es = [Fetched (manifest_url E), Fetched (scheme @ ''://'' @ before_slash rest @ CHR ''/'' # path)])))"
proof -
  have f: "fetch_from_catalog E s = (r, s')" using assms(1-3) by (simp add: resolve_or_fetch_def)
  from fetch_from_catalog_result [OF f] obtain es where es: "ss_log s' = ss_log s @ es" "catalog_fetches E es" by blast
  have "es = [] \<or> es = [Fetched (manifest_url E)] \<or>
      (\<exists>path. es = [Fetched (manifest_url E), Fetched (scheme @ ''://'' @ before_slash rest @ CHR ''/'' # path)])"
    using es(2) rebase_same_origin [OF assms(4)] unfolding catalog_fetches_def by metis
  with es(1) fetch_from_catalog_result [OF f] show ?thesis
    by (cases r) (auto simp: cache_kept_def catalog_component_def)
qed

text \<open>A host with nothing installed, and a catalog that moved to another host.\<close>

definition toy_services :: "nat service_env" where
  "toy_services = \<lparr>
     se_codec = \<lparr>ser = (\<lambda>v. if v = http_message ''GET'' ''https://good.com:8443/'' [] None None then Inr [1] else Inl ''unsupported''), deser = (\<lambda>b. if b = [1] then Inr (http_message ''GET'' ''https://good.com:8443/'' [] None None) else Inl ''eof'')\<rparr>,
     se_checks = toy_checks, se_sha256 = (\<lambda>b. b), se_vars = (\<lambda>_. None), se_pid = 1, se_engine = Inr (),
     se_register = (\<lambda>_ _ _. Inr ()), se_warm = (\<lambda>_. ret ()), se_invoke = (\<lambda>_ _ _. ret [2]), se_lookup = (\<lambda>_ _ _. ret []),
     se_debug = (\<lambda>s. s), se_record_type = (\<lambda>_. None), se_get = (\<lambda>url. ret (if url = DEFAULT_MANIFEST_URL then [1] else [2])),
     se_manifest = (\<lambda>_. Inr (Some \<lparr>re_url = Some ''https://old.host/c.wasm'', re_sha256 = Some ''02''\<rparr>)), se_client = Inr (),
     se_mkdir = (\<lambda>_. Inr ()), se_write = (\<lambda>_. Inr ()), se_rename = (\<lambda>_. Inr ())\<rparr>"

definition fresh_services :: "nat service_state" where
  "fresh_services = \<lparr>ss_files = Map.empty, ss_warm = [], ss_log = [], ss_world = 0\<rparr>"

theorem compression_component_verified_witness:
  "\<exists>path s'. resolve_or_fetch toy_services fresh_services = (Inr path, s') \<and> ss_files s' path = Some [2] \<and> sha256_hex toy_services [2] = ''02'' \<and>
     ss_log s' = [Fetched ''https://get.sqlink.dev/providers/manifest.json'', Fetched ''https://get.sqlink.dev/c.wasm'']"
proof -
  have url: "split_once_str ''://'' (manifest_url toy_services) = Some (''https'', ''get.sqlink.dev/providers/manifest.json'')"
    "rebase_to_origin (manifest_url toy_services) ''https://old.host/c.wasm'' = ''https://get.sqlink.dev/c.wasm''"
    "manifest_url toy_services = ''https://get.sqlink.dev/providers/manifest.json''"
    by (simp_all add: manifest_url_def toy_services_def DEFAULT_MANIFEST_URL_def rebase_to_origin_def before_slash_def after_slash_def)
  have sha: "sha256_hex toy_services [2] = ''02''" by (simp add: sha256_hex_def toy_services_def hex_lower_def char_of_eq_iff)
  have get: "se_get toy_services u w = (Inr (if u = DEFAULT_MANIFEST_URL then [1] else [2]), w)" for u w by (simp add: toy_services_def ret_def)
  have other: "se_client toy_services = Inr ()" "se_manifest toy_services m = Inr (Some \<lparr>re_url = Some ''https://old.host/c.wasm'', re_sha256 = Some ''02''\<rparr>)"
    "se_mkdir toy_services p = Inr ()" "se_write toy_services p = Inr ()" "se_rename toy_services p = Inr ()" "se_vars toy_services v = None" for m p v
    by (simp_all add: toy_services_def)
  have files: "ss_files fresh_services p = None" for p by (simp add: fresh_services_def)
  have "\<exists>path s'. resolve_or_fetch toy_services fresh_services = (Inr path, s') \<and>
      ss_log s' = [Fetched ''https://get.sqlink.dev/providers/manifest.json'', Fetched ''https://get.sqlink.dev/c.wasm'']"
    by (simp add: resolve_or_fetch_def other files fetch_from_catalog_def bnd_def query_def map_error_def fetch_url_def map_op_error_def in_net_def get url(3) url(2) [unfolded url(3)]
        ok_or_def obtain_component_def Let_def fresh_services_def DEFAULT_MANIFEST_URL_def ensure_def sha store_component_def write_file_def rename_file_def ret_def)
  then obtain path s' where r: "resolve_or_fetch toy_services fresh_services = (Inr path, s')"
    and l: "ss_log s' = [Fetched ''https://get.sqlink.dev/providers/manifest.json'', Fetched ''https://get.sqlink.dev/c.wasm'']" by blast
  from compression_component_verified [OF r other(6) files url(1)] obtain b want where
    "ss_files s' path = Some b" "sha256_hex toy_services b = want" "want = ''02''" by (auto simp: other)
  moreover have "b = [2]" if "sha256_hex toy_services b = ''02''" for b
    using that sha hex_lower_inj [of b "[2]"] by (simp add: sha256_hex_def toy_services_def)
  ultimately show ?thesis using r l sha by blast
qed

end
