(* ===== verification/Guest_Imports.thy ===== *)
theory Guest_Imports
  imports Extension_Host Resident_Services
begin

text \<open>
  What a provider component can call on the host: the handlers of \<^verbatim>\<open>wasmos_imports.rs\<close>, the set of them that
  \<^verbatim>\<open>wasmos_install_flow.rs\<close> builds, what a resident provider is linked with (\<^verbatim>\<open>compose_provider.rs\<close>), and the tests on a component's
  interfaces. Of the interfaces that are linked beside that set (WASI, the dynlink linker, SPI, the command line's
  output, the loader bridge and sessions) only which of them are linked is modelled here.

  The mirror types of \<^verbatim>\<open>wasmos_imports.rs\<close> have the fields of the types they mirror; one type stands for both, and the
  conversions between them are the identity. A set of imports is a list of named handlers, the last one registered
  first.
\<close>

section \<open>Interfaces of a component\<close>

record component_type =
  ct_imports :: "string list"
  ct_exports :: "string list"

definition imports_prefix :: "component_type \<Rightarrow> string \<Rightarrow> bool" where
  "imports_prefix c p \<longleftrightarrow> list_ex (\<lambda>name. starts_with name p) (ct_imports c)"

definition exports_prefix :: "component_type \<Rightarrow> string \<Rightarrow> bool" where
  "exports_prefix c p \<longleftrightarrow> list_ex (\<lambda>name. starts_with name p) (ct_exports c)"

definition exports_sqlite_extension_vtab_update :: "component_type \<Rightarrow> bool" where
  "exports_sqlite_extension_vtab_update c = exports_prefix c ''sqlite:extension/vtab-update''"

definition imports_dynlink_linker :: "component_type \<Rightarrow> bool" where
  "imports_dynlink_linker c = imports_prefix c ''compose:dynlink/linker''"

definition exports_sqlite_extension_metadata :: "component_type \<Rightarrow> bool" where
  "exports_sqlite_extension_metadata c = exports_prefix c ''sqlite:extension/metadata''"

definition exports_endpoint :: "component_type \<Rightarrow> bool" where
  "exports_endpoint c = exports_prefix c ''compose:dynlink/endpoint''"

definition is_dynlink_bridge :: "component_type \<Rightarrow> bool" where
  "is_dynlink_bridge c \<longleftrightarrow> imports_dynlink_linker c \<and> exports_sqlite_extension_metadata c \<and> \<not> exports_endpoint c"

definition imports_sqlite_spi :: "component_type \<Rightarrow> bool" where
  "imports_sqlite_spi c = imports_prefix c ''sqlite:extension/spi''"

definition needs_bespoke_residual :: "component_type \<Rightarrow> bool" where
  "needs_bespoke_residual c \<longleftrightarrow>
     list_ex (\<lambda>name. starts_with name ''sqlite:extension/session'' \<or> starts_with name ''sqlite:extension/authorizer'' \<or>
       starts_with name ''sqlite:extension/loader-bridge'') (ct_imports c)"

definition imports_sqlite_http :: "component_type \<Rightarrow> bool" where
  "imports_sqlite_http c = imports_prefix c ''sqlite:extension/http''"

definition imports_sqlite_dns :: "component_type \<Rightarrow> bool" where
  "imports_sqlite_dns c = imports_prefix c ''sqlite:extension/dns''"

definition imports_sqlite_wal_frames :: "component_type \<Rightarrow> bool" where
  "imports_sqlite_wal_frames c = imports_prefix c ''sqlite:extension/wal-frames''"

definition imports_sqlite_s3_base :: "component_type \<Rightarrow> bool" where
  "imports_sqlite_s3_base c = imports_prefix c ''sqlite:extension/s3-base''"

definition imports_sqlite_compression :: "component_type \<Rightarrow> bool" where
  "imports_sqlite_compression c = imports_prefix c ''sqlite:extension/compression''"

definition imports_sqlite_build :: "component_type \<Rightarrow> bool" where
  "imports_sqlite_build c = imports_prefix c ''sqlite:extension/build''"

definition imports_sqlite_dispatch_bridge_cas :: "component_type \<Rightarrow> bool" where
  "imports_sqlite_dispatch_bridge_cas c = imports_prefix c ''sqlite:extension/dispatch-bridge-cas''"

definition imports_sqlite_session :: "component_type \<Rightarrow> bool" where
  "imports_sqlite_session c = imports_prefix c ''sqlite:extension/session''"

definition imports_sqlite_loader_bridge :: "component_type \<Rightarrow> bool" where
  "imports_sqlite_loader_bridge c = imports_prefix c ''sqlite:extension/loader-bridge''"

definition imports_cli_state :: "component_type \<Rightarrow> bool" where
  "imports_cli_state c = imports_prefix c ''sqlite:extension/cli-state''"

definition imports_cli_stdout :: "component_type \<Rightarrow> bool" where
  "imports_cli_stdout c = imports_prefix c ''sqlite:extension/cli-stdout''"

section \<open>Handlers\<close>

datatype import_host =
    CompressionHost
  | DnsHost "dns_policy option"
  | WalFramesHost
  | HttpHost "http_policy option"
  | S3BaseHost bool
  | ExtensionLoaderStub

type_synonym host_imports = "(string \<times> import_host) list"

definition register_host :: "string \<Rightarrow> import_host \<Rightarrow> host_imports \<Rightarrow> host_imports" where
  "register_host iface h imports = AList.update iface h imports"

definition install_compression_imports :: "host_imports \<Rightarrow> host_imports" where
  "install_compression_imports imports = register_host ''sqlite:extension/compression@1.0.0'' CompressionHost imports"

definition install_dns_imports :: "host_imports \<Rightarrow> dns_policy option \<Rightarrow> host_imports" where
  "install_dns_imports imports policy = register_host ''sqlite:extension/dns@1.0.0'' (DnsHost policy) imports"

definition install_wal_frames_imports :: "host_imports \<Rightarrow> host_imports" where
  "install_wal_frames_imports imports = register_host ''sqlite:extension/wal-frames@1.0.0'' WalFramesHost imports"

definition install_http_imports :: "host_imports \<Rightarrow> http_policy option \<Rightarrow> host_imports" where
  "install_http_imports imports policy = register_host ''sqlite:extension/http@1.0.0'' (HttpHost policy) imports"

definition install_s3_base_imports :: "host_imports \<Rightarrow> bool \<Rightarrow> host_imports" where
  "install_s3_base_imports imports granted = register_host ''sqlite:extension/s3-base@1.0.0'' (S3BaseHost granted) imports"

definition install_extension_loader_imports :: "host_imports \<Rightarrow> host_imports" where
  "install_extension_loader_imports imports = register_host ''sqlink:wasm/extension-loader'' ExtensionLoaderStub imports"

definition install_sqlink_imports :: "host_imports \<Rightarrow> dns_policy option \<Rightarrow> http_policy option \<Rightarrow> bool \<Rightarrow> host_imports" where
  "install_sqlink_imports imports dns http s3 =
     install_extension_loader_imports (install_s3_base_imports (install_http_imports (install_wal_frames_imports
       (install_dns_imports (install_compression_imports imports) dns)) http) s3)"

definition build_sqlink_imports :: "dns_policy option \<Rightarrow> http_policy option \<Rightarrow> bool \<Rightarrow> host_imports" where
  "build_sqlink_imports dns http s3 = install_sqlink_imports [] dns http s3"

text \<open>What the linker of a resident provider is given, in the order of the code: WASI, then the dynlink linker if the
  provider has a bridge and imports it, SPI and its database if imported, the set built from the provider's grants,
  and the command line's output, the loader bridge and sessions if imported.\<close>

datatype linked =
    LinkWasiAsync
  | LinkWasiSync
  | LinkDynlink
  | LinkSpi string
  | LinkSqlink host_imports
  | LinkCliOutput
  | LinkLoaderBridge
  | LinkSession string

definition link_resident :: "component_type \<Rightarrow> bool \<Rightarrow> resident_grants \<Rightarrow> linked list" where
  "link_resident c bridged g =
     (let reentrant = (bridged \<and> imports_dynlink_linker c);
          imports_cli = (imports_cli_stdout c \<or> imports_cli_state c) in
      (if reentrant \<or> imports_sqlite_spi c \<or> imports_sqlite_http c \<or> imports_sqlite_dns c \<or> imports_sqlite_wal_frames c \<or>
          imports_sqlite_s3_base c \<or> imports_sqlite_compression c \<or> imports_cli \<or> imports_sqlite_session c \<or> imports_sqlite_loader_bridge c
       then [LinkWasiAsync] else [LinkWasiSync]) @
      (if reentrant then [LinkDynlink] else []) @
      (if imports_sqlite_spi c then [LinkSpi (rg_db_path g)] else []) @
      [LinkSqlink (build_sqlink_imports (rg_dns g) (rg_http g) (rg_s3 g))] @
      (if imports_cli then [LinkCliOutput] else []) @
      (if imports_sqlite_loader_bridge c then [LinkLoaderBridge] else []) @
      (if imports_sqlite_session c then [LinkSession (rg_db_path g)] else []))"

text \<open>A component with none of the interfaces through which it could ask other parts of the host to act for it.\<close>

definition self_contained :: "component_type \<Rightarrow> bool" where
  "self_contained c \<longleftrightarrow> \<not> imports_dynlink_linker c \<and> \<not> imports_sqlite_spi c \<and> \<not> imports_cli_stdout c \<and> \<not> imports_cli_state c \<and>
     \<not> imports_sqlite_loader_bridge c \<and> \<not> imports_sqlite_session c"

section \<open>Calls of a guest\<close>

datatype guest_call =
    GCompress bytes i32
  | GDecompress bytes
  | GCompressDict bytes bytes i32
  | GDecompressDict bytes bytes
  | GDnsResolve string record_type
  | GWalHeader string
  | GReadFrames string u32 u32
  | GHttp http_request
  | GGetObject s3_endpoint_config s3_credentials string string "s3_get_options option"
  | GPutObject s3_endpoint_config s3_credentials string string bytes "s3_put_options option"
  | GDeleteObject s3_endpoint_config s3_credentials string string
  | GHeadObject s3_endpoint_config s3_credentials string string
  | GListObjects s3_endpoint_config s3_credentials string "s3_list_options option"
  | GCopyObject s3_endpoint_config s3_credentials string string string string
  | GLoader string

record wal_error =
  we_code :: int
  we_extended_code :: int
  we_message :: string

definition wal_perm_denied :: "string \<Rightarrow> wal_error" where
  "wal_perm_denied meth =
     \<lparr>we_code = 3, we_extended_code = 3,
      we_message = ''wal-frames.'' @ meth @ '': capability not granted at load time (add `wal-frames` to the load --grant list)''\<rparr>"

datatype loader_value =
    LErr int string
  | LString string
  | LU64 nat
  | LBool bool
  | LEmptyList
  | LZeroStats "string list"
  | LNoHandler string

definition loader_stub :: "string \<Rightarrow> loader_value" where
  "loader_stub meth =
     (if meth \<in> {''load-extension'', ''unload-extension'', ''dispatch-dot-command'', ''dispatch-parse'', ''load-extension-from-bytes'',
                  ''describe-extension'', ''describe-extension-from-uri''}
      then LErr 1 (meth @ '': not available in statically-composed runnables (use Host::load_extension on the host side instead)'')
      else if meth = ''extension-digest'' then LString []
      else if meth = ''component-cache-purge'' then LU64 0
      else if meth = ''is-extension-loaded'' then LBool False
      else if meth = ''list-extensions'' then LEmptyList
      else if meth = ''component-cache-stats''
      then LZeroStats [''c1-hits'', ''c2-hits'', ''cold-parses'', ''parse-ms'', ''serialize-ms'', ''deserialize-ms'', ''bypassed'', ''row-count'', ''total-bytes'', ''max-bytes'']
      else LNoHandler meth)"

datatype guest_answer =
    ABytes "string + bytes"
  | ANames "dns_error + string list"
  | AWal wal_error
  | AHttp "http_error + http_response"
  | AGet "s3_error + s3_get_output"
  | APut "s3_error + string"
  | ADelete "s3_error + unit"
  | AHead "s3_error + s3_object_metadata"
  | AList "s3_error + s3_list_output"
  | ALoader loader_value
  | AUnlinked

definition answered_by :: "('e + 'a \<Rightarrow> guest_answer) \<Rightarrow> ('e, 'w, 'a) service_op \<Rightarrow> 'w service_state \<Rightarrow> guest_answer \<times> 'w service_state" where
  "answered_by f m s = (case m s of (r, s') \<Rightarrow> (f r, s'))"

text \<open>Every storage method checks the grant first.\<close>

definition s3_gate :: "bool \<Rightarrow> (s3_error, 'w, 'a) service_op \<Rightarrow> (s3_error, 'w, 'a) service_op" where
  "s3_gate granted m = (if granted then m else lift_sum (Inl CapabilityNotGranted))"

definition s3_call :: "'w service_env \<Rightarrow> bool \<Rightarrow> guest_call \<Rightarrow> 'w service_state \<Rightarrow> guest_answer \<times> 'w service_state" where
  "s3_call E granted call s =
     (case call of
        GGetObject ep cr b k opts \<Rightarrow> answered_by AGet (s3_gate granted (get_object E ep cr b k opts)) s
      | GPutObject ep cr b k body opts \<Rightarrow> answered_by APut (s3_gate granted (put_object E ep cr b k body opts)) s
      | GDeleteObject ep cr b k \<Rightarrow> answered_by ADelete (s3_gate granted (delete_object E ep cr b k)) s
      | GHeadObject ep cr b k \<Rightarrow> answered_by AHead (s3_gate granted (head_object E ep cr b k)) s
      | GListObjects ep cr b opts \<Rightarrow> answered_by AList (s3_gate granted (list_objects E ep cr b opts)) s
      | GCopyObject ep cr b k b2 k2 \<Rightarrow> answered_by APut (s3_gate granted (copy_object E ep cr b k b2 k2)) s
      | _ \<Rightarrow> (AUnlinked, s))"

definition compression_call :: "'w service_env \<Rightarrow> guest_call \<Rightarrow> 'w service_state \<Rightarrow> guest_answer \<times> 'w service_state" where
  "compression_call E call s =
     (case call of
        GCompress b l \<Rightarrow> answered_by ABytes (compress E b l) s
      | GDecompress b \<Rightarrow> answered_by ABytes (decompress E b) s
      | GCompressDict b d l \<Rightarrow> answered_by ABytes (compress_dict E b d l) s
      | GDecompressDict b d \<Rightarrow> answered_by ABytes (decompress_dict E b d) s
      | _ \<Rightarrow> (AUnlinked, s))"

definition wal_call :: "guest_call \<Rightarrow> guest_answer" where
  "wal_call call =
     (case call of
        GWalHeader _ \<Rightarrow> AWal (wal_perm_denied ''get-wal-header'')
      | GReadFrames _ _ _ \<Rightarrow> AWal (wal_perm_denied ''read-frames'')
      | _ \<Rightarrow> AUnlinked)"

definition host_call :: "'w service_env \<Rightarrow> import_host \<Rightarrow> guest_call \<Rightarrow> 'w service_state \<Rightarrow> guest_answer \<times> 'w service_state" where
  "host_call E h call s =
     (case h of
        CompressionHost \<Rightarrow> compression_call E call s
      | DnsHost policy \<Rightarrow> (case call of GDnsResolve name r \<Rightarrow> answered_by ANames (net_dns_resolve E policy name r) s | _ \<Rightarrow> (AUnlinked, s))
      | WalFramesHost \<Rightarrow> (wal_call call, s)
      | HttpHost policy \<Rightarrow> (case call of GHttp req \<Rightarrow> answered_by AHttp (net_http_handle E policy req) s | _ \<Rightarrow> (AUnlinked, s))
      | S3BaseHost granted \<Rightarrow> s3_call E granted call s
      | ExtensionLoaderStub \<Rightarrow> (case call of GLoader meth \<Rightarrow> (ALoader (loader_stub meth), s) | _ \<Rightarrow> (AUnlinked, s)))"

text \<open>A guest names the interface and the method; without a handler the component does not link.\<close>

definition import_call :: "'w service_env \<Rightarrow> host_imports \<Rightarrow> string \<Rightarrow> guest_call \<Rightarrow> 'w service_state \<Rightarrow> guest_answer \<times> 'w service_state" where
  "import_call E imports iface call s = (case map_of imports iface of Some h \<Rightarrow> host_call E h call s | None \<Rightarrow> (AUnlinked, s))"

fun import_calls :: "'w service_env \<Rightarrow> host_imports \<Rightarrow> (string \<times> guest_call) list \<Rightarrow> 'w service_state \<Rightarrow> guest_answer list \<times> 'w service_state" where
  "import_calls E imports [] s = ([], s)"
| "import_calls E imports ((iface, call) # calls) s =
     (case import_call E imports iface call s of (a, s1) \<Rightarrow> (case import_calls E imports calls s1 of (as, s2) \<Rightarrow> (a # as, s2)))"

section \<open>Nothing leaves without a grant\<close>

text \<open>What a provider with the given grants may cause to leave the host.\<close>

definition granted_egress :: "'w service_env \<Rightarrow> resident_grants \<Rightarrow> egress \<Rightarrow> bool" where
  "granted_egress E g e \<longleftrightarrow>
     (case e of
        SentTo ident meth payload \<Rightarrow>
          ident = ''http'' \<and> meth = ''request'' \<and> http_allowed E (rg_http g) payload \<or> ident = ''s3'' \<and> rg_s3 g \<or> ident = ''compression''
      | LookedUp name _ \<Rightarrow> \<exists>p. rg_dns g = Some p \<and> check_domain (se_checks E) p name = Inr ()
      | Fetched url \<Rightarrow> catalog_fetch E e)"

lemma logs_only_answered: "emits P m \<Longrightarrow> emits P (answered_by f m)"
  by (simp add: framed_def answered_by_def case_prod_unfold)

lemma emits_gate: "(granted \<Longrightarrow> emits P m) \<Longrightarrow> emits P (s3_gate granted m)"
  by (auto simp: s3_gate_def intro: log_frame.framed_query)

lemma logs_only_s3:
  assumes "granted \<Longrightarrow> \<forall>m p. P (SentTo ''s3'' m p)"
  shows "emits P (s3_call E granted call)"
  using assms unfolding s3_call_def [abs_def]
  by (cases call) (auto intro!: logs_only_answered emits_gate emits_s3 log_frame.framed_return)

lemma logs_only_compression:
  assumes "\<And>m p. P (SentTo ''compression'' m p)" "\<And>e. catalog_fetch E e \<Longrightarrow> P e"
  shows "emits P (compression_call E call)"
  using assms unfolding compression_call_def [abs_def] compress_def decompress_def compress_dict_def decompress_dict_def
  by (cases call) (auto intro!: logs_only_answered emits_zstd log_frame.framed_return)

lemma logs_only_host_call:
  assumes "h \<in> {CompressionHost, DnsHost (rg_dns g), WalFramesHost, HttpHost (rg_http g), S3BaseHost (rg_s3 g), ExtensionLoaderStub}"
  shows "emits (granted_egress E g) (host_call E h call)"
proof -
  let ?P = "granted_egress E g"
  have c: "emits ?P (compression_call E call)" by (rule logs_only_compression) (auto simp: granted_egress_def catalog_fetch_def)
  have s: "emits ?P (s3_call E (rg_s3 g) call)" by (rule logs_only_s3) (simp add: granted_egress_def)
  have d: "emits ?P (answered_by f (net_dns_resolve E (rg_dns g) name r))" for f name r
    by (intro logs_only_answered emits_dns) (simp add: granted_egress_def)
  have h: "emits ?P (answered_by f (net_http_handle E (rg_http g) req))" for f req
    by (intro logs_only_answered emits_http) (simp add: granted_egress_def)
  show ?thesis using assms c s unfolding host_call_def [abs_def]
    by (cases call) (auto intro: d h log_frame.framed_return)
qed

lemma link_resident_sqlink: "LinkSqlink imports \<in> set (link_resident c b g) \<longleftrightarrow> imports = build_sqlink_imports (rg_dns g) (rg_http g) (rg_s3 g)"
  by (auto simp: link_resident_def Let_def)

lemma link_resident_self_contained:
  "self_contained c \<Longrightarrow> set (link_resident c b g) \<subseteq> {LinkWasiAsync, LinkWasiSync, LinkSqlink (build_sqlink_imports (rg_dns g) (rg_http g) (rg_s3 g))}"
  by (auto simp: self_contained_def link_resident_def)

lemma sqlink_hosts:
  "map_of (build_sqlink_imports dns http s3) iface = Some h \<Longrightarrow>
     h \<in> {CompressionHost, DnsHost dns, WalFramesHost, HttpHost http, S3BaseHost s3, ExtensionLoaderStub}"
  by (auto simp: build_sqlink_imports_def install_sqlink_imports_def install_compression_imports_def install_dns_imports_def
      install_wal_frames_imports_def install_http_imports_def install_s3_base_imports_def install_extension_loader_imports_def register_host_def
      update_conv' split: if_splits)

lemma logs_only_import_call:
  "emits (granted_egress E g) (import_call E (build_sqlink_imports (rg_dns g) (rg_http g) (rg_s3 g)) iface call)"
  unfolding import_call_def [abs_def]
  by (cases "map_of (build_sqlink_imports (rg_dns g) (rg_http g) (rg_s3 g)) iface")
    (auto intro: log_frame.framed_return logs_only_host_call [OF sqlink_hosts])

lemma logs_only_import_calls:
  assumes "imports = build_sqlink_imports (rg_dns g) (rg_http g) (rg_s3 g)"
  shows "emits (granted_egress E g) (import_calls E imports calls)"
proof (induction calls)
  case Nil
  show ?case by (simp add: log_frame.framed_return)
next
  case (Cons c calls)
  have step: "import_calls E imports (c # calls) =
      (\<lambda>s. case import_call E imports (fst c) (snd c) s of (a, s1) \<Rightarrow>
        (\<lambda>s. case import_calls E imports calls s of (as, s2) \<Rightarrow> (a # as, s2)) s1)"
    by (cases c) (simp add: fun_eq_iff)
  have "emits (granted_egress E g) (import_call E imports iface call)" for iface call
    unfolding assms by (rule logs_only_import_call)
  then show ?case unfolding step
    by (intro log_frame.framed_then Cons log_frame.framed_return)
qed

text \<open>What the HTTP service reads off a message.\<close>

lemma wire_ok_http_message: "wire_ok 16 (http_message meth url hs body timeout)"
proof -
  have "wire_ok (Suc (Suc (Suc d))) (http_message meth url hs body timeout)" for d
    by (auto simp: http_message_def cbor_map_def headers_value_def list_all_iff split: option.splits)
  from this [of 13] show ?thesis by simp
qed

lemma http_message_fields:
  "cbor_field (http_message meth url hs body timeout) ''method'' = Some (CText meth)"
  "cbor_field (http_message meth url hs body timeout) ''url'' = Some (CText url)"
  by (simp_all add: http_message_def cbor_map_def cbor_field_def)


text \<open>A provider that may reach one host, on a host whose HTTP service is warm.\<close>

definition one_host :: resident_grants where
  "one_host = \<lparr>rg_db_path = [], rg_http = Some only_good, rg_dns = None, rg_s3 = False, rg_spawn_build = False\<rparr>"

definition http_get :: "string \<Rightarrow> http_request" where
  "http_get authority = \<lparr>rq_method = MGet, rq_scheme = None, rq_authority = Some authority, rq_path = None, rq_headers = [], rq_body = None, rq_timeout_ms = None\<rparr>"

definition one_host_imports :: host_imports where
  "one_host_imports = build_sqlink_imports None (Some only_good) False"

definition http_component :: component_type where
  "http_component = \<lparr>ct_imports = [''sqlite:extension/http@1.0.0'', ''sqlite:extension/dns@1.0.0''], ct_exports = [''compose:dynlink/endpoint@0.1.0'']\<rparr>"


end
