(* ===== verification/Loader_Values.thy ===== *)
theory Loader_Values
  imports Typed_Values
begin

text \<open>
  How the loadable extension exchanges values with the SQLite that loaded it, \<^verbatim>\<open>sqlink-extension/src/value.rs\<close>.
  SQLite has no cell for a typed record, so such a value travels as a blob with a header: a magic, the type id, the
  payload. A cell is what the \<open>value_*\<close> functions of the API tell of it; a result is the one call of a
  \<open>result_*\<close> function with the bytes and the length (a C int) that are passed.

  What SQLite makes of a result is the parameter \<open>C\<close>, with what its documentation says of it as
  \<open>sqlite_cells\<close>.
\<close>

section \<open>Cells and results\<close>

definition SQLITE_INTEGER :: int where "SQLITE_INTEGER = 1"

definition SQLITE_FLOAT :: int where "SQLITE_FLOAT = 2"

definition SQLITE_TEXT :: int where "SQLITE_TEXT = 3"

definition SQLITE_BLOB :: int where "SQLITE_BLOB = 4"

definition SQLITE_NULL :: int where "SQLITE_NULL = 5"

text \<open>A null pointer is \<open>None\<close>; otherwise the bytes it points to, as many as \<open>value_bytes\<close> says.\<close>

record sqlite3_value =
  sv_type :: int
  sv_int64 :: i64
  sv_double :: f64
  sv_text :: "string option"
  sv_blob :: "bytes option"

datatype result_call =
    ResultNull
  | ResultInt64 i64
  | ResultDouble f64
  | ResultText string i32
  | ResultBlob bytes i32
  | ResultError string i32

section \<open>Reading\<close>

definition read_value :: "sqlite3_value \<Rightarrow> sqlvalue" where
  "read_value v =
     (let kind = sv_type v in
      if kind = SQLITE_NULL then SqlNull
      else if kind = SQLITE_INTEGER then SqlInteger (sv_int64 v)
      else if kind = SQLITE_FLOAT then SqlReal (sv_double v)
      else if kind = SQLITE_TEXT then
        (case sv_text v of None \<Rightarrow> SqlText [] | Some b \<Rightarrow> SqlText (from_utf8_lossy b))
      else if kind = SQLITE_BLOB then
        (case sv_blob v of None \<Rightarrow> SqlBlob [] | Some b \<Rightarrow> SqlBlob b)
      else SqlNull)"

definition WIT_VALUE_BLOB_MAGIC :: bytes where
  "WIT_VALUE_BLOB_MAGIC = [0x57, 0x54, 0x56, 0x01]"

definition WIT_VALUE_TYPE_ID_LEN :: nat where
  "WIT_VALUE_TYPE_ID_LEN = 32"

definition WIT_VALUE_HEADER_LEN :: nat where
  "WIT_VALUE_HEADER_LEN = length WIT_VALUE_BLOB_MAGIC + WIT_VALUE_TYPE_ID_LEN"

definition lift_value :: "typed_value_registry \<Rightarrow> sqlvalue \<Rightarrow> sqlvalue" where
  "lift_value T raw =
     (case raw of
        SqlBlob b \<Rightarrow>
          if WIT_VALUE_HEADER_LEN \<le> length b \<and> take (length WIT_VALUE_BLOB_MAGIC) b = WIT_VALUE_BLOB_MAGIC then
            (let type_id_arr = take WIT_VALUE_TYPE_ID_LEN (drop (length WIT_VALUE_BLOB_MAGIC) b) in
             case tv_lookup type_id_arr T of
               Some binding \<Rightarrow> SqlWitValue \<lparr>wp_type_id = type_id_arr, wp_bytes = drop WIT_VALUE_HEADER_LEN b,
                 wp_symbolic_name = tb_symbolic_name binding\<rparr>
             | None \<Rightarrow> SqlBlob b)
          else SqlBlob b
      | other \<Rightarrow> other)"

definition read_value_lifted :: "typed_value_registry \<Rightarrow> sqlite3_value \<Rightarrow> sqlvalue" where
  "read_value_lifted T v = lift_value T (read_value v)"

section \<open>Writing\<close>

definition as_c_int :: "'a list \<Rightarrow> i32" where
  "as_c_int b = word_of_nat (length b)"

definition frame_wit_value :: "wit_value_payload \<Rightarrow> bytes" where
  "frame_wit_value p =
     (let n = min (length (wp_type_id p)) WIT_VALUE_TYPE_ID_LEN;
          tid = take n (wp_type_id p) @ replicate (WIT_VALUE_TYPE_ID_LEN - n) 0 in
      WIT_VALUE_BLOB_MAGIC @ tid @ wp_bytes p)"

definition write_result :: "sqlvalue \<Rightarrow> result_call" where
  "write_result v =
     (case v of
        SqlNull \<Rightarrow> ResultNull
      | SqlInteger i \<Rightarrow> ResultInt64 i
      | SqlReal r \<Rightarrow> ResultDouble r
      | SqlText s \<Rightarrow> ResultText s (as_c_int s)
      | SqlBlob b \<Rightarrow> ResultBlob b (as_c_int b)
      | SqlWitValue p \<Rightarrow> (let framed = frame_wit_value p in ResultBlob framed (as_c_int framed)))"

definition write_error :: "string \<Rightarrow> result_call" where
  "write_error msg = ResultError msg (as_c_int msg)"

section \<open>What SQLite keeps of a result\<close>

text \<open>The cell that holds a result, as far as it is documented: numbers but NaN are kept, text and blobs up to
  the length limit are copied; a pointer to no bytes may be null. Text may not hold a NUL.\<close>

definition sqlite_cells :: "nat \<Rightarrow> (result_call \<Rightarrow> sqlite3_value) \<Rightarrow> bool" where
  "sqlite_cells limit C \<longleftrightarrow>
     limit < 2 ^ 31 \<and>
     sv_type (C ResultNull) = SQLITE_NULL \<and>
     (\<forall>i. sv_type (C (ResultInt64 i)) = SQLITE_INTEGER \<and> sv_int64 (C (ResultInt64 i)) = i) \<and>
     (\<forall>r. \<not> is_nan r \<longrightarrow> sv_type (C (ResultDouble r)) = SQLITE_FLOAT \<and> sv_double (C (ResultDouble r)) = r) \<and>
     (\<forall>s n. sint n = int (length s) \<and> length s \<le> limit \<and> CHR 0x00 \<notin> set s \<longrightarrow>
        sv_type (C (ResultText s n)) = SQLITE_TEXT \<and>
        (sv_text (C (ResultText s n)) = Some s \<or> s = [] \<and> sv_text (C (ResultText s n)) = None)) \<and>
     (\<forall>b n. sint n = int (length b) \<and> length b \<le> limit \<longrightarrow>
        sv_type (C (ResultBlob b n)) = SQLITE_BLOB \<and>
        (sv_blob (C (ResultBlob b n)) = Some b \<or> b = [] \<and> sv_blob (C (ResultBlob b n)) = None))"

text \<open>A value that passes: a typed value needs a registered type id and the name registered for it, and a blob
  must not be the frame of a registered type.\<close>

definition survives :: "nat \<Rightarrow> typed_value_registry \<Rightarrow> sqlvalue \<Rightarrow> bool" where
  "survives limit T v =
     (case v of
        SqlNull \<Rightarrow> True
      | SqlInteger _ \<Rightarrow> True
      | SqlReal r \<Rightarrow> \<not> is_nan r
      | SqlText s \<Rightarrow> utf8_valid s \<and> length s \<le> limit \<and> CHR 0x00 \<notin> set s
      | SqlBlob b \<Rightarrow> length b \<le> limit \<and>
          (WIT_VALUE_HEADER_LEN \<le> length b \<and> take 4 b = WIT_VALUE_BLOB_MAGIC \<longrightarrow> tv_lookup (take 32 (drop 4 b)) T = None)
      | SqlWitValue p \<Rightarrow> length (wp_type_id p) = WIT_VALUE_TYPE_ID_LEN \<and> WIT_VALUE_HEADER_LEN + length (wp_bytes p) \<le> limit \<and>
          map_option tb_symbolic_name (tv_lookup (wp_type_id p) T) = Some (wp_symbolic_name p))"

section \<open>Lemmas\<close>

lemmas storage_classes = SQLITE_INTEGER_def SQLITE_FLOAT_def SQLITE_TEXT_def SQLITE_BLOB_def SQLITE_NULL_def

lemma magic_length [simp]: "length WIT_VALUE_BLOB_MAGIC = 4"
  by (simp add: WIT_VALUE_BLOB_MAGIC_def)

lemma header_length: "WIT_VALUE_HEADER_LEN = 36"
  by (simp add: WIT_VALUE_HEADER_LEN_def WIT_VALUE_TYPE_ID_LEN_def)

lemma frame_length: "length (frame_wit_value p) = WIT_VALUE_HEADER_LEN + length (wp_bytes p)"
  by (simp add: frame_wit_value_def Let_def WIT_VALUE_HEADER_LEN_def min_def)

text \<open>The length of a value within the limit is passed as it is.\<close>

lemma as_c_int_exact:
  assumes "length b < 2 ^ 31"
  shows "sint (as_c_int b) = int (length b)"
  using assms by (simp add: as_c_int_def signed_of_nat signed_take_bit_int_eq_self)

text \<open>The header is found again, and the padding makes it complete.\<close>

lemma lift_frame:
  assumes "length (wp_type_id p) = WIT_VALUE_TYPE_ID_LEN"
  shows "lift_value T (SqlBlob (frame_wit_value p)) =
    (case tv_lookup (wp_type_id p) T of
       Some binding \<Rightarrow> SqlWitValue (p\<lparr>wp_symbolic_name := tb_symbolic_name binding\<rparr>)
     | None \<Rightarrow> SqlBlob (frame_wit_value p))"
  using assms
  by (simp add: lift_value_def frame_wit_value_def WIT_VALUE_HEADER_LEN_def WIT_VALUE_TYPE_ID_LEN_def split: option.split)

lemma read_blob_cell:
  assumes "sqlite_cells limit C" "length b \<le> limit"
  shows "read_value (C (ResultBlob b (as_c_int b))) = SqlBlob b"
proof -
  have "sint (as_c_int b) = int (length b)" using assms by (intro as_c_int_exact) (simp add: sqlite_cells_def)
  with assms have "sv_type (C (ResultBlob b (as_c_int b))) = SQLITE_BLOB"
    "sv_blob (C (ResultBlob b (as_c_int b))) = Some b \<or> b = [] \<and> sv_blob (C (ResultBlob b (as_c_int b))) = None"
    by (auto simp: sqlite_cells_def)
  then show ?thesis by (auto simp: read_value_def storage_classes)
qed

lemma read_text_cell:
  assumes "sqlite_cells limit C" "length s \<le> limit" "CHR 0x00 \<notin> set s" "utf8_valid s"
  shows "read_value (C (ResultText s (as_c_int s))) = SqlText s"
proof -
  have "sint (as_c_int s) = int (length s)" using assms by (intro as_c_int_exact) (simp add: sqlite_cells_def)
  with assms have "sv_type (C (ResultText s (as_c_int s))) = SQLITE_TEXT"
    "sv_text (C (ResultText s (as_c_int s))) = Some s \<or> s = [] \<and> sv_text (C (ResultText s (as_c_int s))) = None"
    by (auto simp: sqlite_cells_def)
  then show ?thesis using assms(4) by (auto simp: read_value_def storage_classes from_utf8_lossy_valid)
qed

lemma write_read_lifted:
  assumes "sqlite_cells limit C" "survives limit T v"
  shows "read_value_lifted T (C (write_result v)) = v"
proof (cases v)
  case (SqlBlob b)
  with assms read_blob_cell [of limit C b] show ?thesis
    by (auto simp: survives_def write_result_def read_value_lifted_def lift_value_def header_length WIT_VALUE_TYPE_ID_LEN_def
        split: option.split)
next
  case (SqlWitValue p)
  with assms(2) obtain binding where b: "tv_lookup (wp_type_id p) T = Some binding" "tb_symbolic_name binding = wp_symbolic_name p"
    "length (wp_type_id p) = WIT_VALUE_TYPE_ID_LEN" and "length (frame_wit_value p) \<le> limit"
    by (auto simp: survives_def frame_length)
  with assms(1) SqlWitValue have "read_value_lifted T (C (write_result v)) = lift_value T (SqlBlob (frame_wit_value p))"
    by (simp add: write_result_def read_value_lifted_def read_blob_cell Let_def)
  with b SqlWitValue show ?thesis by (simp add: lift_frame)
next
  case (SqlText s)
  with assms read_text_cell [of limit C s] show ?thesis
    by (simp add: survives_def write_result_def read_value_lifted_def lift_value_def)
qed (use assms in \<open>auto simp: survives_def write_result_def read_value_lifted_def lift_value_def read_value_def sqlite_cells_def storage_classes\<close>)

text \<open>Nothing is taken for a typed value but a frame of a registered type.\<close>

lemma lifted_only_frames:
  assumes "read_value_lifted T v = SqlWitValue p"
  shows "sv_type v = SQLITE_BLOB \<and> sv_blob v = Some (frame_wit_value p) \<and> length (wp_type_id p) = WIT_VALUE_TYPE_ID_LEN \<and>
    map_option tb_symbolic_name (tv_lookup (wp_type_id p) T) = Some (wp_symbolic_name p)"
proof -
  obtain b where b: "read_value v = SqlBlob b" "lift_value T (SqlBlob b) = SqlWitValue p"
    using assms by (cases "read_value v") (auto simp: read_value_lifted_def lift_value_def read_value_def Let_def split: if_splits option.splits)
  then have v: "sv_type v = SQLITE_BLOB" "b = [] \<or> sv_blob v = Some b"
    by (auto simp: read_value_def Let_def split: if_splits option.splits)
  from b(2) have l: "36 \<le> length b" "take 4 b = WIT_VALUE_BLOB_MAGIC" "wp_type_id p = take 32 (drop 4 b)" "wp_bytes p = drop 36 b"
    "map_option tb_symbolic_name (tv_lookup (wp_type_id p) T) = Some (wp_symbolic_name p)"
    by (auto simp: lift_value_def header_length WIT_VALUE_TYPE_ID_LEN_def Let_def split: if_splits option.splits)
  have "b = take 4 b @ take 32 (drop 4 b) @ drop 32 (drop 4 b)" by (simp only: append_take_drop_id)
  with l have "frame_wit_value p = b" by (simp add: frame_wit_value_def WIT_VALUE_TYPE_ID_LEN_def)
  with v l show ?thesis by (auto simp: WIT_VALUE_TYPE_ID_LEN_def)
qed

end
