(* ===== verification/Loader_Functions.thy ===== *)
theory Loader_Functions
  imports Loader_Values Extension_Serving
begin

text \<open>
  The functions that the loadable extension registers on the SQLite that loaded it, \<^verbatim>\<open>sqlink-extension/src/register.rs\<close>:
  the callbacks of scalars, aggregates and window functions, which read the arguments, dispatch into the extension
  and write the result.

  The context record that belongs to a registered function is a box with an address; a function context of SQLite carries
  that address as its user data. SQLite frees a box only when no context refers to it any more. The buffer that SQLite keeps for an
  aggregate in progress is a cell of \<open>ls_bufs\<close>.
\<close>

section \<open>State\<close>

record scalar_ctx =
  sc_ext_name :: string
  sc_func_id :: u64

record agg_ctx =
  ac_ext_name :: string
  ac_func_id :: u64
  ac_next_id :: u64

record sqlite3_context =
  cx_id :: nat
  cx_user_data :: "nat option"

record ('g, 'w, 'c) loaded_state =
  ls_host :: "('g, 'w, 'c) ext_host"
  ls_api :: bool
  ls_scalars :: "nat \<rightharpoonup> scalar_ctx"
  ls_aggs :: "nat \<rightharpoonup> agg_ctx"
  ls_bufs :: "sqlite3_context \<rightharpoonup> u64"

record ('g, 'w, 'c) loaded_env =
  le_env :: "('g, 'w, 'c) guest_env"
  le_api :: "'g guest_api"
  le_show :: "dispatch_error \<Rightarrow> string"

text \<open>A callback sets at most one result.\<close>

type_synonym ('g, 'w, 'c, 'a) loaded_op = "('g, 'w, 'c) loaded_state \<Rightarrow> 'a \<times> ('g, 'w, 'c) loaded_state"

definition scalar_of :: "sqlite3_context \<Rightarrow> ('g, 'w, 'c) loaded_state \<Rightarrow> scalar_ctx option" where
  "scalar_of ctx s = Option.bind (cx_user_data ctx) (ls_scalars s)"

definition agg_of :: "sqlite3_context \<Rightarrow> ('g, 'w, 'c) loaded_state \<Rightarrow> agg_ctx option" where
  "agg_of ctx s = Option.bind (cx_user_data ctx) (ls_aggs s)"

text \<open>\<open>block_on\<close> a dispatch; the arguments are read before, against the registry of the same host.\<close>

definition block_on :: "('g, 'w, 'c, 'a) dispatch_op \<Rightarrow> ('g, 'w, 'c, dispatch_error + 'a) loaded_op" where
  "block_on m s = (case m (ls_host s) of (r, h) \<Rightarrow> (r, s\<lparr>ls_host := h\<rparr>))"

definition read_args :: "sqlite3_value list \<Rightarrow> ('g, 'w, 'c) loaded_state \<Rightarrow> sqlvalue list" where
  "read_args argv s = map (read_value_lifted (eh_typed (ls_host s))) argv"

definition write_reply :: "('g, 'w, 'c) loaded_env \<Rightarrow> string \<Rightarrow> dispatch_error + (string + sqlvalue) \<Rightarrow> result_call option" where
  "write_reply L what r =
     (case r of
        Inr (Inr v) \<Rightarrow> Some (write_result v)
      | Inr (Inl e) \<Rightarrow> Some (write_error e)
      | Inl e \<Rightarrow> Some (write_error (''sqlink-extension '' @ what @ '': '' @ le_show L e)))"

definition write_failure :: "('g, 'w, 'c) loaded_env \<Rightarrow> string \<Rightarrow> dispatch_error + (string + unit) \<Rightarrow> result_call option" where
  "write_failure L what r =
     (case r of
        Inr (Inr _) \<Rightarrow> None
      | Inr (Inl e) \<Rightarrow> Some (write_error e)
      | Inl e \<Rightarrow> Some (write_error (''sqlink-extension '' @ what @ '': '' @ le_show L e)))"

section \<open>Scalars\<close>

definition scalar_xfunc :: "('g, 'w, 'c) loaded_env \<Rightarrow> sqlite3_context \<Rightarrow> sqlite3_value list \<Rightarrow> ('g, 'w, 'c, result_call option) loaded_op" where
  "scalar_xfunc L ctx argv s =
     (if \<not> ls_api s then (None, s)
      else case scalar_of ctx s of
        None \<Rightarrow> (Some (write_error ''sqlink-extension scalar: null trampoline ctx''), s)
      | Some sc \<Rightarrow>
          (case block_on (dispatch_scalar (le_env L) (le_api L) (sc_ext_name sc) (sc_func_id sc) (read_args argv s)) s of
             (r, s1) \<Rightarrow> (write_reply L ''dispatch_scalar'' r, s1)))"

section \<open>Aggregates\<close>

text \<open>\<open>sqlite3_aggregate_context\<close>: the contents of the buffer of this group, which is allocated, zeroed, on the first call
  with a positive size. \<open>oom\<close> says whether that allocation fails.\<close>

definition aggregate_context :: "bool \<Rightarrow> sqlite3_context \<Rightarrow> nat \<Rightarrow> ('g, 'w, 'c, u64 option) loaded_op" where
  "aggregate_context oom ctx n s =
     (case ls_bufs s ctx of
        Some cur \<Rightarrow> (Some cur, s)
      | None \<Rightarrow> if n = 0 \<or> oom then (None, s) else (Some 0, s\<lparr>ls_bufs := (ls_bufs s)(ctx \<mapsto> 0)\<rparr>))"

definition fetch_add_next :: "sqlite3_context \<Rightarrow> ('g, 'w, 'c, u64) loaded_op" where
  "fetch_add_next ctx s =
     (case cx_user_data ctx of
        None \<Rightarrow> (0, s)
      | Some a \<Rightarrow>
          (case ls_aggs s a of
             None \<Rightarrow> (0, s)
           | Some box \<Rightarrow> (ac_next_id box, s\<lparr>ls_aggs := (ls_aggs s)(a \<mapsto> box\<lparr>ac_next_id := ac_next_id box + 1\<rparr>)\<rparr>)))"

definition agg_state :: "bool \<Rightarrow> sqlite3_context \<Rightarrow> ('g, 'w, 'c, (u64 \<times> bool) option) loaded_op" where
  "agg_state oom ctx s =
     (case aggregate_context oom ctx 8 s of
        (None, s1) \<Rightarrow> (None, s1)
      | (Some cur, s1) \<Rightarrow>
          if cur = 0 then
            (case fetch_add_next ctx s1 of
               (first, s2) \<Rightarrow>
                 (case (if first = 0 then fetch_add_next ctx s2 else (first, s2)) of
                    (i, s3) \<Rightarrow> (Some (i, True), s3\<lparr>ls_bufs := (ls_bufs s3)(ctx \<mapsto> i)\<rparr>)))
          else (Some (cur, False), s1))"

definition agg_xstep :: "('g, 'w, 'c) loaded_env \<Rightarrow> bool \<Rightarrow> sqlite3_context \<Rightarrow> sqlite3_value list \<Rightarrow> ('g, 'w, 'c, result_call option) loaded_op" where
  "agg_xstep L oom ctx argv s =
     (if \<not> ls_api s then (None, s)
      else case agg_of ctx s of
        None \<Rightarrow> (Some (write_error ''sqlink-extension aggregate: null trampoline ctx''), s)
      | Some agg \<Rightarrow>
          (case agg_state oom ctx s of
             (None, s1) \<Rightarrow> (Some (write_error ''sqlink-extension aggregate: out of memory''), s1)
           | (Some (context_id, _), s1) \<Rightarrow>
               (case block_on (dispatch_aggregate_step (le_env L) (ac_ext_name agg) (ac_func_id agg) context_id (read_args argv s1)) s1 of
                  (r, s2) \<Rightarrow> (write_failure L ''dispatch_aggregate_step'' r, s2))))"

text \<open>The id in the buffer of this group, or 0 when no step was made.\<close>

definition current_context_id :: "sqlite3_context \<Rightarrow> ('g, 'w, 'c, u64) loaded_op" where
  "current_context_id ctx s =
     (case aggregate_context False ctx 0 s of (buf, s1) \<Rightarrow> (case buf of None \<Rightarrow> (0, s1) | Some i \<Rightarrow> (i, s1)))"

definition agg_xfinal :: "('g, 'w, 'c) loaded_env \<Rightarrow> sqlite3_context \<Rightarrow> ('g, 'w, 'c, result_call option) loaded_op" where
  "agg_xfinal L ctx s =
     (if \<not> ls_api s then (None, s)
      else case agg_of ctx s of
        None \<Rightarrow> (Some (write_error ''sqlink-extension aggregate: null trampoline ctx''), s)
      | Some agg \<Rightarrow>
          (case current_context_id ctx s of
             (context_id, s1) \<Rightarrow>
               (case block_on (dispatch_aggregate_finalize (le_env L) (ac_ext_name agg) (ac_func_id agg) context_id) s1 of
                  (r, s2) \<Rightarrow> (write_reply L ''dispatch_aggregate_finalize'' r, s2))))"

definition agg_xvalue :: "('g, 'w, 'c) loaded_env \<Rightarrow> sqlite3_context \<Rightarrow> ('g, 'w, 'c, result_call option) loaded_op" where
  "agg_xvalue L ctx s =
     (if \<not> ls_api s then (None, s)
      else case agg_of ctx s of
        None \<Rightarrow> (Some (write_error ''sqlink-extension aggregate: null trampoline ctx''), s)
      | Some agg \<Rightarrow>
          (case current_context_id ctx s of
             (context_id, s1) \<Rightarrow>
               (case block_on (dispatch_aggregate_value (le_env L) (ac_ext_name agg) (ac_func_id agg) context_id) s1 of
                  (r, s2) \<Rightarrow> (write_reply L ''dispatch_aggregate_value'' r, s2))))"

definition agg_xinverse :: "('g, 'w, 'c) loaded_env \<Rightarrow> sqlite3_context \<Rightarrow> sqlite3_value list \<Rightarrow> ('g, 'w, 'c, result_call option) loaded_op" where
  "agg_xinverse L ctx argv s =
     (if \<not> ls_api s then (None, s)
      else case agg_of ctx s of
        None \<Rightarrow> (Some (write_error ''sqlink-extension aggregate: null trampoline ctx''), s)
      | Some agg \<Rightarrow>
          (case current_context_id ctx s of
             (context_id, s1) \<Rightarrow>
               (case block_on (dispatch_aggregate_inverse (le_env L) (ac_ext_name agg) (ac_func_id agg) context_id (read_args argv s1)) s1 of
                  (r, s2) \<Rightarrow> (write_failure L ''dispatch_aggregate_inverse'' r, s2))))"

section \<open>What SQLite does with an aggregate\<close>

text \<open>The calls SQLite makes into the callbacks, in any order and for any groups; when a group is finished its buffer is freed.\<close>

datatype agg_event =
    EvStep bool sqlite3_context "sqlite3_value list"
  | EvFinal sqlite3_context
  | EvValue sqlite3_context
  | EvInverse sqlite3_context "sqlite3_value list"

primrec ev_ctx :: "agg_event \<Rightarrow> sqlite3_context" where
  "ev_ctx (EvStep oom c as) = c"
| "ev_ctx (EvFinal c) = c"
| "ev_ctx (EvValue c) = c"
| "ev_ctx (EvInverse c as) = c"

primrec run_agg_event :: "('g, 'w, 'c) loaded_env \<Rightarrow> agg_event \<Rightarrow> ('g, 'w, 'c, result_call option) loaded_op" where
  "run_agg_event L (EvStep oom c as) s = agg_xstep L oom c as s"
| "run_agg_event L (EvFinal c) s = (case agg_xfinal L c s of (r, s1) \<Rightarrow> (r, s1\<lparr>ls_bufs := (ls_bufs s1)(c := None)\<rparr>))"
| "run_agg_event L (EvValue c) s = agg_xvalue L c s"
| "run_agg_event L (EvInverse c as) s = agg_xinverse L c as s"

fun agg_run :: "('g, 'w, 'c) loaded_env \<Rightarrow> agg_event list \<Rightarrow> ('g, 'w, 'c) loaded_state \<Rightarrow> ('g, 'w, 'c) loaded_state" where
  "agg_run L [] s = s"
| "agg_run L (ev # evs) s = agg_run L evs (snd (run_agg_event L ev s))"

lemma agg_run_append [simp]: "agg_run L (xs @ ys) s = agg_run L ys (agg_run L xs s)"
  by (induction xs arbitrary: s) auto

section \<open>Groups\<close>

text \<open>The call that an event makes into the extension, and the context id in it.\<close>

definition agg_call :: "agg_event \<Rightarrow> ('g, 'w, 'c) loaded_state \<Rightarrow> ext_call option" where
  "agg_call ev s =
     (case agg_of (ev_ctx ev) s of
        None \<Rightarrow> None
      | Some agg \<Rightarrow>
          (case ev of
             EvStep oom c as \<Rightarrow>
               (case agg_state oom c s of
                  (None, _) \<Rightarrow> None
                | (Some (i, _), s1) \<Rightarrow> Some (DoStep (ac_func_id agg) i (read_args as s1)))
           | EvFinal c \<Rightarrow> Some (DoFinalize (ac_func_id agg) (fst (current_context_id c s)))
           | EvValue c \<Rightarrow> Some (DoValue (ac_func_id agg) (fst (current_context_id c s)))
           | EvInverse c as \<Rightarrow> Some (DoInverse (ac_func_id agg) (fst (current_context_id c s)) (read_args as s))))"

fun call_context :: "ext_call \<Rightarrow> u64" where
  "call_context (DoStep f c as) = c"
| "call_context (DoFinalize f c) = c"
| "call_context (DoValue f c) = c"
| "call_context (DoInverse f c as) = c"
| "call_context _ = 0"

text \<open>The bookkeeping behind it: the next id and the ids of the groups in progress.\<close>

type_synonym groups = "u64 \<times> (sqlite3_context \<rightharpoonup> u64)"

definition group_id :: "sqlite3_context \<Rightarrow> groups \<Rightarrow> u64" where
  "group_id c g = (case snd g c of Some i \<Rightarrow> i | None \<Rightarrow> 0)"

fun group_call :: "agg_event \<Rightarrow> groups \<Rightarrow> u64 option" where
  "group_call (EvStep oom c as) (n, B) = (if B c = None then if oom then None else Some n else B c)"
| "group_call (EvFinal c) g = Some (group_id c g)"
| "group_call (EvValue c) g = Some (group_id c g)"
| "group_call (EvInverse c as) g = Some (group_id c g)"

fun group_step :: "agg_event \<Rightarrow> groups \<Rightarrow> groups" where
  "group_step (EvStep oom c as) (n, B) = (if B c = None \<and> \<not> oom then (n + 1, B(c \<mapsto> n)) else (n, B))"
| "group_step (EvFinal c) (n, B) = (n, B(c := None))"
| "group_step (EvValue c) g = g"
| "group_step (EvInverse c as) g = g"

definition groups_ok :: "nat \<Rightarrow> groups \<Rightarrow> bool" where
  "groups_ok k = (\<lambda>(n, B). 1 \<le> unat n \<and> unat n \<le> k \<and> (\<forall>c i. B c = Some i \<longrightarrow> 0 < i \<and> i < n) \<and>
     (\<forall>c d i. B c = Some i \<and> B d = Some i \<longrightarrow> c = d))"

lemma next_id_grows:
  fixes n :: u64
  assumes "unat n \<le> k" "Suc k < 2 ^ 64"
  shows "unat (n + 1) = Suc (unat n)"
  using assms by (simp add: unat_add_lem [THEN iffD1])

lemma groups_ok_step:
  assumes "groups_ok k g" "Suc k < 2 ^ 64"
  shows "groups_ok (Suc k) (group_step ev g)"
proof -
  obtain n B where g: "g = (n, B)" by (cases g)
  have n: "unat (n + 1) = Suc (unat n)" using assms by (auto simp: g groups_ok_def intro: next_id_grows)
  then have lt: "i < n \<Longrightarrow> i < n + 1" "n < n + 1" for i by (auto simp: word_less_nat_alt)
  have "0 < n" using assms(1) by (auto simp: g groups_ok_def word_less_nat_alt)
  with assms(1) n lt show ?thesis
    by (cases ev) (auto simp: g groups_ok_def split: if_splits)
qed

text \<open>An id that was given out stays with its group until that group is finished, and never comes back.\<close>

definition group_run :: "agg_event list \<Rightarrow> groups \<Rightarrow> groups" where
  "group_run evs g = fold group_step evs g"

lemma groups_ok_run:
  "groups_ok k g \<Longrightarrow> k + length evs < 2 ^ 64 \<Longrightarrow> groups_ok (k + length evs) (group_run evs g)"
proof (induction evs arbitrary: k g)
  case (Cons ev evs)
  then have "groups_ok (Suc k) (group_step ev g)" by (intro groups_ok_step) auto
  with Cons.IH [OF this] Cons.prems(2) show ?case by (simp add: group_run_def)
qed (simp add: group_run_def)

definition holds_id :: "u64 \<Rightarrow> sqlite3_context \<Rightarrow> bool \<Rightarrow> groups \<Rightarrow> bool" where
  "holds_id i c open = (\<lambda>(n, B). 0 < i \<and> i < n \<and> (\<forall>d. B d = Some i \<longleftrightarrow> open \<and> d = c))"

lemma holds_id_step:
  assumes "groups_ok k g" "Suc k < 2 ^ 64" "holds_id i c open g"
  shows "holds_id i c (open \<and> EvFinal c \<noteq> ev) (group_step ev g)"
proof -
  obtain n B where g: "g = (n, B)" by (cases g)
  have n: "unat (n + 1) = Suc (unat n)" using assms by (auto simp: g groups_ok_def intro: next_id_grows)
  then have "i < n \<Longrightarrow> i < n + 1" by (auto simp: word_less_nat_alt)
  with assms(3) show ?thesis
    by (cases ev) (auto simp: g holds_id_def split: if_splits, metis option.distinct(1))
qed

lemma holds_id_run:
  assumes "groups_ok k g" "k + length evs < 2 ^ 64" "holds_id i c open g"
  shows "holds_id i c (open \<and> EvFinal c \<notin> set evs) (group_run evs g)"
  using assms
proof (induction evs arbitrary: k g "open")
  case (Cons ev evs)
  then have "groups_ok (Suc k) (group_step ev g)" "holds_id i c (open \<and> EvFinal c \<noteq> ev) (group_step ev g)"
    by (auto intro: groups_ok_step holds_id_step)
  with Cons.IH [OF this(1) _ this(2)] Cons.prems(2) show ?case by (auto simp: group_run_def)
qed (simp add: group_run_def)

text \<open>Whoever still has the id is the group it was given to.\<close>

lemma group_call_same:
  assumes "groups_ok k g" "holds_id i c open g" "group_call ev g = Some j"
  shows "j = i \<longleftrightarrow> open \<and> ev_ctx ev = c"
proof -
  obtain n B where g: "g = (n, B)" by (cases g)
  from assms(2) have i: "0 < i" "i < n" "\<forall>d. B d = Some i \<longleftrightarrow> open \<and> d = c" by (auto simp: g holds_id_def)
  have id: "group_id d g = i \<longleftrightarrow> B d = Some i" for d using i(1) by (auto simp: g group_id_def split: option.split)
  show ?thesis
  proof (cases ev)
    case (EvStep oom d as)
    with assms(3) have "j = n \<and> B d = None \<or> B d = Some j" by (auto simp: g split: if_splits)
    with i EvStep show ?thesis by (metis ev_ctx.simps(1) less_irrefl option.distinct(1) option.inject)
  qed (use assms(3) i(3) id in auto)
qed

lemma group_call_holds:
  assumes "groups_ok k g" "Suc k < 2 ^ 64" "group_call ev g = Some i" "0 < i"
  shows "holds_id i (ev_ctx ev) (ev \<noteq> EvFinal (ev_ctx ev)) (group_step ev g)"
proof -
  obtain n B where g: "g = (n, B)" by (cases g)
  have "unat (n + 1) = Suc (unat n)" using assms by (auto simp: g groups_ok_def intro: next_id_grows)
  then have n: "n < n + 1" "\<And>j. j < n \<Longrightarrow> j < n + 1" by (auto simp: word_less_nat_alt)
  from assms(1) have B: "B c = Some j \<Longrightarrow> j < n" "B c = Some j \<Longrightarrow> B d = Some j \<Longrightarrow> c = d" for c d j by (auto simp: g groups_ok_def)
  then have "B d \<noteq> Some n" for d by fastforce
  with assms(3,4) n B show ?thesis
    by (cases ev) (auto simp: g holds_id_def group_id_def split: if_splits option.splits)
qed

lemma group_call_step: "groups_ok k g \<Longrightarrow> group_call (EvStep oom c as) g \<noteq> Some 0"
  by (cases g) (auto simp: groups_ok_def)

section \<open>The callbacks keep this book\<close>

definition groups_of :: "agg_ctx \<Rightarrow> ('g, 'w, 'c) loaded_state \<Rightarrow> groups" where
  "groups_of box s = (ac_next_id box, ls_bufs s)"

text \<open>The state of one registered aggregate.\<close>

definition serves :: "nat \<Rightarrow> agg_ctx \<Rightarrow> ('g, 'w, 'c) loaded_state \<Rightarrow> bool" where
  "serves a box s \<longleftrightarrow> ls_api s \<and> ls_aggs s a = Some box"

lemma block_on_state [simp]: "ls_aggs (snd (block_on m s)) = ls_aggs s" "ls_bufs (snd (block_on m s)) = ls_bufs s"
  "ls_api (snd (block_on m s)) = ls_api s" "ls_host (snd (block_on m s)) = snd (m (ls_host s))"
  by (simp_all add: block_on_def split: prod.split)

lemma current_context: "current_context_id c s = (case ls_bufs s c of Some i \<Rightarrow> i | None \<Rightarrow> 0, s)"
  by (simp add: current_context_id_def aggregate_context_def split: option.split)

lemma agg_state_eq:
  assumes "serves a box s" "cx_user_data c = Some a" "groups_ok k (groups_of box s)"
  shows "agg_state oom c s =
    (case ls_bufs s c of
       Some i \<Rightarrow> (Some (i, False), s)
     | None \<Rightarrow>
         if oom then (None, s)
         else (Some (ac_next_id box, True),
           s\<lparr>ls_aggs := (ls_aggs s)(a \<mapsto> box\<lparr>ac_next_id := ac_next_id box + 1\<rparr>), ls_bufs := (ls_bufs s)(c \<mapsto> ac_next_id box)\<rparr>))"
proof -
  from assms(3) have "ls_bufs s c = Some i \<Longrightarrow> i \<noteq> 0" "ac_next_id box \<noteq> 0" for i
    by (auto simp: groups_ok_def groups_of_def)
  with assms(1,2) show ?thesis
    by (auto simp: agg_state_def aggregate_context_def fetch_add_next_def serves_def split: option.split)
qed

lemmas callback_defs = agg_xstep_def agg_xfinal_def agg_xvalue_def agg_xinverse_def

lemma agg_call_context:
  assumes "serves a box s" "cx_user_data (ev_ctx ev) = Some a" "groups_ok k (groups_of box s)"
  shows "map_option call_context (agg_call ev s) = group_call ev (groups_of box s)"
proof -
  have "agg_of (ev_ctx ev) s = Some box" using assms(1,2) by (simp add: agg_of_def serves_def)
  then show ?thesis
    using agg_state_eq [OF assms(1) _ assms(3)] assms(2)
    by (cases ev) (auto simp: agg_call_def current_context groups_of_def group_id_def split: option.splits)
qed

text \<open>An event does to the host what its call does, and to the book what the specification says.\<close>

lemma agg_event_dispatches:
  assumes "serves a box s" "cx_user_data (ev_ctx ev) = Some a" "groups_ok k (groups_of box s)"
  shows "ls_host (snd (run_agg_event L ev s)) =
    (case agg_call ev s of
       None \<Rightarrow> ls_host s
     | Some call \<Rightarrow> snd (dispatch_call (le_env L) (le_api L) (ac_ext_name box) call (ls_host s)))"
proof -
  have "agg_of (ev_ctx ev) s = Some box" "ls_api s" using assms(1,2) by (simp_all add: agg_of_def serves_def)
  then show ?thesis
    using agg_state_eq [OF assms(1) _ assms(3)] assms(2)
    by (cases ev) (auto simp: agg_call_def callback_defs current_context block_on_def two_level_def read_args_def split: option.splits prod.splits)
qed

lemma agg_event_book:
  assumes "serves a box s" "cx_user_data (ev_ctx ev) = Some a" "groups_ok k (groups_of box s)"
  shows "\<exists>box'. serves a box' (snd (run_agg_event L ev s)) \<and> ac_ext_name box' = ac_ext_name box \<and> ac_func_id box' = ac_func_id box \<and>
    groups_of box' (snd (run_agg_event L ev s)) = group_step ev (groups_of box s)"
proof -
  have "agg_of (ev_ctx ev) s = Some box" "ls_api s" "ls_aggs s a = Some box" using assms(1,2) by (simp_all add: agg_of_def serves_def)
  then show ?thesis
    using agg_state_eq [OF assms(1) _ assms(3)] assms(2)
    by (cases ev) (auto simp: callback_defs current_context block_on_def serves_def groups_of_def split: option.splits prod.splits)
qed

lemma agg_run_book:
  assumes "serves a box s" "\<forall>ev\<in>set evs. cx_user_data (ev_ctx ev) = Some a" "groups_ok k (groups_of box s)" "k + length evs < 2 ^ 64"
  shows "\<exists>box'. serves a box' (agg_run L evs s) \<and> ac_ext_name box' = ac_ext_name box \<and> ac_func_id box' = ac_func_id box \<and>
    groups_of box' (agg_run L evs s) = group_run evs (groups_of box s)"
  using assms
proof (induction evs arbitrary: s box k)
  case (Cons ev evs)
  obtain box1 where 1: "serves a box1 (snd (run_agg_event L ev s))" "ac_ext_name box1 = ac_ext_name box" "ac_func_id box1 = ac_func_id box"
    "groups_of box1 (snd (run_agg_event L ev s)) = group_step ev (groups_of box s)"
    using agg_event_book [of a box s ev k] Cons.prems by auto
  have "groups_ok (Suc k) (group_step ev (groups_of box s))" using Cons.prems by (intro groups_ok_step) auto
  with Cons.IH [OF 1(1), of "Suc k"] 1 Cons.prems show ?case by (auto simp: group_run_def)
qed (auto simp: group_run_def)

section \<open>Properties\<close>

text \<open>C20. Aggregates in progress never share their state, and a group never loses its own. Take any sequence of fewer than
  2 ^ 64 - 2 calls that SQLite makes into a registered aggregate or window function, for any interleaving of groups and with failing
  allocations, and two calls \<open>e1\<close> and, later, \<open>e2\<close> of it that reach the extension. A step is never sent under the
  context id 0. When the first call is sent under an id other than 0, the second is sent under the same id exactly if both belong
  to the same group: the same function context, not finished in between. And the host does nothing for the call
  but dispatch it.\<close>

theorem agg_groups_separate:
  assumes "serves a box s" "ac_next_id box = 1" "ls_bufs s = Map.empty"
    and own: "\<forall>ev\<in>set (before @ e1 # between @ [e2]). cx_user_data (ev_ctx ev) = Some a"
    and few: "length before + length between + 3 < 2 ^ 64"
    and call1: "agg_call e1 (agg_run L before s) = Some call1"
    and call2: "agg_call e2 (agg_run L (before @ e1 # between) s) = Some call2"
  shows "(\<forall>oom c as. e1 = EvStep oom c as \<longrightarrow> call_context call1 \<noteq> 0) \<and>
    (call_context call1 \<noteq> 0 \<longrightarrow>
       (call_context call2 = call_context call1 \<longleftrightarrow> ev_ctx e2 = ev_ctx e1 \<and> EvFinal (ev_ctx e1) \<notin> set (e1 # between))) \<and>
    ls_host (agg_run L (before @ [e1]) s) =
      snd (dispatch_call (le_env L) (le_api L) (ac_ext_name box) call1 (ls_host (agg_run L before s)))"
proof -
  let ?g = "groups_of box s" and ?s1 = "agg_run L before s" and ?s2 = "agg_run L (before @ e1 # between) s"
  let ?k = "Suc (length before)"
  have ok: "groups_ok 1 ?g" using assms(2,3) by (simp add: groups_ok_def groups_of_def)
  obtain b1 where b1: "serves a b1 ?s1" "ac_ext_name b1 = ac_ext_name box" "groups_of b1 ?s1 = group_run before ?g"
    using agg_run_book [OF assms(1) _ ok, of before L] own few by auto
  obtain b2 where b2: "serves a b2 ?s2" "groups_of b2 ?s2 = group_run between (group_step e1 (group_run before ?g))"
    using agg_run_book [OF assms(1) _ ok, of "before @ e1 # between" L] own few by (auto simp: group_run_def)
  have ok1: "groups_ok ?k (group_run before ?g)" using groups_ok_run [OF ok, of before] few by simp
  then have step: "groups_ok (Suc ?k) (group_step e1 (group_run before ?g))" using few by (intro groups_ok_step) auto
  then have ok2: "groups_ok (Suc ?k + length between) (group_run between (group_step e1 (group_run before ?g)))"
    using few by (intro groups_ok_run) auto
  have c1: "group_call e1 (group_run before ?g) = Some (call_context call1)"
    using agg_call_context [OF b1(1), of e1] ok1 own call1 b1(3) by auto
  have c2: "group_call e2 (group_run between (group_step e1 (group_run before ?g))) = Some (call_context call2)"
    using agg_call_context [OF b2(1), of e2] ok2 own call2 b2(2) by auto
  have "call_context call2 = call_context call1 \<longleftrightarrow> ev_ctx e2 = ev_ctx e1 \<and> EvFinal (ev_ctx e1) \<notin> set (e1 # between)"
    if "call_context call1 \<noteq> 0"
  proof -
    have "holds_id (call_context call1) (ev_ctx e1) (e1 \<noteq> EvFinal (ev_ctx e1)) (group_step e1 (group_run before ?g))"
      using group_call_holds [OF ok1 _ c1] that few by (simp add: word_gt_0)
    from holds_id_run [OF step _ this, of between] few
    have "holds_id (call_context call1) (ev_ctx e1) (e1 \<noteq> EvFinal (ev_ctx e1) \<and> EvFinal (ev_ctx e1) \<notin> set between)
      (group_run between (group_step e1 (group_run before ?g)))" by auto
    from group_call_same [OF ok2 this c2] show ?thesis by auto
  qed
  moreover have "call_context call1 \<noteq> 0" if "e1 = EvStep oom c as" for oom c as
    using group_call_step [OF ok1] c1 that by metis
  moreover have "ls_host (agg_run L (before @ [e1]) s) =
      snd (dispatch_call (le_env L) (le_api L) (ac_ext_name box) call1 (ls_host ?s1))"
    using agg_event_dispatches [OF b1(1), of e1 ?k L] ok1 own call1 b1(2,3) by simp
  ultimately show ?thesis by blast
qed

text \<open>One group of a sum is finished while another is in progress; the context is used again for a third.\<close>

abbreviation sum_cell :: "nat \<Rightarrow> sqlite3_context" where
  "sum_cell i \<equiv> \<lparr>cx_id = i, cx_user_data = Some 0\<rparr>"

definition sum_box :: agg_ctx where
  "sum_box = \<lparr>ac_ext_name = ''double'', ac_func_id = 1, ac_next_id = 1\<rparr>"

definition sum_state :: "(nat, nat, bytes) loaded_state" where
  "sum_state = \<lparr>ls_host = double_host, ls_api = True, ls_scalars = Map.empty, ls_aggs = [0 \<mapsto> sum_box], ls_bufs = Map.empty\<rparr>"

lemma sum_calls:
  assumes "\<forall>ev\<in>set (evs @ [ev]). cx_user_data (ev_ctx ev) = Some 0" "Suc (length evs) < 2 ^ 64"
  shows "map_option call_context (agg_call ev (agg_run L evs sum_state)) = group_call ev (group_run evs (1, Map.empty))"
proof -
  have s: "serves 0 sum_box sum_state" "groups_of sum_box sum_state = (1, Map.empty)"
    by (simp_all add: serves_def sum_state_def sum_box_def groups_of_def)
  have ok: "groups_ok 1 (1, Map.empty)" by (simp add: groups_ok_def)
  obtain b where b: "serves 0 b (agg_run L evs sum_state)" "groups_of b (agg_run L evs sum_state) = group_run evs (1, Map.empty)"
    using agg_run_book [OF s(1), of evs 1 L] assms ok s(2) by auto
  have "groups_ok (1 + length evs) (group_run evs (1, Map.empty))" using groups_ok_run [OF ok] assms(2) by simp
  with agg_call_context [OF b(1), of ev] b(2) assms(1) show ?thesis by simp
qed

theorem agg_groups_separate_witness:
  "\<forall>L. \<exists>call1 call2.
     agg_call (EvStep False (sum_cell 8) []) (agg_run L [EvStep False (sum_cell 7) []] sum_state) = Some call1 \<and>
     agg_call (EvStep False (sum_cell 7) [])
       (agg_run L ([EvStep False (sum_cell 7) []] @ EvStep False (sum_cell 8) [] # [EvFinal (sum_cell 7)]) sum_state) = Some call2 \<and>
     call_context call2 \<noteq> call_context call1"
proof
  fix L :: "(nat, nat, bytes) loaded_env"
  let ?b = "[EvStep False (sum_cell 7) []]" and ?e1 = "EvStep False (sum_cell 8) []" and ?m = "[EvFinal (sum_cell 7)]"
  let ?e2 = "EvStep False (sum_cell 7) []"
  have "map_option call_context (agg_call ?e1 (agg_run L ?b sum_state)) = Some 2"
    by (subst sum_calls) (simp_all add: group_run_def)
  moreover have "map_option call_context (agg_call ?e2 (agg_run L (?b @ ?e1 # ?m) sum_state)) = Some 3"
    by (subst sum_calls) (simp_all add: group_run_def)
  ultimately obtain call1 call2 where c: "agg_call ?e1 (agg_run L ?b sum_state) = Some call1"
    "agg_call ?e2 (agg_run L (?b @ ?e1 # ?m) sum_state) = Some call2" by fastforce
  have "serves 0 sum_box sum_state" "ac_next_id sum_box = 1" "ls_bufs sum_state = Map.empty"
    by (simp_all add: serves_def sum_state_def sum_box_def)
  from agg_groups_separate [OF this _ _ c] have "call_context call2 \<noteq> call_context call1" by auto
  with c show "\<exists>call1 call2. agg_call ?e1 (agg_run L ?b sum_state) = Some call1 \<and>
    agg_call ?e2 (agg_run L (?b @ ?e1 # ?m) sum_state) = Some call2 \<and> call_context call2 \<noteq> call_context call1" by blast
qed

text \<open>The ids are counted per registration. The same function registered twice, on two connections of one process, sends its first
  groups under the same id, so the extension cannot tell them apart.\<close>

theorem registrations_share_ids:
  assumes "serves a box s" "serves b box s" "a \<noteq> b" "ac_next_id box = 1" "ls_bufs s = Map.empty"
    "cx_user_data c = Some a" "cx_user_data d = Some b"
  shows "map_option call_context (agg_call (EvStep False c as) s) = Some 1 \<and>
    map_option call_context (agg_call (EvStep False d bs) (agg_run L [EvStep False c as] s)) = Some 1"
proof -
  have ok: "groups_ok 1 (groups_of box s)" using assms(4,5) by (simp add: groups_ok_def groups_of_def)
  have cd: "c \<noteq> d" using assms(3,6,7) by auto
  let ?s = "agg_run L [EvStep False c as] s"
  have s: "ls_api ?s" "ls_aggs ?s b = Some box" "ls_bufs ?s d = None"
    using agg_state_eq [OF assms(1,6) ok, of False] assms cd
    by (auto simp: serves_def agg_xstep_def agg_of_def block_on_def split: prod.splits)
  have "map_option call_context (agg_call (EvStep False c as) s) = Some 1"
    using agg_call_context [OF assms(1) _ ok, of "EvStep False c as"] assms by (simp add: groups_of_def)
  moreover have "agg_call (EvStep False d bs) ?s \<noteq> None \<and> call_context (the (agg_call (EvStep False d bs) ?s)) = 1"
    using s assms(4,7) by (simp add: agg_call_def agg_of_def agg_state_def aggregate_context_def fetch_add_next_def del: agg_run.simps)
  ultimately show ?thesis by auto
qed

text \<open>C21. A value that one function returns reaches the function it is passed to. When the inner call of
  \<open>outer(inner(...))\<close> answers with a value that SQLite can keep, the outer function is dispatched with exactly that
  value: numbers, text and blobs, and typed values with their type id, payload and registered name, although SQLite only sees a blob.
  And nothing else is ever taken for a typed value: a cell is read as one only if it holds the frame of a registered type.\<close>

theorem chained_call_exact:
  assumes "sqlite_cells limit C" "ls_api s" "scalar_of inner s = Some sc" "scalar_of outer s = Some sc'"
    and answer: "dispatch_scalar (le_env L) (le_api L) (sc_ext_name sc) (sc_func_id sc) (read_args argv s) (ls_host s) = (Inr (Inr v), h)"
    and "survives limit (eh_typed h) v"
  shows "scalar_xfunc L inner argv s = (Some (write_result v), s\<lparr>ls_host := h\<rparr>) \<and>
    fst (scalar_xfunc L outer [C (write_result v)] (s\<lparr>ls_host := h\<rparr>)) =
      write_reply L ''dispatch_scalar'' (fst (dispatch_scalar (le_env L) (le_api L) (sc_ext_name sc') (sc_func_id sc') [v] h)) \<and>
    (\<forall>cell p. read_value_lifted (eh_typed h) cell = SqlWitValue p \<longrightarrow>
       sv_blob cell = Some (frame_wit_value p) \<and> map_option tb_symbolic_name (tv_lookup (wp_type_id p) (eh_typed h)) = Some (wp_symbolic_name p))"
proof -
  have v: "read_args [C (write_result v)] (s\<lparr>ls_host := h\<rparr>) = [v]"
    using write_read_lifted [OF assms(1,6)] by (simp add: read_args_def)
  have "scalar_of outer (s\<lparr>ls_host := h\<rparr>) = Some sc'" using assms(4) by (simp add: scalar_of_def)
  with v have "fst (scalar_xfunc L outer [C (write_result v)] (s\<lparr>ls_host := h\<rparr>)) =
      write_reply L ''dispatch_scalar'' (fst (dispatch_scalar (le_env L) (le_api L) (sc_ext_name sc') (sc_func_id sc') [v] h))"
    using assms(2) by (simp add: scalar_xfunc_def block_on_def split: prod.split)
  moreover have "scalar_xfunc L inner argv s = (Some (write_result v), s\<lparr>ls_host := h\<rparr>)"
    using assms(2,3) answer by (simp add: scalar_xfunc_def block_on_def write_reply_def)
  ultimately show ?thesis using lifted_only_frames [of "eh_typed h"] by blast
qed

text \<open>An extension whose function answers with a typed value, and a SQLite that keeps every result.\<close>

definition kept_cells :: "result_call \<Rightarrow> sqlite3_value" where
  "kept_cells r =
     (let cell = \<lparr>sv_type = SQLITE_NULL, sv_int64 = 0, sv_double = 0, sv_text = None, sv_blob = None\<rparr> in
      case r of
        ResultInt64 i \<Rightarrow> cell\<lparr>sv_type := SQLITE_INTEGER, sv_int64 := i\<rparr>
      | ResultDouble d \<Rightarrow> cell\<lparr>sv_type := SQLITE_FLOAT, sv_double := d\<rparr>
      | ResultText s n \<Rightarrow> cell\<lparr>sv_type := SQLITE_TEXT, sv_text := Some s\<rparr>
      | ResultBlob b n \<Rightarrow> cell\<lparr>sv_type := SQLITE_BLOB, sv_blob := (if b = [] then None else Some b)\<rparr>
      | _ \<Rightarrow> cell)"

lemma kept_cells_ok: "sqlite_cells 1000 kept_cells"
  by (simp add: sqlite_cells_def kept_cells_def Let_def)

definition span :: wit_value_payload where
  "span = \<lparr>wp_type_id = replicate 32 9, wp_bytes = [1, 10], wp_symbolic_name = ''intspan''\<rparr>"

definition span_state :: "(nat, nat, bytes) loaded_state" where
  "span_state =
     \<lparr>ls_host = toy_host\<lparr>eh_bridges := [(''spans'', 0)],
        eh_typed := [replicate 32 9 \<mapsto> \<lparr>tb_type_id = replicate 32 9, tb_symbolic_name = ''intspan'', tb_decoder_import = [], tb_encoder_import = [],
          tb_extension_name = ''spans''\<rparr>]\<rparr>,
      ls_api = True, ls_scalars = [0 \<mapsto> \<lparr>sc_ext_name = ''spans'', sc_func_id = 1\<rparr>], ls_aggs = Map.empty, ls_bufs = Map.empty\<rparr>"

definition span_env :: "nat guest_api \<Rightarrow> (nat, nat, bytes) loaded_env" where
  "span_env X = \<lparr>le_env = toy_env double_codec double_ask, le_api = X\<lparr>x_scalar := (\<lambda>f args. ret (Inr (SqlWitValue span)))\<rparr>,
     le_show = (\<lambda>_. ''failed'')\<rparr>"

theorem chained_call_exact_witness:
  "\<forall>X. \<exists>h. scalar_xfunc (span_env X) (sum_cell 1) [] span_state = (Some (write_result (SqlWitValue span)), span_state\<lparr>ls_host := h\<rparr>) \<and>
     fst (scalar_xfunc (span_env X) (sum_cell 2) [kept_cells (write_result (SqlWitValue span))] (span_state\<lparr>ls_host := h\<rparr>)) =
       write_reply (span_env X) ''dispatch_scalar''
         (fst (dispatch_scalar (le_env (span_env X)) (le_api (span_env X)) ''spans'' 1 [SqlWitValue span] h))"
proof
  fix X
  let ?L = "span_env X" and ?sc = "\<lparr>sc_ext_name = ''spans'', sc_func_id = 1\<rparr>"
  obtain h where d: "dispatch_scalar (le_env ?L) (le_api ?L) ''spans'' 1 (read_args [] span_state) (ls_host span_state) =
      (Inr (Inr (SqlWitValue span)), h)" and h: "eh_typed h = eh_typed (ls_host span_state)"
    by (simp add: dispatch_scalar_def or_not_loaded_def or_else_def try_bridge_scalar_def on_bridge_def call_export_def fuelled_def
        span_state_def span_env_def toy_env_def ret_def)
  have "survives 1000 (eh_typed h) (SqlWitValue span)"
    by (simp add: h survives_def span_def span_state_def tv_lookup_def header_length WIT_VALUE_TYPE_ID_LEN_def)
  with chained_call_exact [OF kept_cells_ok, of span_state "sum_cell 1" ?sc "sum_cell 2" ?sc ?L "[]" "SqlWitValue span" h] d
  show "\<exists>h. scalar_xfunc ?L (sum_cell 1) [] span_state = (Some (write_result (SqlWitValue span)), span_state\<lparr>ls_host := h\<rparr>) \<and>
     fst (scalar_xfunc ?L (sum_cell 2) [kept_cells (write_result (SqlWitValue span))] (span_state\<lparr>ls_host := h\<rparr>)) =
       write_reply ?L ''dispatch_scalar'' (fst (dispatch_scalar (le_env ?L) (le_api ?L) ''spans'' 1 [SqlWitValue span] h))"
    by (auto simp: span_state_def scalar_of_def)
qed

end
