(* ===== verification/Loader_Install.thy ===== *)
theory Loader_Install
  imports Loader_Functions Vtab_Trampolines "HOL-Library.Sublist"
begin

text \<open>
  Loading through the loadable extension: \<^verbatim>\<open>sqlink-extension/src/load.rs\<close>, the registration of functions and modules
  (\<^verbatim>\<open>register.rs\<close>, \<^verbatim>\<open>vtab.rs\<close>) and the entry point and the SQL function \<open>sqlink_load_ext\<close> of \<^verbatim>\<open>lib.rs\<close>.

  What SQLite answers to a registration is the parameter \<open>li_create\<close>; \<open>ps_entries\<close> are the registrations it holds, in
  order. When it refuses one it runs the destructor, which frees the box. When it accepts one it drops the registration that
  was in the same slot and runs that one's destructor: functions share a slot if they have the same name, up to the case of
  letters, and the same number of arguments, scalars and aggregates alike (all are registered for UTF-8), and modules if they
  have the same name. Reading an environment variable twice gives the same value. A load that follows bridge names for ever
  has no result (\<open>None\<close>).
\<close>

section \<open>State\<close>

datatype loader_module = MutableEponymousModule | EponymousModule | MutableModule | PlainModule

datatype db_entry =
    ScalarEntry string i32 int nat
  | AggEntry string i32 int nat bool
  | ModuleEntry string loader_module module_aux
  | LoadExtEntry

record ('g, 'w, 'c) process_state =
  ps_state :: "('g, 'w, 'c) loaded_state"
  ps_live :: bool
  ps_runtime :: bool
  ps_vtab_globals :: bool
  ps_next_box :: nat
  ps_entries :: "db_entry list"

record install_counts =
  n_scalar :: u32
  n_aggregate :: u32
  n_vtab :: u32
  n_skipped :: u32

datatype install_error =
    NullApi
  | HostFailed string
  | RuntimeFailed string
  | Unresolved string
  | LoadFailed load_error
  | NotRetained string
  | CreateFailed int

record ('g, 'w, 'c, 'p) install_env =
  li_env :: "('g, 'w, 'c) guest_env"
  li_policy :: "'p policy_api"
  li_grants :: "'p \<Rightarrow> load_grants"
  li_spi :: "prefix_db option"
  li_create :: "db_entry \<Rightarrow> db_entry list \<Rightarrow> int"
  li_has_modules :: bool
  li_new_host :: "string + ('g, 'w, 'c) ext_host"
  li_runtime :: "string + unit"
  li_show :: "install_error \<Rightarrow> string"

section \<open>The environment\<close>

definition env_compat :: "(string \<Rightarrow> string option) \<Rightarrow> string \<Rightarrow> string \<Rightarrow> string option" where
  "env_compat vars new old = (case vars new of Some v \<Rightarrow> Some v | None \<Rightarrow> vars old)"

definition underscored :: "string \<Rightarrow> string" where
  "underscored name = map (\<lambda>c. if c = CHR ''-'' then CHR ''_'' else c) name"

definition dir_candidates :: "string \<Rightarrow> string \<Rightarrow> string list" where
  "dir_candidates hint base =
     [path_join base (hint @ ''-provider.wasm''),
      path_join base (underscored hint @ ''_provider.wasm''),
      path_join base (underscored hint @ ''_extension.component.wasm''),
      path_join base (hint @ ''_extension.component.wasm''),
      path_join base (underscored hint @ ''.component.wasm''),
      path_join base (hint @ ''.component.wasm'')]"

definition repo_candidates :: "string \<Rightarrow> string \<Rightarrow> string list" where
  "repo_candidates hint root =
     [path_join root (''target/wasm32-wasip2/release/'' @ hint @ ''-provider.wasm''),
      path_join root (''extensions/'' @ hint @ ''/target/wasm32-wasip2/release/'' @ hint @ ''-provider.wasm''),
      path_join root (''target/wasm32-wasip2/release/'' @ underscored hint @ ''_extension.component.wasm''),
      path_join root (''target/wasm32-wasip2/release/'' @ hint @ ''_extension.component.wasm''),
      path_join root (''extensions/'' @ hint @ ''/target/wasm32-wasip2/release/'' @ underscored hint @ ''_extension.component.wasm''),
      path_join root (''extensions/'' @ hint @ ''/target/wasm32-wasip2/release/'' @ hint @ ''_extension.component.wasm'')]"

definition opt_list :: "'a option \<Rightarrow> 'a list" where
  "opt_list x = (case x of None \<Rightarrow> [] | Some a \<Rightarrow> [a])"

definition resolve_extension_path :: "('g, 'w, 'c) guest_env \<Rightarrow> string \<Rightarrow> install_error + string" where
  "resolve_extension_path E hint =
     (if g_exists E hint then Inr hint
      else
        let bases = opt_list (env_compat (g_vars E) ''SQLINK_EXTENSION_DIR'' ''SQLINK_LOADER_EXT_DIR'');
            repo_roots = opt_list (env_compat (g_vars E) ''SQLINK_EXTENSION_REPO_ROOT'' ''SQLINK_LOADER_REPO_ROOT'') @ opt_list (g_cwd E) in
        case List.find (g_exists E) (concat (map (dir_candidates hint) bases)) of
          Some c \<Rightarrow> Inr c
        | None \<Rightarrow>
            (case List.find (g_exists E) (concat (map (repo_candidates hint) repo_roots)) of
               Some c \<Rightarrow> Inr c
             | None \<Rightarrow> Inl (Unresolved hint)))"

section \<open>The policy\<close>

definition default_grants :: "capability list" where
  "default_grants = [Random, Hashing, Encoding, Text, Cache, State, Spi, Prepared, Schema, Transaction]"

definition default_policy :: "'p policy_api \<Rightarrow> 'p" where
  "default_policy P = with_grants P (deny_all P) default_grants"

definition parse_capability :: "string \<Rightarrow> capability option" where
  "parse_capability name =
     (let s = to_ascii_lowercase (trim name) in
      if s = ''spi'' then Some Spi else if s = ''prepared'' then Some Prepared
      else if s = ''transaction'' then Some Transaction else if s = ''schema'' then Some Schema
      else if s = ''state'' then Some State else if s = ''cache'' then Some Cache
      else if s = ''random'' then Some Random else if s = ''text'' then Some Text
      else if s = ''hashing'' then Some Hashing else if s = ''encoding'' then Some Encoding
      else if s = ''http'' then Some Http else if s = ''dns'' then Some Dns
      else if s = ''walframes'' \<or> s = ''wal-frames'' \<or> s = ''wal_frames'' then Some WalFrames
      else if s = ''s3'' then Some S3
      else if s = ''spawnbuild'' \<or> s = ''spawn-build'' \<or> s = ''spawn_build'' then Some SpawnBuild
      else if s = ''bundles'' then Some Bundles
      else None)"

fun extra_caps :: "string list \<Rightarrow> capability list" where
  "extra_caps [] = []"
| "extra_caps (entry # es) =
     (if trim entry = [] then extra_caps es
      else case parse_capability (trim entry) of
        Some cap \<Rightarrow> cap # extra_caps es
      | None \<Rightarrow> extra_caps es)"

definition policy_from_env :: "'p policy_api \<Rightarrow> (string \<Rightarrow> string option) \<Rightarrow> 'p" where
  "policy_from_env P vars =
     (case Option.bind (env_compat vars ''SQLINK_EXTENSION_CAPS'' ''SQLINK_LOADER_EXT_CAPS'') (\<lambda>v. if utf8_valid v then Some v else None) of
        None \<Rightarrow> default_policy P
      | Some raw \<Rightarrow>
          let extra = extra_caps (split_on (CHR '','') raw) in
          if extra = [] then default_policy P
          else
            let policy = with_grants P (default_policy P) extra;
                policy = (if Http \<in> set extra
                  then with_http P policy \<lparr>allowed_hosts = [''*.''], allowed_methods = None, max_body_bytes = None, http_timeout_ms = None\<rparr>
                  else policy)
            in if Dns \<in> set extra then with_dns P policy \<lparr>allowed_domains = [''*.''], dns_timeout_ms = None\<rparr> else policy)"

section \<open>Registration\<close>

type_synonym ('g, 'w, 'c, 'a) install_op = "('g, 'w, 'c) process_state \<Rightarrow> 'a \<times> ('g, 'w, 'c) process_state"

definition SQLITE_MISUSE :: int where "SQLITE_MISUSE = 21"

definition SQLITE_UTF8 :: int where "SQLITE_UTF8 = 1"

definition SQLITE_DETERMINISTIC :: int where "SQLITE_DETERMINISTIC = 0x800"

text \<open>\<open>Box::into_raw\<close> and the destructors.\<close>

definition box_scalar :: "scalar_ctx \<Rightarrow> ('g, 'w, 'c, nat) install_op" where
  "box_scalar sc p =
     (let a = ps_next_box p; s = ps_state p in
      (a, p\<lparr>ps_state := s\<lparr>ls_scalars := (ls_scalars s)(a \<mapsto> sc)\<rparr>, ps_next_box := Suc a\<rparr>))"

definition scalar_destructor :: "nat \<Rightarrow> ('g, 'w, 'c) process_state \<Rightarrow> ('g, 'w, 'c) process_state" where
  "scalar_destructor a p = (let s = ps_state p in p\<lparr>ps_state := s\<lparr>ls_scalars := (ls_scalars s)(a := None)\<rparr>\<rparr>)"

definition box_agg :: "agg_ctx \<Rightarrow> ('g, 'w, 'c, nat) install_op" where
  "box_agg ac p =
     (let a = ps_next_box p; s = ps_state p in
      (a, p\<lparr>ps_state := s\<lparr>ls_aggs := (ls_aggs s)(a \<mapsto> ac)\<rparr>, ps_next_box := Suc a\<rparr>))"

definition agg_destructor :: "nat \<Rightarrow> ('g, 'w, 'c) process_state \<Rightarrow> ('g, 'w, 'c) process_state" where
  "agg_destructor a p = (let s = ps_state p in p\<lparr>ps_state := s\<lparr>ls_aggs := (ls_aggs s)(a := None)\<rparr>\<rparr>)"

text \<open>\<open>sqlite3_create_function_v2\<close> and \<open>sqlite3_create_module_v2\<close>: the slot of a registration, and what dropping one frees.\<close>

datatype slot = FunctionSlot string i32 | ModuleSlot string

primrec entry_slot :: "db_entry \<Rightarrow> slot" where
  "entry_slot (ScalarEntry name k flags a) = FunctionSlot (to_ascii_lowercase name) k"
| "entry_slot (AggEntry name k flags a w) = FunctionSlot (to_ascii_lowercase name) k"
| "entry_slot (ModuleEntry name t aux) = ModuleSlot (to_ascii_lowercase name)"
| "entry_slot LoadExtEntry = FunctionSlot ''sqlink_load_ext'' (- 1)"

definition drop_entry :: "db_entry \<Rightarrow> ('g, 'w, 'c) process_state \<Rightarrow> ('g, 'w, 'c) process_state" where
  "drop_entry e p =
     (case e of ScalarEntry name k flags a \<Rightarrow> scalar_destructor a p | AggEntry name k flags a w \<Rightarrow> agg_destructor a p | _ \<Rightarrow> p)"

definition create_entry :: "('g, 'w, 'c, 'p) install_env \<Rightarrow> db_entry \<Rightarrow> (('g, 'w, 'c) process_state \<Rightarrow> ('g, 'w, 'c) process_state) \<Rightarrow>
    ('g, 'w, 'c, int) install_op" where
  "create_entry I entry destroy p =
     (let rc = li_create I entry (ps_entries p) in
      if rc = SQLITE_OK then
        (let p1 = (case List.find (\<lambda>e. entry_slot e = entry_slot entry) (ps_entries p) of Some old \<Rightarrow> drop_entry old p | None \<Rightarrow> p) in
         (rc, p1\<lparr>ps_entries := filter (\<lambda>e. entry_slot e \<noteq> entry_slot entry) (ps_entries p) @ [entry]\<rparr>))
      else (rc, destroy p))"

definition register_scalar :: "('g, 'w, 'c, 'p) install_env \<Rightarrow> string \<Rightarrow> u64 \<times> string \<times> i32 \<Rightarrow> ('g, 'w, 'c, int) install_op" where
  "register_scalar I ext_name spec p =
     (case spec of (func_id, func_name, num_args) \<Rightarrow>
        (case box_scalar \<lparr>sc_ext_name = ext_name, sc_func_id = func_id\<rparr> p of
           (a, p1) \<Rightarrow>
             if CHR 0x00 \<in> set func_name then (SQLITE_MISUSE, scalar_destructor a p1)
             else create_entry I (ScalarEntry func_name num_args (SQLITE_UTF8 + SQLITE_DETERMINISTIC) a) (scalar_destructor a) p1))"

definition register_aggregate :: "('g, 'w, 'c, 'p) install_env \<Rightarrow> string \<Rightarrow> u64 \<times> string \<times> i32 \<times> bool \<Rightarrow> ('g, 'w, 'c, int) install_op" where
  "register_aggregate I ext_name spec p =
     (case spec of (func_id, func_name, num_args, is_window) \<Rightarrow>
        (case box_agg \<lparr>ac_ext_name = ext_name, ac_func_id = func_id, ac_next_id = 1\<rparr> p of
           (a, p1) \<Rightarrow>
             if CHR 0x00 \<in> set func_name then (SQLITE_MISUSE, agg_destructor a p1)
             else create_entry I (AggEntry func_name num_args SQLITE_UTF8 a is_window) (agg_destructor a) p1))"

definition loader_module_of :: "bool \<Rightarrow> bool \<Rightarrow> loader_module" where
  "loader_module_of eponymous mutable =
     (if eponymous then if mutable then MutableEponymousModule else EponymousModule
      else if mutable then MutableModule else PlainModule)"

definition register_loader_vtab :: "('g, 'w, 'c, 'p) install_env \<Rightarrow> string \<Rightarrow> vtab_spec_e \<Rightarrow> ('g, 'w, 'c, int) install_op" where
  "register_loader_vtab I ext_name spec p =
     (let p1 = p\<lparr>ps_vtab_globals := True\<rparr>;
          aux = \<lparr>ma_ext_name = ext_name, ma_vtab_id = vs_id spec, ma_eponymous = vs_eponymous spec, ma_batched = vs_batched spec\<rparr> in
      if CHR 0x00 \<in> set (vs_name spec) then (SQLITE_ERROR, p1)
      else if \<not> li_has_modules I then (SQLITE_ERROR, p1)
      else create_entry I (ModuleEntry (vs_name spec) (loader_module_of (vs_eponymous spec) (vs_mutable spec)) aux) id p1)"

section \<open>Loading and installing\<close>

fun count_registered :: "('a \<Rightarrow> ('g, 'w, 'c, int) install_op) \<Rightarrow> 'a list \<Rightarrow> u32 \<Rightarrow> ('g, 'w, 'c, u32) install_op" where
  "count_registered reg [] n p = (n, p)"
| "count_registered reg (x # xs) n p =
     (case reg x p of (rc, p1) \<Rightarrow> count_registered reg xs (if rc = SQLITE_OK then n + 1 else n) p1)"

definition install_manifest :: "('g, 'w, 'c, 'p) install_env \<Rightarrow> string \<Rightarrow> wit_manifest \<Rightarrow> ('g, 'w, 'c, install_counts) install_op" where
  "install_manifest I ext_name ext p =
     (case count_registered (register_scalar I ext_name) (w_scalar_functions ext) 0 p of
        (ns, p1) \<Rightarrow>
          (case count_registered (register_aggregate I ext_name) (w_aggregate_functions ext) 0 p1 of
             (na, p2) \<Rightarrow>
               (case count_registered (register_loader_vtab I ext_name) (w_vtabs ext) 0 p2 of
                  (nv, p3) \<Rightarrow>
                    (\<lparr>n_scalar = ns, n_aggregate = na, n_vtab = nv,
                      n_skipped = word_of_nat (length (w_collations ext) + of_bool (w_has_authorizer ext) + of_bool (w_has_update_hook ext) +
                        of_bool (w_has_commit_hook ext))\<rparr>, p3))))"

definition install_path :: "('g, 'w, 'c) guest_env \<Rightarrow> string \<Rightarrow> install_error + string" where
  "install_path E name_or_path =
     (if \<not> g_exists E name_or_path \<and> has_bridge (g_sub_ext E) name_or_path then Inr name_or_path
      else resolve_extension_path E name_or_path)"

definition with_host :: "('g, 'w, 'c) ext_host \<Rightarrow> ('g, 'w, 'c) process_state \<Rightarrow> ('g, 'w, 'c) process_state" where
  "with_host h p = p\<lparr>ps_state := (ps_state p)\<lparr>ls_host := h\<rparr>\<rparr>"

definition load_and_install :: "('g, 'w, 'c, 'p) install_env \<Rightarrow> string \<Rightarrow> 'p \<Rightarrow> ('g, 'w, 'c) process_state \<Rightarrow>
    ((install_error + install_counts) \<times> ('g, 'w, 'c) process_state) option" where
  "load_and_install I name_or_path policy p =
     (case install_path (li_env I) name_or_path of
        Inl e \<Rightarrow> Some (Inl e, p)
      | Inr path \<Rightarrow>
          (case load_extension (li_env I) (li_grants I policy) path (ls_host (ps_state p)) of
             None \<Rightarrow> None
           | Some (Inl e, h) \<Rightarrow> Some (Inl (LoadFailed e), with_host h p)
           | Some (Inr ext_name, h) \<Rightarrow>
               (case provider_backed_bindings_manifest (li_spi I) ext_name h of
                  None \<Rightarrow> Some (Inl (NotRetained ext_name), with_host h p)
                | Some ext \<Rightarrow> (case install_manifest I ext_name ext (with_host h p) of (counts, p1) \<Rightarrow> Some (Inr counts, p1)))))"

section \<open>The entry point\<close>

definition process_host :: "('g, 'w, 'c, 'p) install_env \<Rightarrow> ('g, 'w, 'c) process_state \<Rightarrow> install_error + ('g, 'w, 'c) process_state" where
  "process_host I p =
     (if ps_live p then Inr p
      else case li_new_host I of
        Inl e \<Rightarrow> Inl (HostFailed e)
      | Inr h \<Rightarrow> Inr ((with_host h p)\<lparr>ps_live := True\<rparr>))"

definition process_runtime :: "('g, 'w, 'c, 'p) install_env \<Rightarrow> ('g, 'w, 'c) process_state \<Rightarrow> install_error + ('g, 'w, 'c) process_state" where
  "process_runtime I p =
     (if ps_runtime p then Inr p
      else case li_runtime I of Inl e \<Rightarrow> Inl (RuntimeFailed e) | Inr _ \<Rightarrow> Inr (p\<lparr>ps_runtime := True\<rparr>))"

definition set_api_routines :: "bool \<Rightarrow> ('g, 'w, 'c) process_state \<Rightarrow> install_error + ('g, 'w, 'c) process_state" where
  "set_api_routines non_null p = (if non_null then Inr (p\<lparr>ps_state := (ps_state p)\<lparr>ls_api := True\<rparr>\<rparr>) else Inl NullApi)"

definition register_sqlink_load_ext :: "('g, 'w, 'c, 'p) install_env \<Rightarrow> ('g, 'w, 'c, install_error + unit) install_op" where
  "register_sqlink_load_ext I p =
     (case create_entry I LoadExtEntry id p of (rc, p1) \<Rightarrow> (if rc \<noteq> SQLITE_OK then Inl (CreateFailed rc) else Inr (), p1))"

fun eager_loads :: "('g, 'w, 'c, 'p) install_env \<Rightarrow> string list \<Rightarrow> ('g, 'w, 'c) process_state \<Rightarrow> ('g, 'w, 'c) process_state option" where
  "eager_loads I [] p = Some p"
| "eager_loads I (entry # es) p =
     (if trim entry = [] then eager_loads I es p
      else case load_and_install I (trim entry) (policy_from_env (li_policy I) (g_vars (li_env I))) p of
        None \<Rightarrow> None
      | Some (_, p1) \<Rightarrow> eager_loads I es p1)"

definition init_inner :: "('g, 'w, 'c, 'p) install_env \<Rightarrow> bool \<Rightarrow> ('g, 'w, 'c) process_state \<Rightarrow>
    ((install_error + unit) \<times> ('g, 'w, 'c) process_state) option" where
  "init_inner I p_api p =
     (case set_api_routines p_api p of
        Inl e \<Rightarrow> Some (Inl e, p)
      | Inr p1 \<Rightarrow>
          (case process_host I p1 of
             Inl e \<Rightarrow> Some (Inl e, p1)
           | Inr p2 \<Rightarrow>
               (case process_runtime I p2 of
                  Inl e \<Rightarrow> Some (Inl e, p2)
                | Inr p3 \<Rightarrow>
                    let h = ls_host (ps_state p3);
                        p4 = (case env_compat (g_vars (li_env I)) ''SQLINK_EXTENSION_DB_PATH'' ''SQLINK_LOADER_DB_PATH'' of
                          Some path \<Rightarrow> if utf8_valid path then with_host (h\<lparr>eh_loader := set_db_path path (eh_loader h)\<rparr>) p3 else p3
                        | None \<Rightarrow> p3) in
                    (case register_sqlink_load_ext I p4 of
                       (Inl e, p5) \<Rightarrow> Some (Inl e, p5)
                     | (Inr _, p5) \<Rightarrow>
                         (case env_compat (g_vars (li_env I)) ''SQLINK_EXTENSION_LOAD'' ''SQLINK_LOADER_EXTS'' of
                            None \<Rightarrow> Some (Inr (), p5)
                          | Some list \<Rightarrow> map_option (\<lambda>p6. (Inr (), p6)) (eager_loads I (split_on (CHR '','') (from_utf8_lossy list)) p5))))))"

definition sqlite3_sqlinkloader_init :: "('g, 'w, 'c, 'p) install_env \<Rightarrow> bool \<Rightarrow> ('g, 'w, 'c) process_state \<Rightarrow>
    ((int \<times> string option) \<times> ('g, 'w, 'c) process_state) option" where
  "sqlite3_sqlinkloader_init I p_api p =
     map_option (\<lambda>(r, p1). (case r of
         Inr _ \<Rightarrow> (SQLITE_OK, None)
       | Inl e \<Rightarrow> (SQLITE_ERROR, if p_api then Some (''sqlink-extension init: '' @ li_show I e) else None), p1)) (init_inner I p_api p)"

text \<open>The SQL function. Its name and path arguments are read without the lift.\<close>

definition load_ext_path :: "string \<Rightarrow> sqlite3_value list \<Rightarrow> string + string" where
  "load_ext_path name rest =
     (case rest of
        [] \<Rightarrow> Inr name
      | v # _ \<Rightarrow>
          (case read_value v of
             SqlText s \<Rightarrow> Inr s
           | SqlNull \<Rightarrow> Inr name
           | _ \<Rightarrow> Inl ''sqlink_load_ext: second arg must be TEXT''))"

definition loaded_message :: "string \<Rightarrow> install_counts \<Rightarrow> string" where
  "loaded_message name c =
     ''loaded '' @ name @ '': '' @ show_nat (unat (n_scalar c)) @ '' scalar, '' @ show_nat (unat (n_aggregate c)) @ '' aggregate, '' @
     show_nat (unat (n_vtab c)) @ '' vtab ('' @ show_nat (unat (n_skipped c)) @ '' skipped: unsupported kind)''"

definition sqlink_load_ext_xfunc :: "('g, 'w, 'c, 'p) install_env \<Rightarrow> bool \<Rightarrow> sqlite3_value list \<Rightarrow> ('g, 'w, 'c) process_state \<Rightarrow>
    (result_call option \<times> ('g, 'w, 'c) process_state) option" where
  "sqlink_load_ext_xfunc I user_data argv p =
     (if \<not> ls_api (ps_state p) then Some (None, p)
      else if \<not> user_data then Some (Some (write_error ''sqlink_load_ext: null context''), p)
      else case argv of
        [] \<Rightarrow> Some (Some (write_error ''sqlink_load_ext: usage: sqlink_load_ext(name [, path])''), p)
      | v # rest \<Rightarrow>
          (case read_value v of
             SqlText name \<Rightarrow>
               (case load_ext_path name rest of
                  Inl e \<Rightarrow> Some (Some (write_error e), p)
                | Inr path_or_name \<Rightarrow>
                    map_option (\<lambda>(r, p1). (Some (case r of
                        Inr counts \<Rightarrow> write_result (SqlText (loaded_message name counts))
                      | Inl e \<Rightarrow> write_error (''sqlink_load_ext('' @ [CHR 0x27] @ name @ [CHR 0x27] @ ''): '' @ li_show I e)), p1))
                      (load_and_install I path_or_name (policy_from_env (li_policy I) (g_vars (li_env I))) p))
           | _ \<Rightarrow> Some (Some (write_error ''sqlink_load_ext: first arg must be TEXT''), p)))"

section \<open>What a registration promises\<close>

primrec entry_box :: "db_entry \<Rightarrow> nat option" where
  "entry_box (ScalarEntry name k flags a) = Some a"
| "entry_box (AggEntry name k flags a w) = Some a"
| "entry_box (ModuleEntry name t aux) = None"
| "entry_box LoadExtEntry = None"

text \<open>Where a call goes that SQLite makes through a registration; through a freed box it goes nowhere.\<close>

datatype target =
    ScalarTarget string u64 int
  | AggTarget string u64 bool
  | ModuleTarget loader_module module_aux
  | LoaderTarget

primrec target_of :: "('g, 'w, 'c) loaded_state \<Rightarrow> db_entry \<Rightarrow> target option" where
  "target_of s (ScalarEntry name k flags a) = map_option (\<lambda>c. ScalarTarget (sc_ext_name c) (sc_func_id c) flags) (ls_scalars s a)"
| "target_of s (AggEntry name k flags a w) = map_option (\<lambda>c. AggTarget (ac_ext_name c) (ac_func_id c) w) (ls_aggs s a)"
| "target_of s (ModuleEntry name t aux) = Some (ModuleTarget t aux)"
| "target_of s LoadExtEntry = Some LoaderTarget"

definition registered :: "('g, 'w, 'c) process_state \<Rightarrow> slot \<rightharpoonup> target" where
  "registered p k = Option.bind (List.find (\<lambda>e. entry_slot e = k) (ps_entries p)) (target_of (ps_state p))"

text \<open>Every slot is held once, no registration leads to a freed box, no two share a box, and no new box is one of theirs.\<close>

definition install_ok :: "('g, 'w, 'c) process_state \<Rightarrow> bool" where
  "install_ok p \<longleftrightarrow> distinct (map entry_slot (ps_entries p)) \<and>
     (\<forall>e\<in>set (ps_entries p). target_of (ps_state p) e \<noteq> None \<and> (\<forall>a. entry_box e = Some a \<longrightarrow> a < ps_next_box p)) \<and>
     (\<forall>e\<in>set (ps_entries p). \<forall>e'\<in>set (ps_entries p). entry_box e \<noteq> None \<and> entry_box e = entry_box e' \<longrightarrow> e = e')"

definition same_host :: "('g, 'w, 'c) process_state \<Rightarrow> ('g, 'w, 'c) process_state \<Rightarrow> bool" where
  "same_host p p' \<longleftrightarrow> ls_host (ps_state p') = ls_host (ps_state p) \<and> ls_api (ps_state p') = ls_api (ps_state p)"

lemma same_host_refl: "same_host p p"
  by (simp add: same_host_def)

lemma same_host_trans: "same_host p q \<Longrightarrow> same_host q r \<Longrightarrow> same_host p r"
  by (simp add: same_host_def)

lemma find_replaced:
  "List.find (\<lambda>x. entry_slot x = k) (filter (\<lambda>x. entry_slot x \<noteq> entry_slot e) es @ [e]) =
     (if k = entry_slot e then Some e else List.find (\<lambda>x. entry_slot x = k) es)"
  by (induction es) auto

text \<open>Freeing a box changes no target but those that go through it.\<close>

lemma target_of_dropped:
  "entry_box e = None \<or> entry_box e \<noteq> entry_box old \<Longrightarrow> target_of (ps_state (drop_entry old p)) e = target_of (ps_state p) e"
  by (cases e; cases old) (auto simp: drop_entry_def scalar_destructor_def agg_destructor_def Let_def)

lemma drop_entry_box:
  "drop_entry (ScalarEntry name k flags a) = scalar_destructor a" "drop_entry (AggEntry name k flags a w) = agg_destructor a"
  by (simp_all add: drop_entry_def fun_eq_iff)

lemma drop_entry_keeps [simp]:
  "ps_entries (drop_entry old p) = ps_entries p" "ps_next_box (drop_entry old p) = ps_next_box p" "same_host p (drop_entry old p)"
  by (cases old; simp add: drop_entry_def scalar_destructor_def agg_destructor_def same_host_def Let_def)+

lemma registered_cong:
  assumes "ps_entries p' = ps_entries p" "\<And>e. e \<in> set (ps_entries p) \<Longrightarrow> target_of (ps_state p') e = target_of (ps_state p) e"
  shows "registered p' = registered p"
proof
  fix k
  show "registered p' k = registered p k"
  proof (cases "List.find (\<lambda>e. entry_slot e = k) (ps_entries p)")
    case (Some e)
    then have "e \<in> set (ps_entries p)" by (auto simp: find_Some_iff)
    with assms Some show ?thesis by (simp add: registered_def)
  qed (use assms(1) in \<open>simp add: registered_def\<close>)
qed

lemma install_ok_cong:
  assumes "install_ok p" "ps_entries p' = ps_entries p" "ps_next_box p \<le> ps_next_box p'"
    "\<And>e. e \<in> set (ps_entries p) \<Longrightarrow> target_of (ps_state p') e = target_of (ps_state p) e"
  shows "install_ok p'"
  using assms unfolding install_ok_def by (metis order.strict_trans2)

text \<open>The state after an accepted registration: the one that held the slot is gone, the targets of the others stay.\<close>

lemma create_entry_state:
  assumes ok: "install_ok p" and box: "\<forall>x\<in>set (ps_entries p). entry_box e \<noteq> None \<longrightarrow> entry_box x \<noteq> entry_box e"
    and run: "create_entry I e d p = (SQLITE_OK, p')"
  shows "ps_entries p' = filter (\<lambda>x. entry_slot x \<noteq> entry_slot e) (ps_entries p) @ [e]" "ps_next_box p' = ps_next_box p" "same_host p p'"
    and "x \<in> set (ps_entries p') \<Longrightarrow> target_of (ps_state p') x = target_of (ps_state p) x"
proof -
  let ?old = "List.find (\<lambda>x. entry_slot x = entry_slot e) (ps_entries p)"
  define p1 where "p1 = (case ?old of Some old \<Rightarrow> drop_entry old p | None \<Rightarrow> p)"
  let ?es = "filter (\<lambda>x. entry_slot x \<noteq> entry_slot e) (ps_entries p)"
  have "li_create I e (ps_entries p) = SQLITE_OK"
    by (rule ccontr) (use run in \<open>simp add: create_entry_def Let_def\<close>)
  with run have p': "p' = p1\<lparr>ps_entries := ?es @ [e]\<rparr>" by (simp add: create_entry_def Let_def p1_def)
  then show "ps_entries p' = ?es @ [e]" by simp
  have "same_host p p1" "ps_next_box p1 = ps_next_box p" by (auto simp: p1_def same_host_refl split: option.splits)
  with p' show "ps_next_box p' = ps_next_box p" "same_host p p'" by (simp_all add: same_host_def)
  assume "x \<in> set (ps_entries p')"
  with p' have x: "x \<in> set ?es \<or> x = e" by auto
  show "target_of (ps_state p') x = target_of (ps_state p) x"
  proof (cases ?old)
    case (Some old)
    then have old: "old \<in> set (ps_entries p)" "entry_slot old = entry_slot e" by (auto simp: find_Some_iff)
    have "entry_box x = None \<or> entry_box x \<noteq> entry_box old"
    proof (cases "x = e")
      case True
      with box old(1) show ?thesis by metis
    next
      case False
      with x have "x \<in> set (ps_entries p)" "entry_slot x \<noteq> entry_slot e" by auto
      with old ok show ?thesis unfolding install_ok_def by metis
    qed
    with Some p' show ?thesis by (simp add: p1_def target_of_dropped)
  qed (simp add: p' p1_def)
qed

lemma create_entry_registered:
  assumes "install_ok p" "\<forall>x\<in>set (ps_entries p). entry_box e \<noteq> None \<longrightarrow> entry_box x \<noteq> entry_box e"
    and "create_entry I e d p = (SQLITE_OK, p')" "target_of (ps_state p) e = Some t"
  shows "registered p' = (registered p)(entry_slot e \<mapsto> t)"
proof
  fix k
  note st = create_entry_state [OF assms(1,2,3)]
  show "registered p' k = ((registered p)(entry_slot e \<mapsto> t)) k"
  proof (cases "k = entry_slot e")
    case True
    then show ?thesis using assms(4) st(4) [of e] by (simp add: st(1) registered_def find_replaced)
  next
    case other: False
    show ?thesis
    proof (cases "List.find (\<lambda>x. entry_slot x = k) (ps_entries p)")
      case None
      with other show ?thesis by (simp add: st(1) registered_def find_replaced)
    next
      case (Some x)
      then have "x \<in> set (ps_entries p)" "entry_slot x = k" by (auto simp: find_Some_iff)
      with other Some st(4) [of x] show ?thesis by (simp add: st(1) registered_def find_replaced)
    qed
  qed
qed

lemma create_entry_accepted:
  assumes ok: "install_ok p" and t: "target_of (ps_state p) e = Some t"
    and box: "\<And>a. entry_box e = Some a \<Longrightarrow> a < ps_next_box p \<and> (\<forall>x\<in>set (ps_entries p). entry_box x \<noteq> Some a)"
    and run: "create_entry I e d p = (SQLITE_OK, p')"
  shows "install_ok p' \<and> same_host p p' \<and> registered p' = (registered p)(entry_slot e \<mapsto> t)"
proof -
  have fresh: "\<forall>x\<in>set (ps_entries p). entry_box e \<noteq> None \<longrightarrow> entry_box x \<noteq> entry_box e" using box by fastforce
  note st = create_entry_state [OF ok fresh run]
  let ?es = "filter (\<lambda>x. entry_slot x \<noteq> entry_slot e) (ps_entries p)"
  have "distinct (map entry_slot (?es @ [e]))" using ok by (auto simp: install_ok_def distinct_map intro: inj_on_subset)
  moreover have "target_of (ps_state p') x \<noteq> None \<and> (\<forall>a. entry_box x = Some a \<longrightarrow> a < ps_next_box p')" if x: "x \<in> set (ps_entries p')" for x
    using x st(1,2) st(4) [OF x] ok t box by (auto simp: install_ok_def)
  moreover have "x = y" if "x \<in> set (?es @ [e])" "y \<in> set (?es @ [e])" "entry_box x \<noteq> None \<and> entry_box x = entry_box y" for x y
  proof (cases "x = e \<or> y = e")
    case True
    from that(3) obtain a where a: "entry_box x = Some a" "entry_box y = Some a" by (metis not_None_eq)
    with True have "entry_box e = Some a" by auto
    with a that(1,2) box [of a] show ?thesis by auto
  next
    case False
    with that(1,2) have "x \<in> set (ps_entries p)" "y \<in> set (ps_entries p)" by auto
    with ok that(3) show ?thesis unfolding install_ok_def by metis
  qed
  ultimately have "install_ok p'" unfolding install_ok_def st(1) by metis
  with st(3) create_entry_registered [OF ok fresh run t] show ?thesis by blast
qed

text \<open>\<open>declares x\<close>: the slot that \<open>x\<close> declares and what it is to lead to.\<close>

locale registrar =
  fixes reg :: "'a \<Rightarrow> ('g, 'w, 'c, int) install_op" and declares :: "'a \<Rightarrow> slot \<times> target"
  assumes reg_keeps: "install_ok p \<Longrightarrow> reg x p = (rc, p') \<Longrightarrow> install_ok p' \<and> same_host p p'"
    and reg_accepted: "install_ok p \<Longrightarrow> reg x p = (SQLITE_OK, p') \<Longrightarrow> registered p' = (registered p)(fst (declares x) \<mapsto> snd (declares x))"
    and reg_refused: "install_ok p \<Longrightarrow> reg x p = (rc, p') \<Longrightarrow> rc \<noteq> SQLITE_OK \<Longrightarrow> registered p' = registered p"
begin

lemma count_registered_exact:
  assumes "install_ok p" "count_registered reg xs n p = (k, p')"
  shows "install_ok p' \<and> same_host p p' \<and> (\<exists>ys. subseq ys xs \<and> registered p' = registered p ++ map_of (rev (map declares ys)) \<and>
    k = n + word_of_nat (length ys) \<and> ((\<forall>x\<in>set xs. \<forall>q. fst (reg x q) = SQLITE_OK) \<longrightarrow> ys = xs))"
  using assms
proof (induction xs arbitrary: n p)
  case Nil
  then show ?case by (auto simp: same_host_refl)
next
  case (Cons x xs)
  obtain rc p1 where r: "reg x p = (rc, p1)" by fastforce
  let ?n = "if rc = SQLITE_OK then n + 1 else n"
  have p1: "install_ok p1" "same_host p p1" using reg_keeps [OF Cons.prems(1) r] by auto
  from Cons.prems(2) r have c: "count_registered reg xs ?n p1 = (k, p')" by simp
  from Cons.IH [OF p1(1) c] obtain ys where ih: "install_ok p'" "same_host p1 p'" "subseq ys xs"
    "registered p' = registered p1 ++ map_of (rev (map declares ys))" "k = ?n + word_of_nat (length ys)"
    "(\<forall>x\<in>set xs. \<forall>q. fst (reg x q) = SQLITE_OK) \<longrightarrow> ys = xs" by blast
  have i: "same_host p p'" using p1(2) ih(2) by (rule same_host_trans)
  show ?case
  proof (cases "rc = SQLITE_OK")
    case True
    with reg_accepted [OF Cons.prems(1)] r have "registered p1 = (registered p)(fst (declares x) \<mapsto> snd (declares x))" by blast
    then have "registered p' = registered p ++ map_of (rev (map declares (x # ys)))"
      using ih(4) by (cases "declares x") simp
    then have "subseq (x # ys) (x # xs) \<and> registered p' = registered p ++ map_of (rev (map declares (x # ys))) \<and>
      k = n + word_of_nat (length (x # ys)) \<and> ((\<forall>y\<in>set (x # xs). \<forall>q. fst (reg y q) = SQLITE_OK) \<longrightarrow> x # ys = x # xs)"
      using ih True by (simp add: algebra_simps)
    with ih(1) i show ?thesis by blast
  next
    case False
    with r have "fst (reg x p) \<noteq> SQLITE_OK" by simp
    then have "subseq ys (x # xs) \<and> registered p' = registered p ++ map_of (rev (map declares ys)) \<and>
      k = n + word_of_nat (length ys) \<and> ((\<forall>y\<in>set (x # xs). \<forall>q. fst (reg y q) = SQLITE_OK) \<longrightarrow> ys = x # xs)"
      using reg_refused [OF Cons.prems(1) r False] ih False by auto
    with ih(1) i show ?thesis by blast
  qed
qed

end

section \<open>The three registrations\<close>

definition scalar_declares :: "string \<Rightarrow> u64 \<times> string \<times> i32 \<Rightarrow> slot \<times> target" where
  "scalar_declares ext = (\<lambda>(i, name, k). (FunctionSlot (to_ascii_lowercase name) k, ScalarTarget ext i (SQLITE_UTF8 + SQLITE_DETERMINISTIC)))"

definition agg_declares :: "string \<Rightarrow> u64 \<times> string \<times> i32 \<times> bool \<Rightarrow> slot \<times> target" where
  "agg_declares ext = (\<lambda>(i, name, k, w). (FunctionSlot (to_ascii_lowercase name) k, AggTarget ext i w))"

definition vtab_declares :: "string \<Rightarrow> vtab_spec_e \<Rightarrow> slot \<times> target" where
  "vtab_declares ext v = (ModuleSlot (to_ascii_lowercase (vs_name v)), ModuleTarget (loader_module_of (vs_eponymous v) (vs_mutable v))
     \<lparr>ma_ext_name = ext, ma_vtab_id = vs_id v, ma_eponymous = vs_eponymous v, ma_batched = vs_batched v\<rparr>)"

lemma sqlite_codes [simp]: "SQLITE_MISUSE \<noteq> SQLITE_OK" "SQLITE_ERROR \<noteq> SQLITE_OK"
  by (simp_all add: SQLITE_MISUSE_def SQLITE_OK_def SQLITE_ERROR_def)

text \<open>A box that was just made is no one's; freeing it gives the registrations back as they were.\<close>

lemma no_new_box: "install_ok p \<Longrightarrow> x \<in> set (ps_entries p) \<Longrightarrow> entry_box x \<noteq> Some (ps_next_box p)"
  by (auto simp: install_ok_def)

lemma boxed_scalar:
  assumes "install_ok p" "box_scalar c p = (a, p1)"
  shows "install_ok p1" "registered p1 = registered p" "same_host p p1" "ps_entries p1 = ps_entries p" "ls_scalars (ps_state p1) a = Some c"
    "a = ps_next_box p" "a < ps_next_box p1"
proof -
  have p1: "a = ps_next_box p" "ps_entries p1 = ps_entries p" "ps_next_box p1 = Suc a"
    "ps_state p1 = (ps_state p)\<lparr>ls_scalars := (ls_scalars (ps_state p))(a \<mapsto> c)\<rparr>" using assms(2) by (auto simp: box_scalar_def Let_def)
  have e: "target_of (ps_state p1) e = target_of (ps_state p) e" if "e \<in> set (ps_entries p)" for e
    using no_new_box [OF assms(1) that] by (cases e) (simp_all add: p1)
  show "install_ok p1" by (rule install_ok_cong [OF assms(1) p1(2) _ e]) (simp_all add: p1)
  show "registered p1 = registered p" by (rule registered_cong [OF p1(2) e])
qed (use assms(2) in \<open>auto simp: box_scalar_def Let_def same_host_def\<close>)

lemma boxed_agg:
  assumes "install_ok p" "box_agg c p = (a, p1)"
  shows "install_ok p1" "registered p1 = registered p" "same_host p p1" "ps_entries p1 = ps_entries p" "ls_aggs (ps_state p1) a = Some c"
    "a = ps_next_box p" "a < ps_next_box p1"
proof -
  have p1: "a = ps_next_box p" "ps_entries p1 = ps_entries p" "ps_next_box p1 = Suc a"
    "ps_state p1 = (ps_state p)\<lparr>ls_aggs := (ls_aggs (ps_state p))(a \<mapsto> c)\<rparr>" using assms(2) by (auto simp: box_agg_def Let_def)
  have e: "target_of (ps_state p1) e = target_of (ps_state p) e" if "e \<in> set (ps_entries p)" for e
    using no_new_box [OF assms(1) that] by (cases e) (simp_all add: p1)
  show "install_ok p1" by (rule install_ok_cong [OF assms(1) p1(2) _ e]) (simp_all add: p1)
  show "registered p1 = registered p" by (rule registered_cong [OF p1(2) e])
qed (use assms(2) in \<open>auto simp: box_agg_def Let_def same_host_def\<close>)

lemma destroyed:
  assumes "install_ok p" "\<And>x. x \<in> set (ps_entries p) \<Longrightarrow> entry_box x \<noteq> entry_box e"
  shows "install_ok (drop_entry e p) \<and> same_host p (drop_entry e p) \<and> registered (drop_entry e p) = registered p"
proof -
  have t: "target_of (ps_state (drop_entry e p)) x = target_of (ps_state p) x" if "x \<in> set (ps_entries p)" for x
    using assms(2) [OF that] by (intro target_of_dropped) blast
  have "install_ok (drop_entry e p)" by (rule install_ok_cong [OF assms(1) _ _ t]) simp_all
  moreover have "registered (drop_entry e p) = registered p" by (rule registered_cong [OF _ t]) simp_all
  ultimately show ?thesis by simp
qed

lemma create_entry_cases:
  assumes "create_entry I e d p = (rc, p')"
  obtains "rc = SQLITE_OK" "create_entry I e d p = (SQLITE_OK, p')" | "rc \<noteq> SQLITE_OK" "p' = d p"
  using assms by (auto simp: create_entry_def Let_def split: if_splits)

text \<open>What registering a function amounts to, whichever kind it is.\<close>

lemma function_registered:
  assumes ok: "install_ok p1" and same: "registered p1 = registered p" "same_host p p1"
    and box: "entry_box e = Some a" "a < ps_next_box p1" "\<And>x. x \<in> set (ps_entries p1) \<Longrightarrow> entry_box x \<noteq> Some a"
    and t: "target_of (ps_state p1) e = Some t"
    and run: "(if CHR 0x00 \<in> set name then (SQLITE_MISUSE, drop_entry e p1) else create_entry I e (drop_entry e) p1) = (rc, p')"
  shows "install_ok p' \<and> same_host p p' \<and>
    registered p' = (if rc = SQLITE_OK then (registered p)(entry_slot e \<mapsto> t) else registered p)"
proof -
  have d: "install_ok (drop_entry e p1) \<and> same_host p1 (drop_entry e p1) \<and> registered (drop_entry e p1) = registered p1"
    by (rule destroyed [OF ok]) (use box in auto)
  show ?thesis
  proof (cases "CHR 0x00 \<in> set name")
    case True
    with run have "rc \<noteq> SQLITE_OK" "p' = drop_entry e p1" by auto
    with d same same_host_trans [OF same(2)] show ?thesis by auto
  next
    case False
    with run have "create_entry I e (drop_entry e) p1 = (rc, p')" by simp
    then show ?thesis
    proof (cases rule: create_entry_cases)
      case 1
      from create_entry_accepted [OF ok t _ 1(2)] box have "install_ok p'" "same_host p1 p'" "registered p' = (registered p1)(entry_slot e \<mapsto> t)"
        by fastforce+
      with 1(1) same same_host_trans [OF same(2)] show ?thesis by simp
    next
      case 2
      with d same same_host_trans [OF same(2)] show ?thesis by auto
    qed
  qed
qed

lemma register_scalar_laws:
  assumes "install_ok p" "register_scalar I ext x p = (rc, p')"
  shows "install_ok p' \<and> same_host p p' \<and>
    registered p' = (if rc = SQLITE_OK then (registered p)(fst (scalar_declares ext x) \<mapsto> snd (scalar_declares ext x)) else registered p)"
proof -
  obtain i name k where x: "x = (i, name, k)" by (metis prod_cases3)
  obtain a p1 where b: "box_scalar \<lparr>sc_ext_name = ext, sc_func_id = i\<rparr> p = (a, p1)" by fastforce
  let ?e = "ScalarEntry name k (SQLITE_UTF8 + SQLITE_DETERMINISTIC) a"
  note boxed = boxed_scalar [OF assms(1) b]
  have run: "(if CHR 0x00 \<in> set name then (SQLITE_MISUSE, drop_entry ?e p1) else create_entry I ?e (drop_entry ?e) p1) = (rc, p')"
    using assms(2) by (simp only: register_scalar_def x b prod.case drop_entry_box)
  have "entry_box y \<noteq> Some a" if "y \<in> set (ps_entries p1)" for y using no_new_box [OF assms(1)] that boxed(4,6) by simp
  from function_registered [OF boxed(1-3) _ boxed(7) this _ run, where t = "ScalarTarget ext i (SQLITE_UTF8 + SQLITE_DETERMINISTIC)"] boxed(5)
  show ?thesis by (simp add: x scalar_declares_def)
qed

lemma register_aggregate_laws:
  assumes "install_ok p" "register_aggregate I ext x p = (rc, p')"
  shows "install_ok p' \<and> same_host p p' \<and>
    registered p' = (if rc = SQLITE_OK then (registered p)(fst (agg_declares ext x) \<mapsto> snd (agg_declares ext x)) else registered p)"
proof -
  obtain i name k w where x: "x = (i, name, k, w)" by (metis prod_cases4)
  obtain a p1 where b: "box_agg \<lparr>ac_ext_name = ext, ac_func_id = i, ac_next_id = 1\<rparr> p = (a, p1)" by fastforce
  let ?e = "AggEntry name k SQLITE_UTF8 a w"
  note boxed = boxed_agg [OF assms(1) b]
  have run: "(if CHR 0x00 \<in> set name then (SQLITE_MISUSE, drop_entry ?e p1) else create_entry I ?e (drop_entry ?e) p1) = (rc, p')"
    using assms(2) by (simp only: register_aggregate_def x b prod.case drop_entry_box)
  have "entry_box y \<noteq> Some a" if "y \<in> set (ps_entries p1)" for y using no_new_box [OF assms(1)] that boxed(4,6) by simp
  from function_registered [OF boxed(1-3) _ boxed(7) this _ run, where t = "AggTarget ext i w"] boxed(5)
  show ?thesis by (simp add: x agg_declares_def)
qed

lemma register_vtab_laws:
  assumes "install_ok p" "register_loader_vtab I ext x p = (rc, p')"
  shows "install_ok p' \<and> same_host p p' \<and>
    registered p' = (if rc = SQLITE_OK then (registered p)(fst (vtab_declares ext x) \<mapsto> snd (vtab_declares ext x)) else registered p)"
proof -
  let ?p1 = "p\<lparr>ps_vtab_globals := True\<rparr>"
  let ?e = "ModuleEntry (vs_name x) (loader_module_of (vs_eponymous x) (vs_mutable x))
    \<lparr>ma_ext_name = ext, ma_vtab_id = vs_id x, ma_eponymous = vs_eponymous x, ma_batched = vs_batched x\<rparr>"
  have "install_ok ?p1" by (rule install_ok_cong [OF assms(1)]) simp_all
  then have p1: "install_ok ?p1" "registered ?p1 = registered p" "same_host p ?p1"
    by (simp_all add: registered_def same_host_def fun_eq_iff)
  show ?thesis
  proof (cases "CHR 0x00 \<in> set (vs_name x) \<or> \<not> li_has_modules I")
    case True
    with assms(2) have "rc \<noteq> SQLITE_OK" "p' = ?p1" by (auto simp: register_loader_vtab_def Let_def split: if_splits)
    with p1 show ?thesis by simp
  next
    case False
    with assms(2) have "create_entry I ?e id ?p1 = (rc, p')" by (simp add: register_loader_vtab_def Let_def)
    then show ?thesis
    proof (cases rule: create_entry_cases)
      case 1
      from create_entry_accepted [OF p1(1) _ _ 1(2)] have "install_ok p'" "same_host ?p1 p'"
        "registered p' = (registered ?p1)(fst (vtab_declares ext x) \<mapsto> snd (vtab_declares ext x))" by (auto simp: vtab_declares_def)
      with 1(1) p1 same_host_trans [OF p1(3)] show ?thesis by simp
    next
      case 2
      with p1 show ?thesis by simp
    qed
  qed
qed

interpretation scalars: registrar "register_scalar I ext" "scalar_declares ext" for I :: "('g, 'w, 'c, 'p) install_env" and ext
  by unfold_locales (use register_scalar_laws in \<open>fastforce split: if_splits\<close>)+

interpretation aggs: registrar "register_aggregate I ext" "agg_declares ext" for I :: "('g, 'w, 'c, 'p) install_env" and ext
  by unfold_locales (use register_aggregate_laws in \<open>fastforce split: if_splits\<close>)+

interpretation vtabs: registrar "register_loader_vtab I ext" "vtab_declares ext" for I :: "('g, 'w, 'c, 'p) install_env" and ext
  by unfold_locales (use register_vtab_laws in \<open>fastforce split: if_splits\<close>)+

section \<open>Properties\<close>

text \<open>A registration that SQLite accepts whenever it is asked is refused only for a NUL in the name, or a SQLite without modules.\<close>

definition names_ok :: "wit_manifest \<Rightarrow> bool" where
  "names_ok m \<longleftrightarrow> (\<forall>(i, name, k)\<in>set (w_scalar_functions m). CHR 0x00 \<notin> set name) \<and>
     (\<forall>(i, name, k, w)\<in>set (w_aggregate_functions m). CHR 0x00 \<notin> set name) \<and> (\<forall>v\<in>set (w_vtabs m). CHR 0x00 \<notin> set (vs_name v))"

lemma create_accepts: "\<forall>e es. li_create I e es = SQLITE_OK \<Longrightarrow> fst (create_entry I e d p) = SQLITE_OK"
  by (simp add: create_entry_def Let_def)

lemma registers_all:
  assumes "\<forall>e es. li_create I e es = SQLITE_OK" "li_has_modules I" "names_ok m"
  shows "\<forall>x\<in>set (w_scalar_functions m). \<forall>q. fst (register_scalar I ext x q) = SQLITE_OK"
    "\<forall>x\<in>set (w_aggregate_functions m). \<forall>q. fst (register_aggregate I ext x q) = SQLITE_OK"
    "\<forall>x\<in>set (w_vtabs m). \<forall>q. fst (register_loader_vtab I ext x q) = SQLITE_OK"
  using assms(2,3) create_accepts [OF assms(1)]
  by (fastforce simp: names_ok_def register_scalar_def box_scalar_def Let_def)
    (use assms(2,3) create_accepts [OF assms(1)] in \<open>fastforce simp: names_ok_def register_aggregate_def box_agg_def Let_def\<close>,
     use assms(2,3) create_accepts [OF assms(1)] in \<open>fastforce simp: names_ok_def register_loader_vtab_def Let_def\<close>)

text \<open>The declarations of a load, in the order in which they are registered.\<close>

definition declarations :: "string \<Rightarrow> (u64 \<times> string \<times> i32) list \<Rightarrow> (u64 \<times> string \<times> i32 \<times> bool) list \<Rightarrow> vtab_spec_e list \<Rightarrow> (slot \<times> target) list" where
  "declarations ext fs gs vs = map (scalar_declares ext) fs @ map (agg_declares ext) gs @ map (vtab_declares ext) vs"

lemma install_manifest_exact:
  assumes "install_ok p" "install_manifest I ext m p = (counts, p')"
  shows "install_ok p' \<and> same_host p p' \<and> (\<exists>fs gs vs.
    subseq fs (w_scalar_functions m) \<and> subseq gs (w_aggregate_functions m) \<and> subseq vs (w_vtabs m) \<and>
    registered p' = registered p ++ map_of (rev (declarations ext fs gs vs)) \<and>
    n_scalar counts = word_of_nat (length fs) \<and> n_aggregate counts = word_of_nat (length gs) \<and> n_vtab counts = word_of_nat (length vs) \<and>
    ((\<forall>e es. li_create I e es = SQLITE_OK) \<and> li_has_modules I \<and> names_ok m \<longrightarrow>
       fs = w_scalar_functions m \<and> gs = w_aggregate_functions m \<and> vs = w_vtabs m))"
proof -
  obtain ns p1 where c1: "count_registered (register_scalar I ext) (w_scalar_functions m) 0 p = (ns, p1)" by fastforce
  obtain na p2 where c2: "count_registered (register_aggregate I ext) (w_aggregate_functions m) 0 p1 = (na, p2)" by fastforce
  obtain nv p3 where c3: "count_registered (register_loader_vtab I ext) (w_vtabs m) 0 p2 = (nv, p3)" by fastforce
  from scalars.count_registered_exact [OF assms(1) c1] obtain fs where s: "install_ok p1" "same_host p p1" "subseq fs (w_scalar_functions m)"
    "registered p1 = registered p ++ map_of (rev (map (scalar_declares ext) fs))" "ns = word_of_nat (length fs)"
    "(\<forall>x\<in>set (w_scalar_functions m). \<forall>q. fst (register_scalar I ext x q) = SQLITE_OK) \<longrightarrow> fs = w_scalar_functions m" by auto
  from aggs.count_registered_exact [OF s(1) c2] obtain gs where a: "install_ok p2" "same_host p1 p2" "subseq gs (w_aggregate_functions m)"
    "registered p2 = registered p1 ++ map_of (rev (map (agg_declares ext) gs))" "na = word_of_nat (length gs)"
    "(\<forall>x\<in>set (w_aggregate_functions m). \<forall>q. fst (register_aggregate I ext x q) = SQLITE_OK) \<longrightarrow> gs = w_aggregate_functions m" by auto
  from vtabs.count_registered_exact [OF a(1) c3] obtain vs where v: "install_ok p3" "same_host p2 p3" "subseq vs (w_vtabs m)"
    "registered p3 = registered p2 ++ map_of (rev (map (vtab_declares ext) vs))" "nv = word_of_nat (length vs)"
    "(\<forall>x\<in>set (w_vtabs m). \<forall>q. fst (register_loader_vtab I ext x q) = SQLITE_OK) \<longrightarrow> vs = w_vtabs m" by auto
  have p3: "p' = p3" "n_scalar counts = ns" "n_aggregate counts = na" "n_vtab counts = nv"
    using assms(2) by (auto simp: install_manifest_def c1 c2 c3)
  have "registered p' = registered p ++ map_of (rev (declarations ext fs gs vs))"
    using s(4) a(4) v(4) p3(1) by (simp add: declarations_def)
  moreover have "fs = w_scalar_functions m \<and> gs = w_aggregate_functions m \<and> vs = w_vtabs m"
    if "(\<forall>e es. li_create I e es = SQLITE_OK) \<and> li_has_modules I \<and> names_ok m"
    using s(6) a(6) v(6) registers_all [of I m ext] that by blast
  moreover have "same_host p p'" using s(2) a(2) v(2) p3(1) by (blast intro: same_host_trans)
  ultimately show ?thesis using s(3,5) a(3,5) v(1,3,5) p3 by blast
qed

text \<open>C22. Loading through the loadable extension installs what the loaded extension declares and nothing else. A successful load
  loaded one extension, from the path the hint resolves to and with the grants of the policy, and installed that extension's
  manifest: every function, aggregate and virtual table of it that SQLite accepted can afterwards be called under the declared
  name and number of arguments and leads to that extension with the declared id, a later declaration replacing an earlier one of
  the same name and arity; what was registered before under other names or arities leads where it led; the reported counts
  are those of the accepted declarations; and if SQLite accepts every registration and no name holds a NUL, these are all that
  the manifest declares. No registration is left with a freed box: a reloaded extension's old registrations are replaced.\<close>

theorem load_installs_manifest:
  assumes "install_ok p" "load_and_install I hint policy p = Some (Inr counts, p')"
  shows "install_ok p' \<and> (\<exists>path ext h m fs gs vs.
    install_path (li_env I) hint = Inr path \<and>
    load_extension (li_env I) (li_grants I policy) path (ls_host (ps_state p)) = Some (Inr ext, h) \<and> ls_host (ps_state p') = h \<and>
    provider_backed_bindings_manifest (li_spi I) ext h = Some m \<and>
    subseq fs (w_scalar_functions m) \<and> subseq gs (w_aggregate_functions m) \<and> subseq vs (w_vtabs m) \<and>
    (\<forall>slot. registered p' slot =
       (case map_of (rev (declarations ext fs gs vs)) slot of Some target \<Rightarrow> Some target | None \<Rightarrow> registered p slot)) \<and>
    n_scalar counts = word_of_nat (length fs) \<and> n_aggregate counts = word_of_nat (length gs) \<and> n_vtab counts = word_of_nat (length vs) \<and>
    ((\<forall>e es. li_create I e es = SQLITE_OK) \<and> li_has_modules I \<and> names_ok m \<longrightarrow>
       fs = w_scalar_functions m \<and> gs = w_aggregate_functions m \<and> vs = w_vtabs m))"
proof -
  obtain path ext m h where l: "install_path (li_env I) hint = Inr path"
    "load_extension (li_env I) (li_grants I policy) path (ls_host (ps_state p)) = Some (Inr ext, h)"
    "provider_backed_bindings_manifest (li_spi I) ext h = Some m"
    and i: "install_manifest I ext m (with_host h p) = (counts, p')"
    using assms(2) by (auto simp: load_and_install_def split: sum.splits option.splits prod.splits)
  have t: "target_of (ps_state (with_host h p)) e = target_of (ps_state p) e" for e by (cases e) (simp_all add: with_host_def)
  have ok: "install_ok (with_host h p)" by (rule install_ok_cong [OF assms(1) _ _ t]) (simp_all add: with_host_def)
  have reg: "registered (with_host h p) = registered p" by (rule registered_cong [OF _ t]) (simp add: with_host_def)
  from install_manifest_exact [OF ok i] obtain fs gs vs where new: "install_ok p'" "same_host (with_host h p) p'"
    "subseq fs (w_scalar_functions m)" "subseq gs (w_aggregate_functions m)" "subseq vs (w_vtabs m)"
    "registered p' = registered p ++ map_of (rev (declarations ext fs gs vs))"
    "n_scalar counts = word_of_nat (length fs)" "n_aggregate counts = word_of_nat (length gs)" "n_vtab counts = word_of_nat (length vs)"
    "(\<forall>e es. li_create I e es = SQLITE_OK) \<and> li_has_modules I \<and> names_ok m \<longrightarrow>
       fs = w_scalar_functions m \<and> gs = w_aggregate_functions m \<and> vs = w_vtabs m" unfolding reg by blast
  have "ls_host (ps_state p') = h" using new(2) by (simp add: same_host_def with_host_def)
  moreover have "registered p' slot = (case map_of (rev (declarations ext fs gs vs)) slot of Some target \<Rightarrow> Some target | None \<Rightarrow> registered p slot)" for slot
    by (simp add: new(6) map_add_def)
  ultimately show ?thesis using l new by blast
qed

definition fresh_process :: "(nat, nat, bytes) process_state" where
  "fresh_process = \<lparr>ps_state = \<lparr>ls_host = toy_host, ls_api = True, ls_scalars = Map.empty, ls_aggs = Map.empty, ls_bufs = Map.empty\<rparr>,
     ps_live = True, ps_runtime = True, ps_vtab_globals = False, ps_next_box = 0, ps_entries = []\<rparr>"

definition accepting_env :: "(nat, nat, bytes, capability list \<times> http_policy option \<times> dns_policy option) install_env" where
  "accepting_env = \<lparr>li_env = uuid_env, li_policy = trace_api, li_grants = (\<lambda>_. no_grants True), li_spi = None, li_create = (\<lambda>_ _. SQLITE_OK),
     li_has_modules = True, li_new_host = Inr toy_host, li_runtime = Inr (), li_show = (\<lambda>_. ''failed'')\<rparr>"

lemma accepting_load:
  "\<exists>h' m counts p'. load_extension uuid_env (no_grants True) ''b.wasm'' toy_host = Some (Inr ''uuid'', h') \<and>
     provider_backed_bindings_manifest None ''uuid'' h' = Some m \<and>
     load_and_install accepting_env ''b.wasm'' ([], None, None) fresh_process = Some (Inr counts, p')"
proof -
  from toy_load [OF _ uuid_manifest, of "\<lambda>_ _ w. (Inr [1], Suc w)" Suc "no_grants True" toy_host] obtain h' where
    l: "load_extension uuid_env (no_grants True) ''b.wasm'' toy_host = Some (Inr ''uuid'', h')" "is_loaded ''uuid'' h'"
    by (auto simp: uuid_name)
  have "sub_ids_apart uuid_env" "host_inv toy_host" by (simp_all add: sub_ids_apart_def host_inv_def toy_host_def)
  then have "host_inv h'" using l(1) by (rule host_inv_load)
  with l(2) have "map_of (eh_manifests h') ''uuid'' \<noteq> None" by (auto simp: is_loaded_def host_inv_def backing_ok_def)
  then obtain m where m: "provider_backed_bindings_manifest None ''uuid'' h' = Some m"
    by (auto simp: provider_backed_bindings_manifest_def)
  have "install_path uuid_env ''b.wasm'' = Inr ''b.wasm''" by (simp add: install_path_def resolve_extension_path_def)
  moreover obtain counts p' where "install_manifest accepting_env ''uuid'' m (with_host h' fresh_process) = (counts, p')" by fastforce
  moreover have "li_env accepting_env = uuid_env" "li_grants accepting_env pol = no_grants True" "li_spi accepting_env = None"
    "ls_host (ps_state fresh_process) = toy_host" for pol by (simp_all add: accepting_env_def fresh_process_def)
  ultimately have "load_and_install accepting_env ''b.wasm'' ([], None, None) fresh_process = Some (Inr counts, p')"
    using l(1) m by (simp add: load_and_install_def)
  with l(1) m show ?thesis by blast
qed

theorem load_installs_manifest_witness:
  "\<exists>counts p' m fs gs vs. load_and_install accepting_env ''b.wasm'' ([], None, None) fresh_process = Some (Inr counts, p') \<and>
     provider_backed_bindings_manifest None ''uuid'' (ls_host (ps_state p')) = Some m \<and> subseq fs (w_scalar_functions m) \<and> registered p' = map_of (rev (declarations ''uuid'' fs gs vs)) \<and>
     n_scalar counts = word_of_nat (length fs)"
proof -
  obtain h' m counts p' where l: "load_extension uuid_env (no_grants True) ''b.wasm'' toy_host = Some (Inr ''uuid'', h')"
    "provider_backed_bindings_manifest None ''uuid'' h' = Some m"
    and run: "load_and_install accepting_env ''b.wasm'' ([], None, None) fresh_process = Some (Inr counts, p')" using accepting_load by blast
  have ok: "install_ok fresh_process" and none: "registered fresh_process slot = None" for slot
    by (simp_all add: install_ok_def fresh_process_def registered_def)
  have env: "li_env accepting_env = uuid_env" "li_grants accepting_env pol = no_grants True" "install_path uuid_env ''b.wasm'' = Inr ''b.wasm''"
    "ls_host (ps_state fresh_process) = toy_host" for pol
    by (simp_all add: accepting_env_def fresh_process_def install_path_def resolve_extension_path_def)
  from load_installs_manifest [OF ok run, unfolded env none] obtain path ext h n fs gs vs where
    e: "Inr ''b.wasm'' = (Inr path :: install_error + string)" "load_extension uuid_env (no_grants True) path toy_host = Some (Inr ext, h)"
    "ls_host (ps_state p') = h" "provider_backed_bindings_manifest (li_spi accepting_env) ext h = Some n" "subseq fs (w_scalar_functions n)"
    and r: "\<forall>slot. registered p' slot = (case map_of (rev (declarations ext fs gs vs)) slot of Some target \<Rightarrow> Some target | None \<Rightarrow> None)"
    and c: "n_scalar counts = word_of_nat (length fs)" by blast
  from e(1,2) l(1) have "ext = ''uuid''" by simp
  moreover have "li_spi accepting_env = None" by (simp add: accepting_env_def)
  ultimately have "provider_backed_bindings_manifest None ''uuid'' (ls_host (ps_state p')) = Some n" using e(3,4) by simp
  moreover have "registered p' = map_of (rev (declarations ''uuid'' fs gs vs))" using r \<open>ext = ''uuid''\<close> by (auto simp: fun_eq_iff split: option.splits)
  moreover note e(5) c run
  ultimately show ?thesis by blast
qed

section \<open>What the environment grants\<close>

lemma extra_caps_named: "set (extra_caps es) = {cap. \<exists>e\<in>set es. trim e \<noteq> [] \<and> parse_capability (trim e) = Some cap}"
  by (induction es) (auto split: option.splits)

text \<open>An extension that is loaded through the environment or from SQL gets the baseline, which reaches no network, no storage and no build,
  and in addition exactly what the variable names.\<close>

theorem environment_grants_named:
  assumes "env_compat vars ''SQLINK_EXTENSION_CAPS'' ''SQLINK_LOADER_EXT_CAPS'' = Some raw" "utf8_valid raw"
  shows "\<exists>extra. set extra = {cap. \<exists>e\<in>set (split_on (CHR '','') raw). trim e \<noteq> [] \<and> parse_capability (trim e) = Some cap} \<and>
    (extra = [] \<longrightarrow> policy_from_env P vars = default_policy P) \<and>
    (extra \<noteq> [] \<and> Http \<notin> set extra \<and> Dns \<notin> set extra \<longrightarrow> policy_from_env P vars = with_grants P (default_policy P) extra)"
  using extra_caps_named [of "split_on (CHR '','') raw"] assms by (auto simp: policy_from_env_def Let_def)

theorem default_grants_closed: "set default_grants \<inter> {Http, Dns, WalFrames, S3, SpawnBuild, Bundles} = {}"
  by (simp add: default_grants_def)

end
