(* ===== verification/Cas_Resolver.thy ===== *)
theory Cas_Resolver
  imports Cas_Store
begin

text \<open>
  Artifact resolution: \<^verbatim>\<open>sqlite-cas-cache/src/resolver.rs\<close> (sources, artifact references, the
  ordered resolver registry, the two built-in resolvers) and \<open>fetch_artifact\<close> of
  \<^verbatim>\<open>store.rs\<close>. The file system and the HTTP client are parameters of the built-in
  resolvers; a resolver answers a source with an error message or with bytes.
\<close>

section \<open>Sources and references\<close>

datatype source =
    LocalFile string
  | Blake3 bytes
  | Https string
  | Custom string bytes

fun kind :: "source \<Rightarrow> string" where
  "kind (LocalFile path) = ''local''"
| "kind (Blake3 hash) = ''blake3''"
| "kind (Https url) = ''https''"
| "kind (Custom k payload) = k"

record artifact_ref =
  ref_uri :: "string option"
  ref_expected_hash :: "bytes option"
  ref_sources :: "source list"

definition from_source :: "source \<Rightarrow> artifact_ref" where
  "from_source s = \<lparr>ref_uri = None, ref_expected_hash = None, ref_sources = [s]\<rparr>"

definition with_uri :: "artifact_ref \<Rightarrow> string \<Rightarrow> artifact_ref" where
  "with_uri a u = a\<lparr>ref_uri := Some u\<rparr>"

definition with_expected_hash :: "artifact_ref \<Rightarrow> bytes \<Rightarrow> artifact_ref" where
  "with_expected_hash a h = a\<lparr>ref_expected_hash := Some h\<rparr>"

definition add_source :: "artifact_ref \<Rightarrow> source \<Rightarrow> artifact_ref" where
  "add_source a s = a\<lparr>ref_sources := ref_sources a @ [s]\<rparr>"

section \<open>Resolvers\<close>

text \<open>The trait \<open>ArtifactResolver\<close>: the kinds it claims and its answer to a source.\<close>

record resolver =
  supported_kinds :: "string list"
  resolve :: "source \<Rightarrow> string + bytes"

type_synonym registry = "resolver list"

definition new_registry :: registry where
  "new_registry = []"

definition register :: "registry \<Rightarrow> resolver \<Rightarrow> registry" where
  "register reg r = reg @ [r]"

fun find_resolver :: "registry \<Rightarrow> string \<Rightarrow> resolver option" where
  "find_resolver [] k = None"
| "find_resolver (r # rs) k = (if k \<in> set (supported_kinds r) then Some r else find_resolver rs k)"

text \<open>\<open>fs\<close> is \<open>std::fs::read\<close>; \<open>http\<close> is the client's GET: no response, or a status code and
  the outcome of reading the body.\<close>

definition local_file_resolver :: "(string \<Rightarrow> string + bytes) \<Rightarrow> resolver" where
  "local_file_resolver fs = \<lparr>supported_kinds = [''local''], resolve = (\<lambda>s. case s of
       LocalFile path \<Rightarrow> (case fs path of Inl e \<Rightarrow> Inl (''read local file '' @ path @ '': '' @ e) | Inr b \<Rightarrow> Inr b)
     | _ \<Rightarrow> Inl ''LocalFileResolver: wrong source kind'')\<rparr>"

definition is_success :: "nat \<Rightarrow> bool" where
  "is_success status \<longleftrightarrow> 200 \<le> status \<and> status < 300"

definition https_resolver :: "(string \<Rightarrow> string + nat \<times> (string + bytes)) \<Rightarrow> resolver" where
  "https_resolver http = \<lparr>supported_kinds = [''https''], resolve = (\<lambda>s. case s of
       Https url \<Rightarrow> (case http url of
           Inl e \<Rightarrow> Inl (''https GET '' @ url @ '': '' @ e)
         | Inr (status, body) \<Rightarrow>
             if \<not> is_success status then Inl (''https GET '' @ url @ '': status'')
             else (case body of Inl e \<Rightarrow> Inl (''read https body '' @ url @ '': '' @ e) | Inr b \<Rightarrow> Inr b))
     | _ \<Rightarrow> Inl ''HttpsResolver: wrong source kind'')\<rparr>"

text \<open>The feature \<open>https\<close> decides whether the HTTPS resolver is part of the built-ins.\<close>

definition with_builtins :: "bool \<Rightarrow> (string \<Rightarrow> string + bytes) \<Rightarrow>
    (string \<Rightarrow> string + nat \<times> (string + bytes)) \<Rightarrow> registry" where
  "with_builtins https fs http =
     (let r = register new_registry (local_file_resolver fs) in
      if https then register r (https_resolver http) else r)"

section \<open>fetch\_artifact\<close>

text \<open>One source: only the store lookup of a \<open>Blake3\<close> source aborts the whole fetch on an engine
  error; everything else becomes the outcome of this attempt.\<close>

definition fetch_source :: "hashers \<Rightarrow> registry \<Rightarrow> bytes option \<Rightarrow> source \<Rightarrow> (cas_error + bytes \<times> bytes) cas_op" where
  "fetch_source H reg expected s =
     (case s of
        Blake3 h \<Rightarrow> bnd (get h) (\<lambda>found.
          case found of Some b \<Rightarrow> ret (Inr (h, b)) | None \<Rightarrow> ret (Inl (Blake3Miss h)))
      | _ \<Rightarrow>
          (case find_resolver reg (kind s) of
             None \<Rightarrow> ret (Inl (NoResolver (kind s)))
           | Some r \<Rightarrow>
               (case resolve r s of
                  Inl e \<Rightarrow> ret (Inl (ResolverFailed e))
                | Inr b \<Rightarrow>
                    if expected \<noteq> None \<and> expected \<noteq> Some (blake3 H b)
                    then ret (Inl (HashMismatch (the expected) (blake3 H b)))
                    else as_result (bnd (put H b) (\<lambda>h. ret (h, b))))))"

definition bind_opt :: "string option \<Rightarrow> bytes \<Rightarrow> unit cas_op" where
  "bind_opt u h = (case u of None \<Rightarrow> ret () | Some uri \<Rightarrow> set_uri uri h)"

fun fetch_sources :: "hashers \<Rightarrow> registry \<Rightarrow> string option \<Rightarrow> bytes option \<Rightarrow> cas_error option \<Rightarrow> source list \<Rightarrow>
    (bytes \<times> bytes) cas_op" where
  "fetch_sources H reg uri expected last_err [] =
     fail (case last_err of Some e \<Rightarrow> e | None \<Rightarrow> NoSources)"
| "fetch_sources H reg uri expected last_err (s # ss) =
     bnd (fetch_source H reg expected s) (\<lambda>outcome.
     case outcome of
       Inr (h, b) \<Rightarrow> bnd (bind_opt uri h) (\<lambda>_. ret (h, b))
     | Inl e \<Rightarrow> fetch_sources H reg uri expected (Some e) ss)"

definition uri_hit :: "artifact_ref \<Rightarrow> (bytes \<times> bytes) option cas_op" where
  "uri_hit a =
     (case ref_uri a of
        None \<Rightarrow> ret None
      | Some u \<Rightarrow> bnd (resolve_uri u) (\<lambda>found.
          case found of
            None \<Rightarrow> ret None
          | Some (h, b) \<Rightarrow>
              if ref_expected_hash a \<noteq> None \<and> ref_expected_hash a \<noteq> Some h then ret None
              else ret (Some (h, b))))"

definition hash_hit :: "artifact_ref \<Rightarrow> (bytes \<times> bytes) option cas_op" where
  "hash_hit a =
     (case ref_expected_hash a of
        None \<Rightarrow> ret None
      | Some h \<Rightarrow> bnd (get h) (\<lambda>found.
          case found of
            None \<Rightarrow> ret None
          | Some b \<Rightarrow> bnd (bind_opt (ref_uri a) h) (\<lambda>_. ret (Some (h, b)))))"

definition fetch_artifact :: "hashers \<Rightarrow> artifact_ref \<Rightarrow> registry \<Rightarrow> (bytes \<times> bytes) cas_op" where
  "fetch_artifact H a reg =
     bnd (uri_hit a) (\<lambda>hit1.
     case hit1 of
       Some r \<Rightarrow> ret r
     | None \<Rightarrow>
         bnd (hash_hit a) (\<lambda>hit2.
         case hit2 of
           Some r \<Rightarrow> ret r
         | None \<Rightarrow> fetch_sources H reg (ref_uri a) (ref_expected_hash a) None (ref_sources a)))"

section \<open>The resolver contract\<close>

text \<open>What the registry relies on: a built-in resolver answers only sources of a kind it claims, and
  never a caller-defined \<open>Custom\<close> source, even one that borrows its kind.\<close>

locale builtin_resolver =
  fixes r :: resolver
  assumes answers_own: "resolve r s = Inr b \<Longrightarrow> kind s \<in> set (supported_kinds r)"
    and refuses_custom: "\<exists>e. resolve r (Custom k p) = Inl e"
begin

lemma unclaimed_fails: "kind s \<notin> set (supported_kinds r) \<Longrightarrow> \<exists>e. resolve r s = Inl e"
  using answers_own by (cases "resolve r s") auto

lemma found_answer_claimed:
  "find_resolver reg k = Some r \<Longrightarrow> resolve r s = Inr b \<Longrightarrow> kind s \<in> set (supported_kinds r) \<and> (\<forall>k p. s \<noteq> Custom k p)"
  using answers_own [of s b] refuses_custom by (metis Inl_Inr_False)

end

interpretation local_file: builtin_resolver "local_file_resolver fs" for fs
  by unfold_locales (auto simp: local_file_resolver_def split: source.splits sum.splits prod.splits if_splits)

interpretation https: builtin_resolver "https_resolver http" for http
  by unfold_locales (auto simp: https_resolver_def split: source.splits sum.splits prod.splits if_splits)

lemma find_resolver_claims: "find_resolver reg k = Some r \<Longrightarrow> r \<in> set reg \<and> k \<in> set (supported_kinds r)"
  by (induction reg) (auto split: if_splits)

lemma find_register:
  "find_resolver (register reg r) k = (case find_resolver reg k of
     Some q \<Rightarrow> Some q | None \<Rightarrow> if k \<in> set (supported_kinds r) then Some r else None)"
  by (induction reg) (auto simp: register_def)

section \<open>What a fetch does\<close>

lemma keeps_bind_opt [keeps_rules]: "keeps (store_inv H) (bind_opt u h)"
  unfolding bind_opt_def by (intro keeps_rules)

lemma keeps_fetch_source [keeps_rules]: "keeps (store_inv H) (fetch_source H reg expected s)"
  unfolding fetch_source_def by (cases s) (auto intro!: keeps_rules)

lemma keeps_fetch_sources [keeps_rules]: "keeps (store_inv H) (fetch_sources H reg uri expected le ss)"
  by (induction ss arbitrary: le) (auto intro!: keeps_rules)

lemma keeps_fetch_artifact [keeps_rules]: "keeps (store_inv H) (fetch_artifact H a reg)"
  unfolding fetch_artifact_def uri_hit_def hash_hit_def by (intro keeps_rules)

text \<open>While sources are tried, the store only grows and no URI moves.\<close>

definition grows :: "conn \<Rightarrow> conn \<Rightarrow> bool" where
  "grows c c' \<longleftrightarrow> contents c \<subseteq>\<^sub>m contents c' \<and> bindings c' = bindings c"

lemma grows_refl [simp]: "grows c c"
  by (simp add: grows_def)

lemma grows_trans: "grows a b \<Longrightarrow> grows b c \<Longrightarrow> grows a c"
  unfolding grows_def using map_le_trans by metis

lemma same_view_grows: "same_view c c' \<Longrightarrow> grows c c'"
  by (simp add: same_view_def grows_def)

lemma put_grows:
  assumes "store_inv H c" "put H b c = (r, c')"
  shows "grows c c'"
proof (cases r)
  case (Inl e)
  then have "db c' = db c" using put_error [OF assms(1), of b e c'] assms(2) by simp
  then show ?thesis by (intro same_view_grows same_view_db)
next
  case (Inr h)
  with put_spec assms(2) have "contents c' = (contents c)(h \<mapsto> case contents c h of None \<Rightarrow> b | Some old \<Rightarrow> old)"
    "bindings c' = bindings c" by auto
  then show ?thesis by (auto simp: grows_def map_le_def split: option.splits)
qed

text \<open>The outcome of one source on a sound store.\<close>

definition good_outcome :: "hashers \<Rightarrow> bytes option \<Rightarrow> source \<Rightarrow> conn \<Rightarrow> bytes \<times> bytes \<Rightarrow> bool" where
  "good_outcome H expected s c' hb \<longleftrightarrow> blake3 H (snd hb) = fst hb \<and> contents c' (fst hb) \<noteq> None \<and>
     (\<forall>e. expected = Some e \<longrightarrow> fst hb = e \<or> s = Blake3 (fst hb))"

lemma fetch_source_blake3:
  assumes "store_inv H c"
  shows "\<exists>c' outcome. fetch_source H reg expected (Blake3 h) c = (Inr outcome, c') \<and> grows c c' \<and>
    (\<forall>hb. outcome = Inr hb \<longrightarrow> good_outcome H expected (Blake3 h) c' hb)"
proof -
  obtain c' where c': "get h c = (Inr (contents c h), c')" "same_view c c'" using get_eval [OF assms] by blast
  then have g: "grows c c'" and v: "contents c' = contents c" by (auto intro: same_view_grows simp: same_view_def)
  show ?thesis
  proof (cases "contents c h")
    case None
    with c' g show ?thesis by (auto simp: fetch_source_def bnd_Inr)
  next
    case (Some b)
    with contents_address [OF assms Some] c' g v show ?thesis
      by (auto simp: fetch_source_def bnd_Inr good_outcome_def)
  qed
qed

lemma fetch_source_other:
  assumes "store_inv H c" "\<And>h. s \<noteq> Blake3 h"
  shows "\<exists>c' outcome. fetch_source H reg expected s c = (Inr outcome, c') \<and> grows c c' \<and>
    (\<forall>hb. outcome = Inr hb \<longrightarrow> good_outcome H expected s c' hb)"
proof (cases "find_resolver reg (kind s)")
  case None
  with assms show ?thesis by (auto simp: fetch_source_def split: source.splits)
next
  case (Some r)
  note find = this
  show ?thesis
  proof (cases "resolve r s")
    case (Inl e)
    with find assms show ?thesis by (auto simp: fetch_source_def split: source.splits)
  next
    case (Inr b)
    show ?thesis
    proof (cases "expected \<noteq> None \<and> expected \<noteq> Some (blake3 H b)")
      case True
      with find Inr assms show ?thesis by (auto simp: fetch_source_def split: source.splits)
    next
      case False
      then have ex: "\<And>e. expected = Some e \<Longrightarrow> blake3 H b = e" by auto
      have body: "fetch_source H reg expected s c = as_result (bnd (put H b) (\<lambda>h. ret (h, b))) c"
        using find Inr False assms(2) by (auto simp: fetch_source_def split: source.splits)
      obtain p c' where p: "put H b c = (p, c')" by (cases "put H b c")
      have g: "grows c c'" using put_grows [OF assms(1) p] .
      show ?thesis
      proof (cases p)
        case (Inl e)
        with p g show ?thesis by (auto simp: body as_result_def bnd_def)
      next
        case (Inr h)
        with p have "h = blake3 H b" "contents c' h \<noteq> None" using put_spec [of H b c h c'] by auto
        with p g Inr ex show ?thesis by (auto simp: body as_result_def bnd_def good_outcome_def)
      qed
    qed
  qed
qed

lemma fetch_source_eval:
  assumes "store_inv H c"
  shows "\<exists>c' outcome. fetch_source H reg expected s c = (Inr outcome, c') \<and> grows c c' \<and>
    (\<forall>hb. outcome = Inr hb \<longrightarrow> good_outcome H expected s c' hb)"
proof (cases "\<exists>h. s = Blake3 h")
  case True
  then show ?thesis using fetch_source_blake3 [OF assms] by blast
next
  case False
  then show ?thesis using fetch_source_other [OF assms] by blast
qed

lemma bind_opt_eval:
  assumes "store_inv H c" "contents c h \<noteq> None"
  shows "\<exists>c'. bind_opt u h c = (Inr (), c') \<and> contents c' = contents c \<and>
    bindings c' = (case u of None \<Rightarrow> bindings c | Some uri \<Rightarrow> (bindings c)(uri \<mapsto> h))"
  using set_uri_eval [OF assms] by (cases u) (auto simp: bind_opt_def)

text \<open>What a successful fetch promises, whichever way it got the bytes.\<close>

definition fetched :: "hashers \<Rightarrow> artifact_ref \<Rightarrow> conn \<Rightarrow> conn \<Rightarrow> bytes \<times> bytes \<Rightarrow> bool" where
  "fetched H a c c' hb \<longleftrightarrow> blake3 H (snd hb) = fst hb \<and> contents c' (fst hb) \<noteq> None \<and>
     contents c \<subseteq>\<^sub>m contents c' \<and>
     bindings c' = (case ref_uri a of None \<Rightarrow> bindings c | Some u \<Rightarrow> (bindings c)(u \<mapsto> fst hb)) \<and>
     (\<forall>e. ref_expected_hash a = Some e \<longrightarrow> fst hb = e \<or> Blake3 (fst hb) \<in> set (ref_sources a))"

lemma fetched_same_view: "same_view c c1 \<Longrightarrow> fetched H a c1 c' hb \<Longrightarrow> fetched H a c c' hb"
  by (cases "ref_uri a") (auto simp: fetched_def same_view_def)

lemma fetch_sources_eval:
  assumes "store_inv H c" "set ss \<subseteq> set (ref_sources a)" "fetch_sources H reg (ref_uri a) (ref_expected_hash a) le ss c = (r, c')"
  shows "(\<exists>hb. r = Inr hb \<and> fetched H a c c' hb) \<or> (\<exists>e. r = Inl e \<and> grows c c')"
  using assms
proof (induction ss arbitrary: le c)
  case Nil
  then show ?case by auto
next
  case (Cons s ss)
  obtain c1 outcome where c1: "fetch_source H reg (ref_expected_hash a) s c = (Inr outcome, c1)" "grows c c1"
    "\<forall>hb. outcome = Inr hb \<longrightarrow> good_outcome H (ref_expected_hash a) s c1 hb"
    using fetch_source_eval [OF Cons.prems(1)] by blast
  have inv1: "store_inv H c1" using keepsD [OF keeps_fetch_source Cons.prems(1) c1(1)] .
  show ?case
  proof (cases outcome)
    case (Inl e)
    with c1 Cons.prems have "fetch_sources H reg (ref_uri a) (ref_expected_hash a) (Some e) ss c1 = (r, c')"
      by (simp add: bnd_Inr)
    from Cons.IH [OF inv1 _ this] Cons.prems(2) c1(2) show ?thesis
      by (auto simp: fetched_def grows_def dest: map_le_trans split: option.splits)
  next
    case (Inr hb)
    with c1 have good: "good_outcome H (ref_expected_hash a) s c1 hb" by blast
    then obtain c2 where c2: "bind_opt (ref_uri a) (fst hb) c1 = (Inr (), c2)" "contents c2 = contents c1"
      "bindings c2 = (case ref_uri a of None \<Rightarrow> bindings c1 | Some uri \<Rightarrow> (bindings c1)(uri \<mapsto> fst hb))"
      using bind_opt_eval [OF inv1, of "fst hb" "ref_uri a"] unfolding good_outcome_def by blast
    with Inr c1 Cons.prems have "r = Inr hb" "c' = c2" by (auto simp: bnd_Inr split: prod.splits)
    with c1 c2 good Cons.prems(2) show ?thesis
      by (auto simp: fetched_def grows_def good_outcome_def split: option.splits)
  qed
qed

definition expects :: "artifact_ref \<Rightarrow> bytes \<Rightarrow> bool" where
  "expects a h \<longleftrightarrow> ref_expected_hash a = None \<or> ref_expected_hash a = Some h"

lemma uri_hit_eval:
  assumes "store_inv H c" "digests_32 H"
  shows "\<exists>c'. uri_hit a c = (Inr (case ref_uri a of None \<Rightarrow> None | Some u \<Rightarrow>
      (case bindings c u of None \<Rightarrow> None | Some h \<Rightarrow> if expects a h then Some (h, the (contents c h)) else None)), c') \<and>
    same_view c c' \<and> store_inv H c'"
proof (cases "ref_uri a")
  case None
  with assms show ?thesis by (simp add: uri_hit_def)
next
  case (Some u)
  obtain c' where c': "resolve_uri u c = (Inr (case bindings c u of None \<Rightarrow> None
      | Some h \<Rightarrow> Some (h, the (contents c h))), c')" "same_view c c'"
    using resolve_uri_eval [OF assms] by blast
  moreover have "store_inv H c'" using keepsD [OF keeps_resolve_uri assms(1) c'(1)] .
  ultimately show ?thesis using Some
    by (cases "bindings c u") (auto simp: uri_hit_def bnd_Inr expects_def)
qed

lemma hash_hit_eval:
  assumes "store_inv H c"
  shows "\<exists>c' r. hash_hit a c = (Inr r, c') \<and> store_inv H c' \<and>
    (case ref_expected_hash a of None \<Rightarrow> r = None \<and> same_view c c'
     | Some e \<Rightarrow> (case contents c e of None \<Rightarrow> r = None \<and> same_view c c'
        | Some b \<Rightarrow> r = Some (e, b) \<and> fetched H a c c' (e, b)))"
proof (cases "ref_expected_hash a")
  case None
  with assms show ?thesis by (simp add: hash_hit_def)
next
  case (Some e)
  obtain c1 where c1: "get e c = (Inr (contents c e), c1)" "same_view c c1" using get_eval [OF assms] by blast
  have inv1: "store_inv H c1" using keepsD [OF keeps_get assms c1(1)] .
  show ?thesis
  proof (cases "contents c e")
    case None
    with Some c1 inv1 show ?thesis by (simp add: hash_hit_def bnd_Inr)
  next
    case (Some b)
    then have "contents c1 e \<noteq> None" using c1(2) by (simp add: same_view_def)
    then obtain c2 where c2: "bind_opt (ref_uri a) e c1 = (Inr (), c2)" "contents c2 = contents c1"
      "bindings c2 = (case ref_uri a of None \<Rightarrow> bindings c1 | Some uri \<Rightarrow> (bindings c1)(uri \<mapsto> e))"
      using bind_opt_eval [OF inv1] by blast
    have "store_inv H c2" using keepsD [OF keeps_bind_opt inv1 c2(1)] .
    with \<open>ref_expected_hash a = Some e\<close> Some c1 c2 contents_address [OF assms Some] show ?thesis
      by (cases "ref_uri a") (auto simp: hash_hit_def bnd_Inr fetched_def same_view_def)
  qed
qed

lemma fetch_artifact_eval:
  assumes inv: "store_inv H c" and dig: "digests_32 H" and run: "fetch_artifact H a reg c = (r, c')"
  shows "(\<exists>hb. r = Inr hb \<and> fetched H a c c' hb) \<or> (\<exists>e. r = Inl e \<and> grows c c')"
proof -
  obtain r1 c1 where c1: "uri_hit a c = (Inr r1, c1)" "same_view c c1" "store_inv H c1"
    and r1: "r1 = (case ref_uri a of None \<Rightarrow> None | Some u \<Rightarrow>
      (case bindings c u of None \<Rightarrow> None | Some h \<Rightarrow> if expects a h then Some (h, the (contents c h)) else None))"
    using uri_hit_eval [OF inv dig] by blast
  show ?thesis
  proof (cases r1)
    case (Some hb)
    with r1 obtain u h where u: "ref_uri a = Some u" "bindings c u = Some h" "expects a h" "hb = (h, the (contents c h))"
      by (auto split: option.splits if_splits)
    then obtain b where b: "contents c h = Some b" using bindings_stored [OF inv] by blast
    have "r = Inr hb" "c' = c1" using run c1 Some by (auto simp: fetch_artifact_def bnd_Inr)
    with u b c1 contents_address [OF inv b] show ?thesis
      by (auto simp: fetched_def same_view_def expects_def fun_upd_idem_iff)
  next
    case None
    obtain r2 c2 where c2: "hash_hit a c1 = (Inr r2, c2)" "store_inv H c2"
      "case ref_expected_hash a of None \<Rightarrow> r2 = None \<and> same_view c1 c2
       | Some e \<Rightarrow> (case contents c1 e of None \<Rightarrow> r2 = None \<and> same_view c1 c2
          | Some b \<Rightarrow> r2 = Some (e, b) \<and> fetched H a c1 c2 (e, b))"
      using hash_hit_eval [OF c1(3)] by blast
    show ?thesis
    proof (cases r2)
      case (Some hb)
      with c2(3) have "fetched H a c1 c2 hb" by (auto split: option.splits)
      then have "fetched H a c c2 hb" using fetched_same_view [OF c1(2)] by blast
      moreover have "r = Inr hb" "c' = c2" using Some None c1 c2 run by (auto simp: fetch_artifact_def bnd_Inr)
      ultimately show ?thesis by blast
    next
      case none: None
      with c2(3) have v: "same_view c1 c2" by (auto split: option.splits)
      from none None c1 c2 run have
        "fetch_sources H reg (ref_uri a) (ref_expected_hash a) None (ref_sources a) c2 = (r, c')"
        by (simp add: fetch_artifact_def bnd_Inr)
      from fetch_sources_eval [OF c2(2) subset_refl this] show ?thesis
        using fetched_same_view [OF same_view_trans [OF c1(2) v]] grows_trans
          same_view_grows [OF same_view_trans [OF c1(2) v]] by blast
    qed
  qed
qed

lemma fetch_cached_eval:
  assumes inv: "store_inv H c" and dig: "digests_32 H"
    and e: "ref_expected_hash a = Some e" "contents c e = Some b"
  shows "\<exists>c'. \<forall>reg. fetch_artifact H a reg c = (Inr (e, b), c')"
proof -
  obtain r1 c1 where c1: "uri_hit a c = (Inr r1, c1)" "same_view c c1" "store_inv H c1"
    and r1: "r1 = (case ref_uri a of None \<Rightarrow> None | Some u \<Rightarrow>
      (case bindings c u of None \<Rightarrow> None | Some h \<Rightarrow> if expects a h then Some (h, the (contents c h)) else None))"
    using uri_hit_eval [OF inv dig] by blast
  show ?thesis
  proof (cases r1)
    case (Some hb)
    with r1 e have "hb = (e, b)" by (auto simp: expects_def split: option.splits if_splits)
    with c1 Some show ?thesis by (auto simp: fetch_artifact_def bnd_Inr)
  next
    case None
    have "contents c1 e = Some b" using c1(2) e by (simp add: same_view_def)
    then obtain c2 where "hash_hit a c1 = (Inr (Some (e, b)), c2)"
      using hash_hit_eval [OF c1(3), of a] e by auto
    with None c1 show ?thesis by (auto simp: fetch_artifact_def bnd_Inr)
  qed
qed

section \<open>Properties\<close>

text \<open>C6. Soundness of \<open>fetch_artifact\<close>: whichever of the cache, the expected hash or the sources
  answers, a successful fetch returns bytes together with their blake3 hash, that hash is stored,
  nothing stored before is lost, the requested URI (and no other) is bound to that hash, and the
  store is still sound.\<close>

theorem fetch_artifact_sound:
  assumes "store_inv H c" "digests_32 H" "fetch_artifact H a reg c = (Inr (h, b), c')"
  shows "store_inv H c' \<and> blake3 H b = h \<and> contents c' h \<noteq> None \<and> contents c \<subseteq>\<^sub>m contents c' \<and>
    bindings c' = (case ref_uri a of None \<Rightarrow> bindings c | Some u \<Rightarrow> (bindings c)(u \<mapsto> h))"
  using fetch_artifact_eval [OF assms] keepsD [OF keeps_fetch_artifact assms(1,3)]
  by (cases "ref_uri a") (auto simp: fetched_def)

definition one_file :: "string \<Rightarrow> string + bytes" where
  "one_file path = (if path = ''/ext/uuid.wasm'' then Inr [0, 97, 115, 109] else Inl ''not found'')"

definition no_net :: "string \<Rightarrow> string + nat \<times> (string + bytes)" where
  "no_net url = Inl ''no network''"

definition uuid_ref :: artifact_ref where
  "uuid_ref = with_uri (add_source (from_source (Https ''https://x/uuid.wasm'')) (LocalFile ''/ext/uuid.wasm'')) ''ext:uuid''"

text \<open>The HTTPS source fails, the local file answers.\<close>

lemma uuid_fetch:
  "\<exists>c'. fetch_artifact toy_hashers uuid_ref (with_builtins True one_file no_net) toy_conn =
     (Inr (blake3 toy_hashers [0, 97, 115, 109], [0, 97, 115, 109]), c')"
  by (simp add: fetch_artifact_def uri_hit_def hash_hit_def uuid_ref_def with_uri_def add_source_def from_source_def
      resolve_uri_def uri_sel_def uris_def select_def bnd_def toy_conn_def open_conn_def fresh_tables_def fetch_source_def
      with_builtins_def register_def new_registry_def https_resolver_def local_file_resolver_def one_file_def no_net_def
      as_result_def put_def put_ref_def put_stmt_def arts_def toy_hashers_def sha_taken_def exec_def set_arts_def dml_def
      tick_def Let_def bind_opt_def set_uri_def set_uri_stmt_def)

theorem fetch_artifact_sound_witness:
  "\<exists>h c'. fetch_artifact toy_hashers uuid_ref (with_builtins True one_file no_net) toy_conn =
       (Inr (h, [0, 97, 115, 109]), c') \<and>
     bindings c' = (\<lambda>_. None)(''ext:uuid'' \<mapsto> h) \<and> store_inv toy_hashers c'"
proof -
  obtain c' where c': "fetch_artifact toy_hashers uuid_ref (with_builtins True one_file no_net) toy_conn =
     (Inr (blake3 toy_hashers [0, 97, 115, 109], [0, 97, 115, 109]), c')" using uuid_fetch by blast
  have "bindings toy_conn = (\<lambda>_. None)" by (simp add: fun_eq_iff)
  with fetch_artifact_sound [OF toy_store_inv toy_digests c'] c' show ?thesis
    by (auto simp: uuid_ref_def with_uri_def)
qed

text \<open>The expected hash is enforced for every source but one kind: a successful fetch returns the
  expected hash, unless it returns a hash that the reference itself lists as a \<open>Blake3\<close> source.
  When no \<open>Blake3\<close> source names another hash, the result is the expected one.\<close>

theorem fetch_returns_expected_hash:
  assumes "store_inv H c" "digests_32 H" "fetch_artifact H a reg c = (Inr (h, b), c')"
    and "ref_expected_hash a = Some e" "\<forall>g. Blake3 g \<in> set (ref_sources a) \<longrightarrow> g = e"
  shows "h = e \<and> blake3 H b = e"
  using fetch_artifact_eval [OF assms(1-3)] assms(4,5) by (auto simp: fetched_def)

theorem fetch_returns_expected_hash_witness:
  "\<exists>c'. fetch_artifact toy_hashers (with_expected_hash uuid_ref (blake3 toy_hashers [0, 97, 115, 109]))
     (with_builtins True one_file no_net) (snd (put toy_hashers [0, 97, 115, 109] toy_conn)) =
     (Inr (blake3 toy_hashers [0, 97, 115, 109], [0, 97, 115, 109]), c')"
proof -
  let ?a = "with_expected_hash uuid_ref (blake3 toy_hashers [0, 97, 115, 109])"
  obtain c where c: "put toy_hashers [0, 97, 115, 109] toy_conn = (Inr (blake3 toy_hashers [0, 97, 115, 109]), c)"
    using toy_put by blast
  have inv: "store_inv toy_hashers c" using keepsD [OF keeps_put toy_store_inv c] .
  have st: "contents c (blake3 toy_hashers [0, 97, 115, 109]) = Some [0, 97, 115, 109]" using put_spec [OF c] by simp
  obtain c' where c': "fetch_artifact toy_hashers ?a (with_builtins True one_file no_net) c =
      (Inr (blake3 toy_hashers [0, 97, 115, 109], [0, 97, 115, 109]), c')"
    using fetch_cached_eval [OF inv toy_digests _ st, of ?a] by (auto simp: with_expected_hash_def)
  from fetch_returns_expected_hash [OF inv toy_digests c', of "blake3 toy_hashers [0, 97, 115, 109]"] c c'
  show ?thesis by (auto simp: with_expected_hash_def uuid_ref_def with_uri_def add_source_def from_source_def)
qed

text \<open>A failed fetch is harmless: when no source delivers, every URI is bound as before, nothing
  stored is lost and the store is still sound; without sources the error is \<open>NoSources\<close>.\<close>

theorem fetch_failure_harmless:
  assumes "store_inv H c" "digests_32 H" "fetch_artifact H a reg c = (Inl e, c')"
  shows "store_inv H c' \<and> bindings c' = bindings c \<and> contents c \<subseteq>\<^sub>m contents c' \<and>
    (ref_sources a = [] \<longrightarrow> e = NoSources)"
proof -
  have "e = NoSources" if none: "ref_sources a = []"
  proof -
    obtain r1 c1 where c1: "uri_hit a c = (Inr r1, c1)" "store_inv H c1" using uri_hit_eval [OF assms(1,2)] by blast
    obtain r2 c2 where c2: "hash_hit a c1 = (Inr r2, c2)" using hash_hit_eval [OF c1(2)] by blast
    from c1(1) c2 none assms(3) show ?thesis by (auto simp: fetch_artifact_def bnd_Inr split: option.splits)
  qed
  with fetch_artifact_eval [OF assms] keepsD [OF keeps_fetch_artifact assms(1,3)] show ?thesis
    by (auto simp: grows_def)
qed

theorem fetch_failure_harmless_witness:
  "\<exists>c'. fetch_artifact toy_hashers (with_uri (from_source (Custom ''local'' [])) ''ext:x'')
       (with_builtins True one_file no_net) toy_conn = (Inl (ResolverFailed ''LocalFileResolver: wrong source kind''), c') \<and>
     bindings c' = bindings toy_conn"
proof -
  obtain c' where c': "fetch_artifact toy_hashers (with_uri (from_source (Custom ''local'' [])) ''ext:x'')
       (with_builtins True one_file no_net) toy_conn = (Inl (ResolverFailed ''LocalFileResolver: wrong source kind''), c')"
    by (simp add: fetch_artifact_def uri_hit_def hash_hit_def with_uri_def from_source_def resolve_uri_def uri_sel_def
        uris_def select_def bnd_def toy_conn_def open_conn_def fresh_tables_def fetch_source_def with_builtins_def
        register_def new_registry_def local_file_resolver_def Let_def)
  from fetch_failure_harmless [OF toy_store_inv toy_digests c'] c' show ?thesis by blast
qed

text \<open>The exception of \<open>fetch_returns_expected_hash\<close> is real: a \<open>Blake3\<close> source for another stored
  hash is returned although an expected hash was given, and the URI is bound to it.\<close>

theorem blake3_source_skips_expected_hash:
  assumes "store_inv H c" "digests_32 H" "contents c e = None" "contents c g = Some b"
  shows "\<exists>c'. fetch_artifact H \<lparr>ref_uri = None, ref_expected_hash = Some e, ref_sources = [Blake3 g]\<rparr> reg c =
      (Inr (g, b), c') \<and> g \<noteq> e"
proof -
  let ?a = "\<lparr>ref_uri = None, ref_expected_hash = Some e, ref_sources = [Blake3 g]\<rparr>"
  obtain c1 where c1: "hash_hit ?a c = (Inr None, c1)" "store_inv H c1" "same_view c c1"
    using hash_hit_eval [OF assms(1), of ?a] assms(3) by auto
  obtain c2 where "get g c1 = (Inr (Some b), c2)"
    using get_eval [OF c1(2), of g] c1(3) assms(4) by (auto simp: same_view_def)
  with c1 assms(3,4) show ?thesis
    by (auto simp: fetch_artifact_def uri_hit_def fetch_source_def bnd_Inr bind_opt_def)
qed

end
