(* ===== verification/Cas_Schema.thy ===== *)
theory Cas_Schema
  imports Cas_Store
begin

text \<open>
  \<^verbatim>\<open>sqlite-cas-cache/src/schema.rs\<close> and its use: the scripts as lists of statements,
  \<open>install_schema\<close> of \<^verbatim>\<open>store.rs\<close> and of \<^verbatim>\<open>bundles_exec.rs\<close>, the migration ladder
  (a loop that terminates because every migration raises the recorded version), the retry loop of
  \<open>open_external\<close>, and \<open>drop_schema\<close>. Non-unique indexes have no effect on results and are
  not represented.
\<close>

section \<open>Statements of the scripts\<close>

definition on_db :: "(cas_db \<Rightarrow> cas_db) \<Rightarrow> conn \<Rightarrow> sql_error + conn" where
  "on_db f c = Inr (c\<lparr>db := f (db c)\<rparr>)"

definition create_meta :: "conn \<Rightarrow> sql_error + conn" where
  "create_meta = on_db (\<lambda>d. case meta_t d of None \<Rightarrow> d\<lparr>meta_t := Some []\<rparr> | Some _ \<Rightarrow> d)"

definition create_artifact :: "conn \<Rightarrow> sql_error + conn" where
  "create_artifact = on_db (\<lambda>d. case artifact_t d of
     None \<Rightarrow> d\<lparr>artifact_t := Some \<lparr>at_cols = artifact_columns, at_sha_unique = False, at_rows = []\<rparr>\<rparr>
   | Some _ \<Rightarrow> d)"

text \<open>The partial unique index: it needs the column, and rows that do not clash.\<close>

definition sha_distinct :: "artifact_row list \<Rightarrow> bool" where
  "sha_distinct rs \<longleftrightarrow> distinct (List.map_filter a_sha256 rs)"

definition create_sha_index :: "conn \<Rightarrow> sql_error + conn" where
  "create_sha_index c = sbind (arts (db c)) (\<lambda>t.
     if at_sha_unique t then Inr c
     else if ''sha256'' \<notin> set (at_cols t) then Inl (NoSuchColumn ''sha256'')
     else if \<not> sha_distinct (at_rows t) then Inl (UniqueIndex ''__cas_artifact.sha256'')
     else Inr (c\<lparr>db := (db c)\<lparr>artifact_t := Some (t\<lparr>at_sha_unique := True\<rparr>)\<rparr>\<rparr>))"

definition create_uri :: "conn \<Rightarrow> sql_error + conn" where
  "create_uri = on_db (\<lambda>d. case uri_t d of None \<Rightarrow> d\<lparr>uri_t := Some []\<rparr> | Some _ \<Rightarrow> d)"

definition create_bundle :: "bool \<Rightarrow> conn \<Rightarrow> sql_error + conn" where
  "create_bundle name_unique = on_db (\<lambda>d. case bundle_t d of
     None \<Rightarrow> d\<lparr>bundle_t := Some \<lparr>bt_name_unique = name_unique, bt_rows = []\<rparr>\<rparr> | Some _ \<Rightarrow> d)"

definition create_member :: "conn \<Rightarrow> sql_error + conn" where
  "create_member = on_db (\<lambda>d. case member_t d of None \<Rightarrow> d\<lparr>member_t := Some []\<rparr> | Some _ \<Rightarrow> d)"

definition create_binary :: "conn \<Rightarrow> sql_error + conn" where
  "create_binary = on_db (\<lambda>d. case binary_t d of None \<Rightarrow> d\<lparr>binary_t := Some []\<rparr> | Some _ \<Rightarrow> d)"

definition create_alias :: "conn \<Rightarrow> sql_error + conn" where
  "create_alias = on_db (\<lambda>d. case alias_t d of None \<Rightarrow> d\<lparr>alias_t := Some []\<rparr> | Some _ \<Rightarrow> d)"

definition version_key :: string where
  "version_key = ''schema_version''"

definition replace_version :: "string \<Rightarrow> conn \<Rightarrow> sql_error + conn" where
  "replace_version v c = sbind (need ''__cas_meta'' (meta_t (db c))) (\<lambda>m.
     Inr (dml 1 0 (c\<lparr>db := (db c)\<lparr>meta_t := Some (delete_where (\<lambda>kv. fst kv = version_key) m @ [(version_key, v)])\<rparr>\<rparr>)))"

definition update_version :: "string \<Rightarrow> conn \<Rightarrow> sql_error + conn" where
  "update_version v c = sbind (need ''__cas_meta'' (meta_t (db c))) (\<lambda>m.
     Inr (dml (count_where (\<lambda>kv. fst kv = version_key) m) 0
       (c\<lparr>db := (db c)\<lparr>meta_t := Some (update_where (\<lambda>kv. fst kv = version_key) (\<lambda>kv. (fst kv, v)) m)\<rparr>\<rparr>)))"

definition add_sha_column :: "conn \<Rightarrow> sql_error + conn" where
  "add_sha_column c = sbind (arts (db c)) (\<lambda>t.
     if ''sha256'' \<in> set (at_cols t) then Inl (DuplicateColumn ''sha256'')
     else Inr (c\<lparr>db := (db c)\<lparr>artifact_t := Some (t\<lparr>at_cols := at_cols t @ [''sha256''],
       at_rows := map (\<lambda>r. r\<lparr>a_sha256 := None\<rparr>) (at_rows t)\<rparr>)\<rparr>\<rparr>))"

text \<open>\<open>INSERT OR IGNORE .. SELECT name, id, created_at FROM __cas_bundle WHERE name IS NOT NULL\<close>.\<close>

fun insert_aliases :: "bundle_row list \<Rightarrow> alias_row list \<Rightarrow> alias_row list" where
  "insert_aliases [] ls = ls"
| "insert_aliases (b # bs) ls = insert_aliases bs (case b_name b of
       None \<Rightarrow> ls
     | Some n \<Rightarrow> if n \<in> l_name ` set ls then ls
         else ls @ [\<lparr>l_name = n, l_bundle_id = b_id b, l_created_at = b_created_at b\<rparr>])"

definition copy_names_to_alias :: "conn \<Rightarrow> sql_error + conn" where
  "copy_names_to_alias c = sbind (need ''__cas_bundle_alias'' (alias_t (db c))) (\<lambda>ls.
     sbind (need ''__cas_bundle'' (bundle_t (db c))) (\<lambda>t.
     let ls' = insert_aliases (bt_rows t) ls in
     Inr (dml (length ls' - length ls) 0 (c\<lparr>db := (db c)\<lparr>alias_t := Some ls'\<rparr>\<rparr>))))"

definition create_bundle_v4 :: "conn \<Rightarrow> sql_error + conn" where
  "create_bundle_v4 c = (case bundle_v4_t (db c) of
     Some _ \<Rightarrow> Inl (TableExists ''__cas_bundle_v4'')
   | None \<Rightarrow> Inr (c\<lparr>db := (db c)\<lparr>bundle_v4_t := Some \<lparr>bt_name_unique = False, bt_rows = []\<rparr>\<rparr>\<rparr>))"

definition copy_to_bundle_v4 :: "conn \<Rightarrow> sql_error + conn" where
  "copy_to_bundle_v4 c = sbind (need ''__cas_bundle_v4'' (bundle_v4_t (db c))) (\<lambda>t4.
     sbind (need ''__cas_bundle'' (bundle_t (db c))) (\<lambda>t.
     if list_ex (\<lambda>b. b_id b \<in> b_id ` set (bt_rows t4)) (bt_rows t) then Inl (PrimaryKey ''__cas_bundle_v4.id'')
     else Inr (dml (length (bt_rows t)) 0
       (c\<lparr>db := (db c)\<lparr>bundle_v4_t := Some (t4\<lparr>bt_rows := bt_rows t4 @ bt_rows t\<rparr>)\<rparr>\<rparr>))))"

text \<open>Rows of a child table that survive the deletion of some parent ids (ON DELETE CASCADE).\<close>

definition orphaned :: "int set \<Rightarrow> ('r \<Rightarrow> int) \<Rightarrow> 'r list option \<Rightarrow> 'r list option" where
  "orphaned ids ref = map_option (delete_where (\<lambda>r. ref r \<in> ids))"

definition cascade_count :: "int set \<Rightarrow> ('r \<Rightarrow> int) \<Rightarrow> 'r list option \<Rightarrow> nat" where
  "cascade_count ids ref t = (case t of None \<Rightarrow> 0 | Some rs \<Rightarrow> count_where (\<lambda>r. ref r \<in> ids) rs)"

definition cascade :: "int set \<Rightarrow> cas_db \<Rightarrow> cas_db" where
  "cascade ids d = d\<lparr>member_t := orphaned ids m_bundle_id (member_t d),
     binary_t := orphaned ids n_bundle_id (binary_t d), alias_t := orphaned ids l_bundle_id (alias_t d)\<rparr>"

definition cascaded :: "int set \<Rightarrow> cas_db \<Rightarrow> nat" where
  "cascaded ids d = cascade_count ids m_bundle_id (member_t d) + cascade_count ids n_bundle_id (binary_t d) +
     cascade_count ids l_bundle_id (alias_t d)"

text \<open>\<open>DROP TABLE\<close> with foreign keys on first deletes every row, which runs the cascades.\<close>

definition drop_bundle :: "conn \<Rightarrow> sql_error + conn" where
  "drop_bundle c = sbind (need ''__cas_bundle'' (bundle_t (db c))) (\<lambda>t.
     let ids = b_id ` set (bt_rows t) in
     if fk_on c
     then Inr (dml (length (bt_rows t)) (cascaded ids (db c)) (c\<lparr>db := (cascade ids (db c))\<lparr>bundle_t := None\<rparr>\<rparr>))
     else Inr (c\<lparr>db := (db c)\<lparr>bundle_t := None\<rparr>\<rparr>))"

definition rename_bundle_v4 :: "conn \<Rightarrow> sql_error + conn" where
  "rename_bundle_v4 c = sbind (need ''__cas_bundle_v4'' (bundle_v4_t (db c))) (\<lambda>t4.
     if bundle_t (db c) \<noteq> None then Inl (TableExists ''__cas_bundle'')
     else Inr (c\<lparr>db := (db c)\<lparr>bundle_t := Some t4, bundle_v4_t := None\<rparr>\<rparr>))"

section \<open>The scripts\<close>

definition SCHEMA_VERSION :: string where
  "SCHEMA_VERSION = ''4''"

definition BOOTSTRAP_SCHEMA :: "(conn \<Rightarrow> sql_error + conn) list" where
  "BOOTSTRAP_SCHEMA = [create_meta]"

definition INSTALL_SCHEMA :: "(conn \<Rightarrow> sql_error + conn) list" where
  "INSTALL_SCHEMA = [begin_tx, create_artifact, create_sha_index, create_uri, create_meta, create_bundle False,
     create_member, create_binary, create_alias, replace_version ''4'', commit_tx]"

definition MIGRATE_V1_TO_V2 :: "(conn \<Rightarrow> sql_error + conn) list" where
  "MIGRATE_V1_TO_V2 = [begin_tx, add_sha_column, create_sha_index, update_version ''2'', commit_tx]"

definition MIGRATE_V2_TO_V3 :: "(conn \<Rightarrow> sql_error + conn) list" where
  "MIGRATE_V2_TO_V3 = [begin_tx, create_bundle True, create_member, create_binary, update_version ''3'', commit_tx]"

definition MIGRATE_V3_TO_V4 :: "(conn \<Rightarrow> sql_error + conn) list" where
  "MIGRATE_V3_TO_V4 = [begin_tx, create_alias, copy_names_to_alias, create_bundle_v4, copy_to_bundle_v4, drop_bundle,
     rename_bundle_v4, update_version ''4'', commit_tx]"

section \<open>Installing and migrating\<close>

definition version_sel :: "cas_db \<Rightarrow> sql_error + string option" where
  "version_sel d = sbind (need ''__cas_meta'' (meta_t d)) (\<lambda>m. Inr (map_option snd (lookup_by fst version_key m)))"

definition try_read_schema_version :: "string option cas_op" where
  "try_read_schema_version = select version_sel"

definition read_schema_version :: "string cas_op" where
  "read_schema_version = bnd try_read_schema_version (\<lambda>v.
     case v of None \<Rightarrow> fail VersionMissing | Some s \<Rightarrow> ret s)"

definition migration_from :: "string \<Rightarrow> (conn \<Rightarrow> sql_error + conn) list option" where
  "migration_from v =
     (if v = ''1'' then Some MIGRATE_V1_TO_V2
      else if v = ''2'' then Some MIGRATE_V2_TO_V3
      else if v = ''3'' then Some MIGRATE_V3_TO_V4
      else None)"

function migrate_loop :: "string \<Rightarrow> unit cas_op" where
  "migrate_loop observed c =
     (if observed = SCHEMA_VERSION then (Inr (), c)
      else case migration_from observed of
        None \<Rightarrow> (Inl (IncompatibleSchema observed), c)
      | Some script \<Rightarrow>
          (case execute_batch script c of
             (Inl e, c1) \<Rightarrow> (Inl e, c1)
           | (Inr _, c1) \<Rightarrow>
               (case read_schema_version c1 of
                  (Inl e, c2) \<Rightarrow> (Inl e, c2)
                | (Inr v, c2) \<Rightarrow> migrate_loop v c2)))"
  by pat_completeness auto

text \<open>Why the loop ends: a successful migration records the next version.\<close>

fun steps_left :: "string \<Rightarrow> nat" where
  "steps_left v = (if v = ''1'' then 3 else if v = ''2'' then 2 else if v = ''3'' then 1 else 0)"

lemma execute_batch_append: "execute_batch (xs @ ys) c = bnd (execute_batch xs) (\<lambda>_. execute_batch ys) c"
  by (induction xs arbitrary: c) (auto simp: bnd_def split: prod.splits sum.splits)

lemma update_version_sel:
  assumes "update_version v c = Inr c'"
  shows "version_sel (db c') = Inr (map_option (\<lambda>_. v) (lookup_by fst version_key (the (meta_t (db c)))))"
proof -
  obtain m where m: "meta_t (db c) = Some m" "meta_t (db c') =
      Some (update_where (\<lambda>kv. fst kv = version_key) (\<lambda>kv. (fst kv, v)) m)"
    using assms by (auto simp: update_version_def sbind_eq_Inr_iff)
  have "map_option snd (lookup_by fst version_key (update_where (\<lambda>kv. fst kv = version_key) (\<lambda>kv. (fst kv, v)) m)) =
      map_option (\<lambda>_. v) (lookup_by fst version_key m)"
    by (induction m) auto
  with m show ?thesis by (simp add: version_sel_def)
qed

lemma script_sets_version:
  assumes "execute_batch (pre @ [update_version v, commit_tx]) c = (Inr u, c1)" "read_schema_version c1 = (Inr w, c2)"
  shows "w = v"
proof -
  obtain c0 c0' where c0: "update_version v c0 = Inr c0'" "commit_tx c0' = Inr c1"
    using assms(1) by (auto simp: execute_batch_append bnd_eq_Inr_iff exec_eq_Inr_iff)
  then have "db c1 = db c0'" by (auto simp: commit_tx_def split: if_splits)
  with update_version_sel [OF c0(1)] assms(2) show ?thesis
    by (auto simp: read_schema_version_def try_read_schema_version_def bnd_eq_Inr_iff select_eq_Inr_iff
        split: option.splits)
qed

lemma migration_progress:
  assumes "migration_from observed = Some script" "execute_batch script c = (Inr u, c1)"
    "read_schema_version c1 = (Inr v, c2)"
  shows "steps_left v < steps_left observed"
proof -
  consider "observed = ''1''" "script = [begin_tx, add_sha_column, create_sha_index] @ [update_version ''2'', commit_tx]"
    | "observed = ''2''" "script = [begin_tx, create_bundle True, create_member, create_binary] @ [update_version ''3'', commit_tx]"
    | "observed = ''3''" "script = [begin_tx, create_alias, copy_names_to_alias, create_bundle_v4, copy_to_bundle_v4,
        drop_bundle, rename_bundle_v4] @ [update_version ''4'', commit_tx]"
    using assms(1)
    by (auto simp: migration_from_def MIGRATE_V1_TO_V2_def MIGRATE_V2_TO_V3_def MIGRATE_V3_TO_V4_def split: if_splits)
  then show ?thesis
  proof cases
    case 1
    with script_sets_version [OF assms(2) [unfolded 1(2)] assms(3)] show ?thesis by simp
  next
    case 2
    with script_sets_version [OF assms(2) [unfolded 2(2)] assms(3)] show ?thesis by simp
  next
    case 3
    with script_sets_version [OF assms(2) [unfolded 3(2)] assms(3)] show ?thesis by simp
  qed
qed

termination migrate_loop
  by (relation "measure (\<lambda>(v, _). steps_left v)")
    (auto intro: migration_progress dest!: sym [of "(_, _)"] simp del: steps_left.simps)

declare migrate_loop.simps [simp del]

definition pragma_foreign_keys_on :: "conn \<Rightarrow> sql_error + conn" where
  "pragma_foreign_keys_on c = Inr (if tx c = None then c\<lparr>fk_on := True\<rparr> else c)"

text \<open>\<open>busy_timeout\<close> and \<open>journal_mode\<close> do not touch the modelled state.\<close>

definition pragma_noop :: "conn \<Rightarrow> sql_error + conn" where
  "pragma_noop c = Inr c"

definition install_schema :: "unit cas_op" where
  "install_schema =
     bnd (execute_batch [pragma_noop]) (\<lambda>_.
     bnd (ignore_err (execute_batch [pragma_noop])) (\<lambda>_.
     bnd (execute_batch [pragma_foreign_keys_on]) (\<lambda>_.
     bnd (execute_batch BOOTSTRAP_SCHEMA) (\<lambda>_.
     bnd try_read_schema_version (\<lambda>initial.
     bnd (case initial of None \<Rightarrow> ret () | Some v \<Rightarrow> migrate_loop v) (\<lambda>_.
     execute_batch INSTALL_SCHEMA))))))"

definition install_schema_exec :: "unit cas_op" where
  "install_schema_exec =
     bnd (execute_batch [pragma_noop, pragma_noop, pragma_foreign_keys_on]) (\<lambda>_.
     bnd (execute_batch BOOTSTRAP_SCHEMA) (\<lambda>_.
     bnd try_read_schema_version (\<lambda>initial.
     bnd (case initial of None \<Rightarrow> ret () | Some v \<Rightarrow> migrate_loop v) (\<lambda>_.
     execute_batch INSTALL_SCHEMA))))"

section \<open>Opening an external store\<close>

text \<open>Messages as the code formats them, as far as the retry decision depends on them.\<close>

fun sql_message :: "sql_error \<Rightarrow> string" where
  "sql_message (NoSuchTable t) = ''no such table: '' @ t"
| "sql_message (NoSuchColumn t) = ''no such column: '' @ t"
| "sql_message (DuplicateColumn t) = ''duplicate column name: '' @ t"
| "sql_message (TableExists t) = ''table '' @ t @ '' already exists''"
| "sql_message (PrimaryKey t) = ''UNIQUE constraint failed: '' @ t"
| "sql_message (UniqueIndex t) = ''UNIQUE constraint failed: '' @ t"
| "sql_message ForeignKey = ''FOREIGN KEY constraint failed''"
| "sql_message TxActive = ''cannot start a transaction within a transaction''"
| "sql_message NoTx = ''cannot commit - no transaction is active''"
| "sql_message DbLocked = ''database is locked''"
| "sql_message DbInUse = ''database is already in use''"
| "sql_message IntegerOverflow = ''integer overflow''"
| "sql_message (NoSuchDatabase n) = ''no such database: '' @ n"
| "sql_message Misaligned = ''misaligned columns''"
| "sql_message RowidExhausted = ''database or disk is full''"

fun error_message :: "cas_error \<Rightarrow> string" where
  "error_message (Db e) = sql_message e"
| "error_message (IncompatibleSchema v) =
     ''incompatible cas schema version: code expects 4, db has '' @ v @ '' (no upgrade path)''"
| "error_message VersionMissing = ''schema_version missing after install''"
| "error_message _ = ''other error''"

definition is_lock_contention :: "cas_error \<Rightarrow> bool" where
  "is_lock_contention e =
     (let msg = to_ascii_lowercase (error_message e) in contains_str msg ''locked'' \<or> contains_str msg ''busy'')"

definition backoff_ms :: "nat \<Rightarrow> nat" where
  "backoff_ms attempt = 10 * min attempt 10"

text \<open>The loop of \<open>open_external\<close>. \<open>install n\<close> is what \<open>install_schema\<close> does in attempt \<open>n\<close>: other
  processes may hold the lock at any of its statements, so an attempt may fail where another one
  succeeds. The number is the milliseconds slept so far.\<close>

function retry_install :: "(nat \<Rightarrow> unit cas_op) \<Rightarrow> nat \<Rightarrow> nat \<Rightarrow> nat cas_op" where
  "retry_install install attempt slept c =
     (case install attempt c of
        (Inr _, c1) \<Rightarrow> (Inr slept, c1)
      | (Inl e, c1) \<Rightarrow>
          (case ignore_err (execute_batch [rollback_tx]) c1 of (_, c2) \<Rightarrow>
             if attempt < 60 \<and> is_lock_contention e
             then retry_install install (attempt + 1) (slept + backoff_ms (attempt + 1)) c2
             else (Inl e, c2)))"
  by pat_completeness auto
termination by (relation "measure (\<lambda>(_, attempt, _, _). 60 - attempt)") auto

declare retry_install.simps [simp del]

definition open_external :: "(nat \<Rightarrow> unit cas_op) \<Rightarrow> cas_db \<Rightarrow> (nat \<Rightarrow> int) \<Rightarrow> (cas_error + nat) \<times> conn" where
  "open_external install d clk = retry_install install 0 0 (open_conn d clk)"

definition open_internal :: "unit cas_op" where
  "open_internal = install_schema"

text \<open>The file name under the home directory is fixed.\<close>

definition default_external_path :: "string option \<Rightarrow> string" where
  "default_external_path home = (case home of None \<Rightarrow> ''.'' | Some h \<Rightarrow> h) @ ''/.cache/sqlink/cas.sqlite''"

definition drop_schema :: "unit cas_op" where
  "drop_schema = execute_batch [begin_tx, on_db (\<lambda>d. d\<lparr>uri_t := None\<rparr>), on_db (\<lambda>d. d\<lparr>artifact_t := None\<rparr>),
     on_db (\<lambda>d. d\<lparr>meta_t := None\<rparr>), commit_tx]"

section \<open>Database shapes\<close>

definition meta_version :: "cas_db \<Rightarrow> string option" where
  "meta_version d = (case meta_t d of None \<Rightarrow> None | Some m \<Rightarrow> map_option snd (lookup_by fst version_key m))"

definition no_bundle_tables :: "cas_db \<Rightarrow> bool" where
  "no_bundle_tables d \<longleftrightarrow> bundle_t d = None \<and> bundle_v4_t d = None \<and> member_t d = None \<and> binary_t d = None \<and> alias_t d = None"

definition store_tables :: "cas_db \<Rightarrow> bool" where
  "store_tables d \<longleftrightarrow> uri_t d \<noteq> None \<and> (\<exists>t. artifact_t d = Some t \<and> ''sha256'' \<in> set (at_cols t) \<and> at_sha_unique t)"

definition fresh_db :: "cas_db \<Rightarrow> bool" where
  "fresh_db d \<longleftrightarrow> meta_version d = None \<and> artifact_t d = None \<and> uri_t d = None \<and> no_bundle_tables d"

definition v1_db :: "cas_db \<Rightarrow> bool" where
  "v1_db d \<longleftrightarrow> meta_version d = Some ''1'' \<and> uri_t d \<noteq> None \<and> no_bundle_tables d \<and>
     (\<exists>t. artifact_t d = Some t \<and> ''sha256'' \<notin> set (at_cols t) \<and> \<not> at_sha_unique t)"

definition v2_db :: "cas_db \<Rightarrow> bool" where
  "v2_db d \<longleftrightarrow> meta_version d = Some ''2'' \<and> store_tables d \<and> no_bundle_tables d"

definition v3_db :: "cas_db \<Rightarrow> bool" where
  "v3_db d \<longleftrightarrow> meta_version d = Some ''3'' \<and> store_tables d \<and> bundle_t d \<noteq> None \<and> bundle_v4_t d = None \<and>
     member_t d \<noteq> None \<and> binary_t d \<noteq> None \<and> alias_t d = None"

definition v4_db :: "cas_db \<Rightarrow> bool" where
  "v4_db d \<longleftrightarrow> meta_version d = Some ''4'' \<and> store_tables d \<and> bundle_t d \<noteq> None \<and> bundle_v4_t d = None \<and>
     member_t d \<noteq> None \<and> binary_t d \<noteq> None \<and> alias_t d \<noteq> None"

lemmas shape_defs = fresh_db_def v1_db_def v2_db_def v3_db_def v4_db_def store_tables_def no_bundle_tables_def

lemma update_version_eval:
  assumes "meta_version (db c) = Some w"
  shows "\<exists>m n. update_version v c = Inr (dml n 0 (c\<lparr>db := (db c)\<lparr>meta_t := Some m\<rparr>\<rparr>)) \<and>
    meta_version ((db c)\<lparr>meta_t := Some m\<rparr>) = Some v"
proof -
  obtain m where m: "meta_t (db c) = Some m" "lookup_by fst version_key m \<noteq> None"
    using assms by (auto simp: meta_version_def split: option.splits)
  let ?m = "update_where (\<lambda>kv. fst kv = version_key) (\<lambda>kv. (fst kv, v)) m"
  have "map_option snd (lookup_by fst version_key ?m) = map_option (\<lambda>_. v) (lookup_by fst version_key m)"
    by (induction m) auto
  with m show ?thesis by (auto simp: update_version_def meta_version_def)
qed

lemma meta_version_ignores [simp]:
  "meta_version (d\<lparr>artifact_t := a\<rparr>) = meta_version d" "meta_version (d\<lparr>uri_t := u\<rparr>) = meta_version d"
  "meta_version (d\<lparr>bundle_t := b\<rparr>) = meta_version d" "meta_version (d\<lparr>bundle_v4_t := b\<rparr>) = meta_version d"
  "meta_version (d\<lparr>member_t := mm\<rparr>) = meta_version d" "meta_version (d\<lparr>binary_t := n\<rparr>) = meta_version d"
  "meta_version (d\<lparr>alias_t := l\<rparr>) = meta_version d"
  by (simp_all add: meta_version_def)

lemma commit_app: "tx c \<noteq> None \<Longrightarrow> commit_tx c = Inr (c\<lparr>tx := None\<rparr>)"
  by (simp add: commit_tx_def)

lemma begin_app: "tx c = None \<Longrightarrow> begin_tx c = Inr (c\<lparr>tx := Some (db c)\<rparr>)"
  by (simp add: begin_tx_def)

lemma sha_distinct_cleared: "sha_distinct (map (\<lambda>r. r\<lparr>a_sha256 := None\<rparr>) rs)"
  by (induction rs) (auto simp: sha_distinct_def List.map_filter_def)

lemma migrate_v1_eval:
  assumes d: "v1_db (db c)" and tx: "tx c = None" and t: "artifact_t (db c) = Some t"
  shows "\<exists>c'. execute_batch MIGRATE_V1_TO_V2 c = (Inr (), c') \<and> v2_db (db c') \<and> tx c' = None \<and> fk_on c' = fk_on c \<and>
    uri_t (db c') = uri_t (db c) \<and> artifact_t (db c') = Some (t\<lparr>at_cols := at_cols t @ [''sha256''],
      at_sha_unique := True, at_rows := map (\<lambda>r. r\<lparr>a_sha256 := None\<rparr>) (at_rows t)\<rparr>)"
proof -
  let ?t1 = "t\<lparr>at_cols := at_cols t @ [''sha256''], at_rows := map (\<lambda>r. r\<lparr>a_sha256 := None\<rparr>) (at_rows t)\<rparr>"
  let ?c1 = "c\<lparr>tx := Some (db c), db := (db c)\<lparr>artifact_t := Some (?t1\<lparr>at_sha_unique := True\<rparr>)\<rparr>\<rparr>"
  have v: "meta_version (db ?c1) = Some ''1''" using d by (simp add: v1_db_def)
  obtain m n where m: "update_version ''2'' ?c1 = Inr (dml n 0 (?c1\<lparr>db := (db ?c1)\<lparr>meta_t := Some m\<rparr>\<rparr>))"
    "meta_version ((db ?c1)\<lparr>meta_t := Some m\<rparr>) = Some ''2''" using update_version_eval [OF v] by blast
  have add: "add_sha_column (c\<lparr>tx := Some (db c)\<rparr>) = Inr (c\<lparr>tx := Some (db c), db := (db c)\<lparr>artifact_t := Some ?t1\<rparr>\<rparr>)"
    using d t by (auto simp: add_sha_column_def arts_def v1_db_def)
  have idx: "create_sha_index (c\<lparr>tx := Some (db c), db := (db c)\<lparr>artifact_t := Some ?t1\<rparr>\<rparr>) = Inr ?c1"
    using d t sha_distinct_cleared by (auto simp: create_sha_index_def arts_def v1_db_def)
  show ?thesis
    using d tx t m
    by (auto simp: MIGRATE_V1_TO_V2_def run_op begin_app add idx commit_app shape_defs)
qed

lemma migrate_v2_eval:
  assumes d: "v2_db (db c)" and tx: "tx c = None"
  shows "\<exists>c'. execute_batch MIGRATE_V2_TO_V3 c = (Inr (), c') \<and> v3_db (db c') \<and> tx c' = None \<and> fk_on c' = fk_on c \<and>
    uri_t (db c') = uri_t (db c) \<and> artifact_t (db c') = artifact_t (db c) \<and> member_t (db c') = Some [] \<and>
    binary_t (db c') = Some [] \<and> bundle_t (db c') = Some \<lparr>bt_name_unique = True, bt_rows = []\<rparr>"
proof -
  let ?c1 = "c\<lparr>tx := Some (db c), db := (db c)\<lparr>bundle_t := Some \<lparr>bt_name_unique = True, bt_rows = []\<rparr>,
    member_t := Some [], binary_t := Some []\<rparr>\<rparr>"
  have v: "meta_version (db ?c1) = Some ''2''" using d by (simp add: v2_db_def)
  obtain m n where m: "update_version ''3'' ?c1 = Inr (dml n 0 (?c1\<lparr>db := (db ?c1)\<lparr>meta_t := Some m\<rparr>\<rparr>))"
    "meta_version ((db ?c1)\<lparr>meta_t := Some m\<rparr>) = Some ''3''" using update_version_eval [OF v] by blast
  show ?thesis
    using d tx m
    by (auto simp: MIGRATE_V2_TO_V3_def run_op begin_app create_bundle_def create_member_def create_binary_def on_db_def
        commit_app shape_defs)
qed

lemma insert_aliases_ids: "l_bundle_id ` set (insert_aliases bs ls) \<subseteq> b_id ` set bs \<union> l_bundle_id ` set ls"
proof (induction bs ls rule: insert_aliases.induct)
  case (2 b bs ls)
  then show ?case by (cases "b_name b") (auto split: if_splits)
qed simp

lemma insert_aliases_cascade:
  "orphaned (b_id ` set bs) l_bundle_id (Some (insert_aliases bs [])) = Some []"
  using insert_aliases_ids [of bs "[]"] by (auto simp: orphaned_def delete_where_def filter_empty_conv)

lemma migrate_v3_eval:
  assumes d: "v3_db (db c)" and tx: "tx c = None" and fk: "fk_on c" and bt: "bundle_t (db c) = Some bt"
  shows "\<exists>c'. execute_batch MIGRATE_V3_TO_V4 c = (Inr (), c') \<and> v4_db (db c') \<and> tx c' = None \<and> fk_on c' \<and>
    uri_t (db c') = uri_t (db c) \<and> artifact_t (db c') = artifact_t (db c) \<and>
    bundle_t (db c') = Some \<lparr>bt_name_unique = False, bt_rows = bt_rows bt\<rparr> \<and>
    member_t (db c') = orphaned (b_id ` set (bt_rows bt)) m_bundle_id (member_t (db c)) \<and>
    binary_t (db c') = orphaned (b_id ` set (bt_rows bt)) n_bundle_id (binary_t (db c)) \<and>
    alias_t (db c') = Some []"
proof -
  let ?ids = "b_id ` set (bt_rows bt)"
  let ?d1 = "(db c)\<lparr>member_t := orphaned ?ids m_bundle_id (member_t (db c)),
    binary_t := orphaned ?ids n_bundle_id (binary_t (db c)),
    alias_t := orphaned ?ids l_bundle_id (Some (insert_aliases (bt_rows bt) [])),
    bundle_t := Some \<lparr>bt_name_unique = False, bt_rows = bt_rows bt\<rparr>, bundle_v4_t := None\<rparr>"
  have steps: "\<exists>x y. bnd (exec begin_tx) (\<lambda>_. bnd (exec create_alias) (\<lambda>_. bnd (exec copy_names_to_alias) (\<lambda>_.
      bnd (exec create_bundle_v4) (\<lambda>_. bnd (exec copy_to_bundle_v4) (\<lambda>_. bnd (exec drop_bundle) (\<lambda>_.
      bnd (exec rename_bundle_v4) k)))))) c = k () (c\<lparr>tx := Some (db c), n_changes := x, n_total := y, db := ?d1\<rparr>)" for k
    using d tx fk bt
    by (simp add: run_op begin_app create_alias_def on_db_def copy_names_to_alias_def create_bundle_v4_def Let_def
        copy_to_bundle_v4_def drop_bundle_def rename_bundle_v4_def cascade_def dml_def list_ex_iff v3_db_def) (intro exI, rule refl)
  let ?k = "\<lambda>_::unit. bnd (exec (update_version ''4'')) (\<lambda>_. bnd (exec commit_tx) (\<lambda>_. ret ()))"
  obtain x y where xy: "execute_batch MIGRATE_V3_TO_V4 c =
      ?k () (c\<lparr>tx := Some (db c), n_changes := x, n_total := y, db := ?d1\<rparr>)"
    using steps [of ?k] unfolding MIGRATE_V3_TO_V4_def execute_batch.simps by blast
  let ?c1 = "c\<lparr>tx := Some (db c), n_changes := x, n_total := y, db := ?d1\<rparr>"
  have v: "meta_version (db ?c1) = Some ''3''" using d by (simp add: v3_db_def)
  obtain m n where m: "update_version ''4'' ?c1 = Inr (dml n 0 (?c1\<lparr>db := (db ?c1)\<lparr>meta_t := Some m\<rparr>\<rparr>))"
    "meta_version ((db ?c1)\<lparr>meta_t := Some m\<rparr>) = Some ''4''" using update_version_eval [OF v] by blast
  show ?thesis
    unfolding xy using d fk m insert_aliases_cascade [of "bt_rows bt"]
    by (auto simp: run_op commit_app v3_db_def v4_db_def store_tables_def orphaned_def)
qed

lemma replace_version_eval:
  assumes "meta_t (db c) = Some m"
  shows "\<exists>m'. replace_version v c = Inr (dml 1 0 (c\<lparr>db := (db c)\<lparr>meta_t := Some m'\<rparr>\<rparr>)) \<and>
    meta_version ((db c)\<lparr>meta_t := Some m'\<rparr>) = Some v"
proof -
  have "version_key \<notin> fst ` set (delete_where (\<lambda>kv. fst kv = version_key) m)" by (auto simp: set_delete_where)
  then have "lookup_by fst version_key (delete_where (\<lambda>kv. fst kv = version_key) m) = None"
    by (simp add: lookup_by_None_iff)
  with assms show ?thesis by (auto simp: replace_version_def meta_version_def lookup_by_append)
qed

text \<open>\<open>INSTALL_SCHEMA\<close> on a current database only rewrites the version row.\<close>

lemma install_v4_eval:
  assumes d: "v4_db (db c)" and tx: "tx c = None"
  shows "\<exists>c' m. execute_batch INSTALL_SCHEMA c = (Inr (), c') \<and> v4_db (db c') \<and> tx c' = None \<and> fk_on c' = fk_on c \<and>
    db c' = (db c)\<lparr>meta_t := Some m\<rparr>"
proof -
  from d obtain m0 where m0: "meta_t (db c) = Some m0" by (auto simp: v4_db_def meta_version_def split: option.splits)
  let ?c1 = "c\<lparr>tx := Some (db c)\<rparr>"
  obtain m where m: "replace_version ''4'' ?c1 = Inr (dml 1 0 (?c1\<lparr>db := (db ?c1)\<lparr>meta_t := Some m\<rparr>\<rparr>))"
    "meta_version ((db ?c1)\<lparr>meta_t := Some m\<rparr>) = Some ''4''" using replace_version_eval [of ?c1 m0 "''4''"] m0 by auto
  show ?thesis
    using d tx m m0
    by (auto simp: INSTALL_SCHEMA_def run_op begin_app create_artifact_def create_sha_index_def arts_def create_uri_def
        create_meta_def create_bundle_def create_member_def create_binary_def create_alias_def on_db_def commit_app
        v4_db_def store_tables_def)
qed

lemma install_fresh_eval:
  assumes d: "fresh_db (db c)" "meta_t (db c) = Some m0" and tx: "tx c = None"
  shows "\<exists>c' m. execute_batch INSTALL_SCHEMA c = (Inr (), c') \<and> v4_db (db c') \<and> tx c' = None \<and> fk_on c' = fk_on c \<and>
    db c' = fresh_tables\<lparr>meta_t := Some m\<rparr>"
proof -
  let ?c1 = "c\<lparr>tx := Some (db c), db := fresh_tables\<lparr>meta_t := Some m0\<rparr>\<rparr>"
  obtain m where m: "replace_version ''4'' ?c1 = Inr (dml 1 0 (?c1\<lparr>db := (db ?c1)\<lparr>meta_t := Some m\<rparr>\<rparr>))"
    "meta_version ((db ?c1)\<lparr>meta_t := Some m\<rparr>) = Some ''4''" using replace_version_eval [of ?c1 m0 "''4''"] by auto
  have same: "(db c)\<lparr>artifact_t := Some \<lparr>at_cols = artifact_columns, at_sha_unique = True, at_rows = []\<rparr>, uri_t := Some [],
      bundle_t := Some \<lparr>bt_name_unique = False, bt_rows = []\<rparr>, member_t := Some [], binary_t := Some [], alias_t := Some []\<rparr> =
    fresh_tables\<lparr>meta_t := Some m0\<rparr>"
    using d by (simp add: fresh_tables_def fresh_db_def no_bundle_tables_def)
  have cols: "''sha256'' \<in> set artifact_columns" by (simp add: artifact_columns_def)
  have ft: "artifact_t fresh_tables = Some \<lparr>at_cols = artifact_columns, at_sha_unique = True, at_rows = []\<rparr>"
    "uri_t fresh_tables = Some []" "bundle_t fresh_tables = Some \<lparr>bt_name_unique = False, bt_rows = []\<rparr>"
    "bundle_v4_t fresh_tables = None" "member_t fresh_tables = Some []" "binary_t fresh_tables = Some []"
    "alias_t fresh_tables = Some []" by (simp_all add: fresh_tables_def)
  show ?thesis
    using d tx m cols
    by (simp add: INSTALL_SCHEMA_def run_op begin_app create_artifact_def create_sha_index_def arts_def create_uri_def
        create_meta_def create_bundle_def create_member_def create_binary_def create_alias_def on_db_def commit_app
        v4_db_def store_tables_def fresh_db_def no_bundle_tables_def sha_distinct_def List.map_filter_def ft same) blast
qed

section \<open>The whole installation\<close>

lemma read_version_eval: "meta_version (db c) = Some v \<Longrightarrow> read_schema_version c = (Inr v, c)"
  by (auto simp: read_schema_version_def try_read_schema_version_def version_sel_def meta_version_def select_def bnd_def
      split: option.splits)

lemma try_read_eval: "meta_t (db c) \<noteq> None \<Longrightarrow> try_read_schema_version c = (Inr (meta_version (db c)), c)"
  by (auto simp: try_read_schema_version_def version_sel_def meta_version_def select_def)

lemma migrate_loop_done: "migrate_loop ''4'' c = (Inr (), c)"
  by (simp add: migrate_loop.simps SCHEMA_VERSION_def)

lemma migrate_loop_step:
  assumes "migration_from v = Some script" "execute_batch script c = (Inr (), c1)" "meta_version (db c1) = Some w"
  shows "migrate_loop v c = migrate_loop w c1"
proof -
  have "v \<noteq> SCHEMA_VERSION" using assms(1) by (auto simp: migration_from_def SCHEMA_VERSION_def split: if_splits)
  with assms show ?thesis by (simp add: migrate_loop.simps [of v c] read_version_eval)
qed

lemma migrate_loop_v3:
  assumes "v3_db (db c)" "tx c = None" "fk_on c" "bundle_t (db c) = Some bt"
  shows "\<exists>c'. migrate_loop ''3'' c = (Inr (), c') \<and> v4_db (db c') \<and> tx c' = None \<and> fk_on c' \<and>
    uri_t (db c') = uri_t (db c) \<and> artifact_t (db c') = artifact_t (db c) \<and>
    bundle_t (db c') = Some \<lparr>bt_name_unique = False, bt_rows = bt_rows bt\<rparr> \<and>
    member_t (db c') = orphaned (b_id ` set (bt_rows bt)) m_bundle_id (member_t (db c)) \<and>
    binary_t (db c') = orphaned (b_id ` set (bt_rows bt)) n_bundle_id (binary_t (db c)) \<and> alias_t (db c') = Some []"
proof -
  obtain c' where c': "execute_batch MIGRATE_V3_TO_V4 c = (Inr (), c')" "v4_db (db c')" "tx c' = None" "fk_on c'"
    "uri_t (db c') = uri_t (db c)" "artifact_t (db c') = artifact_t (db c)"
    "bundle_t (db c') = Some \<lparr>bt_name_unique = False, bt_rows = bt_rows bt\<rparr>"
    "member_t (db c') = orphaned (b_id ` set (bt_rows bt)) m_bundle_id (member_t (db c))"
    "binary_t (db c') = orphaned (b_id ` set (bt_rows bt)) n_bundle_id (binary_t (db c))" "alias_t (db c') = Some []"
    using migrate_v3_eval [OF assms] by blast
  have "migrate_loop ''3'' c = migrate_loop ''4'' c'"
    using c' by (intro migrate_loop_step) (auto simp: migration_from_def v4_db_def)
  with c' show ?thesis by (simp add: migrate_loop_done)
qed

lemma migrate_loop_v2:
  assumes "v2_db (db c)" "tx c = None" "fk_on c"
  shows "\<exists>c'. migrate_loop ''2'' c = (Inr (), c') \<and> v4_db (db c') \<and> tx c' = None \<and> fk_on c' \<and>
    uri_t (db c') = uri_t (db c) \<and> artifact_t (db c') = artifact_t (db c)"
proof -
  obtain c1 where c1: "execute_batch MIGRATE_V2_TO_V3 c = (Inr (), c1)" "v3_db (db c1)" "tx c1 = None" "fk_on c1 = fk_on c"
    "uri_t (db c1) = uri_t (db c)" "artifact_t (db c1) = artifact_t (db c)"
    "bundle_t (db c1) = Some \<lparr>bt_name_unique = True, bt_rows = []\<rparr>"
    using migrate_v2_eval [OF assms(1,2)] by blast
  have "migrate_loop ''2'' c = migrate_loop ''3'' c1"
    using c1 by (intro migrate_loop_step) (auto simp: migration_from_def v3_db_def)
  moreover have "fk_on c1" using c1 assms by simp
  ultimately show ?thesis using migrate_loop_v3 [OF c1(2,3) _ c1(7)] c1(5,6) by auto
qed

lemma migrate_loop_v1:
  assumes "v1_db (db c)" "tx c = None" "fk_on c" "artifact_t (db c) = Some t"
  shows "\<exists>c'. migrate_loop ''1'' c = (Inr (), c') \<and> v4_db (db c') \<and> tx c' = None \<and> fk_on c' \<and>
    uri_t (db c') = uri_t (db c) \<and> artifact_t (db c') = Some (t\<lparr>at_cols := at_cols t @ [''sha256''],
      at_sha_unique := True, at_rows := map (\<lambda>r. r\<lparr>a_sha256 := None\<rparr>) (at_rows t)\<rparr>)"
proof -
  obtain c1 where c1: "execute_batch MIGRATE_V1_TO_V2 c = (Inr (), c1)" "v2_db (db c1)" "tx c1 = None" "fk_on c1 = fk_on c"
    "uri_t (db c1) = uri_t (db c)" "artifact_t (db c1) = Some (t\<lparr>at_cols := at_cols t @ [''sha256''],
      at_sha_unique := True, at_rows := map (\<lambda>r. r\<lparr>a_sha256 := None\<rparr>) (at_rows t)\<rparr>)"
    using migrate_v1_eval [OF assms(1,2,4)] by blast
  have "migrate_loop ''1'' c = migrate_loop ''2'' c1"
    using c1 by (intro migrate_loop_step) (auto simp: migration_from_def v2_db_def)
  moreover have "fk_on c1" using c1 assms by simp
  ultimately show ?thesis using migrate_loop_v2 [OF c1(2,3)] c1(5,6) by auto
qed

text \<open>Up to the migration loop, \<open>install_schema\<close> turns foreign keys on and makes sure of the meta table.\<close>

definition prepared :: "conn \<Rightarrow> conn" where
  "prepared c = c\<lparr>fk_on := True, db := (case meta_t (db c) of None \<Rightarrow> (db c)\<lparr>meta_t := Some []\<rparr> | Some _ \<Rightarrow> db c)\<rparr>"

lemma prepared_simps [simp]:
  "tx (prepared c) = tx c" "fk_on (prepared c)" "meta_t (db (prepared c)) \<noteq> None"
  "meta_version (db (prepared c)) = meta_version (db c)" "artifact_t (db (prepared c)) = artifact_t (db c)"
  "uri_t (db (prepared c)) = uri_t (db c)" "bundle_t (db (prepared c)) = bundle_t (db c)"
  "bundle_v4_t (db (prepared c)) = bundle_v4_t (db c)" "member_t (db (prepared c)) = member_t (db c)"
  "binary_t (db (prepared c)) = binary_t (db c)" "alias_t (db (prepared c)) = alias_t (db c)"
  by (auto simp: prepared_def meta_version_def split: option.splits)

lemma install_schema_run:
  assumes "tx c = None"
  shows "install_schema c = bnd (case meta_version (db c) of None \<Rightarrow> ret () | Some v \<Rightarrow> migrate_loop v)
    (\<lambda>_. execute_batch INSTALL_SCHEMA) (prepared c)"
proof -
  have "install_schema c = bnd try_read_schema_version (\<lambda>initial.
     bnd (case initial of None \<Rightarrow> ret () | Some v \<Rightarrow> migrate_loop v) (\<lambda>_. execute_batch INSTALL_SCHEMA)) (prepared c)"
    using assms
    by (cases "meta_t (db c)") (simp_all add: install_schema_def run_op pragma_noop_def pragma_foreign_keys_on_def BOOTSTRAP_SCHEMA_def create_meta_def
        on_db_def prepared_def bnd_def exec_def ignore_err_def ret_def)
  with try_read_eval [of "prepared c"] show ?thesis by (simp add: bnd_Inr)
qed

lemma install_schema_exec_run: "tx c = None \<Longrightarrow> install_schema_exec c = install_schema c"
  by (simp add: install_schema_exec_def install_schema_def pragma_noop_def pragma_foreign_keys_on_def
      bnd_def exec_def ignore_err_def ret_def)

text \<open>What an upgrade keeps of the artifacts and URIs.\<close>

definition upgraded :: "cas_db \<Rightarrow> cas_db \<Rightarrow> bool" where
  "upgraded d d' \<longleftrightarrow> v4_db d' \<and> uri_t d' = Some (case uri_t d of None \<Rightarrow> [] | Some us \<Rightarrow> us) \<and>
     (\<exists>t'. artifact_t d' = Some t' \<and> at_sha_unique t' \<and> at_rows t' = (case artifact_t d of
         None \<Rightarrow> []
       | Some t \<Rightarrow> if ''sha256'' \<in> set (at_cols t) then at_rows t else map (\<lambda>r. r\<lparr>a_sha256 := None\<rparr>) (at_rows t)))"

definition supported :: "cas_db \<Rightarrow> bool" where
  "supported d \<longleftrightarrow> fresh_db d \<or> v1_db d \<or> v2_db d \<or> v3_db d \<or> v4_db d"

lemma install_schema_eval:
  assumes sup: "supported (db c)" and tx: "tx c = None"
  shows "\<exists>c'. install_schema c = (Inr (), c') \<and> upgraded (db c) (db c') \<and> tx c' = None \<and> fk_on c'"
proof -
  let ?p = "prepared c"
  have after: "\<exists>c' m. install_schema c = (Inr (), c') \<and> v4_db (db c') \<and> tx c' = None \<and> fk_on c' \<and>
      db c' = (db c1)\<lparr>meta_t := Some m\<rparr>"
    if "meta_version (db c) = Some v" "migrate_loop v ?p = (Inr (), c1)" "v4_db (db c1)" "tx c1 = None" "fk_on c1" for v c1
    using install_v4_eval [OF that(3,4)] that install_schema_run [OF tx] by (auto simp: bnd_Inr)
  from sup consider (fresh) "fresh_db (db c)" | (v1) "v1_db (db c)" | (v2) "v2_db (db c)" | (v3) "v3_db (db c)"
    | (v4) "v4_db (db c)" unfolding supported_def by blast
  then show ?thesis
  proof cases
    case fresh
    then have "fresh_db (db ?p)" by (simp add: shape_defs)
    then obtain c' m where c': "execute_batch INSTALL_SCHEMA ?p = (Inr (), c')" "v4_db (db c')" "tx c' = None" "fk_on c'"
      "db c' = fresh_tables\<lparr>meta_t := Some m\<rparr>"
      using install_fresh_eval [of ?p] tx by (metis not_None_eq prepared_simps(1,2,3))
    with fresh install_schema_run [OF tx] show ?thesis
      by (auto simp: upgraded_def fresh_db_def fresh_tables_def)
  next
    case v1
    then obtain t where t: "artifact_t (db c) = Some t" "''sha256'' \<notin> set (at_cols t)" by (auto simp: v1_db_def)
    have "v1_db (db ?p)" using v1 by (simp add: shape_defs)
    then obtain c1 where c1: "migrate_loop ''1'' ?p = (Inr (), c1)" "v4_db (db c1)" "tx c1 = None" "fk_on c1"
      "uri_t (db c1) = uri_t (db c)" "artifact_t (db c1) = Some (t\<lparr>at_cols := at_cols t @ [''sha256''],
        at_sha_unique := True, at_rows := map (\<lambda>r. r\<lparr>a_sha256 := None\<rparr>) (at_rows t)\<rparr>)"
      using migrate_loop_v1 [of ?p t] tx t(1) by auto
    from after [OF _ c1(1-4)] v1 c1(5,6) t show ?thesis by (auto simp: upgraded_def v1_db_def)
  next
    case v2
    then have "v2_db (db ?p)" by (simp add: shape_defs)
    then obtain c1 where c1: "migrate_loop ''2'' ?p = (Inr (), c1)" "v4_db (db c1)" "tx c1 = None" "fk_on c1"
      "uri_t (db c1) = uri_t (db c)" "artifact_t (db c1) = artifact_t (db c)"
      using migrate_loop_v2 [of ?p] tx by auto
    from after [OF _ c1(1-4)] v2 c1(5,6) show ?thesis by (auto simp: upgraded_def v2_db_def store_tables_def)
  next
    case v3
    then obtain bt where "bundle_t (db c) = Some bt" by (auto simp: v3_db_def)
    moreover have "v3_db (db ?p)" using v3 by (simp add: shape_defs)
    ultimately obtain c1 where c1: "migrate_loop ''3'' ?p = (Inr (), c1)" "v4_db (db c1)" "tx c1 = None" "fk_on c1"
      "uri_t (db c1) = uri_t (db c)" "artifact_t (db c1) = artifact_t (db c)"
      using migrate_loop_v3 [of ?p bt] tx by auto
    from after [OF _ c1(1-4)] v3 c1(5,6) show ?thesis by (auto simp: upgraded_def v3_db_def store_tables_def)
  next
    case v4
    then have p: "v4_db (db ?p)" by (simp add: shape_defs)
    from after [OF _ migrate_loop_done p] v4 tx show ?thesis by (auto simp: upgraded_def v4_db_def store_tables_def)
  qed
qed

section \<open>Soundness of the upgraded store\<close>

text \<open>What a database of any version must satisfy for its store to be sound after the upgrade. Rows of
  a version 1 table have no mirror column yet.\<close>

definition content_ok :: "hashers \<Rightarrow> cas_db \<Rightarrow> bool" where
  "content_ok H d \<longleftrightarrow> (case artifact_t d of
       None \<Rightarrow> uri_t d = None
     | Some t \<Rightarrow>
         rows_ok H (if ''sha256'' \<in> set (at_cols t) then at_rows t else map (\<lambda>r. r\<lparr>a_sha256 := None\<rparr>) (at_rows t)) \<and>
         (\<forall>us. uri_t d = Some us \<longrightarrow> distinct (map u_uri us) \<and> (\<forall>u \<in> set us. u_hash u \<in> a_hash ` set (at_rows t))))"

lemma upgraded_store_ok:
  assumes "content_ok H d" "upgraded d d'"
  shows "store_ok H d'"
proof (cases "artifact_t d")
  case None
  with assms show ?thesis
    by (auto simp: content_ok_def upgraded_def store_ok_def tables_ok_def rows_ok_def sha_unique_def)
next
  case (Some t)
  with assms obtain t' where t': "artifact_t d' = Some t'" "at_sha_unique t'" "at_rows t' =
      (if ''sha256'' \<in> set (at_cols t) then at_rows t else map (\<lambda>r. r\<lparr>a_sha256 := None\<rparr>) (at_rows t))"
    by (auto simp: upgraded_def)
  then have hashes: "a_hash ` set (at_rows t') = a_hash ` set (at_rows t)" by (auto simp: image_image)
  have us: "uri_t d' = Some (case uri_t d of None \<Rightarrow> [] | Some us \<Rightarrow> us)" using assms by (simp add: upgraded_def)
  show ?thesis
  proof (cases "uri_t d")
    case None
    with Some t' us assms(1) show ?thesis by (auto simp: content_ok_def store_ok_def tables_ok_def)
  next
    case (Some us0)
    with \<open>artifact_t d = Some t\<close> assms(1) have "distinct (map u_uri us0)"
      "\<forall>u \<in> set us0. u_hash u \<in> a_hash ` set (at_rows t)" "rows_ok H (at_rows t')"
      using t'(3) by (auto simp: content_ok_def)
    with Some t' us hashes show ?thesis by (auto simp: store_ok_def tables_ok_def)
  qed
qed

lemma rollback_clears:
  "\<exists>c2. ignore_err (execute_batch [rollback_tx]) c1 = (Inr (), c2) \<and> tx c2 = None \<and>
     db c2 = (case tx c1 of None \<Rightarrow> db c1 | Some d \<Rightarrow> d)"
  by (cases "tx c1") (simp_all add: ignore_err_def run_op rollback_tx_def)

lemma retry_from:
  assumes fails: "\<And>n c. attempt \<le> n \<Longrightarrow> n < k \<Longrightarrow> P (db c) \<Longrightarrow> tx c = None \<Longrightarrow>
      \<exists>e c'. install n c = (Inl e, c') \<and> is_lock_contention e \<and> P (case tx c' of None \<Rightarrow> db c' | Some d \<Rightarrow> d)"
    and ok: "\<And>c. P (db c) \<Longrightarrow> tx c = None \<Longrightarrow> \<exists>c'. install k c = (Inr (), c') \<and> Q c'"
    and bounds: "attempt \<le> k" "k \<le> 60" and start: "P (db c)" "tx c = None"
  shows "\<exists>c'. retry_install install attempt slept c = (Inr (slept + sum_list (map backoff_ms [Suc attempt..<Suc k])), c') \<and> Q c'"
  using assms
proof (induction "k - attempt" arbitrary: attempt slept c)
  case 0
  then have [simp]: "k = attempt" by simp
  obtain c' where "install attempt c = (Inr (), c')" "Q c'" using 0 by auto
  then show ?case by (simp add: retry_install.simps [of install attempt])
next
  case (Suc n)
  then have lt: "attempt < k" by simp
  obtain e c1 where c1: "install attempt c = (Inl e, c1)" "is_lock_contention e"
    "P (case tx c1 of None \<Rightarrow> db c1 | Some d \<Rightarrow> d)" using Suc.prems(1) [of attempt c] Suc.prems(5,6) lt by auto
  obtain c2 where c2: "ignore_err (execute_batch [rollback_tx]) c1 = (Inr (), c2)" "tx c2 = None"
    "db c2 = (case tx c1 of None \<Rightarrow> db c1 | Some d \<Rightarrow> d)" using rollback_clears by blast
  have step: "retry_install install attempt slept c =
      retry_install install (Suc attempt) (slept + backoff_ms (Suc attempt)) c2"
    using c1 c2(1) lt Suc.prems(4) by (simp add: retry_install.simps [of install attempt])
  have n: "n = k - Suc attempt" using Suc.hyps(2) by simp
  have "\<exists>c'. retry_install install (Suc attempt) (slept + backoff_ms (Suc attempt)) c2 =
      (Inr (slept + backoff_ms (Suc attempt) + sum_list (map backoff_ms [Suc (Suc attempt)..<Suc k])), c') \<and> Q c'"
  proof (rule Suc.hyps(1) [OF n])
    show "\<exists>e c'. install m c = (Inl e, c') \<and> is_lock_contention e \<and> P (case tx c' of None \<Rightarrow> db c' | Some d \<Rightarrow> d)"
      if "Suc attempt \<le> m" "m < k" "P (db c)" "tx c = None" for m c
      using Suc.prems(1) [OF Suc_leD [OF that(1)] that(2-4)] .
    show "\<exists>c'. install k c = (Inr (), c') \<and> Q c'" if "P (db c)" "tx c = None" for c
      using Suc.prems(2) [OF that] .
    show "P (db c2)" using c1(3) c2(3) by simp
  qed (use lt Suc.prems(4) c2(2) in simp_all)
  moreover have "[Suc attempt..<Suc k] = Suc attempt # [Suc (Suc attempt)..<Suc k]" using lt by (simp add: upt_rec)
  ultimately show ?case using step by auto
qed

lemma sum_backoff_bound: "k \<le> 60 \<Longrightarrow> sum_list (map backoff_ms [Suc 0..<Suc k]) \<le> 5550"
proof -
  assume "k \<le> 60"
  moreover have "[Suc 0..<Suc k + (60 - k)] = [Suc 0..<Suc k] @ [Suc k..<Suc k + (60 - k)]"
    by (rule upt_add_eq_append) simp
  ultimately have "[Suc 0..<Suc 60] = [Suc 0..<Suc k] @ [Suc k..<Suc 60]" by simp
  then have "sum_list (map backoff_ms [Suc 0..<Suc k]) \<le> sum_list (map backoff_ms [Suc 0..<Suc 60])" by simp
  also have "\<dots> = 5550" by (simp add: upt_rec backoff_ms_def)
  finally show ?thesis .
qed

text \<open>The first attempts fail on a locked database, the one after them runs undisturbed.\<close>

definition contended :: "nat \<Rightarrow> nat \<Rightarrow> unit cas_op" where
  "contended k n = (if n < k then (\<lambda>c. (Inl (Db DbLocked), c)) else install_schema)"

lemma locked_is_contention: "is_lock_contention (Db DbLocked)"
  by (simp add: is_lock_contention_def to_ascii_lowercase_def)

section \<open>Properties\<close>

text \<open>C3. Installing the schema upgrades every supported database: from an empty file or any of the
  schema versions 1 to 4, \<open>install_schema\<close> succeeds, ends outside a transaction with foreign keys on
  and the version-4 tables in place, keeps all artifacts and URI bindings, and the resulting store is
  sound whenever the old rows were.\<close>

theorem install_schema_upgrades:
  assumes "supported (db c)" "tx c = None" "content_ok H (db c)"
  shows "\<exists>c'. install_schema c = (Inr (), c') \<and> upgraded (db c) (db c') \<and> v4_db (db c') \<and> store_inv H c'"
proof -
  obtain c' where c': "install_schema c = (Inr (), c')" "upgraded (db c) (db c')" "tx c' = None" "fk_on c'"
    using install_schema_eval [OF assms(1,2)] by blast
  with upgraded_store_ok [OF assms(3) c'(2)] show ?thesis by (auto simp: store_inv_def upgraded_def)
qed

text \<open>A version 1 database with one artifact and one binding.\<close>

definition v1_example :: cas_db where
  "v1_example = empty_db\<lparr>meta_t := Some [(version_key, ''1'')],
     artifact_t := Some \<lparr>at_cols = [''hash'', ''bytes'', ''bytes_len'', ''created_at'', ''last_used_at'', ''use_count''],
       at_sha_unique = False, at_rows = [\<lparr>a_hash = blake3 toy_hashers [1], a_sha256 = None, a_bytes = [1], a_bytes_len = 1,
         a_created_at = 0, a_last_used_at = 0, a_use_count = 0\<rparr>]\<rparr>,
     uri_t := Some [\<lparr>u_uri = ''x'', u_hash = blake3 toy_hashers [1], u_fetched_at = 0, u_last_used_at = 0\<rparr>]\<rparr>"

theorem install_schema_upgrades_witness:
  "\<exists>c'. install_schema (open_conn v1_example int) = (Inr (), c') \<and> v4_db (db c') \<and> store_inv toy_hashers c'"
proof -
  have "v1_db v1_example" by (simp add: v1_example_def v1_db_def empty_db_def no_bundle_tables_def meta_version_def version_key_def)
  moreover have "content_ok toy_hashers v1_example"
    by (simp add: v1_example_def content_ok_def empty_db_def rows_ok_def row_ok_def sha_unique_def)
  ultimately show ?thesis
    using install_schema_upgrades [of "open_conn v1_example int" toy_hashers] by (auto simp: open_conn_def supported_def)
qed

text \<open>C35. A database of an unknown version is refused and left alone: no table that exists is changed.\<close>

theorem install_schema_refuses_unknown:
  assumes "tx c = None" "meta_version (db c) = Some v" "v \<notin> {''1'', ''2'', ''3'', ''4''}"
  shows "\<exists>c'. install_schema c = (Inl (IncompatibleSchema v), c') \<and> db c' = db c \<and> tx c' = None"
proof -
  have "migration_from v = None" "v \<noteq> SCHEMA_VERSION" using assms(3) by (auto simp: migration_from_def SCHEMA_VERSION_def)
  then have "migrate_loop v (prepared c) = (Inl (IncompatibleSchema v), prepared c)" by (simp add: migrate_loop.simps)
  moreover have "db (prepared c) = db c" using assms(2) by (auto simp: prepared_def meta_version_def split: option.splits)
  ultimately show ?thesis using install_schema_run [OF assms(1)] assms(1,2) by (simp add: bnd_Inl)
qed

theorem install_schema_refuses_unknown_witness:
  "\<exists>c'. install_schema (open_conn (empty_db\<lparr>meta_t := Some [(version_key, ''9'')]\<rparr>) int) = (Inl (IncompatibleSchema ''9''), c')"
  using install_schema_refuses_unknown [of "open_conn (empty_db\<lparr>meta_t := Some [(version_key, ''9'')]\<rparr>) int" "''9''"]
  by (auto simp: open_conn_def meta_version_def empty_db_def)

text \<open>C34. Concurrent first opens: when the first \<open>k \<le> 60\<close> attempts to install the schema fail on a lock
  (at whatever statement; their open transaction is rolled back) and the next one is undisturbed,
  \<open>open_external\<close> succeeds with an upgraded store after sleeping at most 5550 ms in total.\<close>

theorem open_external_survives_contention:
  assumes "k \<le> 60" "supported d"
    and "\<forall>n < k. \<forall>c. supported (db c) \<and> tx c = None \<longrightarrow> (\<exists>e c'. install n c = (Inl e, c') \<and> is_lock_contention e \<and>
      supported (case tx c' of None \<Rightarrow> db c' | Some d \<Rightarrow> d))"
    and "install k = install_schema"
  shows "\<exists>slept c'. open_external install d clk = (Inr slept, c') \<and> slept \<le> 5550 \<and> v4_db (db c') \<and> fk_on c' \<and> tx c' = None"
proof -
  have "\<exists>c'. retry_install install 0 0 (open_conn d clk) = (Inr (0 + sum_list (map backoff_ms [Suc 0..<Suc k])), c') \<and>
      v4_db (db c') \<and> fk_on c' \<and> tx c' = None"
  proof (rule retry_from [where P = supported])
    show "\<exists>c'. install k c = (Inr (), c') \<and> v4_db (db c') \<and> fk_on c' \<and> tx c' = None"
      if "supported (db c)" "tx c = None" for c
      using install_schema_eval [OF that] assms(4) by (auto simp: upgraded_def)
  qed (use assms in \<open>auto simp: open_conn_def\<close>)
  then show ?thesis using sum_backoff_bound [OF assms(1)] by (auto simp: open_external_def)
qed

theorem open_external_survives_contention_witness:
  "\<exists>slept c'. open_external (contended 2) empty_db int = (Inr slept, c') \<and> v4_db (db c')"
proof -
  have "supported empty_db" by (simp add: supported_def fresh_db_def empty_db_def no_bundle_tables_def meta_version_def)
  moreover have "\<forall>n < 2. \<forall>c. supported (db c) \<and> tx c = None \<longrightarrow> (\<exists>e c'. contended 2 n c = (Inl e, c') \<and>
      is_lock_contention e \<and> supported (case tx c' of None \<Rightarrow> db c' | Some d \<Rightarrow> d))"
    using locked_is_contention by (auto simp: contended_def)
  ultimately show ?thesis
    using open_external_survives_contention [of 2 empty_db "contended 2" int] by (auto simp: contended_def)
qed

text \<open>The bundle-only entry point installs the same schema: outside a transaction,
  \<open>bundles_exec::install_schema\<close> and the store's \<open>install_schema\<close> have the same outcome on every
  database, errors included.\<close>

theorem install_schema_exec_equiv: "tx c = None \<Longrightarrow> install_schema_exec c = install_schema c"
  by (rule install_schema_exec_run)

theorem install_schema_exec_equiv_witness:
  "install_schema_exec (open_conn v1_example int) = install_schema (open_conn v1_example int)"
  by (rule install_schema_exec_equiv) (simp add: open_conn_def)

text \<open>The upgrade from version 3 keeps the bundle rows but empties the three tables that reference them:
  dropping the old parent table with foreign keys on deletes its children.\<close>

theorem v3_upgrade_empties_bundle_children:
  assumes "v3_db (db c)" "tx c = None" "bundle_t (db c) = Some bt" "member_t (db c) = Some ms" "binary_t (db c) = Some ns"
    and "\<forall>m \<in> set ms. m_bundle_id m \<in> b_id ` set (bt_rows bt)" "\<forall>n \<in> set ns. n_bundle_id n \<in> b_id ` set (bt_rows bt)"
  shows "\<exists>c'. install_schema c = (Inr (), c') \<and> bundle_t (db c') = Some \<lparr>bt_name_unique = False, bt_rows = bt_rows bt\<rparr> \<and>
    member_t (db c') = Some [] \<and> binary_t (db c') = Some [] \<and> alias_t (db c') = Some []"
proof -
  have p: "v3_db (db (prepared c))" using assms(1) by (simp add: shape_defs)
  have gone: "orphaned (b_id ` set (bt_rows bt)) m_bundle_id (Some ms) = Some []"
    "orphaned (b_id ` set (bt_rows bt)) n_bundle_id (Some ns) = Some []"
    using assms(6,7) by (auto simp: orphaned_def delete_where_def filter_empty_conv)
  obtain c1 where c1: "migrate_loop ''3'' (prepared c) = (Inr (), c1)" "v4_db (db c1)" "tx c1 = None"
    "bundle_t (db c1) = Some \<lparr>bt_name_unique = False, bt_rows = bt_rows bt\<rparr>"
    "member_t (db c1) = Some []" "binary_t (db c1) = Some []" "alias_t (db c1) = Some []"
    using migrate_loop_v3 [OF p] assms(2-5) gone by auto
  have "meta_version (db c) = Some ''3''" using assms(1) by (simp add: v3_db_def)
  with install_v4_eval [OF c1(2,3)] c1 install_schema_run [OF assms(2)] show ?thesis by (auto simp: bnd_Inr)
qed

end
