(* ===== verification/Cas_Transfer.thy ===== *)
theory Cas_Transfer
  imports Cas_Schema Cas_Evict
begin

text \<open>
  Moving a store between databases: \<open>export_to\<close> and \<open>merge_from\<close> of \<^verbatim>\<open>store.rs\<close>. Another
  database file is the value of its tables; \<open>ATTACH\<close> adds it to the connection under a name and
  \<open>DETACH\<close> removes it. Copying is positional (\<open>SELECT *\<close>), so it is defined when both artifact
  tables list their columns in the same order.
\<close>

section \<open>Statements\<close>

definition attach :: "string \<Rightarrow> cas_db \<Rightarrow> conn \<Rightarrow> sql_error + conn" where
  "attach n d c = (if n \<in> fst ` set (attached c) then Inl DbInUse else Inr (c\<lparr>attached := (n, d) # attached c\<rparr>))"

text \<open>Inside a transaction that has read the attached database, \<open>DETACH\<close> reports it as locked.\<close>

definition detach :: "string \<Rightarrow> conn \<Rightarrow> sql_error + conn" where
  "detach n c =
     (if n \<notin> fst ` set (attached c) then Inl (NoSuchDatabase n)
      else if tx c \<noteq> None then Inl DbLocked
      else Inr (c\<lparr>attached := delete_where (\<lambda>nd. fst nd = n) (attached c)\<rparr>))"

definition attached_db :: "string \<Rightarrow> conn \<Rightarrow> sql_error + cas_db" where
  "attached_db n c = (case lookup_by fst n (attached c) of None \<Rightarrow> Inl (NoSuchDatabase n) | Some nd \<Rightarrow> Inr (snd nd))"

definition set_attached :: "string \<Rightarrow> cas_db \<Rightarrow> conn \<Rightarrow> conn" where
  "set_attached n d c = c\<lparr>attached := update_where (\<lambda>nd. fst nd = n) (\<lambda>nd. (n, d)) (attached c)\<rparr>"

text \<open>\<open>INSERT OR IGNORE\<close> of one artifact row, \<open>INSERT OR REPLACE\<close> of one URI row.\<close>

definition ins_art :: "bool \<Rightarrow> artifact_row list \<Rightarrow> artifact_row \<Rightarrow> artifact_row list" where
  "ins_art uniq rs r =
     (if a_hash r \<in> a_hash ` set rs \<or> uniq \<and> sha_taken (a_hash r) (a_sha256 r) rs then rs else rs @ [r])"

definition ins_uri :: "uri_row list \<Rightarrow> uri_row \<Rightarrow> uri_row list" where
  "ins_uri us u = delete_where (\<lambda>v. u_uri v = u_uri u) us @ [u]"

definition copy_arts :: "artifact_table \<Rightarrow> artifact_table \<Rightarrow> sql_error + artifact_table" where
  "copy_arts src dst =
     (if at_cols src \<noteq> at_cols dst then Inl Misaligned
      else Inr (dst\<lparr>at_rows := foldl (ins_art (at_sha_unique dst)) (at_rows dst) (at_rows src)\<rparr>))"

definition copy_uris :: "bool \<Rightarrow> artifact_table \<Rightarrow> uri_row list \<Rightarrow> uri_row list \<Rightarrow> sql_error + uri_row list" where
  "copy_uris fk arts_dst src dst =
     (if fk \<and> list_ex (\<lambda>u. u_hash u \<notin> a_hash ` set (at_rows arts_dst)) src then Inl ForeignKey
      else Inr (foldl ins_uri dst src))"

definition merge_arts_stmt :: "string \<Rightarrow> conn \<Rightarrow> sql_error + conn" where
  "merge_arts_stmt n c = sbind (attached_db n c) (\<lambda>d. sbind (arts d) (\<lambda>src. sbind (arts (db c)) (\<lambda>dst.
     sbind (copy_arts src dst) (\<lambda>t.
     Inr (dml (length (at_rows t) - length (at_rows dst)) 0 (c\<lparr>db := (db c)\<lparr>artifact_t := Some t\<rparr>\<rparr>))))))"

definition merge_uris_stmt :: "string \<Rightarrow> conn \<Rightarrow> sql_error + conn" where
  "merge_uris_stmt n c = sbind (attached_db n c) (\<lambda>d. sbind (uris d) (\<lambda>src. sbind (uris (db c)) (\<lambda>dst.
     sbind (arts (db c)) (\<lambda>t. sbind (copy_uris (fk_on c) t src dst) (\<lambda>us.
     Inr (dml (length src) 0 (c\<lparr>db := (db c)\<lparr>uri_t := Some us\<rparr>\<rparr>)))))))"

definition export_arts_stmt :: "string \<Rightarrow> conn \<Rightarrow> sql_error + conn" where
  "export_arts_stmt n c = sbind (attached_db n c) (\<lambda>d. sbind (arts d) (\<lambda>dst. sbind (arts (db c)) (\<lambda>src.
     sbind (copy_arts src dst) (\<lambda>t.
     Inr (dml (length (at_rows t) - length (at_rows dst)) 0 (set_attached n (d\<lparr>artifact_t := Some t\<rparr>) c))))))"

definition export_uris_stmt :: "string \<Rightarrow> conn \<Rightarrow> sql_error + conn" where
  "export_uris_stmt n c = sbind (attached_db n c) (\<lambda>d. sbind (uris d) (\<lambda>dst. sbind (uris (db c)) (\<lambda>src.
     sbind (arts d) (\<lambda>t. sbind (copy_uris (fk_on c) t src dst) (\<lambda>us.
     Inr (dml (length src) 0 (set_attached n (d\<lparr>uri_t := Some us\<rparr>) c)))))))"

section \<open>Operations\<close>

record merge_stats =
  artifacts_added :: nat
  uris_net_change :: int

text \<open>The version check on the attached source.\<close>

definition validate_src :: "unit cas_op" where
  "validate_src c =
     (case attached_db ''src'' c of
        Inl e \<Rightarrow> (Inl (Db e), c)
      | Inr d \<Rightarrow>
          (case version_sel d of
             Inl e \<Rightarrow> (Inl (Db e), c)
           | Inr None \<Rightarrow> (Inl SrcNoVersion, c)
           | Inr (Some v) \<Rightarrow> if v \<noteq> SCHEMA_VERSION then (Inl (SrcIncompatible v), c) else (Inr (), c)))"

text \<open>\<open>src\<close> is the database at the source path; an absent file is an empty database.\<close>

definition merge_from :: "cas_db \<Rightarrow> merge_stats cas_op" where
  "merge_from src =
     bnd (execute_batch [attach ''src'' src]) (\<lambda>_.
     bnd (as_result validate_src) (\<lambda>valid.
     case valid of
       Inl e \<Rightarrow> bnd (ignore_err (execute_batch [detach ''src''])) (\<lambda>_. fail e)
     | Inr _ \<Rightarrow>
         bnd artifact_count (\<lambda>before_artifacts.
         bnd uri_count (\<lambda>before_uris.
         bnd (as_result (execute_batch [begin_tx, merge_arts_stmt ''src'', merge_uris_stmt ''src'', commit_tx, detach ''src'']))
           (\<lambda>copied.
         case copied of
           Inl e \<Rightarrow> bnd (ignore_err (execute_batch [detach ''src''])) (\<lambda>_. fail e)
         | Inr _ \<Rightarrow>
             bnd artifact_count (\<lambda>after_artifacts.
             bnd uri_count (\<lambda>after_uris.
             ret \<lparr>artifacts_added = after_artifacts - before_artifacts,
                  uris_net_change = as_i64 after_uris - as_i64 before_uris\<rparr>)))))))"

text \<open>The target file is part of the state: \<open>None\<close> when it does not exist. A committed transaction
  reaches the file; the connection keeps the attached database of a failed one.\<close>

definition export_to :: "(nat \<Rightarrow> int) \<Rightarrow> conn \<times> cas_db option \<Rightarrow> (cas_error + unit) \<times> conn \<times> cas_db option" where
  "export_to clk s =
     (case s of (c, target) \<Rightarrow>
      if target \<noteq> None then (Inl ExportExists, c, target)
      else case install_schema (open_conn empty_db clk) of
        (Inl e, seed) \<Rightarrow> (Inl e, c, Some (db seed))
      | (Inr _, seed) \<Rightarrow>
          (case execute_batch [attach ''dst'' (db seed), begin_tx, export_arts_stmt ''dst'', export_uris_stmt ''dst'', commit_tx] c of
             (Inl e, c1) \<Rightarrow> (Inl e, c1, Some (db seed))
           | (Inr _, c1) \<Rightarrow>
               (case execute_batch [detach ''dst''] c1 of (r, c2) \<Rightarrow>
                  (r, c2, (case attached_db ''dst'' c1 of Inl _ \<Rightarrow> Some (db seed) | Inr d \<Rightarrow> Some d)))))"

section \<open>What a positional copy does\<close>

text \<open>Rows of two stores that can live together: equal mirrors mean equal hashes.\<close>

definition compatible :: "artifact_row list \<Rightarrow> artifact_row list \<Rightarrow> bool" where
  "compatible rs qs \<longleftrightarrow> (\<forall>r \<in> set rs. \<forall>q \<in> set qs. a_sha256 r \<noteq> None \<and> a_sha256 r = a_sha256 q \<longrightarrow> a_hash r = a_hash q)"

lemma sha_unique_subset: "sha_unique rs \<Longrightarrow> set qs \<subseteq> set rs \<Longrightarrow> sha_unique qs"
  unfolding sha_unique_def by blast

lemma compatible_subset: "compatible rs qs \<Longrightarrow> set ps \<subseteq> set qs \<Longrightarrow> compatible rs ps"
  unfolding compatible_def by blast

lemma compatibleD:
  "compatible rs qs \<Longrightarrow> r \<in> set rs \<Longrightarrow> q \<in> set qs \<Longrightarrow> a_sha256 r = a_sha256 q \<Longrightarrow> a_sha256 q \<noteq> None \<Longrightarrow> a_hash r = a_hash q"
  unfolding compatible_def by (drule bspec, assumption, drule bspec, assumption) simp

lemma sha_unique_eqD:
  "sha_unique rs \<Longrightarrow> r \<in> set rs \<Longrightarrow> q \<in> set rs \<Longrightarrow> a_sha256 r = a_sha256 q \<Longrightarrow> a_sha256 q \<noteq> None \<Longrightarrow> a_hash r = a_hash q"
  unfolding sha_unique_def by (drule bspec, assumption, drule bspec, assumption) simp

lemma foldl_ins_art:
  assumes "distinct (map a_hash qs)" "sha_unique qs" "compatible rs qs"
  shows "foldl (ins_art uniq) rs qs = rs @ filter (\<lambda>q. a_hash q \<notin> a_hash ` set rs) qs"
  using assms
proof (induction qs rule: rev_induct)
  case Nil
  then show ?case by simp
next
  case (snoc q qs)
  have IH: "foldl (ins_art uniq) rs qs = rs @ filter (\<lambda>q. a_hash q \<notin> a_hash ` set rs) qs"
    using snoc.prems by (intro snoc.IH) (auto intro: sha_unique_subset compatible_subset)
  have q: "a_hash q \<notin> a_hash ` set qs" using snoc.prems(1) by simp
  have "a_hash r = a_hash q" if "r \<in> set rs \<union> set qs" "a_sha256 q \<noteq> None" "a_sha256 r = a_sha256 q" for r
    using that compatibleD [OF snoc.prems(3), of r q] sha_unique_eqD [OF snoc.prems(2), of r q] by auto
  then have free: "\<not> sha_taken (a_hash q) (a_sha256 q) (rs @ filter (\<lambda>q. a_hash q \<notin> a_hash ` set rs) qs)"
    by (auto simp: sha_taken_def list_ex_iff)
  have step: "foldl (ins_art uniq) rs (qs @ [q]) = ins_art uniq (rs @ filter (\<lambda>q. a_hash q \<notin> a_hash ` set rs) qs) q"
    by (simp add: IH)
  show ?case
  proof (cases "a_hash q \<in> a_hash ` set rs")
    case True
    then show ?thesis unfolding step by (simp add: ins_art_def image_Un)
  next
    case False
    then have "a_hash q \<notin> a_hash ` set (rs @ filter (\<lambda>q. a_hash q \<notin> a_hash ` set rs) qs)" using q by auto
    with False free show ?thesis unfolding step by (simp add: ins_art_def)
  qed
qed

lemma foldl_ins_uri:
  "distinct (map u_uri vs) \<Longrightarrow> foldl ins_uri us vs = filter (\<lambda>u. u_uri u \<notin> u_uri ` set vs) us @ vs"
proof (induction vs rule: rev_induct)
  case (snoc v vs)
  then have "u_uri v \<notin> u_uri ` set vs" by simp
  then have "u_uri u \<noteq> u_uri v" if "u \<in> set vs" for u using that by (metis imageI)
  then have "delete_where (\<lambda>u. u_uri u = u_uri v) vs = vs" by (auto simp: delete_where_def filter_id_conv)
  with snoc show ?case by (auto simp: ins_uri_def delete_where_def intro!: filter_cong)
qed simp

lemma lookup_by_filter:
  "(\<And>r. r \<in> set rs \<Longrightarrow> key r = k \<Longrightarrow> p r) \<Longrightarrow> lookup_by key k (filter p rs) = lookup_by key k rs"
  by (induction rs) auto

lemma merged_rows_ok:
  assumes "rows_ok H rs" "rows_ok H qs" "compatible rs qs"
  shows "rows_ok H (rs @ filter (\<lambda>q. a_hash q \<notin> a_hash ` set rs) qs)"
proof -
  have uniq: "sha_unique (rs @ filter (\<lambda>q. a_hash q \<notin> a_hash ` set rs) qs)"
  proof (rule sha_uniqueI)
    fix r q s
    assume *: "r \<in> set (rs @ filter (\<lambda>q. a_hash q \<notin> a_hash ` set rs) qs)" "q \<in> set (rs @ filter (\<lambda>q. a_hash q \<notin> a_hash ` set rs) qs)"
      and s: "a_sha256 r = Some s" "a_sha256 q = Some s"
    have u: "sha_unique rs" "sha_unique qs" using assms(1,2) by (auto simp: rows_ok_def)
    from * consider "r \<in> set rs" "q \<in> set rs" | "r \<in> set qs" "q \<in> set qs" | "r \<in> set rs" "q \<in> set qs" | "r \<in> set qs" "q \<in> set rs"
      by auto
    then show "a_hash r = a_hash q"
    proof cases
      case 1
      then show ?thesis using sha_uniqueD [OF u(1) _ _ s] by simp
    next
      case 2
      then show ?thesis using sha_uniqueD [OF u(2) _ _ s] by simp
    next
      case 3
      then show ?thesis using compatibleD [OF assms(3), of r q] s by simp
    next
      case 4
      then show ?thesis using compatibleD [OF assms(3), of q r] s by simp
    qed
  qed
  have "distinct (map a_hash (filter (\<lambda>q. a_hash q \<notin> a_hash ` set rs) qs))"
    using assms(2) by (auto simp: rows_ok_def distinct_map_filter)
  moreover have "a_hash ` set rs \<inter> a_hash ` set (filter (\<lambda>q. a_hash q \<notin> a_hash ` set rs) qs) = {}"
    unfolding set_filter by (rule image_filter_disjoint)
  ultimately have "distinct (map a_hash (rs @ filter (\<lambda>q. a_hash q \<notin> a_hash ` set rs) qs))"
    using assms(1) by (simp only: map_append distinct_append set_map rows_ok_def simp_thms)
  moreover have "\<forall>r \<in> set (rs @ filter (\<lambda>q. a_hash q \<notin> a_hash ` set rs) qs). row_ok H r"
    using assms(1,2) by (simp add: rows_ok_def ball_Un)
  ultimately show ?thesis using uniq by (simp only: rows_ok_def simp_thms)
qed

section \<open>Merging\<close>

definition contents_db :: "cas_db \<Rightarrow> bytes \<Rightarrow> bytes option" where
  "contents_db d h = (case artifact_t d of None \<Rightarrow> None | Some t \<Rightarrow> map_option a_bytes (lookup_by a_hash h (at_rows t)))"

definition bindings_db :: "cas_db \<Rightarrow> string \<Rightarrow> bytes option" where
  "bindings_db d u = (case uri_t d of None \<Rightarrow> None | Some us \<Rightarrow> map_option u_hash (lookup_by u_uri u us))"

lemma contents_is_db: "contents c = contents_db (db c)" "bindings c = bindings_db (db c)"
  by (simp_all add: fun_eq_iff contents_def contents_db_def bindings_def bindings_db_def)

text \<open>The source of a merge: a current store in the same layout whose rows fit beside ours.\<close>

definition mergeable :: "hashers \<Rightarrow> cas_db \<Rightarrow> cas_db \<Rightarrow> bool" where
  "mergeable H src d \<longleftrightarrow> v4_db src \<and> store_ok H src \<and> (\<forall>ts t. artifact_t src = Some ts \<and> artifact_t d = Some t \<longrightarrow>
     at_cols ts = at_cols t \<and> compatible (at_rows t) (at_rows ts))"

lemma mergeableE:
  assumes m: "mergeable H src d" and t: "artifact_t d = Some t"
  obtains ts vs where "artifact_t src = Some ts" "uri_t src = Some vs" "tables_ok H ts vs"
    "at_cols ts = at_cols t" "compatible (at_rows t) (at_rows ts)"
proof -
  from m obtain ts vs where ts: "artifact_t src = Some ts" "uri_t src = Some vs" "tables_ok H ts vs"
    unfolding mergeable_def store_ok_def by blast
  moreover from m t ts(1) have "at_cols ts = at_cols t" "compatible (at_rows t) (at_rows ts)"
    unfolding mergeable_def by blast+
  ultimately show thesis by (rule that)
qed

definition merged :: "cas_db \<Rightarrow> cas_db \<Rightarrow> artifact_row list \<times> uri_row list" where
  "merged src d = (let rs = at_rows (the (artifact_t d)); qs = at_rows (the (artifact_t src));
       us = the (uri_t d); vs = the (uri_t src) in
     (rs @ filter (\<lambda>q. a_hash q \<notin> a_hash ` set rs) qs, filter (\<lambda>u. u_uri u \<notin> u_uri ` set vs) us @ vs))"

definition with_tables :: "artifact_row list \<times> uri_row list \<Rightarrow> cas_db \<Rightarrow> cas_db" where
  "with_tables ru d = d\<lparr>artifact_t := Some ((the (artifact_t d))\<lparr>at_rows := fst ru\<rparr>), uri_t := Some (snd ru)\<rparr>"

lemma merge_rows_eval:
  assumes "rows_ok H (at_rows t)" "rows_ok H (at_rows ts)" "compatible (at_rows t) (at_rows ts)" "at_cols ts = at_cols t"
  shows "copy_arts ts t = Inr (t\<lparr>at_rows := at_rows t @ filter (\<lambda>q. a_hash q \<notin> a_hash ` set (at_rows t)) (at_rows ts)\<rparr>)"
  using assms by (simp add: copy_arts_def foldl_ins_art rows_ok_def)

lemma merge_uris_eval:
  assumes "distinct (map u_uri vs)" "\<forall>v \<in> set vs. u_hash v \<in> a_hash ` set (at_rows t')"
  shows "copy_uris fk t' vs us = Inr (filter (\<lambda>u. u_uri u \<notin> u_uri ` set vs) us @ vs)"
  using assms by (auto simp: copy_uris_def list_ex_iff foldl_ins_uri)

lemma hashes_merged:
  "a_hash ` set (rs @ filter (\<lambda>q. a_hash q \<notin> a_hash ` set rs) qs) = a_hash ` set rs \<union> a_hash ` set qs"
  by (simp add: image_Un image_filter_union)

lemma merge_batch_eval:
  assumes inv: "store_inv H c" and m: "mergeable H src (db c)" and att: "attached c = [(''src'', src)]"
  shows "\<exists>c'. execute_batch [begin_tx, merge_arts_stmt ''src'', merge_uris_stmt ''src'', commit_tx, detach ''src''] c = (Inr (), c') \<and>
    db c' = with_tables (merged src (db c)) (db c) \<and> tx c' = None \<and> fk_on c' \<and> attached c' = []"
proof -
  from inv obtain t us where t: "artifact_t (db c) = Some t" "uri_t (db c) = Some us" "tables_ok H t us" "fk_on c" "tx c = None"
    by (rule store_invE)
  from m obtain ts vs where ts: "artifact_t src = Some ts" "uri_t src = Some vs" "tables_ok H ts vs"
    "at_cols ts = at_cols t" "compatible (at_rows t) (at_rows ts)"
    by (rule mergeableE [OF _ t(1)])
  let ?t' = "t\<lparr>at_rows := at_rows t @ filter (\<lambda>q. a_hash q \<notin> a_hash ` set (at_rows t)) (at_rows ts)\<rparr>"
  have ok: "rows_ok H (at_rows t)" "rows_ok H (at_rows ts)" using t(3) ts(3) unfolding tables_ok_def by blast+
  have a: "copy_arts ts t = Inr ?t'" by (rule merge_rows_eval [OF ok ts(5,4)])
  have u: "copy_uris True ?t' vs us = Inr (filter (\<lambda>u. u_uri u \<notin> u_uri ` set vs) us @ vs)"
  proof (rule merge_uris_eval)
    have "a_hash ` set (at_rows ?t') = a_hash ` set (at_rows t) \<union> a_hash ` set (at_rows ts)"
      using hashes_merged [of "at_rows t" "at_rows ts"] by simp
    then show "\<forall>v \<in> set vs. u_hash v \<in> a_hash ` set (at_rows ?t')" using ts(3) unfolding tables_ok_def by simp
    show "distinct (map u_uri vs)" using ts(3) by (simp add: tables_ok_def)
  qed
  show ?thesis
    using t ts a u att
    by (simp add: run_op begin_app merge_arts_stmt_def merge_uris_stmt_def attached_db_def arts_def uris_def commit_app
        detach_def with_tables_def merged_def Let_def delete_where_def dml_def)
qed

lemma merged_view:
  assumes "store_inv H c" "mergeable H src (db c)"
  shows "contents_db (with_tables (merged src (db c)) (db c)) = contents_db src ++ contents_db (db c)"
    "bindings_db (with_tables (merged src (db c)) (db c)) = bindings_db (db c) ++ bindings_db src"
proof -
  from assms(1) obtain t us where t: "artifact_t (db c) = Some t" "uri_t (db c) = Some us" by (rule store_invE)
  from assms(2) obtain ts vs where ts: "artifact_t src = Some ts" "uri_t src = Some vs" by (rule mergeableE [OF _ t(1)])
  have a: "lookup_by a_hash h (at_rows t @ filter (\<lambda>q. a_hash q \<notin> a_hash ` set (at_rows t)) (at_rows ts)) =
      (case lookup_by a_hash h (at_rows t) of None \<Rightarrow> lookup_by a_hash h (at_rows ts) | Some r \<Rightarrow> Some r)" for h
  proof (cases "lookup_by a_hash h (at_rows t)")
    case None
    then have "lookup_by a_hash h (filter (\<lambda>q. a_hash q \<notin> a_hash ` set (at_rows t)) (at_rows ts)) = lookup_by a_hash h (at_rows ts)"
      by (intro lookup_by_filter) (auto simp: lookup_by_None_iff)
    with None show ?thesis by (simp add: lookup_by_append)
  qed (simp add: lookup_by_append)
  have u: "lookup_by u_uri x (filter (\<lambda>u. u_uri u \<notin> u_uri ` set vs) us @ vs) =
      (case lookup_by u_uri x vs of None \<Rightarrow> lookup_by u_uri x us | Some r \<Rightarrow> Some r)" for x
  proof (cases "x \<in> u_uri ` set vs")
    case True
    then have "lookup_by u_uri x (filter (\<lambda>u. u_uri u \<notin> u_uri ` set vs) us) = None"
      unfolding lookup_by_None_iff set_filter by (metis (mono_tags, lifting) imageE mem_Collect_eq)
    with lookup_by_ex [OF True] show ?thesis by (auto simp: lookup_by_append)
  next
    case False
    then have "lookup_by u_uri x vs = None" by (simp add: lookup_by_None_iff)
    moreover have "lookup_by u_uri x (filter (\<lambda>u. u_uri u \<notin> u_uri ` set vs) us) = lookup_by u_uri x us"
      using False by (intro lookup_by_filter) auto
    ultimately show ?thesis by (simp add: lookup_by_append split: option.splits)
  qed
  show "contents_db (with_tables (merged src (db c)) (db c)) = contents_db src ++ contents_db (db c)"
    using t ts a
    by (simp add: fun_eq_iff contents_db_def with_tables_def merged_def Let_def map_add_def split: option.splits)
  show "bindings_db (with_tables (merged src (db c)) (db c)) = bindings_db (db c) ++ bindings_db src"
    using t ts u
    by (simp add: fun_eq_iff bindings_db_def with_tables_def merged_def Let_def map_add_def split: option.splits)
qed

lemma merged_store_ok:
  assumes "store_inv H c" "mergeable H src (db c)"
  shows "store_ok H (with_tables (merged src (db c)) (db c))"
proof -
  from assms(1) obtain t us where t: "artifact_t (db c) = Some t" "uri_t (db c) = Some us" "tables_ok H t us"
    by (rule store_invE)
  from assms(2) obtain ts vs where ts: "artifact_t src = Some ts" "uri_t src = Some vs" "tables_ok H ts vs"
    "compatible (at_rows t) (at_rows ts)" by (rule mergeableE [OF _ t(1)])
  have ok: "rows_ok H (at_rows t)" "rows_ok H (at_rows ts)" "at_sha_unique t" "distinct (map u_uri us)" "distinct (map u_uri vs)"
    "\<forall>u \<in> set us. u_hash u \<in> a_hash ` set (at_rows t)" "\<forall>u \<in> set vs. u_hash u \<in> a_hash ` set (at_rows ts)"
    using t(3) ts(3) unfolding tables_ok_def by blast+
  let ?us = "filter (\<lambda>u. u_uri u \<notin> u_uri ` set vs) us"
  have "set (map u_uri ?us) \<inter> set (map u_uri vs) = {}" by auto
  then have "distinct (map u_uri (?us @ vs))" using ok(4,5) by (simp add: distinct_map_filter)
  moreover have "u_hash u \<in> a_hash ` set (at_rows t @ filter (\<lambda>q. a_hash q \<notin> a_hash ` set (at_rows t)) (at_rows ts))"
    if "u \<in> set (?us @ vs)" for u
    unfolding hashes_merged using that ok(6,7) by auto
  moreover note merged_rows_ok [OF ok(1,2) ts(4)]
  ultimately show ?thesis
    using t(1,2) ts(1,2) ok(3) by (auto simp: store_ok_def tables_ok_def with_tables_def merged_def Let_def simp del: set_append)
qed

lemma counts_eval:
  assumes "artifact_t (db c) = Some t" "uri_t (db c) = Some us"
  shows "artifact_count c = (Inr (as_u64 (int (length (at_rows t)))), c)" "uri_count c = (Inr (as_u64 (int (length us))), c)"
  using assms by (simp_all add: artifact_count_def uri_count_def arts_def uris_def select_def bnd_def)

lemma attached_frame:
  "store_inv H (c\<lparr>attached := a\<rparr>) = store_inv H c" "db (c\<lparr>attached := a\<rparr>) = db c"
  by (simp_all add: store_inv_def)

lemma merge_from_eval:
  assumes inv: "store_inv H c" and m: "mergeable H src (db c)" and att: "attached c = []"
    and t: "artifact_t (db c) = Some t" "uri_t (db c) = Some us"
  shows "\<exists>c'. merge_from src c =
      (Inr \<lparr>artifacts_added = as_u64 (int (length (fst (merged src (db c))))) - as_u64 (int (length (at_rows t))),
        uris_net_change = as_i64 (as_u64 (int (length (snd (merged src (db c)))))) - as_i64 (as_u64 (int (length us)))\<rparr>, c') \<and>
    db c' = with_tables (merged src (db c)) (db c) \<and> tx c' = None \<and> fk_on c' \<and> attached c' = []"
proof -
  let ?c1 = "c\<lparr>attached := [(''src'', src)]\<rparr>"
  have v: "version_sel src = Inr (Some SCHEMA_VERSION)"
    using m by (auto simp: mergeable_def v4_db_def meta_version_def version_sel_def SCHEMA_VERSION_def split: option.splits)
  have valid: "as_result validate_src ?c1 = (Inr (Inr ()), ?c1)"
    using v by (simp add: as_result_def validate_src_def attached_db_def)
  obtain c' where c': "execute_batch [begin_tx, merge_arts_stmt ''src'', merge_uris_stmt ''src'', commit_tx, detach ''src''] ?c1 =
      (Inr (), c')" "db c' = with_tables (merged src (db c)) (db c)" "tx c' = None" "fk_on c'" "attached c' = []"
    using merge_batch_eval [of H ?c1 src] inv m by (auto simp: attached_frame)
  have tabs: "artifact_t (db c') = Some (t\<lparr>at_rows := fst (merged src (db c))\<rparr>)" "uri_t (db c') = Some (snd (merged src (db c)))"
    using c'(2) t by (simp_all add: with_tables_def)
  have copied: "as_result (execute_batch [begin_tx, merge_arts_stmt ''src'', merge_uris_stmt ''src'', commit_tx, detach ''src'']) ?c1 =
      (Inr (Inr ()), c')" using c'(1) by (simp only: as_result_def prod.case)
  have "execute_batch [attach ''src'' src] c = (Inr (), ?c1)" using att by (simp add: run_op attach_def)
  moreover note counts_eval [of ?c1 t us] counts_eval [OF tabs]
  ultimately show ?thesis
    using valid c' t copied by (simp add: merge_from_def bnd_Inr del: execute_batch.simps)
qed

section \<open>Exporting\<close>

lemma seed_eval:
  "\<exists>seed m. install_schema (open_conn empty_db clk) = (Inr (), seed) \<and> v4_db (db seed) \<and> db seed = fresh_tables\<lparr>meta_t := Some m\<rparr>"
proof -
  let ?c = "open_conn empty_db clk"
  have v: "meta_version (db ?c) = None" "tx ?c = None" by (simp_all add: open_conn_def empty_db_def meta_version_def)
  have f: "fresh_db (db (prepared ?c))"
    by (simp add: fresh_db_def no_bundle_tables_def) (simp add: open_conn_def empty_db_def meta_version_def)
  obtain m0 where "meta_t (db (prepared ?c)) = Some m0" using prepared_simps(3) by blast
  from install_fresh_eval [OF f this] v show ?thesis
    using install_schema_run [OF v(2)] by auto
qed

lemma export_batch_eval:
  assumes inv: "store_inv H c" and att: "attached c = []" and d: "d = fresh_tables\<lparr>meta_t := m\<rparr>"
    and t: "artifact_t (db c) = Some t" "at_cols t = artifact_columns" "uri_t (db c) = Some us"
  shows "\<exists>c'. execute_batch [attach ''dst'' d, begin_tx, export_arts_stmt ''dst'', export_uris_stmt ''dst'', commit_tx] c = (Inr (), c') \<and>
    db c' = db c \<and> tx c' = None \<and> fk_on c' \<and> attached c' = [(''dst'', d\<lparr>artifact_t := Some \<lparr>at_cols = artifact_columns,
      at_sha_unique = True, at_rows = at_rows t\<rparr>, uri_t := Some us\<rparr>)]"
proof -
  from inv t have ok: "tables_ok H t us" "fk_on c" "tx c = None" by (auto elim!: store_invE)
  have rows: "distinct (map a_hash (at_rows t))" "sha_unique (at_rows t)" "distinct (map u_uri us)"
    "\<forall>u \<in> set us. u_hash u \<in> a_hash ` set (at_rows t)" using ok(1) unfolding tables_ok_def rows_ok_def by blast+
  let ?t0 = "\<lparr>at_cols = artifact_columns, at_sha_unique = True, at_rows = []\<rparr>"
  let ?t1 = "?t0\<lparr>at_rows := at_rows t\<rparr>"
  have ft: "artifact_t d = Some ?t0" "uri_t d = Some []" by (simp_all add: d fresh_tables_def)
  have "foldl (ins_art True) [] (at_rows t) = at_rows t"
    using foldl_ins_art [OF rows(1,2), of "[]" True] by (simp add: compatible_def)
  then have a: "copy_arts t ?t0 = Inr ?t1" using t by (simp add: copy_arts_def)
  have u: "copy_uris True ?t1 us [] = Inr us" using merge_uris_eval [of us ?t1 True "[]"] rows(3,4) by simp
  show ?thesis
    using ok(2,3) att t ft a u
    by (simp add: run_op attach_def begin_app export_arts_stmt_def export_uris_stmt_def attached_db_def set_attached_def
        arts_def uris_def commit_app dml_def)
qed

lemma export_to_eval:
  assumes inv: "store_inv H c" and att: "attached c = []"
    and t: "artifact_t (db c) = Some t" "at_cols t = artifact_columns" "uri_t (db c) = Some us"
  shows "\<exists>c' d'. export_to clk (c, None) = (Inr (), c', Some d') \<and> db c' = db c \<and> tx c' = None \<and> fk_on c' \<and> attached c' = [] \<and>
    v4_db d' \<and> artifact_t d' = Some \<lparr>at_cols = artifact_columns, at_sha_unique = True, at_rows = at_rows t\<rparr> \<and> uri_t d' = Some us"
proof -
  obtain seed m where seed: "install_schema (open_conn empty_db clk) = (Inr (), seed)" "v4_db (db seed)"
    "db seed = fresh_tables\<lparr>meta_t := Some m\<rparr>" using seed_eval by blast
  let ?d' = "(db seed)\<lparr>artifact_t := Some \<lparr>at_cols = artifact_columns, at_sha_unique = True, at_rows = at_rows t\<rparr>, uri_t := Some us\<rparr>"
  obtain c1 where c1: "execute_batch [attach ''dst'' (db seed), begin_tx, export_arts_stmt ''dst'', export_uris_stmt ''dst'',
      commit_tx] c = (Inr (), c1)" "db c1 = db c" "tx c1 = None" "fk_on c1" "attached c1 = [(''dst'', ?d')]"
    using export_batch_eval [OF inv att seed(3) t] by blast
  have det: "execute_batch [detach ''dst''] c1 = (Inr (), c1\<lparr>attached := []\<rparr>)"
    using c1 by (simp add: run_op detach_def delete_where_def)
  have att1: "attached_db ''dst'' c1 = Inr ?d'" using c1 by (simp add: attached_db_def)
  have "export_to clk (c, None) = (Inr (), c1\<lparr>attached := []\<rparr>, Some ?d')"
    using seed(1) c1(1) det att1 by (simp add: export_to_def del: execute_batch.simps)
  moreover have "v4_db ?d'" using seed(2) by (auto simp: v4_db_def store_tables_def artifact_columns_def)
  ultimately show ?thesis using c1 by simp
qed

section \<open>Properties\<close>

text \<open>C28. Merging another store: for a current source store in the same column layout, whose artifacts
  share a sha-256 mirror with ours only when they are the same, \<open>merge_from\<close> succeeds outside a
  transaction and detaches the source. The result holds the union of both stores, where our bytes win
  for a shared hash and the source's binding wins for a shared URI; it is again a sound store.\<close>

theorem merge_from_union:
  assumes "store_inv H c" "mergeable H src (db c)" "attached c = []"
  shows "\<exists>stats c'. merge_from src c = (Inr stats, c') \<and> contents c' = contents_db src ++ contents c \<and>
    bindings c' = bindings c ++ bindings_db src \<and> store_inv H c' \<and> attached c' = []"
proof -
  from assms(1) obtain t us where t: "artifact_t (db c) = Some t" "uri_t (db c) = Some us" by (rule store_invE)
  obtain stats c' where c': "merge_from src c = (Inr stats, c')" "db c' = with_tables (merged src (db c)) (db c)" "tx c' = None"
    "fk_on c'" "attached c' = []" using merge_from_eval [OF assms t] by blast
  with merged_view [OF assms(1,2)] merged_store_ok [OF assms(1,2)] show ?thesis
    by (auto simp: contents_is_db store_inv_def)
qed

text \<open>A source store built by the operations of the cache.\<close>

definition src_conn :: conn where
  "src_conn = snd (set_uri ''a'' (blake3 toy_hashers [9]) (snd (put toy_hashers [9] toy_conn)))"

lemma src_store: "store_inv toy_hashers src_conn"
  unfolding src_conn_def using keeps_put keeps_set_uri toy_store_inv unfolding keeps_def by blast

lemma src_mergeable: "mergeable toy_hashers (db src_conn) (db demo_conn)"
proof -
  have "store_ok toy_hashers (db src_conn)" using src_store by (simp add: store_inv_def)
  moreover have "v4_db (db src_conn)"
    by (simp add: src_conn_def demo_eval v4_db_def store_tables_def meta_version_def version_key_def artifact_columns_def)
  moreover have "at_cols ts = at_cols t \<and> compatible (at_rows t) (at_rows ts)"
    if "artifact_t (db src_conn) = Some ts" "artifact_t (db demo_conn) = Some t" for ts t
    using that by (auto simp: src_conn_def demo_eval compatible_def)
  ultimately show ?thesis unfolding mergeable_def by blast
qed

theorem merge_from_union_witness:
  "\<exists>stats c'. merge_from (db src_conn) demo_conn = (Inr stats, c') \<and>
     bindings c' ''a'' = Some (blake3 toy_hashers [9]) \<and> store_inv toy_hashers c'"
proof -
  have "attached demo_conn = []" by (simp add: demo_eval)
  moreover have "bindings_db (db src_conn) ''a'' = Some (blake3 toy_hashers [9])"
    by (simp add: src_conn_def demo_eval bindings_db_def)
  ultimately show ?thesis using merge_from_union [OF demo_inv src_mergeable] by (auto simp: map_add_def)
qed

text \<open>Export writes a faithful copy: exporting a sound store in the current layout to a path with
  no file succeeds, leaves the store's own tables alone, and the new file is a version-4 database
  with exactly the same artifacts and bindings. An existing target is refused and not touched.\<close>

theorem export_to_copies:
  assumes "store_inv H c" "attached c = []" "artifact_t (db c) = Some t" "at_cols t = artifact_columns"
  shows "export_to clk (c, Some d) = (Inl ExportExists, c, Some d) \<and>
    (\<exists>c' d'. export_to clk (c, None) = (Inr (), c', Some d') \<and> db c' = db c \<and> attached c' = [] \<and> store_inv H c' \<and>
      v4_db d' \<and> contents_db d' = contents c \<and> bindings_db d' = bindings c)"
proof
  show "export_to clk (c, Some d) = (Inl ExportExists, c, Some d)" by (simp add: export_to_def)
  from assms(1) obtain us where us: "uri_t (db c) = Some us" by (rule store_invE)
  obtain c' d' where e: "export_to clk (c, None) = (Inr (), c', Some d')" "db c' = db c" "tx c' = None" "fk_on c'" "attached c' = []"
    "v4_db d'" "artifact_t d' = Some \<lparr>at_cols = artifact_columns, at_sha_unique = True, at_rows = at_rows t\<rparr>" "uri_t d' = Some us"
    using export_to_eval [OF assms us] by blast
  moreover have "contents_db d' = contents c" "bindings_db d' = bindings c"
    using e(7,8) assms(3) us by (simp_all add: contents_is_db contents_db_def bindings_db_def fun_eq_iff)
  moreover have "store_inv H c'" using e assms(1) by (simp add: store_inv_def)
  ultimately show "\<exists>c' d'. export_to clk (c, None) = (Inr (), c', Some d') \<and> db c' = db c \<and>
      attached c' = [] \<and> store_inv H c' \<and> v4_db d' \<and> contents_db d' = contents c \<and> bindings_db d' = bindings c" by blast
qed

theorem export_to_copies_witness:
  "\<exists>c' d'. export_to int (demo_conn, None) = (Inr (), c', Some d') \<and> contents_db d' = contents demo_conn"
proof -
  obtain t where t: "artifact_t (db demo_conn) = Some t" "at_cols t = artifact_columns" by (simp add: demo_eval)
  have "attached demo_conn = []" by (simp add: demo_eval)
  from export_to_copies [OF demo_inv this t] show ?thesis by blast
qed

text \<open>A failed copy is not rolled back: when the source has a URI whose artifact is in neither store,
  \<open>merge_from\<close> reports the foreign-key error with the transaction still open and the source still
  attached.\<close>

theorem merge_failure_leaves_transaction_open:
  assumes "fk_on c" "tx c = None" "attached c = []" "artifact_t (db c) = Some t" "uri_t (db c) = Some us"
    and "meta_version src = Some ''4''" "artifact_t src = Some ts" "uri_t src = Some vs" "at_cols ts = at_cols t"
    and "list_ex (\<lambda>v. u_hash v \<notin> a_hash ` set (foldl (ins_art (at_sha_unique t)) (at_rows t) (at_rows ts))) vs"
  shows "\<exists>c'. merge_from src c = (Inl (Db ForeignKey), c') \<and> tx c' = Some (db c) \<and> attached c' = [(''src'', src)]"
proof -
  let ?c1 = "c\<lparr>attached := [(''src'', src)]\<rparr>"
  have v: "version_sel src = Inr (Some SCHEMA_VERSION)"
    using assms(6) by (auto simp: meta_version_def version_sel_def SCHEMA_VERSION_def split: option.splits)
  have "as_result validate_src ?c1 = (Inr (Inr ()), ?c1)" using v by (simp add: as_result_def validate_src_def attached_db_def)
  moreover have "execute_batch [attach ''src'' src] c = (Inr (), ?c1)" using assms(3) by (simp add: run_op attach_def)
  moreover have "\<exists>c2. execute_batch [begin_tx, merge_arts_stmt ''src'', merge_uris_stmt ''src'', commit_tx, detach ''src''] ?c1 =
      (Inl (Db ForeignKey), c2) \<and> tx c2 = Some (db c) \<and> attached c2 = [(''src'', src)]"
    using assms
    by (simp add: run_op begin_app merge_arts_stmt_def merge_uris_stmt_def attached_db_def arts_def uris_def copy_arts_def
        copy_uris_def dml_def)
  then obtain c2 where c2: "as_result (execute_batch [begin_tx, merge_arts_stmt ''src'', merge_uris_stmt ''src'', commit_tx,
      detach ''src'']) ?c1 = (Inr (Inl (Db ForeignKey)), c2)" "tx c2 = Some (db c)" "attached c2 = [(''src'', src)]"
    by (auto simp only: as_result_def prod.case)
  moreover have "\<exists>c3. ignore_err (execute_batch [detach ''src'']) c2 = (Inr (), c3) \<and> tx c3 = Some (db c) \<and> attached c3 = [(''src'', src)]"
    using c2 by (simp add: ignore_err_def run_op detach_def)
  moreover have "artifact_count ?c1 = (Inr (as_u64 (int (length (at_rows t)))), ?c1)"
    "uri_count ?c1 = (Inr (as_u64 (int (length us))), ?c1)" using counts_eval [of ?c1 t us] assms(4,5) by simp_all
  ultimately show ?thesis by (auto simp: merge_from_def bnd_Inr simp del: execute_batch.simps)
qed

text \<open>What a positional copy would store when the layouts differ. A table migrated from version 1 has
  its mirror column last, so the copy into a fresh table reads the bytes as the mirror and the length
  as the bytes.\<close>

datatype sql_value = VNull | VInt int | VBlob bytes

definition column_value :: "string \<Rightarrow> artifact_row \<Rightarrow> sql_value" where
  "column_value k r =
     (if k = ''hash'' then VBlob (a_hash r)
      else if k = ''sha256'' then (case a_sha256 r of None \<Rightarrow> VNull | Some s \<Rightarrow> VBlob s)
      else if k = ''bytes'' then VBlob (a_bytes r)
      else if k = ''bytes_len'' then VInt (a_bytes_len r)
      else if k = ''created_at'' then VInt (a_created_at r)
      else if k = ''last_used_at'' then VInt (a_last_used_at r)
      else VInt (a_use_count r))"

definition select_star :: "string list \<Rightarrow> artifact_row \<Rightarrow> sql_value list" where
  "select_star cols r = map (\<lambda>k. column_value k r) cols"

definition migrated_columns :: "string list" where
  "migrated_columns = [''hash'', ''bytes'', ''bytes_len'', ''created_at'', ''last_used_at'', ''use_count'', ''sha256'']"

theorem positional_copy_misaligns:
  "\<exists>c' t. install_schema (open_conn v1_example int) = (Inr (), c') \<and> artifact_t (db c') = Some t \<and>
     at_cols t = migrated_columns \<and>
     (\<forall>r. map_of (zip artifact_columns (select_star (at_cols t) r)) ''sha256'' = Some (VBlob (a_bytes r)) \<and>
          map_of (zip artifact_columns (select_star (at_cols t) r)) ''bytes'' = Some (VInt (a_bytes_len r)))"
proof -
  let ?c = "open_conn v1_example int"
  let ?t = "\<lparr>at_cols = [''hash'', ''bytes'', ''bytes_len'', ''created_at'', ''last_used_at'', ''use_count''],
       at_sha_unique = False, at_rows = [\<lparr>a_hash = blake3 toy_hashers [1], a_sha256 = None, a_bytes = [1], a_bytes_len = 1,
         a_created_at = 0, a_last_used_at = 0, a_use_count = 0\<rparr>]\<rparr>"
  have v: "v1_db (db (prepared ?c))" and m: "meta_version (db ?c) = Some ''1''" and tx: "tx ?c = None"
    and t: "artifact_t (db (prepared ?c)) = Some ?t"
    by (simp_all add: open_conn_def v1_example_def v1_db_def empty_db_def no_bundle_tables_def meta_version_def version_key_def
        prepared_def)
  obtain c1 where c1: "migrate_loop ''1'' (prepared ?c) = (Inr (), c1)" "v4_db (db c1)" "tx c1 = None"
    "artifact_t (db c1) = Some (?t\<lparr>at_cols := at_cols ?t @ [''sha256''], at_sha_unique := True,
      at_rows := map (\<lambda>r. r\<lparr>a_sha256 := None\<rparr>) (at_rows ?t)\<rparr>)"
    using migrate_loop_v1 [OF v _ _ t] tx by auto
  obtain c' where "install_schema ?c = (Inr (), c')" "artifact_t (db c') = artifact_t (db c1)"
    using install_v4_eval [OF c1(2,3)] install_schema_run [OF tx] m c1(1) by (auto simp: bnd_Inr)
  with c1(4) show ?thesis
    by (auto simp: migrated_columns_def artifact_columns_def select_star_def column_value_def)
qed

end
