(* ===== verification/Bundle_Sql.thy ===== *)
theory Bundle_Sql
  imports Cas_Schema
begin

text \<open>
  The SQL of the bundle registry, shared by \<^verbatim>\<open>bundles.rs\<close> and \<^verbatim>\<open>bundles_exec.rs\<close>: one
  statement or query per SQL constant, over the tables \<open>__cas_bundle\<close>, \<open>__cas_bundle_member\<close>,
  \<open>__cas_bundle_binary\<close> and \<open>__cas_bundle_alias\<close> with their primary and foreign keys, the data types of
  the API, and the registry invariant with the lemma that every statement keeps it. Ids are i64 in
  the tables and u64 in the API. \<open>last_rowid\<close> is tracked for inserts into the bundle table, the only
  ones whose row id is read.
\<close>

section \<open>Data of the API\<close>

record bundle_member =
  extension_name :: string
  content_hash :: string

record bundle_summary =
  s_id :: nat
  s_name :: "string option"
  s_set_hash :: string
  s_created_at :: nat
  s_last_used_at :: nat
  s_member_count :: nat
  s_binary_count :: nat

record bundle_binary =
  target_triple :: string
  binary_path :: string
  built_at :: nat

record bundle_detail =
  d_summary :: bundle_summary
  d_members :: "bundle_member list"
  d_binaries :: "bundle_binary list"

record gc_policy =
  keep_last :: "nat option"
  older_than_secs :: "nat option"

section \<open>Tables\<close>

definition bundles :: "cas_db \<Rightarrow> sql_error + bundle_table" where
  "bundles d = need ''__cas_bundle'' (bundle_t d)"

definition members :: "cas_db \<Rightarrow> sql_error + member_row list" where
  "members d = need ''__cas_bundle_member'' (member_t d)"

definition binaries :: "cas_db \<Rightarrow> sql_error + binary_row list" where
  "binaries d = need ''__cas_bundle_binary'' (binary_t d)"

definition aliases :: "cas_db \<Rightarrow> sql_error + alias_row list" where
  "aliases d = need ''__cas_bundle_alias'' (alias_t d)"

definition set_bundles :: "bundle_table \<Rightarrow> bundle_row list \<Rightarrow> conn \<Rightarrow> conn" where
  "set_bundles t rs c = c\<lparr>db := (db c)\<lparr>bundle_t := Some (t\<lparr>bt_rows := rs\<rparr>)\<rparr>\<rparr>"

text \<open>The row id of a new bundle: one more than the largest in use.\<close>

definition next_rowid :: "bundle_row list \<Rightarrow> int" where
  "next_rowid rs = (if rs = [] then 1 else Max (b_id ` set rs) + 1)"

section \<open>Statements\<close>

definition bundle_insert_stmt :: "string option \<Rightarrow> string \<Rightarrow> int \<Rightarrow> conn \<Rightarrow> sql_error + conn" where
  "bundle_insert_stmt name set_hash now c = sbind (bundles (db c)) (\<lambda>t.
     let bid = next_rowid (bt_rows t) in
     if bt_name_unique t \<and> name \<noteq> None \<and> name \<in> b_name ` set (bt_rows t) then Inl (UniqueIndex ''__cas_bundle.name'')
     else if \<not> i64_range bid then Inl RowidExhausted
     else Inr (dml 1 0 ((set_bundles t (bt_rows t @ [\<lparr>b_id = bid, b_name = name, b_set_hash = set_hash,
       b_created_at = now, b_last_used_at = now\<rparr>]) c)\<lparr>last_rowid := bid\<rparr>)))"

definition no_parent :: "int \<Rightarrow> conn \<Rightarrow> bool" where
  "no_parent bid c \<longleftrightarrow> fk_on c \<and> (case bundle_t (db c) of None \<Rightarrow> True | Some t \<Rightarrow> bid \<notin> b_id ` set (bt_rows t))"

definition member_insert_stmt :: "int \<Rightarrow> bundle_member \<Rightarrow> conn \<Rightarrow> sql_error + conn" where
  "member_insert_stmt bid m c = sbind (members (db c)) (\<lambda>ms.
     if list_ex (\<lambda>r. m_bundle_id r = bid \<and> m_extension_name r = extension_name m) ms
     then Inl (PrimaryKey ''__cas_bundle_member'')
     else if no_parent bid c then Inl ForeignKey
     else Inr (dml 1 0 (c\<lparr>db := (db c)\<lparr>member_t := Some (ms @ [\<lparr>m_bundle_id = bid, m_extension_name = extension_name m,
       m_content_hash = content_hash m\<rparr>])\<rparr>\<rparr>)))"

definition alias_find_sel :: "string \<Rightarrow> cas_db \<Rightarrow> sql_error + int option" where
  "alias_find_sel a d = sbind (aliases d) (\<lambda>ls. Inr (map_option l_bundle_id (lookup_by l_name a ls)))"

definition alias_insert_stmt :: "string \<Rightarrow> int \<Rightarrow> int \<Rightarrow> conn \<Rightarrow> sql_error + conn" where
  "alias_insert_stmt a bid now c = sbind (aliases (db c)) (\<lambda>ls.
     if a \<in> l_name ` set ls then Inl (PrimaryKey ''__cas_bundle_alias.name'')
     else if no_parent bid c then Inl ForeignKey
     else Inr (dml 1 0 (c\<lparr>db := (db c)\<lparr>alias_t := Some (ls @ [\<lparr>l_name = a, l_bundle_id = bid, l_created_at = now\<rparr>])\<rparr>\<rparr>)))"

definition alias_delete_stmt :: "string \<Rightarrow> conn \<Rightarrow> sql_error + conn" where
  "alias_delete_stmt a c = sbind (aliases (db c)) (\<lambda>ls.
     Inr (dml (count_where (\<lambda>r. l_name r = a) ls) 0
       (c\<lparr>db := (db c)\<lparr>alias_t := Some (delete_where (\<lambda>r. l_name r = a) ls)\<rparr>\<rparr>)))"

definition aliases_list_sel :: "int \<Rightarrow> cas_db \<Rightarrow> sql_error + string list" where
  "aliases_list_sel bid d = sbind (aliases d) (\<lambda>ls. Inr (sort (map l_name (filter (\<lambda>r. l_bundle_id r = bid) ls))))"

text \<open>The alias table first; the legacy \<open>name\<close> column only for names that no alias has.\<close>

definition find_by_name_sel :: "string \<Rightarrow> cas_db \<Rightarrow> sql_error + bundle_row option" where
  "find_by_name_sel n d = sbind (aliases d) (\<lambda>ls. sbind (bundles d) (\<lambda>t.
     Inr (case lookup_by l_name n ls of
       Some a \<Rightarrow> lookup_by b_id (l_bundle_id a) (bt_rows t)
     | None \<Rightarrow> first_by b_id (filter (\<lambda>b. b_name b = Some n) (bt_rows t)))))"

definition find_first_by_hash_sel :: "string \<Rightarrow> cas_db \<Rightarrow> sql_error + bundle_row option" where
  "find_first_by_hash_sel h d = sbind (bundles d) (\<lambda>t. Inr (first_by b_id (filter (\<lambda>b. b_set_hash b = h) (bt_rows t))))"

text \<open>Most recently used first, ties by id.\<close>

definition lru_key :: "bundle_row \<Rightarrow> int \<times> int" where
  "lru_key b = (- b_last_used_at b, b_id b)"

text \<open>\<open>LIKE\<close> ignores the case of ASCII letters.\<close>

definition like_prefix :: "string \<Rightarrow> string \<Rightarrow> bool" where
  "like_prefix s p \<longleftrightarrow> starts_with (to_ascii_lowercase s) (to_ascii_lowercase p)"

definition find_by_hash_prefix_sel :: "string \<Rightarrow> cas_db \<Rightarrow> sql_error + bundle_row list" where
  "find_by_hash_prefix_sel p d = sbind (bundles d) (\<lambda>t.
     Inr (sort_key lru_key (filter (\<lambda>b. like_prefix (b_set_hash b) p) (bt_rows t))))"

definition list_bundles_sel :: "cas_db \<Rightarrow> sql_error + bundle_row list" where
  "list_bundles_sel d = sbind (bundles d) (\<lambda>t. Inr (sort_key lru_key (bt_rows t)))"

definition show_summary_sel :: "int \<Rightarrow> cas_db \<Rightarrow> sql_error + bundle_row option" where
  "show_summary_sel bid d = sbind (bundles d) (\<lambda>t. Inr (lookup_by b_id bid (bt_rows t)))"

definition members_sel :: "int \<Rightarrow> cas_db \<Rightarrow> sql_error + bundle_member list" where
  "members_sel bid d = sbind (members d) (\<lambda>ms.
     Inr (map (\<lambda>r. \<lparr>extension_name = m_extension_name r, content_hash = m_content_hash r\<rparr>)
       (sort_key m_extension_name (filter (\<lambda>r. m_bundle_id r = bid) ms))))"

definition binaries_sel :: "int \<Rightarrow> cas_db \<Rightarrow> sql_error + bundle_binary list" where
  "binaries_sel bid d = sbind (binaries d) (\<lambda>ns.
     Inr (map (\<lambda>r. \<lparr>target_triple = n_target_triple r, binary_path = n_binary_path r, built_at = as_u64 (n_built_at r)\<rparr>)
       (sort_key n_target_triple (filter (\<lambda>r. n_bundle_id r = bid) ns))))"

definition bundle_delete_stmt :: "int \<Rightarrow> conn \<Rightarrow> sql_error + conn" where
  "bundle_delete_stmt bid c = sbind (bundles (db c)) (\<lambda>t.
     let n = count_where (\<lambda>b. b_id b = bid) (bt_rows t); c' = set_bundles t (delete_where (\<lambda>b. b_id b = bid) (bt_rows t)) c in
     if fk_on c \<and> n \<noteq> 0 then Inr (dml n (cascaded {bid} (db c)) (c'\<lparr>db := cascade {bid} (db c')\<rparr>)) else Inr (dml n 0 c'))"

definition gc_keep_sel :: "int \<Rightarrow> cas_db \<Rightarrow> sql_error + int list" where
  "gc_keep_sel k d = sbind (bundles d) (\<lambda>t. Inr (map b_id (drop (nat k) (sort_key lru_key (bt_rows t)))))"

definition gc_age_sel :: "int \<Rightarrow> cas_db \<Rightarrow> sql_error + int list" where
  "gc_age_sel cutoff d = sbind (bundles d) (\<lambda>t.
     Inr (map b_id (sort_key b_id (filter (\<lambda>b. b_last_used_at b < cutoff) (bt_rows t)))))"

definition record_binary_stmt :: "int \<Rightarrow> string \<Rightarrow> string \<Rightarrow> int \<Rightarrow> conn \<Rightarrow> sql_error + conn" where
  "record_binary_stmt bid triple path now c = sbind (binaries (db c)) (\<lambda>ns.
     if list_ex (\<lambda>r. n_bundle_id r = bid \<and> n_target_triple r = triple) ns
     then Inr (dml 1 0 (c\<lparr>db := (db c)\<lparr>binary_t := Some (update_where (\<lambda>r. n_bundle_id r = bid \<and> n_target_triple r = triple)
       (\<lambda>r. r\<lparr>n_binary_path := path, n_built_at := now\<rparr>) ns)\<rparr>\<rparr>))
     else if no_parent bid c then Inl ForeignKey
     else Inr (dml 1 0 (c\<lparr>db := (db c)\<lparr>binary_t := Some (ns @ [\<lparr>n_bundle_id = bid, n_target_triple = triple,
       n_binary_path = path, n_built_at = now\<rparr>])\<rparr>\<rparr>)))"

definition touch_bundle :: "int \<Rightarrow> bundle_row \<Rightarrow> bundle_row" where
  "touch_bundle now b = b\<lparr>b_last_used_at := now\<rparr>"

definition touch_stmt :: "int \<Rightarrow> int \<Rightarrow> conn \<Rightarrow> sql_error + conn" where
  "touch_stmt bid now c = sbind (bundles (db c)) (\<lambda>t.
     Inr (dml (count_where (\<lambda>b. b_id b = bid) (bt_rows t)) 0
       (set_bundles t (update_where (\<lambda>b. b_id b = bid) (touch_bundle now) (bt_rows t)) c)))"

definition count_members_sel :: "int \<Rightarrow> cas_db \<Rightarrow> sql_error + int" where
  "count_members_sel bid d = sbind (members d) (\<lambda>ms. Inr (int (count_where (\<lambda>r. m_bundle_id r = bid) ms)))"

definition count_binaries_sel :: "int \<Rightarrow> cas_db \<Rightarrow> sql_error + int" where
  "count_binaries_sel bid d = sbind (binaries d) (\<lambda>ns. Inr (int (count_where (\<lambda>r. n_bundle_id r = bid) ns)))"

text \<open>\<open>read_summary_row\<close>: the counts are filled in later.\<close>

definition read_summary_row :: "bundle_row \<Rightarrow> bundle_summary" where
  "read_summary_row b = \<lparr>s_id = as_u64 (b_id b), s_name = b_name b, s_set_hash = b_set_hash b,
     s_created_at = as_u64 (b_created_at b), s_last_used_at = as_u64 (b_last_used_at b), s_member_count = 0, s_binary_count = 0\<rparr>"

section \<open>The registry invariant\<close>

abbreviation bundle_ids :: "bundle_table \<Rightarrow> int set" where
  "bundle_ids t \<equiv> b_id ` set (bt_rows t)"

definition registry_ok :: "bundle_table \<Rightarrow> member_row list \<Rightarrow> binary_row list \<Rightarrow> alias_row list \<Rightarrow> bool" where
  "registry_ok t ms ns ls \<longleftrightarrow> \<not> bt_name_unique t \<and> distinct (map b_id (bt_rows t)) \<and>
     (\<forall>b \<in> set (bt_rows t). 0 < b_id b \<and> b_id b < 2 ^ 63) \<and>
     distinct (map (\<lambda>m. (m_bundle_id m, m_extension_name m)) ms) \<and>
     distinct (map (\<lambda>n. (n_bundle_id n, n_target_triple n)) ns) \<and> distinct (map l_name ls) \<and>
     (\<forall>m \<in> set ms. m_bundle_id m \<in> bundle_ids t) \<and> (\<forall>n \<in> set ns. n_bundle_id n \<in> bundle_ids t) \<and>
     (\<forall>l \<in> set ls. l_bundle_id l \<in> bundle_ids t)"

definition bundle_inv :: "conn \<Rightarrow> bool" where
  "bundle_inv c \<longleftrightarrow> fk_on c \<and> tx c = None \<and> (\<exists>t ms ns ls. bundle_t (db c) = Some t \<and> member_t (db c) = Some ms \<and>
     binary_t (db c) = Some ns \<and> alias_t (db c) = Some ls \<and> registry_ok t ms ns ls)"

lemma bundle_invE:
  assumes "bundle_inv c"
  obtains t ms ns ls where "bundle_t (db c) = Some t" "member_t (db c) = Some ms" "binary_t (db c) = Some ns"
    "alias_t (db c) = Some ls" "registry_ok t ms ns ls" "fk_on c" "tx c = None"
  using assms unfolding bundle_inv_def by blast

lemma bundle_invI:
  "bundle_t (db c) = Some t \<Longrightarrow> member_t (db c) = Some ms \<Longrightarrow> binary_t (db c) = Some ns \<Longrightarrow> alias_t (db c) = Some ls \<Longrightarrow>
   registry_ok t ms ns ls \<Longrightarrow> fk_on c \<Longrightarrow> tx c = None \<Longrightarrow> bundle_inv c"
  unfolding bundle_inv_def by blast

lemma frame_bundle_inv [simp]: "frame bundle_inv"
  by (simp add: frame_def bundle_inv_def)

lemma set_bundles_simps [simp]:
  "bundle_t (db (set_bundles t rs c)) = Some (t\<lparr>bt_rows := rs\<rparr>)" "member_t (db (set_bundles t rs c)) = member_t (db c)"
  "binary_t (db (set_bundles t rs c)) = binary_t (db c)" "alias_t (db (set_bundles t rs c)) = alias_t (db c)"
  "artifact_t (db (set_bundles t rs c)) = artifact_t (db c)" "uri_t (db (set_bundles t rs c)) = uri_t (db c)"
  "tx (set_bundles t rs c) = tx c" "fk_on (set_bundles t rs c) = fk_on c"
  by (simp_all add: set_bundles_def)

interpretation touch_bundle: key_stable b_id "touch_bundle now"
  by unfold_locales (simp add: touch_bundle_def)

lemma next_rowid_fresh: "b \<in> set rs \<Longrightarrow> b_id b < next_rowid rs"
proof -
  assume b: "b \<in> set rs"
  then have "b_id b \<le> Max (b_id ` set rs)" by simp
  with b show ?thesis by (auto simp: next_rowid_def)
qed

lemma next_rowid_pos:
  assumes "\<forall>b \<in> set rs. 0 < b_id b"
  shows "0 < next_rowid rs"
proof (cases rs)
  case (Cons b bs)
  then have "b_id b < next_rowid rs" "0 < b_id b" using next_rowid_fresh assms by auto
  then show ?thesis by simp
qed (simp add: next_rowid_def)

lemma bundle_insert_stmt_inv:
  assumes inv: "bundle_inv c" and st: "bundle_insert_stmt name h now c = Inr c'"
  shows "bundle_inv c'"
proof -
  from inv obtain t ms ns ls where t: "bundle_t (db c) = Some t" "member_t (db c) = Some ms" "binary_t (db c) = Some ns"
    "alias_t (db c) = Some ls" "registry_ok t ms ns ls" "fk_on c" "tx c = None" by (rule bundle_invE)
  let ?b = "\<lparr>b_id = next_rowid (bt_rows t), b_name = name, b_set_hash = h, b_created_at = now, b_last_used_at = now\<rparr>"
  have c': "c' = dml 1 0 ((set_bundles t (bt_rows t @ [?b]) c)\<lparr>last_rowid := next_rowid (bt_rows t)\<rparr>)"
    and range: "i64_range (next_rowid (bt_rows t))"
    using st t by (auto simp: bundle_insert_stmt_def bundles_def Let_def split: if_splits)
  have "next_rowid (bt_rows t) \<notin> bundle_ids t" using next_rowid_fresh by fastforce
  moreover have "0 < next_rowid (bt_rows t)" using t(5) by (intro next_rowid_pos) (simp add: registry_ok_def)
  ultimately have "registry_ok (t\<lparr>bt_rows := bt_rows t @ [?b]\<rparr>) ms ns ls"
    using t(5) range unfolding registry_ok_def i64_range_def by simp
  then show ?thesis using t by (intro bundle_invI) (auto simp: c')
qed

lemma child_inv:
  assumes inv: "bundle_inv c" and same: "bundle_t (db c') = bundle_t (db c)" "fk_on c' = fk_on c" "tx c' = tx c"
    and kids: "\<And>t ms ns ls. bundle_t (db c) = Some t \<Longrightarrow> member_t (db c) = Some ms \<Longrightarrow> binary_t (db c) = Some ns \<Longrightarrow>
      alias_t (db c) = Some ls \<Longrightarrow> registry_ok t ms ns ls \<Longrightarrow>
      \<exists>ms' ns' ls'. member_t (db c') = Some ms' \<and> binary_t (db c') = Some ns' \<and> alias_t (db c') = Some ls' \<and> registry_ok t ms' ns' ls'"
  shows "bundle_inv c'"
proof -
  from inv obtain t ms ns ls where t: "bundle_t (db c) = Some t" "member_t (db c) = Some ms" "binary_t (db c) = Some ns"
    "alias_t (db c) = Some ls" "registry_ok t ms ns ls" "fk_on c" "tx c = None" by (rule bundle_invE)
  from kids [OF t(1-5)] obtain ms' ns' ls' where "member_t (db c') = Some ms'" "binary_t (db c') = Some ns'"
    "alias_t (db c') = Some ls'" "registry_ok t ms' ns' ls'" by blast
  with t same show ?thesis by (intro bundle_invI [of c' t ms' ns' ls']) auto
qed

lemma no_parent_iff: "fk_on c \<Longrightarrow> bundle_t (db c) = Some t \<Longrightarrow> no_parent bid c \<longleftrightarrow> bid \<notin> bundle_ids t"
  by (simp add: no_parent_def)

lemma member_insert_stmt_inv:
  assumes inv: "bundle_inv c" and st: "member_insert_stmt bid m c = Inr c'"
  shows "bundle_inv c'"
proof (rule child_inv [OF inv])
  have fk: "fk_on c" using inv by (simp add: bundle_inv_def)
  show "bundle_t (db c') = bundle_t (db c)" "fk_on c' = fk_on c" "tx c' = tx c"
    using st by (auto simp: member_insert_stmt_def members_def sbind_eq_Inr_iff split: if_splits)
  fix t ms ns ls
  assume t: "bundle_t (db c) = Some t" "member_t (db c) = Some ms" "binary_t (db c) = Some ns" "alias_t (db c) = Some ls"
    "registry_ok t ms ns ls"
  let ?m = "\<lparr>m_bundle_id = bid, m_extension_name = extension_name m, m_content_hash = content_hash m\<rparr>"
  have "registry_ok t (ms @ [?m]) ns ls"
    using st t fk by (auto simp: member_insert_stmt_def members_def registry_ok_def no_parent_iff list_ex_iff split: if_splits)
  with st t show "\<exists>ms' ns' ls'. member_t (db c') = Some ms' \<and> binary_t (db c') = Some ns' \<and> alias_t (db c') = Some ls' \<and>
      registry_ok t ms' ns' ls'"
    by (auto simp: member_insert_stmt_def members_def split: if_splits)
qed

lemma alias_insert_stmt_inv:
  assumes inv: "bundle_inv c" and st: "alias_insert_stmt a bid now c = Inr c'"
  shows "bundle_inv c'"
proof (rule child_inv [OF inv])
  have fk: "fk_on c" using inv by (simp add: bundle_inv_def)
  show "bundle_t (db c') = bundle_t (db c)" "fk_on c' = fk_on c" "tx c' = tx c"
    using st by (auto simp: alias_insert_stmt_def aliases_def sbind_eq_Inr_iff split: if_splits)
  fix t ms ns ls
  assume t: "bundle_t (db c) = Some t" "member_t (db c) = Some ms" "binary_t (db c) = Some ns" "alias_t (db c) = Some ls"
    "registry_ok t ms ns ls"
  have "registry_ok t ms ns (ls @ [\<lparr>l_name = a, l_bundle_id = bid, l_created_at = now\<rparr>])"
    using st t fk by (auto simp: alias_insert_stmt_def aliases_def registry_ok_def no_parent_iff split: if_splits)
  with st t show "\<exists>ms' ns' ls'. member_t (db c') = Some ms' \<and> binary_t (db c') = Some ns' \<and> alias_t (db c') = Some ls' \<and>
      registry_ok t ms' ns' ls'"
    by (auto simp: alias_insert_stmt_def aliases_def split: if_splits)
qed

lemma alias_delete_stmt_inv:
  assumes inv: "bundle_inv c" and st: "alias_delete_stmt a c = Inr c'"
  shows "bundle_inv c'"
proof (rule child_inv [OF inv])
  show "bundle_t (db c') = bundle_t (db c)" "fk_on c' = fk_on c" "tx c' = tx c"
    using st by (auto simp: alias_delete_stmt_def aliases_def sbind_eq_Inr_iff)
  fix t ms ns ls
  assume t: "bundle_t (db c) = Some t" "member_t (db c) = Some ms" "binary_t (db c) = Some ns" "alias_t (db c) = Some ls"
    "registry_ok t ms ns ls"
  have "registry_ok t ms ns (delete_where (\<lambda>r. l_name r = a) ls)"
    using t(5) by (auto simp: registry_ok_def set_delete_where distinct_delete_where)
  with st t show "\<exists>ms' ns' ls'. member_t (db c') = Some ms' \<and> binary_t (db c') = Some ns' \<and> alias_t (db c') = Some ls' \<and>
      registry_ok t ms' ns' ls'"
    by (auto simp: alias_delete_stmt_def aliases_def)
qed

interpretation rebuild: key_stable "\<lambda>n. (n_bundle_id n, n_target_triple n)" "\<lambda>r. r\<lparr>n_binary_path := path, n_built_at := now\<rparr>"
  by unfold_locales simp

lemma record_binary_stmt_inv:
  assumes inv: "bundle_inv c" and st: "record_binary_stmt bid tr p now c = Inr c'"
  shows "bundle_inv c'"
proof (rule child_inv [OF inv])
  have fk: "fk_on c" using inv by (simp add: bundle_inv_def)
  show "bundle_t (db c') = bundle_t (db c)" "fk_on c' = fk_on c" "tx c' = tx c"
    using st by (auto simp: record_binary_stmt_def binaries_def sbind_eq_Inr_iff split: if_splits)
  fix t ms ns ls
  assume t: "bundle_t (db c) = Some t" "member_t (db c) = Some ms" "binary_t (db c) = Some ns" "alias_t (db c) = Some ls"
    "registry_ok t ms ns ls"
  obtain ns' where ns': "binary_t (db c') = Some ns'" "member_t (db c') = Some ms" "alias_t (db c') = Some ls"
    "ns' = update_where (\<lambda>r. n_bundle_id r = bid \<and> n_target_triple r = tr) (\<lambda>r. r\<lparr>n_binary_path := p, n_built_at := now\<rparr>) ns \<or>
     (bid \<in> bundle_ids t \<and> (\<forall>r \<in> set ns. \<not> (n_bundle_id r = bid \<and> n_target_triple r = tr)) \<and>
      ns' = ns @ [\<lparr>n_bundle_id = bid, n_target_triple = tr, n_binary_path = p, n_built_at = now\<rparr>])"
    using st t fk by (auto simp: record_binary_stmt_def binaries_def no_parent_iff list_ex_iff split: if_splits)
  from ns'(4) have "registry_ok t ms ns' ls"
  proof
    assume u: "ns' = update_where (\<lambda>r. n_bundle_id r = bid \<and> n_target_triple r = tr) (\<lambda>r. r\<lparr>n_binary_path := p, n_built_at := now\<rparr>) ns"
    have "\<forall>n \<in> set ns'. n_bundle_id n \<in> bundle_ids t"
      unfolding u using t(5) by (auto simp: registry_ok_def elim!: in_update_whereE)
    with t(5) show ?thesis by (simp add: registry_ok_def u rebuild.keys_update_where)
  next
    assume "bid \<in> bundle_ids t \<and> (\<forall>r \<in> set ns. \<not> (n_bundle_id r = bid \<and> n_target_triple r = tr)) \<and>
      ns' = ns @ [\<lparr>n_bundle_id = bid, n_target_triple = tr, n_binary_path = p, n_built_at = now\<rparr>]"
    with t(5) show ?thesis by (auto simp: registry_ok_def)
  qed
  with ns' show "\<exists>ms' ns' ls'. member_t (db c') = Some ms' \<and> binary_t (db c') = Some ns' \<and> alias_t (db c') = Some ls' \<and>
      registry_ok t ms' ns' ls'" by blast
qed

lemma touch_stmt_inv:
  assumes inv: "bundle_inv c" and st: "touch_stmt bid now c = Inr c'"
  shows "bundle_inv c'"
proof -
  from inv obtain t ms ns ls where t: "bundle_t (db c) = Some t" "member_t (db c) = Some ms" "binary_t (db c) = Some ns"
    "alias_t (db c) = Some ls" "registry_ok t ms ns ls" "fk_on c" "tx c = None" by (rule bundle_invE)
  let ?rs = "update_where (\<lambda>b. b_id b = bid) (touch_bundle now) (bt_rows t)"
  have "\<forall>b \<in> set ?rs. 0 < b_id b \<and> b_id b < 2 ^ 63"
    using t(5) by (auto simp: registry_ok_def touch_bundle_def elim!: in_update_whereE)
  then have "registry_ok (t\<lparr>bt_rows := ?rs\<rparr>) ms ns ls"
    using t(5) by (simp add: registry_ok_def touch_bundle.keys_update_where touch_bundle.keyset_update_where)
  moreover have "c' = dml (count_where (\<lambda>b. b_id b = bid) (bt_rows t)) 0 (set_bundles t ?rs c)"
    using t st by (auto simp: touch_stmt_def bundles_def)
  ultimately show ?thesis using t by (intro bundle_invI [of c' "t\<lparr>bt_rows := ?rs\<rparr>" ms ns ls]) simp_all
qed

lemma bundle_delete_eval:
  assumes inv: "bundle_inv c"
  shows "\<exists>c'. bundle_delete_stmt bid c = Inr c' \<and> bundle_inv c' \<and>
    bundle_t (db c') = map_option (\<lambda>t. t\<lparr>bt_rows := delete_where (\<lambda>b. b_id b = bid) (bt_rows t)\<rparr>) (bundle_t (db c)) \<and>
    member_t (db c') = orphaned {bid} m_bundle_id (member_t (db c)) \<and>
    binary_t (db c') = orphaned {bid} n_bundle_id (binary_t (db c)) \<and>
    alias_t (db c') = orphaned {bid} l_bundle_id (alias_t (db c)) \<and>
    (0 < n_changes c' \<longleftrightarrow> (\<exists>t b. bundle_t (db c) = Some t \<and> b \<in> set (bt_rows t) \<and> b_id b = bid))"
proof -
  from inv obtain t ms ns ls where t: "bundle_t (db c) = Some t" "member_t (db c) = Some ms" "binary_t (db c) = Some ns"
    "alias_t (db c) = Some ls" "registry_ok t ms ns ls" "fk_on c" "tx c = None" by (rule bundle_invE)
  let ?t = "t\<lparr>bt_rows := delete_where (\<lambda>b. b_id b = bid) (bt_rows t)\<rparr>"
  let ?del = "\<lambda>ref. delete_where (\<lambda>r. ref r = bid)"
  have cnt: "count_where (\<lambda>b. b_id b = bid) (bt_rows t) = 0 \<longleftrightarrow> bid \<notin> bundle_ids t"
    by (auto simp: count_where_def filter_empty_conv)
  have none: "?del m_bundle_id ms = ms" "?del n_bundle_id ns = ns" "?del l_bundle_id ls = ls" if "bid \<notin> bundle_ids t"
    using t(5) that by (auto simp: registry_ok_def delete_where_def filter_id_conv)
  have ids: "x \<in> bundle_ids ?t \<longleftrightarrow> x \<in> bundle_ids t \<and> x \<noteq> bid" for x by (auto simp: set_delete_where)
  have ok: "registry_ok ?t (?del m_bundle_id ms) (?del n_bundle_id ns) (?del l_bundle_id ls)"
    using t(5) unfolding registry_ok_def ids by (auto simp: set_delete_where distinct_delete_where)
  show ?thesis
  proof (cases "bid \<in> bundle_ids t")
    case True
    then obtain c' where c': "bundle_delete_stmt bid c = Inr c'" "bundle_t (db c') = Some ?t"
      "member_t (db c') = Some (?del m_bundle_id ms)" "binary_t (db c') = Some (?del n_bundle_id ns)"
      "alias_t (db c') = Some (?del l_bundle_id ls)" "fk_on c'" "tx c' = None" "n_changes c' > 0"
      using t cnt by (simp add: bundle_delete_stmt_def bundles_def Let_def cascade_def orphaned_def)
    have "bundle_inv c'" using bundle_invI [OF c'(2-5) ok c'(6,7)] .
    with c' t True show ?thesis by (auto simp: orphaned_def)
  next
    case False
    then obtain c' where c': "bundle_delete_stmt bid c = Inr c'" "bundle_t (db c') = Some ?t"
      "member_t (db c') = Some ms" "binary_t (db c') = Some ns" "alias_t (db c') = Some ls" "fk_on c'" "tx c' = None" "n_changes c' = 0"
      using t cnt by (simp add: bundle_delete_stmt_def bundles_def Let_def)
    have "bundle_inv c'" using bundle_invI [OF c'(2-5) _ c'(6,7)] ok none [OF False] by simp
    with c' t False none show ?thesis by (auto simp: orphaned_def)
  qed
qed

end
