(* ===== verification/Bundle_Registry.thy ===== *)
theory Bundle_Registry
  imports Bundle_Sql
begin

text \<open>
  The contract of a bundle registry as its clients use it (the command line, the host interface and
  the extension loader): save, find by name, delete. Both implementations of the repository, the
  methods of the store and the free functions on a connection, are interpretations.
\<close>

type_synonym save_request = "string option \<times> string \<times> bundle_member list"

text \<open>A client that runs save requests one after the other, whatever each of them answers.\<close>

fun run_saves :: "(string option \<Rightarrow> string \<Rightarrow> bundle_member list \<Rightarrow> nat cas_op) \<Rightarrow> save_request list \<Rightarrow> conn \<Rightarrow> conn" where
  "run_saves save [] c = c"
| "run_saves save ((name, h, ms) # rs) c = run_saves save rs (snd (save name h ms c))"

definition bound_to :: "(string \<Rightarrow> bundle_summary option cas_op) \<Rightarrow> conn \<Rightarrow> string \<Rightarrow> nat \<Rightarrow> string \<Rightarrow> bool" where
  "bound_to find_name c n i h \<longleftrightarrow> (\<exists>s. find_name n c = (Inr (Some s), c) \<and> s_id s = i \<and> s_set_hash s = h)"

locale bundle_registry =
  fixes inv :: "conn \<Rightarrow> bool"
    and save :: "string option \<Rightarrow> string \<Rightarrow> bundle_member list \<Rightarrow> nat cas_op"
    and find_name :: "string \<Rightarrow> bundle_summary option cas_op"
  assumes save_inv: "inv c \<Longrightarrow> inv (snd (save name h ms c))"
    and save_binds: "inv c \<Longrightarrow> save (Some n) h ms c = (Inr i, c') \<Longrightarrow> bound_to find_name c' n i h"
    and save_refuses: "inv c \<Longrightarrow> bound_to find_name c n i h \<Longrightarrow> h' \<noteq> h \<Longrightarrow>
      save (Some n) h' ms c = (Inl (AliasConflict n h h'), c)"
    and save_stable: "inv c \<Longrightarrow> bound_to find_name c n i h \<Longrightarrow> bound_to find_name (snd (save name h' ms c)) n i h"
begin

lemma run_saves_stable:
  "inv c \<Longrightarrow> bound_to find_name c n i h \<Longrightarrow> inv (run_saves save rs c) \<and> bound_to find_name (run_saves save rs c) n i h"
proof (induction rs arbitrary: c)
  case (Cons r rs)
  then show ?case by (cases r) (simp add: save_inv save_stable)
qed simp

text \<open>A name, once saved, means the same bundle for ever, and an attempt to rebind it is refused.\<close>

lemma bound_name_is_final:
  assumes "inv c" "save (Some n) h ms c = (Inr i, c')"
  shows "bound_to find_name (run_saves save rs c') n i h \<and>
    (h' \<noteq> h \<longrightarrow> save (Some n) h' ms' (run_saves save rs c') = (Inl (AliasConflict n h h'), run_saves save rs c'))"
proof -
  have "inv c'" using save_inv [OF assms(1), of "Some n" h ms] assms(2) by simp
  from run_saves_stable [OF this save_binds [OF assms]]
  show ?thesis using save_refuses by blast
qed

end

end
