(* ===== verification/Bundles.thy ===== *)
theory Bundles
  imports Bundle_Registry
begin

text \<open>
  The bundle registry of \<^verbatim>\<open>sqlite-cas-cache/src/bundles.rs\<close> (methods of the store). Each
  method is an operation on the connection; the lemmas say what each does on a sound registry, and
  the properties are about saving, finding, deleting and collecting bundles.
\<close>

section \<open>Operations\<close>

definition fill_counts :: "bundle_summary \<Rightarrow> bundle_summary cas_op" where
  "fill_counts s =
     bnd (select (count_members_sel (as_i64 (s_id s)))) (\<lambda>m.
     bnd (select (count_binaries_sel (as_i64 (s_id s)))) (\<lambda>n.
     ret (s\<lparr>s_member_count := as_u32 m, s_binary_count := as_u32 n\<rparr>)))"

fun fill_all :: "bundle_summary list \<Rightarrow> bundle_summary list cas_op" where
  "fill_all [] = ret []"
| "fill_all (s # ss) = bnd (fill_counts s) (\<lambda>s'. bnd (fill_all ss) (\<lambda>ss'. ret (s' # ss')))"

definition bundle_find_by_name :: "string \<Rightarrow> bundle_summary option cas_op" where
  "bundle_find_by_name n =
     bnd (select (find_by_name_sel n)) (\<lambda>row.
     case row of
       None \<Rightarrow> ret None
     | Some b \<Rightarrow> bnd (fill_counts (read_summary_row b)) (\<lambda>s. ret (Some s)))"

definition bundle_find_first_by_hash :: "string \<Rightarrow> bundle_summary option cas_op" where
  "bundle_find_first_by_hash h =
     bnd (select (find_first_by_hash_sel h)) (\<lambda>row.
     case row of
       None \<Rightarrow> ret None
     | Some b \<Rightarrow> bnd (fill_counts (read_summary_row b)) (\<lambda>s. ret (Some s)))"

definition is_ascii_hexdigit :: "char \<Rightarrow> bool" where
  "is_ascii_hexdigit ch \<longleftrightarrow> (CHR ''0'' \<le> ch \<and> ch \<le> CHR ''9'') \<or> (CHR ''a'' \<le> ch \<and> ch \<le> CHR ''f'') \<or>
     (CHR ''A'' \<le> ch \<and> ch \<le> CHR ''F'')"

definition bundle_find_by_hash_prefix :: "string \<Rightarrow> bundle_summary list cas_op" where
  "bundle_find_by_hash_prefix p =
     (if p = [] then fail EmptyPrefix
      else case List.find (\<lambda>ch. \<not> is_ascii_hexdigit ch) p of
        Some bad \<Rightarrow> fail (NonHexChar bad)
      | None \<Rightarrow> bnd (select (find_by_hash_prefix_sel p)) (\<lambda>rows. fill_all (map read_summary_row rows)))"

definition bundle_list :: "bundle_summary list cas_op" where
  "bundle_list = bnd (select list_bundles_sel) (\<lambda>rows. fill_all (map read_summary_row rows))"

definition bundle_members :: "nat \<Rightarrow> bundle_member list cas_op" where
  "bundle_members bid = select (members_sel (as_i64 bid))"

definition bundle_binaries :: "nat \<Rightarrow> bundle_binary list cas_op" where
  "bundle_binaries bid = select (binaries_sel (as_i64 bid))"

definition bundle_show :: "nat \<Rightarrow> bundle_detail option cas_op" where
  "bundle_show bid =
     bnd (select (show_summary_sel (as_i64 bid))) (\<lambda>row.
     case row of
       None \<Rightarrow> ret None
     | Some b \<Rightarrow>
         bnd (bundle_members bid) (\<lambda>ms.
         bnd (bundle_binaries bid) (\<lambda>ns.
         ret (Some \<lparr>d_summary = (read_summary_row b)\<lparr>s_member_count := as_u32 (int (length ms)),
             s_binary_count := as_u32 (int (length ns))\<rparr>, d_members = ms, d_binaries = ns\<rparr>))))"

definition bundle_touch :: "nat \<Rightarrow> unit cas_op" where
  "bundle_touch bid = bnd unix_now (\<lambda>now. exec (touch_stmt (as_i64 bid) now))"

definition set_hash_or_default :: "bundle_detail option \<Rightarrow> string" where
  "set_hash_or_default d = (case d of None \<Rightarrow> [] | Some x \<Rightarrow> s_set_hash (d_summary x))"

definition bundle_add_alias :: "nat \<Rightarrow> string \<Rightarrow> unit cas_op" where
  "bundle_add_alias bid a =
     bnd (select (alias_find_sel a)) (\<lambda>existing.
     case existing of
       Some i \<Rightarrow>
         if as_u64 i = bid then ret ()
         else bnd (bundle_show bid) (\<lambda>new.
           bnd (bundle_show (as_u64 i)) (\<lambda>old.
           fail (AliasConflict a (set_hash_or_default old) (set_hash_or_default new))))
     | None \<Rightarrow> bnd unix_now (\<lambda>now. exec (alias_insert_stmt a (as_i64 bid) now)))"

text \<open>\<open>changes()\<close> before and after: the number of rows of the statement before and of this one.\<close>

definition bundle_remove_alias :: "string \<Rightarrow> bool cas_op" where
  "bundle_remove_alias a =
     bnd (query (\<lambda>c. Inr (n_changes c))) (\<lambda>before.
     bnd (exec (alias_delete_stmt a)) (\<lambda>_.
     query (\<lambda>c. Inr (n_changes c > before))))"

definition bundle_aliases :: "nat \<Rightarrow> string list cas_op" where
  "bundle_aliases bid = select (aliases_list_sel (as_i64 bid))"

definition alias_opt :: "nat \<Rightarrow> string option \<Rightarrow> unit cas_op" where
  "alias_opt bid name = (case name of None \<Rightarrow> ret () | Some n \<Rightarrow> bundle_add_alias bid n)"

definition bundle_save :: "string option \<Rightarrow> string \<Rightarrow> bundle_member list \<Rightarrow> nat cas_op" where
  "bundle_save name set_hash ms =
     bnd (case name of None \<Rightarrow> ret None | Some n \<Rightarrow> bundle_find_by_name n) (\<lambda>by_name.
     case by_name of
       Some existing \<Rightarrow>
         if s_set_hash existing \<noteq> set_hash then fail (AliasConflict (the name) (s_set_hash existing) set_hash)
         else bnd (bundle_touch (s_id existing)) (\<lambda>_. ret (s_id existing))
     | None \<Rightarrow>
         bnd (bundle_find_first_by_hash set_hash) (\<lambda>by_hash.
         case by_hash of
           Some existing \<Rightarrow>
             bnd (alias_opt (s_id existing) name) (\<lambda>_.
             bnd (bundle_touch (s_id existing)) (\<lambda>_.
             ret (s_id existing)))
         | None \<Rightarrow>
             bnd unix_now (\<lambda>now.
             bnd (exec (bundle_insert_stmt name set_hash now)) (\<lambda>_.
             bnd (query (\<lambda>c. Inr (as_u64 (last_rowid c)))) (\<lambda>bid.
             bnd (alias_opt bid name) (\<lambda>_.
             bnd (for_each (\<lambda>m. exec (member_insert_stmt (as_i64 bid) m)) ms) (\<lambda>_.
             ret bid)))))))"

definition bundle_delete :: "nat \<Rightarrow> bool cas_op" where
  "bundle_delete bid =
     bnd (exec (bundle_delete_stmt (as_i64 bid))) (\<lambda>_. query (\<lambda>c. Inr (n_changes c > 0)))"

fun add_victims :: "nat list \<Rightarrow> int list \<Rightarrow> nat list" where
  "add_victims vs [] = vs"
| "add_victims vs (i # is) = add_victims (if as_u64 i \<in> set vs then vs else vs @ [as_u64 i]) is"

definition bundle_gc :: "gc_policy \<Rightarrow> nat list cas_op" where
  "bundle_gc policy =
     bnd unix_now (\<lambda>now.
     bnd (case keep_last policy of
            None \<Rightarrow> ret []
          | Some k \<Rightarrow> bnd (select (gc_keep_sel (int k))) (\<lambda>is. ret (map as_u64 is))) (\<lambda>victims0.
     bnd (case older_than_secs policy of
            None \<Rightarrow> ret victims0
          | Some age \<Rightarrow> bnd (select (gc_age_sel (as_i64 (as_u64 now - age)))) (\<lambda>is. ret (add_victims victims0 is))) (\<lambda>victims.
     bnd (for_each (\<lambda>bid. bnd (bundle_delete bid) (\<lambda>_. ret ())) victims) (\<lambda>_.
     ret victims))))"

definition bundle_record_binary :: "nat \<Rightarrow> string \<Rightarrow> string \<Rightarrow> unit cas_op" where
  "bundle_record_binary bid triple path =
     bnd unix_now (\<lambda>now. exec (record_binary_stmt (as_i64 bid) triple path now))"

section \<open>Every operation keeps the registry sound\<close>

lemma bundle_delete_stmt_inv: "bundle_inv c \<Longrightarrow> bundle_delete_stmt i c = Inr c' \<Longrightarrow> bundle_inv c'"
  using bundle_delete_eval [of c i] by auto

lemmas keeps_registry = keeps_unix_now [OF frame_bundle_inv] keeps_select keeps_exec [OF frame_bundle_inv]
lemmas registry_stmt_inv = bundle_insert_stmt_inv member_insert_stmt_inv alias_insert_stmt_inv alias_delete_stmt_inv
  record_binary_stmt_inv touch_stmt_inv bundle_delete_stmt_inv

lemma keeps_fill_counts [keeps_rules]: "keeps P (fill_counts s)"
  unfolding fill_counts_def by (intro keeps_rules keeps_select)

lemma keeps_fill_all [keeps_rules]: "keeps P (fill_all ss)"
proof (induction ss)
  case Nil
  show ?case by (simp add: keeps_def)
next
  case (Cons s ss)
  show ?case unfolding fill_all.simps by (intro keeps_rules Cons)
qed

lemma keeps_reads [keeps_rules]: "keeps P (bundle_find_by_name n)" "keeps P (bundle_find_first_by_hash h)"
  "keeps P (bundle_show bid)" "keeps P (bundle_list)" "keeps P (bundle_find_by_hash_prefix p)" "keeps P (bundle_aliases bid)"
  "keeps P (bundle_members bid)" "keeps P (bundle_binaries bid)"
  unfolding bundle_find_by_name_def bundle_find_first_by_hash_def bundle_show_def bundle_list_def bundle_find_by_hash_prefix_def
    bundle_aliases_def bundle_members_def bundle_binaries_def
  by (intro keeps_rules keeps_select)+

lemma keeps_bundle_touch [keeps_rules]: "keeps bundle_inv (bundle_touch bid)"
  unfolding bundle_touch_def by (intro keeps_rules keeps_registry) (rule registry_stmt_inv)

lemma keeps_bundle_add_alias [keeps_rules]: "keeps bundle_inv (bundle_add_alias bid a)"
  unfolding bundle_add_alias_def by (intro keeps_rules keeps_registry) (rule registry_stmt_inv)

lemma keeps_alias_opt [keeps_rules]: "keeps bundle_inv (alias_opt bid name)"
  unfolding alias_opt_def by (intro keeps_rules)

lemma keeps_bundle_remove_alias [keeps_rules]: "keeps bundle_inv (bundle_remove_alias a)"
  unfolding bundle_remove_alias_def by (intro keeps_rules keeps_registry) (rule registry_stmt_inv)

lemma keeps_insert_bundle [keeps_rules]: "keeps bundle_inv (exec (bundle_insert_stmt name h now))"
  "keeps bundle_inv (exec (member_insert_stmt i m))" "keeps bundle_inv (exec (bundle_delete_stmt i))"
  by (rule keeps_exec [OF frame_bundle_inv], erule (1) registry_stmt_inv)+

lemma keeps_bundle_save [keeps_rules]: "keeps bundle_inv (bundle_save name h ms)"
  unfolding bundle_save_def by (intro keeps_rules keeps_unix_now frame_bundle_inv)

lemma keeps_bundle_delete [keeps_rules]: "keeps bundle_inv (bundle_delete bid)"
  unfolding bundle_delete_def by (intro keeps_rules)

lemma keeps_bundle_gc [keeps_rules]: "keeps bundle_inv (bundle_gc p)"
  unfolding bundle_gc_def by (intro keeps_rules keeps_unix_now keeps_select frame_bundle_inv)

lemma keeps_bundle_record_binary [keeps_rules]: "keeps bundle_inv (bundle_record_binary bid tr p)"
  unfolding bundle_record_binary_def by (intro keeps_rules keeps_registry) (rule registry_stmt_inv)

section \<open>What the operations do on a sound registry\<close>

text \<open>The bundle a name or a set hash leads to.\<close>

definition named :: "conn \<Rightarrow> string \<Rightarrow> bundle_row option" where
  "named c n = (case find_by_name_sel n (db c) of Inl _ \<Rightarrow> None | Inr r \<Rightarrow> r)"

definition hashed :: "conn \<Rightarrow> string \<Rightarrow> bundle_row option" where
  "hashed c h = (case find_first_by_hash_sel h (db c) of Inl _ \<Rightarrow> None | Inr r \<Rightarrow> r)"

definition bundle_rows :: "conn \<Rightarrow> bundle_row list" where
  "bundle_rows c = (case bundle_t (db c) of None \<Rightarrow> [] | Some t \<Rightarrow> bt_rows t)"

definition row_summary :: "conn \<Rightarrow> bundle_row \<Rightarrow> bundle_summary" where
  "row_summary c b = (read_summary_row b)\<lparr>
     s_member_count := as_u32 (int (count_where (\<lambda>r. m_bundle_id r = b_id b) (the (member_t (db c))))),
     s_binary_count := as_u32 (int (count_where (\<lambda>r. n_bundle_id r = b_id b) (the (binary_t (db c)))))\<rparr>"

lemma row_id [simp]:
  assumes "bundle_inv c" "b \<in> set (bundle_rows c)"
  shows "as_i64 (as_u64 (b_id b)) = b_id b"
proof -
  have "0 < b_id b" "b_id b < 2 ^ 63" using assms by (auto simp: bundle_rows_def registry_ok_def elim!: bundle_invE)
  then have "i64_range (b_id b)" by (simp add: i64_range_def)
  then show ?thesis by (rule as_i64_as_u64)
qed

lemma fill_counts_eval:
  assumes "bundle_inv c" "b \<in> set (bundle_rows c)"
  shows "fill_counts (read_summary_row b) c = (Inr (row_summary c b), c)"
  using assms row_id [OF assms]
  by (auto simp: fill_counts_def run_op count_members_sel_def count_binaries_sel_def members_def binaries_def row_summary_def
      read_summary_row_def elim!: bundle_invE)

lemma named_in_rows: "bundle_inv c \<Longrightarrow> named c n = Some b \<Longrightarrow> b \<in> set (bundle_rows c)"
  by (elim bundle_invE)
    (auto simp: named_def find_by_name_sel_def aliases_def bundles_def bundle_rows_def dest!: lookup_by_SomeD first_by_in
      split: option.splits)

lemma hashed_SomeD: "bundle_inv c \<Longrightarrow> hashed c h = Some b \<Longrightarrow> b \<in> set (bundle_rows c) \<and> b_set_hash b = h"
  by (elim bundle_invE)
    (auto simp: hashed_def find_first_by_hash_sel_def bundles_def bundle_rows_def dest!: first_by_in)

lemma find_by_name_eval:
  assumes "bundle_inv c"
  shows "bundle_find_by_name n c = (Inr (map_option (row_summary c) (named c n)), c)"
proof -
  from assms obtain t ms ns ls where t: "bundle_t (db c) = Some t" "alias_t (db c) = Some ls" by (rule bundle_invE)
  then have sel: "find_by_name_sel n (db c) = Inr (named c n)"
    by (simp add: named_def find_by_name_sel_def aliases_def bundles_def)
  show ?thesis
  proof (cases "named c n")
    case None
    with sel show ?thesis by (simp add: bundle_find_by_name_def run_op)
  next
    case (Some b)
    with sel fill_counts_eval [OF assms named_in_rows [OF assms Some]] show ?thesis
      by (simp add: bundle_find_by_name_def run_op bnd_Inr)
  qed
qed

lemma find_first_by_hash_eval:
  assumes "bundle_inv c"
  shows "bundle_find_first_by_hash h c = (Inr (map_option (row_summary c) (hashed c h)), c)"
proof -
  from assms obtain t ms ns ls where t: "bundle_t (db c) = Some t" by (rule bundle_invE)
  then have sel: "find_first_by_hash_sel h (db c) = Inr (hashed c h)"
    by (simp add: hashed_def find_first_by_hash_sel_def bundles_def)
  show ?thesis
  proof (cases "hashed c h")
    case None
    with sel show ?thesis by (simp add: bundle_find_first_by_hash_def run_op)
  next
    case (Some b)
    with sel fill_counts_eval [OF assms] hashed_SomeD [OF assms Some] show ?thesis
      by (simp add: bundle_find_first_by_hash_def run_op bnd_Inr)
  qed
qed

lemma fill_all_eval:
  "bundle_inv c \<Longrightarrow> set bs \<subseteq> set (bundle_rows c) \<Longrightarrow>
   fill_all (map read_summary_row bs) c = (Inr (map (row_summary c) bs), c)"
  by (induction bs) (auto simp: bnd_Inr fill_counts_eval)

lemma row_summary_simps [simp]: "s_id (row_summary c b) = as_u64 (b_id b)" "s_set_hash (row_summary c b) = b_set_hash b"
  "s_name (row_summary c b) = b_name b"
  by (simp_all add: row_summary_def read_summary_row_def)

lemma touch_eval:
  assumes "bundle_inv c" "b \<in> set (bundle_rows c)"
  shows "\<exists>c'. bundle_touch (as_u64 (b_id b)) c = (Inr (), c') \<and> bundle_inv c' \<and>
    bundle_rows c' = update_where (\<lambda>r. b_id r = b_id b) (touch_bundle (now_of c)) (bundle_rows c) \<and>
    member_t (db c') = member_t (db c) \<and> binary_t (db c') = binary_t (db c) \<and> alias_t (db c') = alias_t (db c)"
proof -
  from assms(1) obtain t where t: "bundle_t (db c) = Some t" by (rule bundle_invE)
  obtain c' where c': "touch_stmt (b_id b) (now_of c) (tick c) = Inr c'"
    "bundle_rows c' = update_where (\<lambda>r. b_id r = b_id b) (touch_bundle (now_of c)) (bundle_rows c)"
    "member_t (db c') = member_t (db c)" "binary_t (db c') = binary_t (db c)" "alias_t (db c') = alias_t (db c)"
    using t by (simp add: touch_stmt_def bundles_def bundle_rows_def)
  have "bundle_inv (tick c)" using assms(1) by (simp add: bundle_inv_def)
  with c' touch_stmt_inv [OF _ c'(1)] row_id [OF assms] show ?thesis
    by (auto simp: bundle_touch_def exec_def)
qed

text \<open>On a sound registry a name that leads nowhere has no alias row.\<close>

lemma named_None_alias:
  assumes "bundle_inv c" "named c n = None" "alias_t (db c) = Some ls"
  shows "n \<notin> l_name ` set ls"
proof
  assume n: "n \<in> l_name ` set ls"
  from assms(1,3) obtain t where t: "bundle_t (db c) = Some t" "\<forall>l \<in> set ls. l_bundle_id l \<in> bundle_ids t"
    by (elim bundle_invE) (auto simp: registry_ok_def)
  obtain a where a: "lookup_by l_name n ls = Some a" using lookup_by_ex [OF n] by blast
  then have "l_bundle_id a \<in> bundle_ids t" using t(2) lookup_by_SomeD [OF a] by blast
  then obtain b where "lookup_by b_id (l_bundle_id a) (bt_rows t) = Some b" using lookup_by_ex by metis
  with a t assms(2,3) show False by (simp add: named_def find_by_name_sel_def aliases_def bundles_def)
qed

lemma add_alias_eval:
  assumes inv: "bundle_inv c" and b: "b \<in> set (bundle_rows c)" and free: "alias_t (db c) = Some ls" "a \<notin> l_name ` set ls"
  shows "\<exists>c'. bundle_add_alias (as_u64 (b_id b)) a c = (Inr (), c') \<and> bundle_inv c' \<and> bundle_t (db c') = bundle_t (db c) \<and>
    member_t (db c') = member_t (db c) \<and> binary_t (db c') = binary_t (db c) \<and>
    alias_t (db c') = Some (ls @ [\<lparr>l_name = a, l_bundle_id = b_id b, l_created_at = now_of c\<rparr>])"
proof -
  from inv obtain t where t: "bundle_t (db c) = Some t" "fk_on c" by (rule bundle_invE)
  have none: "lookup_by l_name a ls = None" using free(2) by (simp add: lookup_by_None_iff)
  have par: "\<not> no_parent (b_id b) (tick c)" using b t by (simp add: no_parent_def bundle_rows_def)
  obtain c' where c': "alias_insert_stmt a (b_id b) (now_of c) (tick c) = Inr c'" "bundle_t (db c') = bundle_t (db c)"
    "member_t (db c') = member_t (db c)" "binary_t (db c') = binary_t (db c)"
    "alias_t (db c') = Some (ls @ [\<lparr>l_name = a, l_bundle_id = b_id b, l_created_at = now_of c\<rparr>])"
    using par free by (simp add: alias_insert_stmt_def aliases_def)
  have "bundle_inv (tick c)" using inv by (simp add: bundle_inv_def)
  with alias_insert_stmt_inv [OF _ c'(1)] c' none free row_id [OF inv b] show ?thesis
    by (auto simp: bundle_add_alias_def run_op alias_find_sel_def aliases_def exec_def)
qed

definition mk_member :: "int \<Rightarrow> bundle_member \<Rightarrow> member_row" where
  "mk_member i m = \<lparr>m_bundle_id = i, m_extension_name = extension_name m, m_content_hash = content_hash m\<rparr>"

lemma members_insert_eval:
  assumes "bundle_inv c" "i \<in> b_id ` set (bundle_rows c)" "member_t (db c) = Some rs" "distinct (map extension_name ms)"
    "\<forall>r \<in> set rs. m_bundle_id r = i \<longrightarrow> m_extension_name r \<notin> extension_name ` set ms"
  shows "\<exists>c'. for_each (\<lambda>m. exec (member_insert_stmt i m)) ms c = (Inr (), c') \<and> bundle_inv c' \<and>
    bundle_t (db c') = bundle_t (db c) \<and> member_t (db c') = Some (rs @ map (mk_member i) ms) \<and>
    binary_t (db c') = binary_t (db c) \<and> alias_t (db c') = alias_t (db c)"
  using assms
proof (induction ms arbitrary: c rs)
  case Nil
  then show ?case by simp
next
  case (Cons m ms)
  from Cons.prems(1) obtain t where t: "bundle_t (db c) = Some t" "fk_on c" by (rule bundle_invE)
  have par: "\<not> no_parent i c" using Cons.prems(2) t by (simp add: no_parent_def bundle_rows_def)
  have new: "\<not> list_ex (\<lambda>r. m_bundle_id r = i \<and> m_extension_name r = extension_name m) rs"
    using Cons.prems(5) by (auto simp: list_ex_iff)
  obtain c1 where c1: "member_insert_stmt i m c = Inr c1" "bundle_t (db c1) = bundle_t (db c)"
    "member_t (db c1) = Some (rs @ [mk_member i m])" "binary_t (db c1) = binary_t (db c)" "alias_t (db c1) = alias_t (db c)"
    using par new Cons.prems(3) by (simp add: member_insert_stmt_def members_def mk_member_def)
  have inv1: "bundle_inv c1" using member_insert_stmt_inv [OF Cons.prems(1) c1(1)] .
  have rows1: "bundle_rows c1 = bundle_rows c" using c1(2) by (simp add: bundle_rows_def)
  have "\<forall>r \<in> set (rs @ [mk_member i m]). m_bundle_id r = i \<longrightarrow> m_extension_name r \<notin> extension_name ` set ms"
    using Cons.prems(4,5) by (auto simp: mk_member_def)
  from Cons.IH [OF inv1 _ c1(3) _ this] Cons.prems(2,4) rows1 c1 show ?case
    by (auto simp: bnd_exec_Inr)
qed

lemma save_conflict:
  assumes "bundle_inv c" "named c n = Some b" "b_set_hash b \<noteq> h"
  shows "bundle_save (Some n) h ms c = (Inl (AliasConflict n (b_set_hash b) h), c)"
  using assms find_by_name_eval [OF assms(1), of n] by (simp add: bundle_save_def bnd_Inr)

text \<open>Saving under a bound name or an existing set hash returns the existing row, marked as used.\<close>

lemma save_named:
  assumes "bundle_inv c" "named c n = Some b" "b_set_hash b = h"
  shows "\<exists>c'. bundle_save (Some n) h ms c = (Inr (as_u64 (b_id b)), c') \<and> bundle_inv c' \<and>
    bundle_rows c' = update_where (\<lambda>r. b_id r = b_id b) (touch_bundle (now_of c)) (bundle_rows c) \<and>
    member_t (db c') = member_t (db c) \<and> binary_t (db c') = binary_t (db c) \<and> alias_t (db c') = alias_t (db c)"
proof -
  obtain c' where c': "bundle_touch (as_u64 (b_id b)) c = (Inr (), c')" "bundle_inv c'"
    "bundle_rows c' = update_where (\<lambda>r. b_id r = b_id b) (touch_bundle (now_of c)) (bundle_rows c)"
    "member_t (db c') = member_t (db c)" "binary_t (db c') = binary_t (db c)" "alias_t (db c') = alias_t (db c)"
    using touch_eval [OF assms(1) named_in_rows [OF assms(1,2)]] by blast
  with assms find_by_name_eval [OF assms(1), of n] show ?thesis by (auto simp: bundle_save_def bnd_Inr)
qed

lemma save_hashed:
  assumes inv: "bundle_inv c" and name: "name = None \<or> (\<exists>n. name = Some n \<and> named c n = None)" and b: "hashed c h = Some b"
    and ls: "alias_t (db c) = Some ls"
  shows "\<exists>c' c0. bundle_save name h ms c = (Inr (as_u64 (b_id b)), c') \<and> bundle_inv c' \<and>
    bundle_rows c' = update_where (\<lambda>r. b_id r = b_id b) (touch_bundle (now_of c0)) (bundle_rows c) \<and>
    member_t (db c') = member_t (db c) \<and> binary_t (db c') = binary_t (db c) \<and>
    alias_t (db c') = Some (ls @ (case name of None \<Rightarrow> [] | Some n \<Rightarrow> [\<lparr>l_name = n, l_bundle_id = b_id b, l_created_at = now_of c\<rparr>]))"
proof -
  have bin: "b \<in> set (bundle_rows c)" using hashed_SomeD [OF inv b] by simp
  obtain c1 where c1: "alias_opt (as_u64 (b_id b)) name c = (Inr (), c1)" "bundle_inv c1" "bundle_t (db c1) = bundle_t (db c)"
    "member_t (db c1) = member_t (db c)" "binary_t (db c1) = binary_t (db c)"
    "alias_t (db c1) = Some (ls @ (case name of None \<Rightarrow> [] | Some n \<Rightarrow> [\<lparr>l_name = n, l_bundle_id = b_id b, l_created_at = now_of c\<rparr>]))"
  proof (cases name)
    case None
    with inv ls that show thesis by (simp add: alias_opt_def)
  next
    case (Some n)
    then have "n \<notin> l_name ` set ls" using named_None_alias [OF inv _ ls, of n] name by simp
    from add_alias_eval [OF inv bin ls this] Some that show thesis by (auto simp: alias_opt_def)
  qed
  have rows1: "bundle_rows c1 = bundle_rows c" using c1(3) by (simp add: bundle_rows_def)
  obtain c' where c': "bundle_touch (as_u64 (b_id b)) c1 = (Inr (), c')" "bundle_inv c'"
    "bundle_rows c' = update_where (\<lambda>r. b_id r = b_id b) (touch_bundle (now_of c1)) (bundle_rows c1)"
    "member_t (db c') = member_t (db c1)" "binary_t (db c') = binary_t (db c1)" "alias_t (db c') = alias_t (db c1)"
    using touch_eval [OF c1(2)] bin rows1 by auto
  have "bundle_save name h ms c = (Inr (as_u64 (b_id b)), c')"
    using name b c1(1) c'(1) find_by_name_eval [OF inv] find_first_by_hash_eval [OF inv, of h]
    by (cases name) (auto simp: bundle_save_def bnd_Inr)
  with c' c1 rows1 show ?thesis by (metis (no_types, lifting))
qed

text \<open>Saving a new bundle.\<close>

lemma save_fresh:
  assumes inv: "bundle_inv c" and name: "name = None \<or> (\<exists>n. name = Some n \<and> named c n = None)" and h: "hashed c h = None"
    and ext: "distinct (map extension_name ms)" and room: "next_rowid (bundle_rows c) < 2 ^ 63"
    and tabs: "alias_t (db c) = Some ls" "member_t (db c) = Some rs"
  defines "i \<equiv> next_rowid (bundle_rows c)"
  shows "\<exists>c' x. bundle_save name h ms c = (Inr (as_u64 i), c') \<and> bundle_inv c' \<and> i64_range i \<and>
    bundle_rows c' = bundle_rows c @ [\<lparr>b_id = i, b_name = name, b_set_hash = h, b_created_at = now_of c, b_last_used_at = now_of c\<rparr>] \<and>
    member_t (db c') = Some (rs @ map (mk_member i) ms) \<and> binary_t (db c') = binary_t (db c) \<and>
    alias_t (db c') = Some (ls @ (case name of None \<Rightarrow> [] | Some n \<Rightarrow> [\<lparr>l_name = n, l_bundle_id = i, l_created_at = x\<rparr>]))"
proof -
  from inv obtain t ns where t: "bundle_t (db c) = Some t" "binary_t (db c) = Some ns" "registry_ok t rs ns ls"
    using tabs by (elim bundle_invE) auto
  have rows: "bundle_rows c = bt_rows t" using t(1) by (simp add: bundle_rows_def)
  have "0 < i" unfolding i_def rows using t(3) by (intro next_rowid_pos) (simp add: registry_ok_def)
  then have range: "i64_range i" using room by (simp add: i64_range_def i_def)
  let ?b = "\<lparr>b_id = i, b_name = name, b_set_hash = h, b_created_at = now_of c, b_last_used_at = now_of c\<rparr>"
  let ?c1 = "dml 1 0 ((set_bundles t (bt_rows t @ [?b]) (tick c))\<lparr>last_rowid := i\<rparr>)"
  have ins: "bundle_insert_stmt name h (now_of c) (tick c) = Inr ?c1"
    using t range by (simp add: bundle_insert_stmt_def bundles_def registry_ok_def Let_def i_def rows)
  have "bundle_inv (tick c)" using inv by (simp add: bundle_inv_def)
  then have inv1: "bundle_inv ?c1" using bundle_insert_stmt_inv ins by blast
  have lr: "last_rowid ?c1 = i" by (simp add: dml_def)
  have rows1: "bundle_rows ?c1 = bt_rows t @ [?b]" by (simp add: bundle_rows_def)
  have b1: "?b \<in> set (bundle_rows ?c1)" unfolding rows1 by simp
  obtain c2 x where c2: "alias_opt (as_u64 i) name ?c1 = (Inr (), c2)" "bundle_inv c2" "bundle_t (db c2) = bundle_t (db ?c1)"
    "member_t (db c2) = Some rs" "binary_t (db c2) = binary_t (db c)"
    "alias_t (db c2) = Some (ls @ (case name of None \<Rightarrow> [] | Some n \<Rightarrow> [\<lparr>l_name = n, l_bundle_id = i, l_created_at = x\<rparr>]))"
  proof (cases name)
    case None
    with inv1 tabs that show thesis by (simp add: alias_opt_def)
  next
    case (Some n)
    then have n: "n \<notin> l_name ` set ls" using named_None_alias [OF inv _ tabs(1), of n] name by simp
    have ls1: "alias_t (db ?c1) = Some ls" using tabs by simp
    from add_alias_eval [OF inv1 b1 ls1 n] Some tabs that show thesis by (auto simp: alias_opt_def)
  qed
  have rows2: "bundle_rows c2 = bt_rows t @ [?b]" using c2(3) rows1 by (simp add: bundle_rows_def)
  have fresh: "m_bundle_id r \<noteq> i" if "r \<in> set rs" for r
    using that t(3) next_rowid_fresh [of _ "bt_rows t"] unfolding registry_ok_def i_def rows by fastforce
  obtain c' where c': "for_each (\<lambda>m. exec (member_insert_stmt i m)) ms c2 = (Inr (), c')" "bundle_inv c'"
    "bundle_t (db c') = bundle_t (db c2)" "member_t (db c') = Some (rs @ map (mk_member i) ms)"
    "binary_t (db c') = binary_t (db c2)" "alias_t (db c') = alias_t (db c2)"
    using members_insert_eval [OF c2(2) _ c2(4) ext, of i] rows2 fresh by auto
  have "bundle_save name h ms c = (Inr (as_u64 i), c')"
    using name h ins lr c2(1) c'(1) find_by_name_eval [OF inv] find_first_by_hash_eval [OF inv, of h] range
    by (cases name) (auto simp: bundle_save_def bnd_Inr bnd_exec_Inr)
  moreover have "bundle_rows c' = bundle_rows c @ [?b]" using c'(3) rows2 rows by (simp add: bundle_rows_def)
  ultimately show ?thesis using c' c2 range by auto
qed

lemma show_eval:
  assumes inv: "bundle_inv c" and b: "b \<in> set (bundle_rows c)" and tabs: "member_t (db c) = Some ms" "binary_t (db c) = Some ns"
  shows "\<exists>d. bundle_show (as_u64 (b_id b)) c = (Inr (Some d), c) \<and> s_id (d_summary d) = as_u64 (b_id b) \<and>
    s_set_hash (d_summary d) = b_set_hash b \<and> s_name (d_summary d) = b_name b \<and>
    d_members d = map (\<lambda>r. \<lparr>extension_name = m_extension_name r, content_hash = m_content_hash r\<rparr>)
      (sort_key m_extension_name (filter (\<lambda>r. m_bundle_id r = b_id b) ms)) \<and>
    d_binaries d = map (\<lambda>r. \<lparr>target_triple = n_target_triple r, binary_path = n_binary_path r, built_at = as_u64 (n_built_at r)\<rparr>)
      (sort_key n_target_triple (filter (\<lambda>r. n_bundle_id r = b_id b) ns))"
proof -
  from inv obtain t where t: "bundle_t (db c) = Some t" "distinct (map b_id (bt_rows t))"
    by (elim bundle_invE) (auto simp: registry_ok_def)
  then have "lookup_by b_id (b_id b) (bt_rows t) = Some b" using b by (intro lookup_by_unique) (auto simp: bundle_rows_def)
  with t tabs row_id [OF inv b] show ?thesis
    by (simp add: bundle_show_def run_op show_summary_sel_def bundles_def bundle_members_def members_sel_def members_def
        bundle_binaries_def binaries_sel_def binaries_def read_summary_row_def)
qed

lemma named_alias:
  assumes "alias_t (db c) = Some ls" "bundle_t (db c) = Some t" "lookup_by l_name n ls = Some a"
  shows "named c n = lookup_by b_id (l_bundle_id a) (bundle_rows c)"
  using assms by (simp add: named_def find_by_name_sel_def aliases_def bundles_def bundle_rows_def)

text \<open>Marking a bundle as used does not change what names and hashes lead to.\<close>

lemma touched_lookup:
  assumes inv: "bundle_inv c" "bundle_inv c'" and al: "alias_t (db c') = alias_t (db c)"
    and rows: "bundle_rows c' = update_where p (touch_bundle now) (bundle_rows c)"
  shows "named c' n = map_option (\<lambda>b. if p b then touch_bundle now b else b) (named c n)"
    "hashed c' h = map_option (\<lambda>b. if p b then touch_bundle now b else b) (hashed c h)"
proof -
  from inv obtain t t' ls where t: "bundle_t (db c) = Some t" "bundle_t (db c') = Some t'" "alias_t (db c) = Some ls"
    by (elim bundle_invE) auto
  with rows have r: "bt_rows t' = update_where p (touch_bundle now) (bt_rows t)" by (simp add: bundle_rows_def)
  have f: "first_by b_id (filter (\<lambda>b. b_name b = Some n) (update_where p (touch_bundle now) (bt_rows t))) =
      map_option (\<lambda>b. if p b then touch_bundle now b else b) (first_by b_id (filter (\<lambda>b. b_name b = Some n) (bt_rows t)))"
    "first_by b_id (filter (\<lambda>b. b_set_hash b = h) (update_where p (touch_bundle now) (bt_rows t))) =
      map_option (\<lambda>b. if p b then touch_bundle now b else b) (first_by b_id (filter (\<lambda>b. b_set_hash b = h) (bt_rows t)))"
    by (rule first_by_filter_update; simp add: touch_bundle_def)+
  show "named c' n = map_option (\<lambda>b. if p b then touch_bundle now b else b) (named c n)"
    using t al r f(1) by (auto simp: named_def find_by_name_sel_def aliases_def bundles_def touch_bundle.lookup_by_update_where
        split: option.splits)
  show "hashed c' h = map_option (\<lambda>b. if p b then touch_bundle now b else b) (hashed c h)"
    using t r f(2) by (simp add: hashed_def find_first_by_hash_sel_def bundles_def)
qed

text \<open>After a successful save the name, or else the set hash, leads to the returned bundle.\<close>

definition leads_to :: "conn \<Rightarrow> string option \<Rightarrow> string \<Rightarrow> bundle_row option" where
  "leads_to c name h = (case name of None \<Rightarrow> hashed c h | Some n \<Rightarrow> named c n)"

lemma new_row_lookup:
  assumes inv: "bundle_inv c" and rows: "bundle_rows c = rs @ [b]"
  shows "lookup_by b_id (b_id b) (bundle_rows c) = Some b"
proof -
  have "distinct (map b_id (bundle_rows c))" using inv by (elim bundle_invE) (auto simp: registry_ok_def bundle_rows_def)
  then show ?thesis by (rule lookup_by_unique) (simp add: rows)
qed

lemma hashed_append:
  assumes "bundle_inv c" "bundle_rows c = rs @ [b]" "\<forall>r \<in> set rs. b_set_hash r \<noteq> b_set_hash b"
  shows "hashed c (b_set_hash b) = Some b"
proof -
  from assms(1) obtain t where t: "bundle_t (db c) = Some t" by (rule bundle_invE)
  with assms have "filter (\<lambda>r. b_set_hash r = b_set_hash b) (bt_rows t) = [b]"
    by (auto simp: bundle_rows_def filter_empty_conv)
  with t show ?thesis by (simp add: hashed_def find_first_by_hash_sel_def bundles_def)
qed

lemma hashed_None: "bundle_inv c \<Longrightarrow> hashed c h = None \<Longrightarrow> b \<in> set (bundle_rows c) \<Longrightarrow> b_set_hash b \<noteq> h"
  by (elim bundle_invE)
    (auto simp: hashed_def find_first_by_hash_sel_def bundles_def bundle_rows_def filter_empty_conv)

lemma members_insert_frame:
  assumes "for_each (\<lambda>m. exec (member_insert_stmt i m)) ms c = (r, c')"
  shows "bundle_t (db c') = bundle_t (db c) \<and> alias_t (db c') = alias_t (db c)"
proof -
  let ?P = "\<lambda>s. bundle_t (db s) = bundle_t (db c) \<and> alias_t (db s) = alias_t (db c)"
  have "keeps ?P (exec (member_insert_stmt i m))" for m
    by (rule keeps_exec) (auto simp: frame_def member_insert_stmt_def sbind_eq_Inr_iff split: if_splits)
  then have "keeps ?P (for_each (\<lambda>m. exec (member_insert_stmt i m)) ms)" by (intro keeps_for_each)
  from keepsD [OF this _ assms] show ?thesis by simp
qed

lemma save_fresh_inv:
  assumes inv: "bundle_inv c" and name: "name = None \<or> (\<exists>n. name = Some n \<and> named c n = None)" and h: "hashed c h = None"
    and ls: "alias_t (db c) = Some ls" and run: "bundle_save name h ms c = (Inr bid, c')"
  shows "\<exists>i b x. bid = as_u64 i \<and> b_id b = i \<and> b_set_hash b = h \<and> bundle_rows c' = bundle_rows c @ [b] \<and>
    alias_t (db c') = Some (ls @ (case name of None \<Rightarrow> [] | Some n \<Rightarrow> [\<lparr>l_name = n, l_bundle_id = i, l_created_at = x\<rparr>]))"
proof -
  let ?tail = "bnd unix_now (\<lambda>now.
     bnd (exec (bundle_insert_stmt name h now)) (\<lambda>_.
     bnd (query (\<lambda>c. Inr (as_u64 (last_rowid c)))) (\<lambda>bid.
     bnd (alias_opt bid name) (\<lambda>_.
     bnd (for_each (\<lambda>m. exec (member_insert_stmt (as_i64 bid) m)) ms) (\<lambda>_.
     ret bid)))))"
  have "bundle_save name h ms c = ?tail c"
    using name h find_by_name_eval [OF inv] find_first_by_hash_eval [OF inv, of h]
    by (cases name) (auto simp: bundle_save_def bnd_Inr)
  with run obtain c1 c2 where c1: "bundle_insert_stmt name h (now_of c) (tick c) = Inr c1"
    and bid: "bid = as_u64 (last_rowid c1)" and c2: "alias_opt bid name c1 = (Inr (), c2)"
    and c': "for_each (\<lambda>m. exec (member_insert_stmt (as_i64 bid) m)) ms c2 = (Inr (), c')"
    by (auto simp: bnd_eq_Inr_iff exec_eq_Inr_iff)
  from inv obtain t where t: "bundle_t (db c) = Some t" by (rule bundle_invE)
  let ?i = "next_rowid (bt_rows t)"
  let ?b = "\<lparr>b_id = ?i, b_name = name, b_set_hash = h, b_created_at = now_of c, b_last_used_at = now_of c\<rparr>"
  have c1': "c1 = dml 1 0 ((set_bundles t (bt_rows t @ [?b]) (tick c))\<lparr>last_rowid := ?i\<rparr>)" "i64_range ?i"
    using c1 t by (auto simp: bundle_insert_stmt_def bundles_def Let_def split: if_splits)
  have "bundle_inv (tick c)" using inv by (simp add: bundle_inv_def)
  then have inv1: "bundle_inv c1" using bundle_insert_stmt_inv c1 by blast
  have b1: "?b \<in> set (bundle_rows c1)" "last_rowid c1 = ?i" "alias_t (db c1) = Some ls" "bundle_rows c1 = bt_rows t @ [?b]"
    using ls by (simp_all add: c1'(1) bundle_rows_def dml_def del: One_nat_def)
  have "\<exists>x. bundle_t (db c2) = bundle_t (db c1) \<and> alias_t (db c2) =
      Some (ls @ (case name of None \<Rightarrow> [] | Some n \<Rightarrow> [\<lparr>l_name = n, l_bundle_id = ?i, l_created_at = x\<rparr>]))"
  proof (cases name)
    case None
    with c2 b1 show ?thesis by (simp add: alias_opt_def)
  next
    case (Some n)
    then have n: "n \<notin> l_name ` set ls" using named_None_alias [OF inv _ ls, of n] name by simp
    from add_alias_eval [OF inv1 b1(1,3) n] c2 Some bid b1(2) show ?thesis by (auto simp: alias_opt_def)
  qed
  with members_insert_frame [OF c'] t bid b1(2,4) show ?thesis by (auto simp: bundle_rows_def)
qed

lemma save_result:
  assumes inv: "bundle_inv c" and run: "bundle_save name h ms c = (Inr bid, c')"
  shows "\<exists>b. leads_to c' name h = Some b \<and> bid = as_u64 (b_id b) \<and> b_set_hash b = h"
proof -
  from inv obtain ls t where ls: "alias_t (db c) = Some ls" "bundle_t (db c) = Some t" by (rule bundle_invE)
  have inv': "bundle_inv c'" using keepsD [OF keeps_bundle_save inv run] .
  then obtain t' where t': "bundle_t (db c') = Some t'" by (rule bundle_invE)
  show ?thesis
  proof (cases "\<exists>n b. name = Some n \<and> named c n = Some b")
    case True
    then obtain n b where n: "name = Some n" "named c n = Some b" by blast
    have hash: "b_set_hash b = h" using save_conflict [OF inv n(2)] run n(1) by (metis Inl_Inr_False prod.inject)
    obtain c'' where "bundle_save (Some n) h ms c = (Inr (as_u64 (b_id b)), c'')" "alias_t (db c'') = alias_t (db c)"
      "bundle_rows c'' = update_where (\<lambda>r. b_id r = b_id b) (touch_bundle (now_of c)) (bundle_rows c)"
      using save_named [OF inv n(2) hash] by blast
    with run n touched_lookup(1) [OF inv inv', where n = n] hash show ?thesis by (auto simp: leads_to_def touch_bundle_def)
  next
    case False
    then have name: "name = None \<or> (\<exists>n. name = Some n \<and> named c n = None)" by (cases name) auto
    show ?thesis
    proof (cases "hashed c h")
      case None
      obtain i b x where b: "bid = as_u64 i" "b_id b = i" "b_set_hash b = h" "bundle_rows c' = bundle_rows c @ [b]"
        "alias_t (db c') = Some (ls @ (case name of None \<Rightarrow> [] | Some n \<Rightarrow> [\<lparr>l_name = n, l_bundle_id = i, l_created_at = x\<rparr>]))"
        using save_fresh_inv [OF inv name None ls(1) run] by blast
      show ?thesis
      proof (cases name)
        case None
        with hashed_append [OF inv' b(4)] hashed_None [OF inv \<open>hashed c h = None\<close>] b show ?thesis
          by (auto simp: leads_to_def)
      next
        case (Some n)
        then have "n \<notin> l_name ` set ls" using named_None_alias [OF inv _ ls(1), of n] name by simp
        then have "lookup_by l_name n ls = None" by (simp add: lookup_by_None_iff)
        with b(5) Some named_alias [OF b(5) t', of n] new_row_lookup [OF inv' b(4)] b(1-3) show ?thesis
          by (auto simp: leads_to_def lookup_by_append)
      qed
    next
      case (Some b)
      have hash: "b_set_hash b = h" "b \<in> set (bundle_rows c)" using hashed_SomeD [OF inv Some] by auto
      obtain c'' c0 where c'': "bundle_save name h ms c = (Inr (as_u64 (b_id b)), c'')"
        "bundle_rows c'' = update_where (\<lambda>r. b_id r = b_id b) (touch_bundle (now_of c0)) (bundle_rows c)"
        "alias_t (db c'') = Some (ls @ (case name of None \<Rightarrow> [] | Some n \<Rightarrow> [\<lparr>l_name = n, l_bundle_id = b_id b, l_created_at = now_of c\<rparr>]))"
        using save_hashed [OF inv name Some ls(1)] by blast
      then have c': "c'' = c'" "bid = as_u64 (b_id b)" using run by auto
      have dist: "lookup_by b_id (b_id b) (bundle_rows c) = Some b"
        using inv hash(2) by (elim bundle_invE) (auto simp: registry_ok_def bundle_rows_def intro!: lookup_by_unique)
      show ?thesis
      proof (cases name)
        case None
        with touched_lookup(2) [OF inv inv', where h = h] c'' c' ls Some hash show ?thesis
          by (auto simp: leads_to_def touch_bundle_def)
      next
        case (Some n)
        then have "n \<notin> l_name ` set ls" using named_None_alias [OF inv _ ls(1), of n] name by simp
        then have "lookup_by l_name n ls = None" by (simp add: lookup_by_None_iff)
        with Some c''(3) c'(1) have "named c' n = lookup_by b_id (b_id b) (bundle_rows c')"
          using named_alias [OF _ t', of _ n] by (simp add: lookup_by_append)
        with c''(2) c' dist hash Some show ?thesis
          by (simp add: leads_to_def touch_bundle.lookup_by_update_where) (simp add: touch_bundle_def)
      qed
    qed
  qed
qed

section \<open>Deleting and collecting\<close>

lemma bundle_rows_deleted:
  "bundle_t (db c') = map_option (\<lambda>t. t\<lparr>bt_rows := delete_where p (bt_rows t)\<rparr>) (bundle_t (db c)) \<Longrightarrow>
   bundle_rows c' = delete_where p (bundle_rows c)"
  by (auto simp: bundle_rows_def delete_where_def split: option.splits)

lemma delete_eval:
  assumes "bundle_inv c"
  shows "\<exists>c'. bundle_delete bid c = (Inr (as_i64 bid \<in> b_id ` set (bundle_rows c)), c') \<and> bundle_inv c' \<and>
    bundle_rows c' = delete_where (\<lambda>b. b_id b = as_i64 bid) (bundle_rows c) \<and>
    member_t (db c') = orphaned {as_i64 bid} m_bundle_id (member_t (db c)) \<and>
    binary_t (db c') = orphaned {as_i64 bid} n_bundle_id (binary_t (db c)) \<and>
    alias_t (db c') = orphaned {as_i64 bid} l_bundle_id (alias_t (db c))"
proof -
  obtain c' where c': "bundle_delete_stmt (as_i64 bid) c = Inr c'" "bundle_inv c'"
    "bundle_t (db c') = map_option (\<lambda>t. t\<lparr>bt_rows := delete_where (\<lambda>b. b_id b = as_i64 bid) (bt_rows t)\<rparr>) (bundle_t (db c))"
    "member_t (db c') = orphaned {as_i64 bid} m_bundle_id (member_t (db c))"
    "binary_t (db c') = orphaned {as_i64 bid} n_bundle_id (binary_t (db c))"
    "alias_t (db c') = orphaned {as_i64 bid} l_bundle_id (alias_t (db c))"
    "0 < n_changes c' \<longleftrightarrow> (\<exists>t b. bundle_t (db c) = Some t \<and> b \<in> set (bt_rows t) \<and> b_id b = as_i64 bid)"
    using bundle_delete_eval [OF assms] by blast
  have "0 < n_changes c' \<longleftrightarrow> as_i64 bid \<in> b_id ` set (bundle_rows c)"
  proof -
    from assms obtain t where "bundle_t (db c) = Some t" by (rule bundle_invE)
    with c'(7) show ?thesis unfolding bundle_rows_def by (auto simp: image_iff) metis+
  qed
  with c' bundle_rows_deleted [OF c'(3)] show ?thesis by (simp add: bundle_delete_def run_op)
qed

lemma delete_loop:
  assumes "bundle_inv c"
  shows "\<exists>c'. for_each (\<lambda>bid. bnd (bundle_delete bid) (\<lambda>_. ret ())) vs c = (Inr (), c') \<and> bundle_inv c' \<and>
    bundle_rows c' = filter (\<lambda>b. b_id b \<notin> as_i64 ` set vs) (bundle_rows c)"
  using assms
proof (induction vs arbitrary: c)
  case Nil
  then show ?case by simp
next
  case (Cons v vs)
  obtain r c1 where c1: "bundle_delete v c = (Inr r, c1)" "bundle_inv c1"
    "bundle_rows c1 = delete_where (\<lambda>b. b_id b = as_i64 v) (bundle_rows c)" using delete_eval [OF Cons.prems] by blast
  obtain c' where c': "for_each (\<lambda>bid. bnd (bundle_delete bid) (\<lambda>_. ret ())) vs c1 = (Inr (), c')" "bundle_inv c'"
    "bundle_rows c' = filter (\<lambda>b. b_id b \<notin> as_i64 ` set vs) (bundle_rows c1)" using Cons.IH [OF c1(2)] by blast
  have "for_each (\<lambda>bid. bnd (bundle_delete bid) (\<lambda>_. ret ())) (v # vs) c = (Inr (), c')"
    using c1(1) c'(1) by (simp add: bnd_Inr)
  moreover have "filter (\<lambda>b. b_id b \<notin> as_i64 ` set vs) (delete_where (\<lambda>b. b_id b = as_i64 v) (bundle_rows c)) =
      filter (\<lambda>b. b_id b \<notin> as_i64 ` set (v # vs)) (bundle_rows c)"
    by (auto simp: delete_where_def intro!: filter_cong)
  ultimately show ?case using c'(2,3) unfolding c1(3) by metis
qed

lemma set_add_victims: "set (add_victims vs is) = set vs \<union> as_u64 ` set is"
  by (induction vs "is" rule: add_victims.induct) auto

lemma distinct_add_victims: "distinct vs \<Longrightarrow> distinct (add_victims vs is)"
  by (induction vs "is" rule: add_victims.induct) auto

text \<open>The bundles a policy condemns at time \<open>now\<close>.\<close>

definition doomed :: "gc_policy \<Rightarrow> int \<Rightarrow> bundle_row list \<Rightarrow> bundle_row set" where
  "doomed p now rows = (case keep_last p of None \<Rightarrow> {} | Some k \<Rightarrow> set (drop k (sort_key lru_key rows))) \<union>
     (case older_than_secs p of None \<Rightarrow> {} | Some age \<Rightarrow> {b \<in> set rows. b_last_used_at b < as_i64 (as_u64 now - age)})"

lemma bundle_gc_eval:
  assumes inv: "bundle_inv c"
  shows "\<exists>victims c'. bundle_gc p c = (Inr victims, c') \<and> bundle_inv c' \<and>
    set victims = (\<lambda>b. as_u64 (b_id b)) ` doomed p (now_of c) (bundle_rows c) \<and>
    bundle_rows c' = filter (\<lambda>b. b \<notin> doomed p (now_of c) (bundle_rows c)) (bundle_rows c)"
proof -
  from inv obtain t where t: "bundle_t (db c) = Some t" "distinct (map b_id (bt_rows t))"
    by (elim bundle_invE) (auto simp: registry_ok_def)
  have rows: "bt_rows t = bundle_rows c" using t by (simp add: bundle_rows_def)
  let ?k = "case keep_last p of None \<Rightarrow> [] | Some k \<Rightarrow> map as_u64 (map b_id (drop k (sort_key lru_key (bundle_rows c))))"
  let ?v = "case older_than_secs p of None \<Rightarrow> ?k | Some age \<Rightarrow> add_victims ?k (map b_id (sort_key b_id
    (filter (\<lambda>b. b_last_used_at b < as_i64 (as_u64 (now_of c) - age)) (bundle_rows c))))"
  let ?D = "doomed p (now_of c) (bundle_rows c)"
  have sel: "gc_keep_sel (int k) (db c) = Inr (map b_id (drop k (sort_key lru_key (bundle_rows c))))"
    "gc_age_sel x (db c) = Inr (map b_id (sort_key b_id (filter (\<lambda>b. b_last_used_at b < x) (bundle_rows c))))" for k x
    using t rows by (simp_all add: gc_keep_sel_def gc_age_sel_def bundles_def)
  have vset: "set ?v = (\<lambda>b. as_u64 (b_id b)) ` ?D"
    by (auto simp: doomed_def set_add_victims image_image image_Un split: option.splits)
  have sub: "?D \<subseteq> set (bundle_rows c)" using set_drop_subset by (fastforce simp: doomed_def split: option.splits)
  have inv1: "bundle_inv (tick c)" using inv by (simp add: bundle_inv_def)
  obtain c' where c': "for_each (\<lambda>bid. bnd (bundle_delete bid) (\<lambda>_. ret ())) ?v (tick c) = (Inr (), c')" "bundle_inv c'"
    "bundle_rows c' = filter (\<lambda>b. b_id b \<notin> as_i64 ` set ?v) (bundle_rows (tick c))" using delete_loop [OF inv1] by blast
  have "as_i64 ` set ?v = b_id ` ?D"
    unfolding vset image_image using sub row_id [OF inv] by (intro image_cong) auto
  moreover have "b_id b \<in> b_id ` ?D \<longleftrightarrow> b \<in> ?D" if "b \<in> set (bundle_rows c)" for b
  proof
    assume "b_id b \<in> b_id ` ?D"
    then obtain d where d: "d \<in> ?D" "b_id d = b_id b" by auto
    then have "lookup_by b_id (b_id b) (bundle_rows c) = Some d" using lookup_by_unique [of b_id "bundle_rows c" d] t(2) sub rows by auto
    moreover have "lookup_by b_id (b_id b) (bundle_rows c) = Some b"
      by (rule lookup_by_unique [OF t(2) [unfolded rows] that])
    ultimately have "d = b" by simp
    with d(1) show "b \<in> ?D" by (simp only:)
  qed (rule imageI)
  moreover have "bundle_rows (tick c) = bundle_rows c" by (simp add: bundle_rows_def)
  ultimately have "bundle_rows c' = filter (\<lambda>b. b \<notin> ?D) (bundle_rows c)"
    unfolding c'(3) by (simp only: cong: filter_cong)
  moreover have k: "(case keep_last p of None \<Rightarrow> ret []
      | Some k \<Rightarrow> bnd (select (gc_keep_sel (int k))) (\<lambda>is. ret (map as_u64 is))) (tick c) = (Inr ?k, tick c)"
    by (cases "keep_last p") (simp_all add: bnd_select_Inr sel)
  have v: "(case older_than_secs p of None \<Rightarrow> ret vs
      | Some age \<Rightarrow> bnd (select (gc_age_sel (as_i64 (as_u64 (now_of c) - age)))) (\<lambda>is. ret (add_victims vs is))) (tick c) =
      (Inr (case older_than_secs p of None \<Rightarrow> vs | Some age \<Rightarrow> add_victims vs (map b_id (sort_key b_id
        (filter (\<lambda>b. b_last_used_at b < as_i64 (as_u64 (now_of c) - age)) (bundle_rows c))))), tick c)" for vs
    by (cases "older_than_secs p") (simp_all add: bnd_select_Inr sel)
  have "bundle_gc p c = (Inr ?v, c')"
    unfolding bundle_gc_def bnd_unix_now
    by (rule bnd_seq, rule k, rule bnd_seq, rule v, rule bnd_seq, rule c'(1), simp only: ret_def)
  with calculation show ?thesis using c'(2) vset by blast
qed

section \<open>Names are bound once\<close>

text \<open>The name \<open>n\<close> leads to the bundle \<open>i\<close> with set hash \<open>h\<close>.\<close>

definition binds :: "string \<Rightarrow> int \<Rightarrow> string \<Rightarrow> conn \<Rightarrow> bool" where
  "binds n i h c \<longleftrightarrow> bundle_inv c \<and> (\<exists>b. named c n = Some b \<and> b_id b = i \<and> b_set_hash b = h)"

lemma frame_binds [simp]: "frame (binds n i h)"
  by (auto simp: frame_def binds_def named_def bundle_inv_def)

lemma bindsI:
  assumes "binds n i h c" "bundle_inv c'"
    and "\<And>b. named c n = Some b \<Longrightarrow> \<exists>b'. named c' n = Some b' \<and> b_id b' = b_id b \<and> b_set_hash b' = b_set_hash b"
  shows "binds n i h c'"
  using assms unfolding binds_def by blast

lemma touch_stmt_binds:
  assumes "binds n i h c" "touch_stmt j now c = Inr c'"
  shows "binds n i h c'"
proof (rule bindsI [OF assms(1)])
  have inv: "bundle_inv c" using assms(1) by (simp add: binds_def)
  show inv': "bundle_inv c'" using touch_stmt_inv [OF inv assms(2)] .
  from inv obtain t where t: "bundle_t (db c) = Some t" by (rule bundle_invE)
  have rows: "bundle_rows c' = update_where (\<lambda>b. b_id b = j) (touch_bundle now) (bundle_rows c)" "alias_t (db c') = alias_t (db c)"
    using assms(2) t by (auto simp: touch_stmt_def bundles_def bundle_rows_def)
  fix b assume "named c n = Some b"
  with touched_lookup(1) [OF inv inv' rows(2,1), of n]
  show "\<exists>b'. named c' n = Some b' \<and> b_id b' = b_id b \<and> b_set_hash b' = b_set_hash b" by (auto simp: touch_bundle_def)
qed

lemma bundle_insert_stmt_binds:
  assumes "binds n i h c" "bundle_insert_stmt name h' now c = Inr c'" "name \<noteq> Some n"
  shows "binds n i h c'"
proof (rule bindsI [OF assms(1)])
  have inv: "bundle_inv c" using assms(1) by (simp add: binds_def)
  show "bundle_inv c'" using bundle_insert_stmt_inv [OF inv assms(2)] .
  from inv obtain t ls where t: "bundle_t (db c) = Some t" "alias_t (db c) = Some ls" by (rule bundle_invE)
  fix b assume "named c n = Some b"
  with assms(2,3) t have "named c' n = Some b"
    by (auto simp: bundle_insert_stmt_def bundles_def aliases_def Let_def named_def find_by_name_sel_def lookup_by_append
        split: if_splits option.splits)
  then show "\<exists>b'. named c' n = Some b' \<and> b_id b' = b_id b \<and> b_set_hash b' = b_set_hash b" by simp
qed

lemma alias_insert_stmt_binds:
  assumes "binds n i h c" "alias_insert_stmt a j now c = Inr c'" "a \<noteq> n"
  shows "binds n i h c'"
proof (rule bindsI [OF assms(1)])
  have inv: "bundle_inv c" using assms(1) by (simp add: binds_def)
  show "bundle_inv c'" using alias_insert_stmt_inv [OF inv assms(2)] .
  from inv obtain t ls where t: "bundle_t (db c) = Some t" "alias_t (db c) = Some ls" by (rule bundle_invE)
  fix b assume "named c n = Some b"
  with assms(2,3) t have "named c' n = Some b"
    by (auto simp: alias_insert_stmt_def bundles_def aliases_def named_def find_by_name_sel_def lookup_by_append
        split: if_splits option.splits)
  then show "\<exists>b'. named c' n = Some b' \<and> b_id b' = b_id b \<and> b_set_hash b' = b_set_hash b" by simp
qed

lemma member_insert_stmt_binds:
  assumes "binds n i h c" "member_insert_stmt j m c = Inr c'"
  shows "binds n i h c'"
proof (rule bindsI [OF assms(1)])
  have inv: "bundle_inv c" using assms(1) by (simp add: binds_def)
  show "bundle_inv c'" using member_insert_stmt_inv [OF inv assms(2)] .
  have "bundle_t (db c') = bundle_t (db c)" "alias_t (db c') = alias_t (db c)"
    using assms(2) by (auto simp: member_insert_stmt_def members_def sbind_eq_Inr_iff split: if_splits)
  then have "named c' n = named c n" by (simp add: named_def find_by_name_sel_def bundles_def aliases_def)
  then show "\<exists>b'. named c' n = Some b' \<and> b_id b' = b_id b \<and> b_set_hash b' = b_set_hash b" if "named c n = Some b" for b
    using that by simp
qed

lemma keeps_binds:
  "keeps (binds n i h) (bundle_touch bid)" "keeps (binds n i h) (exec (member_insert_stmt j m))"
  "name \<noteq> Some n \<Longrightarrow> keeps (binds n i h) (exec (bundle_insert_stmt name h' now))"
  "name \<noteq> Some n \<Longrightarrow> keeps (binds n i h) (alias_opt bid name)"
  unfolding bundle_touch_def alias_opt_def bundle_add_alias_def
  by (intro keeps_rules keeps_unix_now keeps_select keeps_exec frame_binds; elim touch_stmt_binds member_insert_stmt_binds
      bundle_insert_stmt_binds alias_insert_stmt_binds; simp)+

lemma save_keeps_binds:
  assumes "binds n i h c"
  shows "binds n i h (snd (bundle_save name h' ms c))"
proof (cases "name = Some n")
  case True
  obtain b where b: "bundle_inv c" "named c n = Some b" "b_id b = i" "b_set_hash b = h" using assms by (auto simp: binds_def)
  show ?thesis
  proof (cases "h = h'")
    case False
    with True b save_conflict [OF b(1,2), of h' ms] assms show ?thesis by simp
  next
    case True
    then obtain c' where c': "bundle_save (Some n) h' ms c = (Inr (as_u64 i), c')" "bundle_inv c'"
      using save_named [OF b(1,2), of h' ms] b by blast
    from b save_named [OF b(1,2), of h' ms] True c'(1) have r: "alias_t (db c') = alias_t (db c)"
      "bundle_rows c' = update_where (\<lambda>r. b_id r = b_id b) (touch_bundle (now_of c)) (bundle_rows c)" by auto
    have "binds n i h c'"
      using assms c'(2) touched_lookup(1) [OF b(1) c'(2) r, of n] b by (auto simp: binds_def touch_bundle_def)
    with c' \<open>name = Some n\<close> show ?thesis by simp
  qed
next
  case False
  then have "keeps (binds n i h) (bundle_save name h' ms)"
    unfolding bundle_save_def by (intro keeps_rules keeps_binds keeps_unix_now frame_binds)
  with assms show ?thesis by (simp add: keeps_def)
qed

lemma bound_to_iff:
  assumes "bundle_inv c"
  shows "bound_to bundle_find_by_name c n i h \<longleftrightarrow> (\<exists>b. named c n = Some b \<and> as_u64 (b_id b) = i \<and> b_set_hash b = h)"
  by (auto simp: bound_to_def find_by_name_eval [OF assms])

interpretation store: bundle_registry bundle_inv bundle_save bundle_find_by_name
proof
  show "bundle_inv (snd (bundle_save name h ms c))" if "bundle_inv c" for name h ms c
    using keeps_bundle_save that unfolding keeps_def by blast
  show "bound_to bundle_find_by_name c' n i h" if "bundle_inv c" "bundle_save (Some n) h ms c = (Inr i, c')" for c n h ms i c'
    using save_result [OF that] bound_to_iff [OF keepsD [OF keeps_bundle_save that]] by (auto simp: leads_to_def)
  show "bundle_save (Some n) h' ms c = (Inl (AliasConflict n h h'), c)"
    if "bundle_inv c" "bound_to bundle_find_by_name c n i h" "h' \<noteq> h" for c n i h h' ms
    using that(2,3) by (auto simp: bound_to_iff [OF that(1)] save_conflict [OF that(1)])
  show "bound_to bundle_find_by_name (snd (bundle_save name h' ms c)) n i h"
    if b: "bundle_inv c" "bound_to bundle_find_by_name c n i h" for c n i h name h' ms
  proof -
    obtain r where r: "named c n = Some r" "as_u64 (b_id r) = i" "b_set_hash r = h" using b bound_to_iff by blast
    then have "binds n (b_id r) h (snd (bundle_save name h' ms c))"
      using b(1) by (intro save_keeps_binds) (simp add: binds_def)
    then show ?thesis using r(2) bound_to_iff by (auto simp: binds_def)
  qed
qed

section \<open>Properties\<close>

text \<open>C5. A saved bundle can be found and shown: on a sound registry, saving members with distinct
  extension names under a new name and a new set hash succeeds with a fresh id; the name then leads to
  that bundle with the given set hash, and showing it lists exactly the given members, sorted by
  extension name, and no binaries.\<close>

theorem bundle_save_roundtrip:
  assumes "bundle_inv c" "named c n = None" "hashed c h = None" "distinct (map extension_name ms)"
    "next_rowid (bundle_rows c) < 2 ^ 63"
  shows "\<exists>bid c' s d. bundle_save (Some n) h ms c = (Inr bid, c') \<and> bundle_inv c' \<and>
    (\<forall>b \<in> set (bundle_rows c). bid \<noteq> as_u64 (b_id b)) \<and>
    bundle_find_by_name n c' = (Inr (Some s), c') \<and> s_id s = bid \<and> s_set_hash s = h \<and>
    bundle_show bid c' = (Inr (Some d), c') \<and> d_members d = sort_key extension_name ms \<and> d_binaries d = []"
proof -
  from assms(1) obtain t rs ns ls where t: "bundle_t (db c) = Some t" "member_t (db c) = Some rs" "binary_t (db c) = Some ns"
    "alias_t (db c) = Some ls" "registry_ok t rs ns ls" by (rule bundle_invE)
  let ?i = "next_rowid (bundle_rows c)"
  have rows: "bundle_rows c = bt_rows t" using t(1) by (simp add: bundle_rows_def)
  let ?b = "\<lparr>b_id = ?i, b_name = Some n, b_set_hash = h, b_created_at = now_of c, b_last_used_at = now_of c\<rparr>"
  obtain c' where c': "bundle_save (Some n) h ms c = (Inr (as_u64 ?i), c')" "bundle_inv c'" "i64_range ?i"
    "bundle_rows c' = bundle_rows c @ [?b]" "member_t (db c') = Some (rs @ map (mk_member ?i) ms)" "binary_t (db c') = Some ns"
    using save_fresh [OF assms(1) _ assms(3-5) t(4,2), of "Some n"] assms(2) t(3) by auto
  obtain b where "named c' n = Some b" "as_u64 ?i = as_u64 (b_id b)" "b_set_hash b = h"
    using save_result [OF assms(1) c'(1)] by (auto simp: leads_to_def)
  then have f: "bundle_find_by_name n c' = (Inr (Some (row_summary c' b)), c')" "s_id (row_summary c' b) = as_u64 ?i"
    "s_set_hash (row_summary c' b) = h" using find_by_name_eval [OF c'(2), of n] by auto
  have below: "b_id x < ?i" if "x \<in> set (bundle_rows c)" for x using next_rowid_fresh [OF that] .
  have other: "as_u64 ?i \<noteq> as_u64 (b_id x)" if "x \<in> set (bundle_rows c)" for x
    using below [OF that] row_id [OF assms(1) that] as_i64_as_u64 [OF c'(3)] by (metis less_irrefl)
  have none: "filter (\<lambda>r. m_bundle_id r = ?i) rs = []" "filter (\<lambda>r. n_bundle_id r = ?i) ns = []"
    using t(5) below unfolding registry_ok_def rows by (fastforce simp: filter_empty_conv)+
  have all: "filter (\<lambda>r. m_bundle_id r = ?i) (map (mk_member ?i) ms) = map (mk_member ?i) ms"
    by (simp add: filter_id_conv mk_member_def)
  have new: "?b \<in> set (bundle_rows c')" unfolding c'(4) by simp
  obtain d where d: "bundle_show (as_u64 ?i) c' = (Inr (Some d), c')" "d_members d =
      map (\<lambda>r. \<lparr>extension_name = m_extension_name r, content_hash = m_content_hash r\<rparr>)
        (sort_key m_extension_name (filter (\<lambda>r. m_bundle_id r = ?i) (rs @ map (mk_member ?i) ms)))" "d_binaries d = []"
    using show_eval [OF c'(2) new c'(5,6)] none by auto
  have "d_members d = sort_key extension_name ms"
    unfolding d(2) filter_append none(1) all append_Nil sort_key_map by (simp add: comp_def mk_member_def map_idI)
  with c' f d other show ?thesis by blast
qed

lemma toy_registry: "bundle_inv toy_conn"
  by (simp add: bundle_inv_def registry_ok_def toy_conn_def open_conn_def fresh_tables_def)

lemma toy_named [simp]: "named toy_conn n = None" "hashed toy_conn h = None" "bundle_rows toy_conn = []"
  by (simp_all add: named_def hashed_def find_by_name_sel_def find_first_by_hash_sel_def aliases_def bundles_def toy_conn_def
      open_conn_def fresh_tables_def bundle_rows_def)

definition two_members :: "bundle_member list" where
  "two_members = [\<lparr>extension_name = ''uuid'', content_hash = ''aa''\<rparr>, \<lparr>extension_name = ''json'', content_hash = ''bb''\<rparr>]"

theorem bundle_save_roundtrip_witness:
  "\<exists>bid c' d. bundle_save (Some ''dev'') ''c0ffee'' two_members toy_conn = (Inr bid, c') \<and>
     bundle_show bid c' = (Inr (Some d), c') \<and> map extension_name (d_members d) = [''json'', ''uuid'']"
proof -
  have "next_rowid (bundle_rows toy_conn) < 2 ^ 63" by (simp add: next_rowid_def)
  moreover have "distinct (map extension_name two_members)" by (simp add: two_members_def)
  ultimately obtain bid c' d where "bundle_save (Some ''dev'') ''c0ffee'' two_members toy_conn = (Inr bid, c')"
    "bundle_show bid c' = (Inr (Some d), c')" "d_members d = sort_key extension_name two_members"
    using bundle_save_roundtrip [OF toy_registry, of "''dev''" "''c0ffee''" two_members] by auto
  then show ?thesis by (auto simp: two_members_def)
qed

text \<open>Saving is idempotent: once a save has returned an id, saving again under the same name and set
  hash (whatever the member list) returns the same id and changes nothing but the time of last use:
  no bundle, member, binary or alias is added.\<close>

theorem bundle_save_idempotent:
  assumes "bundle_inv c" "bundle_save name h ms c = (Inr bid, c')"
  shows "\<exists>c''. bundle_save name h ms' c' = (Inr bid, c'') \<and> bundle_inv c'' \<and> member_t (db c'') = member_t (db c') \<and>
    binary_t (db c'') = binary_t (db c') \<and> alias_t (db c'') = alias_t (db c') \<and>
    map (touch_bundle 0) (bundle_rows c'') = map (touch_bundle 0) (bundle_rows c')"
proof -
  have inv: "bundle_inv c'" using keepsD [OF keeps_bundle_save assms] .
  obtain b where b: "leads_to c' name h = Some b" "bid = as_u64 (b_id b)" "b_set_hash b = h"
    using save_result [OF assms] by blast
  have touch: "map (touch_bundle 0) (update_where p (touch_bundle now) rs) = map (touch_bundle 0) rs" for p now rs
    by (induction rs) (auto simp: touch_bundle_def)
  show ?thesis
  proof (cases name)
    case None
    from inv obtain ls where "alias_t (db c') = Some ls" by (rule bundle_invE)
    with None b save_hashed [OF inv, of None h b ls ms'] show ?thesis by (auto simp: leads_to_def touch)
  next
    case (Some n)
    with b save_named [OF inv, of n b h ms'] show ?thesis by (auto simp: leads_to_def touch)
  qed
qed

theorem bundle_save_idempotent_witness:
  "\<exists>bid c' c''. bundle_save (Some ''dev'') ''c0ffee'' two_members toy_conn = (Inr bid, c') \<and>
     bundle_save (Some ''dev'') ''c0ffee'' [] c' = (Inr bid, c'')"
proof -
  have room: "next_rowid (bundle_rows toy_conn) < 2 ^ 63" by (simp add: next_rowid_def)
  have "alias_t (db toy_conn) = Some []" "member_t (db toy_conn) = Some []"
    by (simp_all add: toy_conn_def open_conn_def fresh_tables_def)
  then obtain bid c' where c': "bundle_save (Some ''dev'') ''c0ffee'' two_members toy_conn = (Inr bid, c')"
    using save_fresh [OF toy_registry _ _ _ room, of "Some ''dev''" "''c0ffee''" two_members "[]" "[]"]
    by (auto simp: two_members_def)
  from bundle_save_idempotent [OF toy_registry c'] c' show ?thesis by blast
qed

text \<open>A name is never rebound: saving another set hash under a bound name reports the conflict with
  both hashes and leaves the connection exactly as it was.\<close>

theorem bundle_save_conflict:
  assumes "bundle_inv c" "named c n = Some b" "b_set_hash b \<noteq> h"
  shows "bundle_save (Some n) h ms c = (Inl (AliasConflict n (b_set_hash b) h), c)"
  using assms by (rule save_conflict)

definition dev_conn :: conn where
  "dev_conn = snd (bundle_save (Some ''dev'') ''c0ffee'' two_members toy_conn)"

lemma dev_registry: "bundle_inv dev_conn"
  unfolding dev_conn_def using keeps_bundle_save toy_registry unfolding keeps_def by blast

lemma dev_save: "\<exists>bid. bundle_save (Some ''dev'') ''c0ffee'' two_members toy_conn = (Inr bid, dev_conn)"
proof -
  have room: "next_rowid (bundle_rows toy_conn) < 2 ^ 63" by (simp add: next_rowid_def)
  have "alias_t (db toy_conn) = Some []" "member_t (db toy_conn) = Some []"
    by (simp_all add: toy_conn_def open_conn_def fresh_tables_def)
  then show ?thesis
    using save_fresh [OF toy_registry _ _ _ room, of "Some ''dev''" "''c0ffee''" two_members "[]" "[]"]
    by (auto simp: two_members_def dev_conn_def)
qed

lemma dev_named: "\<exists>b. named dev_conn ''dev'' = Some b \<and> b_set_hash b = ''c0ffee'' \<and> b \<in> set (bundle_rows dev_conn)"
  using dev_save save_result [OF toy_registry] named_in_rows [OF dev_registry] by (fastforce simp: leads_to_def)

theorem bundle_save_conflict_witness:
  "bundle_save (Some ''dev'') ''bad'' [] dev_conn = (Inl (AliasConflict ''dev'' ''c0ffee'' ''bad''), dev_conn)"
proof -
  obtain b where b: "named dev_conn ''dev'' = Some b" "b_set_hash b = ''c0ffee''" using dev_named by blast
  from bundle_save_conflict [OF dev_registry b(1), of "''bad''" "[]"] b(2) show ?thesis by simp
qed

text \<open>Deleting a bundle removes it and everything that refers to it, and nothing else: the answer says
  whether the bundle existed; afterwards the rows of all four tables are exactly those with another
  bundle id, and the registry is still sound.\<close>

theorem bundle_delete_cascades:
  assumes "bundle_inv c" "member_t (db c) = Some ms" "binary_t (db c) = Some ns" "alias_t (db c) = Some ls"
  shows "\<exists>c'. bundle_delete bid c = (Inr (as_i64 bid \<in> b_id ` set (bundle_rows c)), c') \<and> bundle_inv c' \<and>
    bundle_rows c' = filter (\<lambda>b. b_id b \<noteq> as_i64 bid) (bundle_rows c) \<and>
    member_t (db c') = Some (filter (\<lambda>m. m_bundle_id m \<noteq> as_i64 bid) ms) \<and>
    binary_t (db c') = Some (filter (\<lambda>n. n_bundle_id n \<noteq> as_i64 bid) ns) \<and>
    alias_t (db c') = Some (filter (\<lambda>l. l_bundle_id l \<noteq> as_i64 bid) ls)"
  using delete_eval [OF assms(1), of bid] assms(2-4) by (auto simp: orphaned_def delete_where_def)

theorem bundle_delete_cascades_witness:
  "\<exists>r c' ms. bundle_delete 7 dev_conn = (Inr r, c') \<and> bundle_inv c' \<and> member_t (db c') = Some ms"
proof -
  from dev_registry obtain ms ns ls where t: "member_t (db dev_conn) = Some ms" "binary_t (db dev_conn) = Some ns"
    "alias_t (db dev_conn) = Some ls" by (rule bundle_invE)
  from bundle_delete_cascades [OF dev_registry t, of 7] show ?thesis by blast
qed

text \<open>C30. Bundle garbage collection removes exactly what the policy condemns: all but the \<open>keep_last\<close> most
  recently used bundles (ties by id), and the bundles not used for \<open>older_than_secs\<close>; with no knob set
  nothing. The ids returned are exactly those of the removed bundles, and the registry stays sound.\<close>

theorem bundle_gc_exact:
  assumes "bundle_inv c"
  shows "\<exists>victims c'. bundle_gc p c = (Inr victims, c') \<and> bundle_inv c' \<and>
    bundle_rows c' = filter (\<lambda>b. b \<notin> doomed p (now_of c) (bundle_rows c)) (bundle_rows c) \<and>
    set victims = (\<lambda>b. as_u64 (b_id b)) ` doomed p (now_of c) (bundle_rows c)"
  using bundle_gc_eval [OF assms] by blast

theorem bundle_gc_exact_witness:
  "\<exists>victims c'. bundle_gc \<lparr>keep_last = Some 1, older_than_secs = None\<rparr> dev_conn = (Inr victims, c') \<and> bundle_inv c'"
  using bundle_gc_exact [OF dev_registry] by blast

text \<open>Lookup by hash prefix is exact and safe from wildcards: a non-empty prefix of hex digits returns
  precisely the bundles whose set hash starts with it (ignoring the case of letters), most recently used
  first; an empty prefix and any other character are refused before a query runs.\<close>

theorem find_by_hash_prefix_spec:
  assumes "bundle_inv c"
  shows "bundle_find_by_hash_prefix p c =
    (if p = [] then Inl EmptyPrefix
     else case List.find (\<lambda>ch. \<not> is_ascii_hexdigit ch) p of
       Some bad \<Rightarrow> Inl (NonHexChar bad)
     | None \<Rightarrow> Inr (map (row_summary c) (sort_key lru_key (filter (\<lambda>b. \<exists>rest.
         to_ascii_lowercase (b_set_hash b) = to_ascii_lowercase p @ rest) (bundle_rows c)))), c)"
proof (cases "p = [] \<or> List.find (\<lambda>ch. \<not> is_ascii_hexdigit ch) p \<noteq> None")
  case True
  then show ?thesis by (auto simp: bundle_find_by_hash_prefix_def)
next
  case False
  let ?bs = "sort_key lru_key (filter (\<lambda>b. like_prefix (b_set_hash b) p) (bundle_rows c))"
  from assms obtain t where t: "bundle_t (db c) = Some t" by (rule bundle_invE)
  then have "find_by_hash_prefix_sel p (db c) = Inr ?bs" by (simp add: find_by_hash_prefix_sel_def bundles_def bundle_rows_def)
  moreover have "fill_all (map read_summary_row ?bs) c = (Inr (map (row_summary c) ?bs), c)"
    by (rule fill_all_eval [OF assms]) auto
  ultimately show ?thesis using False
    by (simp add: bundle_find_by_hash_prefix_def bnd_select_Inr like_prefix_def starts_with_iff)
qed

theorem find_by_hash_prefix_spec_witness:
  "bundle_find_by_hash_prefix ''ab%'' dev_conn = (Inl (NonHexChar (CHR ''%'')), dev_conn)"
proof -
  have "List.find (\<lambda>ch. \<not> is_ascii_hexdigit ch) ''ab%'' = Some (CHR ''%'')" by (simp add: is_ascii_hexdigit_def)
  with find_by_hash_prefix_spec [OF dev_registry, of "''ab%''"] show ?thesis by simp
qed

end
