(* ===== verification/Bundles_Exec.thy ===== *)
theory Bundles_Exec
  imports Bundles
begin

text \<open>
  The connection-driven bundle registry of \<^verbatim>\<open>sqlite-cas-cache/src/bundles_exec.rs\<close>: free
  functions that run the same SQL on a bare connection, used by the native host and mirrored by the
  browser. The functions are translated one by one; they agree with the methods of the store
  except for \<open>bundle_remove_alias\<close>, where this module compares \<open>total_changes()\<close> and the store compares
  \<open>changes()\<close>.
\<close>

section \<open>Operations\<close>

definition exec_fill_counts :: "bundle_summary \<Rightarrow> bundle_summary cas_op" where
  "exec_fill_counts s =
     (let i = as_i64 (s_id s) in
     bnd (select (count_members_sel i)) (\<lambda>m.
     bnd (select (count_binaries_sel i)) (\<lambda>n.
     ret (s\<lparr>s_member_count := as_u32 m, s_binary_count := as_u32 n\<rparr>))))"

fun exec_fill_each :: "bundle_summary list \<Rightarrow> bundle_summary list cas_op" where
  "exec_fill_each [] = ret []"
| "exec_fill_each (s # ss) = bnd (exec_fill_counts s) (\<lambda>s'. bnd (exec_fill_each ss) (\<lambda>ss'. ret (s' # ss')))"

definition exec_find_by_name :: "string \<Rightarrow> bundle_summary option cas_op" where
  "exec_find_by_name name =
     bnd (select (find_by_name_sel name)) (\<lambda>row.
     case row of
       Some b \<Rightarrow> bnd (exec_fill_counts (read_summary_row b)) (\<lambda>s. ret (Some s))
     | None \<Rightarrow> ret None)"

definition exec_find_first_by_hash :: "string \<Rightarrow> bundle_summary option cas_op" where
  "exec_find_first_by_hash set_hash =
     bnd (select (find_first_by_hash_sel set_hash)) (\<lambda>row.
     case row of
       Some b \<Rightarrow> bnd (exec_fill_counts (read_summary_row b)) (\<lambda>s. ret (Some s))
     | None \<Rightarrow> ret None)"

definition exec_find_by_hash_prefix :: "string \<Rightarrow> bundle_summary list cas_op" where
  "exec_find_by_hash_prefix prefix =
     (if prefix = [] then fail EmptyPrefix
      else case List.find (\<lambda>ch. \<not> is_ascii_hexdigit ch) prefix of
        Some bad \<Rightarrow> fail (NonHexChar bad)
      | None \<Rightarrow> bnd (select (find_by_hash_prefix_sel prefix)) (\<lambda>rows. exec_fill_each (map read_summary_row rows)))"

definition exec_list :: "bundle_summary list cas_op" where
  "exec_list = bnd (select list_bundles_sel) (\<lambda>rows. exec_fill_each (map read_summary_row rows))"

definition exec_members :: "nat \<Rightarrow> bundle_member list cas_op" where
  "exec_members bid = select (members_sel (as_i64 bid))"

definition exec_binaries :: "nat \<Rightarrow> bundle_binary list cas_op" where
  "exec_binaries bid = select (binaries_sel (as_i64 bid))"

definition exec_show :: "nat \<Rightarrow> bundle_detail option cas_op" where
  "exec_show bid =
     bnd (select (show_summary_sel (as_i64 bid))) (\<lambda>row.
     case row of
       None \<Rightarrow> ret None
     | Some b \<Rightarrow>
         bnd (exec_members bid) (\<lambda>ms.
         bnd (exec_binaries bid) (\<lambda>ns.
         ret (Some \<lparr>d_summary = (read_summary_row b)\<lparr>s_member_count := as_u32 (int (length ms)),
             s_binary_count := as_u32 (int (length ns))\<rparr>, d_members = ms, d_binaries = ns\<rparr>))))"

definition exec_touch :: "nat \<Rightarrow> unit cas_op" where
  "exec_touch bid = bnd unix_now (\<lambda>now. exec (touch_stmt (as_i64 bid) now))"

definition exec_add_alias :: "nat \<Rightarrow> string \<Rightarrow> unit cas_op" where
  "exec_add_alias bid a =
     bnd (bnd (select (alias_find_sel a)) (\<lambda>r. ret (map_option as_u64 r))) (\<lambda>existing_bundle.
     case existing_bundle of
       Some other \<Rightarrow>
         if other = bid then ret ()
         else bnd (exec_show bid) (\<lambda>new.
           bnd (exec_show other) (\<lambda>old.
           fail (AliasConflict a (set_hash_or_default old) (set_hash_or_default new))))
     | None \<Rightarrow> bnd unix_now (\<lambda>now. exec (alias_insert_stmt a (as_i64 bid) now)))"

definition exec_remove_alias :: "string \<Rightarrow> bool cas_op" where
  "exec_remove_alias a =
     bnd (query (\<lambda>c. Inr (n_total c))) (\<lambda>before.
     bnd (exec (alias_delete_stmt a)) (\<lambda>_.
     query (\<lambda>c. Inr (n_total c > before))))"

definition exec_aliases :: "nat \<Rightarrow> string list cas_op" where
  "exec_aliases bid = select (aliases_list_sel (as_i64 bid))"

definition exec_save :: "string option \<Rightarrow> string \<Rightarrow> bundle_member list \<Rightarrow> nat cas_op" where
  "exec_save name set_hash ms =
     bnd (case name of None \<Rightarrow> ret None | Some n \<Rightarrow> exec_find_by_name n) (\<lambda>by_name.
     case by_name of
       Some existing \<Rightarrow>
         if s_set_hash existing \<noteq> set_hash then fail (AliasConflict (the name) (s_set_hash existing) set_hash)
         else bnd (exec_touch (s_id existing)) (\<lambda>_. ret (s_id existing))
     | None \<Rightarrow>
         bnd (exec_find_first_by_hash set_hash) (\<lambda>by_hash.
         case by_hash of
           Some existing \<Rightarrow>
             bnd (case name of None \<Rightarrow> ret () | Some n \<Rightarrow> exec_add_alias (s_id existing) n) (\<lambda>_.
             bnd (exec_touch (s_id existing)) (\<lambda>_.
             ret (s_id existing)))
         | None \<Rightarrow>
             bnd unix_now (\<lambda>now.
             bnd (exec (bundle_insert_stmt name set_hash now)) (\<lambda>_.
             bnd (query (\<lambda>c. Inr (as_u64 (last_rowid c)))) (\<lambda>bid.
             bnd (case name of None \<Rightarrow> ret () | Some n \<Rightarrow> exec_add_alias bid n) (\<lambda>_.
             bnd (for_each (\<lambda>m. exec (member_insert_stmt (as_i64 bid) m)) ms) (\<lambda>_.
             ret bid)))))))"

definition exec_delete :: "nat \<Rightarrow> bool cas_op" where
  "exec_delete bid =
     bnd (exec (bundle_delete_stmt (as_i64 bid))) (\<lambda>_. query (\<lambda>c. Inr (n_changes c > 0)))"

definition exec_gc :: "gc_policy \<Rightarrow> nat list cas_op" where
  "exec_gc policy =
     bnd (bnd unix_now (\<lambda>now. ret (as_u64 now))) (\<lambda>now.
     bnd (case keep_last policy of
            None \<Rightarrow> ret []
          | Some k \<Rightarrow> bnd (select (gc_keep_sel (int k))) (\<lambda>is. ret (map as_u64 is))) (\<lambda>victims0.
     bnd (case older_than_secs policy of
            None \<Rightarrow> ret victims0
          | Some age \<Rightarrow> bnd (select (gc_age_sel (as_i64 (now - age)))) (\<lambda>is. ret (add_victims victims0 is))) (\<lambda>victims.
     bnd (for_each (\<lambda>bid. bnd (exec_delete bid) (\<lambda>_. ret ())) victims) (\<lambda>_.
     ret victims))))"

definition exec_record_binary :: "nat \<Rightarrow> string \<Rightarrow> string \<Rightarrow> unit cas_op" where
  "exec_record_binary bid triple path =
     bnd unix_now (\<lambda>now. exec (record_binary_stmt (as_i64 bid) triple path now))"

section \<open>Agreement with the store\<close>

text \<open>\<open>bnd\<close> is associative, so a block whose value is used afterwards can be read as straight-line code.\<close>

lemma bnd_assoc: "bnd (bnd m f) g = bnd m (\<lambda>x. bnd (f x) g)"
  by (rule ext) (auto simp: bnd_def split: prod.splits sum.splits)

lemma bnd_ret_fun: "bnd (\<lambda>s. (Inr x, s)) k = k x"
  by (simp add: bnd_def)

lemma exec_fill_counts_eq: "exec_fill_counts s = fill_counts s"
  by (simp add: exec_fill_counts_def fill_counts_def Let_def)

lemma exec_fill_each_eq: "exec_fill_each ss = fill_all ss"
  by (induction ss) (simp_all add: exec_fill_counts_eq)

lemma exec_find_by_name_eq: "exec_find_by_name n = bundle_find_by_name n"
  unfolding exec_find_by_name_def bundle_find_by_name_def exec_fill_counts_eq ..

lemma exec_find_first_by_hash_eq: "exec_find_first_by_hash h = bundle_find_first_by_hash h"
  unfolding exec_find_first_by_hash_def bundle_find_first_by_hash_def exec_fill_counts_eq ..

lemma exec_show_eq: "exec_show bid = bundle_show bid"
  unfolding exec_show_def bundle_show_def exec_members_def bundle_members_def exec_binaries_def bundle_binaries_def ..

lemma exec_touch_eq: "exec_touch bid = bundle_touch bid"
  by (simp add: exec_touch_def bundle_touch_def)

lemma exec_add_alias_eq: "exec_add_alias bid a = bundle_add_alias bid a"
proof
  fix c
  show "exec_add_alias bid a c = bundle_add_alias bid a c"
  proof (cases "alias_find_sel a (db c)")
    case (Inl e)
    then show ?thesis by (simp add: exec_add_alias_def bundle_add_alias_def bnd_assoc bnd_select_Inl)
  next
    case (Inr r)
    then show ?thesis
      by (cases r) (simp_all add: exec_add_alias_def bundle_add_alias_def bnd_assoc bnd_select_Inr exec_show_eq bnd_ret_fun)
  qed
qed

lemma exec_save_eq: "exec_save name h ms = bundle_save name h ms"
  unfolding exec_save_def bundle_save_def exec_find_by_name_eq exec_find_first_by_hash_eq exec_add_alias_eq exec_touch_eq alias_opt_def
  ..

lemma exec_delete_eq: "exec_delete bid = bundle_delete bid"
  by (simp add: exec_delete_def bundle_delete_def)

lemma exec_gc_eq: "exec_gc p = bundle_gc p"
  unfolding exec_gc_def bundle_gc_def bnd_assoc bnd_ret exec_delete_eq ..

interpretation exec: bundle_registry bundle_inv exec_save exec_find_by_name
proof -
  have "exec_save = bundle_save" "exec_find_by_name = bundle_find_by_name"
    by (intro ext, simp add: exec_save_eq) (intro ext, simp add: exec_find_by_name_eq)
  then show "bundle_registry bundle_inv exec_save exec_find_by_name"
    using store.bundle_registry_axioms by simp
qed

section \<open>Removing an alias\<close>

lemma remove_alias_eval:
  assumes "bundle_inv c" "alias_t (db c) = Some ls"
  shows "\<exists>c'. alias_delete_stmt a c = Inr c' \<and> bundle_inv c' \<and> alias_t (db c') = Some (filter (\<lambda>l. l_name l \<noteq> a) ls) \<and>
    bundle_rows c' = bundle_rows c \<and> member_t (db c') = member_t (db c) \<and> binary_t (db c') = binary_t (db c) \<and>
    n_changes c' = int (count_where (\<lambda>l. l_name l = a) ls) \<and> n_total c' = n_total c + n_changes c' \<and>
    count_where (\<lambda>l. l_name l = a) ls = (if a \<in> l_name ` set ls then 1 else 0)"
proof -
  obtain c' where c': "alias_delete_stmt a c = Inr c'" "alias_t (db c') = Some (filter (\<lambda>l. l_name l \<noteq> a) ls)"
    "bundle_t (db c') = bundle_t (db c)" "member_t (db c') = member_t (db c)" "binary_t (db c') = binary_t (db c)"
    "n_changes c' = int (count_where (\<lambda>l. l_name l = a) ls)" "n_total c' = n_total c + n_changes c'"
    using assms(2) by (simp add: alias_delete_stmt_def aliases_def delete_where_def)
  have "distinct (map l_name ls)" using assms by (elim bundle_invE) (auto simp: registry_ok_def)
  then have "count_where (\<lambda>l. l_name l = a) ls = (if a \<in> l_name ` set ls then 1 else 0)"
    by (induction ls) (auto simp: count_where_def filter_empty_conv)
  with c' alias_delete_stmt_inv [OF assms(1) c'(1)] show ?thesis by (auto simp: bundle_rows_def)
qed

section \<open>Properties\<close>

text \<open>The free functions are composed like the methods of the store, for every operation but the removal of
  an alias. The two source files hold their own copies of the SQL texts; a statement with the same text is one
  definition of \<open>Bundle_Sql\<close> here, so this compares how the statements are composed, not the texts, and
  the wording of error messages is not part of the model. What is proved of the store's registry then
  holds of the free functions.\<close>

lemma exec_registry_equiv:
  "exec_save name h ms = bundle_save name h ms \<and> exec_add_alias bid a = bundle_add_alias bid a \<and>
   exec_aliases bid = bundle_aliases bid \<and> exec_find_by_name n = bundle_find_by_name n \<and>
   exec_find_first_by_hash h = bundle_find_first_by_hash h \<and> exec_find_by_hash_prefix p = bundle_find_by_hash_prefix p \<and>
   exec_list = bundle_list \<and> exec_show bid = bundle_show bid \<and> exec_members bid = bundle_members bid \<and>
   exec_binaries bid = bundle_binaries bid \<and> exec_delete bid = bundle_delete bid \<and> exec_gc policy = bundle_gc policy \<and>
   exec_record_binary bid triple path = bundle_record_binary bid triple path \<and> exec_touch bid = bundle_touch bid"
proof -
  have "exec_find_by_hash_prefix p = bundle_find_by_hash_prefix p" "exec_list = bundle_list"
    unfolding exec_find_by_hash_prefix_def bundle_find_by_hash_prefix_def exec_list_def bundle_list_def exec_fill_each_eq by simp_all
  moreover have "exec_aliases bid = bundle_aliases bid" "exec_members bid = bundle_members bid"
    "exec_binaries bid = bundle_binaries bid" "exec_record_binary bid triple path = bundle_record_binary bid triple path"
    by (simp_all add: exec_aliases_def bundle_aliases_def exec_members_def bundle_members_def exec_binaries_def
        bundle_binaries_def exec_record_binary_def bundle_record_binary_def)
  ultimately show ?thesis
    using exec_save_eq exec_add_alias_eq exec_find_by_name_eq exec_find_first_by_hash_eq exec_show_eq exec_delete_eq
      exec_gc_eq exec_touch_eq by simp
qed

text \<open>Removing an alias through the free functions answers whether the alias existed, whatever the
  connection did before; exactly that alias is gone afterwards, and bundles, members and binaries are
  untouched.\<close>

theorem exec_remove_alias_spec:
  assumes "bundle_inv c" "alias_t (db c) = Some ls"
  shows "\<exists>c'. exec_remove_alias a c = (Inr (a \<in> l_name ` set ls), c') \<and> bundle_inv c' \<and>
    alias_t (db c') = Some (filter (\<lambda>l. l_name l \<noteq> a) ls) \<and> bundle_rows c' = bundle_rows c \<and>
    member_t (db c') = member_t (db c) \<and> binary_t (db c') = binary_t (db c)"
  using remove_alias_eval [OF assms, of a] by (auto simp: exec_remove_alias_def bnd_exec_Inr)

theorem exec_remove_alias_spec_witness:
  "\<exists>r c' ls. exec_remove_alias ''dev'' dev_conn = (Inr r, c') \<and> bundle_inv c' \<and> alias_t (db c') = Some ls \<and>
     ''dev'' \<notin> l_name ` set ls"
proof -
  from dev_registry obtain ls where ls: "alias_t (db dev_conn) = Some ls" by (rule bundle_invE)
  from exec_remove_alias_spec [OF dev_registry ls, of "''dev''"] show ?thesis by force
qed

text \<open>C29. A saved name is final. Once a save under a name has succeeded, any sequence of further saves, under
  any names and set hashes and whether they succeed or fail, leaves the name bound to the same bundle
  and set hash, and a save of another set hash under it is refused with the connection unchanged.\<close>

theorem saved_name_is_final:
  assumes "bundle_inv c" "bundle_save (Some n) h ms c = (Inr i, c')"
  shows "bound_to bundle_find_by_name (run_saves bundle_save rs c') n i h \<and>
    (h' \<noteq> h \<longrightarrow> bundle_save (Some n) h' ms' (run_saves bundle_save rs c') =
      (Inl (AliasConflict n h h'), run_saves bundle_save rs c'))"
  using assms by (rule store.bound_name_is_final)

theorem saved_name_is_final_witness:
  "\<exists>i. bound_to bundle_find_by_name (run_saves bundle_save [(Some ''prod'', ''beef'', []), (Some ''dev'', ''beef'', [])] dev_conn)
     ''dev'' i ''c0ffee''"
proof -
  obtain i where i: "bundle_save (Some ''dev'') ''c0ffee'' two_members toy_conn = (Inr i, dev_conn)" using dev_save by blast
  from saved_name_is_final [OF toy_registry i, of "[(Some ''prod'', ''beef'', []), (Some ''dev'', ''beef'', [])]"]
  show ?thesis by blast
qed

section \<open>Where the code departs from its documentation\<close>

text \<open>The store's \<open>bundle_remove_alias\<close> compares \<open>changes()\<close> before and after, that is the row count of the
  previous statement with that of its own: after any statement that changed a row it answers \<open>false\<close>
  although the alias was removed.\<close>

theorem store_remove_alias_denies:
  assumes "bundle_inv c" "alias_t (db c) = Some ls" "a \<in> l_name ` set ls" "1 \<le> n_changes c"
  shows "\<exists>c'. bundle_remove_alias a c = (Inr False, c') \<and> alias_t (db c') = Some (filter (\<lambda>l. l_name l \<noteq> a) ls)"
  using remove_alias_eval [OF assms(1,2), of a] assms(3,4) by (auto simp: bundle_remove_alias_def bnd_exec_Inr)

text \<open>A bundle saved under a name keeps that name in its own row: after the alias is removed the name still
  finds the bundle.\<close>

theorem removed_name_still_found:
  assumes "bundle_inv c" "alias_t (db c) = Some ls" "b \<in> set (bundle_rows c)" "b_name b = Some n"
  shows "\<exists>r c' s. exec_remove_alias n c = (Inr r, c') \<and> exec_find_by_name n c' = (Inr (Some s), c')"
proof -
  obtain c' where c': "alias_delete_stmt n c = Inr c'" "bundle_inv c'" "alias_t (db c') = Some (filter (\<lambda>l. l_name l \<noteq> n) ls)"
    "bundle_rows c' = bundle_rows c"
    using remove_alias_eval [OF assms(1,2), of n] by blast
  from c'(2) obtain t where t: "bundle_t (db c') = Some t" by (rule bundle_invE)
  have "lookup_by l_name n (filter (\<lambda>l. l_name l \<noteq> n) ls) = None" by (auto simp: lookup_by_None_iff)
  moreover have "filter (\<lambda>r. b_name r = Some n) (bt_rows t) \<noteq> []"
    using assms(3,4) c'(4) t by (auto simp: bundle_rows_def filter_empty_conv)
  then obtain x where "first_by b_id (filter (\<lambda>r. b_name r = Some n) (bt_rows t)) = Some x"
    by (cases "first_by b_id (filter (\<lambda>r. b_name r = Some n) (bt_rows t))") auto
  ultimately have "named c' n = Some x"
    using t c'(3) by (simp add: named_def find_by_name_sel_def aliases_def bundles_def)
  then have "exec_find_by_name n c' = (Inr (Some (row_summary c' x)), c')"
    by (simp add: exec_find_by_name_eq find_by_name_eval [OF c'(2)])
  moreover have "exec_remove_alias n c = (Inr (n_total c' > n_total c), c')"
    by (simp add: exec_remove_alias_def bnd_exec_Inr c'(1))
  ultimately show ?thesis by blast
qed

text \<open>\<open>bundle_save\<close> is not atomic: with a repeated extension name it fails after the bundle, its alias and the
  first member are stored, and saving again under the same name then succeeds on the incomplete bundle.\<close>

definition twice :: "bundle_member list" where
  "twice = [\<lparr>extension_name = ''uuid'', content_hash = ''aa''\<rparr>, \<lparr>extension_name = ''uuid'', content_hash = ''bb''\<rparr>]"

lemmas evaluate_save = bundle_save_def bundle_find_by_name_def bundle_find_first_by_hash_def find_by_name_sel_def
  find_first_by_hash_sel_def aliases_def bundles_def members_def binaries_def toy_conn_def open_conn_def fresh_tables_def
  bundle_insert_stmt_def next_rowid_def i64_range_def alias_opt_def bundle_add_alias_def alias_find_sel_def alias_insert_stmt_def
  no_parent_def member_insert_stmt_def set_bundles_def dml_def tick_def bundle_touch_def touch_stmt_def fill_counts_def
  read_summary_row_def count_members_sel_def count_binaries_sel_def bnd_def select_def exec_def query_def

theorem failed_save_leaves_partial_bundle:
  "\<exists>c1 c2. bundle_save (Some ''dev'') ''c0ffee'' twice toy_conn = (Inl (Db (PrimaryKey ''__cas_bundle_member'')), c1) \<and>
     bundle_save (Some ''dev'') ''c0ffee'' twice c1 = (Inr 1, c2) \<and>
     bundle_members 1 c2 = (Inr [\<lparr>extension_name = ''uuid'', content_hash = ''aa''\<rparr>], c2)"
  by (simp add: evaluate_save twice_def bundle_members_def members_sel_def)

end
