(* ===== verification/Cas_System.thy ===== *)
theory Cas_System
  imports Cas_Evict Cas_Resolver Cas_Blob Cas_Transfer Bundles_Exec
begin

text \<open>
  The cache as one system. Store, blob backend and bundle registry share a connection; a client may
  run their operations in any order, and an operation that fails leaves behind what it had written.
  \<open>cas_step\<close> is the step relation of such a client, \<open>cas_reachable\<close> the states it can reach from a freshly
  created database file. The two halves do not interfere: operations of the store leave the bundle
  tables alone and the registry leaves the artifact tables alone, so each keeps the invariant of the
  other.
\<close>

section \<open>Calls\<close>

datatype cas_call =
    Put bytes
  | Get bytes
  | GetBySha256 bytes
  | SetUri string bytes
  | ResolveUri string
  | DeleteUri string
  | Gc
  | EvictLru nat
  | Purge
  | FetchArtifact artifact_ref registry
  | BlobPut bytes
  | BlobGet bytes
  | BlobDelete bytes
  | BundleSave "string option" string "bundle_member list"
  | BundleAddAlias nat string
  | BundleRemoveAlias string
  | ExecRemoveAlias string
  | BundleDelete nat
  | BundleGc gc_policy
  | BundleRecordBinary nat string string
  | BundleTouch nat

text \<open>The connection a call leaves behind, whatever it returns.\<close>

fun run_call :: "hashers \<Rightarrow> cas_call \<Rightarrow> conn \<Rightarrow> conn" where
  "run_call H (Put b) c = snd (put H b c)"
| "run_call H (Get h) c = snd (get h c)"
| "run_call H (GetBySha256 s) c = snd (get_by_sha256_ref s c)"
| "run_call H (SetUri u h) c = snd (set_uri u h c)"
| "run_call H (ResolveUri u) c = snd (resolve_uri u c)"
| "run_call H (DeleteUri u) c = snd (delete_uri u c)"
| "run_call H Gc c = snd (gc c)"
| "run_call H (EvictLru n) c = snd (evict_lru n c)"
| "run_call H Purge c = snd (purge c)"
| "run_call H (FetchArtifact a reg) c = snd (fetch_artifact H a reg c)"
| "run_call H (BlobPut b) c = snd (blob_put H b c)"
| "run_call H (BlobGet d) c = snd (blob_get H d c)"
| "run_call H (BlobDelete d) c = snd (blob_delete d c)"
| "run_call H (BundleSave n h ms) c = snd (bundle_save n h ms c)"
| "run_call H (BundleAddAlias i a) c = snd (bundle_add_alias i a c)"
| "run_call H (BundleRemoveAlias a) c = snd (bundle_remove_alias a c)"
| "run_call H (ExecRemoveAlias a) c = snd (exec_remove_alias a c)"
| "run_call H (BundleDelete i) c = snd (bundle_delete i c)"
| "run_call H (BundleGc p) c = snd (bundle_gc p c)"
| "run_call H (BundleRecordBinary i t p) c = snd (bundle_record_binary i t p c)"
| "run_call H (BundleTouch i) c = snd (bundle_touch i c)"

inductive cas_step :: "hashers \<Rightarrow> conn \<Rightarrow> conn \<Rightarrow> bool" for H where
  call: "cas_step H c (run_call H k c)"
| merge: "merge_from src c = (r, c') \<Longrightarrow> mergeable H src (db c) \<Longrightarrow> attached c = [] \<Longrightarrow> cas_step H c c'"

inductive_cases cas_stepE: "cas_step H c c'"

inductive cas_reachable :: "hashers \<Rightarrow> conn \<Rightarrow> bool" for H where
  fresh: "install_schema (open_conn empty_db clk) = (Inr (), c) \<Longrightarrow> cas_reachable H c"
| step: "cas_reachable H c \<Longrightarrow> cas_step H c c' \<Longrightarrow> cas_reachable H c'"

section \<open>Non-interference\<close>

text \<open>What the registry sees of a connection, and what the store sees.\<close>

definition bundle_view :: "conn \<Rightarrow> bundle_table option \<times> member_row list option \<times> binary_row list option \<times> alias_row list option" where
  "bundle_view c = (bundle_t (db c), member_t (db c), binary_t (db c), alias_t (db c))"

definition store_view :: "conn \<Rightarrow> artifact_table option \<times> uri_row list option" where
  "store_view c = (artifact_t (db c), uri_t (db c))"

lemma frame_views [simp]: "frame (\<lambda>c. bundle_view c = v)" "frame (\<lambda>c. store_view c = w)"
  by (simp_all add: frame_def bundle_view_def store_view_def)

lemma store_stmts_bundle_view:
  "put_stmt h s b len now c = Inr c' \<Longrightarrow> bundle_view c' = bundle_view c"
  "get_upd_stmt h now c = Inr c' \<Longrightarrow> bundle_view c' = bundle_view c"
  "set_uri_stmt u h now c = Inr c' \<Longrightarrow> bundle_view c' = bundle_view c"
  "uri_touch_stmt u now c = Inr c' \<Longrightarrow> bundle_view c' = bundle_view c"
  "uri_delete_stmt u c = Inr c' \<Longrightarrow> bundle_view c' = bundle_view c"
  "art_delete_stmt p c = Inr c' \<Longrightarrow> bundle_view c' = bundle_view c"
  "uri_clear_stmt c = Inr c' \<Longrightarrow> bundle_view c' = bundle_view c"
  "begin_tx c = Inr c' \<Longrightarrow> bundle_view c' = bundle_view c"
  "commit_tx c = Inr c' \<Longrightarrow> bundle_view c' = bundle_view c"
  by (auto simp: put_stmt_def get_upd_stmt_def set_uri_stmt_def uri_touch_stmt_def uri_delete_stmt_def art_delete_stmt_def
      uri_clear_stmt_def begin_tx_def commit_tx_def bundle_view_def set_arts_def set_uris_def sbind_eq_Inr_iff Let_def
      split: if_splits option.splits)

lemma bundle_stmts_store_view:
  "bundle_insert_stmt n h now c = Inr c' \<Longrightarrow> store_view c' = store_view c"
  "member_insert_stmt i m c = Inr c' \<Longrightarrow> store_view c' = store_view c"
  "alias_insert_stmt a i now c = Inr c' \<Longrightarrow> store_view c' = store_view c"
  "alias_delete_stmt a c = Inr c' \<Longrightarrow> store_view c' = store_view c"
  "record_binary_stmt i t p now c = Inr c' \<Longrightarrow> store_view c' = store_view c"
  "touch_stmt i now c = Inr c' \<Longrightarrow> store_view c' = store_view c"
  "bundle_delete_stmt i c = Inr c' \<Longrightarrow> store_view c' = store_view c"
  by (auto simp: bundle_insert_stmt_def member_insert_stmt_def alias_insert_stmt_def alias_delete_stmt_def record_binary_stmt_def
      touch_stmt_def bundle_delete_stmt_def store_view_def sbind_eq_Inr_iff Let_def cascade_def split: if_splits)

lemma exec_keeps_bundle_view:
  assumes "\<And>c c'. st c = Inr c' \<Longrightarrow> bundle_view c' = bundle_view c"
  shows "keeps (\<lambda>c. bundle_view c = v) (exec st)"
  by (rule keeps_exec) (auto dest: assms)

lemma exec_keeps_store_view:
  assumes "\<And>c c'. st c = Inr c' \<Longrightarrow> store_view c' = store_view c"
  shows "keeps (\<lambda>c. store_view c = v) (exec st)"
  by (rule keeps_exec) (auto dest: assms)

lemma store_execs_bundle_view:
  "keeps (\<lambda>c. bundle_view c = v) (exec (put_stmt h s b len now))"
  "keeps (\<lambda>c. bundle_view c = v) (exec (get_upd_stmt h now))"
  "keeps (\<lambda>c. bundle_view c = v) (exec (set_uri_stmt u h now))"
  "keeps (\<lambda>c. bundle_view c = v) (exec (uri_touch_stmt u now))"
  "keeps (\<lambda>c. bundle_view c = v) (exec (uri_delete_stmt u))"
  "keeps (\<lambda>c. bundle_view c = v) (exec (art_delete_stmt p))"
  "keeps (\<lambda>c. bundle_view c = v) (exec (uri_clear_stmt))"
  "keeps (\<lambda>c. bundle_view c = v) (exec (begin_tx))"
  "keeps (\<lambda>c. bundle_view c = v) (exec (commit_tx))"
  by (rule exec_keeps_bundle_view, erule store_stmts_bundle_view)+

lemma bundle_execs_store_view:
  "keeps (\<lambda>c. store_view c = w) (exec (bundle_insert_stmt n h now))"
  "keeps (\<lambda>c. store_view c = w) (exec (member_insert_stmt i m))"
  "keeps (\<lambda>c. store_view c = w) (exec (alias_insert_stmt a i now))"
  "keeps (\<lambda>c. store_view c = w) (exec (alias_delete_stmt a))"
  "keeps (\<lambda>c. store_view c = w) (exec (record_binary_stmt i t q now))"
  "keeps (\<lambda>c. store_view c = w) (exec (touch_stmt i now))"
  "keeps (\<lambda>c. store_view c = w) (exec (bundle_delete_stmt i))"
  by (rule exec_keeps_store_view, erule bundle_stmts_store_view)+

lemmas view_execs = store_execs_bundle_view bundle_execs_store_view
lemmas view_reads = keeps_unix_now [OF frame_views(1)] keeps_unix_now [OF frame_views(2)] keeps_select

lemma store_ops_bundle_view [keeps_rules]:
  "keeps (\<lambda>c. bundle_view c = v) (put H b)" "keeps (\<lambda>c. bundle_view c = v) (get h)"
  "keeps (\<lambda>c. bundle_view c = v) (get_by_sha256_ref s)" "keeps (\<lambda>c. bundle_view c = v) (set_uri u h)"
  "keeps (\<lambda>c. bundle_view c = v) (delete_uri u)" "keeps (\<lambda>c. bundle_view c = v) gc"
  "keeps (\<lambda>c. bundle_view c = v) purge" "keeps (\<lambda>c. bundle_view c = v) (evict_lru n)"
  unfolding put_def put_ref_def get_def get_by_sha256_ref_def set_uri_def delete_uri_def gc_def purge_def Let_def
    execute_batch.simps case_prod_beta
  by (intro keeps_rules view_reads view_execs evict_lru_keeps)+

lemma resolve_uri_bundle_view [keeps_rules]: "keeps (\<lambda>c. bundle_view c = v) (resolve_uri u)"
  unfolding resolve_uri_def by (intro keeps_rules view_reads view_execs)

lemma fetch_bundle_view [keeps_rules]:
  "keeps (\<lambda>c. bundle_view c = v) (bind_opt u h)" "keeps (\<lambda>c. bundle_view c = v) (fetch_source H reg e s)"
  unfolding bind_opt_def fetch_source_def by (intro keeps_rules) (cases s; auto intro!: keeps_rules)

lemma fetch_sources_bundle_view [keeps_rules]: "keeps (\<lambda>c. bundle_view c = v) (fetch_sources H reg uri e le ss)"
  by (induction ss arbitrary: le) (auto intro!: keeps_rules)

lemma fetch_artifact_bundle_view: "keeps (\<lambda>c. bundle_view c = v) (fetch_artifact H a reg)"
  unfolding fetch_artifact_def uri_hit_def hash_hit_def by (intro keeps_rules)

lemma blob_bundle_view:
  "keeps (\<lambda>c. bundle_view c = v) (blob_put H b)" "keeps (\<lambda>c. bundle_view c = v) (blob_get H d)"
  "keeps (\<lambda>c. bundle_view c = v) (blob_delete d)"
  unfolding blob_put_def blob_get_def blob_delete_def put_def [symmetric] by (intro keeps_rules view_execs)+

lemma blob_store_inv:
  "keeps (store_inv H) (blob_put H b)" "keeps (store_inv H) (blob_get H d)" "keeps (store_inv H) (blob_delete d)"
  unfolding blob_put_def blob_get_def blob_delete_def put_def [symmetric] by (intro keeps_rules)+

lemma bundle_ops_store_view [keeps_rules]:
  "keeps (\<lambda>c. store_view c = w) (bundle_touch i)" "keeps (\<lambda>c. store_view c = w) (bundle_add_alias i a)"
  "keeps (\<lambda>c. store_view c = w) (bundle_remove_alias a)" "keeps (\<lambda>c. store_view c = w) (exec_remove_alias a)"
  "keeps (\<lambda>c. store_view c = w) (bundle_delete i)" "keeps (\<lambda>c. store_view c = w) (bundle_record_binary i t p)"
  unfolding bundle_touch_def bundle_add_alias_def bundle_remove_alias_def exec_remove_alias_def bundle_delete_def
    bundle_record_binary_def
  by (intro keeps_rules view_reads view_execs)+

lemma bundle_save_store_view:
  "keeps (\<lambda>c. store_view c = w) (bundle_save n h ms)" "keeps (\<lambda>c. store_view c = w) (bundle_gc p)"
  unfolding bundle_save_def alias_opt_def bundle_gc_def by (intro keeps_rules view_reads view_execs)+

lemma keeps_exec_remove_alias: "keeps bundle_inv (exec_remove_alias a)"
  unfolding exec_remove_alias_def by (intro keeps_rules keeps_registry) (rule registry_stmt_inv)

section \<open>The invariant of the whole cache\<close>

definition cache_inv :: "hashers \<Rightarrow> conn \<Rightarrow> bool" where
  "cache_inv H c \<longleftrightarrow> store_inv H c \<and> bundle_inv c"

lemma bundle_inv_view: "bundle_view c' = bundle_view c \<Longrightarrow> store_inv H c' \<Longrightarrow> bundle_inv c \<Longrightarrow> bundle_inv c'"
  by (auto simp: bundle_view_def store_inv_def bundle_inv_def)

lemma store_inv_view: "store_view c' = store_view c \<Longrightarrow> bundle_inv c' \<Longrightarrow> store_inv H c \<Longrightarrow> store_inv H c'"
  by (auto simp: store_view_def store_inv_def bundle_inv_def store_ok_def)

text \<open>An operation of one half that keeps its own invariant and the view of the other keeps both.\<close>

lemma store_op_cache_inv:
  assumes "keeps (store_inv H) m" "\<And>v. keeps (\<lambda>c. bundle_view c = v) m" "cache_inv H c"
  shows "cache_inv H (snd (m c))"
proof -
  have "store_inv H (snd (m c))" "bundle_view (snd (m c)) = bundle_view c"
    using assms by (auto simp: keeps_def cache_inv_def)
  with bundle_inv_view assms(3) show ?thesis unfolding cache_inv_def by blast
qed

lemma bundle_op_cache_inv:
  assumes "keeps bundle_inv m" "\<And>w. keeps (\<lambda>c. store_view c = w) m" "cache_inv H c"
  shows "cache_inv H (snd (m c))"
proof -
  have "bundle_inv (snd (m c))" "store_view (snd (m c)) = store_view c"
    using assms by (auto simp: keeps_def cache_inv_def)
  with store_inv_view assms(3) show ?thesis unfolding cache_inv_def by blast
qed

lemmas store_sides = store_op_cache_inv [OF keeps_put] store_op_cache_inv [OF keeps_get]
  store_op_cache_inv [OF keeps_get_by_sha256_ref] store_op_cache_inv [OF keeps_set_uri] store_op_cache_inv [OF keeps_resolve_uri]
  store_op_cache_inv [OF keeps_delete_uri] store_op_cache_inv [OF keeps_gc] store_op_cache_inv [OF keeps_evict_lru]
  store_op_cache_inv [OF keeps_purge] store_op_cache_inv [OF keeps_fetch_artifact] blob_store_inv [THEN store_op_cache_inv]

lemmas bundle_sides = bundle_op_cache_inv [OF keeps_bundle_save] bundle_op_cache_inv [OF keeps_bundle_add_alias]
  bundle_op_cache_inv [OF keeps_bundle_remove_alias] bundle_op_cache_inv [OF keeps_exec_remove_alias]
  bundle_op_cache_inv [OF keeps_bundle_delete] bundle_op_cache_inv [OF keeps_bundle_gc]
  bundle_op_cache_inv [OF keeps_bundle_record_binary] bundle_op_cache_inv [OF keeps_bundle_touch]

lemma run_call_cache_inv: "cache_inv H c \<Longrightarrow> cache_inv H (run_call H k c)"
  by (cases k) (simp_all add: store_sides bundle_sides store_ops_bundle_view resolve_uri_bundle_view fetch_artifact_bundle_view
      blob_bundle_view bundle_ops_store_view bundle_save_store_view)

lemma merge_cache_inv:
  assumes "cache_inv H c" "merge_from src c = (r, c')" "mergeable H src (db c)" "attached c = []"
  shows "cache_inv H c'"
proof -
  have inv: "store_inv H c" using assms(1) by (simp add: cache_inv_def)
  then obtain t us where t: "artifact_t (db c) = Some t" "uri_t (db c) = Some us" by (rule store_invE)
  have c': "db c' = with_tables (merged src (db c)) (db c)" "tx c' = None" "fk_on c'"
    using merge_from_eval [OF inv assms(3,4) t] assms(2) by auto
  then have "store_inv H c'" using merged_store_ok [OF inv assms(3)] by (simp add: store_inv_def)
  moreover have "bundle_view c' = bundle_view c" using c'(1) by (simp add: bundle_view_def with_tables_def)
  ultimately show ?thesis using bundle_inv_view assms(1) unfolding cache_inv_def by blast
qed

lemma cas_step_cache_inv:
  assumes "cas_step H c c'" "cache_inv H c"
  shows "cache_inv H c'"
  using assms by (elim cas_stepE) (auto intro: run_call_cache_inv merge_cache_inv)

lemma fresh_cache_inv:
  assumes "install_schema (open_conn empty_db clk) = (Inr (), c)"
  shows "cache_inv H c"
proof -
  let ?c = "open_conn empty_db clk"
  obtain m where d: "db c = fresh_tables\<lparr>meta_t := Some m\<rparr>" using seed_eval [of clk] assms by auto
  have "supported (db ?c)" "tx ?c = None" by (auto simp: supported_def fresh_db_def no_bundle_tables_def open_conn_def empty_db_def
      meta_version_def)
  from install_schema_eval [OF this] assms have "tx c = None" "fk_on c" by auto
  with d show ?thesis
    by (simp add: cache_inv_def store_inv_def store_ok_def tables_ok_def rows_ok_def sha_unique_def bundle_inv_def
        registry_ok_def fresh_tables_def)
qed

lemma reachable_cache_inv: "cas_reachable H c \<Longrightarrow> cache_inv H c"
  by (induction rule: cas_reachable.induct) (auto intro: fresh_cache_inv cas_step_cache_inv)

lemma bound_resolves:
  assumes "store_inv H c" "digests_32 H" "bindings c u = Some h"
  shows "\<exists>b c'. resolve_uri u c = (Inr (Some (h, b)), c') \<and> blake3 H b = h"
proof -
  have inv: "store_inv H c \<and> digests_32 H" using assms by simp
  from cas.resolve_law [of H c u, OF inv] obtain c' where c': "resolve_uri u c = (Inr (Some (h, the (contents c h))), c')"
    using assms(3) by auto
  with cas.resolve_authentic [of H c u h "the (contents c h)" c', OF inv] show ?thesis by blast
qed

end
