(* ===== verification/Handler_Json.thy ===== *)
theory Handler_Json
  imports Rust_Text
begin

text \<open>
  The JSON the HTTP handlers of \<^verbatim>\<open>sqlink-httpd/handlers\<close> read and write by hand. A handler component receives
  a request as JSON text and answers with JSON text; to stay small it does not parse, it looks for a quoted
  field name and reads what follows (\<open>pick_string\<close>, \<open>pick_number\<close>), and it prints its answer with its own
  escaping (\<open>push_json_escaped\<close>, \<open>structured_response\<close>). The definitions follow
  \<^verbatim>\<open>handlers/auth/src/lib.rs\<close>; the other handlers hold copies of them.

  Shown: reading undoes escaping for every text, an answer can be read back field by field, and
  \<open>url_decode\<close> inverts percent encoding on ASCII.
\<close>

section \<open>Reading\<close>

text \<open>The character after a backslash other than \<open>u\<close>.\<close>

definition unescape_char :: "char \<Rightarrow> char" where
  "unescape_char e =
     (if e = CHR ''n'' then CHR 0x0A
      else if e = CHR ''r'' then CHR 0x0D
      else if e = CHR ''t'' then CHR 0x09
      else if e = CHR ''b'' then CHR 0x08
      else if e = CHR ''f'' then CHR 0x0C
      else e)"

text \<open>What four characters after a \<open>u\<close> stand for; a lone surrogate or a bad digit stands for nothing.\<close>

definition unicode_escape :: "string \<Rightarrow> string" where
  "unicode_escape hex =
     (case parse_hex hex of
        Some n \<Rightarrow> (case char_from_u32 n of Some v \<Rightarrow> utf8_encode v | None \<Rightarrow> [])
      | None \<Rightarrow> [])"

function pick_chars :: "string \<Rightarrow> string option" where
  "pick_chars [] = None"
| "pick_chars (c # cs) =
     (if c = CHR 0x22 then Some []
      else if c = CHR 0x5C then
        (case cs of
           [] \<Rightarrow> None
         | e # es \<Rightarrow>
             if e = CHR ''u'' then map_option (\<lambda>t. unicode_escape (fst (take_chars 4 es)) @ t) (pick_chars (snd (take_chars 4 es)))
             else map_option (\<lambda>t. unescape_char e # t) (pick_chars es))
      else map_option (\<lambda>t. c # t) (pick_chars cs))"
  by pat_completeness auto
termination
  by (relation "measure length") (auto simp: le_imp_less_Suc less_Suc_eq_le intro: le_trans [OF take_chars_length])

declare pick_chars.simps(2) [simp del]

definition quoted :: "string \<Rightarrow> string" where
  "quoted field = CHR 0x22 # field @ [CHR 0x22]"

text \<open>What follows the colon after a field name.\<close>

definition field_value :: "string \<Rightarrow> string \<Rightarrow> string option" where
  "field_value s field =
     (case find_after (quoted field) s of
        None \<Rightarrow> None
      | Some rest \<Rightarrow> map_option trim_start (strip_prefix '':'' (trim_start rest)))"

definition pick_string :: "string \<Rightarrow> string \<Rightarrow> string option" where
  "pick_string s field =
     (case field_value s field of
        None \<Rightarrow> None
      | Some rest \<Rightarrow>
          if starts_with rest ''null'' then None
          else (case strip_prefix [CHR 0x22] rest of None \<Rightarrow> None | Some text \<Rightarrow> pick_chars text))"

definition number_char :: "char \<Rightarrow> bool" where
  "number_char c \<longleftrightarrow> digit_val c \<noteq> None \<or> c \<in> set ''.eE-+''"

definition pick_number :: "string \<Rightarrow> string \<Rightarrow> string option" where
  "pick_number s field =
     (case field_value s field of
        None \<Rightarrow> None
      | Some rest \<Rightarrow>
          (let out = (case rest of
                        [] \<Rightarrow> []
                      | c # cs \<Rightarrow> if c = CHR ''-'' \<or> c = CHR ''+'' then c # takeWhile number_char cs
                                 else takeWhile number_char rest)
           in if out = [] then None else Some out))"

text \<open>The object under \<open>headers\<close> and \<open>body\<close>: the reader does not look for its end.\<close>

definition pick_in_object :: "string \<Rightarrow> string \<Rightarrow> string \<Rightarrow> string option" where
  "pick_in_object s obj field =
     (case field_value s obj of
        None \<Rightarrow> None
      | Some rest \<Rightarrow> if starts_with rest ''{'' then pick_string rest field else None)"

definition pick_header :: "string \<Rightarrow> string \<Rightarrow> string option" where
  "pick_header s name = pick_in_object s ''headers'' name"

definition pick_body_text :: "string \<Rightarrow> string option" where
  "pick_body_text s = pick_in_object s ''body'' ''text''"

section \<open>Percent encoding\<close>

definition hex_nibble :: "char \<Rightarrow> nat" where
  "hex_nibble c = (case hex_val c of Some n \<Rightarrow> n | None \<Rightarrow> 0)"

text \<open>\<open>byte as char\<close> pushed to a string: the scalar value with that number, one or two bytes.\<close>

definition push_byte :: "nat \<Rightarrow> string" where
  "push_byte n = utf8_encode n"

fun url_decode :: "string \<Rightarrow> string" where
  "url_decode [] = []"
| "url_decode (c # cs) =
     (if c = CHR ''+'' then CHR '' '' # url_decode cs
      else if c = CHR ''%'' then
        (case cs of
           [] \<Rightarrow> push_byte 0
         | [hi] \<Rightarrow> push_byte (16 * hex_nibble hi)
         | hi # lo # rest \<Rightarrow> push_byte (16 * hex_nibble hi + hex_nibble lo) @ url_decode rest)
      else push_byte (of_char c) @ url_decode cs)"

section \<open>Writing\<close>

definition json_escape_char :: "char \<Rightarrow> string" where
  "json_escape_char c =
     (if c = CHR 0x22 then [CHR 0x5C, CHR 0x22]
      else if c = CHR 0x5C then [CHR 0x5C, CHR 0x5C]
      else if c = CHR 0x0A then [CHR 0x5C, CHR ''n'']
      else if c = CHR 0x0D then [CHR 0x5C, CHR ''r'']
      else if c = CHR 0x09 then [CHR 0x5C, CHR ''t'']
      else if of_char c < (32 :: nat) then
        [CHR 0x5C, CHR ''u'', CHR ''0'', CHR ''0'', hex_digit (of_char c div 16), hex_digit (of_char c mod 16)]
      else [c])"

definition push_json_escaped :: "string \<Rightarrow> string" where
  "push_json_escaped s = concat (map json_escape_char s)"

definition structured_response :: "nat \<Rightarrow> string \<Rightarrow> string \<Rightarrow> string" where
  "structured_response status ctype body =
     ''{'' @ quoted ''status'' @ '':'' @ show_nat status @ '','' @ quoted ''ctype'' @ '':'' @ quoted (push_json_escaped ctype) @
     '','' @ quoted ''body'' @ '':'' @ quoted (push_json_escaped body) @ ''}''"

definition error_response :: "nat \<Rightarrow> string \<Rightarrow> string" where
  "error_response status msg =
     structured_response status ''application/json'' (''{'' @ quoted ''error'' @ '':'' @ quoted (push_json_escaped msg) @ ''}'')"

section \<open>Reading undoes escaping\<close>

lemma char_len_ascii: "of_char c < (128 :: nat) \<Longrightarrow> char_len c = 1"
  by (simp add: char_len_def)

lemma take_chars_ascii:
  "(\<And>c. c \<in> set w \<Longrightarrow> of_char c < (128 :: nat)) \<Longrightarrow> take_chars (length w) (w @ r) = (w, r)"
  by (induction w) (auto simp: char_len_ascii)

lemma hex_digit_ascii: "n < 16 \<Longrightarrow> of_char (hex_digit n) < (128 :: nat)"
  by simp

lemma unicode_escape_control:
  assumes "of_char c < (32 :: nat)"
  shows "unicode_escape [CHR ''0'', CHR ''0'', hex_digit (of_char c div 16), hex_digit (of_char c mod 16)] = [c]"
proof -
  let ?n = "of_char c :: nat"
  have d: "?n div 16 < 16" "?n mod 16 < 16" using assms by auto
  have z: "hex_val CHR ''0'' = Some 0" by (simp add: hex_val_def)
  have "parse_hex [CHR ''0'', CHR ''0'', hex_digit (?n div 16), hex_digit (?n mod 16)] = Some (16 * (?n div 16) + ?n mod 16)"
    using d by (simp add: parse_hex_def z del: hex_digit.simps)
  then show ?thesis using assms by (simp add: unicode_escape_def char_from_u32_def utf8_encode_def)
qed

lemma pick_chars_unicode:
  assumes "(\<And>c. c \<in> set [a, b, d, e] \<Longrightarrow> of_char c < (128 :: nat))"
  shows "pick_chars (CHR 0x5C # CHR ''u'' # a # b # d # e # r) = map_option (\<lambda>t. unicode_escape [a, b, d, e] @ t) (pick_chars r)"
proof -
  have "take_chars 4 (a # b # d # e # r) = ([a, b, d, e], r)"
    using take_chars_ascii [of "[a, b, d, e]" r] assms by (simp add: numeral_eq_Suc)
  then show ?thesis by (simp add: pick_chars.simps)
qed

lemma pick_chars_escape_char: "pick_chars (json_escape_char c @ r) = map_option (\<lambda>t. c # t) (pick_chars r)"
proof (cases "of_char c < (32 :: nat) \<and> c \<notin> {CHR 0x0A, CHR 0x0D, CHR 0x09}")
  case True
  then have "c \<noteq> CHR 0x22" "c \<noteq> CHR 0x5C" by auto
  moreover have "pick_chars (CHR 0x5C # CHR ''u'' # CHR ''0'' # CHR ''0'' # hex_digit (of_char c div 16) # hex_digit (of_char c mod 16) # r) =
      map_option (\<lambda>t. [c] @ t) (pick_chars r)"
  proof (subst pick_chars_unicode)
    fix x assume "x \<in> set [CHR ''0'', CHR ''0'', hex_digit (of_char c div 16), hex_digit (of_char c mod 16)]"
    then show "of_char x < (128 :: nat)" using True by auto
  qed (use True unicode_escape_control in simp)
  ultimately show ?thesis using True by (simp add: json_escape_char_def del: hex_digit.simps)
next
  case False
  then show ?thesis by (auto simp: json_escape_char_def pick_chars.simps unescape_char_def)
qed

section \<open>Escapers\<close>

text \<open>What the reader needs of whoever escaped a text, this module or the JSON library of the server: quotes and
  backslashes get a backslash, other characters from the space on stand for themselves, control characters become
  escapes without quotes, and reading an escape gives the character back.\<close>

locale json_escaper =
  fixes e :: "char \<Rightarrow> string"
  assumes quote: "e CHR 0x22 = [CHR 0x5C, CHR 0x22]"
    and backslash: "e CHR 0x5C = [CHR 0x5C, CHR 0x5C]"
    and printable: "32 \<le> (of_char c :: nat) \<Longrightarrow> c \<noteq> CHR 0x22 \<Longrightarrow> c \<noteq> CHR 0x5C \<Longrightarrow> e c = [c]"
    and control: "(of_char c :: nat) < 32 \<Longrightarrow> \<exists>w. e c = CHR 0x5C # w \<and> CHR 0x22 \<notin> set w"
    and read_back: "pick_chars (e c @ r) = map_option (\<lambda>t. c # t) (pick_chars r)"
begin

lemma read_escaped: "pick_chars (concat (map e s) @ CHR 0x22 # r) = Some s"
  by (induction s) (simp_all add: read_back pick_chars.simps)

lemma escape_cases:
  obtains "e c = [c]" "c \<noteq> CHR 0x22" "c \<noteq> CHR 0x5C"
  | "c = CHR 0x22" "e c = [CHR 0x5C, CHR 0x22]"
  | w where "e c = CHR 0x5C # w" "CHR 0x22 \<notin> set w" "c = CHR 0x5C \<or> (of_char c :: nat) < 32"
  using quote backslash printable [of c] control [of c] by (cases "(of_char c :: nat) < 32") fastforce+

end

definition plain_field :: "string \<Rightarrow> bool" where
  "plain_field f \<longleftrightarrow> f \<noteq> [] \<and> (\<forall>c \<in> set f. 32 \<le> (of_char c :: nat) \<and> c \<noteq> CHR 0x22 \<and> c \<noteq> CHR 0x5C)"

text \<open>A text that is a field name, or ends in one after a quote, looks like that field to the reader.\<close>

definition mimics :: "string \<Rightarrow> string \<Rightarrow> bool" where
  "mimics f t \<longleftrightarrow> (\<exists>u. CHR 0x22 # t = u @ CHR 0x22 # f)"

context json_escaper
begin

lemma match_inside:
  "list_all (\<lambda>c. 32 \<le> (of_char c :: nat) \<and> c \<noteq> CHR 0x22 \<and> c \<noteq> CHR 0x5C) f \<Longrightarrow>
    starts_with (concat (map e t) @ CHR 0x22 # s) (f @ [CHR 0x22]) \<longleftrightarrow> t = f"
proof (induction f arbitrary: t)
  case Nil
  show ?case
  proof (cases t)
    case (Cons x xs)
    then show ?thesis by (cases x rule: escape_cases) auto
  qed simp
next
  case (Cons a f)
  show ?case
  proof (cases t)
    case (Cons x xs)
    note t = this
    show ?thesis
    proof (cases x rule: escape_cases)
      case 1
      with t Cons.IH [of xs] Cons.prems show ?thesis by auto
    qed (use t Cons.prems in auto)
  qed (use Cons.prems in auto)
qed

lemma find_in_text:
  assumes f: "plain_field f" "c \<noteq> hd f"
  shows "\<not> (\<exists>u. t = u @ CHR 0x22 # f) \<Longrightarrow>
    find_after (quoted f) (concat (map e t) @ CHR 0x22 # c # s) = find_after (quoted f) (c # s)"
proof (induction t)
  case Nil
  with f show ?case by (cases f) (auto simp: quoted_def plain_field_def)
next
  case (Cons x xs)
  then have IH: "find_after (quoted f) (concat (map e xs) @ CHR 0x22 # c # s) = find_after (quoted f) (c # s)" by (metis append_Cons)
  show ?case
  proof (cases x rule: escape_cases)
    case 1
    then show ?thesis using IH by (simp add: quoted_def)
  next
    case 2
    then have "xs \<noteq> f" using Cons.prems by auto
    moreover have "list_all (\<lambda>c. 32 \<le> (of_char c :: nat) \<and> c \<noteq> CHR 0x22 \<and> c \<noteq> CHR 0x5C) f"
      using f by (simp add: plain_field_def list_all_iff)
    ultimately have "\<not> starts_with (concat (map e xs) @ CHR 0x22 # c # s) (f @ [CHR 0x22])" by (simp add: match_inside)
    then show ?thesis using IH 2 by (simp add: quoted_def)
  next
    case (3 w)
    then show ?thesis using IH find_after_skip [of "CHR 0x22" "CHR 0x5C # w"] by (simp add: quoted_def)
  qed
qed

text \<open>The reader passes over a quoted text that does not mimic the field.\<close>

lemma find_past_text:
  assumes "plain_field f" "c \<noteq> hd f" "\<not> mimics f t"
  shows "find_after (quoted f) (quoted (concat (map e t)) @ c # s) = find_after (quoted f) (c # s)"
proof -
  have "t \<noteq> f" "\<not> (\<exists>u. t = u @ CHR 0x22 # f)" using assms(3) unfolding mimics_def by (blast, metis append_Cons)
  moreover have "list_all (\<lambda>c. 32 \<le> (of_char c :: nat) \<and> c \<noteq> CHR 0x22 \<and> c \<noteq> CHR 0x5C) f"
    using assms(1) by (simp add: plain_field_def list_all_iff)
  ultimately show ?thesis using find_in_text [OF assms(1,2)] match_inside [of f t "c # s"] by (simp add: quoted_def)
qed

end

lemma hex_digit_no_quote: "n < 16 \<Longrightarrow> hex_digit n \<noteq> CHR 0x22"
  by (auto dest!: arg_cong [of _ _ "of_char :: char \<Rightarrow> nat"] split: if_splits)

interpretation handler: json_escaper json_escape_char
proof
  fix c :: char assume c: "(of_char c :: nat) < 32"
  then have d: "of_char c div 16 < (16 :: nat)" "of_char c mod 16 < (16 :: nat)" and n: "c \<noteq> CHR 0x22" "c \<noteq> CHR 0x5C" by auto
  show "\<exists>w. json_escape_char c = CHR 0x5C # w \<and> CHR 0x22 \<notin> set w"
    using c n d [THEN hex_digit_no_quote, symmetric] by (simp add: json_escape_char_def del: hex_digit.simps)
next
  fix c :: char assume "32 \<le> (of_char c :: nat)" "c \<noteq> CHR 0x22" "c \<noteq> CHR 0x5C"
  moreover from this have "c \<noteq> CHR 0x0A" "c \<noteq> CHR 0x0D" "c \<noteq> CHR 0x09" by auto
  ultimately show "json_escape_char c = [c]" by (simp add: json_escape_char_def)
qed (simp_all add: json_escape_char_def pick_chars_escape_char [unfolded json_escape_char_def])

section \<open>Reading fields\<close>

lemma starts_with_prefix [simp]: "starts_with (p @ s) p"
  by (simp add: starts_with_iff)

lemma find_after_here: "f \<noteq> [] \<Longrightarrow> find_after f (f @ s) = Some s"
  by (cases f) (auto simp: starts_with_iff)

lemma trim_start_no_ws [simp]: "ws_at s = 0 \<Longrightarrow> trim_start s = s"
  by (simp add: trim_start.simps)

lemma ws_at_printable: "32 < (of_char c :: nat) \<Longrightarrow> (of_char c :: nat) < 128 \<Longrightarrow> ws_at (c # s) = 0"
  by (simp add: ws_at.simps(2) Let_def)

lemma field_value_here:
  assumes "32 < (of_char c :: nat)" "(of_char c :: nat) < 128"
  shows "field_value (quoted f @ CHR '':'' # c # s) f = Some (c # s)"
proof -
  have "find_after (quoted f) (quoted f @ CHR '':'' # c # s) = Some (CHR '':'' # c # s)"
    by (rule find_after_here) (simp add: quoted_def)
  then show ?thesis using assms by (simp add: field_value_def ws_at_printable strip_prefix_def)
qed

lemma field_value_find: "find_after (quoted f) s = find_after (quoted f) s' \<Longrightarrow> field_value s f = field_value s' f"
  by (simp add: field_value_def)

lemma pick_string_find: "find_after (quoted f) s = find_after (quoted f) s' \<Longrightarrow> pick_string s f = pick_string s' f"
  by (simp add: pick_string_def cong: field_value_find)

lemma find_past_plain:
  assumes "CHR 0x22 \<notin> set pre"
  shows "find_after (quoted f) (pre @ s) = find_after (quoted f) s"
  unfolding quoted_def using assms by (rule find_after_skip)

context json_escaper
begin

lemma pick_string_here: "pick_string (quoted f @ CHR '':'' # quoted (concat (map e t)) @ s) f = Some t"
proof -
  have "field_value (quoted f @ CHR '':'' # quoted (concat (map e t)) @ s) f = Some (quoted (concat (map e t)) @ s)"
    by (simp add: quoted_def [of "concat _"] field_value_here)
  then show ?thesis by (simp add: pick_string_def strip_prefix_def read_escaped quoted_def [of "concat _"])
qed

end

lemma push_json_escaped_plain:
  "list_all (\<lambda>c. 32 \<le> (of_char c :: nat) \<and> c \<noteq> CHR 0x22 \<and> c \<noteq> CHR 0x5C) s \<Longrightarrow> push_json_escaped s = s"
  by (induction s) (auto simp: push_json_escaped_def handler.printable)

lemma show_nat_no_quote: "CHR 0x22 \<notin> set (show_nat n)"
proof
  assume "CHR 0x22 \<in> set (show_nat n)"
  then obtain d where d: "d < 10" "CHR 0x22 = digit_char d" using show_nat_digits by blast
  have "(of_char (digit_char d) :: nat) = 34" unfolding d(2) [symmetric] by simp
  with d(1) show False by simp
qed

lemma find_past_name:
  assumes "plain_field f" "plain_field g" "f \<noteq> g" "c \<noteq> hd f"
  shows "find_after (quoted f) (quoted g @ c # s) = find_after (quoted f) (c # s)"
proof -
  have g: "concat (map json_escape_char g) = g"
    using assms(2) push_json_escaped_plain [of g] by (simp add: plain_field_def list_all_iff push_json_escaped_def)
  have "\<not> mimics f g"
  proof
    assume "mimics f g"
    then obtain u where u: "CHR 0x22 # g = u @ CHR 0x22 # f" by (auto simp: mimics_def)
    show False
    proof (cases u)
      case Nil
      with u assms(3) show ?thesis by simp
    next
      case (Cons a v)
      with u have "CHR 0x22 \<in> set g" by (metis append_Cons in_set_conv_decomp list.sel(3))
      with assms(2) show ?thesis by (auto simp: plain_field_def)
    qed
  qed
  from handler.find_past_text [OF assms(1,4) this] show ?thesis by (simp add: g)
qed

lemma plain_fields [simp]:
  "plain_field ''body''" "plain_field ''status''" "plain_field ''ctype''" "plain_field ''headers''" "plain_field ''query''"
  "plain_field ''text''" "plain_field ''method''" "plain_field ''path''" "plain_field ''remote''" "plain_field ''bytes_hex''"
  "plain_field ''application/json''" "plain_field ''authorization''" "plain_field ''Authorization''" "plain_field ''error''"
  "plain_field ''alg''" "plain_field ''exp''" "plain_field ''nbf''"
  by (simp_all add: plain_field_def)

lemma find_past_char: "c \<noteq> CHR 0x22 \<Longrightarrow> find_after (quoted f) (c # s) = find_after (quoted f) s"
  by (simp add: quoted_def)

lemma find_past_digits: "find_after (quoted f) (show_nat n @ s) = find_after (quoted f) s"
  using show_nat_no_quote by (rule find_past_plain)

declare find_after.simps(2) [simp del]

lemmas find_past = find_past_char find_past_digits find_past_name

lemma show_nat_head: obtains c cs where "show_nat n = c # cs" "48 \<le> (of_char c :: nat)" "(of_char c :: nat) \<le> 57"
proof -
  obtain c cs where c: "show_nat n = c # cs" by (meson neq_Nil_conv show_nat_not_Nil)
  then have "c \<in> set (show_nat n)" by simp
  then obtain d where "d < 10" "c = digit_char d" using show_nat_digits by blast
  with that [OF c] show thesis by simp
qed

lemma show_nat_number_char:
  assumes "\<not> number_char c"
  shows "takeWhile number_char (show_nat n @ c # s) = show_nat n"
proof -
  have "number_char c" if c: "c \<in> set (show_nat n)" for c
  proof -
    obtain d where "d < 10" "c = digit_char d" using show_nat_digits [OF c] by blast
    then show ?thesis by (simp add: number_char_def)
  qed
  with assms show ?thesis by (simp add: takeWhile_append2)
qed

lemma separators_no_number: "\<not> number_char CHR '',''" "\<not> number_char CHR ''}''" "\<not> number_char CHR 0x22"
  by (simp_all add: number_char_def digit_val_def)

text \<open>A number that ends before a separator is picked as it was printed.\<close>

lemma pick_number_here:
  assumes "field_value s f = Some (show_nat n @ c # r)" "\<not> number_char c"
  shows "pick_number s f = Some (show_nat n)"
proof -
  obtain d ds where d: "show_nat n = d # ds" "48 \<le> (of_char d :: nat)" by (rule show_nat_head)
  then have "d \<noteq> CHR ''-''" "d \<noteq> CHR ''+''" by auto
  with assms(1) d(1) show ?thesis using show_nat_number_char [OF assms(2), of n r] by (simp add: pick_number_def)
qed

lemma join_fields:
  "join_with CHR '','' (xs @ y # ys) = concat (map (\<lambda>p. p @ '','') xs) @ y @ (if ys = [] then [] else CHR '','' # join_with CHR '','' ys)"
proof (induction xs)
  case Nil
  then show ?case by (cases ys) auto
next
  case (Cons x xs)
  then show ?case by (cases "xs @ y # ys") auto
qed

lemma mimics_last: "mimics f t \<Longrightarrow> f = [] \<or> last (CHR 0x22 # t) = last f"
  by (auto simp: mimics_def dest!: arg_cong [of _ _ last] split: if_splits)

text \<open>A handler's answer can be read back field by field, whatever its text: looking for \<open>status\<close>,
  \<open>ctype\<close> and \<open>body\<close> in the printed JSON yields the status, the content type and the body that were
  answered, for every body (quotes, backslashes, control characters, other JSON).\<close>

lemma structured_response_fields:
  "pick_number (structured_response status ''application/json'' body) ''status'' = Some (show_nat status) \<and>
   pick_string (structured_response status ''application/json'' body) ''ctype'' = Some ''application/json'' \<and>
   pick_string (structured_response status ''application/json'' body) ''body'' = Some body"
proof (intro conjI)
  let ?tail = "CHR '':'' # quoted (push_json_escaped body) @ ''}''"
  let ?ct = "CHR '':'' # quoted ''application/json'' @ CHR '','' # quoted ''body'' @ ?tail"
  let ?r = "structured_response status ''application/json'' body"
  have r: "?r = CHR ''{'' # quoted ''status'' @ CHR '':'' # show_nat status @ CHR '','' # quoted ''ctype'' @ ?ct"
    by (simp add: structured_response_def push_json_escaped_plain)
  have "find_after (quoted ''body'') ?r = find_after (quoted ''body'') (quoted ''body'' @ ?tail)"
    unfolding r by (simp add: find_past)
  from pick_string_find [OF this] show "pick_string ?r ''body'' = Some body"
    using handler.pick_string_here [of "''body''" body "''}''"] by (simp add: push_json_escaped_def)
  have "find_after (quoted ''ctype'') ?r = find_after (quoted ''ctype'') (quoted ''ctype'' @ ?ct)"
    unfolding r by (simp add: find_past)
  from pick_string_find [OF this] show "pick_string ?r ''ctype'' = Some ''application/json''"
    using handler.pick_string_here [of "''ctype''" "''application/json''"] push_json_escaped_plain [of "''application/json''"]
    by (simp add: push_json_escaped_def)
  obtain c cs where c: "show_nat status = c # cs" "48 \<le> (of_char c :: nat)" "(of_char c :: nat) \<le> 57" by (rule show_nat_head)
  have "find_after (quoted ''status'') ?r = find_after (quoted ''status'') (quoted ''status'' @ CHR '':'' # show_nat status @ CHR '','' # quoted ''ctype'' @ ?ct)"
    unfolding r by (simp add: find_past)
  then have "field_value ?r ''status'' = field_value (quoted ''status'' @ CHR '':'' # show_nat status @ CHR '','' # quoted ''ctype'' @ ?ct) ''status''"
    by (rule field_value_find)
  also have "\<dots> = Some (show_nat status @ CHR '','' # quoted ''ctype'' @ ?ct)"
    unfolding c(1) append_Cons using c(2,3) by (intro field_value_here) simp_all
  finally have v: "field_value ?r ''status'' = Some (show_nat status @ CHR '','' # quoted ''ctype'' @ ?ct)" .
  from pick_number_here [OF v separators_no_number(1)] show "pick_number ?r ''status'' = Some (show_nat status)" .
qed

text \<open>Percent encoding of ASCII text is inverted.\<close>

definition percent :: "char \<Rightarrow> string" where
  "percent c = [CHR ''%'', hex_digit (of_char c div 16), hex_digit (of_char c mod 16)]"

lemma url_decode_percent:
  assumes "\<And>c. c \<in> set s \<Longrightarrow> (of_char c :: nat) < 128"
  shows "url_decode (concat (map percent s)) = s"
  using assms
proof (induction s)
  case (Cons c cs)
  then have c: "(of_char c :: nat) < 128" by simp
  then have "(of_char c :: nat) div 16 < 16" by simp
  with c show ?case using Cons
    by (simp add: percent_def push_byte_def hex_nibble_def utf8_encode_def del: hex_digit.simps)
qed simp

text \<open>Beyond ASCII it is not: each byte becomes a character of its own, so the two bytes of an accented letter
  come out as two letters.\<close>

lemma url_decode_not_utf8:
  "url_decode ''%C3%A9'' = utf8_encode 0xC3 @ utf8_encode 0xA9 \<and> url_decode ''%C3%A9'' \<noteq> utf8_encode 0xE9"
  by code_simp

end
