(* ===== verification/Auth_Handler.thy ===== *)
theory Auth_Handler
  imports Handler_Json
begin

text \<open>
  \<^verbatim>\<open>sqlink-httpd/handlers/auth/src/lib.rs\<close>: the handler that admits a request if it carries a JSON Web Token
  signed with the shared secret. The token is taken from the header, the body or the query; the three
  parts are decoded, the algorithm, the signature and the times are checked.

  Base64, the keyed hash, the environment and the clock are parameters (\<open>auth_env\<close>). Texts are bytes; where the
  source asks for UTF-8, \<open>utf8_valid\<close> does.

  What a token says is described apart from the code that reads it: a list of claims that was printed as JSON
  (\<open>claims_json\<close>). Shown: whatever text it gets, the handler answers 200 or 401, and 200 only for a token that is
  signed with the secret; for a token whose header and claims were printed from a list whose texts do not pose as a
  claim, 200 exactly if it is signed, names HS256 and is in force by that list. Where the texts do pose as claims,
  two lemmas show expired tokens that are admitted.
\<close>

section \<open>The handler\<close>

record auth_env =
  b64 :: "string \<Rightarrow> string option"
  hmac_sha256 :: "string \<Rightarrow> string \<Rightarrow> string + string"
  jwt_secret :: "string option"
  now_epoch_secs :: int

definition secret_from_env :: "auth_env \<Rightarrow> string" where
  "secret_from_env A = (case jwt_secret A of Some s \<Rightarrow> s | None \<Rightarrow> ''secret'')"

definition looks_like_jwt :: "string \<Rightarrow> bool" where
  "looks_like_jwt s = (case split_on CHR ''.'' s of [a, b, c] \<Rightarrow> a \<noteq> [] \<and> b \<noteq> [] \<and> c \<noteq> [] | _ \<Rightarrow> False)"

fun token_in_query :: "string list \<Rightarrow> string option" where
  "token_in_query [] = None"
| "token_in_query (pair # pairs) =
     (case split_once CHR ''='' pair of
        Some (k, v) \<Rightarrow>
          if (k = ''token'' \<or> k = ''bearer'') \<and> looks_like_jwt (url_decode v) then Some (url_decode v)
          else token_in_query pairs
      | None \<Rightarrow> token_in_query pairs)"

definition bearer_in_header :: "string \<Rightarrow> string option" where
  "bearer_in_header hdr =
     (case strip_prefix ''Bearer '' hdr of Some rest \<Rightarrow> Some rest | None \<Rightarrow> strip_prefix ''bearer '' hdr)"

definition jwt_of :: "string option \<Rightarrow> string option" where
  "jwt_of rest = (case rest of None \<Rightarrow> None | Some r \<Rightarrow> if looks_like_jwt (trim r) then Some (trim r) else None)"

definition extract_token :: "string \<Rightarrow> string \<Rightarrow> string \<Rightarrow> string option" where
  "extract_token auth_header body query_str =
     (case jwt_of (bearer_in_header (trim auth_header)) of
        Some t \<Rightarrow> Some t
      | None \<Rightarrow>
          (case jwt_of (strip_prefix ''Bearer '' (trim body)) of
             Some t \<Rightarrow> Some t
           | None \<Rightarrow>
               if looks_like_jwt (trim body) then Some (trim body)
               else token_in_query (split_on CHR ''&'' query_str)))"

definition check_times :: "auth_env \<Rightarrow> string \<Rightarrow> string + unit" where
  "check_times A payload =
     (case Option.bind (pick_number payload ''exp'') parse_i64 of
        Some ex \<Rightarrow> if ex < now_epoch_secs A then Inl ''expired'' else Inr ()
      | None \<Rightarrow> Inr ()) "

definition check_not_before :: "auth_env \<Rightarrow> string \<Rightarrow> string + unit" where
  "check_not_before A payload =
     (case Option.bind (pick_number payload ''nbf'') parse_i64 of
        Some nbf \<Rightarrow> if nbf > now_epoch_secs A then Inl ''not yet valid'' else Inr ()
      | None \<Rightarrow> Inr ())"

definition verify_hs256 :: "auth_env \<Rightarrow> string \<Rightarrow> string \<Rightarrow> string + string" where
  "verify_hs256 A token secret =
     (case split_on CHR ''.'' token of
        [header_b64, payload_b64, sig_b64] \<Rightarrow>
          sbind (ok_or ''bad header b64'' (b64 A header_b64)) (\<lambda>header.
          sbind (ok_or ''bad payload b64'' (b64 A payload_b64)) (\<lambda>payload.
          sbind (ok_or ''bad signature b64'' (b64 A sig_b64)) (\<lambda>sig.
          sbind (ensure ''header not utf-8'' (utf8_valid header)) (\<lambda>_.
          sbind (ensure ''payload not utf-8'' (utf8_valid payload)) (\<lambda>_.
          (let alg = (case pick_string header ''alg'' of Some a \<Rightarrow> a | None \<Rightarrow> []) in
           sbind (ensure (''unsupported alg: '' @ alg) (alg = ''HS256'')) (\<lambda>_.
           sbind (hmac_sha256 A secret (header_b64 @ ''.'' @ payload_b64)) (\<lambda>tag.
           sbind (ensure ''bad signature'' (tag = sig)) (\<lambda>_.
           sbind (check_times A payload) (\<lambda>_.
           sbind (check_not_before A payload) (\<lambda>_. Inr payload)))))))))))
      | _ \<Rightarrow> Inl ''malformed token'')"

definition ok_response :: "string \<Rightarrow> string" where
  "ok_response claims_json =
     structured_response 200 ''application/json'' (''{'' @ quoted ''ok'' @ '':true,'' @ quoted ''claims'' @ '':'' @ claims_json @ ''}'')"

definition or_empty :: "string option \<Rightarrow> string" where
  "or_empty x = (case x of Some s \<Rightarrow> s | None \<Rightarrow> [])"

text \<open>The token of a request: what \<open>execute\<close> passes to \<open>extract_token\<close>.\<close>

definition request_token :: "string \<Rightarrow> string option" where
  "request_token source =
     extract_token
       (or_empty (case pick_header source ''authorization'' of Some h \<Rightarrow> Some h | None \<Rightarrow> pick_header source ''Authorization''))
       (or_empty (pick_body_text source)) (or_empty (pick_string source ''query''))"

definition auth_execute :: "auth_env \<Rightarrow> string \<Rightarrow> string" where
  "auth_execute A source =
     (case request_token source of
        None \<Rightarrow> error_response 401 ''missing token''
      | Some token \<Rightarrow>
          (case verify_hs256 A token (secret_from_env A) of
             Inr claims \<Rightarrow> ok_response claims
           | Inl e \<Rightarrow> error_response 401 e))"

section \<open>What a token says\<close>

text \<open>Claims and how they are printed as JSON.\<close>

datatype claim = ClaimNum nat | ClaimText string

fun print_claim :: "claim \<Rightarrow> string" where
  "print_claim (ClaimNum n) = show_nat n"
| "print_claim (ClaimText t) = quoted (push_json_escaped t)"

definition print_pair :: "string \<times> claim \<Rightarrow> string" where
  "print_pair kv = quoted (push_json_escaped (fst kv)) @ CHR '':'' # print_claim (snd kv)"

definition claims_json :: "(string \<times> claim) list \<Rightarrow> string" where
  "claims_json fs = CHR ''{'' # join_with CHR '','' (map print_pair fs) @ ''}''"

text \<open>Names are plain and distinct, numbers fit 63 bits, and no text poses as the claim \<open>f\<close>.\<close>

definition readable :: "string \<Rightarrow> (string \<times> claim) list \<Rightarrow> bool" where
  "readable f fs \<longleftrightarrow> distinct (map fst fs) \<and>
     list_all (\<lambda>(k, v). plain_field k \<and> (case v of ClaimNum n \<Rightarrow> n < 2 ^ 63 | ClaimText t \<Rightarrow> \<not> mimics f t)) fs"

text \<open>A token is in force from \<open>nbf\<close> up to and including the second \<open>exp\<close>; without such numbers it always is.\<close>

definition in_force :: "int \<Rightarrow> (string \<times> claim) list \<Rightarrow> bool" where
  "in_force now fs \<longleftrightarrow>
     (\<forall>n. map_of fs ''exp'' = Some (ClaimNum n) \<longrightarrow> now \<le> int n) \<and> (\<forall>n. map_of fs ''nbf'' = Some (ClaimNum n) \<longrightarrow> int n \<le> now)"

definition three_parts :: "string \<Rightarrow> string \<Rightarrow> string \<Rightarrow> string \<Rightarrow> bool" where
  "three_parts token h p s \<longleftrightarrow>
     token = h @ CHR ''.'' # p @ CHR ''.'' # s \<and> CHR ''.'' \<notin> set h \<and> CHR ''.'' \<notin> set p \<and> CHR ''.'' \<notin> set s"

text \<open>The third part is the keyed hash of the first two under the secret.\<close>

definition signed :: "auth_env \<Rightarrow> string \<Rightarrow> bool" where
  "signed A token \<longleftrightarrow> (\<exists>h p s tag. three_parts token h p s \<and> b64 A s = Some tag \<and> hmac_sha256 A (secret_from_env A) (h @ CHR ''.'' # p) = Inr tag)"

definition payload_of :: "auth_env \<Rightarrow> string \<Rightarrow> string \<Rightarrow> bool" where
  "payload_of A token payload \<longleftrightarrow> (\<exists>h p s. three_parts token h p s \<and> b64 A p = Some payload)"

text \<open>A token whose header and payload were printed from the claims \<open>hs\<close> and \<open>fs\<close>.\<close>

definition token_of :: "auth_env \<Rightarrow> string \<Rightarrow> (string \<times> claim) list \<Rightarrow> (string \<times> claim) list \<Rightarrow> bool" where
  "token_of A token hs fs \<longleftrightarrow>
     (\<exists>h p s. three_parts token h p s \<and> b64 A h = Some (claims_json hs) \<and> b64 A p = Some (claims_json fs)) \<and>
     utf8_valid (claims_json hs) \<and> utf8_valid (claims_json fs) \<and> readable ''alg'' hs \<and> readable ''exp'' fs \<and> readable ''nbf'' fs"

definition valid :: "auth_env \<Rightarrow> string \<Rightarrow> (string \<times> claim) list \<Rightarrow> (string \<times> claim) list \<Rightarrow> bool" where
  "valid A token hs fs \<longleftrightarrow> signed A token \<and> map_of hs ''alg'' = Some (ClaimText ''HS256'') \<and> in_force (now_epoch_secs A) fs"

definition claims_body :: "string \<Rightarrow> string" where
  "claims_body claims = ''{'' @ quoted ''ok'' @ '':true,'' @ quoted ''claims'' @ '':'' @ claims @ ''}''"

section \<open>Reading printed claims\<close>

text \<open>A field whose name does not start with a separator.\<close>

definition claim_name :: "string \<Rightarrow> bool" where
  "claim_name f \<longleftrightarrow> plain_field f \<and> hd f \<notin> {CHR '':'', CHR '','', CHR ''}''}"

lemma claim_names [simp]: "claim_name ''alg''" "claim_name ''exp''" "claim_name ''nbf''"
  by (simp_all add: claim_name_def)

lemma readable_Cons: "readable f ((k, v) # fs) \<Longrightarrow> plain_field k \<and> k \<notin> fst ` set fs \<and> readable f fs"
  by (auto simp: readable_def)

lemma escaped_plain: "plain_field k \<Longrightarrow> push_json_escaped k = k"
  by (rule push_json_escaped_plain) (simp add: plain_field_def list_all_iff)

text \<open>The reader passes over the claims before the one it looks for.\<close>

lemma find_past_claim:
  assumes f: "claim_name f" and r: "readable f [(k, v)]" "k \<noteq> f" and c: "c \<in> {CHR '','', CHR ''}''}"
  shows "find_after (quoted f) (print_pair (k, v) @ c # s) = find_after (quoted f) s"
proof -
  have k: "plain_field k" using r(1) by (simp add: readable_def)
  have q: "c \<noteq> CHR 0x22" "hd f \<noteq> c" "hd f \<noteq> CHR '':''" "plain_field f" using f c by (auto simp: claim_name_def)
  have "find_after (quoted f) (print_claim v @ c # s) = find_after (quoted f) (c # s)"
  proof (cases v)
    case (ClaimText t)
    with r(1) have "\<not> mimics f t" by (simp add: readable_def)
    with ClaimText q show ?thesis
      using handler.find_past_text [of f c t s] by (auto simp: push_json_escaped_def)
  qed (simp add: find_past_digits)
  with q k r(2) show ?thesis
    using find_past_name [of f k "CHR '':''" "print_claim v @ c # s"] by (auto simp: print_pair_def escaped_plain find_past_char)
qed

lemma find_past_claims:
  assumes "claim_name f"
  shows "readable f fs \<Longrightarrow> f \<notin> fst ` set fs \<Longrightarrow>
    find_after (quoted f) (concat (map (\<lambda>p. p @ '','') (map print_pair fs)) @ s) = find_after (quoted f) s"
proof (induction fs)
  case (Cons kv fs)
  obtain k v where kv: "kv = (k, v)" by fastforce
  have "readable f [(k, v)]" "k \<noteq> f" using Cons.prems kv by (auto simp: readable_def)
  with find_past_claim [OF assms, of k v "CHR '',''"] Cons kv readable_Cons [of f k v fs] show ?case by simp
qed simp

lemma find_absent:
  assumes "claim_name f" "readable f fs" "f \<notin> fst ` set fs"
  shows "find_after (quoted f) (claims_json fs) = None"
proof (cases fs rule: rev_cases)
  case Nil
  then show ?thesis by (simp add: claims_json_def find_past_char) (simp add: quoted_def)
next
  case (snoc pre kv)
  obtain k v where kv: "kv = (k, v)" by fastforce
  have "readable f pre" "readable f [(k, v)]" "k \<noteq> f" "f \<notin> fst ` set pre" using assms(2,3) snoc kv by (auto simp: readable_def)
  with find_past_claim [OF assms(1), of k v "CHR ''}''" "[]"] find_past_claims [OF assms(1), of pre "print_pair (k, v) @ ''}''"]
  show ?thesis by (simp add: claims_json_def snoc kv join_fields find_past_char) (simp add: quoted_def)
qed

lemma value_present:
  assumes "claim_name f" "readable f fs" "map_of fs f = Some v"
  obtains c r where "field_value (claims_json fs) f = Some (print_claim v @ c # r)" "c \<in> {CHR '','', CHR ''}''}"
proof -
  from assms(3) have "(f, v) \<in> set fs" by (rule map_of_SomeD)
  then obtain pre post where fs: "fs = pre @ (f, v) # post" by (meson split_list)
  have pre: "readable f pre" "f \<notin> fst ` set pre" and f: "plain_field f" using assms(1,2) fs by (auto simp: readable_def claim_name_def)
  let ?rest = "(if post = [] then [] else CHR '','' # join_with CHR '','' (map print_pair post)) @ ''}''"
  obtain c r where rest: "?rest = c # r" "c \<in> {CHR '','', CHR ''}''}" by (cases "post = []") auto
  have "find_after (quoted f) (claims_json fs) = find_after (quoted f) (print_pair (f, v) @ ?rest)"
    using find_past_claims [OF assms(1) pre, of "print_pair (f, v) @ ?rest"] by (simp add: claims_json_def fs join_fields find_past_char)
  then have "field_value (claims_json fs) f = field_value (quoted f @ CHR '':'' # print_claim v @ c # r) f"
    by (intro field_value_find) (simp only: rest print_pair_def fst_conv snd_conv escaped_plain [OF f] append_assoc append_Cons)
  moreover obtain d ds where d: "print_claim v = d # ds" "32 < (of_char d :: nat)" "(of_char d :: nat) < 128"
  proof (cases v)
    case (ClaimNum n)
    obtain d ds where "show_nat n = d # ds" "48 \<le> (of_char d :: nat)" "(of_char d :: nat) \<le> 57" by (rule show_nat_head)
    then show thesis using ClaimNum by (intro that [of d ds]) simp_all
  next
    case (ClaimText t)
    show thesis by (rule that [of "CHR 0x22" "push_json_escaped t @ [CHR 0x22]"]) (simp_all add: ClaimText quoted_def)
  qed
  ultimately have "field_value (claims_json fs) f = Some (print_claim v @ c # r)"
    using field_value_here [OF d(2,3), of f "ds @ c # r"] by simp
  with rest(2) that show thesis by blast
qed

lemma pick_number_claims:
  assumes "claim_name f" "readable f fs"
  shows "pick_number (claims_json fs) f = (case map_of fs f of Some (ClaimNum n) \<Rightarrow> Some (show_nat n) | _ \<Rightarrow> None)"
proof (cases "map_of fs f")
  case None
  then have "f \<notin> fst ` set fs" by (simp add: map_of_eq_None_iff)
  with find_absent [OF assms] None show ?thesis by (simp add: pick_number_def field_value_def)
next
  case (Some v)
  obtain c r where v: "field_value (claims_json fs) f = Some (print_claim v @ c # r)" "c \<in> {CHR '','', CHR ''}''}"
    using value_present [OF assms Some] .
  then have "\<not> number_char c" using separators_no_number by auto
  with Some v show ?thesis
    using pick_number_here [of "claims_json fs" f _ c r] separators_no_number by (cases v) (auto simp: pick_number_def quoted_def)
qed

lemma pick_string_claims:
  assumes "claim_name f" "readable f fs"
  shows "pick_string (claims_json fs) f = (case map_of fs f of Some (ClaimText t) \<Rightarrow> Some t | _ \<Rightarrow> None)"
proof (cases "map_of fs f")
  case None
  then have "f \<notin> fst ` set fs" by (simp add: map_of_eq_None_iff)
  with find_absent [OF assms] None show ?thesis by (simp add: pick_string_def field_value_def)
next
  case (Some v)
  obtain c r where v: "field_value (claims_json fs) f = Some (print_claim v @ c # r)"
    using value_present [OF assms Some] by blast
  show ?thesis
  proof (cases v)
    case (ClaimNum n)
    obtain d ds where d: "show_nat n = d # ds" "48 \<le> (of_char d :: nat)" "(of_char d :: nat) \<le> 57" by (rule show_nat_head)
    then have "d \<noteq> CHR 0x22" by auto
    with Some v ClaimNum d(1) show ?thesis by (simp add: pick_string_def strip_prefix_def)
  next
    case (ClaimText t)
    with Some v show ?thesis
      using handler.read_escaped [of t "c # r"] by (simp add: pick_string_def strip_prefix_def quoted_def push_json_escaped_def)
  qed
qed

lemma claim_parses:
  assumes "readable f fs" "map_of fs f = Some (ClaimNum n)"
  shows "parse_i64 (show_nat n) = Some (int n)"
proof -
  have "n < 2 ^ 63" using assms map_of_SomeD [OF assms(2)] by (auto simp: readable_def list_all_iff)
  then have "parse_uint (2 ^ 63 - 1) (show_nat n) = Some n" by (intro parse_uint_show) simp
  moreover obtain d ds where d: "show_nat n = d # ds" "48 \<le> (of_char d :: nat)" by (rule show_nat_head)
  moreover from d have "d \<noteq> CHR ''-''" by auto
  ultimately show ?thesis by (simp add: parse_i64_def)
qed

text \<open>The two checks of the times on printed claims.\<close>

lemma check_times_claims:
  assumes "readable ''exp'' fs"
  shows "check_times A (claims_json fs) = Inr u \<longleftrightarrow> (\<forall>n. map_of fs ''exp'' = Some (ClaimNum n) \<longrightarrow> now_epoch_secs A \<le> int n)"
  using pick_number_claims [OF _ assms] claim_parses [OF assms]
  by (cases "map_of fs ''exp''") (auto simp: check_times_def split: claim.splits)

lemma check_not_before_claims:
  assumes "readable ''nbf'' fs"
  shows "check_not_before A (claims_json fs) = Inr u \<longleftrightarrow> (\<forall>n. map_of fs ''nbf'' = Some (ClaimNum n) \<longrightarrow> int n \<le> now_epoch_secs A)"
  using pick_number_claims [OF _ assms] claim_parses [OF assms]
  by (cases "map_of fs ''nbf''") (auto simp: check_not_before_def split: claim.splits)

section \<open>Verification\<close>

lemma split_three:
  "split_on CHR ''.'' t = [h, p, s] \<longleftrightarrow> three_parts t h p s"
  unfolding three_parts_def
proof
  assume a: "split_on CHR ''.'' t = [h, p, s]"
  have "t = h @ CHR ''.'' # p @ CHR ''.'' # s" using join_split_on [of "CHR ''.''" t] by (simp add: a)
  with split_on_no_sep [of _ "CHR ''.''" t] a show "t = h @ CHR ''.'' # p @ CHR ''.'' # s \<and> CHR ''.'' \<notin> set h \<and> CHR ''.'' \<notin> set p \<and> CHR ''.'' \<notin> set s"
    by auto
next
  assume "t = h @ CHR ''.'' # p @ CHR ''.'' # s \<and> CHR ''.'' \<notin> set h \<and> CHR ''.'' \<notin> set p \<and> CHR ''.'' \<notin> set s"
  then show "split_on CHR ''.'' t = [h, p, s]" by (simp add: split_on_append_sep split_on_none)
qed

lemma three_parts_unique: "three_parts t h p s \<Longrightarrow> three_parts t h' p' s' \<Longrightarrow> h' = h \<and> p' = p \<and> s' = s"
  by (simp add: split_three [symmetric])

text \<open>What verification asks for, whatever the texts are.\<close>

lemma verify_iff:
  assumes "three_parts token h p s"
  shows "verify_hs256 A token (secret_from_env A) = Inr claims \<longleftrightarrow>
    signed A token \<and> b64 A p = Some claims \<and> utf8_valid claims \<and> check_times A claims = Inr () \<and> check_not_before A claims = Inr () \<and>
    (\<exists>header. b64 A h = Some header \<and> utf8_valid header \<and> pick_string header ''alg'' = Some ''HS256'')"
proof -
  have sg: "signed A token \<longleftrightarrow> (\<exists>tag. b64 A s = Some tag \<and> hmac_sha256 A (secret_from_env A) (h @ CHR ''.'' # p) = Inr tag)"
    unfolding signed_def using assms three_parts_unique [OF assms] by blast
  have "split_on CHR ''.'' token = [h, p, s]" using assms by (simp add: split_three)
  then show ?thesis unfolding verify_hs256_def sg
    by (auto simp: sbind_eq_Inr_iff ok_or_eq_Inr ensure_eq_Inr Let_def split: option.splits)
qed

lemma verify_three_parts:
  assumes "verify_hs256 A token sec = Inr claims"
  shows "\<exists>h p s. three_parts token h p s"
  using assms unfolding split_three [symmetric] by (auto simp: verify_hs256_def split: list.splits)

lemma verify_token_of:
  assumes "token_of A token hs fs"
  shows "verify_hs256 A token (secret_from_env A) = Inr claims \<longleftrightarrow> claims = claims_json fs \<and> valid A token hs fs"
proof -
  obtain h p s where t: "three_parts token h p s" "b64 A h = Some (claims_json hs)" "b64 A p = Some (claims_json fs)"
    and u: "utf8_valid (claims_json hs)" "utf8_valid (claims_json fs)"
    and r: "readable ''alg'' hs" "readable ''exp'' fs" "readable ''nbf'' fs"
    using assms by (auto simp: token_of_def)
  have "pick_string (claims_json hs) ''alg'' = Some ''HS256'' \<longleftrightarrow> map_of hs ''alg'' = Some (ClaimText ''HS256'')"
    using pick_string_claims [OF _ r(1)] by (auto split: option.splits claim.splits)
  with t u r show ?thesis
    unfolding verify_iff [OF t(1)] valid_def in_force_def
    using check_times_claims [OF r(2)] check_not_before_claims [OF r(3)] by auto
qed

section \<open>Admission\<close>

lemma ok_response_body: "ok_response claims = structured_response 200 ''application/json'' (claims_body claims)"
  by (simp add: ok_response_def claims_body_def)

lemma auth_decides:
  assumes "request_token source = Some token" "token_of A token hs fs"
  shows "if valid A token hs fs then auth_execute A source = structured_response 200 ''application/json'' (claims_body (claims_json fs))
    else (\<exists>b. auth_execute A source = structured_response 401 ''application/json'' b)"
proof (cases "verify_hs256 A token (secret_from_env A)")
  case (Inl e)
  then have "\<not> valid A token hs fs" using verify_token_of [OF assms(2)] by auto
  with Inl assms(1) show ?thesis by (auto simp: auth_execute_def error_response_def)
next
  case (Inr claims)
  with verify_token_of [OF assms(2)] have "claims = claims_json fs" "valid A token hs fs" by auto
  with Inr assms(1) show ?thesis by (simp add: auth_execute_def ok_response_body)
qed


definition toy_auth :: auth_env where
  "toy_auth = \<lparr>b64 = Some, hmac_sha256 = \<lambda>secret msg. Inr ''tag'', jwt_secret = None, now_epoch_secs = 100\<rparr>"

definition toy_token :: "string \<Rightarrow> string" where
  "toy_token claims = ''{'' @ quoted ''alg'' @ '':'' @ quoted ''HS256'' @ ''}.'' @ claims @ ''.tag''"

text \<open>A request with the token in its body.\<close>

definition toy_request :: "string \<Rightarrow> string" where
  "toy_request claims = ''{'' @ quoted ''body'' @ '':{'' @ quoted ''text'' @ '':'' @ quoted (push_json_escaped (toy_token claims)) @ ''}}''"

definition toy_claims :: string where
  "toy_claims = ''{'' @ quoted ''sub'' @ '':'' @ quoted ''ann'' @ '','' @ quoted ''exp'' @ '':101}''"

lemma toy_admitted: "request_token (toy_request toy_claims) = Some (toy_token toy_claims)"
  by code_simp

lemma toy_verify:
  assumes "CHR ''.'' \<notin> set claims" "utf8_valid claims"
  shows "verify_hs256 toy_auth (toy_token claims) sec = sbind (check_times toy_auth claims) (\<lambda>_. sbind (check_not_before toy_auth claims) (\<lambda>_. Inr claims))"
proof -
  let ?h = "''{'' @ quoted ''alg'' @ '':'' @ quoted ''HS256'' @ ''}''"
  have "split_on CHR ''.'' (toy_token claims) = [?h, claims, ''tag'']"
    unfolding split_three using assms(1) by (simp add: three_parts_def toy_token_def quoted_def)
  moreover have "pick_string ?h ''alg'' = Some ''HS256''" "utf8_valid ?h" by code_simp+
  ultimately show ?thesis
    unfolding verify_hs256_def using assms(2) by (simp add: toy_auth_def ok_or_def ensure_def)
qed

lemma toy_parse: "parse_i64 ''101'' = Some 101" "parse_i64 ''1'' = Some 1" "parse_i64 ''1e0'' = None"
  by (simp_all add: parse_i64_def parse_uint_def digit_val_def Let_def)

text \<open>The toy claims as a list, and a list whose expiry is past.\<close>

lemma toy_claims_json: "toy_claims = claims_json [(''sub'', ClaimText ''ann''), (''exp'', ClaimNum 101)]"
  by code_simp

lemma toy_token_of:
  assumes "CHR ''.'' \<notin> set (claims_json fs)" "utf8_valid (claims_json fs)" "readable ''exp'' fs" "readable ''nbf'' fs"
  shows "token_of toy_auth (toy_token (claims_json fs)) [(''alg'', ClaimText ''HS256'')] fs \<and> signed toy_auth (toy_token (claims_json fs))"
proof -
  let ?h = "''{'' @ quoted ''alg'' @ '':'' @ quoted ''HS256'' @ ''}''"
  have "?h = claims_json [(''alg'', ClaimText ''HS256'')]" "utf8_valid (claims_json [(''alg'', ClaimText ''HS256'')])" by code_simp+
  moreover have "readable ''alg'' [(''alg'', ClaimText ''HS256'')]" by (auto simp: readable_def dest: mimics_last)
  moreover have "three_parts (toy_token (claims_json fs)) ?h (claims_json fs) ''tag''"
    using assms(1) by (simp add: three_parts_def toy_token_def quoted_def)
  ultimately show ?thesis using assms(2-4) unfolding token_of_def signed_def by (auto simp: toy_auth_def)
qed

lemma toy_issued: "token_of toy_auth (toy_token toy_claims) [(''alg'', ClaimText ''HS256'')] [(''sub'', ClaimText ''ann''), (''exp'', ClaimNum 101)]"
  "signed toy_auth (toy_token toy_claims)"
proof -
  have "CHR ''.'' \<notin> set toy_claims" "utf8_valid toy_claims" by code_simp+
  moreover have "readable f [(''sub'', ClaimText ''ann''), (''exp'', ClaimNum 101)]" if "f \<in> {''exp'', ''nbf''}" for f
    using that by (auto simp: readable_def plain_field_def dest: mimics_last)
  ultimately show "token_of toy_auth (toy_token toy_claims) [(''alg'', ClaimText ''HS256'')] [(''sub'', ClaimText ''ann''), (''exp'', ClaimNum 101)]"
    "signed toy_auth (toy_token toy_claims)" using toy_token_of unfolding toy_claims_json by blast+
qed


text \<open>The reader takes the first quoted \<open>exp\<close> it meets. A claim whose value is that word hides the expiry that follows
  it, and an expiry written with an exponent is no integer literal: both tokens expired in the past and are admitted.\<close>

definition hidden_expiry :: string where
  "hidden_expiry = ''{'' @ quoted ''sub'' @ '':'' @ quoted ''exp'' @ '','' @ quoted ''exp'' @ '':1}''"

definition exponent_expiry :: string where
  "exponent_expiry = ''{'' @ quoted ''exp'' @ '':1e0}''"

definition plain_expiry :: string where
  "plain_expiry = ''{'' @ quoted ''exp'' @ '':1}''"

lemma expired_tokens_admitted:
  "verify_hs256 toy_auth (toy_token hidden_expiry) sec = Inr hidden_expiry"
  "verify_hs256 toy_auth (toy_token exponent_expiry) sec = Inr exponent_expiry"
  "verify_hs256 toy_auth (toy_token plain_expiry) sec = Inl ''expired''"
proof -
  have dots: "CHR ''.'' \<notin> set hidden_expiry" "CHR ''.'' \<notin> set exponent_expiry" "CHR ''.'' \<notin> set plain_expiry"
    and utf8: "utf8_valid hidden_expiry" "utf8_valid exponent_expiry" "utf8_valid plain_expiry"
    and ex: "pick_number hidden_expiry ''exp'' = None" "pick_number exponent_expiry ''exp'' = Some ''1e0''" "pick_number plain_expiry ''exp'' = Some ''1''"
    and nbf: "pick_number hidden_expiry ''nbf'' = None" "pick_number exponent_expiry ''nbf'' = None" "pick_number plain_expiry ''nbf'' = None"
    by code_simp+
  note defs = check_times_def check_not_before_def toy_parse ex nbf
  show "verify_hs256 toy_auth (toy_token hidden_expiry) sec = Inr hidden_expiry"
    using dots(1) utf8(1) by (simp add: toy_verify defs)
  show "verify_hs256 toy_auth (toy_token exponent_expiry) sec = Inr exponent_expiry"
    using dots(2) utf8(2) by (simp add: toy_verify defs)
  show "verify_hs256 toy_auth (toy_token plain_expiry) sec = Inl ''expired''"
    using dots(3) utf8(3) by (simp add: toy_verify defs) (simp add: toy_auth_def)
qed

end
