(* ===== verification/Httpd_Db.thy ===== *)
theory Httpd_Db
  imports Handler_Json
begin

text \<open>
  \<^verbatim>\<open>sqlink-httpd/src/db.rs\<close> and the JSON values the server works with. A row is read cell by cell into
  \<open>serde_json::Value\<close>; parameters are bound from such values. The database engine is a parameter: a
  statement runs on a state and yields columns and cells, or a message.

  \<open>serde_json\<close> keeps an object as a B-tree map: the model is a list sorted by key. Its printer
  and parser are parameters.
\<close>

section \<open>JSON values\<close>

datatype json =
    JNull
  | JBool bool
  | JInt int
  | JFloat "64 word"
  | JStr string
  | JArr "json list"
  | JObj "(string \<times> json) list"

record serde =
  json_text :: "json \<Rightarrow> string"
  json_parse :: "string \<Rightarrow> json option"

fun as_str :: "json \<Rightarrow> string option" where
  "as_str (JStr s) = Some s"
| "as_str _ = None"

fun json_as_i64 :: "json \<Rightarrow> int option" where
  "json_as_i64 (JInt i) = (if i64_range i then Some i else None)"
| "json_as_i64 _ = None"

fun json_as_u64 :: "json \<Rightarrow> nat option" where
  "json_as_u64 (JInt i) = (if 0 \<le> i then Some (nat i) else None)"
| "json_as_u64 _ = None"

text \<open>\<open>Map::insert\<close> and \<open>Map::get\<close>.\<close>

fun obj_insert :: "string \<Rightarrow> json \<Rightarrow> (string \<times> json) list \<Rightarrow> (string \<times> json) list" where
  "obj_insert k v [] = [(k, v)]"
| "obj_insert k v ((k', v') # kvs) =
     (if k = k' then (k, v) # kvs else if k < k' then (k, v) # (k', v') # kvs else (k', v') # obj_insert k v kvs)"

definition obj_of :: "(string \<times> json) list \<Rightarrow> json" where
  "obj_of kvs = JObj (foldl (\<lambda>fs (k, v). obj_insert k v fs) [] kvs)"

lemma map_of_obj_insert: "map_of (obj_insert k v fs) = (map_of fs)(k \<mapsto> v)"
  by (induction k v fs rule: obj_insert.induct) auto

lemma keys_obj_insert: "fst ` set (obj_insert k v fs) = insert k (fst ` set fs)"
  by (induction k v fs rule: obj_insert.induct) auto

lemma sorted_obj_insert: "sorted_wrt (<) (map fst fs) \<Longrightarrow> sorted_wrt (<) (map fst (obj_insert k v fs))"
proof (induction k v fs rule: obj_insert.induct)
  case (2 k v k' v' kvs)
  have "set (map fst (obj_insert k v kvs)) = insert k (set (map fst kvs))" using keys_obj_insert [of k v kvs] by simp
  with 2 show ?case by (auto simp del: set_map)
qed simp

text \<open>An object built field by field maps every key to its last value, and its keys are in order.\<close>

lemma map_of_foldl_insert:
  "map_of (foldl (\<lambda>fs (k, v). obj_insert k v fs) fs kvs) = map_of fs ++ map_of (rev kvs)"
  by (induction kvs arbitrary: fs) (auto simp: map_of_obj_insert fun_eq_iff map_add_def split: option.splits)

section \<open>Cells\<close>

datatype cell = CNull | CInteger int | CFloat "64 word" | CText string | CBlob string

definition is_finite :: "64 word \<Rightarrow> bool" where
  "is_finite f \<longleftrightarrow> (unat f div 2 ^ 52) mod 2048 \<noteq> 2047"

definition hex_of :: "string \<Rightarrow> string" where
  "hex_of b = concat (map (\<lambda>c. [hex_digit (of_char c div 16), hex_digit (of_char c mod 16)]) b)"

definition column_value :: "cell \<Rightarrow> json" where
  "column_value c =
     (case c of
        CNull \<Rightarrow> JNull
      | CInteger i \<Rightarrow> JInt i
      | CFloat f \<Rightarrow> if is_finite f then JFloat f else JNull
      | CText s \<Rightarrow> JStr (from_utf8_lossy s)
      | CBlob b \<Rightarrow> JStr (hex_of b))"

text \<open>\<open>Number::as_i64\<close> fails above \<open>i64::MAX\<close>, where \<open>as_f64\<close> rounds: \<open>to_f64\<close>.\<close>

definition bind_value :: "serde \<Rightarrow> (int \<Rightarrow> 64 word) \<Rightarrow> json \<Rightarrow> cell" where
  "bind_value S to_f64 v =
     (case v of
        JNull \<Rightarrow> CNull
      | JBool b \<Rightarrow> CInteger (if b then 1 else 0)
      | JInt i \<Rightarrow> if i64_range i then CInteger i else CFloat (to_f64 i)
      | JFloat f \<Rightarrow> CFloat f
      | JStr s \<Rightarrow> CText s
      | JArr _ \<Rightarrow> CText (json_text S v)
      | JObj _ \<Rightarrow> CText (json_text S v))"

section \<open>Statements\<close>

text \<open>The engine runs a statement with its bound parameters on a state, to the end or to its first row; it renders
  numbers as text.\<close>

record 'd engine =
  e_run :: "string \<Rightarrow> (string \<times> cell) list \<Rightarrow> 'd \<Rightarrow> (string + string list \<times> cell list list) \<times> 'd"
  e_first :: "string \<Rightarrow> (string \<times> cell) list \<Rightarrow> 'd \<Rightarrow> (string + cell option) \<times> 'd"
  e_num_text :: "cell \<Rightarrow> string"
  e_to_f64 :: "int \<Rightarrow> 64 word"

text \<open>\<open>CString::new\<close> refuses an interior NUL.\<close>

definition nul_error :: string where
  "nul_error = ''nul byte found in provided data''"

definition bind_params :: "serde \<Rightarrow> 'd engine \<Rightarrow> (string \<times> json) list \<Rightarrow> (string \<times> cell) list" where
  "bind_params S E params = map (\<lambda>(n, v). (n, bind_value S (e_to_f64 E) v)) params"

definition query_named :: "serde \<Rightarrow> 'd engine \<Rightarrow> string \<Rightarrow> (string \<times> json) list \<Rightarrow>
    (string, 'd, string list \<times> json list list) op" where
  "query_named S E sql params d =
     (if CHR 0x00 \<in> set sql then (Inl nul_error, d)
      else case e_run E sql (bind_params S E params) d of
        (Inl msg, d') \<Rightarrow> (Inl msg, d')
      | (Inr (cols, rows), d') \<Rightarrow> (Inr (map from_utf8_lossy cols, map (map column_value) rows), d'))"

definition query_all :: "serde \<Rightarrow> 'd engine \<Rightarrow> string \<Rightarrow> (string, 'd, string list \<times> json list list) op" where
  "query_all S E sql d =
     (if CHR 0x00 \<in> set sql then (Inl nul_error, d)
      else case e_run E sql [] d of
        (Inl msg, d') \<Rightarrow> (Inl msg, d')
      | (Inr (cols, rows), d') \<Rightarrow> (Inr (map from_utf8_lossy cols, map (map column_value) rows), d'))"

definition blob_bytes :: "'d engine \<Rightarrow> cell \<Rightarrow> string" where
  "blob_bytes E c = (case c of CNull \<Rightarrow> [] | CBlob b \<Rightarrow> b | CText s \<Rightarrow> s | _ \<Rightarrow> e_num_text E c)"

definition query_blob_named :: "serde \<Rightarrow> 'd engine \<Rightarrow> string \<Rightarrow> (string \<times> json) list \<Rightarrow> (string, 'd, string option) op" where
  "query_blob_named S E sql params d =
     (if CHR 0x00 \<in> set sql then (Inl nul_error, d)
      else case e_first E sql (bind_params S E params) d of
        (Inl msg, d') \<Rightarrow> (Inl msg, d')
      | (Inr c, d') \<Rightarrow> (Inr (map_option (blob_bytes E) c), d'))"

section \<open>Values across the boundary\<close>

text \<open>What is bound and selected again is what was bound, for the values a request is made of.\<close>

lemma bind_column_roundtrip:
  "column_value (bind_value S f JNull) = JNull"
  "utf8_valid s \<Longrightarrow> column_value (bind_value S f (JStr s)) = JStr s"
  "i64_range i \<Longrightarrow> column_value (bind_value S f (JInt i)) = JInt i"
  by (simp_all add: column_value_def bind_value_def from_utf8_lossy_valid)

end
