(* ===== verification/Httpd_Router.thy ===== *)
theory Httpd_Router
  imports Httpd_Db
begin

text \<open>
  \<^verbatim>\<open>sqlink-httpd/src/router.rs\<close>, \<^verbatim>\<open>routes.rs\<close>, \<^verbatim>\<open>wasm.rs\<close> and the argument parsers of \<^verbatim>\<open>main.rs\<close>: how a
  request finds its handler and how a handler's result becomes a response.

  Routes live in a table; \<open>lookup\<close> is its query, with the \<open>GLOB\<close> operator a parameter. Rows hold values of the
  declared types (text, possibly null integers). Building a response fails on a header value the HTTP library
  refuses; where the source unwraps such a failure the model yields \<open>None\<close>, a panic that ends the request.
  The lock of the connection can be poisoned.
\<close>

section \<open>Responses\<close>

record http_lib =
  status_ok :: "nat \<Rightarrow> bool"
  header_ok :: "string \<Rightarrow> bool"

record response =
  r_status :: nat
  r_headers :: "(string \<times> string) list"
  r_body :: string

definition from_u16 :: "http_lib \<Rightarrow> nat \<Rightarrow> nat option" where
  "from_u16 L n = (if status_ok L n then Some n else None)"

text \<open>\<open>i64 as u16\<close>.\<close>

definition as_u16 :: "int \<Rightarrow> nat" where
  "as_u16 i = nat (i mod 65536)"

definition build :: "http_lib \<Rightarrow> nat \<Rightarrow> (string \<times> string) list \<Rightarrow> string \<Rightarrow> response option" where
  "build L status headers body =
     (if list_all (\<lambda>(n, v). header_ok L v) headers then Some \<lparr>r_status = status, r_headers = headers, r_body = body\<rparr> else None)"

definition text_response :: "http_lib \<Rightarrow> nat \<Rightarrow> string \<Rightarrow> response option" where
  "text_response L status body = build L status [(''content-type'', ''text/plain; charset=utf-8'')] body"

definition or_build_error :: "http_lib \<Rightarrow> response option \<Rightarrow> response option" where
  "or_build_error L r = (case r of Some x \<Rightarrow> Some x | None \<Rightarrow> text_response L 500 ''build resp'')"

definition cors :: "string \<times> string" where
  "cors = (''access-control-allow-origin'', ''*'')"

definition ctype_or :: "string option \<Rightarrow> string \<Rightarrow> string" where
  "ctype_or c d = (case c of Some x \<Rightarrow> x | None \<Rightarrow> d)"

definition json_response :: "serde \<Rightarrow> http_lib \<Rightarrow> nat \<Rightarrow> json \<Rightarrow> string option \<Rightarrow> response option" where
  "json_response S L status payload ctype =
     build L status [(''content-type'', ctype_or ctype ''application/json''), cors] (json_text S payload)"

section \<open>Routes\<close>

datatype route_kind = KSql | KStatic | KWasm | KBlob

definition route_kind_parse :: "string \<Rightarrow> route_kind" where
  "route_kind_parse s =
     (let l = to_ascii_lowercase s in
      if l = ''static'' then KStatic else if l = ''wasm'' then KWasm else if l = ''blob'' then KBlob else KSql)"

record route_match =
  m_kind :: route_kind
  m_handler :: string
  m_status :: int
  m_ctype :: "string option"

record route_row =
  rt_method :: string
  rt_pattern :: string
  rt_handler :: cell
  rt_status :: cell
  rt_ctype :: cell
  rt_kind :: cell
  rt_priority :: "int option"

record routes_table =
  rt_has_kind :: bool
  rt_rows :: "route_row list"

text \<open>\<open>length(pattern)\<close> counts characters. \<open>priority DESC\<close> puts nulls last.\<close>

definition char_count :: "string \<Rightarrow> nat" where
  "char_count s = length (filter (\<lambda>c. \<not> cont_in 0x80 0xBF c) s)"

definition route_rank :: "route_row \<Rightarrow> int list" where
  "route_rank r = (case rt_priority r of None \<Rightarrow> [1, 0] | Some p \<Rightarrow> [0, - p]) @ [- int (char_count (rt_pattern r))]"

definition route_applies :: "(string \<Rightarrow> string \<Rightarrow> bool) \<Rightarrow> string \<Rightarrow> string \<Rightarrow> route_row \<Rightarrow> bool" where
  "route_applies glob meth path r \<longleftrightarrow> (rt_method r = meth \<or> rt_method r = ''*'') \<and> glob (rt_pattern r) path"

definition coalesce :: "cell \<Rightarrow> cell \<Rightarrow> cell" where
  "coalesce c d = (if c = CNull then d else c)"

definition best_route_sel :: "(string \<Rightarrow> string \<Rightarrow> bool) \<Rightarrow> string \<Rightarrow> string \<Rightarrow> routes_table \<Rightarrow> json list list" where
  "best_route_sel glob meth path t =
     (case first_by route_rank (filter (route_applies glob meth path) (rt_rows t)) of
        None \<Rightarrow> []
      | Some r \<Rightarrow>
          [map column_value ([rt_handler r, coalesce (rt_status r) (CInteger 200), rt_ctype r] @
             (if rt_has_kind t then [coalesce (rt_kind r) (CText ''sql'')] else []))])"

definition nth_cell :: "json list \<Rightarrow> nat \<Rightarrow> json option" where
  "nth_cell row i = (if i < length row then Some (row ! i) else None)"

definition row_match :: "json list \<Rightarrow> route_match" where
  "row_match row =
     \<lparr>m_kind = (case Option.bind (nth_cell row 3) as_str of Some k \<Rightarrow> route_kind_parse k | None \<Rightarrow> KSql),
      m_handler = (case Option.bind (nth_cell row 0) as_str of Some h \<Rightarrow> h | None \<Rightarrow> []),
      m_status = (case Option.bind (nth_cell row 1) json_as_i64 of Some i \<Rightarrow> i | None \<Rightarrow> 200),
      m_ctype = Option.bind (nth_cell row 2) as_str\<rparr>"

text \<open>\<open>char::is_alphanumeric\<close> outside ASCII is the parameter \<open>alnum\<close>, on the bytes of one character.\<close>

definition ascii_alnum :: "char \<Rightarrow> bool" where
  "ascii_alnum c = (let v = (of_char c :: nat) in 48 \<le> v \<and> v \<le> 57 \<or> 65 \<le> v \<and> v \<le> 90 \<or> 97 \<le> v \<and> v \<le> 122)"

function ident_chars :: "(string \<Rightarrow> bool) \<Rightarrow> string \<Rightarrow> bool" where
  "ident_chars alnum [] = True"
| "ident_chars alnum (c # cs) =
     ((if of_char c < (128 :: nat) then ascii_alnum c \<or> c = CHR ''_'' else alnum (c # take (char_len c - 1) cs)) \<and>
      ident_chars alnum (drop (char_len c - 1) cs))"
  by pat_completeness auto
termination by (relation "measure (length \<circ> snd)") auto

declare ident_chars.simps(2) [simp del]

definition is_safe_ident :: "(string \<Rightarrow> bool) \<Rightarrow> string \<Rightarrow> bool" where
  "is_safe_ident alnum s \<longleftrightarrow> s \<noteq> [] \<and> ident_chars alnum s"

section \<open>The server's state\<close>

text \<open>The connection behind its mutex. A poisoned mutex is an input: the guard is only held during a call into the
  engine, which is a parameter that returns, and is released before a response is built, so no operation modelled
  here poisons it.\<close>

record 'd server =
  poisoned :: bool
  db_state :: 'd

record 'd server_env =
  sv_serde :: serde
  sv_http :: http_lib
  sv_engine :: "'d engine"
  sv_routes :: "'d \<Rightarrow> string \<Rightarrow> routes_table option"
  sv_glob :: "string \<Rightarrow> string \<Rightarrow> bool"
  sv_alnum :: "string \<Rightarrow> bool"
  sv_url_decode :: "string \<Rightarrow> string option"
  sv_routes_table :: string

definition lookup :: "'d server_env \<Rightarrow> string \<Rightarrow> string \<Rightarrow> 'd server \<Rightarrow> string + route_match option" where
  "lookup V meth path s =
     (if poisoned s then Inl ''conn lock''
      else if \<not> is_safe_ident (sv_alnum V) (sv_routes_table V) then Inl ''bad routes table name''
      else case sv_routes V (db_state s) (sv_routes_table V) of
        None \<Rightarrow> Inl ''no such table''
      | Some t \<Rightarrow>
          (case best_route_sel (sv_glob V) meth path t of
             [] \<Rightarrow> Inr None
           | row # _ \<Rightarrow> Inr (if m_handler (row_match row) = [] then None else Some (row_match row))))"

section \<open>Running a matched route\<close>

record request =
  q_method :: string
  q_path :: string
  q_query :: "string option"
  q_headers :: "(string \<times> string option) list"
  q_body :: "string + string"
  q_remote :: string

record wasm_response =
  w_status :: nat
  w_body :: string
  w_ctype :: "string option"

type_synonym wasm_dispatcher = "string \<Rightarrow> string \<Rightarrow> string + wasm_response"

definition opt_json :: "string option \<Rightarrow> json" where
  "opt_json x = (case x of Some s \<Rightarrow> JStr s | None \<Rightarrow> JNull)"

definition request_params :: "request \<Rightarrow> string \<Rightarrow> (string \<times> json) list" where
  "request_params q body =
     [(''method'', JStr (q_method q)), (''path'', JStr (q_path q)), (''query'', opt_json (q_query q)),
      (''body'', if utf8_valid body then JStr body else JNull), (''remote'', JStr (q_remote q))]"

definition matched_status :: "http_lib \<Rightarrow> route_match \<Rightarrow> nat" where
  "matched_status L m = (case from_u16 L (as_u16 (m_status m)) of Some st \<Rightarrow> st | None \<Rightarrow> 200)"

definition execute_static :: "'d server_env \<Rightarrow> route_match \<Rightarrow> response option" where
  "execute_static V m =
     or_build_error (sv_http V) (build (sv_http V) (matched_status (sv_http V) m)
       [(''content-type'', ctype_or (m_ctype m) ''text/plain; charset=utf-8''), cors] (m_handler m))"

definition error_json :: "'d server_env \<Rightarrow> nat \<Rightarrow> (string \<times> json) list \<Rightarrow> response option" where
  "error_json V status kvs = json_response (sv_serde V) (sv_http V) status (obj_of kvs) None"

definition execute_blob :: "'d server_env \<Rightarrow> route_match \<Rightarrow> request \<Rightarrow> string \<Rightarrow> 'd server \<Rightarrow> response option \<times> 'd server" where
  "execute_blob V m q body s =
     (if poisoned s then (text_response (sv_http V) 500 ''conn poisoned'', s)
      else case query_blob_named (sv_serde V) (sv_engine V) (m_handler m) (request_params q body) (db_state s) of
        (r, d) \<Rightarrow>
          ((case r of
              Inr (Some b) \<Rightarrow>
                or_build_error (sv_http V) (build (sv_http V) (matched_status (sv_http V) m)
                  [(''content-type'', ctype_or (m_ctype m) ''application/octet-stream''), cors,
                   (''cache-control'', ''public, max-age=31536000, immutable'')] b)
            | Inr None \<Rightarrow> or_build_error (sv_http V) (build (sv_http V) 404 [(''content-type'', ''text/plain'')] ''not found'')
            | Inl e \<Rightarrow> error_json V 500 [(''error'', JStr e)]),
           s\<lparr>db_state := d\<rparr>))"

text \<open>The request as a component receives it.\<close>

definition body_field :: "string \<Rightarrow> json" where
  "body_field body = (if utf8_valid body then obj_of [(''text'', JStr body)] else obj_of [(''bytes_hex'', JStr (hex_of body))])"

definition request_json :: "request \<Rightarrow> (string \<times> string) list \<Rightarrow> string \<Rightarrow> json" where
  "request_json q headers body =
     obj_of [(''method'', JStr (q_method q)), (''path'', JStr (q_path q)), (''query'', opt_json (q_query q)),
       (''remote'', JStr (q_remote q)), (''headers'', obj_of (map (\<lambda>(k, v). (k, JStr v)) headers)), (''body'', body_field body)]"

definition execute_wasm :: "'d server_env \<Rightarrow> route_match \<Rightarrow> request \<Rightarrow> (string \<times> string) list \<Rightarrow> string \<Rightarrow> wasm_dispatcher option \<Rightarrow>
    response option" where
  "execute_wasm V m q headers body wasm =
     (case wasm of
        None \<Rightarrow> error_json V 500
          [(''error'', JStr ''wasm route hit but no components loaded (pass --load NAME=PATH to enable)''), (''handler'', JStr (m_handler m))]
      | Some dispatch \<Rightarrow>
          (case dispatch (m_handler m) (json_text (sv_serde V) (request_json q headers body)) of
             Inr resp \<Rightarrow>
               or_build_error (sv_http V) (build (sv_http V) (case from_u16 (sv_http V) (w_status resp) of Some st \<Rightarrow> st | None \<Rightarrow> 200)
                 [(''content-type'', case w_ctype resp of Some c \<Rightarrow> c | None \<Rightarrow> ctype_or (m_ctype m) ''application/json''), cors]
                 (w_body resp))
           | Inl e \<Rightarrow> error_json V 500 [(''error'', JStr (''wasm dispatch '' @ m_handler m @ '': '' @ e))]))"

fun position :: "string \<Rightarrow> string list \<Rightarrow> nat option" where
  "position n [] = None"
| "position n (c # cs) = (if c = n then Some 0 else map_option Suc (position n cs))"

definition value_bytes :: "serde \<Rightarrow> json option \<Rightarrow> string" where
  "value_bytes S v = (case v of None \<Rightarrow> [] | Some JNull \<Rightarrow> [] | Some (JStr s) \<Rightarrow> s | Some other \<Rightarrow> json_text S other)"

definition row_object :: "string list \<Rightarrow> json list \<Rightarrow> json" where
  "row_object cols row = obj_of (map (\<lambda>(i, c). (c, case nth_cell row i of Some v \<Rightarrow> v | None \<Rightarrow> JNull)) (enumerate 0 cols))"

definition meta_response :: "'d server_env \<Rightarrow> route_match \<Rightarrow> json list \<Rightarrow> nat option \<Rightarrow> nat option \<Rightarrow> nat option \<Rightarrow> response option" where
  "meta_response V m row body_idx status_idx ctype_idx =
     (let L = sv_http V;
          status = (case Option.bind status_idx (\<lambda>i. Option.bind (nth_cell row i) json_as_i64) of
                      Some st \<Rightarrow> (case from_u16 L (as_u16 st) of Some x \<Rightarrow> x | None \<Rightarrow> matched_status L m)
                    | None \<Rightarrow> matched_status L m);
          ctype = (case Option.bind ctype_idx (\<lambda>i. Option.bind (nth_cell row i) as_str) of Some c \<Rightarrow> Some c | None \<Rightarrow> m_ctype m)
      in or_build_error L (build L status [(''content-type'', ctype_or ctype ''application/json''), cors]
           (value_bytes (sv_serde V) (Option.bind body_idx (nth_cell row)))))"

definition build_response :: "'d server_env \<Rightarrow> route_match \<Rightarrow> string list \<Rightarrow> json list list \<Rightarrow> response option" where
  "build_response V m cols rows =
     (let L = sv_http V; S = sv_serde V in
      case rows of
        [] \<Rightarrow> or_build_error L (build L 204 [(''content-type'', ctype_or (m_ctype m) ''application/json'')] [])
      | [row] \<Rightarrow>
          (let body_idx = position ''body'' cols; status_idx = position ''status'' cols;
               ctype_idx = (case position ''ctype'' cols of Some i \<Rightarrow> Some i | None \<Rightarrow> position ''content_type'' cols)
           in if body_idx \<noteq> None \<or> status_idx \<noteq> None \<or> ctype_idx \<noteq> None then meta_response V m row body_idx status_idx ctype_idx
              else if length cols = 1 then
                (case row of
                   [] \<Rightarrow> None
                 | v # _ \<Rightarrow>
                     or_build_error L (build L (matched_status L m) [(''content-type'', ctype_or (m_ctype m) ''application/json''), cors]
                       (value_bytes S (Some v))))
              else json_response S L (matched_status L m) (row_object cols row) (m_ctype m))
      | _ \<Rightarrow> json_response S L (matched_status L m) (JArr (map (row_object cols) rows)) (m_ctype m))"

definition execute_sql :: "'d server_env \<Rightarrow> route_match \<Rightarrow> request \<Rightarrow> string \<Rightarrow> 'd server \<Rightarrow> response option \<times> 'd server" where
  "execute_sql V m q body s =
     (if poisoned s then (text_response (sv_http V) 500 ''conn poisoned'', s)
      else case query_named (sv_serde V) (sv_engine V) (m_handler m) (request_params q body) (db_state s) of
        (r, d) \<Rightarrow>
          ((case r of
              Inr (cols, rows) \<Rightarrow> build_response V m cols rows
            | Inl e \<Rightarrow> error_json V 500 [(''error'', JStr e)]),
           s\<lparr>db_state := d\<rparr>))"

definition execute :: "'d server_env \<Rightarrow> route_match \<Rightarrow> request \<Rightarrow> (string \<times> string) list \<Rightarrow> string \<Rightarrow> wasm_dispatcher option \<Rightarrow> 'd server \<Rightarrow>
    response option \<times> 'd server" where
  "execute V m q headers body wasm s =
     (case m_kind m of
        KStatic \<Rightarrow> (execute_static V m, s)
      | KWasm \<Rightarrow> (execute_wasm V m q headers body wasm, s)
      | KSql \<Rightarrow> execute_sql V m q body s
      | KBlob \<Rightarrow> execute_blob V m q body s)"

section \<open>Requests\<close>

text \<open>The responses of \<^verbatim>\<open>routes.rs\<close> fall back to an empty one, which has no header to refuse.\<close>

definition or_empty_response :: "nat \<Rightarrow> response option \<Rightarrow> response" where
  "or_empty_response status r = (case r of Some x \<Rightarrow> x | None \<Rightarrow> \<lparr>r_status = status, r_headers = [], r_body = []\<rparr>)"

definition plain_response :: "http_lib \<Rightarrow> nat \<Rightarrow> string \<Rightarrow> response" where
  "plain_response L status body = or_empty_response 500 (build L status [(''content-type'', ''text/plain; charset=utf-8'')] body)"

definition payload_response :: "serde \<Rightarrow> http_lib \<Rightarrow> nat \<Rightarrow> json \<Rightarrow> response" where
  "payload_response S L status payload =
     or_empty_response 500 (build L status [(''content-type'', ''application/json''), cors] (json_text S payload))"

definition err_response :: "serde \<Rightarrow> http_lib \<Rightarrow> nat \<Rightarrow> string \<Rightarrow> response" where
  "err_response S L status msg =
     or_empty_response status (build L status [(''content-type'', ''application/json''), cors] (json_text S (obj_of [(''error'', JStr msg)])))"

fun parse_q_pairs :: "(string \<Rightarrow> string option) \<Rightarrow> string list \<Rightarrow> string option" where
  "parse_q_pairs dec [] = None"
| "parse_q_pairs dec (pair # pairs) =
     (case split_once CHR ''='' pair of
        Some (k, v) \<Rightarrow> if k = ''q'' then dec v else parse_q_pairs dec pairs
      | None \<Rightarrow> if pair = ''q'' then None else parse_q_pairs dec pairs)"

definition parse_q :: "(string \<Rightarrow> string option) \<Rightarrow> string \<Rightarrow> string option" where
  "parse_q dec q = parse_q_pairs dec (split_on CHR ''&'' q)"

text \<open>\<open>SqlResult\<close>: a struct prints its fields in their order.\<close>

definition sql_result :: "string list \<Rightarrow> json list list \<Rightarrow> json" where
  "sql_result cols rows =
     JObj [(''columns'', JArr (map JStr cols)), (''rows'', JArr (map JArr rows)), (''rowcount'', JInt (int (length rows)))]"

definition run_sql :: "'d server_env \<Rightarrow> string \<Rightarrow> (string, 'd server, response) op" where
  "run_sql V sql s =
     (if poisoned s then (Inl ''conn lock'', s)
      else case query_all (sv_serde V) (sv_engine V) sql (db_state s) of
        (r, d) \<Rightarrow>
          (Inr (case r of
                  Inr (cols, rows) \<Rightarrow> payload_response (sv_serde V) (sv_http V) 200 (sql_result cols rows)
                | Inl e \<Rightarrow> err_response (sv_serde V) (sv_http V) 422 e),
           s\<lparr>db_state := d\<rparr>))"

definition LIST_TABLES :: string where
  "LIST_TABLES = ''SELECT name FROM sqlite_master WHERE type='' @ [CHR 0x27] @ ''table'' @ [CHR 0x27] @
     '' AND name NOT LIKE '' @ [CHR 0x27] @ ''sqlite_%'' @ [CHR 0x27] @ '' ORDER BY name''"

definition list_tables :: "'d server_env \<Rightarrow> (string, 'd server, response) op" where
  "list_tables V = run_sql V LIST_TABLES"

definition schema :: "'d server_env \<Rightarrow> string \<Rightarrow> (string, 'd server, response) op" where
  "schema V table s =
     (if table = [] \<or> \<not> ident_chars (sv_alnum V) table then (Inr (err_response (sv_serde V) (sv_http V) 400 ''bad table name''), s)
      else run_sql V (''PRAGMA table_info('' @ table @ '')'') s)"

definition builtin :: "string \<Rightarrow> string \<Rightarrow> bool" where
  "builtin meth path \<longleftrightarrow>
     (meth, path) \<in> {(''GET'', ''/health''), (''GET'', ''/sql''), (''POST'', ''/sql''), (''GET'', ''/tables'')} \<or> starts_with path ''/schema/''"

definition builtin_result :: "'d server_env \<Rightarrow> request \<Rightarrow> (string, 'd server, response) op" where
  "builtin_result V q s =
     (let S = sv_serde V; L = sv_http V in
      if q_method q = ''GET'' \<and> q_path q = ''/health'' then (Inr (plain_response L 200 ''ok''), s)
      else if q_method q = ''GET'' \<and> q_path q = ''/tables'' then list_tables V s
      else if q_method q = ''GET'' \<and> starts_with (q_path q) ''/schema/'' then schema V (drop 8 (q_path q)) s
      else if q_method q = ''POST'' \<and> q_path q = ''/sql'' then
        (case q_body q of
           Inl e \<Rightarrow> (Inr (err_response S L 400 e), s)
         | Inr b \<Rightarrow> if utf8_valid b then run_sql V b s else (Inr (err_response S L 400 ''body not UTF-8''), s))
      else if q_method q = ''GET'' \<and> q_path q = ''/sql'' then
        (case Option.bind (q_query q) (parse_q (sv_url_decode V)) of
           Some sql \<Rightarrow> run_sql V sql s
         | None \<Rightarrow> (Inr (err_response S L 400 ''missing q parameter''), s))
      else (Inr (err_response S L 404 ''no such route''), s))"

definition request_headers :: "request \<Rightarrow> (string \<times> string) list" where
  "request_headers q = List.map_filter (\<lambda>(k, v). map_option (Pair k) v) (q_headers q)"

definition handle :: "'d server_env \<Rightarrow> wasm_dispatcher option \<Rightarrow> request \<Rightarrow> 'd server \<Rightarrow> response option \<times> 'd server" where
  "handle V wasm q s =
     (case (if builtin (q_method q) (q_path q) then Inr None else lookup V (q_method q) (q_path q) s) of
        Inr (Some m) \<Rightarrow>
          (case q_body q of
             Inl e \<Rightarrow> (Some (err_response (sv_serde V) (sv_http V) 400 e), s)
           | Inr body \<Rightarrow> execute V m q (request_headers q) body wasm s)
      | _ \<Rightarrow>
          (case builtin_result V q s of
             (Inr r, s') \<Rightarrow> (Some r, s')
           | (Inl e, s') \<Rightarrow> (Some (err_response (sv_serde V) (sv_http V) 500 e), s')))"

section \<open>Components as handlers\<close>

text \<open>\<open>HostDispatcher::dispatch\<close>, with the invocation of a component as a parameter.\<close>

definition read_answer :: "serde \<Rightarrow> string \<Rightarrow> wasm_response" where
  "read_answer S result =
     (case json_parse S result of
        Some (JObj obj) \<Rightarrow>
          \<lparr>w_status = (case Option.bind (map_of obj ''status'') json_as_u64 of Some n \<Rightarrow> n mod 65536 | None \<Rightarrow> 200),
           w_body = (case map_of obj ''body'' of Some (JStr s) \<Rightarrow> s | Some other \<Rightarrow> json_text S other | None \<Rightarrow> []),
           w_ctype = Option.bind (map_of obj ''ctype'') as_str\<rparr>
      | _ \<Rightarrow> \<lparr>w_status = 200, w_body = result, w_ctype = None\<rparr>)"

definition dispatch :: "serde \<Rightarrow> (string \<Rightarrow> string \<Rightarrow> string + string) \<Rightarrow> wasm_dispatcher" where
  "dispatch S invoke name request_data =
     (if \<not> utf8_valid request_data then Inl ''request json''
      else sbind (invoke name request_data) (\<lambda>result. Inr (read_answer S result)))"

section \<open>Every response is one the HTTP library accepts\<close>

text \<open>What is documented of the library: the codes and the header values the server writes itself are accepted.\<close>

definition http_ok :: "http_lib \<Rightarrow> bool" where
  "http_ok L \<longleftrightarrow> list_all (status_ok L) [200, 204, 400, 404, 422, 500] \<and>
     list_all (header_ok L) [''application/json'', ''text/plain; charset=utf-8'', ''text/plain'', ''application/octet-stream'', ''*'',
       ''public, max-age=31536000, immutable'']"

text \<open>What is documented of the engine: a row has one cell per column.\<close>

definition rows_ok :: "'d engine \<Rightarrow> bool" where
  "rows_ok E \<longleftrightarrow> (\<forall>sql ps d cols rows d'. e_run E sql ps d = (Inr (cols, rows), d') \<longrightarrow> (\<forall>row \<in> set rows. length row = length cols))"

definition good_response :: "http_lib \<Rightarrow> response \<Rightarrow> bool" where
  "good_response L r \<longleftrightarrow> status_ok L (r_status r) \<and> list_all (\<lambda>(n, v). header_ok L v) (r_headers r)"

text \<open>A good response or a panic; \<open>sure\<close> excludes the panic.\<close>

definition good :: "http_lib \<Rightarrow> response option \<Rightarrow> bool" where
  "good L r \<longleftrightarrow> (\<forall>x. r = Some x \<longrightarrow> good_response L x)"

definition sure :: "http_lib \<Rightarrow> response option \<Rightarrow> bool" where
  "sure L r \<longleftrightarrow> (\<exists>x. r = Some x \<and> good_response L x)"

lemma sure_good: "sure L r \<Longrightarrow> good L r"
  by (auto simp: sure_def good_def)

lemma good_build: "status_ok L st \<Longrightarrow> good L (build L st hs b)"
  by (auto simp: good_def build_def good_response_def)

lemma sure_build: "status_ok L st \<Longrightarrow> list_all (\<lambda>(n, v). header_ok L v) hs \<Longrightarrow> sure L (build L st hs b)"
  by (auto simp: sure_def build_def good_response_def)

lemma http_ok_simps:
  assumes "http_ok L"
  shows "status_ok L 200" "status_ok L 204" "status_ok L 400" "status_ok L 404" "status_ok L 422" "status_ok L 500"
    "header_ok L ''application/json''" "header_ok L ''text/plain; charset=utf-8''" "header_ok L ''text/plain''"
    "header_ok L ''application/octet-stream''" "header_ok L ''*''" "header_ok L ''public, max-age=31536000, immutable''"
  using assms by (simp_all add: http_ok_def)

lemma sure_text: "http_ok L \<Longrightarrow> status_ok L st \<Longrightarrow> sure L (text_response L st b)"
  unfolding text_response_def by (rule sure_build) (simp_all add: http_ok_simps)

lemma sure_or_build_error: "http_ok L \<Longrightarrow> good L r \<Longrightarrow> sure L (or_build_error L r)"
  using sure_text [of L 500] by (auto simp: or_build_error_def good_def sure_def http_ok_simps split: option.splits)

lemma sure_or_empty: "status_ok L st \<Longrightarrow> good L r \<Longrightarrow> good_response L (or_empty_response st r)"
  by (auto simp: or_empty_response_def good_def good_response_def split: option.splits)

lemma matched_status_ok: "http_ok L \<Longrightarrow> status_ok L (matched_status L m)"
  by (auto simp: matched_status_def from_u16_def http_ok_simps)

lemma from_u16_ok: "http_ok L \<Longrightarrow> status_ok L d \<Longrightarrow> status_ok L (case from_u16 L n of Some st \<Rightarrow> st | None \<Rightarrow> d)"
  by (auto simp: from_u16_def)

lemma from_u16_SomeD: "from_u16 L n = Some st \<Longrightarrow> status_ok L st"
  by (auto simp: from_u16_def split: if_splits)

lemma sure_or_build:
  "http_ok L \<Longrightarrow> status_ok L st \<Longrightarrow> sure L (or_build_error L (build L st hs b))"
  by (intro sure_or_build_error good_build)

lemma sure_error_json:
  assumes "http_ok (sv_http V)" "status_ok (sv_http V) st"
  shows "sure (sv_http V) (error_json V st kvs)"
  unfolding error_json_def json_response_def using assms
  by (intro sure_build) (simp_all add: ctype_or_def cors_def http_ok_simps)

lemma json_response_cases:
  assumes "http_ok L" "status_ok L st"
  shows "good L (json_response S L st v c)" "json_response S L st v c = None \<longleftrightarrow> (\<exists>x. c = Some x \<and> \<not> header_ok L x)"
proof -
  show "good L (json_response S L st v c)" unfolding json_response_def using assms(2) by (rule good_build)
  show "json_response S L st v c = None \<longleftrightarrow> (\<exists>x. c = Some x \<and> \<not> header_ok L x)"
    using assms by (cases c) (auto simp: json_response_def build_def cors_def ctype_or_def http_ok_simps split: if_splits)
qed

text \<open>The results of a handler that are sent as JSON: several rows, or one row of other than one column, none of them
  named for a part of the response.\<close>

definition sent_as_json :: "string list \<Rightarrow> json list list \<Rightarrow> bool" where
  "sent_as_json cols rows \<longleftrightarrow> 2 \<le> length rows \<or>
     length rows = 1 \<and> length cols \<noteq> 1 \<and> set cols \<inter> {''body'', ''status'', ''ctype'', ''content_type''} = {}"

lemma position_eq_None: "position n cols = None \<longleftrightarrow> n \<notin> set cols"
  by (induction cols) auto

text \<open>A response is good, and the panic happens exactly under the stated condition.\<close>

definition outcome :: "http_lib \<Rightarrow> bool \<Rightarrow> response option \<Rightarrow> bool" where
  "outcome L panics r \<longleftrightarrow> good L r \<and> (r = None \<longleftrightarrow> panics)"

lemma sure_outcome: "sure L r \<Longrightarrow> outcome L False r"
  by (auto simp: outcome_def sure_good) (auto simp: sure_def)

lemma outcome_or_build: "http_ok L \<Longrightarrow> status_ok L st \<Longrightarrow> outcome L False (or_build_error L (build L st hs b))"
  by (intro sure_outcome sure_or_build)

lemma json_outcome:
  "http_ok L \<Longrightarrow> outcome L (\<exists>c. m_ctype m = Some c \<and> \<not> header_ok L c) (json_response S L (matched_status L m) v (m_ctype m))"
  using json_response_cases [of L "matched_status L m" S v "m_ctype m"] by (simp add: outcome_def matched_status_ok)

lemma meta_outcome: "http_ok (sv_http V) \<Longrightarrow> outcome (sv_http V) False (meta_response V m row bi si ci)"
  unfolding meta_response_def Let_def
  by (intro outcome_or_build) (auto simp: from_u16_ok matched_status_ok split: option.splits)

lemma build_response_outcome:
  assumes "http_ok (sv_http V)" "\<forall>row \<in> set rows. length row = length cols"
  shows "outcome (sv_http V) (sent_as_json cols rows \<and> (\<exists>c. m_ctype m = Some c \<and> \<not> header_ok (sv_http V) c)) (build_response V m cols rows)"
proof -
  consider (none) "rows = []" | (one) row where "rows = [row]" | (more) row row' rest where "rows = row # row' # rest"
    by (cases rows; cases "tl rows") auto
  then show ?thesis
  proof cases
    case none
    then show ?thesis using assms(1) by (simp add: build_response_def Let_def http_ok_simps outcome_or_build sent_as_json_def)
  next
    case one
    show ?thesis
    proof (cases "set cols \<inter> {''body'', ''status'', ''ctype'', ''content_type''} = {}")
      case False
      then have j: "\<not> sent_as_json cols rows" and "\<exists>n \<in> {''body'', ''status'', ''ctype'', ''content_type''}. position n cols \<noteq> None"
        using one by (auto simp: sent_as_json_def position_eq_None)
      then have "\<exists>bi si ci. build_response V m cols rows = meta_response V m row bi si ci"
        using one by (auto simp: build_response_def Let_def split: option.splits)
      with j meta_outcome [OF assms(1)] show ?thesis by auto
    next
      case plain: True
      then have p: "position ''body'' cols = None" "position ''status'' cols = None" "position ''ctype'' cols = None" "position ''content_type'' cols = None"
        by (auto simp: position_eq_None)
      show ?thesis
      proof (cases "length cols = 1")
        case True
        then obtain v vs where "row = v # vs" using assms(2) one by (cases row) auto
        with True one p assms(1) show ?thesis by (simp add: build_response_def Let_def outcome_or_build matched_status_ok sent_as_json_def)
      next
        case False
        with one p plain assms(1) show ?thesis by (simp add: build_response_def Let_def json_outcome sent_as_json_def)
      qed
    qed
  next
    case more
    then show ?thesis using assms(1) by (simp add: build_response_def Let_def json_outcome sent_as_json_def)
  qed
qed

text \<open>When a matched route panics: its own content type is refused, and its SQL has a result that is sent as JSON. The
  connection is released before the response is built, so the panic does not poison it.\<close>

definition route_panics :: "'d server_env \<Rightarrow> route_match \<Rightarrow> request \<Rightarrow> string \<Rightarrow> 'd \<Rightarrow> bool" where
  "route_panics V m q body d \<longleftrightarrow> m_kind m = KSql \<and> (\<exists>c. m_ctype m = Some c \<and> \<not> header_ok (sv_http V) c) \<and>
     (\<exists>cols rows d'. query_named (sv_serde V) (sv_engine V) (m_handler m) (request_params q body) d = (Inr (cols, rows), d') \<and>
        sent_as_json cols rows)"

lemma execute_outcome:
  assumes L: "http_ok (sv_http V)" and E: "rows_ok (sv_engine V)" and run: "execute V m q hs body wasm s = (r, s')" and "\<not> poisoned s"
  shows "outcome (sv_http V) (route_panics V m q body (db_state s)) r"
proof (cases "m_kind m")
  case KStatic
  then have "\<not> route_panics V m q body (db_state s)" by (simp add: route_panics_def)
  with KStatic run L show ?thesis by (auto simp: execute_def execute_static_def outcome_or_build matched_status_ok)
next
  case KWasm
  then have "\<not> route_panics V m q body (db_state s)" by (simp add: route_panics_def)
  with KWasm run L show ?thesis
    by (auto simp: execute_def execute_wasm_def outcome_or_build from_u16_SomeD http_ok_simps sure_outcome sure_error_json
        split: option.splits sum.splits)
next
  case KBlob
  then have "\<not> route_panics V m q body (db_state s)" by (simp add: route_panics_def)
  with KBlob run L assms(4) show ?thesis
    by (auto simp: execute_def execute_blob_def outcome_or_build matched_status_ok http_ok_simps sure_outcome sure_error_json
        split: option.splits sum.splits prod.splits)
next
  case KSql
  obtain x d where x: "query_named (sv_serde V) (sv_engine V) (m_handler m) (request_params q body) (db_state s) = (x, d)" by fastforce
  with KSql run assms(4) have r: "r = (case x of Inr (cols, rows) \<Rightarrow> build_response V m cols rows | Inl e \<Rightarrow> error_json V 500 [(''error'', JStr e)])"
    by (auto simp: execute_def execute_sql_def)
  show ?thesis
  proof (cases x)
    case (Inl e)
    then have "\<not> route_panics V m q body (db_state s)" using x by (simp add: route_panics_def)
    with Inl r L show ?thesis by (simp add: sure_outcome sure_error_json http_ok_simps)
  next
    case (Inr cr)
    obtain cols rows where cr: "cr = (cols, rows)" by (cases cr)
    have "\<forall>row \<in> set rows. length row = length cols"
      using x Inr cr E unfolding rows_ok_def query_named_def by (fastforce split: if_splits sum.splits prod.splits)
    note b = build_response_outcome [OF L this, of m]
    have "route_panics V m q body (db_state s) \<longleftrightarrow> sent_as_json cols rows \<and> (\<exists>c. m_ctype m = Some c \<and> \<not> header_ok (sv_http V) c)"
      using KSql x Inr cr by (auto simp: route_panics_def)
    with b r Inr cr show ?thesis by simp
  qed
qed

lemma run_sql_good:
  assumes "http_ok (sv_http V)" "run_sql V sql s = (r, s')"
  shows "\<forall>x. r = Inr x \<longrightarrow> good_response (sv_http V) x"
  using assms
  by (auto simp: run_sql_def payload_response_def err_response_def sure_or_empty good_build http_ok_simps split: if_splits sum.splits prod.splits)

lemma err_good: "http_ok L \<Longrightarrow> status_ok L st \<Longrightarrow> good_response L (err_response S L st m)"
  by (simp add: err_response_def sure_or_empty good_build)

lemma builtin_result_good:
  assumes "http_ok (sv_http V)" "builtin_result V q s = (r, s')"
  shows "\<forall>x. r = Inr x \<longrightarrow> good_response (sv_http V) x"
  using assms run_sql_good [OF assms(1)]
  by (auto simp: builtin_result_def Let_def list_tables_def schema_def err_good http_ok_simps plain_response_def sure_or_empty good_build
      split: if_splits sum.splits option.splits)

lemma lookup_not_poisoned: "lookup V meth path s = Inr x \<Longrightarrow> \<not> poisoned s"
  by (auto simp: lookup_def)

text \<open>C25. Every response is well formed. Whatever the request, the routes, the SQL of the handlers and the answers of
  the components, what the server sends has a status code and header values the HTTP library accepts: bad
  codes and bad content types of a handler are replaced. The one exception is exact: a request ends in a panic
  instead of a response if and only if it is answered by an SQL route whose own content type the library refuses and
  whose query succeeds with a result that is sent as JSON (several rows, or one row of other than one column with no
  column named for the body, the status or the content type).\<close>

theorem responses_well_formed:
  assumes "http_ok (sv_http V)" "rows_ok (sv_engine V)" "handle V wasm q s = (r, s')"
  shows "(\<forall>x. r = Some x \<longrightarrow> status_ok (sv_http V) (r_status x) \<and> (\<forall>(n, v) \<in> set (r_headers x). header_ok (sv_http V) v)) \<and>
    (r = None \<longleftrightarrow>
      (\<exists>m b c cols rows d. \<not> builtin (q_method q) (q_path q) \<and> lookup V (q_method q) (q_path q) s = Inr (Some m) \<and> q_body q = Inr b \<and>
         m_kind m = KSql \<and> m_ctype m = Some c \<and> \<not> header_ok (sv_http V) c \<and>
         query_named (sv_serde V) (sv_engine V) (m_handler m) (request_params q b) (db_state s) = (Inr (cols, rows), d) \<and>
         (2 \<le> length rows \<or>
          length rows = 1 \<and> length cols \<noteq> 1 \<and> set cols \<inter> {''body'', ''status'', ''ctype'', ''content_type''} = {})))"
  (is "?good \<and> (_ \<longleftrightarrow> ?panic)")
proof (cases "\<exists>m b. (if builtin (q_method q) (q_path q) then Inr None else lookup V (q_method q) (q_path q) s) = Inr (Some m) \<and> q_body q = Inr b")
  case True
  then obtain m b where m: "\<not> builtin (q_method q) (q_path q)" "lookup V (q_method q) (q_path q) s = Inr (Some m)" "q_body q = Inr b"
    by (auto split: if_splits)
  with assms(3) have "execute V m q (request_headers q) b wasm s = (r, s')" by (simp add: handle_def)
  from execute_outcome [OF assms(1,2) this lookup_not_poisoned [OF m(2)]]
  have o: "good (sv_http V) r" "r = None \<longleftrightarrow> route_panics V m q b (db_state s)" by (auto simp: outcome_def)
  moreover have "route_panics V m q b (db_state s) \<longleftrightarrow> ?panic"
    using m unfolding route_panics_def sent_as_json_def by auto
  ultimately show ?thesis by (auto simp: good_def good_response_def list_all_iff)
next
  case False
  obtain x s1 where x: "builtin_result V q s = (x, s1)" by fastforce
  have "\<exists>y. r = Some y \<and> good_response (sv_http V) y"
    using False assms(1,3) x builtin_result_good [OF assms(1) x]
    by (auto simp: handle_def err_good http_ok_simps split: sum.splits option.splits if_splits)
  moreover from False have "\<not> ?panic" by auto
  ultimately show ?thesis by (auto simp: good_response_def list_all_iff)
qed

definition toy_lib :: http_lib where
  "toy_lib = \<lparr>status_ok = (\<lambda>n. 100 \<le> n \<and> n < 1000), header_ok = (\<lambda>v. CHR 0x0A \<notin> set v)\<rparr>"

definition toy_engine :: "nat engine" where
  "toy_engine = \<lparr>e_run = (\<lambda>sql ps d. (Inr ([''n''], [[CInteger 7]]), d + 1)), e_first = (\<lambda>sql ps d. (Inr None, d)),
     e_num_text = (\<lambda>c. []), e_to_f64 = (\<lambda>i. 0)\<rparr>"

definition toy_route :: "string \<Rightarrow> string \<Rightarrow> int \<Rightarrow> route_row" where
  "toy_route pattern handler prio =
     \<lparr>rt_method = ''GET'', rt_pattern = pattern, rt_handler = CText handler, rt_status = CInteger 70000, rt_ctype = CNull,
      rt_kind = CNull, rt_priority = Some prio\<rparr>"

definition toy_server :: "nat server_env" where
  "toy_server = \<lparr>sv_serde = \<lparr>json_text = (\<lambda>j. ''7''), json_parse = (\<lambda>s. None)\<rparr>, sv_http = toy_lib, sv_engine = toy_engine,
     sv_routes = (\<lambda>d t. Some \<lparr>rt_has_kind = True, rt_rows = [toy_route ''/*'' ''SELECT 1'' 0, toy_route ''/hello'' ''SELECT 7'' 0]\<rparr>),
     sv_glob = (\<lambda>pat path. pat = ''/*'' \<or> pat = path), sv_alnum = (\<lambda>c. False), sv_url_decode = Some, sv_routes_table = ''routes''\<rparr>"

definition toy_get :: "string \<Rightarrow> request" where
  "toy_get path = \<lparr>q_method = ''GET'', q_path = path, q_query = None, q_headers = [], q_body = Inr [], q_remote = ''::1''\<rparr>"

lemma toy_http_ok: "http_ok (sv_http toy_server)"
  by (simp add: http_ok_def toy_server_def toy_lib_def)

lemma toy_rows_ok: "rows_ok (sv_engine toy_server)"
  by (auto simp: rows_ok_def toy_server_def toy_engine_def)

lemma toy_routes:
  "\<not> poisoned \<lparr>poisoned = False, db_state = 0 :: nat\<rparr>" "is_safe_ident (sv_alnum toy_server) (sv_routes_table toy_server)"
  "sv_routes toy_server 0 (sv_routes_table toy_server) =
     Some \<lparr>rt_has_kind = True, rt_rows = [toy_route ''/*'' ''SELECT 1'' 0, toy_route ''/hello'' ''SELECT 7'' 0]\<rparr>"
  by (simp_all add: toy_server_def is_safe_ident_def ident_chars.simps(2) ascii_alnum_def char_len_def)

section \<open>The route that answers\<close>

text \<open>A row outranks another by priority (a null priority is lowest), then by the length of its pattern.\<close>

definition outranks :: "route_row \<Rightarrow> route_row \<Rightarrow> bool" where
  "outranks r r' \<longleftrightarrow>
     (case (rt_priority r, rt_priority r') of
        (Some p, Some p') \<Rightarrow> p > p' \<or> p = p' \<and> char_count (rt_pattern r) > char_count (rt_pattern r')
      | (Some _, None) \<Rightarrow> True
      | (None, Some _) \<Rightarrow> False
      | (None, None) \<Rightarrow> char_count (rt_pattern r) > char_count (rt_pattern r'))"

definition cell_str :: "cell \<Rightarrow> string option" where
  "cell_str c = (case c of CText s \<Rightarrow> Some (from_utf8_lossy s) | CBlob b \<Rightarrow> Some (hex_of b) | _ \<Rightarrow> None)"

definition route_of :: "routes_table \<Rightarrow> route_row \<Rightarrow> route_match" where
  "route_of t r =
     \<lparr>m_kind = (case cell_str (rt_kind r) of Some k \<Rightarrow> if rt_has_kind t then route_kind_parse k else KSql | None \<Rightarrow> KSql),
      m_handler = (case cell_str (rt_handler r) of Some h \<Rightarrow> h | None \<Rightarrow> []),
      m_status = (case rt_status r of CInteger i \<Rightarrow> if i64_range i then i else 200 | _ \<Rightarrow> 200),
      m_ctype = cell_str (rt_ctype r)\<rparr>"

lemma route_rank_le: "route_rank r \<le> route_rank r' \<longleftrightarrow> \<not> outranks r' r"
  by (cases "rt_priority r"; cases "rt_priority r'") (auto simp: route_rank_def outranks_def)

lemma cell_str_column: "as_str (column_value c) = cell_str c"
  by (cases c) (auto simp: column_value_def cell_str_def)

lemma parse_default_kind: "route_kind_parse (from_utf8_lossy ''sql'') = KSql"
  by code_simp

lemma row_match_of:
  "row_match (map column_value ([rt_handler r, coalesce (rt_status r) (CInteger 200), rt_ctype r] @
     (if rt_has_kind t then [coalesce (rt_kind r) (CText ''sql'')] else []))) = route_of t r"
proof -
  have st: "(case json_as_i64 (column_value (coalesce (rt_status r) (CInteger 200))) of Some i \<Rightarrow> i | None \<Rightarrow> 200) =
      (case rt_status r of CInteger i \<Rightarrow> if i64_range i then i else 200 | _ \<Rightarrow> 200)"
    by (cases "rt_status r") (auto simp: coalesce_def column_value_def i64_range_def)
  have k: "(case cell_str (coalesce (rt_kind r) (CText ''sql'')) of Some k \<Rightarrow> route_kind_parse k | None \<Rightarrow> KSql) =
      (case cell_str (rt_kind r) of Some k \<Rightarrow> route_kind_parse k | None \<Rightarrow> KSql)"
    using parse_default_kind by (cases "rt_kind r") (auto simp: coalesce_def cell_str_def)
  show ?thesis
    by (cases "rt_has_kind t") (auto simp: row_match_def route_of_def nth_cell_def cell_str_column st k split: option.splits)
qed

lemma lookup_first:
  assumes "\<not> poisoned s" "is_safe_ident (sv_alnum V) (sv_routes_table V)" "sv_routes V (db_state s) (sv_routes_table V) = Some t"
  shows "lookup V meth path s =
    (case first_by route_rank (filter (route_applies (sv_glob V) meth path) (rt_rows t)) of
       None \<Rightarrow> Inr None
     | Some r \<Rightarrow> Inr (if m_handler (route_of t r) = [] then None else Some (route_of t r)))"
  using assms by (auto simp: lookup_def best_route_sel_def row_match_of [simplified] split: option.splits)

theorem responses_well_formed_witness:
  "\<exists>x s'. handle toy_server None (toy_get ''/hello'') \<lparr>poisoned = False, db_state = 0\<rparr> = (Some x, s') \<and>
     100 \<le> r_status x \<and> r_status x < 1000"
proof -
  let ?s = "\<lparr>poisoned = False, db_state = 0 :: nat\<rparr>"
  obtain r s' where h: "handle toy_server None (toy_get ''/hello'') ?s = (r, s')" by fastforce
  have "m_ctype m = None" if m: "lookup toy_server ''GET'' ''/hello'' ?s = Inr (Some m)" for m
  proof -
    obtain r where r: "first_by route_rank (filter (route_applies (sv_glob toy_server) ''GET'' ''/hello'')
        [toy_route ''/*'' ''SELECT 1'' 0, toy_route ''/hello'' ''SELECT 7'' 0]) = Some r"
      and "m = route_of \<lparr>rt_has_kind = True, rt_rows = [toy_route ''/*'' ''SELECT 1'' 0, toy_route ''/hello'' ''SELECT 7'' 0]\<rparr> r"
      using m lookup_first [of ?s toy_server] toy_routes by (auto split: option.splits if_splits)
    with first_by_in [OF r] show ?thesis by (auto simp: route_of_def toy_route_def cell_str_def split: if_splits)
  qed
  then have "\<nexists>m c. lookup toy_server (q_method (toy_get ''/hello'')) (q_path (toy_get ''/hello'')) ?s = Inr (Some m) \<and> m_ctype m = Some c"
    by (auto simp: toy_get_def)
  with responses_well_formed [OF toy_http_ok toy_rows_ok h] obtain x where "r = Some x" "status_ok (sv_http toy_server) (r_status x)" by fastforce
  with h show ?thesis by (simp add: toy_server_def toy_lib_def)
qed

text \<open>C26. The router picks the best route. On a readable routes table, with or without the \<open>kind\<close> column, a request
  that no row's method and pattern admit finds nothing; otherwise the answer is a row that admits it and that
  no other admitting row outranks, read with its defaults (status 200, kind SQL), unless its handler is empty.\<close>

theorem route_lookup_best:
  assumes "\<not> poisoned s" "is_safe_ident (sv_alnum V) (sv_routes_table V)" "sv_routes V (db_state s) (sv_routes_table V) = Some t"
  shows "if \<exists>r \<in> set (rt_rows t). route_applies (sv_glob V) meth path r
    then \<exists>r \<in> set (rt_rows t). route_applies (sv_glob V) meth path r \<and>
      (\<forall>r' \<in> set (rt_rows t). route_applies (sv_glob V) meth path r' \<longrightarrow> \<not> outranks r' r) \<and>
      lookup V meth path s = Inr (if m_handler (route_of t r) = [] then None else Some (route_of t r))
    else lookup V meth path s = Inr None"
proof -
  let ?c = "filter (route_applies (sv_glob V) meth path) (rt_rows t)"
  note l = lookup_first [OF assms, of meth path]
  show ?thesis
  proof (cases "first_by route_rank ?c")
    case None
    then show ?thesis using l by (auto simp: filter_empty_conv)
  next
    case (Some r)
    have r: "r \<in> set ?c" using Some by (rule first_by_in)
    have "\<not> outranks r' r" if "r' \<in> set (rt_rows t)" "route_applies (sv_glob V) meth path r'" for r'
      using first_by_least [OF Some, of r'] that by (simp add: route_rank_le)
    with r l Some show ?thesis by auto
  qed
qed

theorem route_lookup_best_witness:
  "\<exists>m. lookup toy_server ''GET'' ''/hello'' \<lparr>poisoned = False, db_state = 0\<rparr> = Inr (Some m) \<and> m_handler m = ''SELECT 7''"
proof -
  let ?t = "\<lparr>rt_has_kind = True, rt_rows = [toy_route ''/*'' ''SELECT 1'' 0, toy_route ''/hello'' ''SELECT 7'' 0]\<rparr>"
  let ?s = "\<lparr>poisoned = False, db_state = 0 :: nat\<rparr>"
  have app: "route_applies (sv_glob toy_server) ''GET'' ''/hello'' (toy_route p h 0) \<longleftrightarrow> p = ''/*'' \<or> p = ''/hello''" for p h
    by (simp add: route_applies_def toy_server_def toy_route_def)
  have out: "outranks (toy_route ''/hello'' ''SELECT 7'' 0) (toy_route ''/*'' ''SELECT 1'' 0)"
    by (simp add: outranks_def toy_route_def char_count_def cont_in_def)
  have "from_utf8_lossy ''SELECT 7'' = ''SELECT 7''" by code_simp
  then have h: "m_handler (route_of ?t (toy_route ''/hello'' ''SELECT 7'' 0)) = ''SELECT 7''"
    by (simp add: route_of_def toy_route_def cell_str_def)
  from route_lookup_best [of ?s toy_server ?t "''GET''" "''/hello''"] toy_routes
  show ?thesis using app out h by auto
qed

section \<open>The built-in endpoints\<close>

lemma ident_chars_ascii:
  "ident_chars alnum s \<Longrightarrow> utf8_valid s \<Longrightarrow> c \<in> set s \<Longrightarrow> of_char c < (128 :: nat) \<Longrightarrow> ascii_alnum c \<or> c = CHR ''_''"
proof (induction alnum s rule: ident_chars.induct)
  case (2 alnum a cs)
  have v: "\<forall>x \<in> set (take (char_len a - 1) cs). 128 \<le> (of_char x :: nat)" "utf8_valid (drop (char_len a - 1) cs)"
    using utf8_valid_char [OF 2(3)] by auto
  have "c = a \<or> c \<in> set (take (char_len a - 1) cs) \<or> c \<in> set (drop (char_len a - 1) cs)"
    using 2(4) by (metis append_take_drop_id set_ConsD Un_iff set_append)
  then show ?case
  proof (elim disjE)
    assume "c = a"
    with 2(2,5) show ?thesis by (simp add: ident_chars.simps(2))
  next
    assume "c \<in> set (take (char_len a - 1) cs)"
    with v(1) 2(5) show ?thesis by force
  next
    assume "c \<in> set (drop (char_len a - 1) cs)"
    with 2(1) [OF _ v(2)] 2(2,5) show ?thesis by (simp add: ident_chars.simps(2))
  qed
qed simp

lemma ident_no_specials:
  assumes "ident_chars alnum s" "utf8_valid s"
  shows "set s \<inter> {CHR 0x22, CHR 0x27, CHR ''('', CHR '')'', CHR '';'', CHR '' '', CHR 0x00, CHR ''-'', CHR 0x60} = {}"
proof -
  have "x \<notin> set s" if "x \<in> {CHR 0x22, CHR 0x27, CHR ''('', CHR '')'', CHR '';'', CHR '' '', CHR 0x00, CHR ''-'', CHR 0x60}" for x
    using ident_chars_ascii [OF assms, of x] that by (auto simp: ascii_alnum_def)
  then show ?thesis by blast
qed

text \<open>The administrative endpoints are fixed. No content of the routes table and no loaded component changes what
  a request to \<open>/health\<close>, \<open>/sql\<close>, \<open>/tables\<close> or \<open>/schema/\<close> does; and \<open>/schema/\<close> either refuses a name
  without touching the database, or runs the one pragma with a name that holds no quote, blank, parenthesis,
  semicolon, dash or NUL.\<close>

theorem builtins_fixed:
  assumes "builtin (q_method q) (q_path q)" "utf8_valid (q_path q)"
  shows "handle V wasm q s = handle (V\<lparr>sv_routes := R, sv_routes_table := T\<rparr>) wasm' q s \<and>
    (\<forall>name. q_method q = ''GET'' \<and> q_path q = ''/schema/'' @ name \<longrightarrow>
       (if name \<noteq> [] \<and> ident_chars (sv_alnum V) name
        then set name \<inter> {CHR 0x22, CHR 0x27, CHR ''('', CHR '')'', CHR '';'', CHR '' '', CHR 0x00, CHR ''-'', CHR 0x60} = {} \<and>
          builtin_result V q s = run_sql V (''PRAGMA table_info('' @ name @ '')'') s
        else builtin_result V q s = (Inr (err_response (sv_serde V) (sv_http V) 400 ''bad table name''), s)))"
proof (intro conjI allI impI)
  let ?W = "V\<lparr>sv_routes := R, sv_routes_table := T\<rparr>"
  have "run_sql ?W = run_sql V" by (intro ext) (simp add: run_sql_def split: prod.splits sum.splits)
  then have "list_tables ?W = list_tables V" "schema ?W = schema V" "run_sql ?W = run_sql V"
    by (simp_all add: list_tables_def schema_def fun_eq_iff)
  then have eq: "builtin_result ?W q s = builtin_result V q s" by (simp add: builtin_result_def Let_def split: option.splits sum.splits)
  show "handle V wasm q s = handle (V\<lparr>sv_routes := R, sv_routes_table := T\<rparr>) wasm' q s"
    using assms(1) by (simp add: handle_def eq split: prod.splits sum.splits)
next
  fix name assume a: "q_method q = ''GET'' \<and> q_path q = ''/schema/'' @ name"
  have "utf8_valid name" using assms(2) a by (simp add: utf8_valid.simps(2))
  moreover have "builtin_result V q s = schema V name s" using a by (simp add: builtin_result_def Let_def)
  ultimately show "if name \<noteq> [] \<and> ident_chars (sv_alnum V) name
        then set name \<inter> {CHR 0x22, CHR 0x27, CHR ''('', CHR '')'', CHR '';'', CHR '' '', CHR 0x00, CHR ''-'', CHR 0x60} = {} \<and>
          builtin_result V q s = run_sql V (''PRAGMA table_info('' @ name @ '')'') s
        else builtin_result V q s = (Inr (err_response (sv_serde V) (sv_http V) 400 ''bad table name''), s)"
    using ident_no_specials by (auto simp: schema_def)
qed

theorem builtins_fixed_witness:
  "let s = \<lparr>poisoned = False, db_state = 0\<rparr> in
   builtin_result toy_server (toy_get ''/schema/a;b'') s = (Inr (err_response (sv_serde toy_server) toy_lib 400 ''bad table name''), s) \<and>
   builtin_result toy_server (toy_get ''/schema/users'') s = run_sql toy_server ''PRAGMA table_info(users)'' s"
proof -
  let ?s = "\<lparr>poisoned = False, db_state = 0 :: nat\<rparr>"
  have b: "builtin (q_method (toy_get (''/schema/'' @ n))) (q_path (toy_get (''/schema/'' @ n)))" for n
    by (simp add: builtin_def toy_get_def)
  have u: "utf8_valid (q_path (toy_get (''/schema/'' @ ''a;b'')))" "utf8_valid (q_path (toy_get (''/schema/'' @ ''users'')))"
    by (simp_all add: toy_get_def utf8_valid.simps)
  have i: "\<not> ident_chars (sv_alnum toy_server) ''a;b''" "ident_chars (sv_alnum toy_server) ''users''"
    by (simp_all add: ident_chars.simps(2) ascii_alnum_def char_len_def)
  have "builtin_result toy_server (toy_get (''/schema/'' @ ''a;b'')) ?s = (Inr (err_response (sv_serde toy_server) (sv_http toy_server) 400 ''bad table name''), ?s)"
    using builtins_fixed [OF b u(1), of toy_server] i(1) by (simp add: toy_get_def)
  moreover have "builtin_result toy_server (toy_get (''/schema/'' @ ''users'')) ?s = run_sql toy_server (''PRAGMA table_info('' @ ''users'' @ '')'') ?s"
    using builtins_fixed [OF b u(2), of toy_server] i(2) by (simp add: toy_get_def)
  ultimately show ?thesis by (simp add: toy_server_def)
qed

end
