(* ===== verification/Httpd_Auth.thy ===== *)
theory Httpd_Auth
  imports Auth_Handler Httpd_Router
begin

text \<open>
  The server and the auth handler together: a route of kind \<open>wasm\<close> whose component is the auth handler. The
  request travels as JSON printed by \<open>serde_json\<close> and read by hand in the handler; the answer is printed by
  hand and parsed by \<open>serde_json\<close>. What is documented of the library is a hypothesis: \<open>json_printer\<close> (compact
  output, escaped strings) and \<open>answers_parsed\<close> (it parses the objects the handlers print).

  The call into the component is a parameter as well; it may fail, and an answer it gives is the handler's.

  Shown: the token a client puts in its authorization header is the token the handler verifies, and the route answers
  200 exactly if that token is valid, 401 otherwise and 500 if the component could not be run. Where the textual
  reading fails is stated too: a header can pose as a field of the request.
\<close>

section \<open>Printed requests\<close>

definition print_fields :: "serde \<Rightarrow> (char \<Rightarrow> string) \<Rightarrow> (string \<times> json) list \<Rightarrow> string list" where
  "print_fields S e kvs = map (\<lambda>(k, v). quoted (concat (map e k)) @ CHR '':'' # json_text S v) kvs"

definition json_printer :: "serde \<Rightarrow> (char \<Rightarrow> string) \<Rightarrow> bool" where
  "json_printer S e \<longleftrightarrow> json_escaper e \<and> json_text S JNull = ''null'' \<and>
     (\<forall>s. json_text S (JStr s) = quoted (concat (map e s))) \<and>
     (\<forall>kvs. json_text S (JObj kvs) = CHR ''{'' # join_with CHR '','' (print_fields S e kvs) @ ''}'')"

definition answers_parsed :: "serde \<Rightarrow> bool" where
  "answers_parsed S \<longleftrightarrow> (\<forall>status body. status < 65536 \<longrightarrow>
     json_parse S (structured_response status ''application/json'' body) =
       Some (JObj [(''body'', JStr body), (''ctype'', JStr ''application/json''), (''status'', JInt (int status))]))"

text \<open>The fields of a request in the order of their names.\<close>

lemma request_json_sorted:
  "request_json q headers body =
     JObj [(''body'', body_field body), (''headers'', obj_of (map (\<lambda>(k, v). (k, JStr v)) headers)), (''method'', JStr (q_method q)),
       (''path'', JStr (q_path q)), (''query'', opt_json (q_query q)), (''remote'', JStr (q_remote q))]"
  by (simp add: request_json_def obj_of_def [of "[_, _, _, _, _, _]"] less_char_def)

lemma escape_plain: "json_escaper e \<Longrightarrow> plain_field f \<Longrightarrow> concat (map e f) = f"
proof -
  assume e: "json_escaper e" and "plain_field f"
  then have "list_all (\<lambda>c. e c = [c]) f" by (auto simp: plain_field_def list_all_iff intro: json_escaper.printable)
  then show ?thesis by (induction f) auto
qed

lemma request_text:
  assumes "json_printer S e" "utf8_valid body"
  shows "\<exists>rest. json_text S (request_json q headers body) =
    CHR ''{'' # quoted ''body'' @ CHR '':'' # CHR ''{'' # quoted ''text'' @ CHR '':'' # quoted (concat (map e body)) @ CHR ''}'' # CHR '','' #
    quoted ''headers'' @ CHR '':'' # json_text S (obj_of (map (\<lambda>(k, v). (k, JStr v)) headers)) @ CHR '','' # rest"
proof -
  have p: "json_escaper e" "\<And>s. json_text S (JStr s) = quoted (concat (map e s))"
    "\<And>kvs. json_text S (JObj kvs) = CHR ''{'' # join_with CHR '','' (print_fields S e kvs) @ ''}''"
    using assms(1) by (auto simp: json_printer_def)
  show ?thesis
    unfolding request_json_sorted p(3) print_fields_def
    using assms(2) by (simp add: json_escaper.printable [OF p(1)] body_field_def obj_of_def [of "[_]"] p print_fields_def)
qed

text \<open>The printed headers: the reader passes over the fields before the one it looks for.\<close>

lemma find_past_pairs:
  assumes e: "json_escaper e" and S: "\<And>s. json_text S (JStr s) = quoted (concat (map e s))"
    and f: "plain_field f" "hd f \<notin> {CHR '':'', CHR '',''}"
  shows "list_all (\<lambda>(k, v). plain_field k \<and> k \<noteq> f \<and> \<not> mimics f v) kvs \<Longrightarrow>
    find_after (quoted f) (concat (map (\<lambda>p. p @ '','') (print_fields S e (map (\<lambda>(k, v). (k, JStr v)) kvs))) @ s) = find_after (quoted f) s"
proof (induction kvs)
  case (Cons p kvs)
  obtain k v where p: "p = (k, v)" by fastforce
  have "find_after (quoted f) (quoted k @ CHR '':'' # t) = find_after (quoted f) t" for t
    using Cons.prems f find_past_name [of f k "CHR '':''" t] by (auto simp: p find_past_char)
  moreover have "find_after (quoted f) (quoted (concat (map e v)) @ CHR '','' # t) = find_after (quoted f) t" for t
    using Cons.prems f json_escaper.find_past_text [OF e f(1), of "CHR '',''" v t] by (auto simp: p find_past_char)
  ultimately show ?case
    using Cons escape_plain [OF e, of k] by (simp add: p print_fields_def S)
qed (simp add: print_fields_def)

lemma pick_header_printed:
  assumes P: "json_printer S e" and body: "utf8_valid body" "\<not> mimics ''headers'' body"
    and f: "plain_field f" "hd f \<notin> {CHR '':'', CHR '','', CHR ''{''}"
    and h: "obj_of (map (\<lambda>(k, v). (k, JStr v)) headers) = JObj (map (\<lambda>(k, v). (k, JStr v)) (pre @ (f, w) # post))"
    and pre: "list_all (\<lambda>(k, v). plain_field k \<and> k \<noteq> f \<and> \<not> mimics f v) pre"
  shows "pick_header (json_text S (request_json q headers body)) f = Some w"
proof -
  have p: "json_escaper e" "\<And>s. json_text S (JStr s) = quoted (concat (map e s))"
    "\<And>kvs. json_text S (JObj kvs) = CHR ''{'' # join_with CHR '','' (print_fields S e kvs) @ ''}''"
    using P by (auto simp: json_printer_def)
  let ?obj = "json_text S (obj_of (map (\<lambda>(k, v). (k, JStr v)) headers))"
  obtain rest where r: "json_text S (request_json q headers body) =
      CHR ''{'' # quoted ''body'' @ CHR '':'' # CHR ''{'' # quoted ''text'' @ CHR '':'' # quoted (concat (map e body)) @ CHR ''}'' # CHR '','' #
      quoted ''headers'' @ CHR '':'' # ?obj @ CHR '','' # rest"
    using request_text [OF P body(1)] by blast
  have "find_after (quoted ''headers'') (quoted (concat (map e body)) @ CHR ''}'' # t) = find_after (quoted ''headers'') t" for t
    using json_escaper.find_past_text [OF p(1), of "''headers''" "CHR ''}''" body t] body(2) by (simp add: find_past_char)
  then have "field_value (json_text S (request_json q headers body)) ''headers'' = field_value (quoted ''headers'' @ CHR '':'' # ?obj @ CHR '','' # rest) ''headers''"
    unfolding r by (intro field_value_find) (simp add: find_past)
  moreover obtain obj where obj: "?obj = CHR ''{'' # obj" by (simp add: h p(3))
  ultimately have hv: "field_value (json_text S (request_json q headers body)) ''headers'' = Some (?obj @ CHR '','' # rest)"
    by (simp add: field_value_here)
  let ?post = "print_fields S e (map (\<lambda>(k, v). (k, JStr v)) post)"
  have "?obj = CHR ''{'' # concat (map (\<lambda>p. p @ '','') (print_fields S e (map (\<lambda>(k, v). (k, JStr v)) pre))) @
      quoted f @ CHR '':'' # quoted (concat (map e w)) @ (if ?post = [] then [] else CHR '','' # join_with CHR '','' ?post) @ ''}''"
    unfolding h p(3) by (simp add: print_fields_def join_fields p(2) escape_plain [OF p(1) f(1)])
  then have "find_after (quoted f) (?obj @ CHR '','' # rest) = find_after (quoted f)
      (quoted f @ CHR '':'' # quoted (concat (map e w)) @ (if ?post = [] then [] else CHR '','' # join_with CHR '','' ?post) @ CHR ''}'' # CHR '','' # rest)"
    using find_past_pairs [OF p(1,2) f(1) _ pre] f(2) by (simp add: find_past_char)
  then have "pick_string (?obj @ CHR '','' # rest) f = Some w"
    using pick_string_find json_escaper.pick_string_here [OF p(1)] by metis
  then show ?thesis using hv obj by (simp add: pick_header_def pick_in_object_def)
qed

section \<open>From a header to a token\<close>

lemma insert_strings:
  assumes "sorted_wrt (<) (map fst hs)"
  shows "\<exists>hs'. obj_insert k (JStr v) (map (\<lambda>(k, v). (k, JStr v)) hs) = map (\<lambda>(k, v). (k, JStr v)) hs' \<and>
    sorted_wrt (<) (map fst hs') \<and> set hs' \<subseteq> insert (k, v) (set hs) \<and> fst ` set hs' = insert k (fst ` set hs) \<and>
    map_of hs' = (map_of hs)(k \<mapsto> v)"
  using assms
proof (induction hs)
  case Nil
  show ?case by (rule exI [of _ "[(k, v)]"]) simp
next
  case (Cons p hs)
  obtain k' v' where p: "p = (k', v')" by fastforce
  consider "k = k'" | "k < k'" | "k' < k" by (metis linorder_less_linear)
  then show ?case
  proof cases
    case 1
    then show ?thesis using Cons.prems by (intro exI [of _ "(k, v) # hs"]) (auto simp: p)
  next
    case 2
    then show ?thesis using Cons.prems by (intro exI [of _ "(k, v) # (k', v') # hs"]) (auto simp: p)
  next
    case 3
    have "sorted_wrt (<) (map fst hs)" using Cons.prems by simp
    from Cons.IH [OF this] obtain hs' where hs': "obj_insert k (JStr v) (map (\<lambda>(k, v). (k, JStr v)) hs) = map (\<lambda>(k, v). (k, JStr v)) hs'"
      "sorted_wrt (<) (map fst hs')" "set hs' \<subseteq> insert (k, v) (set hs)" "fst ` set hs' = insert k (fst ` set hs)"
      "map_of hs' = (map_of hs)(k \<mapsto> v)" by blast
    have "\<forall>x \<in> fst ` set hs'. k' < x" using 3 Cons.prems hs'(4) by (auto simp: p)
    then show ?thesis using 3 hs' Cons.prems by (intro exI [of _ "(k', v') # hs'"]) (auto simp: p)
  qed
qed

lemma obj_of_strings_acc:
  "sorted_wrt (<) (map fst acc) \<Longrightarrow>
   \<exists>hs. foldl (\<lambda>fs (k, v). obj_insert k v fs) (map (\<lambda>(k, v). (k, JStr v)) acc) (map (\<lambda>(k, v). (k, JStr v)) headers) =
       map (\<lambda>(k, v). (k, JStr v)) hs \<and>
     sorted_wrt (<) (map fst hs) \<and> set hs \<subseteq> set acc \<union> set headers \<and> map_of hs = map_of acc ++ map_of (rev headers)"
proof (induction headers arbitrary: acc)
  case Nil
  then show ?case by (intro exI [of _ acc]) simp
next
  case (Cons p headers)
  obtain k v where p: "p = (k, v)" by fastforce
  obtain acc' where a: "obj_insert k (JStr v) (map (\<lambda>(k, v). (k, JStr v)) acc) = map (\<lambda>(k, v). (k, JStr v)) acc'"
    "sorted_wrt (<) (map fst acc')" "set acc' \<subseteq> insert (k, v) (set acc)" "map_of acc' = (map_of acc)(k \<mapsto> v)"
    using insert_strings [OF Cons.prems, of k v] by blast
  from Cons.IH [OF a(2)] a(3) obtain hs where
    "foldl (\<lambda>fs (k, v). obj_insert k v fs) (map (\<lambda>(k, v). (k, JStr v)) acc') (map (\<lambda>(k, v). (k, JStr v)) headers) = map (\<lambda>(k, v). (k, JStr v)) hs"
    "sorted_wrt (<) (map fst hs)" "set hs \<subseteq> set acc' \<union> set headers" "map_of hs = map_of acc' ++ map_of (rev headers)" by blast
  then show ?case using a(1,3,4)
    by (intro exI [of _ hs]) (auto simp: p fun_eq_iff map_add_def split: option.splits)
qed

text \<open>What the handler's reader needs of a request: names are tokens, and no text poses as the header looked for.\<close>

definition readable_headers :: "string \<Rightarrow> (string \<times> string) list \<Rightarrow> bool" where
  "readable_headers f headers \<longleftrightarrow> list_all (\<lambda>(k, v). plain_field k \<and> \<not> mimics f v) headers"

lemma pick_header_sent:
  assumes "json_printer S e" "utf8_valid body" "\<not> mimics ''headers'' body" "plain_field f" "hd f \<notin> {CHR '':'', CHR '','', CHR ''{''}"
    and h: "readable_headers f headers" "map_of (rev headers) f = Some w"
  shows "pick_header (json_text S (request_json q headers body)) f = Some w"
proof -
  obtain hs where hs: "obj_of (map (\<lambda>(k, v). (k, JStr v)) headers) = JObj (map (\<lambda>(k, v). (k, JStr v)) hs)"
    "sorted_wrt (<) (map fst hs)" "set hs \<subseteq> set headers" "map_of hs = map_of (rev headers)"
    using obj_of_strings_acc [of "[]" headers] by (auto simp: obj_of_def)
  then have "(f, w) \<in> set hs" using h(2) map_of_SomeD [of hs f w] by simp
  then obtain pre post where split: "hs = pre @ (f, w) # post" by (meson split_list)
  have "k < f" if "(k, v) \<in> set pre" for k v
    using hs(2) that unfolding split by (auto simp: sorted_wrt_append)
  then have "list_all (\<lambda>(k, v). plain_field k \<and> k \<noteq> f \<and> \<not> mimics f v) pre"
    using h(1) hs(3) unfolding split readable_headers_def by (force simp: list_all_iff)
  with hs(1) show ?thesis using assms(1-5) unfolding split by (intro pick_header_printed) auto
qed

lemma bearer_token:
  assumes "ascii_text token" "\<forall>c \<in> set token. 32 < (of_char c :: nat)" "looks_like_jwt token"
  shows "extract_token (''Bearer '' @ token) body query_str = Some token"
proof -
  have ne: "token \<noteq> []" using assms(3) by (auto simp: looks_like_jwt_def)
  then have "32 < (of_char (last token) :: nat)" "32 < (of_char (hd token) :: nat)" using assms(2) by auto
  then have "trim (''Bearer '' @ token) = ''Bearer '' @ token" "trim token = token"
    using assms(1) ne by (auto intro!: trim_id simp: ascii_text_def)
  then show ?thesis using assms(3) by (simp add: extract_token_def bearer_in_header_def strip_prefix_def jwt_of_def starts_with_iff)
qed

section \<open>A route behind the auth handler\<close>

text \<open>\<open>invoke_runtime\<close> on the auth component: it may fail, and a result is what the handler returned.\<close>

definition runs_auth :: "(string \<Rightarrow> string \<Rightarrow> string + string) \<Rightarrow> auth_env \<Rightarrow> bool" where
  "runs_auth I A \<longleftrightarrow> (\<forall>data b. I ''auth'' data = Inr b \<longrightarrow> b = auth_execute A data)"

text \<open>A request that the router gives to the auth component, with the body read.\<close>

definition auth_routed :: "'d server_env \<Rightarrow> request \<Rightarrow> 'd server \<Rightarrow> string \<Rightarrow> bool" where
  "auth_routed V q s body \<longleftrightarrow> \<not> builtin (q_method q) (q_path q) \<and> q_body q = Inr body \<and>
     (\<exists>m. lookup V (q_method q) (q_path q) s = Inr (Some m) \<and> m_kind m = KWasm \<and> m_handler m = ''auth'')"

definition sent_text :: "'d server_env \<Rightarrow> request \<Rightarrow> string \<Rightarrow> string" where
  "sent_text V q body = json_text (sv_serde V) (request_json q (request_headers q) body)"

lemma read_structured:
  assumes "answers_parsed S" "status < 65536"
  shows "read_answer S (structured_response status ''application/json'' body) = \<lparr>w_status = status, w_body = body, w_ctype = Some ''application/json''\<rparr>"
  using assms by (simp add: answers_parsed_def read_answer_def)

text \<open>What the server makes of the outcome of the component.\<close>

lemma auth_route_answer:
  assumes "answers_parsed (sv_serde V)" "http_ok (sv_http V)" "status_ok (sv_http V) st" "st < 65536"
    and "auth_routed V q s body" "utf8_valid (sent_text V q body)"
    and "I ''auth'' (sent_text V q body) = Inr (structured_response st ''application/json'' b)"
  shows "\<exists>r. handle V (Some (dispatch (sv_serde V) I)) q s = (Some r, s) \<and> r_status r = st \<and> r_body r = b"
proof -
  obtain m where m: "\<not> builtin (q_method q) (q_path q)" "q_body q = Inr body" "lookup V (q_method q) (q_path q) s = Inr (Some m)"
    "m_kind m = KWasm" "m_handler m = ''auth''" using assms(5) by (auto simp: auth_routed_def)
  have "dispatch (sv_serde V) I ''auth'' (sent_text V q body) = Inr \<lparr>w_status = st, w_body = b, w_ctype = Some ''application/json''\<rparr>"
    using assms(1,4,6,7) by (simp add: dispatch_def read_structured)
  then show ?thesis using assms(2,3) m
    by (simp add: handle_def execute_def execute_wasm_def sent_text_def from_u16_def build_def cors_def http_ok_simps or_build_error_def)
qed

lemma auth_route_failure:
  assumes "http_ok (sv_http V)" "auth_routed V q s body" "utf8_valid (sent_text V q body)" "I ''auth'' (sent_text V q body) = Inl err"
  shows "\<exists>r. handle V (Some (dispatch (sv_serde V) I)) q s = (Some r, s) \<and> r_status r = 500"
proof -
  obtain m where m: "\<not> builtin (q_method q) (q_path q)" "q_body q = Inr body" "lookup V (q_method q) (q_path q) s = Inr (Some m)"
    "m_kind m = KWasm" "m_handler m = ''auth''" using assms(2) by (auto simp: auth_routed_def)
  have "dispatch (sv_serde V) I ''auth'' (sent_text V q body) = Inl err" using assms(3,4) by (simp add: dispatch_def)
  then show ?thesis using assms(1) m
    by (simp add: handle_def execute_def execute_wasm_def sent_text_def error_json_def json_response_def build_def cors_def ctype_or_def http_ok_simps)
qed

text \<open>A request that carries a bearer token in its authorization header, in a form that neither the body nor another
  header can hide.\<close>

definition bearer_request :: "request \<Rightarrow> string \<Rightarrow> string \<Rightarrow> bool" where
  "bearer_request q body token \<longleftrightarrow> utf8_valid body \<and> \<not> mimics ''headers'' body \<and>
     readable_headers ''authorization'' (request_headers q) \<and> map_of (rev (request_headers q)) ''authorization'' = Some (''Bearer '' @ token) \<and>
     looks_like_jwt token \<and> ascii_text token \<and> (\<forall>c \<in> set token. 32 < (of_char c :: nat))"

lemma bearer_found:
  assumes "json_printer (sv_serde V) e" "bearer_request q body token"
  shows "request_token (sent_text V q body) = Some token"
proof -
  have "pick_header (sent_text V q body) ''authorization'' = Some (''Bearer '' @ token)"
    unfolding sent_text_def using assms unfolding bearer_request_def by (intro pick_header_sent) auto
  then show ?thesis using assms(2) bearer_token [of token] by (simp add: request_token_def or_empty_def bearer_request_def)
qed


text \<open>It applies to a server with one route: the library prints and parses by the book, the request carries the toy
  token.\<close>

fun toy_print :: "json \<Rightarrow> string" where
  "toy_print JNull = ''null''"
| "toy_print (JBool b) = (if b then ''true'' else ''false'')"
| "toy_print (JInt i) = ''0''"
| "toy_print (JFloat f) = ''0''"
| "toy_print (JStr s) = quoted (push_json_escaped s)"
| "toy_print (JArr js) = CHR ''['' # join_with CHR '','' (map toy_print js) @ '']''"
| "toy_print (JObj kvs) = CHR ''{'' # join_with CHR '','' (map (\<lambda>(k, v). quoted (push_json_escaped k) @ CHR '':'' # toy_print v) kvs) @ ''}''"

text \<open>A parser good enough for the handlers' answers: it reads the three fields.\<close>

definition toy_parse_answer :: "string \<Rightarrow> json option" where
  "toy_parse_answer s =
     (case (pick_number s ''status'', pick_string s ''body'') of
        (Some n, Some b) \<Rightarrow> (case parse_uint 65535 n of
           Some i \<Rightarrow> Some (JObj [(''body'', JStr b), (''ctype'', JStr ''application/json''), (''status'', JInt (int i))]) | None \<Rightarrow> None)
      | _ \<Rightarrow> None)"

definition toy_serde :: serde where
  "toy_serde = \<lparr>json_text = toy_print, json_parse = toy_parse_answer\<rparr>"

lemma toy_printer: "json_printer toy_serde json_escape_char"
  by (simp add: json_printer_def handler.json_escaper_axioms toy_serde_def print_fields_def push_json_escaped_def)

lemma toy_answers: "answers_parsed toy_serde"
  by (simp add: answers_parsed_def toy_serde_def toy_parse_answer_def structured_response_fields parse_uint_show)

definition toy_gate :: "nat server_env" where
  "toy_gate = \<lparr>sv_serde = toy_serde, sv_http = toy_lib, sv_engine = toy_engine,
     sv_routes = (\<lambda>d t. Some \<lparr>rt_has_kind = True, rt_rows = [(toy_route ''/*'' ''auth'' 0)\<lparr>rt_kind := CText ''wasm''\<rparr>]\<rparr>),
     sv_glob = (\<lambda>pat path. True), sv_alnum = (\<lambda>c. False), sv_url_decode = Some, sv_routes_table = ''routes''\<rparr>"

definition toy_call :: request where
  "toy_call = (toy_get ''/me'')\<lparr>q_headers := [(''accept'', Some ''*/*''), (''authorization'', Some (''Bearer '' @ toy_token toy_claims))]\<rparr>"

lemma toy_gate_routed: "auth_routed toy_gate toy_call \<lparr>poisoned = False, db_state = 0\<rparr> []"
proof -
  have "from_utf8_lossy ''auth'' = ''auth''" "from_utf8_lossy ''wasm'' = ''wasm''" "route_kind_parse ''wasm'' = KWasm" by code_simp+
  then show ?thesis
    by (simp add: auth_routed_def toy_call_def toy_get_def builtin_def toy_gate_def lookup_def is_safe_ident_def ident_chars.simps(2) ascii_alnum_def
        char_len_def best_route_sel_def route_applies_def toy_route_def row_match_def nth_cell_def column_value_def coalesce_def)
qed

lemma toy_sent: "utf8_valid (sent_text toy_gate toy_call [])"
  by code_simp

definition toy_invoke :: "string \<Rightarrow> string \<Rightarrow> string + string" where
  "toy_invoke name data = (if name = ''auth'' then Inr (auth_execute toy_auth data) else Inl ''no such runtime'')"

lemma toy_bearer: "bearer_request toy_call [] (toy_token toy_claims)"
proof -
  have h: "request_headers toy_call = [(''accept'', ''*/*''), (''authorization'', ''Bearer '' @ toy_token toy_claims)]"
    by (simp add: request_headers_def toy_call_def map_filter_simps)
  have "\<not> mimics ''headers'' []" by (simp add: mimics_def Cons_eq_append_conv)
  moreover have "readable_headers ''authorization'' (request_headers toy_call)"
    unfolding h readable_headers_def by (auto simp: plain_field_def toy_token_def dest!: mimics_last)
  moreover have "looks_like_jwt (toy_token toy_claims)" by code_simp
  moreover have "ascii_text (toy_token toy_claims)" "\<forall>c \<in> set (toy_token toy_claims). 32 < (of_char c :: nat)"
    by (simp_all add: ascii_text_def toy_token_def toy_claims_def quoted_def)
  moreover have "utf8_valid []" by code_simp
  ultimately show ?thesis unfolding bearer_request_def by (simp add: h)
qed


section \<open>Headers that pose as fields\<close>

text \<open>The objects of a request are printed in the order of their names, and headers come before method, path and
  query. A handler that looks for a quoted \<open>path\<close> finds a header of that name first: the client chooses
  the path the handler sees. A body that is the word \<open>headers\<close> hides all headers.\<close>

definition posing :: request where
  "posing = (toy_get ''/public'')\<lparr>q_headers := [(''path'', Some ''/admin'')]\<rparr>"

lemma header_poses_as_path:
  "q_path posing = ''/public'' \<and> pick_string (sent_text toy_gate posing []) ''path'' = Some ''/admin''"
  by code_simp

lemma body_hides_headers:
  "pick_header (sent_text toy_gate toy_call []) ''authorization'' = Some (''Bearer '' @ toy_token toy_claims)"
  "pick_header (sent_text toy_gate toy_call ''headers'') ''authorization'' = None"
  by code_simp+

end
