(* ===== verification/Httpd_Setup.thy ===== *)
theory Httpd_Setup
  imports Httpd_Router Parsers
begin

text \<open>
  Starting the server: the repeatable arguments of \<^verbatim>\<open>sqlink-httpd/src/main.rs\<close> (\<open>--load\<close>, \<open>--env\<close>) and the creation of the
  routes table (\<open>init_routes_table\<close> of \<^verbatim>\<open>router.rs\<close>). The file system and the environment are parameters.

  Shown: accepted components have distinct names and existing files, in the order given; only the variables named
  are passed on; an unsafe table name never reaches the database.
\<close>

section \<open>Arguments\<close>

datatype arg_error =
    NoFileStem string
  | NotAFile string string
  | NameTaken string string
  | VarNotSet string
  | EmptyKey string

definition load_entry :: "string \<Rightarrow> arg_error + string \<times> string" where
  "load_entry entry =
     (case split_once CHR ''='' entry of
        Some (name, path) \<Rightarrow> Inr (name, path)
      | None \<Rightarrow> (case file_stem entry of Some stem \<Rightarrow> Inr (stem, entry) | None \<Rightarrow> Inl (NoFileStem entry)))"

fun parse_loads_from :: "(string \<Rightarrow> bool) \<Rightarrow> string list \<Rightarrow> string list \<Rightarrow> arg_error + (string \<times> string) list" where
  "parse_loads_from is_file seen [] = Inr []"
| "parse_loads_from is_file seen (entry # raw) =
     sbind (load_entry entry) (\<lambda>(name, path).
       if \<not> is_file path then Inl (NotAFile entry path)
       else if name \<in> set seen then Inl (NameTaken entry name)
       else sbind (parse_loads_from is_file (name # seen) raw) (\<lambda>rest. Inr ((name, path) # rest)))"

definition parse_loads :: "(string \<Rightarrow> bool) \<Rightarrow> string list \<Rightarrow> arg_error + (string \<times> string) list" where
  "parse_loads is_file raw = parse_loads_from is_file [] raw"

fun parse_envs :: "(string \<Rightarrow> string option) \<Rightarrow> string list \<Rightarrow> arg_error + (string \<times> string) list" where
  "parse_envs env [] = Inr []"
| "parse_envs env (entry # raw) =
     sbind (case split_once CHR ''='' entry of
              Some kv \<Rightarrow> Inr kv
            | None \<Rightarrow> (case env entry of Some v \<Rightarrow> Inr (entry, v) | None \<Rightarrow> Inl (VarNotSet entry)))
       (\<lambda>(k, v). if k = [] then Inl (EmptyKey entry)
                else sbind (parse_envs env raw) (\<lambda>rest. Inr ((k, v) # rest)))"

section \<open>The routes table\<close>

definition nl_indent :: "nat \<Rightarrow> string" where
  "nl_indent n = CHR 0x0A # replicate n CHR '' ''"

definition sq :: "string \<Rightarrow> string" where
  "sq s = [CHR 0x27] @ s @ [CHR 0x27]"

definition create_routes_sql :: "string \<Rightarrow> string" where
  "create_routes_sql table =
     ''CREATE TABLE IF NOT EXISTS '' @ table @ '' ('' @
     nl_indent 12 @ ''method   TEXT NOT NULL,'' @
     nl_indent 12 @ ''pattern  TEXT NOT NULL,'' @
     nl_indent 12 @ ''handler  TEXT NOT NULL,'' @
     nl_indent 12 @ ''kind     TEXT NOT NULL DEFAULT '' @ sq ''sql'' @ '','' @
     nl_indent 12 @ ''status   INTEGER DEFAULT 200,'' @
     nl_indent 12 @ ''ctype    TEXT,'' @
     nl_indent 12 @ ''priority INTEGER DEFAULT 0'' @
     nl_indent 9 @ '')''"

definition add_kind_sql :: "string \<Rightarrow> string" where
  "add_kind_sql table = ''ALTER TABLE '' @ table @ '' ADD COLUMN kind TEXT NOT NULL DEFAULT '' @ sq ''sql''"

definition seed_route_sql :: "string \<Rightarrow> string" where
  "seed_route_sql table =
     ''INSERT INTO '' @ table @ '' (method, pattern, handler, ctype) VALUES ('' @ sq ''GET'' @ '', '' @ sq ''/hello'' @ '', '' @
     sq (''SELECT '' @ sq (sq ''{}'') @ '' AS body'') @ '', '' @ sq ''application/json'' @ '')''"

definition count_of :: "json list list \<Rightarrow> int" where
  "count_of rows =
     (case rows of (v # _) # _ \<Rightarrow> (case json_as_i64 v of Some i \<Rightarrow> i | None \<Rightarrow> 0) | _ \<Rightarrow> 0)"

definition on_db :: "(string, 'd, 'a) op \<Rightarrow> (string, 'd server, 'a) op" where
  "on_db m s = (case m (db_state s) of (r, d) \<Rightarrow> (r, s\<lparr>db_state := d\<rparr>))"

definition init_routes_table :: "'d server_env \<Rightarrow> string \<Rightarrow> (string, 'd server, unit) op" where
  "init_routes_table V table s =
     (if \<not> is_safe_ident (sv_alnum V) table then (Inl ''bad routes table name'', s)
      else if poisoned s then (Inl ''conn lock'', s)
      else on_db
        (bnd (query_all (sv_serde V) (sv_engine V) (create_routes_sql table)) (\<lambda>_.
         bnd (as_result (query_all (sv_serde V) (sv_engine V) (add_kind_sql table))) (\<lambda>_.
         bnd (query_all (sv_serde V) (sv_engine V) (''SELECT count(*) FROM '' @ table)) (\<lambda>(_, rows).
         if count_of rows = 0 then bnd (query_all (sv_serde V) (sv_engine V) (seed_route_sql table)) (\<lambda>_. ret ())
         else ret ())))) s)"

section \<open>What is accepted\<close>

lemma parse_loads_from_sound:
  "parse_loads_from is_file seen raw = Inr out \<Longrightarrow>
    length out = length raw \<and> distinct (map fst out) \<and> set (map fst out) \<inter> set seen = {} \<and> (\<forall>(n, p) \<in> set out. is_file p) \<and>
    map Inr out = map load_entry raw"
proof (induction is_file seen raw arbitrary: out rule: parse_loads_from.induct)
  case (2 is_file seen entry raw)
  then obtain n p rest where e: "load_entry entry = Inr (n, p)" "is_file p" "n \<notin> set seen"
    "parse_loads_from is_file (n # seen) raw = Inr rest" "out = (n, p) # rest"
    by (auto simp: sbind_eq_Inr_iff split: if_splits)
  then have "length rest = length raw \<and> distinct (map fst rest) \<and> set (map fst rest) \<inter> set (n # seen) = {} \<and> (\<forall>(n, p) \<in> set rest. is_file p) \<and>
    map Inr rest = map load_entry raw" using 2(1) [of p n rest] by blast
  with e show ?case by auto
qed simp

text \<open>The components that are loaded: one per argument, in order, under distinct names, each an existing file.\<close>

lemma parse_loads_sound:
  assumes "parse_loads is_file raw = Inr out"
  shows "distinct (map fst out) \<and> (\<forall>(n, p) \<in> set out. is_file p) \<and> map Inr out = map load_entry raw"
  using parse_loads_from_sound [OF assms [unfolded parse_loads_def]] by blast

lemma parse_envs_sound:
  "parse_envs env raw = Inr out \<Longrightarrow>
    list_all2 (\<lambda>entry (k, v). k \<noteq> [] \<and> (entry = k @ CHR ''='' # v \<and> CHR ''='' \<notin> set k \<or> entry = k \<and> CHR ''='' \<notin> set k \<and> env k = Some v)) raw out"
proof (induction raw arbitrary: out)
  case (Cons entry raw)
  have no: "CHR ''='' \<notin> set entry" if "split_once CHR ''='' entry = None"
    using that split_once_eq_Some [of "CHR ''=''" entry] by (metis option.distinct(1) split_list_first)
  from Cons.prems show ?case
    by (auto simp: sbind_eq_Inr_iff split_once_eq_Some no Cons.IH split: if_splits option.splits)
qed simp

text \<open>An unsafe name changes nothing.\<close>

lemma init_routes_unsafe:
  "\<not> is_safe_ident (sv_alnum V) table \<Longrightarrow> init_routes_table V table s = (Inl ''bad routes table name'', s)"
  by (simp add: init_routes_table_def)

end
