(* ===== verification/Spec2Isabelle.thy ===== *)
theory Spec2Isabelle
  imports Extension_Serving Extension_Lifecycle Vtab_Trampolines Sqlite_Runtime Guest_Imports Loader_Install Cas_System Component_Loader Prefix_Registry Host_Security Uri_Loader Httpd_Auth Httpd_Setup
begin

text \<open>
  A verification library for sqlink, a host that extends SQLite with WebAssembly components.

  \<^bold>\<open>The program.\<close> Extensions are components addressed by content. The crate \<^verbatim>\<open>sqlite-cas-cache\<close>
  keeps them in a SQLite database: artifacts under the BLAKE3 hash of their bytes (with a SHA-256 mirror), URIs bound
  to hashes, and bundles (named sets of extensions with their built binaries). The crate \<^verbatim>\<open>host\<close> resolves a URI
  through that cache, compiles the bytes once and keeps the compiled component in two tiers, checks trust and
  capability policies before anything runs, registers functions under collision-free names, and serves the calls of
  SQLite by speaking a CBOR envelope with provider components or by calling bridge instances. The crate \<^verbatim>\<open>sqlink-parsers\<close> parses what users write.
  The crate \<^verbatim>\<open>sqlink-httpd\<close> serves a database over HTTP.

  \<^bold>\<open>Theories and sources\<close>, in the order of import.

  \<^item> \<open>Prelude\<close>, \<open>Rust_Text\<close>: state-and-error operations (\<open>op\<close>, \<open>bnd\<close>, \<open>keeps\<close>), casts at their
    width, tables as lists of rows with keys, and the text functions of Rust's standard library the sources use.
    Strings are UTF-8 bytes throughout. \<open>Frame_Logic\<close>: what an operation leaves of a state, as a relation closed
    under sequencing.
  \<^item> \<open>Sql_Conn\<close>: the tables of \<^verbatim>\<open>schema.rs\<close> as records, their constraints as table operations, the connection with its
    clock, lock contention and write failures.
  \<^item> \<open>Content_Store\<close> (interface), \<open>Cas_Store\<close>, \<open>Cas_Evict\<close>, \<open>Cas_Resolver\<close>, \<open>Cas_Blob\<close>,
    \<open>Cas_Transfer\<close>: \<^verbatim>\<open>store.rs\<close> and \<^verbatim>\<open>resolver.rs\<close>, one definition per method and per prepared statement. The lemmas give
    the functional behaviour of each method on every branch, the invariant \<open>store_inv\<close>, what
    collection and eviction remove and that eviction reaches its target, what a fetch may return and store, and
    the effect of a merge or an export.
  \<^item> \<open>Cas_Schema\<close>: the scripts of \<^verbatim>\<open>schema.rs\<close> statement by statement and \<open>install_schema\<close>: any supported version is
    upgraded to the current tables, an unknown one is refused, contention is survived.
  \<^item> \<open>Bundle_Registry\<close> (interface), \<open>Bundle_Sql\<close>, \<open>Bundles\<close>, \<open>Bundles_Exec\<close>: the two implementations of the bundle
    registry (\<^verbatim>\<open>bundles.rs\<close>, \<^verbatim>\<open>bundles_exec.rs\<close>) and their behaviour. Both are written over the statements of \<open>Bundle_Sql\<close>,
    so the copies of the SQL texts in the two files are not compared.
  \<^item> \<open>Cas_System\<close> and this theory: all of the above on one connection, as a step relation; every reachable cache is
    sound.
  \<^item> \<open>Parsers\<close>: \<^verbatim>\<open>sqlink-parsers/src\<close>.
  \<^item> \<open>Host_Cache\<close> (\<^verbatim>\<open>host/src/cache.rs\<close>), \<open>Component_Cache\<close> (\<^verbatim>\<open>component_blob_cache.rs\<close>),
    \<open>Prefix_Registry\<close> (\<^verbatim>\<open>prefix_registry.rs\<close>).
  \<^item> From \<^verbatim>\<open>host/src/lib.rs\<close>: \<open>Provider_Envelope\<close> (module \<open>provider_envelope\<close>: every request
    encoder and answer decoder), \<open>Host_Security\<close> (operator policy, HTTP and DNS gates, trust policies and
    provider registration, catalog lookup, authorizer codes), \<open>Component_Loader\<close> (\<open>component_for_digest\<close>
    over the LRU and the blob tier), \<open>Uri_Loader\<close> (\<open>resolve_uri_to_bytes\<close>, \<open>load_extension_from_uri\<close>,
    prefix and function recording, \<open>manifest_for_provider\<close>). A provider registered by \<open>register_wasm_provider_in_async\<close> has passed the
    trust policy, stated by \<open>admits\<close> in terms of the listed digests and of what each anchor answers; a URI load instantiates
    the artifact the URI names, by digest or by binding, or the file of a \<open>file:\<close> URI;
    extensions with different expansions get different prefixes, as long as numbered alternatives last.
  \<^item> \<open>Typed_Values\<close> (\<^verbatim>\<open>typed_value.rs\<close>) and \<open>Sub_Ext\<close> (\<^verbatim>\<open>sub_ext.rs\<close>): the registry of typed values with the
    conversions that use it, and the configuration of sub-extensions with their aliases.
  \<^item> \<open>Extension_Host\<close>: the registries of loaded extensions, from \<^verbatim>\<open>lib.rs\<close> and \<^verbatim>\<open>compose_provider.rs\<close> (\<open>load_extension\<close>,
    loading from bytes, bridges, describing, unloading, language runtimes, the resolvers of providers).
    \<open>Extension_Dispatch\<close>: every \<open>try_bridge_*\<close>, \<open>try_provider_*\<close> and \<open>dispatch_*\<close> method.
    \<open>Extension_Registry\<close>: when a load returns (the relation \<open>bridge_to\<close> of the configuration ends), what it registers and
    with which capabilities, and the invariant of the registries. \<open>Extension_Calls\<close>: the calls as one type and what they leave alone.
    \<open>Extension_Serving\<close>: a call through a resident provider refines the extension's own operation.
    \<open>Extension_Lifecycle\<close>: the steps of a host, its reachable states and unloading.
  \<^item> \<open>Vtab_Trampolines\<close> (\<^verbatim>\<open>vtab.rs\<close>): the callbacks SQLite calls for a virtual table. A batched scan shows exactly the
    rows the extension delivers, and the ids of tables and cursors are fresh, whatever the order of the calls.
  \<^item> \<open>Sqlite_Runtime\<close> (the provider \<open>sqlite-runtime\<close> of \<^verbatim>\<open>compose_provider.rs\<close>): queries and prepared statements; a statement
    delivers its rows in order, whatever is asked in between.
  \<^item> \<open>Resident_Services\<close> (\<^verbatim>\<open>http_resident.rs\<close>, \<^verbatim>\<open>s3_resident.rs\<close>, \<^verbatim>\<open>compression_resident.rs\<close>, and the network part of \<^verbatim>\<open>lib.rs\<close>) and
    \<open>Guest_Imports\<close> (\<^verbatim>\<open>wasmos_imports.rs\<close>, \<^verbatim>\<open>wasmos_install_flow.rs\<close>): what a provider can call on the host.
    \<open>link_resident\<close> gives the sets of imports a resident provider is linked with; for the \<open>sqlite:extension\<close> set everything
    that leaves the host is logged, and is covered by the grants of the provider. The compression component comes from the
    cache or from the catalog and has the digest that the catalog's manifest names.
  \<^item> \<^verbatim>\<open>sqlink-extension\<close>: \<open>Loader_Values\<close> (\<^verbatim>\<open>value.rs\<close>), \<open>Loader_Functions\<close> (the callbacks of \<^verbatim>\<open>register.rs\<close>) and
    \<open>Loader_Install\<close> (\<^verbatim>\<open>load.rs\<close>, \<^verbatim>\<open>lib.rs\<close>, \<^verbatim>\<open>state.rs\<close>, registration). Values survive the way through SQLite, typed ones included;
    groups of an aggregate never share a context id, by refinement of a small book of groups; a load installs what the
    manifest declares, one target for each slot (name and arity), and a registration of a taken slot replaces the old one.
  \<^item> \<^verbatim>\<open>sqlink-httpd\<close>: \<open>Handler_Json\<close> and \<open>Auth_Handler\<close> (\<^verbatim>\<open>handlers/auth/src/lib.rs\<close>: reading the request
    text, finding and verifying a token), \<open>Httpd_Db\<close> (\<^verbatim>\<open>db.rs\<close>), \<open>Httpd_Router\<close> (\<^verbatim>\<open>router.rs\<close>, \<^verbatim>\<open>routes.rs\<close>,
    \<^verbatim>\<open>wasm.rs\<close>: the whole request handler), \<open>Httpd_Setup\<close> (\<^verbatim>\<open>main.rs\<close>, \<open>init_routes_table\<close>), and
    \<open>Httpd_Auth\<close>, which runs the handler behind the router. The lemmas give which route answers, that answers are well
    formed and exactly when building one panics, and what the auth handler decides, alone and behind a route. The handler
    reads JSON by searching text, so the decision is exact for the tokens of a faithful issuer (\<open>token_of\<close>: claims printed as
    JSON, with no text that poses as a claim); \<open>expired_tokens_admitted\<close> and \<open>body_hides_headers\<close> show what happens otherwise.

  \<^bold>\<open>Interfaces.\<close> The locales \<open>content_store\<close>, \<open>blob_backend\<close>, \<open>builtin_resolver\<close>,
  \<open>bundle_registry\<close>, \<open>prefix_store\<close>, \<open>key_stable\<close>, \<open>json_escaper\<close>, \<open>wire_format\<close>,
  \<open>dispatch_tier\<close>, \<open>two_tiers\<close>, \<open>served\<close>, \<open>frame_relation\<close> and \<open>registrar\<close> state what clients rely on; each is interpreted on the
  definitions of the model.

  \<^bold>\<open>Parameters and hypotheses.\<close> Code outside the repository is an argument: the hash functions
  (\<open>hashers\<close>; \<open>digests_32\<close>: digests have 32 bytes), file system, environment and HTTP client,
  the policy crate (\<open>policy_api\<close>, \<open>policy_checks\<close>), the frame format of sealed blobs (\<open>frames_open\<close>), the
  CBOR byte codec (\<open>codec_ok\<close>: decoding inverts encoding), the compiler (\<open>serial_ok\<close>: a
  deserialised component is the serialised one), signature verification and provider construction
  (\<open>provider_env\<close>), the naming rules of prefixes (\<open>prefix_rules\<close>), the clock, HMAC and base64 (\<open>auth_env\<close>), JSON printing and parsing
  (\<open>serde\<close>; \<open>json_printer\<close>, \<open>answers_parsed\<close>), the HTTP library (\<open>http_lib\<close>; \<open>http_ok\<close>) and SQLite under the
  web server (\<open>engine\<close>; \<open>rows_ok\<close>: rows are as wide as the column list), and the guests themselves: what a provider
  answers, what a bridge instance exports and does (\<open>guest_env\<close>, \<open>guest_api\<close>; \<open>speaks\<close>: an endpoint performs the
  operation a message names), the services they reach (\<open>service_env\<close>), the host's connection (\<open>conn_api\<close>), and the SQLite that loads the
  extension (\<open>install_env\<close>; \<open>sqlite_cells\<close>: a result is kept up to the length limit). The order of a hash map is the order of an association list. Collision resistance is never assumed
  in general; where a result depends on two inputs not colliding, the theorem says so.

  \<^bold>\<open>Loops and bounds.\<close> Loops are total functions: the eviction loops end because every turn
  deletes a row, the migration loop because every step raises the version, retries and collision
  suffixes count to the limits of the source (the suffix 999), and wire values are read to the
  depth 16 that covers every envelope. No operation uses fuel; where a theorem follows a scan to its end, the count of turns
  it needs is part of the statement.
  Two loops of the source need not end: \<open>load_extension\<close> follows bridge names without a bound, and \<open>execute\<close> of the provider
  \<open>sqlite-runtime\<close> steps a statement until it is done. They are partial functions into \<open>option\<close>; \<open>load_extension_terminates\<close> and
  \<open>step_to_done_returns\<close> say when they return.

  \<^bold>\<open>Not modelled.\<close> In \<^verbatim>\<open>store.rs\<close> the cache of prepared statements, I/O failures inside the
  engine, directory creation and the accessors of the configuration. In \<^verbatim>\<open>host\<close> the instantiation of components in the
  WebAssembly runtime and how imports are linked into them (the rest of \<^verbatim>\<open>compose_provider.rs\<close> and of \<^verbatim>\<open>wasmos_*.rs\<close>),
  guests that call back into the host while they are being called (so no claim is made that a call leaves other extensions
  alone), the handlers behind WASI, the dynlink linker, SPI, sessions, the loader bridge and the command line output, the objects behind the pointers of \<^verbatim>\<open>vtab.rs\<close>,
  the virtual tables of the loadable extension (the callbacks in its \<^verbatim>\<open>vtab.rs\<close>), the native S3 client behind its feature, and the command line: what they do is what the
  runtime, SQLite or a submodule does. Timing counters and logging are left out.
\<close>

section \<open>The cache in use\<close>

text \<open>C1. The cache is always sound. Whatever sequence of operations clients run on a new cache, in any order
  and with any failures (store, blob backend, resolver, bundle registry, merges of compatible stores),
  every stored artifact is addressed by the hash of its bytes, every URI points at a stored artifact,
  and every member, binary and alias belongs to an existing bundle. Hence resolving a bound URI always
  succeeds, with bytes of the bound hash.\<close>

theorem cache_always_sound:
  assumes "cas_reachable H c" "digests_32 H"
  shows "cache_inv H c \<and>
    (\<forall>u h. bindings c u = Some h \<longrightarrow> (\<exists>b c'. resolve_uri u c = (Inr (Some (h, b)), c') \<and> blake3 H b = h))"
proof -
  have inv: "cache_inv H c" using assms(1) by (rule reachable_cache_inv)
  with bound_resolves [OF _ assms(2)] show ?thesis unfolding cache_inv_def by blast
qed

definition session :: "cas_call list" where
  "session = [Put [1], SetUri ''x'' (blake3 toy_hashers [1]), BundleSave (Some ''dev'') ''c0ffee'' two_members, EvictLru 0, Gc]"

lemma session_reachable: "cas_reachable H c \<Longrightarrow> cas_reachable H (foldl (\<lambda>s k. run_call H k s) c ks)"
  by (induction ks arbitrary: c) (auto intro: cas_reachable.step cas_step.call)

theorem cache_always_sound_witness:
  "\<exists>c. install_schema (open_conn empty_db int) = (Inr (), c) \<and>
     cache_inv toy_hashers (foldl (\<lambda>s k. run_call toy_hashers k s) c session)"
proof -
  obtain c m where c: "install_schema (open_conn empty_db int) = (Inr (), c)" using seed_eval by blast
  have "cas_reachable toy_hashers (foldl (\<lambda>s k. run_call toy_hashers k s) c session)"
    by (intro session_reachable cas_reachable.fresh) (rule c)
  moreover have "digests_32 toy_hashers" by (rule toy_digests)
  ultimately show ?thesis using cache_always_sound c by blast
qed

end
